(* ===== verification/Rust_Std.thy ===== *)
theory Rust_Std
  imports Prelude
begin

text \<open>
  The part of the Rust language and its standard library that the modelled sources use.

  \<^item> A \<open>char\<close> is a Unicode scalar value, here its code point as a \<open>nat\<close>; a \<open>str\<close> or
    \<open>String\<close> is the list of its chars (\<open>rstr\<close>), and \<open>as_bytes\<close> is its UTF-8 encoding, a
    list of \<open>8 word\<close>. \<open>from_utf8\<close> is the strict decoder. The byte order of \<open>str::cmp\<close> is the
    lexicographic order of code points, so \<open>rstr\<close> uses the lexicographic order on lists.
  \<^item> \<open>lit ''abc''\<close> is the string literal \<open>"abc"\<close>.
  \<^item> \<open>i64\<close> values are \<open>int\<close> with the two's complement wrap of a release build written out in
    \<open>i64_add\<close>; \<open>/\<close> and \<open>%\<close> truncate towards zero (\<open>tdiv\<close>, \<open>trem\<close>).
  \<^item> A \<open>Path\<close> is looked at through \<open>Path::components\<close> on Unix (the build targets macOS); a
    \<open>PathBuf\<close> is its component list, which is what \<open>PathBuf::eq\<close> and \<open>starts_with\<close> compare.
  \<^item> The Unicode case and category tables (\<open>to_lowercase\<close>, \<open>is_alphanumeric\<close>) are data that the
    sources only call: they are parameters of the definitions that use them.
\<close>

named_theorems std_simps \<open>evaluation rules of the standard library model\<close>

type_synonym rchar = nat
type_synonym rstr = "nat list"
type_synonym u8 = "8 word"
type_synonym bytes = "8 word list"

definition lit :: "string \<Rightarrow> rstr" where
  "lit s = map of_char s"

lemma lit_simps [simp, std_simps]: "lit [] = []" "lit (c # s) = of_char c # lit s"
  by (simp_all add: lit_def)

section \<open>Machine integers\<close>

definition i64_max :: int where
  "i64_max = 9223372036854775807"

definition wrap_i64 :: "int \<Rightarrow> int" where
  "wrap_i64 x = (x + 9223372036854775808) mod 18446744073709551616 - 9223372036854775808"

definition i64_add :: "int \<Rightarrow> int \<Rightarrow> int" where
  "i64_add a b = wrap_i64 (a + b)"

definition tdiv :: "int \<Rightarrow> int \<Rightarrow> int" where
  "tdiv a b = sgn a * sgn b * (\<bar>a\<bar> div \<bar>b\<bar>)"

definition trem :: "int \<Rightarrow> int \<Rightarrow> int" where
  "trem a b = a - b * tdiv a b"

text \<open>\<open>usize::try_into::<i64>\<close> and the saturating cast \<open>len.min(i64::MAX as usize) as i64\<close>.\<close>

definition i64_try_from_usize :: "nat \<Rightarrow> int option" where
  "i64_try_from_usize n = (if int n \<le> i64_max then Some (int n) else None)"

definition i64_saturating_len :: "nat \<Rightarrow> int" where
  "i64_saturating_len n = min (int n) i64_max"

lemma wrap_i64_id: "- 9223372036854775808 \<le> x \<Longrightarrow> x \<le> i64_max \<Longrightarrow> wrap_i64 x = x"
  by (simp add: wrap_i64_def i64_max_def)

lemma wrap_i64_range: "- 9223372036854775808 \<le> wrap_i64 x \<and> wrap_i64 x \<le> i64_max"
proof -
  have "0 \<le> (x + 9223372036854775808) mod 18446744073709551616"
    and "(x + 9223372036854775808) mod 18446744073709551616 < 18446744073709551616"
    by (simp_all add: pos_mod_bound)
  then show ?thesis by (simp add: wrap_i64_def i64_max_def)
qed

lemma tdiv_neg: "a < 0 \<Longrightarrow> 0 < b \<Longrightarrow> tdiv a b = - ((- a) div b)"
  by (simp add: tdiv_def)

lemma tdiv_nonneg: "0 \<le> a \<Longrightarrow> 0 < b \<Longrightarrow> tdiv a b = a div b"
  by (cases "a = 0") (auto simp: tdiv_def)

lemma trem_nonneg: "0 \<le> a \<Longrightarrow> 0 < b \<Longrightarrow> trem a b = a mod b"
  by (simp add: trem_def tdiv_nonneg minus_mult_div_eq_mod)

lemma tdiv_literals [std_simps]:
  "tdiv 0 b = 0" "tdiv 1 (numeral n) = 1 div numeral n"
  "tdiv (numeral m) (numeral n) = numeral m div numeral n"
  "tdiv (- numeral m) (numeral n) = - (numeral m div numeral n)"
  by (simp_all add: tdiv_def)

lemma trem_literals [std_simps]:
  "trem 0 b = 0" "trem 1 (numeral n) = 1 mod numeral n"
  "trem (numeral m) (numeral n) = numeral m mod numeral n"
  by (simp_all only: trem_nonneg zero_le_numeral zero_less_numeral zero_le_one)
    (simp add: trem_def tdiv_def)

section \<open>Characters\<close>

definition valid_char :: "rchar \<Rightarrow> bool" where
  "valid_char c \<longleftrightarrow> c < 0xD800 \<or> (0xE000 \<le> c \<and> c \<le> 0x10FFFF)"

definition is_whitespace :: "rchar \<Rightarrow> bool" where
  "is_whitespace c \<longleftrightarrow> (9 \<le> c \<and> c \<le> 13) \<or> c = 32 \<or> c = 0x85 \<or> c = 0xA0 \<or> c = 0x1680 \<or>
     (0x2000 \<le> c \<and> c \<le> 0x200A) \<or> c = 0x2028 \<or> c = 0x2029 \<or> c = 0x202F \<or> c = 0x205F \<or> c = 0x3000"

definition is_control :: "rchar \<Rightarrow> bool" where
  "is_control c \<longleftrightarrow> c \<le> 0x1F \<or> (0x7F \<le> c \<and> c \<le> 0x9F)"

definition is_ascii_alphabetic :: "rchar \<Rightarrow> bool" where
  "is_ascii_alphabetic c \<longleftrightarrow> (65 \<le> c \<and> c \<le> 90) \<or> (97 \<le> c \<and> c \<le> 122)"

definition is_ascii_alphanumeric :: "rchar \<Rightarrow> bool" where
  "is_ascii_alphanumeric c \<longleftrightarrow> is_ascii_alphabetic c \<or> (48 \<le> c \<and> c \<le> 57)"

definition ascii_lower :: "rchar \<Rightarrow> rchar" where
  "ascii_lower c = (if 65 \<le> c \<and> c \<le> 90 then c + 32 else c)"

definition to_ascii_lowercase :: "rstr \<Rightarrow> rstr" where
  "to_ascii_lowercase s = map ascii_lower s"

definition eq_ignore_ascii_case :: "rstr \<Rightarrow> rstr \<Rightarrow> bool" where
  "eq_ignore_ascii_case a b \<longleftrightarrow> to_ascii_lowercase a = to_ascii_lowercase b"

lemma ascii_lower_idem [simp]: "ascii_lower (ascii_lower c) = ascii_lower c"
  by (simp add: ascii_lower_def)

lemma to_ascii_lowercase_idem [simp]:
  "to_ascii_lowercase (to_ascii_lowercase s) = to_ascii_lowercase s"
  by (simp add: to_ascii_lowercase_def)

section \<open>Strings\<close>

definition str_trim_start :: "rstr \<Rightarrow> rstr" where
  "str_trim_start s = dropWhile is_whitespace s"

definition str_trim :: "rstr \<Rightarrow> rstr" where
  "str_trim s = rev (dropWhile is_whitespace (rev (dropWhile is_whitespace s)))"

fun str_starts_with :: "rstr \<Rightarrow> rstr \<Rightarrow> bool" where
  "str_starts_with s [] = True"
| "str_starts_with [] (p # ps) = False"
| "str_starts_with (c # s) (p # ps) = (c = p \<and> str_starts_with s ps)"

definition str_ends_with :: "rstr \<Rightarrow> rstr \<Rightarrow> bool" where
  "str_ends_with s p = str_starts_with (rev s) (rev p)"

fun str_contains :: "rstr \<Rightarrow> rstr \<Rightarrow> bool" where
  "str_contains [] p = (p = [])"
| "str_contains (c # s) p = (str_starts_with (c # s) p \<or> str_contains s p)"

definition str_replace_char :: "rchar \<Rightarrow> rchar \<Rightarrow> rstr \<Rightarrow> rstr" where
  "str_replace_char a b s = map (\<lambda>c. if c = a then b else c) s"

text \<open>\<open>str::split\<close> on a predicate: always at least one piece, separators dropped.\<close>

fun str_split :: "(rchar \<Rightarrow> bool) \<Rightarrow> rstr \<Rightarrow> rstr list" where
  "str_split p [] = [[]]"
| "str_split p (c # s) =
     (if p c then [] # str_split p s
      else (case str_split p s of [] \<Rightarrow> [[c]] | w # ws \<Rightarrow> (c # w) # ws))"

text \<open>\<open>split_inclusive('\n')\<close>: every piece keeps its newline, no empty last piece.\<close>

fun split_inclusive :: "rstr \<Rightarrow> rstr list" where
  "split_inclusive [] = []"
| "split_inclusive (c # s) =
     (if c = 10 then [c] # split_inclusive s
      else (case split_inclusive s of [] \<Rightarrow> [[c]] | w # ws \<Rightarrow> (c # w) # ws))"

definition strip_line_end :: "rstr \<Rightarrow> rstr" where
  "strip_line_end s =
     (if s \<noteq> [] \<and> last s = 10
      then (let t = butlast s in if t \<noteq> [] \<and> last t = 13 then butlast t else t) else s)"

definition str_lines :: "rstr \<Rightarrow> rstr list" where
  "str_lines s = map strip_line_end (split_inclusive s)"

fun str_join :: "rstr \<Rightarrow> rstr list \<Rightarrow> rstr" where
  "str_join sep [] = []"
| "str_join sep [w] = w"
| "str_join sep (w # ws) = w @ sep @ str_join sep ws"

lemmas str_eval [std_simps] =
  str_trim_def str_trim_start_def str_ends_with_def str_replace_char_def strip_line_end_def
  str_lines_def to_ascii_lowercase_def ascii_lower_def eq_ignore_ascii_case_def is_whitespace_def
  is_control_def is_ascii_alphabetic_def is_ascii_alphanumeric_def

lemma str_split_not_Nil [simp]: "str_split p s \<noteq> []"
  by (induction s) (auto split: list.splits)

lemma str_starts_with_iff [list_facts]: "str_starts_with s p \<longleftrightarrow> (\<exists>t. s = p @ t)"
  by (induction s p rule: str_starts_with.induct) auto

lemma str_ends_with_iff [list_facts]: "str_ends_with s p \<longleftrightarrow> (\<exists>t. s = t @ p)"
proof
  assume "str_ends_with s p"
  then obtain t where "rev s = rev p @ t" by (auto simp: str_ends_with_def str_starts_with_iff)
  then have "s = rev t @ p" by (metis rev_append rev_rev_ident)
  then show "\<exists>t. s = t @ p" ..
qed (auto simp: str_ends_with_def str_starts_with_iff)

lemma str_contains_iff [list_facts]: "str_contains s p \<longleftrightarrow> (\<exists>a b. s = a @ p @ b)"
proof (induction s)
  case (Cons c s)
  have "(\<exists>a b. c # s = a @ p @ b) \<longleftrightarrow> (\<exists>b. c # s = p @ b) \<or> (\<exists>a b. s = a @ p @ b)"
    by (metis (no_types, lifting) append_Cons append_Nil neq_Nil_conv list.inject)
  with Cons show ?case by (simp add: str_starts_with_iff)
qed auto

lemma concat_split_inclusive [simp]: "concat (split_inclusive s) = s"
  by (induction s) (auto split: list.splits)

lemma split_inclusive_not_Nil: "w \<in> set (split_inclusive s) \<Longrightarrow> w \<noteq> []"
  by (induction s arbitrary: w) (auto split: list.splits if_splits)

lemma split_inclusive_eq_Nil [simp]: "split_inclusive s = [] \<longleftrightarrow> s = []"
  by (cases s) (auto split: list.splits)

lemma str_split_no_sep: "w \<in> set (str_split p s) \<Longrightarrow> c \<in> set w \<Longrightarrow> \<not> p c"
  by (induction s arbitrary: w) (fastforce split: list.splits if_splits)+

lemma str_split_chars: "w \<in> set (str_split p s) \<Longrightarrow> set w \<subseteq> set s"
  by (induction s arbitrary: w) (fastforce split: list.splits if_splits)+

lemma str_join_split: "str_join [sep] (str_split (\<lambda>c. c = sep) s) = s"
proof (induction s)
  case (Cons c s)
  show ?case
  proof (cases "str_split (\<lambda>c. c = sep) s")
    case (Cons w ws)
    then show ?thesis using Cons.IH by (cases ws) auto
  qed simp
qed simp

lemma str_split_append_sep:
  assumes "\<forall>c\<in>set w. \<not> p c" and "p x"
  shows "str_split p (w @ x # s) = w # str_split p s"
  using assms by (induction w) auto

lemma str_split_single: "\<forall>c\<in>set w. \<not> p c \<Longrightarrow> str_split p w = [w]"
  by (induction w) auto

lemma str_split_join:
  assumes "ws \<noteq> []" and "\<forall>w\<in>set ws. sep \<notin> set w"
  shows "str_split (\<lambda>c. c = sep) (str_join [sep] ws) = ws"
  using assms
proof (induction "[sep]" ws rule: str_join.induct)
  case (2 w)
  have "\<forall>c\<in>set w. c \<noteq> sep" using 2 by auto
  then show ?case by (simp add: str_split_single)
next
  case (3 w v ws)
  have "\<forall>c\<in>set w. c \<noteq> sep" using 3 by auto
  then show ?case using 3 by (simp add: str_split_append_sep)
qed simp

lemma str_trim_Nil [simp]: "str_trim [] = []"
  by (simp add: str_trim_def)

lemma str_trim_set: "set (str_trim s) \<subseteq> set s"
  unfolding str_trim_def by (metis set_dropWhileD set_rev subsetI)

lemma str_trim_length: "length (str_trim s) \<le> length s"
  unfolding str_trim_def by (metis length_dropWhile_le length_rev le_trans)

lemma str_trim_id: "s \<noteq> [] \<Longrightarrow> \<not> is_whitespace (hd s) \<Longrightarrow> \<not> is_whitespace (last s) \<Longrightarrow> str_trim s = s"
proof -
  assume a: "s \<noteq> []" "\<not> is_whitespace (hd s)" "\<not> is_whitespace (last s)"
  have "dropWhile is_whitespace s = s" using a(1,2) by (cases s) auto
  moreover have "dropWhile is_whitespace (rev s) = rev s" using a(1,3) by (cases s rule: rev_cases) auto
  ultimately show ?thesis by (simp add: str_trim_def)
qed

end
