(* ===== verification/Rust_Path.thy ===== *)
theory Rust_Path
  imports Rust_Std
begin

text \<open>
  \<open>std::path\<close> on Unix and the integer formatting the sources use: \<open>Path::components\<close>,
  \<open>PathBuf::push\<close>, \<open>pop\<close>, \<open>join\<close>, \<open>starts_with\<close>, \<open>strip_prefix\<close>, \<open>file_name\<close>, \<open>file_stem\<close>,
  \<open>extension\<close>, and \<open>{}\<close>, \<open>{:02}\<close>, \<open>{:04}\<close> of an integer.
\<close>

datatype component = RootDir | CurDir | ParentDir | Normal rstr

type_synonym path = "component list"

abbreviation slash :: rchar where "slash \<equiv> 47"
abbreviation backslash :: rchar where "backslash \<equiv> 92"
abbreviation dot :: rchar where "dot \<equiv> 46"

section \<open>Components\<close>

text \<open>One segment between slashes. Empty segments and inner dots vanish; only a leading dot of a
  relative path is kept as \<open>CurDir\<close>.\<close>

definition segment_component :: "rstr \<Rightarrow> component option" where
  "segment_component w =
     (if w = [] \<or> w = [dot] then None
      else if w = [dot, dot] then Some ParentDir else Some (Normal w))"

definition path_segments :: "rstr \<Rightarrow> rstr list" where
  "path_segments s = str_split (\<lambda>c. c = slash) s"

definition path_components :: "rstr \<Rightarrow> path" where
  "path_components s =
     (let ws = path_segments s;
          body = List.map_filter segment_component ws
      in if s \<noteq> [] \<and> hd s = slash then RootDir # body
         else if hd ws = [dot] then CurDir # body
         else body)"

definition path_push :: "path \<Rightarrow> rstr \<Rightarrow> path" where
  "path_push p c = p @ [Normal c]"

text \<open>\<open>PathBuf::pop\<close> truncates to \<open>parent()\<close>; it does nothing on the root and on the empty path.\<close>

definition path_pop :: "path \<Rightarrow> path" where
  "path_pop p = (if p = [] \<or> last p = RootDir then p else butlast p)"

text \<open>Whether \<open>Path::parent\<close> is \<open>Some\<close>; the parent is then \<open>path_pop\<close>.\<close>

definition path_has_parent :: "path \<Rightarrow> bool" where
  "path_has_parent p \<longleftrightarrow> p \<noteq> [] \<and> last p \<noteq> RootDir"

fun path_starts_with :: "path \<Rightarrow> path \<Rightarrow> bool" where
  "path_starts_with p [] = True"
| "path_starts_with [] (c # q) = False"
| "path_starts_with (d # p) (c # q) = (d = c \<and> path_starts_with p q)"

definition path_strip_prefix :: "path \<Rightarrow> path \<Rightarrow> path option" where
  "path_strip_prefix p q = (if path_starts_with p q then Some (drop (length q) p) else None)"

text \<open>\<open>Path::join\<close> with a string: an absolute argument replaces the path.\<close>

definition path_join :: "path \<Rightarrow> rstr \<Rightarrow> path" where
  "path_join p s =
     (let cs = path_components s
      in if cs \<noteq> [] \<and> hd cs = RootDir then cs
         else if p = [] then cs else p @ filter (\<lambda>c. c \<noteq> CurDir) cs)"

fun component_str :: "component \<Rightarrow> rstr" where
  "component_str RootDir = []"
| "component_str CurDir = [dot]"
| "component_str ParentDir = [dot, dot]"
| "component_str (Normal s) = s"

text \<open>The text of a path built by \<open>push\<close> (or of the rest that \<open>strip_prefix\<close> returns).\<close>

definition path_to_str :: "path \<Rightarrow> rstr" where
  "path_to_str p = (if p = [RootDir] then [slash] else str_join [slash] (map component_str p))"

definition path_file_name :: "path \<Rightarrow> rstr option" where
  "path_file_name p = (if p = [] then None else (case last p of Normal s \<Rightarrow> Some s | _ \<Rightarrow> None))"

text \<open>\<open>rsplit_file_at_dot\<close>: the last dot splits, unless it is the first character.\<close>

definition split_file_at_dot :: "rstr \<Rightarrow> rstr \<times> rstr option" where
  "split_file_at_dot name =
     (if name = [dot, dot] \<or> dot \<notin> set name then (name, None)
      else let ext = rev (takeWhile (\<lambda>c. c \<noteq> dot) (rev name));
               before = take (length name - length ext - 1) name
           in if before = [] then (name, None) else (before, Some ext))"

definition path_file_stem :: "path \<Rightarrow> rstr option" where
  "path_file_stem p = map_option (\<lambda>n. fst (split_file_at_dot n)) (path_file_name p)"

definition path_extension :: "path \<Rightarrow> rstr option" where
  "path_extension p = Option.bind (path_file_name p) (\<lambda>n. snd (split_file_at_dot n))"

lemma path_starts_with_iff [list_facts]: "path_starts_with p q \<longleftrightarrow> (\<exists>r. p = q @ r)"
  by (induction p q rule: path_starts_with.induct) auto

lemma path_strip_prefix_Some: "path_strip_prefix p q = Some r \<longleftrightarrow> p = q @ r"
  by (auto simp: path_strip_prefix_def path_starts_with_iff)

lemma map_filter_Normal_ParentDir:
  "c \<in> set (List.map_filter segment_component ws) \<Longrightarrow> c = ParentDir \<or> (\<exists>w\<in>set ws. c = Normal w)"
  by (induction ws) (auto simp: List.map_filter_simps segment_component_def split: if_splits)

lemma Normal_component_segment:
  assumes "Normal w \<in> set (path_components s)"
  shows "w \<noteq> []" "w \<noteq> [dot]" "w \<noteq> [dot, dot]" "slash \<notin> set w"
proof -
  have *: "w \<in> set ws \<and> segment_component w = Some (Normal w)"
    if "Normal w \<in> set (List.map_filter segment_component ws)" for ws
    using that
    by (induction ws) (auto simp: List.map_filter_simps segment_component_def split: if_splits)
  have "w \<in> set (path_segments s)" "segment_component w = Some (Normal w)"
    using assms * unfolding path_components_def Let_def by (auto split: if_splits)
  then show "w \<noteq> []" "w \<noteq> [dot]" "w \<noteq> [dot, dot]" "slash \<notin> set w"
    using str_split_no_sep [of w "\<lambda>c. c = slash" s slash]
    by (auto simp: path_segments_def segment_component_def split: if_splits)
qed

lemma split_file_at_dot_stem_not_Nil: "name \<noteq> [] \<Longrightarrow> fst (split_file_at_dot name) \<noteq> []"
  by (auto simp: split_file_at_dot_def Let_def)

lemmas path_eval [std_simps] =
  path_components_def path_segments_def segment_component_def List.map_filter_simps
  path_push_def path_pop_def path_file_stem_def path_file_name_def split_file_at_dot_def
  path_extension_def path_join_def path_to_str_def

section \<open>Names and joined paths\<close>

definition good_segment :: "rstr \<Rightarrow> bool" where
  "good_segment w \<longleftrightarrow> w \<noteq> [] \<and> w \<noteq> [dot] \<and> w \<noteq> [dot, dot] \<and> slash \<notin> set w"

lemma Normal_component_good: "Normal w \<in> set (path_components s) \<Longrightarrow> good_segment w"
  using Normal_component_segment [of w s] by (simp add: good_segment_def)

lemma path_components_join:
  assumes "ws \<noteq> []" "\<forall>w\<in>set ws. good_segment w"
  shows "path_components (str_join [slash] ws) = map Normal ws"
proof -
  let ?s = "str_join [slash] ws"
  have segs: "path_segments ?s = ws"
    using assms str_split_join [of ws slash] by (auto simp: path_segments_def good_segment_def)
  obtain c v vs where ws: "ws = (c # v) # vs" and c: "c \<noteq> slash"
    using assms by (cases ws; cases "hd ws") (auto simp: good_segment_def)
  have "hd ?s = c" by (cases vs) (auto simp: ws)
  moreover have "List.map_filter segment_component ws = map Normal ws"
    using assms(2)
    by (induction ws) (auto simp: List.map_filter_simps segment_component_def good_segment_def)
  moreover have "hd ws \<noteq> [dot]" using assms by (auto simp: good_segment_def)
  ultimately show ?thesis using c segs by (simp add: path_components_def)
qed

lemma path_join_good:
  assumes "good_segment w"
  shows "path_join p w = p @ [Normal w]"
  using path_components_join [of "[w]"] assms by (simp add: path_join_def Let_def)

lemma path_components_chars: "Normal w \<in> set (path_components s) \<Longrightarrow> set w \<subseteq> set s"
proof -
  assume "Normal w \<in> set (path_components s)"
  then have "Normal w \<in> set (List.map_filter segment_component (path_segments s))"
    by (auto simp: path_components_def Let_def split: if_splits)
  then have "w \<in> set (path_segments s)" using map_filter_Normal_ParentDir by blast
  then show "set w \<subseteq> set s" unfolding path_segments_def by (rule str_split_chars)
qed

lemma str_replace_char_id: "a \<notin> set s \<Longrightarrow> str_replace_char a b s = s"
  by (auto simp: str_replace_char_def intro: map_idI)

lemma str_join_chars: "c \<in> set (str_join sep vs) \<Longrightarrow> c \<in> set sep \<or> (\<exists>v\<in>set vs. c \<in> set v)"
  by (induction sep vs rule: str_join.induct) auto

text \<open>A slash-joined list of names without backslashes reads back as those names.\<close>

lemma slash_joined_components:
  assumes "ws \<noteq> []" "\<forall>w\<in>set ws. good_segment w" "\<forall>w\<in>set ws. backslash \<notin> set w"
  shows "path_components (str_replace_char backslash slash (str_join [slash] ws)) = map Normal ws"
proof -
  have "backslash \<notin> set (str_join [slash] ws)" using assms(3) by (auto dest: str_join_chars)
  then show ?thesis using assms path_components_join [of ws] by (simp add: str_replace_char_id)
qed

section \<open>Decimal formatting\<close>

fun nat_digits :: "nat \<Rightarrow> rstr" where
  "nat_digits n = (if n < 10 then [48 + n] else nat_digits (n div 10) @ [48 + n mod 10])"

declare nat_digits.simps [simp del]

definition fmt_int :: "int \<Rightarrow> rstr" where
  "fmt_int i = (if i < 0 then 45 # nat_digits (nat (- i)) else nat_digits (nat i))"

text \<open>\<open>{:0w}\<close>: sign first, then zeros, then the digits, at least \<open>w\<close> characters in all.\<close>

definition fmt_int_pad :: "nat \<Rightarrow> int \<Rightarrow> rstr" where
  "fmt_int_pad w i =
     (let ds = nat_digits (nat \<bar>i\<bar>); sign = (if i < 0 then [45] else [])
      in sign @ replicate (w - length ds - length sign) 48 @ ds)"

lemma nat_digits_eval [std_simps]:
  "n < 10 \<Longrightarrow> nat_digits n = [48 + n]"
  "10 \<le> n \<Longrightarrow> nat_digits n = nat_digits (n div 10) @ [48 + n mod 10]"
  by (simp_all add: nat_digits.simps [of n])

lemma nat_digits_not_Nil [simp]: "nat_digits n \<noteq> []"
  by (subst nat_digits.simps) simp

lemma nat_digits_range: "c \<in> set (nat_digits n) \<Longrightarrow> 48 \<le> c \<and> c \<le> 57"
proof (induction n rule: nat_digits.induct)
  case (1 n)
  then show ?case by (cases "n < 10") (auto simp: nat_digits.simps [of n])
qed

fun digits_value :: "rstr \<Rightarrow> nat \<Rightarrow> nat" where
  "digits_value [] acc = acc"
| "digits_value (c # s) acc = digits_value s (acc * 10 + (c - 48))"

lemma digits_value_append: "digits_value (a @ b) acc = digits_value b (digits_value a acc)"
  by (induction a arbitrary: acc) auto

lemma digits_value_nat_digits: "digits_value (nat_digits n) 0 = n"
proof (induction n rule: nat_digits.induct)
  case (1 n)
  then show ?case by (cases "n < 10") (auto simp: nat_digits.simps [of n] digits_value_append)
qed

lemma nat_digits_inj: "nat_digits m = nat_digits n \<longleftrightarrow> m = n"
  by (metis digits_value_nat_digits)

lemma fmt_int_pad_length: "w \<le> length (fmt_int_pad w i)"
  by (auto simp: fmt_int_pad_def Let_def)

lemma fmt_int_pad_chars: "c \<in> set (fmt_int_pad w i) \<Longrightarrow> c = 45 \<or> (48 \<le> c \<and> c \<le> 57)"
  using nat_digits_range [of c] by (auto simp: fmt_int_pad_def Let_def split: if_splits)

end
