(* ===== verification/Vault_Paths.thy ===== *)
theory Vault_Paths
  imports Rust_Path "HOL-Library.Sublist"
begin

text \<open>
  \<open>vault/mod.rs\<close>: vault-relative paths and directory listings. \<open>resolve_vault_path\<close> joins a relative
  path to the vault root lexically, \<open>assert_no_symlink_within_vault\<close> walks the result and refuses
  symlinks, \<open>should_ignore_path\<close> is the filter for hidden and temporary files that the scanner and
  the listing share, and \<open>read_directory_recursive\<close> lists a directory.

  The file system is a tree \<open>fs_node\<close>. A directory holds its entries in the order \<open>read_dir\<close> yields
  them and the error, if any, that the iterator reports after them (every caller stops there); a
  directory that cannot be opened, an entry without a file type, and a file whose metadata or
  content cannot be read carry the text of the operating system's error. File names are UTF-8.
\<close>

section \<open>The file system\<close>

record file_data =
  fd_modified :: "rstr + int"
  fd_metadata_error :: "rstr option"
  fd_content :: "rstr + bytes"

datatype fs_node =
    FsFile file_data
  | FsDir "(rstr \<times> fs_node) list" "rstr option"
  | FsDirErr rstr
  | FsSymlink
  | FsOther
  | FsTypeErr rstr

text \<open>The node at a path below a node, without following symlinks (\<open>symlink_metadata\<close>).\<close>

fun fs_lookup :: "fs_node \<Rightarrow> rstr list \<Rightarrow> fs_node option" where
  "fs_lookup node [] = Some node"
| "fs_lookup (FsDir es err) (w # ws) =
     (case map_of es w of None \<Rightarrow> None | Some child \<Rightarrow> fs_lookup child ws)"
| "fs_lookup _ (w # ws) = None"

text \<open>Names in one directory are distinct path segments.\<close>

fun fs_wf :: "fs_node \<Rightarrow> bool" where
  "fs_wf (FsDir es err) \<longleftrightarrow> distinct (map fst es) \<and> (\<forall>(w, child)\<in>set es. good_segment w \<and> fs_wf child)"
| "fs_wf _ = True"

definition path_display :: "path \<Rightarrow> rstr" where
  "path_display p = path_to_str p"

section \<open>The open vault\<close>

record vault_inner =
  vi_path :: "path option"
  vi_watching :: bool

definition vault_state_new :: vault_inner where
  "vault_state_new = \<lparr>vi_path = None, vi_watching = False\<rparr>"

definition get_vault_root :: "vault_inner \<Rightarrow> rstr + path" where
  "get_vault_root state = ok_or (vi_path state) (lit ''No vault is currently open'')"

section \<open>Resolving vault-relative paths\<close>

fun resolve_components :: "path \<Rightarrow> rstr \<Rightarrow> path \<Rightarrow> path \<Rightarrow> rstr + path" where
  "resolve_components vault_root relative_path [] resolved = Inr resolved"
| "resolve_components vault_root relative_path (Normal c # cs) resolved =
     resolve_components vault_root relative_path cs (path_push resolved c)"
| "resolve_components vault_root relative_path (ParentDir # cs) resolved =
     (let resolved = path_pop resolved
      in if \<not> path_starts_with resolved vault_root
         then Inl (lit ''Path traversal denied: '' @ [39] @ relative_path @ [39] @ lit '' escapes vault root'')
         else resolve_components vault_root relative_path cs resolved)"
| "resolve_components vault_root relative_path (CurDir # cs) resolved =
     resolve_components vault_root relative_path cs resolved"
| "resolve_components vault_root relative_path (RootDir # cs) resolved =
     Inl (lit ''Absolute paths not allowed: '' @ [39] @ relative_path @ [39])"

definition resolve_vault_path :: "path \<Rightarrow> rstr \<Rightarrow> rstr + path" where
  "resolve_vault_path vault_root relative_path =
     (if relative_path = [] then Inr vault_root
      else res_bind (resolve_components vault_root relative_path (path_components relative_path) vault_root)
        (\<lambda>resolved.
          if \<not> path_starts_with resolved vault_root
          then Inl (lit ''Path traversal denied: '' @ [39] @ relative_path @ [39] @ lit '' resolved outside vault'')
          else Inr resolved))"

text \<open>\<open>stat\<close> is \<open>symlink_metadata\<close>: \<open>None\<close> when it fails, otherwise whether the entry is a symlink.\<close>

fun symlink_walk :: "(path \<Rightarrow> bool option) \<Rightarrow> path \<Rightarrow> path \<Rightarrow> rstr + unit" where
  "symlink_walk stat [] current = Inr ()"
| "symlink_walk stat (Normal segment # cs) current =
     (let current = path_push current segment
      in case stat current of
           Some True \<Rightarrow> Inl (lit ''Symlinks are not allowed in the vault: '' @ path_display current)
         | Some False \<Rightarrow> symlink_walk stat cs current
         | None \<Rightarrow> symlink_walk stat cs current)"
| "symlink_walk stat (_ # cs) current = symlink_walk stat cs current"

definition assert_no_symlink_within_vault :: "(path \<Rightarrow> bool option) \<Rightarrow> path \<Rightarrow> path \<Rightarrow> rstr + unit" where
  "assert_no_symlink_within_vault stat vault_root resolved =
     res_bind (ok_or (path_strip_prefix resolved vault_root)
                (lit ''Path not within vault: '' @ path_display resolved))
       (\<lambda>relative. symlink_walk stat relative vault_root)"

definition resolve_vault_path_strict :: "(path \<Rightarrow> bool option) \<Rightarrow> path \<Rightarrow> rstr \<Rightarrow> rstr + path" where
  "resolve_vault_path_strict stat vault_root relative_path =
     res_bind (resolve_vault_path vault_root relative_path) (\<lambda>resolved.
     res_bind (assert_no_symlink_within_vault stat vault_root resolved) (\<lambda>_.
     Inr resolved))"

section \<open>Filters\<close>

fun ignore_loop :: "path \<Rightarrow> rstr option \<Rightarrow> bool" where
  "ignore_loop (Normal name # cs) last_segment =
     (if str_starts_with name [dot] then True else ignore_loop cs (Some name))"
| "ignore_loop (_ # cs) last_segment = ignore_loop cs last_segment"
| "ignore_loop [] last_segment =
     (case last_segment of
        Some name \<Rightarrow>
          if name = lit ''.DS_Store'' then True
          else if str_ends_with name (lit ''.tmp'') \<or> str_ends_with name [126] then True
          else False
      | None \<Rightarrow> False)"

definition should_ignore_path :: "path \<Rightarrow> bool" where
  "should_ignore_path path = ignore_loop path None"

definition to_relative_path :: "path \<Rightarrow> path \<Rightarrow> rstr" where
  "to_relative_path root path =
     (case path_strip_prefix path root of
        Some rel \<Rightarrow> str_replace_char backslash slash (path_to_str rel)
      | None \<Rightarrow> str_replace_char backslash slash (path_to_str path))"

definition matches_extensions :: "rstr \<Rightarrow> rstr list \<Rightarrow> bool" where
  "matches_extensions name extensions =
     (if extensions = [] then True
      else list_ex (\<lambda>ext. str_ends_with (to_ascii_lowercase name) (dot # to_ascii_lowercase ext)) extensions)"

definition DEFAULT_FILE_EXTENSIONS :: "rstr list" where
  "DEFAULT_FILE_EXTENSIONS = [lit ''md'']"

section \<open>Listing a directory\<close>

datatype file_entry =
  FileEntry (fe_name: rstr) (fe_path: rstr) (fe_is_directory: bool) (fe_children: "file_entry list option")

text \<open>The path of an entry relative to the root, \<open>path.strip_prefix(root).unwrap_or(&path)\<close>.\<close>

definition entry_relative :: "path \<Rightarrow> path \<Rightarrow> path" where
  "entry_relative root path = (case path_strip_prefix path root of Some rel \<Rightarrow> rel | None \<Rightarrow> path)"

definition unwrap_or_default :: "'e + 'a list \<Rightarrow> 'a list" where
  "unwrap_or_default r = (case r of Inl _ \<Rightarrow> [] | Inr xs \<Rightarrow> xs)"

definition read_dir_error :: "path \<Rightarrow> rstr \<Rightarrow> rstr" where
  "read_dir_error dir e = lit ''Failed to read directory '' @ path_display dir @ lit '': '' @ e"

definition not_a_directory :: rstr where
  "not_a_directory = lit ''Not a directory (os error 20)''"

definition finish_listing :: "file_entry list \<times> file_entry list \<Rightarrow> file_entry list" where
  "finish_listing found = sort_key fe_name (fst found) @ sort_key fe_name (snd found)"

fun read_directory_recursive :: "path \<Rightarrow> path \<Rightarrow> rstr list \<Rightarrow> fs_node \<Rightarrow> rstr + file_entry list"
and read_entries ::
  "path \<Rightarrow> path \<Rightarrow> rstr list \<Rightarrow> (rstr \<times> fs_node) list \<Rightarrow> rstr option \<Rightarrow> file_entry list \<Rightarrow> file_entry list
    \<Rightarrow> rstr + (file_entry list \<times> file_entry list)" where
  "read_directory_recursive root dir extensions (FsDir es err) =
     res_bind (read_entries root dir extensions es err [] []) (\<lambda>found. Inr (finish_listing found))"
| "read_directory_recursive root dir extensions (FsDirErr e) = Inl (read_dir_error dir e)"
| "read_directory_recursive root dir extensions (FsFile _) = Inl (read_dir_error dir not_a_directory)"
| "read_directory_recursive root dir extensions FsSymlink = Inl (read_dir_error dir not_a_directory)"
| "read_directory_recursive root dir extensions FsOther = Inl (read_dir_error dir not_a_directory)"
| "read_directory_recursive root dir extensions (FsTypeErr e) = Inl (read_dir_error dir not_a_directory)"
| "read_entries root dir extensions [] err folders files =
     (case err of Some e \<Rightarrow> Inl e | None \<Rightarrow> Inr (folders, files))"
| "read_entries root dir extensions ((name, node) # es) err folders files =
     (let path = path_push dir name
      in if should_ignore_path (entry_relative root path)
         then read_entries root dir extensions es err folders files
         else
           case node of
             FsTypeErr _ \<Rightarrow> read_entries root dir extensions es err folders files
           | FsSymlink \<Rightarrow> read_entries root dir extensions es err folders files
           | FsDir _ _ \<Rightarrow>
               read_entries root dir extensions es err
                 (folders @ [FileEntry name (to_relative_path root path) True
                   (Some (unwrap_or_default (read_directory_recursive root path extensions node)))]) files
           | FsDirErr _ \<Rightarrow>
               read_entries root dir extensions es err
                 (folders @ [FileEntry name (to_relative_path root path) True
                   (Some (unwrap_or_default (read_directory_recursive root path extensions node)))]) files
           | FsFile _ \<Rightarrow>
               if matches_extensions name extensions
               then read_entries root dir extensions es err folders
                 (files @ [FileEntry name (to_relative_path root path) False None])
               else read_entries root dir extensions es err folders files
           | FsOther \<Rightarrow>
               if matches_extensions name extensions
               then read_entries root dir extensions es err folders
                 (files @ [FileEntry name (to_relative_path root path) False None])
               else read_entries root dir extensions es err folders files)"

section \<open>Resolution is lexical\<close>

text \<open>The reference: a stack of names; a parent component pops, and fails on the empty stack.\<close>

fun lexical :: "path \<Rightarrow> rstr list \<Rightarrow> rstr list option" where
  "lexical [] ws = Some ws"
| "lexical (Normal c # cs) ws = lexical cs (ws @ [c])"
| "lexical (CurDir # cs) ws = lexical cs ws"
| "lexical (ParentDir # cs) ws = (if ws = [] then None else lexical cs (butlast ws))"
| "lexical (RootDir # cs) ws = None"

definition proper_root :: "path \<Rightarrow> bool" where
  "proper_root root \<longleftrightarrow> root \<noteq> [] \<and> last root \<noteq> RootDir"

lemma path_pop_below: "ws \<noteq> [] \<Longrightarrow> path_pop (root @ map Normal ws) = root @ map Normal (butlast ws)"
  by (cases ws rule: rev_cases) (auto simp: path_pop_def butlast_append)

lemma path_pop_root:
  "path_starts_with (path_pop root) root \<longleftrightarrow> \<not> proper_root root"
  "\<not> proper_root root \<Longrightarrow> path_pop root = root"
proof -
  have "proper_root root \<Longrightarrow> butlast root \<noteq> root @ r" for r
    by (metis append_butlast_last_id append_self_conv append_eq_appendI not_Cons_self2 proper_root_def append_is_Nil_conv same_append_eq)
  then show "path_starts_with (path_pop root) root \<longleftrightarrow> \<not> proper_root root"
    by (auto simp: path_pop_def proper_root_def path_starts_with_iff)
  show "\<not> proper_root root \<Longrightarrow> path_pop root = root" by (auto simp: path_pop_def proper_root_def)
qed

lemma resolve_components_confined:
  assumes "resolve_components root rel cs (root @ map Normal ws) = Inr p"
    and "\<forall>w. Normal w \<in> set cs \<longrightarrow> good_segment w" "list_all good_segment ws"
  shows "\<exists>vs. p = root @ map Normal vs \<and> list_all good_segment vs"
  using assms
proof (induction cs arbitrary: ws)
  case (Cons c cs)
  show ?case
  proof (cases c)
    case (Normal w)
    then show ?thesis using Cons.IH [of "ws @ [w]"] Cons.prems by (simp add: path_push_def)
  next
    case ParentDir
    show ?thesis
    proof (cases "ws = []")
      case True
      then show ?thesis using Cons.IH [of "[]"] Cons.prems ParentDir path_pop_root [of root]
        by (auto simp: Let_def split: if_splits)
    next
      case False
      then show ?thesis using Cons.IH [of "butlast ws"] Cons.prems ParentDir
        by (auto simp: path_pop_below path_starts_with_iff list_all_iff dest: in_set_butlastD)
    qed
  qed (use Cons in auto)
qed auto

lemma resolve_components_lexical:
  assumes "proper_root root"
  shows "resolve_components root rel cs (root @ map Normal ws) = Inr p \<longleftrightarrow>
    (\<exists>vs. lexical cs ws = Some vs \<and> p = root @ map Normal vs)"
proof (induction cs arbitrary: ws)
  case (Cons c cs)
  show ?case
  proof (cases c)
    case (Normal w)
    then show ?thesis using Cons.IH [of "ws @ [w]"] by (simp add: path_push_def)
  next
    case ParentDir
    show ?thesis
    proof (cases "ws = []")
      case True
      then show ?thesis using ParentDir path_pop_root(1) [of root] assms by (simp add: Let_def)
    next
      case False
      then show ?thesis using Cons.IH [of "butlast ws"] ParentDir
        by (auto simp: path_pop_below path_starts_with_iff)
    qed
  qed (use Cons.IH in auto)
qed auto

lemma path_components_Nil [simp]: "path_components [] = []"
  by (simp add: path_components_def path_segments_def List.map_filter_simps segment_component_def)

lemma resolve_vault_path_lexical:
  assumes "proper_root root"
  shows "resolve_vault_path root rel = Inr p \<longleftrightarrow>
    (\<exists>ws. lexical (path_components rel) [] = Some ws \<and> p = root @ map Normal ws)"
proof (cases "rel = []")
  case False
  then show ?thesis using resolve_components_lexical [OF assms, of rel "path_components rel" "[]"]
    by (auto simp: resolve_vault_path_def res_bind_eq_Inr path_starts_with_iff)
qed (simp add: resolve_vault_path_def eq_commute)

lemma symlink_walk_ok:
  "symlink_walk stat (map Normal ws) root = Inr () \<longleftrightarrow>
     (\<nexists>k. k < length ws \<and> stat (root @ map Normal (take (Suc k) ws)) = Some True)"
proof (induction ws arbitrary: root)
  case (Cons w ws)
  have split: "(\<exists>k<Suc n. P k) \<longleftrightarrow> P 0 \<or> (\<exists>k<n. P (Suc k))" for n and P :: "nat \<Rightarrow> bool"
    using less_Suc_eq_0_disj by auto
  show ?case using Cons.IH [of "root @ [Normal w]"]
    by (auto simp: Let_def path_push_def split split: option.splits bool.splits)
qed auto

lemma assert_no_symlink_ok:
  "assert_no_symlink_within_vault stat root (root @ map Normal ws) = Inr () \<longleftrightarrow>
     (\<nexists>k. k < length ws \<and> stat (root @ map Normal (take (Suc k) ws)) = Some True)"
  using symlink_walk_ok [of stat ws root]
  by (auto simp: assert_no_symlink_within_vault_def path_strip_prefix_def path_starts_with_iff)

lemma resolve_strict_ok:
  assumes "proper_root root"
  shows "resolve_vault_path_strict stat root rel = Inr p \<longleftrightarrow>
    (\<exists>ws. lexical (path_components rel) [] = Some ws \<and> p = root @ map Normal ws \<and>
      (\<nexists>k. k < length ws \<and> stat (root @ map Normal (take (Suc k) ws)) = Some True))"
  using resolve_vault_path_lexical [OF assms, of rel] assert_no_symlink_ok [of stat root]
  by (auto simp: resolve_vault_path_strict_def res_simps)

lemma path_pop_prefix: "prefix (path_pop p) p"
  by (cases p rule: rev_cases) (auto simp: path_pop_def)

lemma resolved_no_links:
  assumes "proper_root root" "\<forall>q. prefix q root \<longrightarrow> stat q \<noteq> Some True" "resolve_vault_path_strict stat root path = Inr p"
  shows "prefix root p \<and> (\<forall>q. prefix q p \<longrightarrow> stat q \<noteq> Some True)"
proof -
  from assms(3) obtain ws where p: "p = root @ map Normal ws"
    and ok: "\<nexists>k. k < length ws \<and> stat (root @ map Normal (take (Suc k) ws)) = Some True"
    unfolding resolve_strict_ok [OF assms(1)] by blast
  have "stat q \<noteq> Some True" if q: "prefix q p" for q
  proof (cases "prefix q root")
    case True
    then show ?thesis using assms(2) by blast
  next
    case False
    with q p obtain vs where vs: "q = root @ vs" "prefix vs (map Normal ws)" by (auto simp: prefix_append)
    with False have "vs \<noteq> []" by auto
    with vs obtain k where "k < length ws" "vs = map Normal (take (Suc k) ws)"
      by (metis Suc_pred length_greater_0_conv length_map prefix_length_le take_map prefix_def append_eq_conv_conj
          Suc_le_eq)
    with vs ok show ?thesis by blast
  qed
  with p show ?thesis by auto
qed

lemma lexical_names: "lexical (map Normal vs) ws = Some (ws @ vs)"
  by (induction vs arbitrary: ws) auto

section \<open>Listings\<close>

text \<open>Every entry of a listing, children included.\<close>

fun deep_entries :: "file_entry \<Rightarrow> file_entry list" where
  "deep_entries (FileEntry n p d ch) =
     FileEntry n p d ch # (case ch of None \<Rightarrow> [] | Some cs \<Rightarrow> concat (map deep_entries cs))"

fun is_dir_node :: "fs_node \<Rightarrow> bool" where
  "is_dir_node (FsDir _ _) = True"
| "is_dir_node (FsDirErr _) = True"
| "is_dir_node _ = False"

text \<open>\<open>symlink_metadata\<close> on a tree mounted at the vault root.\<close>

definition tree_stat :: "path \<Rightarrow> fs_node \<Rightarrow> path \<Rightarrow> bool option" where
  "tree_stat root tree p =
     (case path_strip_prefix p root of
        None \<Rightarrow> None
      | Some rel \<Rightarrow> map_option (\<lambda>node. node = FsSymlink) (fs_lookup tree (map component_str rel)))"

fun fs_names :: "fs_node \<Rightarrow> rstr set" where
  "fs_names (FsDir es err) = fst ` set es \<union> (\<Union>x\<in>set es. fs_names (snd x))"
| "fs_names _ = {}"

definition listed_as :: "path \<Rightarrow> fs_node \<Rightarrow> file_entry \<Rightarrow> rstr list \<Rightarrow> bool" where
  "listed_as root tree e ws \<longleftrightarrow> ws \<noteq> [] \<and> fe_path e = to_relative_path root (root @ map Normal ws) \<and>
     (\<exists>node. fs_lookup tree ws = Some node \<and> node \<noteq> FsSymlink \<and> fe_is_directory e = is_dir_node node) \<and>
     \<not> should_ignore_path (map Normal ws)"

lemma fs_lookup_append:
  "fs_lookup tree (ws @ vs) = (case fs_lookup tree ws of None \<Rightarrow> None | Some node \<Rightarrow> fs_lookup node vs)"
  by (induction tree ws rule: fs_lookup.induct) (auto split: option.splits)

lemma fs_lookup_wf:
  "fs_wf tree \<Longrightarrow> fs_lookup tree ws = Some node \<Longrightarrow> fs_wf node \<and> list_all good_segment ws"
  by (induction tree ws rule: fs_lookup.induct) (fastforce split: option.splits dest: map_of_SomeD)+

lemma fs_lookup_names: "fs_lookup tree ws = Some node \<Longrightarrow> set ws \<subseteq> fs_names tree"
proof (induction tree ws rule: fs_lookup.induct)
  case (2 es err w ws)
  then obtain child where c: "map_of es w = Some child" "fs_lookup child ws = Some node"
    by (auto split: option.splits)
  then have "(w, child) \<in> set es" by (auto dest: map_of_SomeD)
  moreover have "set ws \<subseteq> fs_names child" using 2 c by simp
  ultimately show ?case by force
qed auto

lemma fs_lookup_child:
  assumes "fs_wf tree" "fs_lookup tree ds = Some (FsDir es err)" "(w, child) \<in> set es"
  shows "fs_lookup tree (ds @ [w]) = Some child" "good_segment w"
proof -
  have "fs_wf (FsDir es err)" using fs_lookup_wf assms by blast
  then show "fs_lookup tree (ds @ [w]) = Some child" "good_segment w"
    using assms(2,3) by (auto simp: fs_lookup_append)
qed

lemma entry_relative_below: "entry_relative root (root @ r) = r"
  by (simp add: entry_relative_def path_strip_prefix_def path_starts_with_iff)

lemma set_finish_listing: "set (finish_listing found) = set (fst found) \<union> set (snd found)"
  by (simp add: finish_listing_def)

abbreviation deep_ok :: "path \<Rightarrow> fs_node \<Rightarrow> file_entry list \<Rightarrow> bool" where
  "deep_ok root tree entries \<equiv>
     (\<forall>e\<in>set entries. \<forall>x\<in>set (deep_entries e). \<exists>ws. listed_as root tree x ws)"

lemma listed_dir:
  assumes "fs_lookup tree (ds @ [w]) = Some node" "is_dir_node node"
    and "\<not> should_ignore_path (map Normal (ds @ [w]))"
    and "\<forall>e\<in>set ch. \<forall>x\<in>set (deep_entries e). \<exists>ws. listed_as root tree x ws"
    and "x \<in> set (deep_entries (FileEntry w (to_relative_path root (root @ map Normal (ds @ [w]))) True (Some ch)))"
  shows "\<exists>ws. listed_as root tree x ws"
proof (cases "x = FileEntry w (to_relative_path root (root @ map Normal (ds @ [w]))) True (Some ch)")
  case True
  then have "listed_as root tree x (ds @ [w])" using assms by (auto simp: listed_as_def)
  then show ?thesis ..
next
  case False
  then show ?thesis using assms(4,5) by auto
qed

lemma read_entries_sound:
  assumes "read_entries root dir exts es err folders files = Inr found"
    and "dir = root @ map Normal ds" "\<forall>(w, child)\<in>set es. fs_lookup tree (ds @ [w]) = Some child"
    and "\<forall>x\<in>set es. \<forall>entries. read_directory_recursive root (root @ map Normal (ds @ [fst x])) exts (snd x) =
      Inr entries \<longrightarrow> deep_ok root tree entries"
    and "deep_ok root tree folders" "deep_ok root tree files"
  shows "deep_ok root tree (fst found) \<and> deep_ok root tree (snd found)"
  using assms(1,3-6)
proof (induction es arbitrary: folders files)
  case (Cons x es)
  obtain w node where x: "x = (w, node)" by (cases x)
  let ?rel = "to_relative_path root (root @ map Normal (ds @ [w]))"
  let ?ch = "unwrap_or_default (read_directory_recursive root (root @ map Normal (ds @ [w])) exts node)"
  have IH: "deep_ok root tree (fst found) \<and> deep_ok root tree (snd found)"
    if "read_entries root dir exts es err fo fi = Inr found" "deep_ok root tree fo" "deep_ok root tree fi" for fo fi
    using Cons.IH [OF that(1)] Cons.prems(2,3) that(2,3) by simp
  have path: "path_push dir w = root @ map Normal (ds @ [w])" using assms(2) by (simp add: path_push_def)
  have look: "fs_lookup tree (ds @ [w]) = Some node" using Cons.prems(2) x by simp
  have ch: "deep_ok root tree ?ch"
  proof (cases "read_directory_recursive root (root @ map Normal (ds @ [w])) exts node")
    case (Inr entries)
    then show ?thesis using Cons.prems(3) x by (simp add: unwrap_or_default_def)
  qed (simp add: unwrap_or_default_def)
  consider (Skip) "read_entries root dir exts es err folders files = Inr found"
    | (Folder) "read_entries root dir exts es err (folders @ [FileEntry w ?rel True (Some ?ch)]) files = Inr found"
        "is_dir_node node" "\<not> should_ignore_path (map Normal (ds @ [w]))"
    | (Leaf) "read_entries root dir exts es err folders (files @ [FileEntry w ?rel False None]) = Inr found"
        "\<not> is_dir_node node" "node \<noteq> FsSymlink" "\<not> should_ignore_path (map Normal (ds @ [w]))"
    using Cons.prems(1) unfolding x
    by (cases node) (auto simp: Let_def path entry_relative_below split: if_splits)
  then show ?case
  proof cases
    case Skip
    then show ?thesis using IH [of folders files] Cons.prems(4,5) by blast
  next
    case Folder
    have "deep_ok root tree [FileEntry w ?rel True (Some ?ch)]"
      using listed_dir [OF look Folder(2,3) ch] by simp
    with Cons.prems(4,5) show ?thesis by (intro IH [OF Folder(1)]) (simp_all only: set_append ball_Un)
  next
    case Leaf
    have "listed_as root tree (FileEntry w ?rel False None) (ds @ [w])"
      using look Leaf(2-4) by (simp add: listed_as_def)
    then have "deep_ok root tree [FileEntry w ?rel False None]" by auto
    with Cons.prems(4,5) show ?thesis by (intro IH [OF Leaf(1)]) (simp_all only: set_append ball_Un)
  qed
qed (auto split: option.splits)

lemma read_directory_sound:
  assumes "fs_wf tree" "fs_lookup tree ds = Some node"
    and "read_directory_recursive root (root @ map Normal ds) exts node = Inr entries"
  shows "deep_ok root tree entries"
  using assms(2,3)
proof (induction node arbitrary: ds entries)
  case (FsDir es err)
  then obtain found where run: "read_entries root (root @ map Normal ds) exts es err [] [] = Inr found"
    and e: "entries = finish_listing found" by (auto simp: res_bind_eq_Inr)
  have look: "\<forall>(w, child)\<in>set es. fs_lookup tree (ds @ [w]) = Some child"
    using fs_lookup_child [OF assms(1) FsDir.prems(1)] by blast
  have "deep_ok root tree (fst found) \<and> deep_ok root tree (snd found)"
    by (rule read_entries_sound [OF run refl look]) (use look FsDir.IH in force)+
  then show ?case by (auto simp: e set_finish_listing)
qed auto

lemma to_relative_components:
  assumes "ws \<noteq> []" "list_all good_segment ws" "\<forall>w\<in>set ws. backslash \<notin> set w"
  shows "path_components (to_relative_path root (root @ map Normal ws)) = map Normal ws"
proof -
  have "map (component_str \<circ> Normal) ws = ws" by (induction ws) auto
  then show ?thesis using slash_joined_components [OF assms(1)] assms
    by (auto simp: to_relative_path_def path_strip_prefix_def path_starts_with_iff path_to_str_def list_all_iff)
qed

lemma tree_stat_below:
  "tree_stat root tree (root @ map Normal ws) = map_option (\<lambda>node. node = FsSymlink) (fs_lookup tree ws)"
proof -
  have "map (component_str \<circ> Normal) ws = ws" by (induction ws) auto
  then show ?thesis by (simp add: tree_stat_def path_strip_prefix_def path_starts_with_iff)
qed

lemma no_symlink_on_the_way:
  assumes "fs_lookup tree ws = Some node" "node \<noteq> FsSymlink"
  shows "\<nexists>k. k < length ws \<and> tree_stat root tree (root @ map Normal (take (Suc k) ws)) = Some True"
proof
  assume "\<exists>k. k < length ws \<and> tree_stat root tree (root @ map Normal (take (Suc k) ws)) = Some True"
  then obtain k where k: "k < length ws" "fs_lookup tree (take (Suc k) ws) = Some FsSymlink"
    by (auto simp: tree_stat_below)
  have "fs_lookup tree ws = fs_lookup FsSymlink (drop (Suc k) ws)"
    using k(2) fs_lookup_append [of tree "take (Suc k) ws" "drop (Suc k) ws"] by simp
  then show False using assms by (cases "drop (Suc k) ws") auto
qed

section \<open>Claims\<close>

text \<open>
  A vault-relative path never resolves outside the vault: whatever the text of the path, if it is
  accepted the result is the vault root followed by plain names, with no parent or root component.
\<close>
theorem resolve_vault_path_confined:
  assumes "resolve_vault_path root rel = Inr p"
  shows "\<exists>ws. p = root @ map Normal ws \<and> list_all good_segment ws"
proof (cases "rel = []")
  case False
  with assms have "resolve_components root rel (path_components rel) (root @ map Normal []) = Inr p"
    by (auto simp: resolve_vault_path_def res_bind_eq_Inr split: if_splits)
  then show ?thesis
    by (rule resolve_components_confined) (use Normal_component_good in auto)
qed (use assms in \<open>auto simp: resolve_vault_path_def intro: exI [where x = "[]"]\<close>)

theorem resolve_vault_path_confined_witness:
  "resolve_vault_path [RootDir, Normal (lit ''v'')] (lit ''a/../b.md'') =
     Inr [RootDir, Normal (lit ''v''), Normal (lit ''b.md'')] \<and>
   (\<exists>ws. [RootDir, Normal (lit ''v''), Normal (lit ''b.md'')] =
     [RootDir, Normal (lit ''v'')] @ map Normal ws \<and> list_all good_segment ws)"
proof -
  have run: "resolve_vault_path [RootDir, Normal (lit ''v'')] (lit ''a/../b.md'') =
     Inr [RootDir, Normal (lit ''v''), Normal (lit ''b.md'')]"
    by (simp add: resolve_vault_path_def std_simps)
  then show ?thesis using resolve_vault_path_confined [OF run] by simp
qed

text \<open>
  C36. Strict resolution is lexical resolution with no symlink on the way: below a vault root that is
  not the file system root, a path is accepted exactly when no prefix of it climbs above the root
  and no directory or file between the root and the result is a symlink.
\<close>
theorem resolve_vault_path_strict_exact:
  assumes "proper_root root"
  shows "resolve_vault_path_strict stat root rel = Inr p \<longleftrightarrow>
    (\<exists>ws. lexical (path_components rel) [] = Some ws \<and> p = root @ map Normal ws \<and>
      (\<nexists>k. k < length ws \<and> stat (root @ map Normal (take (Suc k) ws)) = Some True))"
  by (rule resolve_strict_ok [OF assms])

theorem resolve_vault_path_strict_exact_witness:
  "\<not> (\<exists>p. resolve_vault_path_strict (\<lambda>q. Some (q = [RootDir, Normal (lit ''v''), Normal (lit ''s'')]))
     [RootDir, Normal (lit ''v'')] (lit ''s/x'') = Inr p)"
proof -
  have "proper_root [RootDir, Normal (lit ''v'')]" by (simp add: proper_root_def)
  from resolve_vault_path_strict_exact [OF this] show ?thesis by (auto simp: std_simps)
qed

text \<open>
  A listing of the vault shows only what the strict resolver permits: every entry, at any depth,
  has a path that resolves strictly to the file or directory it was made from, which is neither
  hidden nor a symlink. It needs file names without backslashes, which the listing rewrites.
\<close>
theorem listing_resolves_strictly:
  assumes "fs_wf tree" "proper_root root" "\<forall>w\<in>fs_names tree. backslash \<notin> set w"
    and "read_directory_recursive root root exts tree = Inr entries"
    and "e \<in> set entries" "x \<in> set (deep_entries e)"
  shows "\<exists>ws node. resolve_vault_path_strict (tree_stat root tree) root (fe_path x) = Inr (root @ map Normal ws) \<and>
    fs_lookup tree ws = Some node \<and> node \<noteq> FsSymlink \<and> fe_is_directory x = is_dir_node node \<and>
    \<not> should_ignore_path (map Normal ws)"
proof -
  from read_directory_sound [of tree "[]" tree root exts entries] assms(1,4-6)
  obtain ws node where ws: "ws \<noteq> []" "fe_path x = to_relative_path root (root @ map Normal ws)"
    "fs_lookup tree ws = Some node" "node \<noteq> FsSymlink" "fe_is_directory x = is_dir_node node"
    "\<not> should_ignore_path (map Normal ws)"
    unfolding listed_as_def by simp blast
  have "list_all good_segment ws" using fs_lookup_wf assms(1) ws(3) by blast
  moreover have "\<forall>w\<in>set ws. backslash \<notin> set w" using fs_lookup_names [OF ws(3)] assms(3) by blast
  ultimately have "path_components (fe_path x) = map Normal ws"
    unfolding ws(2) by (rule to_relative_components [OF ws(1)])
  then have "resolve_vault_path_strict (tree_stat root tree) root (fe_path x) = Inr (root @ map Normal ws)"
    using resolve_strict_ok [OF assms(2)] no_symlink_on_the_way [OF ws(3,4)] by (simp add: lexical_names)
  with ws show ?thesis by blast
qed

text \<open>The tree of the concrete instances: a note, a hidden file, a symlink and an empty folder.\<close>

definition example_tree :: fs_node where
  "example_tree = FsDir [(lit ''a.md'', FsFile \<lparr>fd_modified = Inr 0, fd_metadata_error = None, fd_content = Inr []\<rparr>),
     (lit ''.git'', FsDir [] None), (lit ''s.md'', FsSymlink), (lit ''d'', FsDir [] None)] None"

lemma example_tree_listing:
  "read_directory_recursive [RootDir, Normal (lit ''v'')] [RootDir, Normal (lit ''v'')] [lit ''md''] example_tree =
     Inr [FileEntry (lit ''d'') (lit ''d'') True (Some []), FileEntry (lit ''a.md'') (lit ''a.md'') False None]"
  by (simp add: example_tree_def std_simps should_ignore_path_def entry_relative_def path_strip_prefix_def
      to_relative_path_def matches_extensions_def finish_listing_def unwrap_or_default_def)

theorem listing_resolves_strictly_witness:
  "\<exists>ws node. resolve_vault_path_strict (tree_stat [RootDir, Normal (lit ''v'')] example_tree)
     [RootDir, Normal (lit ''v'')] (lit ''a.md'') = Inr ([RootDir, Normal (lit ''v'')] @ map Normal ws) \<and>
     fs_lookup example_tree ws = Some node \<and> node \<noteq> FsSymlink"
proof -
  have wf: "fs_wf example_tree" "\<forall>w\<in>fs_names example_tree. backslash \<notin> set w"
    by (simp_all add: example_tree_def good_segment_def)
  have root: "proper_root [RootDir, Normal (lit ''v'')]" by (simp add: proper_root_def)
  let ?e = "FileEntry (lit ''a.md'') (lit ''a.md'') False None"
  from listing_resolves_strictly [OF wf(1) root wf(2) example_tree_listing, of ?e ?e]
  show ?thesis by auto
qed

text \<open>Folders are listed even when nothing is left in them after filtering.\<close>

lemma listing_keeps_empty_folders:
  "read_directory_recursive [RootDir, Normal (lit ''v'')] [RootDir, Normal (lit ''v'')] [lit ''md'']
     (FsDir [(lit ''d'', FsDir [] None)] None) = Inr [FileEntry (lit ''d'') (lit ''d'') True (Some [])]"
  by (simp add: std_simps should_ignore_path_def entry_relative_def path_strip_prefix_def
      to_relative_path_def finish_listing_def unwrap_or_default_def)

end
