(* ===== verification/Sql_Table.thy ===== *)
theory Sql_Table
  imports Prelude
begin

text \<open>
  Tables of the embedded SQLite databases. A table is the list of its rows; the statements the
  sources issue are a lookup by key, \<open>INSERT \<dots> ON CONFLICT(key) DO UPDATE\<close>, a plain \<open>INSERT\<close>
  that a uniqueness constraint may refuse, \<open>UPDATE \<dots> WHERE\<close> and \<open>DELETE \<dots> WHERE\<close>. The locale
  \<open>keyed_table\<close> is the contract of a table with one unique key; every keyed table of the sync
  database interprets it.
\<close>

definition tbl_get :: "('r \<Rightarrow> 'k) \<Rightarrow> 'k \<Rightarrow> 'r list \<Rightarrow> 'r option" where
  "tbl_get key k rows = find (\<lambda>r. key r = k) rows"

definition tbl_has :: "('r \<Rightarrow> 'k) \<Rightarrow> 'k \<Rightarrow> 'r list \<Rightarrow> bool" where
  "tbl_has key k rows = list_ex (\<lambda>r. key r = k) rows"

definition tbl_update :: "('r \<Rightarrow> bool) \<Rightarrow> ('r \<Rightarrow> 'r) \<Rightarrow> 'r list \<Rightarrow> 'r list" where
  "tbl_update p f rows = map (\<lambda>r. if p r then f r else r) rows"

definition tbl_delete :: "('r \<Rightarrow> bool) \<Rightarrow> 'r list \<Rightarrow> 'r list" where
  "tbl_delete p rows = filter (\<lambda>r. \<not> p r) rows"

text \<open>\<open>upd new old\<close> is the row that the \<open>DO UPDATE SET\<close> clause leaves, \<open>new\<close> being \<open>excluded\<close>.\<close>

definition tbl_upsert :: "('r \<Rightarrow> 'k) \<Rightarrow> ('r \<Rightarrow> 'r \<Rightarrow> 'r) \<Rightarrow> 'r \<Rightarrow> 'r list \<Rightarrow> 'r list" where
  "tbl_upsert key upd new rows =
     (if tbl_has key (key new) rows then tbl_update (\<lambda>r. key r = key new) (upd new) rows
      else rows @ [new])"

definition tbl_insert :: "('r \<Rightarrow> 'k) \<Rightarrow> 'r \<Rightarrow> 'r list \<Rightarrow> 'r list option" where
  "tbl_insert key new rows = (if tbl_has key (key new) rows then None else Some (rows @ [new]))"

definition unique_key :: "('r \<Rightarrow> 'k) \<Rightarrow> 'r list \<Rightarrow> bool" where
  "unique_key key rows = distinct (map key rows)"

section \<open>Statements without a key contract\<close>

lemma tbl_has_iff [simp]: "tbl_has key k rows \<longleftrightarrow> k \<in> key ` set rows"
  by (auto simp: tbl_has_def list_ex_iff)

lemma tbl_get_Some_key: "tbl_get key k rows = Some r \<Longrightarrow> key r = k \<and> r \<in> set rows"
  by (auto simp: tbl_get_def find_Some_iff)

lemma tbl_get_None: "tbl_get key k rows = None \<longleftrightarrow> k \<notin> key ` set rows"
  by (auto simp: tbl_get_def find_None_iff)

lemma tbl_get_unique:
  "unique_key key rows \<Longrightarrow> r \<in> set rows \<Longrightarrow> tbl_get key (key r) rows = Some r"
proof (induction rows)
  case (Cons x rows)
  then show ?case by (cases "r = x") (force simp: tbl_get_def unique_key_def)+
qed simp

lemma tbl_get_append:
  "tbl_get key k (xs @ ys) = (case tbl_get key k xs of None \<Rightarrow> tbl_get key k ys | Some r \<Rightarrow> Some r)"
  by (induction xs) (auto simp: tbl_get_def)

lemma tbl_get_map:
  "(\<And>r. r \<in> set rows \<Longrightarrow> key (f r) = key r) \<Longrightarrow>
     tbl_get key k (map f rows) = map_option f (tbl_get key k rows)"
  by (induction rows) (auto simp: tbl_get_def)

lemma unique_key_map:
  "(\<And>r. r \<in> set rows \<Longrightarrow> key (f r) = key r) \<Longrightarrow> unique_key key (map f rows) = unique_key key rows"
  by (simp add: unique_key_def o_def cong: map_cong)

lemma unique_key_update:
  "(\<And>r. r \<in> set rows \<Longrightarrow> p r \<Longrightarrow> key (f r) = key r) \<Longrightarrow>
     unique_key key (tbl_update p f rows) = unique_key key rows"
  unfolding tbl_update_def by (rule unique_key_map) simp

lemma tbl_get_update:
  "(\<And>r. r \<in> set rows \<Longrightarrow> p r \<Longrightarrow> key (f r) = key r) \<Longrightarrow>
     tbl_get key k (tbl_update p f rows) = map_option (\<lambda>r. if p r then f r else r) (tbl_get key k rows)"
  unfolding tbl_update_def by (rule tbl_get_map) simp

lemma set_tbl_update: "set (tbl_update p f rows) = (\<lambda>r. if p r then f r else r) ` set rows"
  by (simp add: tbl_update_def)

lemma keys_tbl_update:
  "(\<And>r. r \<in> set rows \<Longrightarrow> p r \<Longrightarrow> key (f r) = key r) \<Longrightarrow> map key (tbl_update p f rows) = map key rows"
  by (simp add: tbl_update_def)

lemma unique_key_delete: "unique_key key rows \<Longrightarrow> unique_key key (tbl_delete p rows)"
  by (simp add: unique_key_def tbl_delete_def distinct_map_filter)

lemma tbl_insert_Some:
  "tbl_insert key new rows = Some rows' \<longleftrightarrow> key new \<notin> key ` set rows \<and> rows' = rows @ [new]"
  by (auto simp: tbl_insert_def)

lemma tbl_insert_unique:
  "tbl_insert key new rows = Some rows' \<Longrightarrow> unique_key key rows \<Longrightarrow> unique_key key rows'"
  by (auto simp: tbl_insert_Some unique_key_def)

lemma unique_key_inj: "unique_key key rows \<Longrightarrow> r \<in> set rows \<Longrightarrow> s \<in> set rows \<Longrightarrow> key r = key s \<Longrightarrow> r = s"
  by (metis option.inject tbl_get_unique)

section \<open>A table with a unique key\<close>

locale keyed_table =
  fixes key :: "'r \<Rightarrow> 'k" and upd :: "'r \<Rightarrow> 'r \<Rightarrow> 'r"
  assumes upd_key: "key old = key new \<Longrightarrow> key (upd new old) = key new"
begin

lemma do_update_keys: "map key (tbl_update (\<lambda>r. key r = key new) (upd new) rows) = map key rows"
  by (rule keys_tbl_update) (simp add: upd_key)

lemma do_update_get:
  "tbl_get key k (tbl_update (\<lambda>r. key r = key new) (upd new) rows) =
     map_option (\<lambda>r. if key r = key new then upd new r else r) (tbl_get key k rows)"
  by (rule tbl_get_update) (simp add: upd_key)

lemma upsert_unique: "unique_key key rows \<Longrightarrow> unique_key key (tbl_upsert key upd new rows)"
  by (auto simp: tbl_upsert_def unique_key_def do_update_keys)

lemma upsert_get_same:
  "tbl_get key (key new) (tbl_upsert key upd new rows) =
     Some (case tbl_get key (key new) rows of None \<Rightarrow> new | Some old \<Rightarrow> upd new old)"
proof (cases "tbl_get key (key new) rows")
  case None
  then have "key new \<notin> key ` set rows" by (simp add: tbl_get_None)
  with None show ?thesis by (simp add: tbl_upsert_def tbl_get_append) (simp add: tbl_get_def)
next
  case (Some old)
  then have "key new \<in> key ` set rows" "key old = key new"
    using tbl_get_None [of key "key new" rows] tbl_get_Some_key [of key "key new" rows] by auto
  with Some show ?thesis by (simp add: tbl_upsert_def do_update_get)
qed

lemma upsert_get_other:
  assumes "k \<noteq> key new"
  shows "tbl_get key k (tbl_upsert key upd new rows) = tbl_get key k rows"
proof (cases "key new \<in> key ` set rows")
  case True
  have "map_option (\<lambda>r. if key r = key new then upd new r else r) (tbl_get key k rows) = tbl_get key k rows"
    using assms tbl_get_Some_key [of key k rows] by (cases "tbl_get key k rows") auto
  with True show ?thesis by (simp add: tbl_upsert_def do_update_get)
next
  case False
  with assms show ?thesis
    by (auto simp: tbl_upsert_def tbl_get_append tbl_get_def [of _ _ "[new]"] split: option.splits)
qed

lemma upsert_keys: "key ` set (tbl_upsert key upd new rows) = insert (key new) (key ` set rows)"
proof (cases "key new \<in> key ` set rows")
  case True
  then have "set (map key (tbl_upsert key upd new rows)) = set (map key rows)"
    by (simp only: tbl_upsert_def tbl_has_iff if_True do_update_keys)
  then show ?thesis using True by auto
qed (simp add: tbl_upsert_def)

end

end
