(* ===== verification/Utf8.thy ===== *)
theory Utf8
  imports Rust_Std
begin

text \<open>
  UTF-8 as the standard library encodes and validates it: \<open>str::as_bytes\<close> and the strict
  \<open>std::str::from_utf8\<close> (\<open>String::from_utf8\<close>), which refuses overlong forms, surrogates, values
  above 0x10FFFF and truncated sequences. The two round trips at the end are what the
  components that move between bytes and strings rely on.
\<close>

definition utf8_char :: "rchar \<Rightarrow> nat list" where
  "utf8_char n =
     (if n < 0x80 then [n]
      else if n < 0x800 then [0xC0 + n div 64, 0x80 + n mod 64]
      else if n < 0x10000 then [0xE0 + n div 4096, 0x80 + n div 64 mod 64, 0x80 + n mod 64]
      else [0xF0 + n div 262144, 0x80 + n div 4096 mod 64, 0x80 + n div 64 mod 64, 0x80 + n mod 64])"

definition as_bytes :: "rstr \<Rightarrow> bytes" where
  "as_bytes s = map of_nat (concat (map utf8_char s))"

text \<open>\<open>str::len\<close>, in bytes.\<close>

definition byte_len :: "rstr \<Rightarrow> nat" where
  "byte_len s = (\<Sum>c\<leftarrow>s. length (utf8_char c))"

lemma byte_len_simps [simp]: "byte_len [] = 0" "byte_len (c # s) = length (utf8_char c) + byte_len s" "byte_len (s @ t) = byte_len s + byte_len t"
  by (simp_all add: byte_len_def)

lemma byte_len_as_bytes: "byte_len s = length (as_bytes s)"
  by (induction s) (simp_all add: as_bytes_def)

definition is_cont :: "nat \<Rightarrow> bool" where
  "is_cont b \<longleftrightarrow> 0x80 \<le> b \<and> b < 0xC0"

fun utf8_decode :: "nat list \<Rightarrow> rstr option" where
  "utf8_decode [] = Some []"
| "utf8_decode (b # bs) =
     (if b < 0x80 then map_option (Cons b) (utf8_decode bs)
      else if 0xC2 \<le> b \<and> b < 0xE0 then
        (case bs of
           c1 # r \<Rightarrow>
             if is_cont c1 then map_option (Cons ((b - 0xC0) * 64 + (c1 - 0x80))) (utf8_decode r)
             else None
         | _ \<Rightarrow> None)
      else if 0xE0 \<le> b \<and> b < 0xF0 then
        (case bs of
           c1 # c2 # r \<Rightarrow>
             (let n = (b - 0xE0) * 4096 + (c1 - 0x80) * 64 + (c2 - 0x80)
              in if is_cont c1 \<and> is_cont c2 \<and> 0x800 \<le> n \<and> valid_char n
                 then map_option (Cons n) (utf8_decode r) else None)
         | _ \<Rightarrow> None)
      else if 0xF0 \<le> b \<and> b < 0xF5 then
        (case bs of
           c1 # c2 # c3 # r \<Rightarrow>
             (let n = (b - 0xF0) * 262144 + (c1 - 0x80) * 4096 + (c2 - 0x80) * 64 + (c3 - 0x80)
              in if is_cont c1 \<and> is_cont c2 \<and> is_cont c3 \<and> 0x10000 \<le> n \<and> valid_char n
                 then map_option (Cons n) (utf8_decode r) else None)
         | _ \<Rightarrow> None)
      else None)"

definition from_utf8 :: "bytes \<Rightarrow> rstr option" where
  "from_utf8 bs = utf8_decode (map unat bs)"

definition is_ascii_str :: "rstr \<Rightarrow> bool" where
  "is_ascii_str s \<longleftrightarrow> (\<forall>c\<in>set s. c < 128)"

lemma utf8_char_byte: "valid_char n \<Longrightarrow> b \<in> set (utf8_char n) \<Longrightarrow> b < 256"
  unfolding utf8_char_def valid_char_def by (auto split: if_splits)

lemma utf8_char_not_Nil [simp]: "utf8_char n \<noteq> []"
  by (simp add: utf8_char_def)

lemma div_4096: "n div 4096 = n div 64 div (64::nat)"
  by (simp add: div_mult2_eq [symmetric])

lemma div_262144: "n div 262144 = n div 64 div 64 div (64::nat)"
  by (simp add: div_mult2_eq [symmetric])

lemma digits3: "(n div 4096) * 4096 + (n div 64 mod 64) * 64 + n mod 64 = (n::nat)"
proof -
  have "(n div 4096) * 4096 + (n div 64 mod 64) * 64 = (n div 64) * 64"
    unfolding div_4096 using div_mult_mod_eq [of "n div 64" 64] by linarith
  then show ?thesis by simp
qed

lemma digits4:
  "(n div 262144) * 262144 + (n div 4096 mod 64) * 4096 + (n div 64 mod 64) * 64 + n mod 64 = (n::nat)"
proof -
  have "(n div 262144) * 262144 + (n div 4096 mod 64) * 4096 = (n div 4096) * 4096"
    unfolding div_262144 div_4096 using div_mult_mod_eq [of "n div 64 div 64" 64] by linarith
  then show ?thesis using digits3 [of n] by simp
qed

lemma base64_step: "r < 64 \<Longrightarrow> (q * 64 + r) div 64 = (q::nat)" "r < 64 \<Longrightarrow> (q * 64 + r) mod 64 = (r::nat)"
  by simp_all

lemma utf8_decode_char:
  assumes "valid_char n"
  shows "utf8_decode (utf8_char n @ bs) = map_option (Cons n) (utf8_decode bs)"
proof -
  consider "n < 0x80" | "0x80 \<le> n" "n < 0x800" | "0x800 \<le> n" "n < 0x10000" | "0x10000 \<le> n"
    by linarith
  then show ?thesis
  proof cases
    case 1
    then show ?thesis by (simp add: utf8_char_def)
  next
    case 2
    then have "2 \<le> n div 64" "n div 64 < 32" by auto
    with 2 show ?thesis by (simp add: utf8_char_def is_cont_def)
  next
    case 3
    then have "n div 4096 < 16" by auto
    with 3 assms show ?thesis
      by (simp add: utf8_char_def is_cont_def digits3 Let_def)
  next
    case 4
    then have "1 \<le> n div 65536" by auto
    from 4 assms have "n div 262144 < 5" by (auto simp: valid_char_def)
    with 4 assms show ?thesis
      by (simp add: utf8_char_def is_cont_def digits4 Let_def)
  qed
qed

lemma utf8_decode_concat:
  "\<forall>c\<in>set s. valid_char c \<Longrightarrow> utf8_decode (concat (map utf8_char s)) = Some s"
  by (induction s) (auto simp: utf8_decode_char)

lemma map_unat_of_nat_bytes:
  "\<forall>b\<in>set bs. b < 256 \<Longrightarrow> map unat (map of_nat bs :: bytes) = bs"
  by (induction bs) (auto simp: unat_of_nat)

lemma from_utf8_as_bytes:
  assumes "\<forall>c\<in>set s. valid_char c"
  shows "from_utf8 (as_bytes s) = Some s"
proof -
  have "\<forall>b\<in>set (concat (map utf8_char s)). b < 256"
    using assms utf8_char_byte by auto
  then show ?thesis
    using assms
    by (simp only: from_utf8_def as_bytes_def map_unat_of_nat_bytes utf8_decode_concat)
qed

lemma is_cont_obtain:
  assumes "is_cont c" obtains y where "c = 0x80 + y" "y < 64"
  using assms that [of "c - 0x80"] by (auto simp: is_cont_def)

lemma utf8_char_two:
  assumes "0xC2 \<le> b" "b < 0xE0" "is_cont c"
  shows "utf8_char ((b - 0xC0) * 64 + (c - 0x80)) = [b, c]"
proof -
  from assms obtain y where c: "c = 0x80 + y" "y < 64" by (elim is_cont_obtain)
  define x where "x = b - 0xC0"
  with assms(1) have b: "b = 0xC0 + x" by simp
  with assms have "2 \<le> x" "x < 32" by auto
  then show ?thesis using base64_step [of y x] c b by (simp add: utf8_char_def)
qed

lemma utf8_char_three:
  assumes "0xE0 \<le> b" "b < 0xF0" "is_cont c" "is_cont d"
    and "0x800 \<le> (b - 0xE0) * 4096 + (c - 0x80) * 64 + (d - 0x80)"
  shows "utf8_char ((b - 0xE0) * 4096 + (c - 0x80) * 64 + (d - 0x80)) = [b, c, d]"
proof -
  from assms obtain y where c: "c = 0x80 + y" "y < 64" by (elim is_cont_obtain)
  from assms obtain z where d: "d = 0x80 + z" "z < 64" by (elim is_cont_obtain)
  from assms(1) obtain x where b: "b = 0xE0 + x" by (auto simp: le_iff_add)
  with assms have x: "x < 16" by simp
  have n: "x * 4096 + y * 64 + z = (x * 64 + y) * 64 + z" by simp
  have "x * 4096 + y * 64 + z < 0x10000" using x c d by simp
  then show ?thesis using assms(5) b c d
    by (simp add: utf8_char_def div_4096 n base64_step del: distrib_right_numeral)
qed

lemma utf8_char_four:
  assumes "0xF0 \<le> b" "b < 0xF5" "is_cont c" "is_cont d" "is_cont e"
    and "0x10000 \<le> (b - 0xF0) * 262144 + (c - 0x80) * 4096 + (d - 0x80) * 64 + (e - 0x80)"
  shows "utf8_char ((b - 0xF0) * 262144 + (c - 0x80) * 4096 + (d - 0x80) * 64 + (e - 0x80))
    = [b, c, d, e]"
proof -
  from assms obtain y where c: "c = 0x80 + y" "y < 64" by (elim is_cont_obtain)
  from assms obtain z where d: "d = 0x80 + z" "z < 64" by (elim is_cont_obtain)
  from assms obtain w where e: "e = 0x80 + w" "w < 64" by (elim is_cont_obtain)
  from assms(1) obtain x where b: "b = 0xF0 + x" by (auto simp: le_iff_add)
  have n: "x * 262144 + y * 4096 + z * 64 + w = ((x * 64 + y) * 64 + z) * 64 + w" by simp
  show ?thesis using assms(6) b c d e
    by (simp add: utf8_char_def div_262144 div_4096 n base64_step del: distrib_right_numeral)
qed

lemma utf8_decode_encode:
  "utf8_decode bs = Some s \<Longrightarrow> concat (map utf8_char s) = bs \<and> (\<forall>c\<in>set s. valid_char c)"
proof (induction bs arbitrary: s rule: utf8_decode.induct)
  case (2 b bs)
  consider "b < 0x80" | "0xC2 \<le> b" "b < 0xE0" | "0xE0 \<le> b" "b < 0xF0" | "0xF0 \<le> b" "b < 0xF5"
    using "2.prems" by (fastforce split: if_splits)
  then show ?case
  proof cases
    case 1
    with "2.prems" obtain t where "utf8_decode bs = Some t" "s = b # t" by auto
    with 1 "2.IH"(1) show ?thesis by (auto simp: utf8_char_def valid_char_def)
  next
    case c: 2
    with "2.prems" obtain c1 r t where r: "bs = c1 # r" "is_cont c1" "utf8_decode r = Some t"
      "s = ((b - 0xC0) * 64 + (c1 - 0x80)) # t"
      by (auto split: list.splits if_splits)
    with c "2.IH"(2) have "concat (map utf8_char t) = r \<and> (\<forall>c\<in>set t. valid_char c)" by simp
    moreover from r(2) c have "(b - 0xC0) * 64 + (c1 - 0x80) < 0xD800" by (auto simp: is_cont_def)
    ultimately show ?thesis using r c by (auto simp: utf8_char_two valid_char_def)
  next
    case c: 3
    with "2.prems" obtain c1 c2 r t where r: "bs = c1 # c2 # r" "is_cont c1" "is_cont c2"
      "utf8_decode r = Some t" "s = ((b - 0xE0) * 4096 + (c1 - 0x80) * 64 + (c2 - 0x80)) # t"
      "0x800 \<le> (b - 0xE0) * 4096 + (c1 - 0x80) * 64 + (c2 - 0x80)"
      "valid_char ((b - 0xE0) * 4096 + (c1 - 0x80) * 64 + (c2 - 0x80))"
      by (auto simp: Let_def split: list.splits if_splits)
    with c "2.IH"(3) have "concat (map utf8_char t) = r \<and> (\<forall>c\<in>set t. valid_char c)" by simp
    with r c show ?thesis by (simp add: utf8_char_three)
  next
    case c: 4
    with "2.prems" obtain c1 c2 c3 r t where r: "bs = c1 # c2 # c3 # r" "is_cont c1" "is_cont c2"
      "is_cont c3" "utf8_decode r = Some t"
      "s = ((b - 0xF0) * 262144 + (c1 - 0x80) * 4096 + (c2 - 0x80) * 64 + (c3 - 0x80)) # t"
      "0x10000 \<le> (b - 0xF0) * 262144 + (c1 - 0x80) * 4096 + (c2 - 0x80) * 64 + (c3 - 0x80)"
      "valid_char ((b - 0xF0) * 262144 + (c1 - 0x80) * 4096 + (c2 - 0x80) * 64 + (c3 - 0x80))"
      by (auto simp: Let_def split: list.splits if_splits)
    with c "2.IH"(4) have "concat (map utf8_char t) = r \<and> (\<forall>c\<in>set t. valid_char c)" by simp
    with r c show ?thesis by (simp add: utf8_char_four)
  qed
qed simp

lemma as_bytes_from_utf8:
  assumes "from_utf8 bs = Some s"
  shows "as_bytes s = bs" "\<forall>c\<in>set s. valid_char c"
proof -
  have u: "map of_nat (map unat bs) = bs" by (simp add: map_idI)
  have *: "concat (map utf8_char s) = map unat bs \<and> (\<forall>c\<in>set s. valid_char c)"
    using assms unfolding from_utf8_def by (rule utf8_decode_encode)
  then show "as_bytes s = bs" by (simp only: as_bytes_def u)
  from * show "\<forall>c\<in>set s. valid_char c" ..
qed

lemma as_bytes_inj:
  assumes "\<forall>c\<in>set s. valid_char c" "\<forall>c\<in>set t. valid_char c" "as_bytes s = as_bytes t"
  shows "s = t"
  using assms from_utf8_as_bytes by (metis option.inject)

end
