(* ===== verification/Sync_Errors.thy ===== *)
theory Sync_Errors
  imports Rust_Std
begin

text \<open>
  \<open>sync/errors.rs\<close>: the error type of the sync engine, its \<open>Display\<close>, and the category the user
  interface shows. Every fallible sync operation of the development returns
  \<open>'a sync_result\<close>. The Unicode \<open>to_lowercase\<close> that the classifier applies to messages is a
  parameter.
\<close>

datatype sync_error =
    Crypto rstr
  | Integrity rstr
  | InvalidArgument rstr
  | LoginRequired
  | NotConfigured
  | Offline rstr
  | PermissionRequired
  | QuotaExceeded rstr
  | Serialization rstr
  | Server rstr
  | Storage rstr
  | SyncDisabled
  | Transport rstr
  | UnsupportedVersion u8

datatype sync_error_category =
    Cat_NotConfigured
  | Cat_LoginRequired
  | Cat_PermissionRequired
  | Cat_SyncDisabled
  | Cat_Offline
  | Cat_QuotaExceeded
  | Cat_PassphraseFailed
  | Cat_Server
  | Cat_Unknown

type_synonym 'a sync_result = "sync_error + 'a"

record sync_command_error =
  ce_category :: sync_error_category
  ce_message :: rstr

definition contains_case_insensitive :: "(rstr \<Rightarrow> rstr) \<Rightarrow> rstr \<Rightarrow> rstr \<Rightarrow> bool" where
  "contains_case_insensitive lower value needle = str_contains (lower value) needle"

definition category_from_transport_message :: "(rstr \<Rightarrow> rstr) \<Rightarrow> rstr \<Rightarrow> sync_error_category" where
  "category_from_transport_message lower message =
     (let l = lower message
      in if str_contains l (lit ''sync disabled'') then Cat_SyncDisabled
         else if str_contains l (lit ''resource_exhausted'') \<or> str_contains l (lit ''quota'')
           then Cat_QuotaExceeded
         else if str_contains l (lit ''permission_denied'') \<or> str_contains l (lit ''permission denied'')
           then Cat_PermissionRequired
         else if str_contains l (lit ''unauthenticated'') \<or> str_contains l (lit ''unauthorized'')
             \<or> str_contains l (lit ''login'')
           then Cat_LoginRequired
         else if str_contains l (lit ''unavailable'') \<or> str_contains l (lit ''deadline_exceeded'')
             \<or> str_contains l (lit ''network'') \<or> str_contains l (lit ''offline'')
             \<or> str_contains l (lit ''connection refused'')
             \<or> str_contains l (lit ''error sending request'')
           then Cat_Offline
         else if str_contains l (lit ''internal'') \<or> str_contains l (lit ''unknown'')
           then Cat_Server
         else Cat_Unknown)"

fun category :: "(rstr \<Rightarrow> rstr) \<Rightarrow> sync_error \<Rightarrow> sync_error_category" where
  "category lower NotConfigured = Cat_NotConfigured"
| "category lower LoginRequired = Cat_LoginRequired"
| "category lower PermissionRequired = Cat_PermissionRequired"
| "category lower SyncDisabled = Cat_SyncDisabled"
| "category lower (Offline _) = Cat_Offline"
| "category lower (QuotaExceeded _) = Cat_QuotaExceeded"
| "category lower (Server _) = Cat_Server"
| "category lower (Crypto message) =
     (if contains_case_insensitive lower message (lit ''passphrase'')
         \<or> contains_case_insensitive lower message (lit ''recovery phrase'')
      then Cat_PassphraseFailed else Cat_Unknown)"
| "category lower (Transport message) = category_from_transport_message lower message"
| "category lower (Integrity _) = Cat_Unknown"
| "category lower (InvalidArgument _) = Cat_Unknown"
| "category lower (Serialization _) = Cat_Unknown"
| "category lower (Storage _) = Cat_Unknown"
| "category lower (UnsupportedVersion _) = Cat_Unknown"

definition fmt_u8 :: "u8 \<Rightarrow> rstr" where
  "fmt_u8 b =
     (let n = unat b
      in (if n \<ge> 100 then [48 + n div 100] else []) @ (if n \<ge> 10 then [48 + n div 10 mod 10] else [])
         @ [48 + n mod 10])"

fun sync_error_display :: "sync_error \<Rightarrow> rstr" where
  "sync_error_display (Crypto m) = lit ''sync crypto error: '' @ m"
| "sync_error_display (Integrity m) = lit ''sync integrity error: '' @ m"
| "sync_error_display (InvalidArgument m) = lit ''invalid sync argument: '' @ m"
| "sync_error_display LoginRequired = lit ''sync login is required''"
| "sync_error_display NotConfigured = lit ''sync is not configured''"
| "sync_error_display (Offline m) = lit ''sync connection error: '' @ m"
| "sync_error_display PermissionRequired = lit ''sync account permission is required''"
| "sync_error_display (QuotaExceeded m) = lit ''sync quota exceeded: '' @ m"
| "sync_error_display (Serialization m) = lit ''sync serialization error: '' @ m"
| "sync_error_display (Server m) = lit ''sync server error: '' @ m"
| "sync_error_display (Storage m) = lit ''sync storage error: '' @ m"
| "sync_error_display SyncDisabled = lit ''sync is disabled on this server''"
| "sync_error_display (Transport m) = lit ''sync transport error: '' @ m"
| "sync_error_display (UnsupportedVersion v) = lit ''unsupported sync version: '' @ fmt_u8 v"

definition from_sync_error :: "(rstr \<Rightarrow> rstr) \<Rightarrow> sync_error \<Rightarrow> sync_command_error" where
  "from_sync_error lower e = \<lparr>ce_category = category lower e, ce_message = sync_error_display e\<rparr>"

end
