(* ===== verification/Sync_Db.thy ===== *)
theory Sync_Db
  imports Sql_Table Utf8 Rust_Path Sync_Errors
begin

text \<open>
  \<open>sync/db.rs\<close>: the local database of the sync engine, one SQLite file per vault. The state is the
  record \<open>sync_db\<close> of the tables the code reads or writes; every function of the module is one
  definition. A statement that returns \<open>Err\<close> leaves the database as it was (an open transaction is
  dropped), so an \<open>Inl\<close> carries no state. Of the failures that SQLite can report only constraint
  violations depend on the program; disk errors are not modelled. The BLAKE3 hash in hex is the
  parameter \<open>hash\<close>.
\<close>

section \<open>Records\<close>

record sync_vault_record =
  sv_vault_id :: rstr
  sv_root_path :: rstr
  sv_remote_workspace_id :: rstr
  sv_remote_head_commit_id :: "rstr option"
  sv_local_head_commit_id :: "rstr option"
  sv_device_id :: rstr
  sv_next_device_seq :: int
  sv_enabled :: bool
  sv_created_at_ms :: int
  sv_updated_at_ms :: int

record sync_file_input =
  si_path :: rstr
  si_normalized_path :: rstr
  si_kind :: rstr
  si_plaintext_hash :: "rstr option"
  si_size_bytes :: "int option"
  si_mtime_ms :: "int option"

record sync_file_record =
  sf_file_id :: rstr
  sf_path :: rstr
  sf_normalized_path :: rstr
  sf_kind :: rstr
  sf_plaintext_hash :: "rstr option"
  sf_size_bytes :: "int option"
  sf_mtime_ms :: "int option"
  sf_last_synced_commit_id :: "rstr option"
  sf_dirty :: bool
  sf_deleted :: bool

record scan_apply_result =
  sar_upserts :: "sync_file_record list"
  sar_deletions :: "sync_file_record list"

record sync_tree_entry_record =
  te_commit_id :: rstr
  te_file_id :: rstr
  te_normalized_path :: rstr
  te_plaintext_hash :: "rstr option"
  te_content_object_id :: "rstr option"
  te_pack_entry_id :: "rstr option"
  te_kind :: rstr

record sync_commit_record =
  sc_commit_id :: rstr
  sc_parent_commit_ids_json :: rstr
  sc_commit_kind :: rstr
  sc_direction :: rstr
  sc_status :: rstr
  sc_created_at_ms :: int
  sc_applied_at_ms :: "int option"
  sc_error :: "rstr option"

record sync_conflict_record =
  sx_conflict_id :: rstr
  sx_path :: rstr
  sx_conflict_path :: rstr
  sx_base_commit_id :: "rstr option"
  sx_local_commit_id :: "rstr option"
  sx_remote_commit_id :: "rstr option"
  sx_status :: rstr
  sx_created_at_ms :: int

text \<open>A row of \<open>sync_commit_trees\<close>, and a row of \<open>sync_tree_entries\<close>: the tree it belongs to and
  the entry, whose \<open>te_commit_id\<close> is the column \<open>content_commit_id\<close>.\<close>

record commit_tree_row =
  ct_commit_id :: rstr
  ct_tree_id :: rstr
  ct_tree_json :: rstr
  ct_source :: rstr
  ct_created_at_ms :: int

record tree_entry_row =
  tr_commit_id :: rstr
  tr_content_commit_id :: "rstr option"
  tr_entry :: sync_tree_entry_record

record sync_db =
  db_metadata :: "(rstr \<times> rstr) list"
  db_vaults :: "sync_vault_record list"
  db_files :: "sync_file_record list"
  db_commits :: "sync_commit_record list"
  db_commit_trees :: "commit_tree_row list"
  db_tree_entries :: "tree_entry_row list"
  db_tree_entries_have_content_commit :: bool
  db_conflicts :: "sync_conflict_record list"

definition FILE_KIND_MARKDOWN :: rstr where
  "FILE_KIND_MARKDOWN = lit ''markdown''"

definition CURRENT_SCHEMA_VERSION :: int where
  "CURRENT_SCHEMA_VERSION = 2"

definition SCHEMA_VERSION_KEY :: rstr where
  "SCHEMA_VERSION_KEY = lit ''schema_version''"

section \<open>Schema\<close>

definition create_schema :: "sync_db option \<Rightarrow> sync_db" where
  "create_schema conn =
     (case conn of
        Some db \<Rightarrow> db
      | None \<Rightarrow> \<lparr>db_metadata = [], db_vaults = [], db_files = [], db_commits = [],
          db_commit_trees = [], db_tree_entries = [],
          db_tree_entries_have_content_commit = True, db_conflicts = []\<rparr>)"

definition ensure_tree_entry_content_commit_id_column :: "sync_db \<Rightarrow> sync_db" where
  "ensure_tree_entry_content_commit_id_column db =
     (if db_tree_entries_have_content_commit db then db
      else db\<lparr>db_tree_entries_have_content_commit := True, db_tree_entries := [],
             db_commit_trees := []\<rparr>)"

definition metadata_value :: "sync_db \<Rightarrow> rstr \<Rightarrow> rstr option" where
  "metadata_value db key = map_option snd (tbl_get fst key (db_metadata db))"

definition persist_schema_version :: "sync_db \<Rightarrow> sync_db" where
  "persist_schema_version db =
     db\<lparr>db_metadata := tbl_upsert fst (\<lambda>new old. (fst old, snd new))
          (SCHEMA_VERSION_KEY, fmt_int CURRENT_SCHEMA_VERSION) (db_metadata db)\<rparr>"

text \<open>\<open>DROP TABLE\<close> of every table.\<close>

definition reset_schema :: "sync_db \<Rightarrow> sync_db option" where
  "reset_schema db = None"

definition init_schema :: "sync_db option \<Rightarrow> sync_db" where
  "init_schema conn =
     (let db = ensure_tree_entry_content_commit_id_column (create_schema conn)
      in case metadata_value db SCHEMA_VERSION_KEY of
           Some value \<Rightarrow>
             if value = fmt_int CURRENT_SCHEMA_VERSION then db
             else persist_schema_version
               (ensure_tree_entry_content_commit_id_column (create_schema (reset_schema db)))
         | None \<Rightarrow> persist_schema_version db)"

section \<open>Vault rows\<close>

definition vault_do_update :: "sync_vault_record \<Rightarrow> sync_vault_record \<Rightarrow> sync_vault_record" where
  "vault_do_update excluded old =
     old\<lparr>sv_root_path := sv_root_path excluded,
         sv_remote_workspace_id := sv_remote_workspace_id excluded,
         sv_remote_head_commit_id := sv_remote_head_commit_id excluded,
         sv_local_head_commit_id := sv_local_head_commit_id excluded,
         sv_device_id := sv_device_id excluded,
         sv_next_device_seq := sv_next_device_seq excluded,
         sv_enabled := sv_enabled excluded,
         sv_updated_at_ms := sv_updated_at_ms excluded\<rparr>"

definition upsert_vault :: "sync_db \<Rightarrow> sync_vault_record \<Rightarrow> sync_db" where
  "upsert_vault db vault = db\<lparr>db_vaults := tbl_upsert sv_vault_id vault_do_update vault (db_vaults db)\<rparr>"

definition get_vault :: "sync_db \<Rightarrow> rstr \<Rightarrow> sync_vault_record option" where
  "get_vault db vault_id = tbl_get sv_vault_id vault_id (db_vaults db)"

definition delete_vault :: "sync_db \<Rightarrow> rstr \<Rightarrow> sync_db" where
  "delete_vault db vault_id =
     db\<lparr>db_vaults := tbl_delete (\<lambda>v. sv_vault_id v = vault_id) (db_vaults db)\<rparr>"

definition update_vault_after_publish :: "sync_db \<Rightarrow> rstr \<Rightarrow> rstr \<Rightarrow> int \<Rightarrow> int \<Rightarrow> sync_db" where
  "update_vault_after_publish db vault_id commit_id next_device_seq updated_at_ms =
     db\<lparr>db_vaults := tbl_update (\<lambda>v. sv_vault_id v = vault_id)
          (\<lambda>v. v\<lparr>sv_remote_head_commit_id := Some commit_id,
                 sv_local_head_commit_id := Some commit_id,
                 sv_next_device_seq := next_device_seq,
                 sv_updated_at_ms := updated_at_ms\<rparr>) (db_vaults db)\<rparr>"

definition update_vault_after_pull :: "sync_db \<Rightarrow> rstr \<Rightarrow> rstr \<Rightarrow> int \<Rightarrow> sync_db" where
  "update_vault_after_pull db vault_id commit_id updated_at_ms =
     db\<lparr>db_vaults := tbl_update (\<lambda>v. sv_vault_id v = vault_id)
          (\<lambda>v. v\<lparr>sv_remote_head_commit_id := Some commit_id,
                 sv_local_head_commit_id := Some commit_id,
                 sv_updated_at_ms := updated_at_ms\<rparr>) (db_vaults db)\<rparr>"

definition validate_vault_id :: "rstr \<Rightarrow> unit sync_result" where
  "validate_vault_id vault_id =
     res_guard (\<not> (vault_id = [] \<or>
         \<not> list_all (\<lambda>ch. is_ascii_alphanumeric ch \<or> ch = 45 \<or> ch = 95) vault_id))
       (InvalidArgument (lit ''invalid vault_id''))"

section \<open>Scanning files into the database\<close>

definition file_id_for_normalized_path :: "(bytes \<Rightarrow> rstr) \<Rightarrow> rstr \<Rightarrow> rstr" where
  "file_id_for_normalized_path hash normalized_path =
     lit ''file_'' @ take 32 (hash (as_bytes normalized_path))"

definition validate_file_input :: "sync_file_input \<Rightarrow> unit sync_result" where
  "validate_file_input file =
     (if str_trim (si_path file) = [] \<or> str_trim (si_normalized_path file) = []
      then Inl (InvalidArgument (lit ''sync file path is required''))
      else if str_trim (si_kind file) = []
      then Inl (InvalidArgument (lit ''sync file kind is required''))
      else Inr ())"

definition list_files :: "sync_db \<Rightarrow> sync_file_record list" where
  "list_files db = sort_key sf_normalized_path (db_files db)"

definition list_dirty_files :: "sync_db \<Rightarrow> sync_file_record list" where
  "list_dirty_files db = sort_key sf_normalized_path (filter sf_dirty (db_files db))"

definition get_file_by_normalized :: "sync_file_record list \<Rightarrow> rstr \<Rightarrow> sync_file_record sync_result" where
  "get_file_by_normalized rows normalized_path =
     ok_or (tbl_get sf_normalized_path normalized_path rows)
       (Storage (lit ''failed to read sync file: Query returned no rows''))"

definition get_file_by_id :: "sync_file_record list \<Rightarrow> rstr \<Rightarrow> sync_file_record sync_result" where
  "get_file_by_id rows file_id =
     ok_or (tbl_get sf_file_id file_id rows)
       (Storage (lit ''failed to read sync file: Query returned no rows''))"

text \<open>The row that the \<open>INSERT\<close> of a scanned file proposes, and its \<open>DO UPDATE SET\<close> clause. The
  unique index on \<open>normalized_path\<close> is the conflict target, so SQLite checks it before the primary
  key; a primary key clash with another path is an error.\<close>

definition scanned_row :: "rstr \<Rightarrow> sync_file_input \<Rightarrow> bool \<Rightarrow> sync_file_record" where
  "scanned_row file_id file dirty =
     \<lparr>sf_file_id = file_id, sf_path = si_path file, sf_normalized_path = si_normalized_path file,
      sf_kind = si_kind file, sf_plaintext_hash = si_plaintext_hash file,
      sf_size_bytes = si_size_bytes file, sf_mtime_ms = si_mtime_ms file,
      sf_last_synced_commit_id = None, sf_dirty = dirty, sf_deleted = False\<rparr>"

definition file_do_update :: "sync_file_record \<Rightarrow> sync_file_record \<Rightarrow> sync_file_record" where
  "file_do_update excluded old =
     old\<lparr>sf_path := sf_path excluded, sf_kind := sf_kind excluded,
         sf_plaintext_hash := sf_plaintext_hash excluded,
         sf_size_bytes := sf_size_bytes excluded, sf_mtime_ms := sf_mtime_ms excluded,
         sf_dirty := (sf_dirty old \<or> sf_dirty excluded), sf_deleted := False\<rparr>"

definition upsert_file_row :: "sync_file_record \<Rightarrow> sync_file_record list \<Rightarrow> (sync_file_record list) sync_result" where
  "upsert_file_row new rows =
     (if \<not> tbl_has sf_normalized_path (sf_normalized_path new) rows \<and> tbl_has sf_file_id (sf_file_id new) rows
      then Inl (Storage (lit ''failed to upsert sync file: UNIQUE constraint failed: sync_files.file_id''))
      else Inr (tbl_upsert sf_normalized_path file_do_update new rows))"

definition scan_dirty :: "sync_file_record option \<Rightarrow> sync_file_input \<Rightarrow> bool" where
  "scan_dirty previous file =
     (case previous of
        None \<Rightarrow> True
      | Some row \<Rightarrow> sf_deleted row \<or> sf_path row \<noteq> si_path file \<or> sf_kind row \<noteq> si_kind file
          \<or> sf_plaintext_hash row \<noteq> si_plaintext_hash file \<or> sf_size_bytes row \<noteq> si_size_bytes file)"

type_synonym scan_state = "sync_file_record list \<times> rstr list \<times> sync_file_record list"

definition scan_upsert_step ::
  "(bytes \<Rightarrow> rstr) \<Rightarrow> sync_file_record list \<Rightarrow> sync_file_input \<Rightarrow> scan_state \<Rightarrow> scan_state sync_result" where
  "scan_upsert_step hash existing file st =
     (case st of (rows, seen, upserts) \<Rightarrow>
       res_bind (validate_file_input file) (\<lambda>_.
       if si_normalized_path file \<in> set seen
       then Inl (InvalidArgument (lit ''duplicate normalized sync path: '' @ si_normalized_path file))
       else
         let previous = tbl_get sf_normalized_path (si_normalized_path file) existing;
             file_id = (case previous of Some row \<Rightarrow> sf_file_id row
               | None \<Rightarrow> file_id_for_normalized_path hash (si_normalized_path file));
             dirty = scan_dirty previous file
         in res_bind (upsert_file_row (scanned_row file_id file dirty) rows) (\<lambda>rows.
            res_bind (get_file_by_normalized rows (si_normalized_path file)) (\<lambda>row.
            Inr (rows, seen @ [si_normalized_path file], upserts @ [row])))))"

definition mark_deleted_row :: "int \<Rightarrow> sync_file_record \<Rightarrow> sync_file_record" where
  "mark_deleted_row now_ms row = row\<lparr>sf_deleted := True, sf_dirty := True, sf_mtime_ms := Some now_ms\<rparr>"

definition scan_delete_step ::
  "rstr list \<Rightarrow> int \<Rightarrow> sync_file_record \<Rightarrow> sync_file_record list \<times> sync_file_record list
    \<Rightarrow> (sync_file_record list \<times> sync_file_record list) sync_result" where
  "scan_delete_step seen now_ms row st =
     (case st of (rows, deletions) \<Rightarrow>
       if sf_deleted row \<or> sf_normalized_path row \<in> set seen then Inr (rows, deletions)
       else
         let rows = tbl_update (\<lambda>r. sf_file_id r = sf_file_id row) (mark_deleted_row now_ms) rows
         in res_bind (get_file_by_id rows (sf_file_id row)) (\<lambda>deleted.
            Inr (rows, deletions @ [deleted])))"

definition apply_scan ::
  "(bytes \<Rightarrow> rstr) \<Rightarrow> sync_db \<Rightarrow> sync_file_input list \<Rightarrow> int \<Rightarrow> (sync_db \<times> scan_apply_result) sync_result" where
  "apply_scan hash db files now_ms =
     (let existing = list_files db
      in res_bind (res_fold (scan_upsert_step hash existing) files (db_files db, [], []))
           (\<lambda>(rows, seen, upserts).
         res_bind (res_fold (scan_delete_step seen now_ms) existing (rows, []))
           (\<lambda>(rows, deletions).
         Inr (db\<lparr>db_files := rows\<rparr>, \<lparr>sar_upserts = upserts, sar_deletions = deletions\<rparr>))))"

section \<open>Dirty files\<close>

definition mark_unsynced_file_deleted_clean :: "sync_db \<Rightarrow> rstr \<Rightarrow> int \<Rightarrow> sync_db" where
  "mark_unsynced_file_deleted_clean db normalized_path now_ms =
     db\<lparr>db_files := tbl_update
          (\<lambda>r. sf_normalized_path r = normalized_path \<and> sf_last_synced_commit_id r = None)
          (\<lambda>r. r\<lparr>sf_deleted := True, sf_dirty := False, sf_mtime_ms := Some now_ms\<rparr>) (db_files db)\<rparr>"

definition mark_file_synced :: "rstr \<Rightarrow> sync_file_record \<Rightarrow> sync_file_record" where
  "mark_file_synced commit_id r = r\<lparr>sf_dirty := False, sf_last_synced_commit_id := Some commit_id\<rparr>"

definition mark_files_synced :: "sync_db \<Rightarrow> rstr \<Rightarrow> rstr list \<Rightarrow> sync_db" where
  "mark_files_synced db commit_id file_ids =
     db\<lparr>db_files := fold (\<lambda>file_id. tbl_update (\<lambda>r. sf_file_id r = file_id) (mark_file_synced commit_id))
          file_ids (db_files db)\<rparr>"

definition coalesce_text :: "rstr option \<Rightarrow> rstr" where
  "coalesce_text v = (case v of None \<Rightarrow> [] | Some s \<Rightarrow> s)"

definition matches_head :: "tree_entry_row list \<Rightarrow> rstr \<Rightarrow> sync_file_record \<Rightarrow> bool" where
  "matches_head entries commit_id f \<longleftrightarrow> sf_dirty f \<and>
     ((\<not> sf_deleted f \<and> list_ex (\<lambda>e. tr_commit_id e = commit_id
          \<and> te_file_id (tr_entry e) = sf_file_id f
          \<and> te_normalized_path (tr_entry e) = sf_normalized_path f
          \<and> te_kind (tr_entry e) = sf_kind f
          \<and> coalesce_text (te_plaintext_hash (tr_entry e)) = coalesce_text (sf_plaintext_hash f)) entries)
      \<or> (sf_deleted f \<and> \<not> list_ex (\<lambda>e. tr_commit_id e = commit_id
          \<and> te_file_id (tr_entry e) = sf_file_id f) entries))"

definition clear_dirty_files_matching_head :: "sync_db \<Rightarrow> rstr \<Rightarrow> sync_db \<times> nat" where
  "clear_dirty_files_matching_head db commit_id =
     (let p = matches_head (db_tree_entries db) commit_id
      in (db\<lparr>db_files := tbl_update p (mark_file_synced commit_id) (db_files db)\<rparr>,
          length (filter p (db_files db))))"

section \<open>Commit trees, commits and conflicts\<close>

definition tree_row :: "rstr \<Rightarrow> sync_tree_entry_record \<Rightarrow> tree_entry_row" where
  "tree_row commit_id entry =
     \<lparr>tr_commit_id = commit_id, tr_content_commit_id = Some (te_commit_id entry), tr_entry = entry\<rparr>"

definition tree_row_key :: "tree_entry_row \<Rightarrow> rstr \<times> rstr" where
  "tree_row_key row = (tr_commit_id row, te_file_id (tr_entry row))"

definition insert_tree_entry ::
  "rstr \<Rightarrow> sync_tree_entry_record \<Rightarrow> tree_entry_row list \<Rightarrow> (tree_entry_row list) sync_result" where
  "insert_tree_entry commit_id entry rows =
     ok_or (tbl_insert tree_row_key (tree_row commit_id entry) rows)
       (Storage (lit ''failed to persist tree entry: UNIQUE constraint failed: sync_tree_entries''))"

definition commit_tree_do_update :: "commit_tree_row \<Rightarrow> commit_tree_row \<Rightarrow> commit_tree_row" where
  "commit_tree_do_update excluded old =
     old\<lparr>ct_tree_id := ct_tree_id excluded, ct_tree_json := ct_tree_json excluded,
         ct_source := ct_source excluded, ct_created_at_ms := ct_created_at_ms excluded\<rparr>"

definition persist_tree_cache ::
  "sync_db \<Rightarrow> rstr \<Rightarrow> rstr \<Rightarrow> rstr \<Rightarrow> rstr \<Rightarrow> sync_tree_entry_record list \<Rightarrow> int \<Rightarrow> sync_db sync_result" where
  "persist_tree_cache db commit_id tree_id tree_json source entries created_at_ms =
     (let trees = tbl_upsert ct_commit_id commit_tree_do_update
            \<lparr>ct_commit_id = commit_id, ct_tree_id = tree_id, ct_tree_json = tree_json,
             ct_source = source, ct_created_at_ms = created_at_ms\<rparr> (db_commit_trees db);
          kept = tbl_delete (\<lambda>r. tr_commit_id r = commit_id) (db_tree_entries db)
      in res_bind (res_fold (insert_tree_entry commit_id) entries kept) (\<lambda>rows.
           Inr (db\<lparr>db_commit_trees := trees, db_tree_entries := rows\<rparr>)))"

definition sync_tree_entry_from_row :: "tree_entry_row \<Rightarrow> sync_tree_entry_record" where
  "sync_tree_entry_from_row row =
     (tr_entry row)\<lparr>te_commit_id :=
        (case tr_content_commit_id row of Some c \<Rightarrow> c | None \<Rightarrow> tr_commit_id row)\<rparr>"

definition list_tree_entries :: "sync_db \<Rightarrow> rstr \<Rightarrow> sync_tree_entry_record list" where
  "list_tree_entries db commit_id =
     sort_key te_normalized_path
       (map sync_tree_entry_from_row (filter (\<lambda>r. tr_commit_id r = commit_id) (db_tree_entries db)))"

definition commit_do_update :: "sync_commit_record \<Rightarrow> sync_commit_record \<Rightarrow> sync_commit_record" where
  "commit_do_update excluded old =
     old\<lparr>sc_parent_commit_ids_json := sc_parent_commit_ids_json excluded,
         sc_commit_kind := sc_commit_kind excluded, sc_direction := sc_direction excluded,
         sc_status := sc_status excluded, sc_applied_at_ms := sc_applied_at_ms excluded,
         sc_error := sc_error excluded\<rparr>"

definition upsert_local_commit :: "sync_db \<Rightarrow> sync_commit_record \<Rightarrow> sync_db" where
  "upsert_local_commit db commit =
     db\<lparr>db_commits := tbl_upsert sc_commit_id commit_do_update commit (db_commits db)\<rparr>"

definition conflict_do_update :: "sync_conflict_record \<Rightarrow> sync_conflict_record \<Rightarrow> sync_conflict_record" where
  "conflict_do_update excluded old =
     old\<lparr>sx_path := sx_path excluded, sx_conflict_path := sx_conflict_path excluded,
         sx_base_commit_id := sx_base_commit_id excluded,
         sx_local_commit_id := sx_local_commit_id excluded,
         sx_remote_commit_id := sx_remote_commit_id excluded, sx_status := sx_status excluded\<rparr>"

definition upsert_conflict :: "sync_db \<Rightarrow> sync_conflict_record \<Rightarrow> sync_db" where
  "upsert_conflict db conflict =
     db\<lparr>db_conflicts := tbl_upsert sx_conflict_id conflict_do_update conflict (db_conflicts db)\<rparr>"

definition list_open_conflicts :: "sync_db \<Rightarrow> sync_conflict_record list" where
  "list_open_conflicts db =
     sort_key (\<lambda>c. (sx_created_at_ms c, sx_conflict_path c))
       (filter (\<lambda>c. sx_status c = lit ''open'') (db_conflicts db))"

definition mark_conflict_resolved :: "sync_db \<Rightarrow> rstr \<Rightarrow> sync_db" where
  "mark_conflict_resolved db conflict_id =
     db\<lparr>db_conflicts := tbl_update (\<lambda>c. sx_conflict_id c = conflict_id \<and> sx_status c = lit ''open'')
          (\<lambda>c. c\<lparr>sx_status := lit ''resolved''\<rparr>) (db_conflicts db)\<rparr>"

definition get_conflict_status :: "sync_db \<Rightarrow> rstr \<Rightarrow> rstr option" where
  "get_conflict_status db conflict_id =
     map_option sx_status (tbl_get sx_conflict_id conflict_id (db_conflicts db))"

section \<open>Every table keeps its keys\<close>

interpretation vaults: keyed_table sv_vault_id vault_do_update
  by unfold_locales (simp add: vault_do_update_def)

interpretation files: keyed_table sf_normalized_path file_do_update
  by unfold_locales (simp add: file_do_update_def)

interpretation commits: keyed_table sc_commit_id commit_do_update
  by unfold_locales (simp add: commit_do_update_def)

interpretation commit_trees: keyed_table ct_commit_id commit_tree_do_update
  by unfold_locales (simp add: commit_tree_do_update_def)

interpretation conflicts: keyed_table sx_conflict_id conflict_do_update
  by unfold_locales (simp add: conflict_do_update_def)

interpretation metadata: keyed_table "fst :: rstr \<times> rstr \<Rightarrow> rstr" "\<lambda>new old. (fst old, snd new)"
  by unfold_locales simp

abbreviation file_id_of :: "(bytes \<Rightarrow> rstr) \<Rightarrow> rstr \<Rightarrow> rstr" where
  "file_id_of \<equiv> file_id_for_normalized_path"

definition files_wf :: "(bytes \<Rightarrow> rstr) \<Rightarrow> sync_file_record list \<Rightarrow> bool" where
  "files_wf hash rows \<longleftrightarrow> unique_key sf_normalized_path rows \<and> unique_key sf_file_id rows \<and>
     (\<forall>r\<in>set rows. sf_file_id r = file_id_of hash (sf_normalized_path r))"

definition db_wf :: "(bytes \<Rightarrow> rstr) \<Rightarrow> sync_db \<Rightarrow> bool" where
  "db_wf hash db \<longleftrightarrow> unique_key fst (db_metadata db) \<and> unique_key sv_vault_id (db_vaults db) \<and>
     files_wf hash (db_files db) \<and> unique_key sc_commit_id (db_commits db) \<and>
     unique_key ct_commit_id (db_commit_trees db) \<and> unique_key tree_row_key (db_tree_entries db) \<and>
     unique_key sx_conflict_id (db_conflicts db)"

lemma files_wf_update:
  assumes "files_wf hash rows"
    and "\<And>r. r \<in> set rows \<Longrightarrow> p r \<Longrightarrow> sf_file_id (f r) = sf_file_id r"
    and "\<And>r. r \<in> set rows \<Longrightarrow> p r \<Longrightarrow> sf_normalized_path (f r) = sf_normalized_path r"
  shows "files_wf hash (tbl_update p f rows)"
  using assms unique_key_update [of rows p sf_file_id f] unique_key_update [of rows p sf_normalized_path f]
  by (auto simp: files_wf_def set_tbl_update)

lemma mark_file_synced_keys [simp]:
  "sf_file_id (mark_file_synced c r) = sf_file_id r"
  "sf_normalized_path (mark_file_synced c r) = sf_normalized_path r"
  by (simp_all add: mark_file_synced_def)

lemma scanned_row_norm [simp]: "sf_normalized_path (scanned_row i f d) = si_normalized_path f"
  by (simp add: scanned_row_def)

lemma mark_deleted_row_keys [simp]:
  "sf_file_id (mark_deleted_row n r) = sf_file_id r"
  "sf_normalized_path (mark_deleted_row n r) = sf_normalized_path r"
  by (simp_all add: mark_deleted_row_def)

section \<open>Scanning: the database as a map from paths to rows\<close>

definition file_view :: "sync_file_record list \<Rightarrow> rstr \<rightharpoonup> sync_file_record" where
  "file_view rows k = tbl_get sf_normalized_path k rows"

text \<open>What a scan leaves for one scanned file and for one known path.\<close>

definition scan_row :: "(bytes \<Rightarrow> rstr) \<Rightarrow> sync_file_record option \<Rightarrow> sync_file_input \<Rightarrow> sync_file_record" where
  "scan_row hash previous f =
     (case previous of
        None \<Rightarrow> scanned_row (file_id_of hash (si_normalized_path f)) f True
      | Some old \<Rightarrow> file_do_update (scanned_row (sf_file_id old) f (scan_dirty previous f)) old)"

definition upsert_view ::
  "(bytes \<Rightarrow> rstr) \<Rightarrow> (rstr \<rightharpoonup> sync_file_record) \<Rightarrow> sync_file_input list \<Rightarrow> rstr \<rightharpoonup> sync_file_record" where
  "upsert_view hash E fs k =
     (case find (\<lambda>f. si_normalized_path f = k) fs of
        None \<Rightarrow> E k | Some f \<Rightarrow> Some (scan_row hash (E k) f))"

definition scan_view ::
  "(bytes \<Rightarrow> rstr) \<Rightarrow> (rstr \<rightharpoonup> sync_file_record) \<Rightarrow> sync_file_input list \<Rightarrow> int \<Rightarrow> rstr \<rightharpoonup> sync_file_record" where
  "scan_view hash E fs now k =
     (case find (\<lambda>f. si_normalized_path f = k) fs of
        Some f \<Rightarrow> Some (scan_row hash (E k) f)
      | None \<Rightarrow> map_option (\<lambda>old. if sf_deleted old then old else mark_deleted_row now old) (E k))"

lemma scan_row_norm:
  "(\<And>old. previous = Some old \<Longrightarrow> sf_normalized_path old = si_normalized_path f) \<Longrightarrow>
     sf_normalized_path (scan_row hash previous f) = si_normalized_path f"
  by (simp add: scan_row_def scanned_row_def file_do_update_def split: option.splits)

lemma file_view_key: "file_view rows k = Some r \<Longrightarrow> sf_normalized_path r = k \<and> r \<in> set rows"
  unfolding file_view_def by (rule tbl_get_Some_key)

lemma file_view_mem: "unique_key sf_normalized_path rows \<Longrightarrow> r \<in> set rows \<Longrightarrow> file_view rows (sf_normalized_path r) = Some r"
  unfolding file_view_def by (rule tbl_get_unique)

lemma file_view_set:
  assumes "unique_key sf_normalized_path a" "unique_key sf_normalized_path b" "set a = set b"
  shows "file_view a = file_view b"
proof
  fix k
  show "file_view a k = file_view b k"
  proof (cases "file_view a k")
    case None
    then have "k \<notin> sf_normalized_path ` set a" by (simp add: file_view_def tbl_get_None)
    with assms(3) have "file_view b k = None" by (simp add: file_view_def tbl_get_None)
    with None show ?thesis by simp
  next
    case (Some r)
    then show ?thesis using file_view_key [OF Some] file_view_mem [OF assms(2), of r] assms(3) by auto
  qed
qed

lemma unique_key_sort: "unique_key key (sort_key g rows) = unique_key key rows"
  unfolding unique_key_def by (metis distinct_map distinct_sort set_sort)

lemma unique_ids_from_paths:
  assumes "unique_key sf_normalized_path rows"
    and "\<forall>r\<in>set rows. sf_file_id r = file_id_of hash (sf_normalized_path r)"
    and "inj_on (file_id_of hash) (sf_normalized_path ` set rows)"
  shows "unique_key sf_file_id rows"
proof -
  have "map sf_file_id rows = map (file_id_of hash) (map sf_normalized_path rows)"
    using assms(2) by simp
  then show ?thesis using assms(1,3) unfolding unique_key_def by (simp only: distinct_map set_map)
qed

lemma find_si_None:
  "find (\<lambda>f. si_normalized_path f = k) fs = None \<longleftrightarrow> k \<notin> si_normalized_path ` set fs"
  by (auto simp: find_None_iff)

lemma find_si_append:
  "find P (fs @ gs) = (case find P fs of None \<Rightarrow> find P gs | Some f \<Rightarrow> Some f)"
  by (induction fs) auto

lemma upsert_step_ok:
  assumes E: "unique_key sf_normalized_path existing"
    and rows: "unique_key sf_normalized_path rows"
    and ids: "\<forall>r\<in>set rows. sf_file_id r = file_id_of hash (sf_normalized_path r)"
    and inj: "inj_on (file_id_of hash) (insert (si_normalized_path f) (sf_normalized_path ` set rows))"
    and view: "file_view rows (si_normalized_path f) = file_view existing (si_normalized_path f)"
    and valid: "validate_file_input f = Inr ()" and new: "si_normalized_path f \<notin> set seen"
  defines "row \<equiv> scan_row hash (file_view existing (si_normalized_path f)) f"
  shows "\<exists>rows'. scan_upsert_step hash existing f (rows, seen, ups) =
      Inr (rows', seen @ [si_normalized_path f], ups @ [row]) \<and>
    unique_key sf_normalized_path rows' \<and>
    (\<forall>r\<in>set rows'. sf_file_id r = file_id_of hash (sf_normalized_path r)) \<and>
    sf_normalized_path ` set rows' = insert (si_normalized_path f) (sf_normalized_path ` set rows) \<and>
    file_view rows' = (file_view rows)(si_normalized_path f \<mapsto> row)"
proof -
  let ?k = "si_normalized_path f"
  let ?prev = "file_view existing ?k"
  let ?new = "scanned_row (case ?prev of Some row \<Rightarrow> sf_file_id row | None \<Rightarrow> file_id_of hash ?k) f
    (scan_dirty ?prev f)"
  let ?rows = "tbl_upsert sf_normalized_path file_do_update ?new rows"
  have newk: "sf_normalized_path ?new = ?k" by (simp add: scanned_row_def)
  have noclash: "\<not> (\<not> tbl_has sf_normalized_path (sf_normalized_path ?new) rows \<and>
      tbl_has sf_file_id (sf_file_id ?new) rows)"
  proof (cases ?prev)
    case None
    show ?thesis
    proof
      assume "\<not> tbl_has sf_normalized_path (sf_normalized_path ?new) rows \<and>
        tbl_has sf_file_id (sf_file_id ?new) rows"
      then obtain r where r: "r \<in> set rows" "sf_file_id r = file_id_of hash ?k"
        "?k \<notin> sf_normalized_path ` set rows" using None newk by (auto simp: scanned_row_def)
      with ids have "file_id_of hash (sf_normalized_path r) = file_id_of hash ?k" by simp
      then have "sf_normalized_path r = ?k" using inj r(1) by (rule_tac inj_onD [OF inj]) auto
      with r show False by force
    qed
  next
    case (Some old)
    then have "?k \<in> sf_normalized_path ` set rows"
      using view file_view_key [of rows ?k old] by force
    then show ?thesis by (simp add: newk)
  qed
  have same: "tbl_get sf_normalized_path ?k ?rows = Some row"
  proof (cases ?prev)
    case None
    then show ?thesis using files.upsert_get_same [of ?new rows] view
      by (simp add: row_def scan_row_def file_view_def scan_dirty_def [of None])
  next
    case (Some old)
    then show ?thesis using files.upsert_get_same [of ?new rows] view
      by (simp add: row_def scan_row_def file_view_def)
  qed
  have step: "scan_upsert_step hash existing f (rows, seen, ups) = Inr (?rows, seen @ [?k], ups @ [row])"
    using valid new noclash same
    by (simp add: scan_upsert_step_def upsert_file_row_def get_file_by_normalized_def Let_def
        file_view_def)
  have uniq: "unique_key sf_normalized_path ?rows" by (rule files.upsert_unique [OF rows])
  have keys: "sf_normalized_path ` set ?rows = insert ?k (sf_normalized_path ` set rows)"
    using files.upsert_keys [of ?new rows] by (simp add: newk)
  have fv: "file_view ?rows = (file_view rows)(?k \<mapsto> row)"
    using same files.upsert_get_other [of _ ?new rows] by (auto simp: file_view_def newk fun_eq_iff)
  have ids': "\<forall>r\<in>set ?rows. sf_file_id r = file_id_of hash (sf_normalized_path r)"
  proof
    fix r assume r: "r \<in> set ?rows"
    show "sf_file_id r = file_id_of hash (sf_normalized_path r)"
    proof (cases "sf_normalized_path r = ?k")
      case True
      with r uniq fv have "r = row" using file_view_mem [OF uniq r] by simp
      moreover have "sf_file_id old = file_id_of hash ?k" if "?prev = Some old" for old
        using that view ids file_view_key [of rows ?k old] by auto
      ultimately show ?thesis using True
        by (auto simp: row_def scan_row_def scanned_row_def file_do_update_def split: option.splits)
    next
      case False
      with r uniq fv have "file_view rows (sf_normalized_path r) = Some r"
        using file_view_mem [OF uniq r] by simp
      then have "r \<in> set rows" using file_view_key by blast
      with ids show ?thesis by simp
    qed
  qed
  from step uniq ids' keys fv show ?thesis by blast
qed

lemma upsert_fold_ok:
  assumes E: "unique_key sf_normalized_path existing"
    and ids: "\<forall>r\<in>set existing. sf_file_id r = file_id_of hash (sf_normalized_path r)"
    and rows0: "unique_key sf_normalized_path rows0" "set rows0 = set existing"
    and inj: "inj_on (file_id_of hash) (sf_normalized_path ` set existing \<union> si_normalized_path ` set files)"
    and valid: "\<forall>f\<in>set files. validate_file_input f = Inr ()"
    and dist: "distinct (map si_normalized_path files)"
  shows "\<exists>rows. res_fold (scan_upsert_step hash existing) files (rows0, [], []) =
      Inr (rows, map si_normalized_path files,
        map (\<lambda>f. scan_row hash (file_view existing (si_normalized_path f)) f) files) \<and>
    unique_key sf_normalized_path rows \<and>
    (\<forall>r\<in>set rows. sf_file_id r = file_id_of hash (sf_normalized_path r)) \<and>
    sf_normalized_path ` set rows = sf_normalized_path ` set existing \<union> si_normalized_path ` set files \<and>
    file_view rows = upsert_view hash (file_view existing) files"
  using inj valid dist
proof (induction files rule: rev_induct)
  case Nil
  have "file_view rows0 = upsert_view hash (file_view existing) []"
    using file_view_set [OF rows0(1) E rows0(2)] by (simp add: upsert_view_def fun_eq_iff)
  then show ?case using rows0 ids by simp
next
  case (snoc f files)
  let ?k = "si_normalized_path f"
  have sub: "sf_normalized_path ` set existing \<union> si_normalized_path ` set files
      \<subseteq> sf_normalized_path ` set existing \<union> si_normalized_path ` set (files @ [f])" by auto
  from snoc.IH [OF inj_on_subset [OF snoc.prems(1) sub]] snoc.prems obtain rows where
    run: "res_fold (scan_upsert_step hash existing) files (rows0, [], []) =
      Inr (rows, map si_normalized_path files,
        map (\<lambda>f. scan_row hash (file_view existing (si_normalized_path f)) f) files)"
    and uniq: "unique_key sf_normalized_path rows"
    and ids': "\<forall>r\<in>set rows. sf_file_id r = file_id_of hash (sf_normalized_path r)"
    and keys: "sf_normalized_path ` set rows = sf_normalized_path ` set existing \<union> si_normalized_path ` set files"
    and view: "file_view rows = upsert_view hash (file_view existing) files"
    by auto
  have fresh: "?k \<notin> si_normalized_path ` set files" using snoc.prems(3) by auto
  then have none: "find (\<lambda>g. si_normalized_path g = ?k) files = None" by (simp add: find_si_None)
  have inj': "inj_on (file_id_of hash) (insert ?k (sf_normalized_path ` set rows))"
    using snoc.prems(1) by (rule inj_on_subset) (auto simp: keys)
  have vk: "file_view rows ?k = file_view existing ?k"
    by (simp add: view upsert_view_def none)
  have vf: "validate_file_input f = Inr ()" using snoc.prems(2) by simp
  have nk: "?k \<notin> set (map si_normalized_path files)" using fresh by simp
  obtain rows' where
    step: "scan_upsert_step hash existing f (rows, map si_normalized_path files,
        map (\<lambda>f. scan_row hash (file_view existing (si_normalized_path f)) f) files) =
      Inr (rows', map si_normalized_path files @ [?k],
        map (\<lambda>f. scan_row hash (file_view existing (si_normalized_path f)) f) files @
          [scan_row hash (file_view existing ?k) f])"
    and uniq': "unique_key sf_normalized_path rows'"
    and ids'': "\<forall>r\<in>set rows'. sf_file_id r = file_id_of hash (sf_normalized_path r)"
    and keys': "sf_normalized_path ` set rows' = insert ?k (sf_normalized_path ` set rows)"
    and view': "file_view rows' = (file_view rows)(?k \<mapsto> scan_row hash (file_view existing ?k) f)"
    using upsert_step_ok [OF E uniq ids' inj' vk vf nk] by blast
  have "file_view rows' = upsert_view hash (file_view existing) (files @ [f])"
    unfolding view' view
    by (auto simp: upsert_view_def fun_eq_iff find_si_append none split: option.splits)
  moreover have "res_fold (scan_upsert_step hash existing) (files @ [f]) (rows0, [], []) =
      Inr (rows', map si_normalized_path (files @ [f]),
        map (\<lambda>f. scan_row hash (file_view existing (si_normalized_path f)) f) (files @ [f]))"
    by (simp add: res_fold_append run step)
  moreover have "sf_normalized_path ` set rows' =
      sf_normalized_path ` set existing \<union> si_normalized_path ` set (files @ [f])"
    by (simp add: keys' keys)
  ultimately show ?case using uniq' ids'' by blast
qed

text \<open>The second loop marks the rows that the scan did not see.\<close>

definition gone_row :: "rstr list \<Rightarrow> sync_file_record \<Rightarrow> bool" where
  "gone_row seen r \<longleftrightarrow> \<not> sf_deleted r \<and> sf_normalized_path r \<notin> set seen"

lemma update_by_id_view:
  assumes wf: "files_wf hash rows" and r: "file_view rows k = Some r"
  shows "file_view (tbl_update (\<lambda>x. sf_file_id x = sf_file_id r) (mark_deleted_row now) rows) =
    (file_view rows)(k \<mapsto> mark_deleted_row now r)"
proof
  fix j
  have rk: "sf_normalized_path r = k" "r \<in> set rows" using file_view_key [OF r] by auto
  have *: "file_view (tbl_update (\<lambda>x. sf_file_id x = sf_file_id r) (mark_deleted_row now) rows) j =
      map_option (\<lambda>x. if sf_file_id x = sf_file_id r then mark_deleted_row now x else x) (file_view rows j)"
    unfolding file_view_def by (rule tbl_get_update) simp
  show "file_view (tbl_update (\<lambda>x. sf_file_id x = sf_file_id r) (mark_deleted_row now) rows) j =
      ((file_view rows)(k \<mapsto> mark_deleted_row now r)) j"
  proof (cases "file_view rows j")
    case None
    with * r show ?thesis by auto
  next
    case (Some x)
    then have x: "sf_normalized_path x = j" "x \<in> set rows" using file_view_key by blast+
    have "sf_file_id x = sf_file_id r \<longleftrightarrow> j = k"
      using wf x rk unique_key_inj [of sf_file_id rows x r] r Some by (auto simp: files_wf_def)
    with * Some r show ?thesis by auto
  qed
qed

lemma delete_fold_ok:
  assumes wf: "files_wf hash rows" and dist: "unique_key sf_normalized_path xs"
    and xs: "\<forall>x\<in>set xs. gone_row seen x \<longrightarrow> file_view rows (sf_normalized_path x) = Some x"
  shows "\<exists>rows'. res_fold (scan_delete_step seen now) xs (rows, ds) =
      Inr (rows', ds @ map (mark_deleted_row now) (filter (gone_row seen) xs)) \<and>
    files_wf hash rows' \<and>
    (\<forall>k. file_view rows' k = (case tbl_get sf_normalized_path k (filter (gone_row seen) xs) of
        None \<Rightarrow> file_view rows k | Some x \<Rightarrow> Some (mark_deleted_row now x)))"
  using wf dist xs
proof (induction xs arbitrary: rows ds)
  case Nil
  then show ?case by (simp add: tbl_get_def)
next
  case (Cons x xs)
  let ?k = "sf_normalized_path x"
  have dist': "unique_key sf_normalized_path xs" using Cons.prems(2) by (simp add: unique_key_def)
  show ?case
  proof (cases "gone_row seen x")
    case False
    then have "scan_delete_step seen now x (rows, ds) = Inr (rows, ds)"
      by (auto simp: scan_delete_step_def gone_row_def)
    then show ?thesis using Cons.IH [OF Cons.prems(1) dist', of ds] Cons.prems(3) False by simp
  next
    case True
    let ?rows = "tbl_update (\<lambda>y. sf_file_id y = sf_file_id x) (mark_deleted_row now) rows"
    from True Cons.prems(3) have vx: "file_view rows ?k = Some x" by simp
    then have view: "file_view ?rows = (file_view rows)(?k \<mapsto> mark_deleted_row now x)"
      by (rule update_by_id_view [OF Cons.prems(1)])
    have wf': "files_wf hash ?rows" by (rule files_wf_update [OF Cons.prems(1)]) simp_all
    have mem: "mark_deleted_row now x \<in> set ?rows"
      using file_view_key [OF vx] by (auto simp: set_tbl_update)
    have "unique_key sf_file_id ?rows" using wf' unfolding files_wf_def by blast
    from tbl_get_unique [OF this mem]
    have "tbl_get sf_file_id (sf_file_id x) ?rows = Some (mark_deleted_row now x)" by simp
    then have step: "scan_delete_step seen now x (rows, ds) = Inr (?rows, ds @ [mark_deleted_row now x])"
      using True by (simp add: scan_delete_step_def gone_row_def Let_def get_file_by_id_def)
    have notin: "?k \<notin> sf_normalized_path ` set xs" using Cons.prems(2) by (simp add: unique_key_def)
    have "\<forall>y\<in>set xs. gone_row seen y \<longrightarrow> file_view ?rows (sf_normalized_path y) = Some y"
    proof (intro ballI impI)
      fix y assume y: "y \<in> set xs" "gone_row seen y"
      then have "sf_normalized_path y \<noteq> ?k" using notin by (metis imageI)
      with y Cons.prems(3) show "file_view ?rows (sf_normalized_path y) = Some y" by (simp add: view)
    qed
    from Cons.IH [OF wf' dist' this, of "ds @ [mark_deleted_row now x]"] obtain rows' where
      rest: "res_fold (scan_delete_step seen now) xs (?rows, ds @ [mark_deleted_row now x]) =
        Inr (rows', (ds @ [mark_deleted_row now x]) @ map (mark_deleted_row now) (filter (gone_row seen) xs))"
      "files_wf hash rows'"
      "\<forall>k. file_view rows' k = (case tbl_get sf_normalized_path k (filter (gone_row seen) xs) of
        None \<Rightarrow> file_view ?rows k | Some x \<Rightarrow> Some (mark_deleted_row now x))" by blast
    have none: "tbl_get sf_normalized_path ?k (filter (gone_row seen) xs) = None"
      using notin by (auto simp: tbl_get_None)
    have "\<forall>k. file_view rows' k = (case tbl_get sf_normalized_path k (filter (gone_row seen) (x # xs)) of
        None \<Rightarrow> file_view rows k | Some x \<Rightarrow> Some (mark_deleted_row now x))"
    proof
      fix k
      have cons: "tbl_get sf_normalized_path k (filter (gone_row seen) (x # xs)) =
          (if ?k = k then Some x else tbl_get sf_normalized_path k (filter (gone_row seen) xs))"
        using True by (simp add: tbl_get_def)
      show "file_view rows' k = (case tbl_get sf_normalized_path k (filter (gone_row seen) (x # xs)) of
          None \<Rightarrow> file_view rows k | Some x \<Rightarrow> Some (mark_deleted_row now x))"
        unfolding cons rest(3) [rule_format, of k] view
        using none by (cases "?k = k") (auto split: option.split)
    qed
    moreover have "res_fold (scan_delete_step seen now) (x # xs) (rows, ds) =
        Inr (rows', ds @ map (mark_deleted_row now) (filter (gone_row seen) (x # xs)))"
      using True rest(1) by (simp add: step)
    ultimately show ?thesis using rest(2) by blast
  qed
qed

lemma scan_view_from_loops:
  assumes wf: "files_wf hash rows"
  shows "(case tbl_get sf_normalized_path k
        (filter (gone_row (map si_normalized_path files)) (sort_key sf_normalized_path rows)) of
      None \<Rightarrow> upsert_view hash (file_view rows) files k | Some x \<Rightarrow> Some (mark_deleted_row now x)) =
    scan_view hash (file_view rows) files now k"
proof -
  let ?seen = "map si_normalized_path files"
  let ?gone = "filter (gone_row ?seen) (sort_key sf_normalized_path rows)"
  have u: "unique_key sf_normalized_path rows" using wf unfolding files_wf_def by blast
  then have "unique_key sf_normalized_path (sort_key sf_normalized_path rows)"
    by (simp add: unique_key_sort)
  then have ug: "unique_key sf_normalized_path ?gone"
    by (simp add: unique_key_def distinct_map_filter)
  have none: "tbl_get sf_normalized_path k ?gone = None"
    if "\<And>x. file_view rows k = Some x \<Longrightarrow> \<not> gone_row ?seen x"
    using that file_view_mem [OF u] by (force simp: tbl_get_None)
  have some: "tbl_get sf_normalized_path k ?gone = Some x" if "file_view rows k = Some x" "gone_row ?seen x" for x
    using tbl_get_unique [OF ug, of x] file_view_key [OF that(1)] that(2) by simp
  show ?thesis
  proof (cases "find (\<lambda>f. si_normalized_path f = k) files")
    case None
    then have k: "k \<notin> set ?seen" by (simp add: find_si_None)
    show ?thesis
    proof (cases "file_view rows k")
      case None
      then show ?thesis using none \<open>find _ files = None\<close> by (simp add: scan_view_def upsert_view_def)
    next
      case (Some x)
      then have xk: "sf_normalized_path x = k" using file_view_key by blast
      show ?thesis
      proof (cases "sf_deleted x")
        case True
        with Some none \<open>find _ files = None\<close> show ?thesis
          by (simp add: scan_view_def upsert_view_def gone_row_def)
      next
        case False
        then have "gone_row ?seen x" using k xk by (simp add: gone_row_def)
        with Some some False \<open>find _ files = None\<close> show ?thesis by (simp add: scan_view_def)
      qed
    qed
  next
    case (Some f)
    then have k: "k \<in> set ?seen" using find_si_None [of k files] by auto
    then have "tbl_get sf_normalized_path k ?gone = None"
      using file_view_key by (intro none) (force simp: gone_row_def)
    with Some show ?thesis by (simp add: scan_view_def upsert_view_def)
  qed
qed

definition scan_inputs_ok :: "sync_file_input list \<Rightarrow> bool" where
  "scan_inputs_ok files \<longleftrightarrow> (\<forall>f\<in>set files. validate_file_input f = Inr ()) \<and>
     distinct (map si_normalized_path files)"

lemma apply_scan_ok:
  assumes wf: "files_wf hash (db_files db)"
    and inj: "inj_on (file_id_of hash)
      (sf_normalized_path ` set (db_files db) \<union> si_normalized_path ` set files)"
    and ok: "scan_inputs_ok files"
  shows "\<exists>rows. apply_scan hash db files now = Inr (db\<lparr>db_files := rows\<rparr>,
      \<lparr>sar_upserts = map (\<lambda>f. scan_row hash (file_view (db_files db) (si_normalized_path f)) f) files,
       sar_deletions = map (mark_deleted_row now)
         (filter (gone_row (map si_normalized_path files)) (list_files db))\<rparr>) \<and>
    files_wf hash rows \<and> file_view rows = scan_view hash (file_view (db_files db)) files now"
proof -
  let ?E = "list_files db"
  have u: "unique_key sf_normalized_path (db_files db)"
    and ids: "\<forall>r\<in>set (db_files db). sf_file_id r = file_id_of hash (sf_normalized_path r)"
    using wf unfolding files_wf_def by blast+
  have uE: "unique_key sf_normalized_path ?E" and setE: "set ?E = set (db_files db)"
    using u by (simp_all add: list_files_def unique_key_sort)
  have vE: "file_view ?E = file_view (db_files db)" by (rule file_view_set [OF uE u setE])
  from upsert_fold_ok [OF uE _ u setE [symmetric], where hash = hash and files = files] ids inj ok obtain rows where
    run: "res_fold (scan_upsert_step hash ?E) files (db_files db, [], []) =
      Inr (rows, map si_normalized_path files,
        map (\<lambda>f. scan_row hash (file_view (db_files db) (si_normalized_path f)) f) files)"
    and ur: "unique_key sf_normalized_path rows"
    and idr: "\<forall>r\<in>set rows. sf_file_id r = file_id_of hash (sf_normalized_path r)"
    and keys: "sf_normalized_path ` set rows =
      sf_normalized_path ` set (db_files db) \<union> si_normalized_path ` set files"
    and vr: "file_view rows = upsert_view hash (file_view (db_files db)) files"
    unfolding setE vE scan_inputs_ok_def by blast
  have wfr: "files_wf hash rows"
    using ur idr unique_ids_from_paths [OF ur idr] inj unfolding keys files_wf_def by blast
  have "\<forall>x\<in>set ?E. gone_row (map si_normalized_path files) x \<longrightarrow>
      file_view rows (sf_normalized_path x) = Some x"
  proof (intro ballI impI)
    fix x assume x: "x \<in> set ?E" "gone_row (map si_normalized_path files) x"
    then have "find (\<lambda>f. si_normalized_path f = sf_normalized_path x) files = None"
      by (auto simp: find_si_None gone_row_def)
    then show "file_view rows (sf_normalized_path x) = Some x"
      using file_view_mem [OF u] x(1) setE by (simp add: vr upsert_view_def)
  qed
  from delete_fold_ok [OF wfr uE this, of now "[]"] obtain rows' where
    del: "res_fold (scan_delete_step (map si_normalized_path files) now) ?E (rows, []) =
      Inr (rows', map (mark_deleted_row now) (filter (gone_row (map si_normalized_path files)) ?E))"
    and wf': "files_wf hash rows'"
    and v': "\<forall>k. file_view rows' k =
      (case tbl_get sf_normalized_path k (filter (gone_row (map si_normalized_path files)) ?E) of
        None \<Rightarrow> file_view rows k | Some x \<Rightarrow> Some (mark_deleted_row now x))" by auto
  have "file_view rows' = scan_view hash (file_view (db_files db)) files now"
    using v' scan_view_from_loops [OF wf, where files = files and now = now]
    unfolding vr list_files_def by (intro ext) simp
  moreover from run del have "apply_scan hash db files now = Inr (db\<lparr>db_files := rows'\<rparr>,
      \<lparr>sar_upserts = map (\<lambda>f. scan_row hash (file_view (db_files db) (si_normalized_path f)) f) files,
       sar_deletions = map (mark_deleted_row now)
         (filter (gone_row (map si_normalized_path files)) ?E)\<rparr>)"
    by (simp add: apply_scan_def)
  ultimately show ?thesis using wf' by blast
qed

lemma upsert_fold_only_ok:
  assumes "res_fold (scan_upsert_step hash existing) files (rows, seen, ups) = Inr (rows', seen', ups')"
  shows "(\<forall>f\<in>set files. validate_file_input f = Inr ()) \<and> distinct (map si_normalized_path files) \<and>
    set (map si_normalized_path files) \<inter> set seen = {} \<and> seen' = seen @ map si_normalized_path files"
  using assms
proof (induction files arbitrary: rows seen ups)
  case (Cons f files)
  let ?k = "si_normalized_path f"
  from Cons.prems obtain st where step: "scan_upsert_step hash existing f (rows, seen, ups) = Inr st"
    and rest: "res_fold (scan_upsert_step hash existing) files st = Inr (rows', seen', ups')"
    by (auto split: sum.splits)
  from step obtain rows1 ups1 where st: "st = (rows1, seen @ [?k], ups1)"
    and f: "validate_file_input f = Inr ()" "?k \<notin> set seen"
    by (auto simp: scan_upsert_step_def res_simps Let_def split: if_splits)
  from Cons.IH [OF rest [unfolded st]] f show ?case by auto
qed simp

lemma apply_scan_only_ok:
  "apply_scan hash db files now = Inr res \<Longrightarrow> scan_inputs_ok files"
  using upsert_fold_only_ok [of hash "list_files db" files "db_files db" "[]" "[]"]
  by (fastforce simp: apply_scan_def res_bind_eq_Inr Let_def scan_inputs_ok_def)


section \<open>Invariant of the database\<close>

lemma upsert_step_wf:
  assumes "files_wf hash existing" "files_wf hash rows"
    and "scan_upsert_step hash existing f (rows, seen, ups) = Inr (rows', seen', ups')"
  shows "files_wf hash rows'"
proof -
  let ?k = "si_normalized_path f"
  let ?id = "case tbl_get sf_normalized_path ?k existing of Some row \<Rightarrow> sf_file_id row
    | None \<Rightarrow> file_id_of hash ?k"
  let ?new = "scanned_row ?id f (scan_dirty (tbl_get sf_normalized_path ?k existing) f)"
  have id: "?id = file_id_of hash ?k"
    using assms(1) tbl_get_Some_key [of sf_normalized_path ?k existing]
    by (auto simp: files_wf_def split: option.splits)
  from assms(3) have rows': "rows' = tbl_upsert sf_normalized_path file_do_update ?new rows"
    and clash: "\<not> (\<not> tbl_has sf_normalized_path ?k rows \<and> tbl_has sf_file_id ?id rows)"
    by (auto simp: scan_upsert_step_def res_simps Let_def upsert_file_row_def scanned_row_def
        split: if_splits)
  show ?thesis
  proof (cases "?k \<in> sf_normalized_path ` set rows")
    case True
    then have "rows' = tbl_update (\<lambda>r. sf_normalized_path r = ?k) (file_do_update ?new) rows"
      by (simp add: rows' tbl_upsert_def)
    then show ?thesis
      by (simp add: files_wf_update [OF assms(2)] file_do_update_def)
  next
    case False
    then have "rows' = rows @ [?new]" by (simp add: rows' tbl_upsert_def)
    moreover have "sf_file_id ?new \<notin> sf_file_id ` set rows"
      using clash False by (simp add: scanned_row_def)
    moreover have "sf_file_id ?new = file_id_of hash (sf_normalized_path ?new)"
      using id by (simp add: scanned_row_def)
    ultimately show ?thesis using assms(2) False unfolding files_wf_def unique_key_def by simp
  qed
qed

lemma apply_scan_wf:
  assumes wf: "files_wf hash (db_files db)" and run: "apply_scan hash db files now = Inr (db', res)"
  shows "files_wf hash (db_files db') \<and> db' = db\<lparr>db_files := db_files db'\<rparr>"
proof -
  have wfE: "files_wf hash (list_files db)"
    using wf by (simp add: files_wf_def list_files_def unique_key_sort)
  from run obtain rows seen ups rows' dels where
    up: "res_fold (scan_upsert_step hash (list_files db)) files (db_files db, [], []) = Inr (rows, seen, ups)"
    and del: "res_fold (scan_delete_step seen now) (list_files db) (rows, []) = Inr (rows', dels)"
    and db': "db' = db\<lparr>db_files := rows'\<rparr>"
    by (fastforce simp: apply_scan_def res_bind_eq_Inr Let_def)
  have "case (rows, seen, ups) of (rows, _) \<Rightarrow> files_wf hash rows"
    by (rule res_fold_invariant [OF up, where P = "\<lambda>(rows, _). files_wf hash rows"])
      (auto simp: wf intro: upsert_step_wf [OF wfE])
  then have wfr: "files_wf hash rows" by simp
  have "case (rows', dels) of (rows, _) \<Rightarrow> files_wf hash rows"
    by (rule res_fold_invariant [OF del, where P = "\<lambda>(rows, _). files_wf hash rows"])
      (auto simp: wfr scan_delete_step_def res_simps Let_def files_wf_update split: if_splits)
  then show ?thesis by (simp add: db')
qed

lemma insert_tree_fold_unique:
  "res_fold (insert_tree_entry commit_id) entries rows = Inr rows' \<Longrightarrow> unique_key tree_row_key rows \<Longrightarrow>
     unique_key tree_row_key rows'"
  by (erule res_fold_invariant) (auto simp: insert_tree_entry_def intro: tbl_insert_unique)

lemma mark_files_synced_rows:
  "fold (\<lambda>file_id. tbl_update (\<lambda>r. sf_file_id r = file_id) (mark_file_synced commit_id)) ids rows =
     tbl_update (\<lambda>r. sf_file_id r \<in> set ids) (mark_file_synced commit_id) rows"
proof (induction ids arbitrary: rows)
  case (Cons i ids)
  have "mark_file_synced commit_id (mark_file_synced commit_id r) = mark_file_synced commit_id r" for r
    by (simp add: mark_file_synced_def)
  then show ?case using Cons by (auto simp: tbl_update_def)
qed (simp add: tbl_update_def)

text \<open>One call of the module, on an open database.\<close>

inductive db_step :: "(bytes \<Rightarrow> rstr) \<Rightarrow> sync_db \<Rightarrow> sync_db \<Rightarrow> bool" for hash where
  open_db: "db_step hash db (init_schema (Some db))"
| step_upsert_vault: "db_step hash db (upsert_vault db vault)"
| step_delete_vault: "db_step hash db (delete_vault db vault_id)"
| step_after_publish: "db_step hash db (update_vault_after_publish db vault_id commit_id seq ms)"
| step_after_pull: "db_step hash db (update_vault_after_pull db vault_id commit_id ms)"
| step_scan: "apply_scan hash db files now = Inr (db', res) \<Longrightarrow> db_step hash db db'"
| step_deleted_clean: "db_step hash db (mark_unsynced_file_deleted_clean db path now)"
| step_files_synced: "db_step hash db (mark_files_synced db commit_id ids)"
| step_clear_dirty: "db_step hash db (fst (clear_dirty_files_matching_head db commit_id))"
| step_tree_cache: "persist_tree_cache db commit_id tree_id json source entries ms = Inr db' \<Longrightarrow>
    db_step hash db db'"
| step_commit: "db_step hash db (upsert_local_commit db commit)"
| step_conflict: "db_step hash db (upsert_conflict db conflict)"
| step_resolved: "db_step hash db (mark_conflict_resolved db conflict_id)"

inductive db_reachable :: "(bytes \<Rightarrow> rstr) \<Rightarrow> sync_db \<Rightarrow> bool" for hash where
  new_db: "db_reachable hash (init_schema None)"
| next_db: "db_reachable hash db \<Longrightarrow> db_step hash db db' \<Longrightarrow> db_reachable hash db'"

lemma db_wf_empty: "db_wf hash (create_schema None)"
  by (simp add: db_wf_def create_schema_def files_wf_def unique_key_def)

lemma db_wf_ensure: "db_wf hash db \<Longrightarrow> db_wf hash (ensure_tree_entry_content_commit_id_column db)"
  by (simp add: db_wf_def ensure_tree_entry_content_commit_id_column_def unique_key_def [of _ "[]"])

lemma db_wf_persist_version: "db_wf hash db \<Longrightarrow> db_wf hash (persist_schema_version db)"
  by (simp add: db_wf_def persist_schema_version_def metadata.upsert_unique)

lemma db_wf_init_schema: "(\<And>db. conn = Some db \<Longrightarrow> db_wf hash db) \<Longrightarrow> db_wf hash (init_schema conn)"
proof -
  assume conn: "\<And>db. conn = Some db \<Longrightarrow> db_wf hash db"
  have "db_wf hash (create_schema conn)"
    using conn db_wf_empty by (cases conn) (auto simp: create_schema_def)
  then show ?thesis
    using db_wf_ensure [OF db_wf_empty]
    by (auto simp: init_schema_def Let_def reset_schema_def db_wf_ensure db_wf_persist_version
        split: option.splits)
qed

lemma db_step_wf: "db_step hash db db' \<Longrightarrow> db_wf hash db \<Longrightarrow> db_wf hash db'"
proof (induction rule: db_step.induct)
  case (open_db db)
  then show ?case by (intro db_wf_init_schema) simp
next
  case (step_scan db files now db' res)
  then have "files_wf hash (db_files db')" "db' = db\<lparr>db_files := db_files db'\<rparr>"
    using apply_scan_wf [of hash db files now db' res] by (auto simp: db_wf_def)
  with step_scan show ?case unfolding db_wf_def
    by (metis sync_db.select_convs(1-6,8) sync_db.surjective sync_db.update_convs(3))
next
  case (step_deleted_clean db path now)
  then show ?case
    by (simp add: db_wf_def mark_unsynced_file_deleted_clean_def files_wf_update)
next
  case (step_files_synced db commit_id ids)
  then show ?case
    by (simp add: db_wf_def mark_files_synced_def mark_files_synced_rows files_wf_update)
next
  case (step_clear_dirty db commit_id)
  then show ?case
    by (simp add: db_wf_def clear_dirty_files_matching_head_def Let_def files_wf_update)
next
  case (step_tree_cache db commit_id tree_id json source entries ms db')
  then show ?case
    by (auto simp: db_wf_def persist_tree_cache_def Let_def res_bind_eq_Inr
        commit_trees.upsert_unique unique_key_delete intro: insert_tree_fold_unique)
next
  case (step_commit db commit)
  then show ?case by (simp add: db_wf_def upsert_local_commit_def commits.upsert_unique)
next
  case (step_conflict db conflict)
  then show ?case by (simp add: db_wf_def upsert_conflict_def conflicts.upsert_unique)
next
  case (step_resolved db conflict_id)
  then show ?case by (simp add: db_wf_def mark_conflict_resolved_def unique_key_update)
next
  case (step_upsert_vault db vault)
  then show ?case by (simp add: db_wf_def upsert_vault_def vaults.upsert_unique)
next
  case (step_delete_vault db vault_id)
  then show ?case by (simp add: db_wf_def delete_vault_def unique_key_delete)
next
  case (step_after_publish db vault_id commit_id seq ms)
  then show ?case by (simp add: db_wf_def update_vault_after_publish_def unique_key_update)
next
  case (step_after_pull db vault_id commit_id ms)
  then show ?case by (simp add: db_wf_def update_vault_after_pull_def unique_key_update)
qed

lemma db_reachable_wf: "db_reachable hash db \<Longrightarrow> db_wf hash db"
  by (induction rule: db_reachable.induct) (auto intro: db_step_wf db_wf_init_schema)

lemmas db_wf_files = db_wf_def [THEN iffD1, THEN conjunct2, THEN conjunct2, THEN conjunct1]


section \<open>Facts behind the claims\<close>

lemma scan_row_live [simp]: "\<not> sf_deleted (scan_row hash previous f)"
  by (simp add: scan_row_def scanned_row_def file_do_update_def split: option.splits)

lemma scan_row_dirty:
  "sf_dirty (scan_row hash previous f) \<longleftrightarrow>
     scan_dirty previous f \<or> (\<exists>old. previous = Some old \<and> sf_dirty old)"
  by (auto simp: scan_row_def scanned_row_def file_do_update_def scan_dirty_def split: option.splits)

lemma scan_row_again:
  assumes "\<And>old. previous = Some old \<Longrightarrow> sf_normalized_path old = si_normalized_path f"
  shows "scan_row hash (Some (scan_row hash previous f)) f = scan_row hash previous f"
  using assms
  by (auto simp: scan_row_def scanned_row_def file_do_update_def scan_dirty_def split: option.splits)

lemma scan_view_live:
  "(\<exists>r. scan_view hash E files now k = Some r \<and> \<not> sf_deleted r) \<longleftrightarrow> k \<in> si_normalized_path ` set files"
proof (cases "find (\<lambda>f. si_normalized_path f = k) files")
  case None
  then have "k \<notin> si_normalized_path ` set files" by (simp add: find_si_None)
  with None show ?thesis by (cases "E k") (auto simp: scan_view_def mark_deleted_row_def)
next
  case (Some f)
  then have "k \<in> si_normalized_path ` set files" using find_si_None [of k files] by fastforce
  with Some show ?thesis by (auto simp: scan_view_def)
qed

lemma find_si_distinct:
  "distinct (map si_normalized_path files) \<Longrightarrow> f \<in> set files \<Longrightarrow>
     find (\<lambda>g. si_normalized_path g = si_normalized_path f) files = Some f"
  by (induction files) (auto simp: rev_image_eqI)

lemma scan_view_again:
  assumes "\<And>k r. E k = Some r \<Longrightarrow> sf_normalized_path r = k"
  shows "scan_view hash (scan_view hash E files now) files now' = scan_view hash E files now"
proof
  fix k
  show "scan_view hash (scan_view hash E files now) files now' k = scan_view hash E files now k"
  proof (cases "find (\<lambda>f. si_normalized_path f = k) files")
    case None
    then show ?thesis
      by (cases "E k") (auto simp: scan_view_def mark_deleted_row_def)
  next
    case (Some f)
    then have "si_normalized_path f = k" by (auto simp: find_Some_iff)
    with Some assms scan_row_again [of "E k" f hash] show ?thesis by (auto simp: scan_view_def)
  qed
qed

lemma live_paths_of_view:
  assumes "unique_key sf_normalized_path rows"
  shows "sf_normalized_path ` {r \<in> set rows. \<not> sf_deleted r} =
    {k. \<exists>r. file_view rows k = Some r \<and> \<not> sf_deleted r}"
proof -
  have "k \<in> sf_normalized_path ` {r \<in> set rows. \<not> sf_deleted r} \<longleftrightarrow>
      (\<exists>r. file_view rows k = Some r \<and> \<not> sf_deleted r)" for k
    using file_view_mem [OF assms] file_view_key [of rows k] by (auto simp: image_iff) 
  then show ?thesis by blast
qed

lemma scan_live_paths:
  assumes "files_wf hash rows" "file_view rows = scan_view hash E files now"
  shows "sf_normalized_path ` {r \<in> set rows. \<not> sf_deleted r} = si_normalized_path ` set files"
proof -
  have u: "unique_key sf_normalized_path rows" using assms(1) by (simp add: files_wf_def)
  show ?thesis unfolding live_paths_of_view [OF u] assms(2) scan_view_live by simp
qed

lemma scan_view_paths:
  assumes "files_wf hash rows1" "file_view rows1 = scan_view hash (file_view rows) files now"
  shows "sf_normalized_path ` set rows1 \<subseteq> sf_normalized_path ` set rows \<union> si_normalized_path ` set files"
proof
  fix k assume "k \<in> sf_normalized_path ` set rows1"
  moreover have u: "unique_key sf_normalized_path rows1" using assms(1) by (simp add: files_wf_def)
  ultimately obtain r where "file_view rows1 k = Some r" using file_view_mem [OF u] by auto
  then show "k \<in> sf_normalized_path ` set rows \<union> si_normalized_path ` set files"
    unfolding assms(2) scan_view_def using find_si_None [of k files] file_view_key [of rows k]
    by (auto split: option.splits)
qed

text \<open>A scanned file for the concrete instances below.\<close>

definition scan_example :: sync_file_input where
  "scan_example = \<lparr>si_path = lit ''A.md'', si_normalized_path = lit ''a.md'', si_kind = lit ''markdown'',
     si_plaintext_hash = None, si_size_bytes = None, si_mtime_ms = None\<rparr>"

lemma init_schema_no_files [simp]: "db_files (init_schema None) = []"
  by (simp add: init_schema_def create_schema_def ensure_tree_entry_content_commit_id_column_def
      metadata_value_def tbl_get_def persist_schema_version_def)

lemma scan_example_wf: "db_wf (\<lambda>_. lit ''0'') (init_schema None)"
  by (intro db_wf_init_schema) simp

lemma scan_example_ok: "scan_inputs_ok [scan_example]"
  by (simp add: scan_inputs_ok_def validate_file_input_def scan_example_def std_simps)

lemma tree_row_key_row [simp]: "tree_row_key (tree_row commit_id e) = (commit_id, te_file_id e)"
  by (simp add: tree_row_key_def tree_row_def)

lemma insert_tree_fold_ok:
  assumes "distinct (map te_file_id entries)"
    and "\<forall>e\<in>set entries. (commit_id, te_file_id e) \<notin> tree_row_key ` set rows"
  shows "res_fold (insert_tree_entry commit_id) entries rows = Inr (rows @ map (tree_row commit_id) entries)"
  using assms
proof (induction entries arbitrary: rows)
  case (Cons e entries)
  then have "insert_tree_entry commit_id e rows = Inr (rows @ [tree_row commit_id e])"
    by (simp add: insert_tree_entry_def tbl_insert_def tree_row_key_def tree_row_def)
  moreover have "(commit_id, te_file_id x) \<notin> tree_row_key ` set (rows @ [tree_row commit_id e])"
    if "x \<in> set entries" for x
  proof -
    from that Cons.prems(1) have "te_file_id x \<noteq> te_file_id e" by (metis distinct.simps(2) image_eqI list.simps(9) set_map)
    with that Cons.prems(2) show ?thesis by simp
  qed
  ultimately show ?case using Cons.IH [of "rows @ [tree_row commit_id e]"] Cons.prems by simp
qed simp

lemma tree_row_roundtrip [simp]: "sync_tree_entry_from_row (tree_row commit_id e) = e"
  by (simp add: sync_tree_entry_from_row_def tree_row_def)

section \<open>Claims\<close>

text \<open>
  C32. Every state of the sync database that the module can produce, from a newly created file through
  any sequence of its operations, keeps its keys: one row per vault, commit, commit tree, conflict,
  tree entry, file id and normalized path, and every file id is derived from the normalized path.
\<close>
theorem db_reachable_keeps_keys:
  assumes "db_reachable hash db"
  shows "db_wf hash db"
  by (rule db_reachable_wf [OF assms])

theorem db_reachable_keeps_keys_witness:
  "db_wf (\<lambda>_. lit ''0'') (upsert_vault (init_schema None)
     \<lparr>sv_vault_id = lit ''v'', sv_root_path = [], sv_remote_workspace_id = [],
      sv_remote_head_commit_id = None, sv_local_head_commit_id = None, sv_device_id = [],
      sv_next_device_seq = 1, sv_enabled = True, sv_created_at_ms = 0, sv_updated_at_ms = 0\<rparr>)"
  by (rule db_reachable_keeps_keys) (rule db_reachable.next_db [OF db_reachable.new_db db_step.step_upsert_vault])

text \<open>
  C15. A scan implements its specification on the map from normalized paths to rows: a scanned path
  gets the row \<open>scan_row\<close>, a known path that was not seen becomes a dirty tombstone, everything else
  is unchanged; the result lists exactly the scanned rows and the new tombstones. It needs valid
  inputs with distinct paths, and no BLAKE3 collision among the paths of the vault.
\<close>
theorem apply_scan_refines:
  assumes "db_wf hash db" "scan_inputs_ok files"
    and "inj_on (file_id_of hash)
      (sf_normalized_path ` set (db_files db) \<union> si_normalized_path ` set files)"
  shows "\<exists>rows. apply_scan hash db files now = Inr (db\<lparr>db_files := rows\<rparr>,
      \<lparr>sar_upserts = map (\<lambda>f. scan_row hash (file_view (db_files db) (si_normalized_path f)) f) files,
       sar_deletions = map (mark_deleted_row now)
         (filter (gone_row (map si_normalized_path files)) (list_files db))\<rparr>) \<and>
    file_view rows = scan_view hash (file_view (db_files db)) files now"
  using apply_scan_ok [OF db_wf_files [OF assms(1)] assms(3,2)] by blast

theorem apply_scan_refines_witness:
  "\<exists>rows. apply_scan (\<lambda>_. lit ''0'') (init_schema None) [scan_example] 7 =
      Inr ((init_schema None)\<lparr>db_files := rows\<rparr>,
        \<lparr>sar_upserts = [scanned_row (lit ''file_0'') scan_example True], sar_deletions = []\<rparr>)"
  using apply_scan_refines [OF scan_example_wf scan_example_ok, of 7]
  by (auto simp: list_files_def scan_row_def file_view_def tbl_get_def file_id_for_normalized_path_def)

text \<open>
  A scan is accepted only for inputs with a non-blank path, normalized path and kind whose
  normalized paths are pairwise distinct; any other input is refused and the database is unchanged.
\<close>
theorem apply_scan_rejects:
  assumes "\<not> scan_inputs_ok files"
  shows "\<not> is_ok (apply_scan hash db files now)"
  using assms apply_scan_only_ok by (auto simp: is_ok_conv)

theorem apply_scan_rejects_witness:
  "\<not> is_ok (apply_scan (\<lambda>_. lit ''0'') (init_schema None)
      [\<lparr>si_path = lit '' '', si_normalized_path = lit ''a.md'', si_kind = lit ''markdown'',
        si_plaintext_hash = None, si_size_bytes = None, si_mtime_ms = None\<rparr>] 7)"
  by (rule apply_scan_rejects) (simp add: scan_inputs_ok_def validate_file_input_def std_simps)

text \<open>
  After a scan the live rows are exactly the scanned files, a live row is dirty exactly when it was
  dirty before or the scan found a new, resurrected or changed file, and scanning the same files
  again, later, changes nothing and reports no deletion.
\<close>
theorem apply_scan_settles:
  assumes "db_wf hash db" "apply_scan hash db files now = Inr (db1, res)"
    and "inj_on (file_id_of hash)
      (sf_normalized_path ` set (db_files db) \<union> si_normalized_path ` set files)"
  shows "sf_normalized_path ` {r \<in> set (db_files db1). \<not> sf_deleted r} = si_normalized_path ` set files \<and>
    list_all (\<lambda>f. let old = file_view (db_files db) (si_normalized_path f) in
      \<exists>r. file_view (db_files db1) (si_normalized_path f) = Some r \<and>
        (sf_dirty r \<longleftrightarrow> scan_dirty old f \<or> (\<exists>o'. old = Some o' \<and> sf_dirty o'))) files \<and>
    (\<exists>db2 res2. apply_scan hash db1 files later = Inr (db2, res2) \<and>
      file_view (db_files db2) = file_view (db_files db1) \<and> sar_deletions res2 = [])"
proof (intro conjI)
  have ok: "scan_inputs_ok files" using apply_scan_only_ok [OF assms(2)] .
  from apply_scan_ok [OF db_wf_files [OF assms(1)] assms(3) ok, of now] assms(2)
  have wf1: "files_wf hash (db_files db1)"
    and v1: "file_view (db_files db1) = scan_view hash (file_view (db_files db)) files now" by auto
  show live: "sf_normalized_path ` {r \<in> set (db_files db1). \<not> sf_deleted r} = si_normalized_path ` set files"
    by (rule scan_live_paths [OF wf1 v1])
  show "list_all (\<lambda>f. let old = file_view (db_files db) (si_normalized_path f) in
      \<exists>r. file_view (db_files db1) (si_normalized_path f) = Some r \<and>
        (sf_dirty r \<longleftrightarrow> scan_dirty old f \<or> (\<exists>o'. old = Some o' \<and> sf_dirty o'))) files"
    using ok find_si_distinct [of files]
    by (auto simp: v1 scan_view_def scan_row_dirty scan_inputs_ok_def list_all_iff Let_def)
  have "inj_on (file_id_of hash) (sf_normalized_path ` set (db_files db1) \<union> si_normalized_path ` set files)"
    by (rule inj_on_subset [OF assms(3)]) (use scan_view_paths [OF wf1 v1] in auto)
  from apply_scan_ok [OF wf1 this ok, of later] obtain rows where
    run: "apply_scan hash db1 files later = Inr (db1\<lparr>db_files := rows\<rparr>,
      \<lparr>sar_upserts = map (\<lambda>f. scan_row hash (file_view (db_files db1) (si_normalized_path f)) f) files,
       sar_deletions = map (mark_deleted_row later)
         (filter (gone_row (map si_normalized_path files)) (list_files db1))\<rparr>)"
    and v2: "file_view rows = scan_view hash (file_view (db_files db1)) files later" by blast
  have "file_view rows = file_view (db_files db1)"
    unfolding v2 v1 by (rule scan_view_again) (use file_view_key in blast)
  moreover have "filter (gone_row (map si_normalized_path files)) (list_files db1) = []"
    using live by (force simp: filter_empty_conv gone_row_def list_files_def)
  ultimately show "\<exists>db2 res2. apply_scan hash db1 files later = Inr (db2, res2) \<and>
      file_view (db_files db2) = file_view (db_files db1) \<and> sar_deletions res2 = []"
    using run by auto
qed

theorem apply_scan_settles_witness:
  "\<exists>db1 res db2 res2. apply_scan (\<lambda>_. lit ''0'') (init_schema None) [scan_example] 7 = Inr (db1, res) \<and>
     sf_normalized_path ` {r \<in> set (db_files db1). \<not> sf_deleted r} = {lit ''a.md''} \<and>
     apply_scan (\<lambda>_. lit ''0'') db1 [scan_example] 8 = Inr (db2, res2) \<and> sar_deletions res2 = []"
proof -
  from apply_scan_ok [OF db_wf_files [OF scan_example_wf] _ scan_example_ok, of 7]
  obtain db1 res where run: "apply_scan (\<lambda>_. lit ''0'') (init_schema None) [scan_example] 7 = Inr (db1, res)"
    by (auto simp: init_schema_no_files)
  from apply_scan_settles [OF scan_example_wf run, of 8]
  show ?thesis using run by (auto simp: init_schema_no_files scan_example_def)
qed


lemma list_dirty_files_empty: "list_dirty_files db = [] \<longleftrightarrow> (\<forall>r\<in>set (db_files db). \<not> sf_dirty r)"
proof -
  have "list_dirty_files db = [] \<longleftrightarrow> filter sf_dirty (db_files db) = []"
    unfolding list_dirty_files_def by (metis length_0_conv length_sort)
  then show ?thesis by (simp add: filter_empty_conv)
qed

lemma insert_tree_fold_distinct:
  assumes "res_fold (insert_tree_entry commit_id) entries rows = Inr rows'"
  shows "distinct (map te_file_id entries) \<and> rows' = rows @ map (tree_row commit_id) entries \<and>
    (\<forall>e\<in>set entries. (commit_id, te_file_id e) \<notin> tree_row_key ` set rows)"
  using assms
proof (induction entries arbitrary: rows)
  case (Cons e entries)
  then obtain mid where mid: "insert_tree_entry commit_id e rows = Inr mid"
    and rest: "res_fold (insert_tree_entry commit_id) entries mid = Inr rows'"
    by (auto split: sum.splits)
  from mid have "(commit_id, te_file_id e) \<notin> tree_row_key ` set rows" "mid = rows @ [tree_row commit_id e]"
    by (auto simp: insert_tree_entry_def tbl_insert_def split: if_splits)
  with Cons.IH [OF rest] show ?case by auto
qed simp

lemma tree_rows_of_commit:
  "filter (\<lambda>r. tr_commit_id r = c) (map (tree_row c') es) = (if c = c' then map (tree_row c') es else [])"
  by (induction es) (auto simp: tree_row_def)

lemma list_tree_entries_replace:
  assumes "db_tree_entries db' = tbl_delete (\<lambda>r. tr_commit_id r = c) (db_tree_entries db) @ map (tree_row c) es"
  shows "list_tree_entries db' = (list_tree_entries db)(c := sort_key te_normalized_path es)"
proof
  fix c'
  show "list_tree_entries db' c' = ((list_tree_entries db)(c := sort_key te_normalized_path es)) c'"
    by (cases "c' = c")
      (auto simp: list_tree_entries_def assms tbl_delete_def tree_rows_of_commit o_def conj_commute
        intro!: arg_cong [where f = "sort_key te_normalized_path"] arg_cong [where f = "map sync_tree_entry_from_row"] filter_cong)
qed

lemma persist_tree_cache_reads_back:
  "case persist_tree_cache db commit_id tree_id tree_json source entries created_at_ms of
     Inl _ \<Rightarrow> \<not> distinct (map te_file_id entries)
   | Inr db' \<Rightarrow> distinct (map te_file_id entries) \<and>
       list_tree_entries db' = (list_tree_entries db)(commit_id := sort_key te_normalized_path entries)"
proof (cases "persist_tree_cache db commit_id tree_id tree_json source entries created_at_ms")
  case (Inl e)
  have "\<forall>e\<in>set entries. (commit_id, te_file_id e) \<notin>
      tree_row_key ` set (tbl_delete (\<lambda>r. tr_commit_id r = commit_id) (db_tree_entries db))"
    by (auto simp: tbl_delete_def tree_row_key_def)
  with Inl insert_tree_fold_ok [of entries commit_id] show ?thesis
    by (fastforce simp: persist_tree_cache_def Let_def res_bind_eq_Inl)
next
  case (Inr db')
  then obtain rows where
    "res_fold (insert_tree_entry commit_id) entries
      (tbl_delete (\<lambda>r. tr_commit_id r = commit_id) (db_tree_entries db)) = Inr rows"
    "db_tree_entries db' = rows" by (auto simp: persist_tree_cache_def Let_def res_bind_eq_Inr)
  with Inr insert_tree_fold_distinct [of commit_id entries] list_tree_entries_replace [of db' commit_id db entries]
  show ?thesis by auto
qed

text \<open>
  Persisting the tree of a commit and reading it back gives the entries that were persisted, in
  the order of their normalized paths, whatever tree the commit had before; the trees of all other
  commits are as before. The call is refused exactly when two entries have the same file id.
\<close>
theorem persist_tree_cache_roundtrip:
  "case persist_tree_cache db commit_id tree_id tree_json source entries created_at_ms of
     Inl _ \<Rightarrow> \<not> distinct (map te_file_id entries)
   | Inr db' \<Rightarrow> distinct (map te_file_id entries) \<and>
       list_tree_entries db' = (list_tree_entries db)(commit_id := sort_key te_normalized_path entries)"
  by (rule persist_tree_cache_reads_back)

text \<open>
  After a publish every dirty file whose id was published is clean and points to the new commit,
  and no other file changes; when the published ids cover the dirty list, nothing is left to publish.
\<close>
theorem mark_files_synced_clears:
  assumes "sf_file_id ` set (list_dirty_files db) \<subseteq> set ids"
  shows "list_dirty_files (mark_files_synced db commit_id ids) = [] \<and>
    db_files (mark_files_synced db commit_id ids) =
      map (\<lambda>r. if sf_file_id r \<in> set ids then mark_file_synced commit_id r else r) (db_files db)"
proof -
  have rows: "db_files (mark_files_synced db commit_id ids) =
      map (\<lambda>r. if sf_file_id r \<in> set ids then mark_file_synced commit_id r else r) (db_files db)"
    by (simp add: mark_files_synced_def mark_files_synced_rows tbl_update_def)
  moreover have "\<not> sf_dirty r" if "r \<in> set (db_files (mark_files_synced db commit_id ids))" for r
    using that assms unfolding rows by (auto simp: mark_file_synced_def list_dirty_files_def)
  ultimately show ?thesis by (auto simp: list_dirty_files_empty)
qed

theorem mark_files_synced_clears_witness:
  "list_dirty_files (mark_files_synced
     ((init_schema None)\<lparr>db_files := [scanned_row (lit ''file_0'') scan_example True]\<rparr>)
     (lit ''c1'') [lit ''file_0'']) = []"
  by (rule mark_files_synced_clears [THEN conjunct1]) (simp add: list_dirty_files_def scanned_row_def)

text \<open>
  Reconciling the dirty flags with a head commit returns the number of rows that stop being
  dirty; a row stays dirty exactly when it differs from the tree of that commit (another hash, kind
  or path, or a deletion the tree does not have), and rows that were clean are kept.
\<close>
theorem clear_dirty_matching_head_exact:
  "let (db', n) = clear_dirty_files_matching_head db commit_id;
       p = matches_head (db_tree_entries db) commit_id
   in length (list_dirty_files db) = length (list_dirty_files db') + n \<and>
      filter sf_dirty (db_files db') = filter (\<lambda>r. sf_dirty r \<and> \<not> p r) (db_files db) \<and>
      set (filter (\<lambda>r. \<not> sf_dirty r) (db_files db)) \<subseteq> set (db_files db')"
proof -
  let ?p = "matches_head (db_tree_entries db) commit_id"
  have pd: "?p r \<Longrightarrow> sf_dirty r" for r by (simp add: matches_head_def)
  have f: "filter sf_dirty (tbl_update ?p (mark_file_synced commit_id) rows) =
      filter (\<lambda>r. sf_dirty r \<and> \<not> ?p r) rows" for rows
    by (induction rows) (auto simp: tbl_update_def mark_file_synced_def)
  have n: "length (filter sf_dirty rows) =
      length (filter (\<lambda>r. sf_dirty r \<and> \<not> ?p r) rows) + length (filter ?p rows)" for rows
    by (induction rows) (auto simp: pd)
  have "set (filter (\<lambda>r. \<not> sf_dirty r) (db_files db)) \<subseteq>
      set (tbl_update ?p (mark_file_synced commit_id) (db_files db))"
    by (auto simp: set_tbl_update image_iff dest: pd)
  then show ?thesis
    using f [of "db_files db"] n [of "db_files db"]
    by (simp add: clear_dirty_files_matching_head_def Let_def list_dirty_files_def)
qed

lemma vault_do_update_same:
  "sv_vault_id old = sv_vault_id v \<Longrightarrow> vault_do_update v old = v\<lparr>sv_created_at_ms := sv_created_at_ms old\<rparr>"
  by (cases v, cases old) (simp add: vault_do_update_def)

lemma get_upserted_vault:
  "get_vault (upsert_vault db vault) = (get_vault db)(sv_vault_id vault \<mapsto>
     (case get_vault db (sv_vault_id vault) of
        None \<Rightarrow> vault | Some old \<Rightarrow> vault\<lparr>sv_created_at_ms := sv_created_at_ms old\<rparr>))"
proof
  fix k
  show "get_vault (upsert_vault db vault) k = ((get_vault db)(sv_vault_id vault \<mapsto>
     (case get_vault db (sv_vault_id vault) of
        None \<Rightarrow> vault | Some old \<Rightarrow> vault\<lparr>sv_created_at_ms := sv_created_at_ms old\<rparr>))) k"
  proof (cases "k = sv_vault_id vault")
    case True
    have "vault_do_update vault old = vault\<lparr>sv_created_at_ms := sv_created_at_ms old\<rparr>"
      if "get_vault db (sv_vault_id vault) = Some old" for old
      by (rule vault_do_update_same) (use that tbl_get_Some_key in \<open>fastforce simp: get_vault_def\<close>)
    then show ?thesis using vaults.upsert_get_same [of vault "db_vaults db"] True
      by (simp add: get_vault_def upsert_vault_def split: option.splits)
  next
    case False
    then show ?thesis using vaults.upsert_get_other [OF False, of "db_vaults db"]
      by (simp add: get_vault_def upsert_vault_def)
  qed
qed

text \<open>
  Writing the row of a vault and reading it back gives the written row, except that a vault that
  was known keeps the time it was created; every other vault reads as before.
\<close>
theorem upsert_vault_get_vault:
  "get_vault (upsert_vault db vault) = (get_vault db)(sv_vault_id vault \<mapsto>
     (case get_vault db (sv_vault_id vault) of
        None \<Rightarrow> vault | Some old \<Rightarrow> vault\<lparr>sv_created_at_ms := sv_created_at_ms old\<rparr>))"
  by (rule get_upserted_vault)

text \<open>
  Opening a database is idempotent: an opened database has the current schema version and the
  column the migration adds, and opening it again changes nothing.
\<close>
theorem init_schema_idempotent:
  "metadata_value (init_schema conn) SCHEMA_VERSION_KEY = Some (fmt_int CURRENT_SCHEMA_VERSION) \<and>
   db_tree_entries_have_content_commit (init_schema conn) \<and>
   init_schema (Some (init_schema conn)) = init_schema conn"
proof (intro conjI)
  have p: "metadata_value (persist_schema_version db) SCHEMA_VERSION_KEY = Some (fmt_int CURRENT_SCHEMA_VERSION)" for db
    using metadata.upsert_get_same [of "(SCHEMA_VERSION_KEY, fmt_int CURRENT_SCHEMA_VERSION)" "db_metadata db"]
    by (auto simp: metadata_value_def persist_schema_version_def split: option.splits)
  show v: "metadata_value (init_schema conn) SCHEMA_VERSION_KEY = Some (fmt_int CURRENT_SCHEMA_VERSION)"
    by (auto simp: init_schema_def Let_def p split: option.splits)
  show c: "db_tree_entries_have_content_commit (init_schema conn)"
    by (auto simp: init_schema_def Let_def ensure_tree_entry_content_commit_id_column_def
        persist_schema_version_def split: option.splits)
  show "init_schema (Some (init_schema conn)) = init_schema conn"
    using v c by (simp add: init_schema_def [of "Some _"] create_schema_def
        ensure_tree_entry_content_commit_id_column_def)
qed


end
