(* ===== verification/Sync_Scanner.thy ===== *)
theory Sync_Scanner
  imports Vault_Paths Sync_Db
begin

text \<open>
  \<open>sync/scanner.rs\<close>: the walk over the vault that collects the markdown files to sync. It reads the
  file system tree of \<open>Vault_Paths\<close>; the BLAKE3 hash in hex (\<open>hash\<close>) and the Unicode
  \<open>to_lowercase\<close> (\<open>lower\<close>) are parameters. Modification times are nanoseconds since the epoch.
\<close>

record scanned_file =
  scf_file_id :: rstr
  scf_path :: rstr
  scf_normalized_path :: rstr
  scf_plaintext_hash :: rstr
  scf_size_bytes :: int
  scf_mtime_ms :: int
  scf_plaintext :: bytes

definition file_input :: "scanned_file \<Rightarrow> sync_file_input" where
  "file_input f =
     \<lparr>si_path = scf_path f, si_normalized_path = scf_normalized_path f, si_kind = FILE_KIND_MARKDOWN,
      si_plaintext_hash = Some (scf_plaintext_hash f), si_size_bytes = Some (scf_size_bytes f),
      si_mtime_ms = Some (scf_mtime_ms f)\<rparr>"

section \<open>Normalized paths\<close>

fun normalize_segments :: "(rstr \<Rightarrow> rstr) \<Rightarrow> rstr list \<Rightarrow> rstr list \<Rightarrow> (rstr list) sync_result" where
  "normalize_segments lower [] components = Inr components"
| "normalize_segments lower (segment # segments) components =
     (if segment = [] \<or> segment = [dot] then normalize_segments lower segments components
      else if segment = [dot, dot]
      then Inl (InvalidArgument (lit ''sync path traversal is not allowed''))
      else normalize_segments lower segments (components @ [lower segment]))"

definition normalize_vault_relative_path :: "(rstr \<Rightarrow> rstr) \<Rightarrow> rstr \<Rightarrow> rstr sync_result" where
  "normalize_vault_relative_path lower relative_path =
     (let normalized_separators = str_replace_char backslash slash relative_path
      in if normalized_separators = [] \<or> str_starts_with normalized_separators [slash]
         then Inl (InvalidArgument (lit ''sync path must be vault-relative''))
         else
           res_bind (normalize_segments lower (str_split (\<lambda>c. c = slash) normalized_separators) [])
             (\<lambda>components.
               if components = []
               then Inl (InvalidArgument (lit ''sync path must include a file name''))
               else Inr (str_join [slash] components)))"

definition is_markdown_path :: "path \<Rightarrow> bool" where
  "is_markdown_path path =
     (case path_extension path of
        Some extension \<Rightarrow> eq_ignore_ascii_case extension (lit ''md'')
      | None \<Rightarrow> False)"

section \<open>Scanning\<close>

text \<open>\<open>duration_since(UNIX_EPOCH).unwrap_or_default()\<close>, then \<open>as_millis\<close> clamped to an \<open>i64\<close>.\<close>

definition modified_ms :: "file_data \<Rightarrow> int sync_result" where
  "modified_ms metadata =
     (case fd_modified metadata of
        Inl e \<Rightarrow> Inl (Storage (lit ''failed to read sync file modified time: '' @ e))
      | Inr nanos \<Rightarrow> Inr (min (max nanos 0 div 1000000) i64_max))"

definition scan_file ::
  "(bytes \<Rightarrow> rstr) \<Rightarrow> (rstr \<Rightarrow> rstr) \<Rightarrow> path \<Rightarrow> path \<Rightarrow> file_data \<Rightarrow> scanned_file sync_result" where
  "scan_file hash lower root path data =
     (let relative_path = to_relative_path root path
      in res_bind (normalize_vault_relative_path lower relative_path) (\<lambda>normalized_path.
         res_bind (case fd_metadata_error data of
             Some e \<Rightarrow> Inl (Storage (lit ''failed to read sync file metadata '' @ path_display path @ lit '': '' @ e))
           | None \<Rightarrow> Inr data) (\<lambda>metadata.
         res_bind (case fd_content data of
             Inl e \<Rightarrow> Inl (Storage (lit ''failed to read sync file '' @ path_display path @ lit '': '' @ e))
           | Inr plaintext \<Rightarrow> Inr plaintext) (\<lambda>plaintext.
         res_bind (ok_or (i64_try_from_usize (length plaintext))
             (InvalidArgument (lit ''sync file is too large: '' @ path_display path))) (\<lambda>size_bytes.
         res_bind (modified_ms metadata) (\<lambda>mtime_ms.
         Inr \<lparr>scf_file_id = file_id_for_normalized_path hash normalized_path,
              scf_path = relative_path, scf_normalized_path = normalized_path,
              scf_plaintext_hash = hash plaintext, scf_size_bytes = size_bytes,
              scf_mtime_ms = mtime_ms, scf_plaintext = plaintext\<rparr>))))))"

definition scan_dir_error :: "path \<Rightarrow> rstr \<Rightarrow> sync_error" where
  "scan_dir_error dir e = Storage (lit ''failed to read sync directory '' @ path_display dir @ lit '': '' @ e)"

fun scan_dir ::
  "(bytes \<Rightarrow> rstr) \<Rightarrow> (rstr \<Rightarrow> rstr) \<Rightarrow> path \<Rightarrow> path \<Rightarrow> fs_node \<Rightarrow> scanned_file list \<Rightarrow> (scanned_file list) sync_result"
and scan_entries ::
  "(bytes \<Rightarrow> rstr) \<Rightarrow> (rstr \<Rightarrow> rstr) \<Rightarrow> path \<Rightarrow> path \<Rightarrow> (rstr \<times> fs_node) list \<Rightarrow> rstr option \<Rightarrow> scanned_file list
    \<Rightarrow> (scanned_file list) sync_result" where
  "scan_dir hash lower root dir (FsDir es err) files = scan_entries hash lower root dir es err files"
| "scan_dir hash lower root dir (FsDirErr e) files = Inl (scan_dir_error dir e)"
| "scan_dir hash lower root dir (FsFile _) files = Inl (scan_dir_error dir not_a_directory)"
| "scan_dir hash lower root dir FsSymlink files = Inl (scan_dir_error dir not_a_directory)"
| "scan_dir hash lower root dir FsOther files = Inl (scan_dir_error dir not_a_directory)"
| "scan_dir hash lower root dir (FsTypeErr _) files = Inl (scan_dir_error dir not_a_directory)"
| "scan_entries hash lower root dir [] err files =
     (case err of
        Some e \<Rightarrow> Inl (Storage (lit ''failed to read sync directory entry '' @ path_display dir @ lit '': '' @ e))
      | None \<Rightarrow> Inr files)"
| "scan_entries hash lower root dir ((name, node) # es) err files =
     (let path = path_push dir name
      in if should_ignore_path (entry_relative root path)
         then scan_entries hash lower root dir es err files
         else
           case node of
             FsTypeErr e \<Rightarrow> Inl (Storage (lit ''failed to read sync file type '' @ path_display path @ lit '': '' @ e))
           | FsSymlink \<Rightarrow> scan_entries hash lower root dir es err files
           | FsDir _ _ \<Rightarrow>
               res_bind (scan_dir hash lower root path node files) (\<lambda>files.
                 scan_entries hash lower root dir es err files)
           | FsDirErr _ \<Rightarrow>
               res_bind (scan_dir hash lower root path node files) (\<lambda>files.
                 scan_entries hash lower root dir es err files)
           | FsOther \<Rightarrow> scan_entries hash lower root dir es err files
           | FsFile data \<Rightarrow>
               if \<not> is_markdown_path path then scan_entries hash lower root dir es err files
               else res_bind (scan_file hash lower root path data) (\<lambda>file.
                 scan_entries hash lower root dir es err (files @ [file])))"

fun unique_paths_loop :: "scanned_file list \<Rightarrow> rstr set \<Rightarrow> unit sync_result" where
  "unique_paths_loop [] seen = Inr ()"
| "unique_paths_loop (file # files) seen =
     (if scf_normalized_path file \<in> seen
      then Inl (InvalidArgument (lit ''duplicate normalized sync path: '' @ scf_normalized_path file))
      else unique_paths_loop files (insert (scf_normalized_path file) seen))"

definition validate_unique_normalized_paths :: "scanned_file list \<Rightarrow> unit sync_result" where
  "validate_unique_normalized_paths files = unique_paths_loop files {}"

text \<open>\<open>metadata\<close> is what \<open>fs::metadata\<close> finds at the root, links followed.\<close>

definition scan_vault ::
  "(bytes \<Rightarrow> rstr) \<Rightarrow> (rstr \<Rightarrow> rstr) \<Rightarrow> path \<Rightarrow> rstr + fs_node \<Rightarrow> (scanned_file list) sync_result" where
  "scan_vault hash lower root metadata =
     (case metadata of
        Inl e \<Rightarrow> Inl (Storage (lit ''failed to read vault root: '' @ e))
      | Inr node \<Rightarrow>
          if \<not> is_dir_node node
          then Inl (InvalidArgument (lit ''vault root is not a directory: '' @ path_display root))
          else
            res_bind (scan_dir hash lower root root node []) (\<lambda>files.
            let files = sort_key scf_normalized_path files
            in res_bind (validate_unique_normalized_paths files) (\<lambda>_. Inr files)))"

section \<open>Normalized paths are safe\<close>

text \<open>
  What is used of \<open>str::to_lowercase\<close>: it never introduces a separator or a dot (the lowercase
  mappings of Unicode produce letters and combining marks only, and map these characters to
  themselves), and text that is not blank stays so.
\<close>

definition lower_ok :: "(rstr \<Rightarrow> rstr) \<Rightarrow> bool" where
  "lower_ok lower \<longleftrightarrow>
     (\<forall>s. (slash \<in> set (lower s) \<longrightarrow> slash \<in> set s) \<and> (backslash \<in> set (lower s) \<longrightarrow> backslash \<in> set s) \<and>
        (lower s = [dot] \<longrightarrow> s = [dot]) \<and> (lower s = [dot, dot] \<longrightarrow> s = [dot, dot]) \<and>
        (lower s = [] \<longrightarrow> s = []) \<and> (str_trim (lower s) = [] \<longrightarrow> str_trim s = []))"

lemma lower_ok_good: "lower_ok lower \<Longrightarrow> good_segment w \<Longrightarrow> good_segment (lower w)"
  by (auto simp: lower_ok_def good_segment_def)

text \<open>The ASCII part of the mapping satisfies it.\<close>

lemma str_trim_eq_Nil: "str_trim s = [] \<longleftrightarrow> (\<forall>c\<in>set s. is_whitespace c)"
proof -
  have "str_trim s = [] \<longleftrightarrow> dropWhile is_whitespace s = []"
  proof
    assume "str_trim s = []"
    then have "\<forall>c\<in>set (dropWhile is_whitespace s). is_whitespace c"
      by (simp add: str_trim_def dropWhile_eq_Nil_conv)
    then show "dropWhile is_whitespace s = []"
      by (metis hd_dropWhile hd_in_set)
  qed (auto simp: str_trim_def dest: set_dropWhileD)
  then show ?thesis by (simp add: dropWhile_eq_Nil_conv)
qed

lemma ascii_lower_keeps: "ascii_lower c = d \<longleftrightarrow> c = d" if "d \<in> {slash, backslash, dot}"
  using that by (auto simp: ascii_lower_def)

lemma ascii_lower_whitespace: "is_whitespace (ascii_lower c) \<Longrightarrow> is_whitespace c"
  by (auto simp: ascii_lower_def is_whitespace_def split: if_splits)

lemma lower_ok_ascii: "lower_ok to_ascii_lowercase"
proof -
  have sep: "d \<in> set (map ascii_lower s) \<longleftrightarrow> d \<in> set s" if "d \<in> {slash, backslash, dot}" for d s
    using ascii_lower_keeps [OF that] by (metis (no_types, opaque_lifting) image_iff list.set_map)
  have dots: "map ascii_lower s = [dot] \<longleftrightarrow> s = [dot]" "map ascii_lower s = [dot, dot] \<longleftrightarrow> s = [dot, dot]" for s
    using ascii_lower_keeps [of dot] by (cases s; cases "tl s"; auto)+
  have blank: "str_trim (map ascii_lower s) = [] \<longrightarrow> str_trim s = []" for s
    using ascii_lower_whitespace by (auto simp: str_trim_eq_Nil)
  have s1: "slash \<in> set (map ascii_lower s) \<longrightarrow> slash \<in> set s" for s using sep [of slash s] by blast
  have s2: "backslash \<in> set (map ascii_lower s) \<longrightarrow> backslash \<in> set s" for s using sep [of backslash s] by blast
  show ?thesis unfolding lower_ok_def to_ascii_lowercase_def
    by (intro allI conjI s1 s2 blank) (simp_all only: dots list.map_disc_iff simp_thms)
qed

lemma normalize_segments_Inr:
  "normalize_segments lower segs out = Inr cs \<longleftrightarrow>
     [dot, dot] \<notin> set segs \<and> cs = out @ map lower (filter (\<lambda>w. w \<noteq> [] \<and> w \<noteq> [dot]) segs)"
  by (induction segs arbitrary: out) auto

text \<open>The names a relative path is made of, and the shape of a normalized path.\<close>

definition path_names :: "rstr \<Rightarrow> rstr list" where
  "path_names s = filter (\<lambda>w. w \<noteq> [] \<and> w \<noteq> [dot]) (str_split (\<lambda>c. c = slash) (str_replace_char backslash slash s))"

lemma normalize_Inr:
  assumes "normalize_vault_relative_path lower s = Inr n"
  shows "n = str_join [slash] (map lower (path_names s))" "path_names s \<noteq> []" "\<forall>w\<in>set (path_names s). good_segment w"
    "\<forall>w\<in>set (path_names s). backslash \<notin> set w"
proof -
  let ?segs = "str_split (\<lambda>c. c = slash) (str_replace_char backslash slash s)"
  from assms have nodots: "[dot, dot] \<notin> set ?segs" and "path_names s \<noteq> []"
    and n: "n = str_join [slash] (map lower (path_names s))"
    by (auto simp: normalize_vault_relative_path_def res_simps normalize_segments_Inr path_names_def
        Let_def split: if_splits)
  then show "n = str_join [slash] (map lower (path_names s))" "path_names s \<noteq> []" by simp_all
  show "\<forall>w\<in>set (path_names s). good_segment w"
    using nodots str_split_no_sep [of _ "\<lambda>c. c = slash" "str_replace_char backslash slash s"]
    by (auto simp: path_names_def good_segment_def)
  show "\<forall>w\<in>set (path_names s). backslash \<notin> set w"
    using str_split_chars [of _ "\<lambda>c. c = slash" "str_replace_char backslash slash s"]
    by (fastforce simp: path_names_def str_replace_char_def split: if_splits)
qed

lemma normalize_components:
  assumes "lower_ok lower" "normalize_vault_relative_path lower s = Inr n"
  shows "path_components n = map Normal (map lower (path_names s))"
  using normalize_Inr [OF assms(2)] lower_ok_good [OF assms(1)]
  by (simp add: path_components_join)

section \<open>What a scan collects\<close>

text \<open>The eligible files below the entries \<open>es\<close> of the directory \<open>ds\<close>: markdown files that are reached
  without passing an ignored name. \<open>scan_result\<close> is what scanning them gives.\<close>

definition eligible :: "rstr list \<Rightarrow> (rstr \<times> fs_node) list \<Rightarrow> (rstr list \<times> file_data) set" where
  "eligible ds es = (\<Union>(w, child)\<in>set es. {(w # us, data) | us data.
     fs_lookup child us = Some (FsFile data) \<and> is_markdown_path (map Normal (w # us)) \<and>
     (\<forall>k<Suc (length us). \<not> should_ignore_path (map Normal (ds @ take (Suc k) (w # us))))})"

definition collects ::
  "(bytes \<Rightarrow> rstr) \<Rightarrow> (rstr \<Rightarrow> rstr) \<Rightarrow> path \<Rightarrow> rstr list \<Rightarrow> (rstr list \<times> file_data) set
    \<Rightarrow> scanned_file list \<Rightarrow> scanned_file list \<Rightarrow> bool" where
  "collects hash lower root ds S files files' \<longleftrightarrow>
     (\<exists>new. files' = files @ new \<and>
       set new = {f. \<exists>(vs, data)\<in>S. scan_file hash lower root (root @ map Normal (ds @ vs)) data = Inr f} \<and>
       (\<forall>(vs, data)\<in>S. is_ok (scan_file hash lower root (root @ map Normal (ds @ vs)) data)))"

lemma collects_empty: "collects hash lower root ds {} files files"
  by (simp add: collects_def)

lemma collects_trans:
  assumes "collects hash lower root ds S files files1" "collects hash lower root ds T files1 files2"
  shows "collects hash lower root ds (S \<union> T) files files2"
proof -
  from assms(1) obtain a where a: "files1 = files @ a"
    "set a = {f. \<exists>(vs, data)\<in>S. scan_file hash lower root (root @ map Normal (ds @ vs)) data = Inr f}"
    "\<forall>(vs, data)\<in>S. is_ok (scan_file hash lower root (root @ map Normal (ds @ vs)) data)"
    unfolding collects_def by blast
  from assms(2) obtain b where b: "files2 = files1 @ b"
    "set b = {f. \<exists>(vs, data)\<in>T. scan_file hash lower root (root @ map Normal (ds @ vs)) data = Inr f}"
    "\<forall>(vs, data)\<in>T. is_ok (scan_file hash lower root (root @ map Normal (ds @ vs)) data)"
    unfolding collects_def by blast
  have "set (a @ b) = {f. \<exists>(vs, data)\<in>S \<union> T. scan_file hash lower root (root @ map Normal (ds @ vs)) data = Inr f}"
    unfolding set_append a(2) b(2) by blast
  moreover have "files2 = files @ (a @ b)" using a(1) b(1) by simp
  ultimately show ?thesis using a(3) b(3) unfolding collects_def by blast
qed

lemma collects_down:
  assumes "collects hash lower root (ds @ [w]) S files files'"
  shows "collects hash lower root ds ((\<lambda>(vs, data). (w # vs, data)) ` S) files files'"
proof -
  have eq: "(\<exists>(vs, data)\<in>(\<lambda>(vs, data). (w # vs, data)) ` S. P vs data) \<longleftrightarrow> (\<exists>(vs, data)\<in>S. P (w # vs) data)" for P
    by force
  have all: "(\<forall>(vs, data)\<in>(\<lambda>(vs, data). (w # vs, data)) ` S. P vs data) \<longleftrightarrow> (\<forall>(vs, data)\<in>S. P (w # vs) data)" for P
    by force
  show ?thesis using assms unfolding collects_def eq all by simp
qed

lemma collects_one:
  assumes "scan_file hash lower root (root @ map Normal (ds @ [w])) data = Inr f"
  shows "collects hash lower root ds {([w], data)} files (files @ [f])"
  using assms by (auto simp: collects_def)

text \<open>The part of \<open>eligible\<close> that one entry contributes.\<close>

lemma eligible_Nil [simp]: "eligible ds [] = {}"
  by (simp add: eligible_def)

lemma eligible_Cons: "eligible ds (x # es) = eligible ds [x] \<union> eligible ds es"
  by (simp add: eligible_def)

lemma less_Suc_split: "(\<forall>k<Suc n. P k) \<longleftrightarrow> P 0 \<and> (\<forall>k<n. P (Suc k))"
  using less_Suc_eq_0_disj by auto

lemma eligible_ignored:
  "should_ignore_path (map Normal (ds @ [w])) \<Longrightarrow> eligible ds [(w, child)] = {}"
  by (auto simp: eligible_def less_Suc_split)

lemma markdown_last: "vs \<noteq> [] \<Longrightarrow> is_markdown_path (p @ map Normal vs) = is_markdown_path (map Normal vs)"
  by (simp add: is_markdown_path_def path_extension_def path_file_name_def)

lemma eligible_leaf:
  assumes "\<not> should_ignore_path (map Normal (ds @ [w]))"
  shows "eligible ds [(w, FsFile data)] = (if is_markdown_path [Normal w] then {([w], data)} else {})"
proof -
  have "fs_lookup (FsFile data) us = Some node \<longleftrightarrow> us = [] \<and> node = FsFile data" for us node
    by (cases us) auto
  then show ?thesis using assms by (auto simp: eligible_def)
qed

lemma eligible_other:
  assumes "\<forall>data. child \<noteq> FsFile data" "\<forall>es err. child \<noteq> FsDir es err"
  shows "eligible ds [(w, child)] = {}"
proof -
  have "fs_lookup child us = Some (FsFile data) \<Longrightarrow> False" for us data
    using assms by (cases "(child, us)" rule: fs_lookup.cases) auto
  then show ?thesis by (auto simp: eligible_def)
qed

lemma eligible_dir:
  assumes "\<not> should_ignore_path (map Normal (ds @ [w]))" "distinct (map fst es)"
  shows "eligible ds [(w, FsDir es err)] = (\<lambda>(vs, data). (w # vs, data)) ` eligible (ds @ [w]) es"
proof (rule set_eqI, clarify)
  fix vs data
  have look: "fs_lookup (FsDir es err) (u # us) = Some node \<longleftrightarrow>
      (\<exists>child. (u, child) \<in> set es \<and> fs_lookup child us = Some node)" for u us node
    using map_of_eq_Some_iff [OF assms(2), of u] by (cases "map_of es u") (simp_all, metis option.inject)
  have md: "is_markdown_path (Normal w # map Normal us) = is_markdown_path (map Normal us)" if "us \<noteq> []" for us
    using markdown_last [OF that, of "[Normal w]"] by simp
  show "(vs, data) \<in> eligible ds [(w, FsDir es err)] \<longleftrightarrow>
      (vs, data) \<in> (\<lambda>(vs, data). (w # vs, data)) ` eligible (ds @ [w]) es"
  proof (cases vs)
    case (Cons v us)
    have "(vs, data) \<in> eligible ds [(w, FsDir es err)] \<longleftrightarrow> v = w \<and> (us, data) \<in> eligible (ds @ [w]) es"
    proof (cases us)
      case (Cons u us')
      have "fs_lookup (FsDir es err) us = Some (FsFile data) \<longleftrightarrow>
          (\<exists>child. (u, child) \<in> set es \<and> fs_lookup child us' = Some (FsFile data))"
        unfolding Cons by (rule look)
      then show ?thesis
        using assms(1) md [of us] Cons \<open>vs = v # us\<close>
        by (auto simp: eligible_def less_Suc_split simp del: fs_lookup.simps)
    qed (use \<open>vs = v # us\<close> in \<open>auto simp: eligible_def\<close>)
    then show ?thesis using Cons by force
  qed (auto simp: eligible_def)
qed

lemma scan_entries_collects:
  assumes "scan_entries hash lower root (root @ map Normal ds) es err files = Inr files'"
    and "\<forall>x\<in>set es. \<forall>files files'. is_dir_node (snd x) \<longrightarrow> \<not> should_ignore_path (map Normal (ds @ [fst x])) \<longrightarrow>
      scan_dir hash lower root (root @ map Normal (ds @ [fst x])) (snd x) files = Inr files' \<longrightarrow>
      collects hash lower root ds (eligible ds [x]) files files'"
  shows "collects hash lower root ds (eligible ds es) files files'"
  using assms
proof (induction es arbitrary: files)
  case (Cons x es)
  obtain w node where x: "x = (w, node)" by (cases x)
  have path: "path_push (root @ map Normal ds) w = root @ map Normal (ds @ [w])" by (simp add: path_push_def)
  have "\<exists>mid. collects hash lower root ds (eligible ds [x]) files mid \<and>
      scan_entries hash lower root (root @ map Normal ds) es err mid = Inr files'"
  proof (cases "should_ignore_path (map Normal (ds @ [w]))")
    case True
    then show ?thesis using Cons.prems(1) collects_empty [of hash lower root ds files]
      by (auto simp: x path entry_relative_below eligible_ignored)
  next
    case False
    show ?thesis
    proof (cases node)
      case (FsFile data)
      show ?thesis
      proof (cases "is_markdown_path [Normal w]")
        case True
        then have "is_markdown_path (root @ map Normal (ds @ [w]))"
          using markdown_last [of "[w]" "root @ map Normal ds"] by simp
        then obtain f where "scan_file hash lower root (root @ map Normal (ds @ [w])) data = Inr f"
          "scan_entries hash lower root (root @ map Normal ds) es err (files @ [f]) = Inr files'"
          using Cons.prems(1) False FsFile
          by (auto simp: x path entry_relative_below res_bind_eq_Inr simp del: map_append)
        then show ?thesis using collects_one eligible_leaf [OF False, of data] True x FsFile by auto
      next
        case False
        then have "\<not> is_markdown_path (root @ map Normal (ds @ [w]))"
          using markdown_last [of "[w]" "root @ map Normal ds"] by simp
        then show ?thesis
          using Cons.prems(1) \<open>\<not> should_ignore_path _\<close> FsFile False collects_empty [of hash lower root ds files]
            eligible_leaf [OF \<open>\<not> should_ignore_path _\<close>, of data]
          by (auto simp: x path entry_relative_below simp del: map_append)
      qed
    next
      case (FsDir sub e)
      then obtain mid where "scan_dir hash lower root (root @ map Normal (ds @ [w])) node files = Inr mid"
          "scan_entries hash lower root (root @ map Normal ds) es err mid = Inr files'"
        using Cons.prems(1) False
        by (auto simp: x path entry_relative_below res_bind_eq_Inr simp del: map_append)
      then show ?thesis using Cons.prems(2) False FsDir x by fastforce
    qed (use Cons.prems(1) False collects_empty [of hash lower root ds files] eligible_other [of node ds w] in
        \<open>auto simp: x path entry_relative_below res_bind_eq_Inr simp del: map_append\<close>)
  qed
  then obtain mid where first: "collects hash lower root ds (eligible ds [x]) files mid"
    and rest: "scan_entries hash lower root (root @ map Normal ds) es err mid = Inr files'" by blast
  have "collects hash lower root ds (eligible ds es) mid files'"
    using Cons.IH [OF rest] Cons.prems(2) by simp
  from collects_trans [OF first this] show ?case by (simp add: eligible_Cons [of ds x es])
qed (auto simp: collects_empty split: option.splits)

lemma scan_dir_collects:
  assumes "fs_wf (FsDir es err)" "scan_dir hash lower root (root @ map Normal ds) (FsDir es err) files = Inr files'"
  shows "collects hash lower root ds (eligible ds es) files files'"
  using assms
proof (induction "FsDir es err" arbitrary: es err ds files files' rule: measure_induct_rule [where f = size])
  case less
  show ?case
  proof (rule scan_entries_collects, use less.prems(2) in simp, intro ballI allI impI)
    fix x files files'
    assume x: "x \<in> set es" "is_dir_node (snd x)" "\<not> should_ignore_path (map Normal (ds @ [fst x]))"
      and run: "scan_dir hash lower root (root @ map Normal (ds @ [fst x])) (snd x) files = Inr files'"
    obtain w node where w: "x = (w, node)" by (cases x)
    from x(2) run w obtain sub e where node: "node = FsDir sub e" by (cases node) auto
    have wf1: "fs_wf node" using less.prems(1) x(1) w by fastforce
    then have wf: "fs_wf node" "distinct (map fst sub)" using node by auto
    have small: "size node < size (FsDir es err)"
      using x(1) w size_list_estimation' [of x es "size node" "size_prod (\<lambda>x. 0) size"] by auto
    have "collects hash lower root (ds @ [w]) (eligible (ds @ [w]) sub) files files'"
      using less.hyps [of sub e "ds @ [w]" files files'] small wf(1) run w node by simp
    from collects_down [OF this] show "collects hash lower root ds (eligible ds [x]) files files'"
      using eligible_dir [OF _ wf(2)] x(3) w node by simp
  qed
qed

lemma unique_paths_loop_ok:
  "unique_paths_loop files seen = Inr () \<longleftrightarrow>
     distinct (map scf_normalized_path files) \<and> scf_normalized_path ` set files \<inter> seen = {}"
  by (induction files arbitrary: seen) auto

lemma scan_vault_Inr:
  assumes "scan_vault hash lower root (Inr (FsDir es err)) = Inr files" "fs_wf (FsDir es err)"
  shows "sorted (map scf_normalized_path files)" "distinct (map scf_normalized_path files)"
    "set files = {f. \<exists>(ws, data)\<in>eligible [] es. scan_file hash lower root (root @ map Normal ws) data = Inr f}"
    "\<forall>(ws, data)\<in>eligible [] es. is_ok (scan_file hash lower root (root @ map Normal ws) data)"
proof -
  from assms(1) obtain raw where run: "scan_dir hash lower root root (FsDir es err) [] = Inr raw"
    and files: "files = sort_key scf_normalized_path raw" and "unique_paths_loop files {} = Inr ()"
    by (auto simp: scan_vault_def res_bind_eq_Inr Let_def validate_unique_normalized_paths_def simp del: scan_dir.simps)
  then show "sorted (map scf_normalized_path files)" "distinct (map scf_normalized_path files)"
    by (simp_all add: unique_paths_loop_ok)
  have "collects hash lower root [] (eligible [] es) [] raw"
    using scan_dir_collects [OF assms(2), of hash lower root "[]"] run by simp
  then show "set files = {f. \<exists>(ws, data)\<in>eligible [] es. scan_file hash lower root (root @ map Normal ws) data = Inr f}"
    and "\<forall>(ws, data)\<in>eligible [] es. is_ok (scan_file hash lower root (root @ map Normal ws) data)"
    by (auto simp: collects_def files)
qed

lemma eligible_lookup:
  assumes "fs_wf (FsDir es err)"
  shows "(ws, data) \<in> eligible [] es \<longleftrightarrow> fs_lookup (FsDir es err) ws = Some (FsFile data) \<and>
    is_markdown_path (map Normal ws) \<and> (\<nexists>k. k < length ws \<and> should_ignore_path (map Normal (take (Suc k) ws)))"
proof (cases ws)
  case (Cons w us)
  have d: "distinct (map fst es)" using assms by simp
  have "fs_lookup (FsDir es err) ws = Some (FsFile data) \<longleftrightarrow>
      (\<exists>child. (w, child) \<in> set es \<and> fs_lookup child us = Some (FsFile data))"
    using map_of_eq_Some_iff [OF d, of w] Cons by (cases "map_of es w") (simp_all, metis option.inject)
  then show ?thesis using Cons by (auto simp: eligible_def simp del: fs_lookup.simps)
qed (auto simp: eligible_def)

section \<open>A scan is always accepted by the database\<close>

lemma str_split_mem: "c \<in> set s \<Longrightarrow> \<not> p c \<Longrightarrow> \<exists>w\<in>set (str_split p s). c \<in> set w"
  by (induction s) (auto split: list.splits)

lemma str_join_mem: "w \<in> set ws \<Longrightarrow> c \<in> set w \<Longrightarrow> c \<in> set (str_join sep ws)"
  by (induction sep ws rule: str_join.induct) auto

lemma markdown_has_m:
  assumes "is_markdown_path (map Normal ws)" "ws \<noteq> []"
  shows "\<exists>w\<in>set ws. \<exists>c\<in>set w. c = 77 \<or> c = 109"
proof -
  let ?w = "last ws"
  from assms obtain e where e: "snd (split_file_at_dot ?w) = Some e" "map ascii_lower e = [109, 100]"
    by (auto simp: is_markdown_path_def path_extension_def path_file_name_def last_map to_ascii_lowercase_def
        eq_ignore_ascii_case_def ascii_lower_def Option.bind_eq_Some_conv split: option.splits)
  then obtain c r where "e = c # r" "ascii_lower c = 109" by (cases e) auto
  then have c: "c \<in> set e" "c = 77 \<or> c = 109" by (auto simp: ascii_lower_def split: if_splits)
  have "x \<in> set (takeWhile (\<lambda>c. c \<noteq> dot) (rev ?w)) \<Longrightarrow> x \<in> set ?w" for x
    by (metis set_rev set_takeWhileD)
  then have "set e \<subseteq> set ?w" using e(1)
    by (auto simp: split_file_at_dot_def Let_def split: if_splits)
  with c(1) have "c \<in> set ?w" by blast
  with c(2) last_in_set [OF assms(2)] show ?thesis by blast
qed

lemma scan_file_valid:
  assumes "lower_ok lower" "is_markdown_path (map Normal ws)" "ws \<noteq> []"
    and "scan_file hash lower root (root @ map Normal ws) data = Inr f"
  shows "validate_file_input (file_input f) = Inr ()"
proof -
  from assms(4) have p: "scf_path f = to_relative_path root (root @ map Normal ws)"
    and n: "normalize_vault_relative_path lower (scf_path f) = Inr (scf_normalized_path f)"
    by (auto simp: scan_file_def Let_def res_bind_eq_Inr)
  from markdown_has_m [OF assms(2,3)] obtain w c where c: "w \<in> set ws" "c \<in> set w" "c = 77 \<or> c = 109" by blast
  have "map (component_str \<circ> Normal) ws = ws" by (induction ws) auto
  then have "scf_path f = str_replace_char backslash slash (str_join [slash] ws)"
    by (auto simp: p to_relative_path_def path_strip_prefix_def path_starts_with_iff path_to_str_def)
  then have cp: "c \<in> set (scf_path f)"
    using str_join_mem [OF c(1,2), of "[slash]"] c(3) by (auto simp: str_replace_char_def)
  then have "c \<in> set (str_replace_char backslash slash (scf_path f))"
    using c(3) by (auto simp: str_replace_char_def)
  from str_split_mem [OF this, of "\<lambda>c. c = slash"] c(3) obtain v where
    "v \<in> set (str_split (\<lambda>c. c = slash) (str_replace_char backslash slash (scf_path f)))" and cv: "c \<in> set v" by auto
  moreover have "v \<noteq> []" "v \<noteq> [dot]" using cv c(3) by auto
  ultimately have v: "v \<in> set (path_names (scf_path f))" "c \<in> set v" by (simp_all add: path_names_def)
  have ws: "\<not> is_whitespace c" using c(3) by (auto simp: is_whitespace_def)
  then have "str_trim v \<noteq> []" using v(2) by (auto simp: str_trim_eq_Nil)
  then have "str_trim (lower v) \<noteq> []" using assms(1) unfolding lower_ok_def by blast
  then obtain d where "d \<in> set (lower v)" "\<not> is_whitespace d" by (auto simp: str_trim_eq_Nil)
  then have "\<exists>d\<in>set (scf_normalized_path f). \<not> is_whitespace d"
    unfolding normalize_Inr(1) [OF n] using str_join_mem [of "lower v"] v(1) by force
  moreover have "str_trim FILE_KIND_MARKDOWN \<noteq> []" by (simp add: FILE_KIND_MARKDOWN_def std_simps)
  ultimately show ?thesis using cp ws
    by (auto simp: validate_file_input_def file_input_def str_trim_eq_Nil)
qed

lemma scan_vault_inputs_ok:
  assumes "lower_ok lower" "fs_wf (FsDir es err)" "scan_vault hash lower root (Inr (FsDir es err)) = Inr files"
  shows "scan_inputs_ok (map file_input files)"
proof -
  note S = scan_vault_Inr [OF assms(3,2)]
  have "validate_file_input (file_input f) = Inr ()" if f: "f \<in> set files" for f
  proof -
    from f S(3) obtain ws data where "(ws, data) \<in> eligible [] es"
      and run: "scan_file hash lower root (root @ map Normal ws) data = Inr f" by auto
    then have "is_markdown_path (map Normal ws)" "ws \<noteq> []" by (auto simp: eligible_def)
    then show ?thesis using scan_file_valid [OF assms(1) _ _ run] by simp
  qed
  moreover have "si_normalized_path \<circ> file_input = scf_normalized_path" by (auto simp: file_input_def)
  ultimately show ?thesis using S(2) by (auto simp: scan_inputs_ok_def)
qed

section \<open>Claims\<close>

text \<open>
  C37. A successful scan of a vault finds exactly the markdown files that are reached without passing a
  hidden, temporary or symlinked name, each with its content hash, size and normalized path, and
  returns them in strictly increasing order of normalized path; none of them failed to be read.
\<close>
theorem scan_vault_exact:
  assumes "fs_wf (FsDir es err)" "scan_vault hash lower root (Inr (FsDir es err)) = Inr files"
  shows "sorted_wrt (<) (map scf_normalized_path files) \<and>
    set files = {f. \<exists>ws data. fs_lookup (FsDir es err) ws = Some (FsFile data) \<and>
      is_markdown_path (map Normal ws) \<and> (\<nexists>k. k < length ws \<and> should_ignore_path (map Normal (take (Suc k) ws))) \<and>
      scan_file hash lower root (root @ map Normal ws) data = Inr f} \<and>
    (\<nexists>ws data e. fs_lookup (FsDir es err) ws = Some (FsFile data) \<and>
      is_markdown_path (map Normal ws) \<and> (\<nexists>k. k < length ws \<and> should_ignore_path (map Normal (take (Suc k) ws))) \<and>
      scan_file hash lower root (root @ map Normal ws) data = Inl e)"
proof (intro conjI)
  note S = scan_vault_Inr [OF assms(2,1)]
  note E = eligible_lookup [OF assms(1)]
  show "sorted_wrt (<) (map scf_normalized_path files)" using S(1,2) by (simp add: strict_sorted_iff)
  show "set files = {f. \<exists>ws data. fs_lookup (FsDir es err) ws = Some (FsFile data) \<and>
      is_markdown_path (map Normal ws) \<and> (\<nexists>k. k < length ws \<and> should_ignore_path (map Normal (take (Suc k) ws))) \<and>
      scan_file hash lower root (root @ map Normal ws) data = Inr f}"
    unfolding S(3) using E by blast
  show "\<nexists>ws data e. fs_lookup (FsDir es err) ws = Some (FsFile data) \<and>
      is_markdown_path (map Normal ws) \<and> (\<nexists>k. k < length ws \<and> should_ignore_path (map Normal (take (Suc k) ws))) \<and>
      scan_file hash lower root (root @ map Normal ws) data = Inl e"
  proof (intro notI, elim exE conjE)
    fix ws data e
    assume "fs_lookup (FsDir es err) ws = Some (FsFile data)" "is_markdown_path (map Normal ws)"
      "\<nexists>k. k < length ws \<and> should_ignore_path (map Normal (take (Suc k) ws))"
      and err: "scan_file hash lower root (root @ map Normal ws) data = Inl e"
    then have "(ws, data) \<in> eligible [] es" using E by blast
    then show False using S(4) err by fastforce
  qed
qed

text \<open>A vault for the concrete instances, with a hash that separates its files.\<close>

definition example_vault :: "(rstr \<times> fs_node) list" where
  "example_vault = [(lit ''B.md'', FsFile \<lparr>fd_modified = Inr 5000000, fd_metadata_error = None, fd_content = Inr [66]\<rparr>),
     (lit ''.x.md'', FsOther),
     (lit ''a.md'', FsFile \<lparr>fd_modified = Inr (- 1), fd_metadata_error = None, fd_content = Inr []\<rparr>)]"

definition example_hash :: "bytes \<Rightarrow> rstr" where
  "example_hash bs = map unat bs"

definition example_scan :: "scanned_file list" where
  "example_scan =
    [\<lparr>scf_file_id = lit ''file_a.md'', scf_path = lit ''a.md'', scf_normalized_path = lit ''a.md'',
      scf_plaintext_hash = [], scf_size_bytes = 0, scf_mtime_ms = 0, scf_plaintext = []\<rparr>,
     \<lparr>scf_file_id = lit ''file_b.md'', scf_path = lit ''B.md'', scf_normalized_path = lit ''b.md'',
      scf_plaintext_hash = [66], scf_size_bytes = 1, scf_mtime_ms = 5, scf_plaintext = [66]\<rparr>]"

lemma example_vault_wf: "fs_wf (FsDir example_vault None)"
  by (simp add: example_vault_def good_segment_def)

lemma example_vault_scan:
  "scan_vault example_hash to_ascii_lowercase [RootDir, Normal (lit ''v'')] (Inr (FsDir example_vault None)) = Inr example_scan"
  by (simp add: example_vault_def example_scan_def example_hash_def scan_vault_def std_simps should_ignore_path_def
      entry_relative_def path_strip_prefix_def to_relative_path_def is_markdown_path_def scan_file_def
      normalize_vault_relative_path_def i64_try_from_usize_def i64_max_def modified_ms_def
      file_id_for_normalized_path_def as_bytes_def utf8_char_def validate_unique_normalized_paths_def Let_def)

theorem scan_vault_exact_witness:
  "sorted_wrt (<) (map scf_normalized_path example_scan) \<and>
   (\<nexists>ws data e. fs_lookup (FsDir example_vault None) ws = Some (FsFile data) \<and> is_markdown_path (map Normal ws) \<and>
     (\<nexists>k. k < length ws \<and> should_ignore_path (map Normal (take (Suc k) ws))) \<and>
     scan_file example_hash to_ascii_lowercase [RootDir, Normal (lit ''v'')]
       ([RootDir, Normal (lit ''v'')] @ map Normal ws) data = Inl e)"
  using scan_vault_exact [OF example_vault_wf example_vault_scan] by blast

text \<open>
  A normalized path is safe to join to any vault root: the normalizer either refuses with an
  argument error, or returns a text that resolves to the root followed by the lowercased names, so
  that no input (absolute, with backslashes, with parent components) can leave the vault.
\<close>
theorem normalized_path_resolves:
  assumes "lower_ok lower" "proper_root root"
  shows "case normalize_vault_relative_path lower s of
      Inl e \<Rightarrow> \<exists>m. e = InvalidArgument m
    | Inr n \<Rightarrow> resolve_vault_path root n = Inr (root @ map Normal (map lower (path_names s))) \<and>
        list_all good_segment (map lower (path_names s))"
proof (cases "normalize_vault_relative_path lower s")
  case (Inl e)
  have "normalize_segments lower segs out = Inl e \<Longrightarrow> \<exists>m. e = InvalidArgument m" for segs out
    by (induction segs arbitrary: out) (auto split: if_splits)
  with Inl show ?thesis
    by (auto simp: normalize_vault_relative_path_def Let_def res_bind_eq_Inl split: if_splits)
next
  case (Inr n)
  have "lexical (path_components n) [] = Some (map lower (path_names s))"
    using normalize_components [OF assms(1) Inr] lexical_names [of "map lower (path_names s)" "[]"] by simp
  then have "resolve_vault_path root n = Inr (root @ map Normal (map lower (path_names s)))"
    using resolve_vault_path_lexical [OF assms(2)] by blast
  with Inr show ?thesis using normalize_Inr(3) [OF Inr] lower_ok_good [OF assms(1)] by (auto simp: list_all_iff)
qed

theorem normalized_path_resolves_witness:
  "normalize_vault_relative_path to_ascii_lowercase (lit ''Notes'' @ [backslash] @ lit ''A.MD'') = Inr (lit ''notes/a.md'') \<and>
   resolve_vault_path [RootDir, Normal (lit ''v'')] (lit ''notes/a.md'') =
     Inr ([RootDir, Normal (lit ''v'')] @ map Normal (map to_ascii_lowercase (path_names (lit ''Notes'' @ [backslash] @ lit ''A.MD''))))"
proof -
  have root: "proper_root [RootDir, Normal (lit ''v'')]" by (simp add: proper_root_def)
  have n: "normalize_vault_relative_path to_ascii_lowercase (lit ''Notes'' @ [backslash] @ lit ''A.MD'') = Inr (lit ''notes/a.md'')"
    by (simp add: normalize_vault_relative_path_def std_simps)
  show ?thesis
    using normalized_path_resolves [OF lower_ok_ascii root, of "lit ''Notes'' @ [backslash] @ lit ''A.MD''"] unfolding n
    by (auto intro: sum.case(2))
qed

end
