(* ===== verification/Sync_Crypto.thy ===== *)
theory Sync_Crypto
  imports Utf8 Sync_Errors
begin

text \<open>
  \<open>sync/crypto.rs\<close> and the key derivation of \<open>sync/keys.rs\<close>: the container format of encrypted
  blobs, the associated data that binds a blob to its place, and commit signatures. The primitives
  of the crypto crates (XChaCha20-Poly1305, SHA-256, BLAKE3 keyed hash, Ed25519) are the fields of
  the parameter \<open>prims\<close>; \<open>serde_json::to_vec\<close> is the parameter \<open>json\<close>; the nonce that
  \<open>OsRng\<close> draws is an argument. \<open>aead_ok\<close> says what is used of the cipher and the digest.
\<close>

type_synonym symmetric_key = bytes

record crypto_prims =
  cp_encrypt :: "symmetric_key \<Rightarrow> bytes \<Rightarrow> bytes \<Rightarrow> bytes \<Rightarrow> bytes option"
  cp_decrypt :: "symmetric_key \<Rightarrow> bytes \<Rightarrow> bytes \<Rightarrow> bytes \<Rightarrow> bytes option"
  cp_sha256 :: "bytes \<Rightarrow> bytes"
  cp_keyed_hash :: "symmetric_key \<Rightarrow> bytes \<Rightarrow> symmetric_key"
  cp_sign :: "bytes \<Rightarrow> bytes \<Rightarrow> bytes"
  cp_verify :: "bytes \<Rightarrow> bytes \<Rightarrow> bytes \<Rightarrow> bool"

definition aead_ok :: "crypto_prims \<Rightarrow> bool" where
  "aead_ok prims \<longleftrightarrow>
     (\<forall>k n a m c. cp_encrypt prims k n a m = Some c \<longrightarrow> cp_decrypt prims k n a c = Some m) \<and>
     (\<forall>m. length (cp_sha256 prims m) = 32)"

section \<open>Constants and records\<close>

definition BLOB_MAGIC :: bytes where
  "BLOB_MAGIC = [75, 85, 75, 85, 83, 89, 78, 67, 66, 76, 79, 66, 0]"

definition BLOB_VERSION :: u8 where
  "BLOB_VERSION = 1"

definition ALG_XCHACHA20_POLY1305 :: u8 where
  "ALG_XCHACHA20_POLY1305 = 1"

definition XCHACHA20_NONCE_LEN :: nat where
  "XCHACHA20_NONCE_LEN = 24"

definition SHA256_LEN :: nat where
  "SHA256_LEN = 32"

definition BLOB_HEADER_FIXED_LEN :: nat where
  "BLOB_HEADER_FIXED_LEN = length BLOB_MAGIC + 3"

record encrypted_blob_metadata_t =
  bm_ciphertext_sha256 :: rstr
  bm_size_bytes :: int

record parsed_encrypted_blob =
  pb_nonce :: bytes
  pb_aad_hash :: bytes
  pb_ciphertext_and_tag :: bytes

record pack_aad =
  pa_format :: rstr
  pa_version :: u8
  pa_workspace_id :: rstr
  pa_object_id :: rstr
  pa_object_kind :: rstr
  pa_commit_id :: rstr

definition pack_aad_new :: "rstr \<Rightarrow> rstr \<Rightarrow> rstr \<Rightarrow> rstr \<Rightarrow> pack_aad" where
  "pack_aad_new workspace_id object_id object_kind commit_id =
     \<lparr>pa_format = lit ''kuku.sync.pack'', pa_version = 1, pa_workspace_id = workspace_id,
      pa_object_id = object_id, pa_object_kind = object_kind, pa_commit_id = commit_id\<rparr>"

record commit_body_aad =
  cb_format :: rstr
  cb_version :: u8
  cb_workspace_id :: rstr
  cb_commit_id :: rstr
  cb_commit_kind :: rstr
  cb_parents :: "rstr list"
  cb_author_device_id :: rstr
  cb_device_seq :: int
  cb_body_object_id :: rstr

definition commit_body_aad_new ::
  "rstr \<Rightarrow> rstr \<Rightarrow> rstr \<Rightarrow> rstr list \<Rightarrow> rstr \<Rightarrow> int \<Rightarrow> rstr \<Rightarrow> commit_body_aad" where
  "commit_body_aad_new workspace_id commit_id commit_kind parents author_device_id device_seq body_object_id =
     \<lparr>cb_format = lit ''kuku.sync.commit-body'', cb_version = 1, cb_workspace_id = workspace_id,
      cb_commit_id = commit_id, cb_commit_kind = commit_kind, cb_parents = parents,
      cb_author_device_id = author_device_id, cb_device_seq = device_seq,
      cb_body_object_id = body_object_id\<rparr>"

record commit_signature_payload =
  sp_workspace_id :: rstr
  sp_commit_id :: rstr
  sp_commit_kind :: rstr
  sp_expected_head_commit_id :: rstr
  sp_parent_commit_ids :: "rstr list"
  sp_author_device_id :: rstr
  sp_device_seq :: int
  sp_body_object_id :: rstr
  sp_body_ciphertext_sha256 :: rstr
  sp_body_size_bytes :: int
  sp_referenced_object_ids :: "rstr list"

definition commit_signature_payload_new ::
  "rstr \<Rightarrow> rstr \<Rightarrow> rstr \<Rightarrow> rstr \<Rightarrow> rstr list \<Rightarrow> rstr \<Rightarrow> int \<Rightarrow> rstr \<Rightarrow> rstr \<Rightarrow> int \<Rightarrow> rstr list
    \<Rightarrow> commit_signature_payload" where
  "commit_signature_payload_new workspace_id commit_id commit_kind expected_head_commit_id parent_commit_ids
     author_device_id device_seq body_object_id body_ciphertext_sha256 body_size_bytes referenced_object_ids =
     \<lparr>sp_workspace_id = workspace_id, sp_commit_id = commit_id, sp_commit_kind = commit_kind,
      sp_expected_head_commit_id = expected_head_commit_id, sp_parent_commit_ids = parent_commit_ids,
      sp_author_device_id = author_device_id, sp_device_seq = device_seq,
      sp_body_object_id = body_object_id, sp_body_ciphertext_sha256 = body_ciphertext_sha256,
      sp_body_size_bytes = body_size_bytes, sp_referenced_object_ids = sort referenced_object_ids\<rparr>"

section \<open>Encrypted blobs\<close>

definition canonical_json :: "('a \<Rightarrow> rstr + bytes) \<Rightarrow> 'a \<Rightarrow> bytes sync_result" where
  "canonical_json json value = (case json value of Inl e \<Rightarrow> Inl (Serialization e) | Inr bs \<Rightarrow> Inr bs)"

text \<open>The bytes that \<open>encrypt_blob_with_nonce\<close> writes.\<close>

definition blob_frame :: "bytes \<Rightarrow> bytes \<Rightarrow> bytes \<Rightarrow> bytes" where
  "blob_frame nonce aad_hash ciphertext =
     BLOB_MAGIC @ [BLOB_VERSION] @ [ALG_XCHACHA20_POLY1305] @ [of_nat XCHACHA20_NONCE_LEN] @ nonce @ aad_hash @ ciphertext"

definition encrypt_blob_with_nonce ::
  "crypto_prims \<Rightarrow> ('a \<Rightarrow> rstr + bytes) \<Rightarrow> symmetric_key \<Rightarrow> 'a \<Rightarrow> bytes \<Rightarrow> bytes \<Rightarrow> bytes sync_result" where
  "encrypt_blob_with_nonce prims json key aad plaintext nonce =
     res_bind (canonical_json json aad) (\<lambda>aad.
     res_bind (ok_or (cp_encrypt prims key nonce aad plaintext) (Crypto (lit ''encrypt failed''))) (\<lambda>ciphertext.
     Inr (blob_frame nonce (cp_sha256 prims aad) ciphertext)))"

definition parse_blob :: "bytes \<Rightarrow> parsed_encrypted_blob sync_result" where
  "parse_blob blob =
     (if length blob < BLOB_HEADER_FIXED_LEN + XCHACHA20_NONCE_LEN + SHA256_LEN
      then Inl (Crypto (lit ''encrypted blob is too short''))
      else if take (length BLOB_MAGIC) blob \<noteq> BLOB_MAGIC
      then Inl (Crypto (lit ''invalid encrypted blob magic''))
      else let version = blob ! length BLOB_MAGIC
      in if version \<noteq> BLOB_VERSION then Inl (UnsupportedVersion version)
      else let alg_id = blob ! (length BLOB_MAGIC + 1)
      in if alg_id \<noteq> ALG_XCHACHA20_POLY1305
      then Inl (Crypto (lit ''unsupported encrypted blob algorithm''))
      else let nonce_len = unat (blob ! (length BLOB_MAGIC + 2))
      in if nonce_len \<noteq> XCHACHA20_NONCE_LEN
      then Inl (Crypto (lit ''invalid encrypted blob nonce length''))
      else let nonce_start = BLOB_HEADER_FIXED_LEN;
               aad_hash_start = nonce_start + nonce_len;
               ciphertext_start = aad_hash_start + SHA256_LEN
      in if length blob < ciphertext_start
      then Inl (Crypto (lit ''encrypted blob is truncated''))
      else Inr \<lparr>pb_nonce = take (aad_hash_start - nonce_start) (drop nonce_start blob),
                pb_aad_hash = take (ciphertext_start - aad_hash_start) (drop aad_hash_start blob),
                pb_ciphertext_and_tag = drop ciphertext_start blob\<rparr>)"

definition decrypt_blob ::
  "crypto_prims \<Rightarrow> ('a \<Rightarrow> rstr + bytes) \<Rightarrow> symmetric_key \<Rightarrow> 'a \<Rightarrow> bytes \<Rightarrow> bytes sync_result" where
  "decrypt_blob prims json key aad blob =
     res_bind (canonical_json json aad) (\<lambda>aad.
     res_bind (parse_blob blob) (\<lambda>parsed.
     if pb_aad_hash parsed \<noteq> cp_sha256 prims aad then Inl (Crypto (lit ''aad hash mismatch''))
     else ok_or (cp_decrypt prims key (pb_nonce parsed) aad (pb_ciphertext_and_tag parsed))
       (Crypto (lit ''decrypt failed''))))"

text \<open>\<open>hex::encode\<close>.\<close>

definition hex_digit :: "nat \<Rightarrow> rchar" where
  "hex_digit d = (if d < 10 then 48 + d else 87 + d)"

definition hex_encode :: "bytes \<Rightarrow> rstr" where
  "hex_encode bs = concat (map (\<lambda>b. [hex_digit (unat b div 16), hex_digit (unat b mod 16)]) bs)"

definition encrypted_blob_metadata :: "crypto_prims \<Rightarrow> bytes \<Rightarrow> encrypted_blob_metadata_t" where
  "encrypted_blob_metadata prims blob =
     \<lparr>bm_ciphertext_sha256 = hex_encode (cp_sha256 prims blob), bm_size_bytes = i64_saturating_len (length blob)\<rparr>"

definition encrypt_commit_body ::
  "crypto_prims \<Rightarrow> (commit_body_aad \<Rightarrow> rstr + bytes) \<Rightarrow> symmetric_key \<Rightarrow> commit_body_aad \<Rightarrow> bytes \<Rightarrow> bytes
    \<Rightarrow> bytes sync_result" where
  "encrypt_commit_body prims json commit_key aad plaintext_body nonce =
     encrypt_blob_with_nonce prims json commit_key aad plaintext_body nonce"

definition decrypt_commit_body ::
  "crypto_prims \<Rightarrow> (commit_body_aad \<Rightarrow> rstr + bytes) \<Rightarrow> symmetric_key \<Rightarrow> commit_body_aad \<Rightarrow> bytes \<Rightarrow> bytes sync_result" where
  "decrypt_commit_body prims json commit_key aad encrypted_body = decrypt_blob prims json commit_key aad encrypted_body"

section \<open>Signatures and derived keys\<close>

definition sign_commit_payload ::
  "crypto_prims \<Rightarrow> (commit_signature_payload \<Rightarrow> rstr + bytes) \<Rightarrow> bytes \<Rightarrow> commit_signature_payload \<Rightarrow> bytes sync_result" where
  "sign_commit_payload prims json signing_key payload =
     res_bind (canonical_json json payload) (\<lambda>canonical. Inr (cp_sign prims signing_key canonical))"

definition verify_commit_signature ::
  "crypto_prims \<Rightarrow> (commit_signature_payload \<Rightarrow> rstr + bytes) \<Rightarrow> bytes \<Rightarrow> commit_signature_payload \<Rightarrow> bytes \<Rightarrow> unit sync_result" where
  "verify_commit_signature prims json verifying_key payload signature =
     res_bind (canonical_json json payload) (\<lambda>canonical.
     res_bind (res_guard (length signature = 64) (Crypto (lit ''invalid ed25519 signature length''))) (\<lambda>_.
     res_guard (cp_verify prims verifying_key canonical signature) (Crypto (lit ''invalid ed25519 signature''))))"

definition PACK_KEY_PURPOSE :: rstr where "PACK_KEY_PURPOSE = lit ''kuku-sync-pack-v1''"
definition COMMIT_BODY_KEY_PURPOSE :: rstr where "COMMIT_BODY_KEY_PURPOSE = lit ''kuku-sync-commit-body-v1''"
definition CHECKPOINT_KEY_PURPOSE :: rstr where "CHECKPOINT_KEY_PURPOSE = lit ''kuku-sync-checkpoint-v1''"
definition WRAP_KEY_PURPOSE :: rstr where "WRAP_KEY_PURPOSE = lit ''kuku-sync-wrap-v1''"

definition subkey_input :: "rstr \<Rightarrow> rstr \<Rightarrow> bytes" where
  "subkey_input purpose workspace_id = as_bytes purpose @ [0] @ as_bytes workspace_id"

definition derive_subkey :: "crypto_prims \<Rightarrow> symmetric_key \<Rightarrow> rstr \<Rightarrow> rstr \<Rightarrow> symmetric_key" where
  "derive_subkey prims workspace_key purpose workspace_id =
     cp_keyed_hash prims workspace_key (subkey_input purpose workspace_id)"

definition pack_key :: "crypto_prims \<Rightarrow> symmetric_key \<Rightarrow> rstr \<Rightarrow> symmetric_key" where
  "pack_key prims workspace_key workspace_id = derive_subkey prims workspace_key PACK_KEY_PURPOSE workspace_id"

definition commit_body_key :: "crypto_prims \<Rightarrow> symmetric_key \<Rightarrow> rstr \<Rightarrow> symmetric_key" where
  "commit_body_key prims workspace_key workspace_id =
     derive_subkey prims workspace_key COMMIT_BODY_KEY_PURPOSE workspace_id"

definition checkpoint_key :: "crypto_prims \<Rightarrow> symmetric_key \<Rightarrow> rstr \<Rightarrow> symmetric_key" where
  "checkpoint_key prims workspace_key workspace_id =
     derive_subkey prims workspace_key CHECKPOINT_KEY_PURPOSE workspace_id"

definition wrap_key :: "crypto_prims \<Rightarrow> symmetric_key \<Rightarrow> rstr \<Rightarrow> symmetric_key" where
  "wrap_key prims workspace_key workspace_id = derive_subkey prims workspace_key WRAP_KEY_PURPOSE workspace_id"

section \<open>The frame\<close>

text \<open>A codec: what it writes is read back. The blob frame and UTF-8 text are two of them.\<close>

locale codec =
  fixes encode :: "'a \<Rightarrow> 'b" and decode :: "'b \<Rightarrow> 'e + 'a" and valid :: "'a \<Rightarrow> bool"
  assumes decode_encode: "valid x \<Longrightarrow> decode (encode x) = Inr x"
begin

lemma encode_inj: "valid x \<Longrightarrow> valid y \<Longrightarrow> encode x = encode y \<Longrightarrow> x = y"
  by (metis decode_encode sum.inject(2))

lemma decode_bind: "valid x \<Longrightarrow> res_bind (decode (encode x)) f = f x"
  by (simp add: decode_encode)

end

definition blob_of_parsed :: "parsed_encrypted_blob \<Rightarrow> bytes" where
  "blob_of_parsed p = blob_frame (pb_nonce p) (pb_aad_hash p) (pb_ciphertext_and_tag p)"

definition parsed_valid :: "parsed_encrypted_blob \<Rightarrow> bool" where
  "parsed_valid p \<longleftrightarrow> length (pb_nonce p) = 24 \<and> length (pb_aad_hash p) = 32"

lemma BLOB_MAGIC_length: "length BLOB_MAGIC = 13"
  by (simp add: BLOB_MAGIC_def)

lemmas blob_consts = BLOB_MAGIC_length BLOB_VERSION_def ALG_XCHACHA20_POLY1305_def XCHACHA20_NONCE_LEN_def
  SHA256_LEN_def BLOB_HEADER_FIXED_LEN_def

lemma parse_blob_frame:
  assumes "parsed_valid p"
  shows "parse_blob (blob_of_parsed p) = Inr p"
  using assms
  by (simp add: parse_blob_def blob_of_parsed_def blob_frame_def parsed_valid_def blob_consts Let_def nth_append)

interpretation blob: codec blob_of_parsed parse_blob parsed_valid
  by unfold_locales (rule parse_blob_frame)

interpretation utf8_text: codec as_bytes "\<lambda>bs. ok_or (from_utf8 bs) ()" "list_all valid_char"
  by unfold_locales (simp add: from_utf8_as_bytes list_all_iff)

lemma split_72:
  assumes "72 \<le> length blob"
  shows "blob = take 13 blob @ take 3 (drop 13 blob) @ take 24 (drop 16 blob) @ take 32 (drop 40 blob) @ drop 72 blob"
proof -
  have cut: "drop i blob = take n (drop i blob) @ drop (i + n) blob" for i n
    by (metis append_take_drop_id drop_drop add.commute)
  show ?thesis using cut [of 0 13] cut [of 13 3] cut [of 16 24] cut [of 40 32] by simp
qed

lemma parse_blob_only_frame:
  assumes "parse_blob blob = Inr p"
  shows "blob = blob_of_parsed p \<and> parsed_valid p"
proof -
  from assms have len: "72 \<le> length blob" and magic: "take 13 blob = BLOB_MAGIC"
    and h: "blob ! 13 = 1" "blob ! 14 = 1" "unat (blob ! 15) = 24"
    and p: "p = \<lparr>pb_nonce = take 24 (drop 16 blob), pb_aad_hash = take 32 (drop 40 blob),
      pb_ciphertext_and_tag = drop 72 blob\<rparr>"
    by (auto simp: parse_blob_def blob_consts Let_def split: if_splits)
  have "blob ! 15 = 24" using h(3) by (metis of_nat_numeral of_nat_unat ucast_id)
  then have "take 3 (drop 13 blob) = [1, 1, 24]"
    using h len by (simp add: numeral_3_eq_3 take_Suc_conv_app_nth)
  then show ?thesis using magic len split_72 [OF len]
    by (simp add: p blob_of_parsed_def blob_frame_def parsed_valid_def blob_consts)
qed

lemma encrypt_blob_parses:
  assumes "aead_ok prims" "length nonce = 24"
    and "encrypt_blob_with_nonce prims json key aad plaintext nonce = Inr blob"
  obtains a c where "json aad = Inr a" "cp_decrypt prims key nonce a c = Some plaintext"
    "parse_blob blob = Inr \<lparr>pb_nonce = nonce, pb_aad_hash = cp_sha256 prims a, pb_ciphertext_and_tag = c\<rparr>"
proof -
  from assms(3) obtain a c where a: "json aad = Inr a" and c: "cp_encrypt prims key nonce a plaintext = Some c"
    and b: "blob = blob_frame nonce (cp_sha256 prims a) c"
    by (auto simp: encrypt_blob_with_nonce_def canonical_json_def res_bind_eq_Inr split: sum.splits)
  let ?p = "\<lparr>pb_nonce = nonce, pb_aad_hash = cp_sha256 prims a, pb_ciphertext_and_tag = c\<rparr>"
  have "parsed_valid ?p" using assms(1,2) by (simp add: parsed_valid_def aead_ok_def)
  then have "parse_blob blob = Inr ?p" using blob.decode_encode [of ?p] by (simp add: b blob_of_parsed_def)
  moreover have "cp_decrypt prims key nonce a c = Some plaintext" using assms(1) c by (simp add: aead_ok_def)
  ultimately show thesis using that a by blast
qed

lemma decrypt_blob_encrypt:
  assumes "aead_ok prims" "length nonce = 24"
    and "encrypt_blob_with_nonce prims json key aad plaintext nonce = Inr blob"
  shows "decrypt_blob prims json key aad blob = Inr plaintext"
  by (rule encrypt_blob_parses [OF assms]) (simp add: decrypt_blob_def canonical_json_def)

section \<open>Claims\<close>

text \<open>
  C40. The blob parser accepts exactly the byte strings the writer can produce, and returns the parts
  they were made of; every other byte string, of any length, is refused.
\<close>
theorem parse_blob_exact:
  "parse_blob blob = Inr p \<longleftrightarrow> blob = blob_of_parsed p \<and> length (pb_nonce p) = 24 \<and> length (pb_aad_hash p) = 32"
  using parse_blob_only_frame [of blob p] blob.decode_encode [of p] by (auto simp: parsed_valid_def)

text \<open>
  C39. Encrypting a blob and decrypting it with the same key and associated data gives the plaintext
  back; with associated data of another digest (another workspace, object, kind or commit) it is
  refused before the cipher runs.
\<close>
theorem decrypt_blob_binds_aad:
  assumes "aead_ok prims" "length nonce = 24"
    and "encrypt_blob_with_nonce prims json key aad plaintext nonce = Inr blob"
  shows "decrypt_blob prims json key aad blob = Inr plaintext \<and>
    (case json aad' of
       Inl e \<Rightarrow> decrypt_blob prims json key' aad' blob = Inl (Serialization e)
     | Inr bs \<Rightarrow> Inr (cp_sha256 prims bs) = map_sum id (cp_sha256 prims) (json aad) \<or>
         decrypt_blob prims json key' aad' blob = Inl (Crypto (lit ''aad hash mismatch'')))"
proof -
  obtain a c where "json aad = Inr a"
    "parse_blob blob = Inr \<lparr>pb_nonce = nonce, pb_aad_hash = cp_sha256 prims a, pb_ciphertext_and_tag = c\<rparr>"
    by (rule encrypt_blob_parses [OF assms])
  then show ?thesis using decrypt_blob_encrypt [OF assms]
    by (auto simp: decrypt_blob_def canonical_json_def split: sum.splits)
qed

text \<open>Primitives for the concrete instances: the identity cipher and a digest of the first byte.\<close>

definition example_prims :: crypto_prims where
  "example_prims = \<lparr>cp_encrypt = (\<lambda>k n a m. Some m), cp_decrypt = (\<lambda>k n a c. Some c),
     cp_sha256 = (\<lambda>m. replicate 32 (if m = [] then 0 else hd m)), cp_keyed_hash = (\<lambda>k m. k),
     cp_sign = (\<lambda>k m. m), cp_verify = (\<lambda>k m s. True)\<rparr>"

lemma example_prims_ok: "aead_ok example_prims"
  by (simp add: aead_ok_def example_prims_def)

theorem decrypt_blob_binds_aad_witness:
  "\<exists>blob. encrypt_blob_with_nonce example_prims (\<lambda>x. Inr [x]) [] 7 [1, 2] (replicate 24 0) = Inr blob \<and>
     decrypt_blob example_prims (\<lambda>x. Inr [x]) [] 7 blob = Inr [1, 2] \<and>
     decrypt_blob example_prims (\<lambda>x. Inr [x]) [] 8 blob = Inl (Crypto (lit ''aad hash mismatch''))"
proof -
  obtain blob where b: "encrypt_blob_with_nonce example_prims (\<lambda>x. Inr [x]) [] 7 [1, 2] (replicate 24 0) = Inr blob"
    by (simp add: encrypt_blob_with_nonce_def canonical_json_def example_prims_def)
  from decrypt_blob_binds_aad [OF example_prims_ok _ b, where aad' = 8 and key' = "[]"] b show ?thesis
    by (auto simp: example_prims_def)
qed

text \<open>
  Keys of different purposes are derived from different inputs: the keyed hash sees the same input
  for two of the purposes only when purpose and workspace id are the same, so a workspace id chosen
  by a server cannot make a pack key equal a commit key.
\<close>
theorem subkey_input_separates:
  assumes "purpose \<in> {PACK_KEY_PURPOSE, COMMIT_BODY_KEY_PURPOSE, CHECKPOINT_KEY_PURPOSE, WRAP_KEY_PURPOSE}"
    and "purpose' \<in> {PACK_KEY_PURPOSE, COMMIT_BODY_KEY_PURPOSE, CHECKPOINT_KEY_PURPOSE, WRAP_KEY_PURPOSE}"
    and "list_all valid_char ws" "list_all valid_char ws'"
    and "subkey_input purpose ws = subkey_input purpose' ws'"
  shows "purpose = purpose' \<and> ws = ws'"
proof -
  have sep: "takeWhile (\<lambda>b. b \<noteq> 0) (subkey_input p w) = as_bytes p"
    if "p \<in> {PACK_KEY_PURPOSE, COMMIT_BODY_KEY_PURPOSE, CHECKPOINT_KEY_PURPOSE, WRAP_KEY_PURPOSE}" for p w
    using that by (auto simp: subkey_input_def PACK_KEY_PURPOSE_def COMMIT_BODY_KEY_PURPOSE_def
        CHECKPOINT_KEY_PURPOSE_def WRAP_KEY_PURPOSE_def as_bytes_def utf8_char_def)
  have v: "list_all valid_char p"
    if "p \<in> {PACK_KEY_PURPOSE, COMMIT_BODY_KEY_PURPOSE, CHECKPOINT_KEY_PURPOSE, WRAP_KEY_PURPOSE}" for p
    using that by (auto simp: PACK_KEY_PURPOSE_def COMMIT_BODY_KEY_PURPOSE_def
        CHECKPOINT_KEY_PURPOSE_def WRAP_KEY_PURPOSE_def valid_char_def)
  have "as_bytes purpose = as_bytes purpose'" using sep [OF assms(1)] sep [OF assms(2)] assms(5) by metis
  moreover from this have "purpose = purpose'" by (rule utf8_text.encode_inj [OF v [OF assms(1)] v [OF assms(2)]])
  moreover from calculation have "as_bytes ws = as_bytes ws'" using assms(5) by (simp add: subkey_input_def)
  ultimately show ?thesis using utf8_text.encode_inj [OF assms(3,4)] by simp
qed

theorem subkey_input_separates_witness:
  "subkey_input PACK_KEY_PURPOSE (lit ''w'') \<noteq> subkey_input CHECKPOINT_KEY_PURPOSE (lit ''w'')"
  using subkey_input_separates [of PACK_KEY_PURPOSE CHECKPOINT_KEY_PURPOSE "lit ''w''" "lit ''w''"]
  by (auto simp: valid_char_def PACK_KEY_PURPOSE_def CHECKPOINT_KEY_PURPOSE_def)

end
