(* ===== verification/Sync_Packer.thy ===== *)
theory Sync_Packer
  imports Sync_Crypto Rust_Path
begin

text \<open>
  \<open>sync/packer.rs\<close>: the pack format. A pack is a tar archive with an index and one file per entry,
  compressed and encrypted. The libraries that read and write tar, JSON and zstd and the BLAKE3
  hash in hex are the fields of the parameter \<open>env\<close>; \<open>pack_env_ok\<close> states what is used of them:
  each reads back what it wrote. A tar entry is seen through \<open>Path::components\<close>; a name that is
  not UTF-8 is \<open>TarNormal None\<close>.
\<close>

section \<open>Data\<close>

record pack_entry_input =
  pi_entry_id :: rstr
  pi_plaintext :: bytes

record pack_index_entry =
  xe_entry_id :: rstr
  xe_plaintext_hash :: rstr
  xe_size_bytes :: int

record pack_index =
  px_format :: rstr
  px_version :: u8
  px_pack_id :: rstr
  px_entries :: "pack_index_entry list"

record unpacked_pack =
  up_index :: pack_index
  up_entries :: "rstr \<rightharpoonup> bytes"

record encrypted_pack =
  ep_object_id :: rstr
  ep_metadata :: encrypted_blob_metadata_t
  ep_blob :: bytes

definition PACK_INDEX_PATH :: rstr where
  "PACK_INDEX_PATH = lit ''pack-index.json''"

definition ENTRIES_DIR :: rstr where
  "ENTRIES_DIR = lit ''entries''"

text \<open>The ustar header that is written for every file, and what reading one entry yields.\<close>

record tar_header =
  th_is_file :: bool
  th_size :: nat
  th_mode :: nat
  th_uid :: nat
  th_gid :: nat
  th_mtime :: nat

type_synonym tar_file = "tar_header \<times> rstr \<times> bytes"

datatype tar_component = TarNormal "rstr option" | TarOther

record tar_item =
  ti_is_file :: bool
  ti_path :: "rstr + tar_component list"
  ti_content :: "rstr + bytes"

record pack_env =
  pv_hash :: "bytes \<Rightarrow> rstr"
  pv_index_json :: "pack_index \<Rightarrow> rstr + bytes"
  pv_index_parse :: "bytes \<Rightarrow> rstr + pack_index"
  pv_tar_build :: "tar_file list \<Rightarrow> rstr + bytes"
  pv_tar_read :: "bytes \<Rightarrow> rstr + tar_item list \<times> rstr option"
  pv_zstd_encode :: "bytes \<Rightarrow> rstr + bytes"
  pv_zstd_decode :: "bytes \<Rightarrow> rstr + bytes"

definition io_result :: "rstr + 'a \<Rightarrow> 'a sync_result" where
  "io_result r = (case r of Inl e \<Rightarrow> Inl (Storage e) | Inr x \<Rightarrow> Inr x)"

definition json_result :: "rstr + 'a \<Rightarrow> 'a sync_result" where
  "json_result r = (case r of Inl e \<Rightarrow> Inl (Serialization e) | Inr x \<Rightarrow> Inr x)"

section \<open>Writing a pack\<close>

definition validate_entry_id :: "rstr \<Rightarrow> unit sync_result" where
  "validate_entry_id entry_id =
     (if entry_id = [] \<or> entry_id = [dot] \<or> entry_id = [dot, dot] \<or> slash \<in> set entry_id \<or>
         backslash \<in> set entry_id \<or>
         \<not> list_all (\<lambda>ch. is_ascii_alphanumeric ch \<or> ch = 45 \<or> ch = 95 \<or> ch = dot) entry_id
      then Inl (InvalidArgument (lit ''invalid pack entry id'')) else Inr ())"

fun adjacent_duplicate :: "pack_entry_input list \<Rightarrow> bool" where
  "adjacent_duplicate (a # b # es) \<longleftrightarrow> pi_entry_id a = pi_entry_id b \<or> adjacent_duplicate (b # es)"
| "adjacent_duplicate _ = False"

definition append_canonical_file :: "tar_file list \<Rightarrow> rstr \<Rightarrow> bytes \<Rightarrow> tar_file list" where
  "append_canonical_file builder path bs =
     builder @ [(\<lparr>th_is_file = True, th_size = length bs, th_mode = 384, th_uid = 0, th_gid = 0, th_mtime = 0\<rparr>,
       path, bs)]"

definition entry_path :: "rstr \<Rightarrow> rstr" where
  "entry_path entry_id = ENTRIES_DIR @ [slash] @ entry_id"

definition pack_index_of :: "pack_env \<Rightarrow> rstr \<Rightarrow> pack_entry_input list \<Rightarrow> pack_index" where
  "pack_index_of env pack_id entries =
     \<lparr>px_format = lit ''kuku.sync.pack'', px_version = 1, px_pack_id = pack_id,
      px_entries = map (\<lambda>entry.
        \<lparr>xe_entry_id = pi_entry_id entry, xe_plaintext_hash = pv_hash env (pi_plaintext entry),
         xe_size_bytes = i64_saturating_len (length (pi_plaintext entry))\<rparr>) entries\<rparr>"

definition create_plain_pack :: "pack_env \<Rightarrow> rstr \<Rightarrow> pack_entry_input list \<Rightarrow> bytes sync_result" where
  "create_plain_pack env pack_id entries =
     (let entries = sort_key pi_entry_id entries
      in res_bind (res_map (\<lambda>entry. validate_entry_id (pi_entry_id entry)) entries) (\<lambda>_.
         if adjacent_duplicate entries then Inl (InvalidArgument (lit ''duplicate pack entry id''))
         else
           res_bind (json_result (pv_index_json env (pack_index_of env pack_id entries))) (\<lambda>index_json.
           io_result (pv_tar_build env
             (fold (\<lambda>entry builder. append_canonical_file builder (entry_path (pi_entry_id entry)) (pi_plaintext entry))
                entries (append_canonical_file [] PACK_INDEX_PATH index_json))))))"

section \<open>Reading a pack\<close>

fun tar_path_parts :: "tar_component list \<Rightarrow> rstr list \<Rightarrow> (rstr list) sync_result" where
  "tar_path_parts [] parts = Inr parts"
| "tar_path_parts (TarNormal value # cs) parts =
     (case value of
        None \<Rightarrow> Inl (Crypto (lit ''pack tar path is not utf-8''))
      | Some value \<Rightarrow>
          if value = [] then Inl (Crypto (lit ''pack tar path has empty segment''))
          else tar_path_parts cs (parts @ [value]))"
| "tar_path_parts (TarOther # cs) parts = Inl (Crypto (lit ''pack tar path traversal is not allowed''))"

definition validate_tar_path :: "tar_component list \<Rightarrow> rstr sync_result" where
  "validate_tar_path path =
     res_bind (tar_path_parts path []) (\<lambda>parts.
     if parts = [] then Inl (Crypto (lit ''pack tar path is empty''))
     else if length parts = 1 \<and> parts ! 0 = PACK_INDEX_PATH then Inr PACK_INDEX_PATH
     else if length parts = 2 \<and> parts ! 0 = ENTRIES_DIR
     then res_bind (validate_entry_id (parts ! 1)) (\<lambda>_. Inr (entry_path (parts ! 1)))
     else Inl (Crypto (lit ''unexpected pack tar path'')))"

definition read_tar_item :: "tar_item \<Rightarrow> (rstr \<times> bytes) list \<Rightarrow> ((rstr \<times> bytes) list) sync_result" where
  "read_tar_item entry files =
     (if \<not> ti_is_file entry then Inl (Crypto (lit ''pack contains non-file tar entry''))
      else
        res_bind (io_result (ti_path entry)) (\<lambda>raw.
        res_bind (validate_tar_path raw) (\<lambda>path.
        res_bind (io_result (ti_content entry)) (\<lambda>bs.
        if path \<in> fst ` set files then Inl (Crypto (lit ''duplicate pack tar path: '' @ path))
        else Inr (files @ [(path, bs)])))))"

definition read_canonical_tar_files :: "pack_env \<Rightarrow> bytes \<Rightarrow> ((rstr \<times> bytes) list) sync_result" where
  "read_canonical_tar_files env pack =
     res_bind (io_result (pv_tar_read env pack)) (\<lambda>(items, err).
     res_bind (res_fold read_tar_item items []) (\<lambda>files.
     case err of Some e \<Rightarrow> Inl (Storage e) | None \<Rightarrow> Inr files))"

definition unpack_entry ::
  "pack_env \<Rightarrow> (rstr \<times> bytes) list \<Rightarrow> pack_index_entry \<Rightarrow> (rstr \<rightharpoonup> bytes) \<Rightarrow> (rstr \<rightharpoonup> bytes) sync_result" where
  "unpack_entry env files item entries =
     res_bind (validate_entry_id (xe_entry_id item)) (\<lambda>_.
     res_bind (ok_or (map_of files (entry_path (xe_entry_id item)))
       (Crypto (lit ''pack entry missing: '' @ xe_entry_id item))) (\<lambda>bs.
     if i64_saturating_len (length bs) \<noteq> xe_size_bytes item
     then Inl (Crypto (lit ''pack entry size mismatch: '' @ xe_entry_id item))
     else if pv_hash env bs \<noteq> xe_plaintext_hash item
     then Inl (Crypto (lit ''pack entry hash mismatch: '' @ xe_entry_id item))
     else Inr (entries(xe_entry_id item \<mapsto> bs))))"

definition unpack_plain_pack :: "pack_env \<Rightarrow> bytes \<Rightarrow> unpacked_pack sync_result" where
  "unpack_plain_pack env pack =
     res_bind (read_canonical_tar_files env pack) (\<lambda>files.
     res_bind (ok_or (map_of files PACK_INDEX_PATH) (Crypto (lit ''pack index missing''))) (\<lambda>index_bytes.
     res_bind (json_result (pv_index_parse env index_bytes)) (\<lambda>index.
     if px_format index \<noteq> lit ''kuku.sync.pack'' \<or> px_version index \<noteq> 1
     then Inl (UnsupportedVersion (px_version index))
     else
       res_bind (res_fold (unpack_entry env files) (px_entries index) Map.empty) (\<lambda>entries.
       if length files \<noteq> length (px_entries index) + 1
       then Inl (Crypto (lit ''pack contains unreferenced entries''))
       else Inr \<lparr>up_index = index, up_entries = entries\<rparr>))))"

section \<open>Encrypted packs\<close>

definition object_key :: "crypto_prims \<Rightarrow> symmetric_key \<Rightarrow> rstr \<Rightarrow> rstr \<Rightarrow> symmetric_key sync_result" where
  "object_key prims workspace_key workspace_id object_kind =
     (if object_kind = lit ''content_pack'' then Inr (pack_key prims workspace_key workspace_id)
      else if object_kind = lit ''checkpoint_pack'' then Inr (checkpoint_key prims workspace_key workspace_id)
      else Inl (InvalidArgument (lit ''unsupported pack object kind'')))"

definition encrypt_pack ::
  "pack_env \<Rightarrow> crypto_prims \<Rightarrow> (pack_aad \<Rightarrow> rstr + bytes) \<Rightarrow> symmetric_key \<Rightarrow> rstr \<Rightarrow> rstr \<Rightarrow> rstr \<Rightarrow> rstr
    \<Rightarrow> pack_entry_input list \<Rightarrow> bytes \<Rightarrow> encrypted_pack sync_result" where
  "encrypt_pack env prims json workspace_key workspace_id object_id object_kind commit_id entries nonce =
     res_bind (create_plain_pack env object_id entries) (\<lambda>pack.
     res_bind (io_result (pv_zstd_encode env pack)) (\<lambda>compressed.
     res_bind (object_key prims workspace_key workspace_id object_kind) (\<lambda>key.
     res_bind (encrypt_blob_with_nonce prims json key
         (pack_aad_new workspace_id object_id object_kind commit_id) compressed nonce) (\<lambda>blob.
     Inr \<lparr>ep_object_id = object_id, ep_metadata = encrypted_blob_metadata prims blob, ep_blob = blob\<rparr>))))"

definition decrypt_pack ::
  "pack_env \<Rightarrow> crypto_prims \<Rightarrow> (pack_aad \<Rightarrow> rstr + bytes) \<Rightarrow> symmetric_key \<Rightarrow> rstr \<Rightarrow> rstr \<Rightarrow> rstr \<Rightarrow> rstr
    \<Rightarrow> bytes \<Rightarrow> unpacked_pack sync_result" where
  "decrypt_pack env prims json workspace_key workspace_id object_id object_kind commit_id blob =
     res_bind (object_key prims workspace_key workspace_id object_kind) (\<lambda>key.
     res_bind (decrypt_blob prims json key (pack_aad_new workspace_id object_id object_kind commit_id) blob) (\<lambda>compressed.
     res_bind (io_result (pv_zstd_decode env compressed)) (\<lambda>plain.
     res_bind (unpack_plain_pack env plain) (\<lambda>unpacked.
     if px_pack_id (up_index unpacked) \<noteq> object_id then Inl (Crypto (lit ''pack id mismatch''))
     else Inr unpacked))))"

section \<open>What is used of the libraries\<close>

fun tar_component_of :: "component \<Rightarrow> tar_component" where
  "tar_component_of (Normal s) = TarNormal (Some s)"
| "tar_component_of _ = TarOther"

definition tar_item_of :: "tar_file \<Rightarrow> tar_item" where
  "tar_item_of file = (case file of (header, path, bs) \<Rightarrow>
     \<lparr>ti_is_file = th_is_file header, ti_path = Inr (map tar_component_of (path_components path)), ti_content = Inr bs\<rparr>)"

definition pack_env_ok :: "pack_env \<Rightarrow> bool" where
  "pack_env_ok env \<longleftrightarrow>
     (\<forall>files bs. pv_tar_build env files = Inr bs \<longrightarrow> pv_tar_read env bs = Inr (map tar_item_of files, None)) \<and>
     (\<forall>index bs. pv_index_json env index = Inr bs \<longrightarrow> pv_index_parse env bs = Inr index) \<and>
     (\<forall>m c. pv_zstd_encode env m = Inr c \<longrightarrow> pv_zstd_decode env c = Inr m)"

lemma io_result_Inr [simp]: "io_result r = Inr x \<longleftrightarrow> r = Inr x"
  by (cases r) (auto simp: io_result_def)

lemma io_result_of_Inr [simp]: "io_result (Inr x) = Inr x"
  by (simp add: io_result_def)

lemma json_result_Inr [simp]: "json_result r = Inr x \<longleftrightarrow> r = Inr x"
  by (cases r) (auto simp: json_result_def)

section \<open>Entry ids and tar paths\<close>

definition entry_id_ok :: "rstr \<Rightarrow> bool" where
  "entry_id_ok i \<longleftrightarrow> validate_entry_id i = Inr ()"

lemma entry_id_ok_iff: "validate_entry_id i = Inr u \<longleftrightarrow> entry_id_ok i"
  by (simp add: entry_id_ok_def)

lemma entry_id_ok_good: "entry_id_ok i \<Longrightarrow> good_segment i"
  by (auto simp: entry_id_ok_def validate_entry_id_def good_segment_def split: if_splits)

lemma entries_dir_good: "good_segment ENTRIES_DIR" "good_segment PACK_INDEX_PATH"
  by (simp_all add: ENTRIES_DIR_def PACK_INDEX_PATH_def good_segment_def)

lemma entry_path_components: "entry_id_ok i \<Longrightarrow> path_components (entry_path i) = [Normal ENTRIES_DIR, Normal i]"
  using path_components_join [of "[ENTRIES_DIR, i]"] entries_dir_good entry_id_ok_good by (simp add: entry_path_def)

lemma index_path_components: "path_components PACK_INDEX_PATH = [Normal PACK_INDEX_PATH]"
  using path_components_join [of "[PACK_INDEX_PATH]"] entries_dir_good by simp

lemma entry_path_inj [simp]: "entry_path i = entry_path j \<longleftrightarrow> i = j"
  by (simp add: entry_path_def)

lemma entry_path_not_index [simp]: "entry_path i \<noteq> PACK_INDEX_PATH" "PACK_INDEX_PATH \<noteq> entry_path i"
  by (auto simp: entry_path_def PACK_INDEX_PATH_def ENTRIES_DIR_def)

lemma validate_entry_path:
  assumes "entry_id_ok i"
  shows "validate_tar_path (map tar_component_of (path_components (entry_path i))) = Inr (entry_path i)"
proof -
  have "i \<noteq> []" using entry_id_ok_good [OF assms] by (simp add: good_segment_def)
  moreover have "ENTRIES_DIR \<noteq> []" by (simp add: ENTRIES_DIR_def)
  ultimately show ?thesis using assms
    by (simp add: entry_path_components validate_tar_path_def entry_id_ok_def)
qed

lemma validate_index_path:
  "validate_tar_path (map tar_component_of (path_components PACK_INDEX_PATH)) = Inr PACK_INDEX_PATH"
proof -
  have "PACK_INDEX_PATH \<noteq> []" by (simp add: PACK_INDEX_PATH_def)
  then show ?thesis by (simp add: index_path_components validate_tar_path_def)
qed

section \<open>A pack is read back\<close>

definition file_header :: "bytes \<Rightarrow> tar_header" where
  "file_header bs = \<lparr>th_is_file = True, th_size = length bs, th_mode = 384, th_uid = 0, th_gid = 0, th_mtime = 0\<rparr>"

lemma append_fold:
  "fold (\<lambda>entry builder. append_canonical_file builder (entry_path (pi_entry_id entry)) (pi_plaintext entry)) es b =
     b @ map (\<lambda>e. (file_header (pi_plaintext e), entry_path (pi_entry_id e), pi_plaintext e)) es"
  by (induction es arbitrary: b) (auto simp: append_canonical_file_def file_header_def)

lemma adjacent_duplicate_sorted:
  "sorted (map pi_entry_id es) \<Longrightarrow> \<not> adjacent_duplicate es \<Longrightarrow> distinct (map pi_entry_id es)"
proof (induction es rule: adjacent_duplicate.induct)
  case (1 a b es)
  then have "pi_entry_id a < pi_entry_id b" and "\<forall>x\<in>set es. pi_entry_id b \<le> pi_entry_id x" by auto
  then have "pi_entry_id a \<notin> pi_entry_id ` set (b # es)" by (auto simp: image_iff)
  with 1 show ?case by auto
qed auto

lemma adjacent_duplicate_iff:
  "sorted (map pi_entry_id es) \<Longrightarrow> adjacent_duplicate es \<longleftrightarrow> \<not> distinct (map pi_entry_id es)"
proof
  show "adjacent_duplicate es \<Longrightarrow> \<not> distinct (map pi_entry_id es)"
    by (induction es rule: adjacent_duplicate.induct) auto
qed (use adjacent_duplicate_sorted in blast)

lemma read_tar_items:
  assumes "\<forall>e\<in>set es. entry_id_ok (pi_entry_id e)" "distinct (map pi_entry_id es)"
    and "\<forall>e\<in>set es. entry_path (pi_entry_id e) \<notin> fst ` set files"
  shows "res_fold read_tar_item
      (map tar_item_of (map (\<lambda>e. (file_header (pi_plaintext e), entry_path (pi_entry_id e), pi_plaintext e)) es)) files =
    Inr (files @ map (\<lambda>e. (entry_path (pi_entry_id e), pi_plaintext e)) es)"
  using assms
proof (induction es arbitrary: files)
  case (Cons e es)
  then have ok: "entry_id_ok (pi_entry_id e)" by simp
  have step: "read_tar_item (tar_item_of (file_header (pi_plaintext e), entry_path (pi_entry_id e), pi_plaintext e)) files =
      Inr (files @ [(entry_path (pi_entry_id e), pi_plaintext e)])"
    using Cons.prems(3) validate_entry_path [OF ok] by (simp add: read_tar_item_def tar_item_of_def file_header_def)
  have "\<forall>x\<in>set es. entry_path (pi_entry_id x) \<notin> fst ` set (files @ [(entry_path (pi_entry_id e), pi_plaintext e)])"
    using Cons.prems(2,3) by (auto simp: image_iff)
  then show ?case using Cons.IH [of "files @ [(entry_path (pi_entry_id e), pi_plaintext e)]"] Cons.prems(1,2) step
    by (simp add: tar_item_of_def)
qed simp

lemma unpack_entries_ok:
  assumes "\<forall>x\<in>set items. entry_id_ok (xe_entry_id x) \<and>
      (\<exists>bs. map_of files (entry_path (xe_entry_id x)) = Some bs \<and> i64_saturating_len (length bs) = xe_size_bytes x \<and>
        pv_hash env bs = xe_plaintext_hash x)"
  shows "res_fold (unpack_entry env files) items m =
    Inr (\<lambda>k. if k \<in> xe_entry_id ` set items then map_of files (entry_path k) else m k)"
  using assms
proof (induction items arbitrary: m)
  case (Cons x items)
  then obtain bs where "map_of files (entry_path (xe_entry_id x)) = Some bs"
    and "unpack_entry env files x m = Inr (m(xe_entry_id x \<mapsto> bs))"
    by (auto simp: unpack_entry_def entry_id_ok_def)
  with Cons show ?case by (auto simp: fun_eq_iff)
qed simp

text \<open>The entries of a pack as a map.\<close>

definition entries_map :: "pack_entry_input list \<Rightarrow> rstr \<rightharpoonup> bytes" where
  "entries_map es = map_of (map (\<lambda>e. (pi_entry_id e, pi_plaintext e)) es)"

lemma map_of_entry_paths:
  "map_of (map (\<lambda>e. (entry_path (pi_entry_id e), pi_plaintext e)) es) (entry_path k) = entries_map es k"
  by (induction es) (auto simp: entries_map_def)

lemma create_plain_pack_Inr:
  assumes "create_plain_pack env pack_id entries = Inr bs"
  defines "es \<equiv> sort_key pi_entry_id entries"
  shows "\<forall>e\<in>set es. entry_id_ok (pi_entry_id e)" "distinct (map pi_entry_id es)"
    "\<exists>j. pv_index_json env (pack_index_of env pack_id es) = Inr j \<and>
      pv_tar_build env ((file_header j, PACK_INDEX_PATH, j) #
        map (\<lambda>e. (file_header (pi_plaintext e), entry_path (pi_entry_id e), pi_plaintext e)) es) = Inr bs"
proof -
  from assms(1) obtain us j where v: "res_map (\<lambda>entry. validate_entry_id (pi_entry_id entry)) es = Inr us"
    and d: "\<not> adjacent_duplicate es" and j: "pv_index_json env (pack_index_of env pack_id es) = Inr j"
    and t: "pv_tar_build env ((file_header j, PACK_INDEX_PATH, j) #
        map (\<lambda>e. (file_header (pi_plaintext e), entry_path (pi_entry_id e), pi_plaintext e)) es) = Inr bs"
    unfolding create_plain_pack_def es_def [symmetric] Let_def append_fold
    by (auto simp: res_bind_eq_Inr append_canonical_file_def file_header_def split: if_splits)
  show "\<forall>e\<in>set es. entry_id_ok (pi_entry_id e)"
    using v unfolding res_map_Inr_list_all2 entry_id_ok_iff by (auto simp: list_all2_conv_all_nth in_set_conv_nth)
  show "distinct (map pi_entry_id es)" using d by (intro adjacent_duplicate_sorted) (simp_all add: es_def)
  show "\<exists>j. pv_index_json env (pack_index_of env pack_id es) = Inr j \<and>
      pv_tar_build env ((file_header j, PACK_INDEX_PATH, j) #
        map (\<lambda>e. (file_header (pi_plaintext e), entry_path (pi_entry_id e), pi_plaintext e)) es) = Inr bs"
    using j t by blast
qed

lemma entries_map_Some:
  "distinct (map pi_entry_id es) \<Longrightarrow> entries_map es k = Some v \<longleftrightarrow> (\<exists>e\<in>set es. pi_entry_id e = k \<and> pi_plaintext e = v)"
  unfolding entries_map_def by (subst map_of_eq_Some_iff) (auto simp: o_def)

lemma entries_map_None: "entries_map es k = None \<longleftrightarrow> k \<notin> pi_entry_id ` set es"
  by (simp add: entries_map_def map_of_eq_None_iff image_image)

lemma entries_map_sort:
  assumes "distinct (map pi_entry_id es)"
  shows "entries_map (sort_key pi_entry_id es) = entries_map es"
proof
  fix k
  have d: "distinct (map pi_entry_id (sort_key pi_entry_id es))" using assms by (simp add: distinct_map)
  have "entries_map (sort_key pi_entry_id es) k = Some v \<longleftrightarrow> entries_map es k = Some v" for v
    unfolding entries_map_Some [OF assms] entries_map_Some [OF d] by simp
  then show "entries_map (sort_key pi_entry_id es) k = entries_map es k" by (metis not_None_eq)
qed

lemma unpack_created:
  assumes "pack_env_ok env" "create_plain_pack env pack_id entries = Inr bs"
  shows "unpack_plain_pack env bs = Inr \<lparr>up_index = pack_index_of env pack_id (sort_key pi_entry_id entries),
    up_entries = entries_map (sort_key pi_entry_id entries)\<rparr>"
proof -
  let ?es = "sort_key pi_entry_id entries"
  note C = create_plain_pack_Inr [OF assms(2)]
  from C(3) obtain j where j: "pv_index_json env (pack_index_of env pack_id ?es) = Inr j"
    and t: "pv_tar_build env ((file_header j, PACK_INDEX_PATH, j) #
        map (\<lambda>e. (file_header (pi_plaintext e), entry_path (pi_entry_id e), pi_plaintext e)) ?es) = Inr bs" by blast
  let ?files = "(PACK_INDEX_PATH, j) # map (\<lambda>e. (entry_path (pi_entry_id e), pi_plaintext e)) ?es"
  have first: "read_tar_item (tar_item_of (file_header j, PACK_INDEX_PATH, j)) [] = Inr [(PACK_INDEX_PATH, j)]"
    using validate_index_path by (simp add: read_tar_item_def tar_item_of_def file_header_def)
  have "read_canonical_tar_files env bs = Inr ?files"
    using assms(1) t first read_tar_items [OF C(1,2), of "[(PACK_INDEX_PATH, j)]"]
    by (simp add: read_canonical_tar_files_def pack_env_ok_def)
  moreover have "pv_index_parse env j = Inr (pack_index_of env pack_id ?es)" using assms(1) j by (simp add: pack_env_ok_def)
  moreover have "res_fold (unpack_entry env ?files) (px_entries (pack_index_of env pack_id ?es)) Map.empty =
      Inr (entries_map ?es)"
  proof -
    have look: "map_of ?files (entry_path k) = entries_map ?es k" for k by (simp add: map_of_entry_paths)
    have mem: "entries_map ?es (pi_entry_id e) = Some (pi_plaintext e)" if "e \<in> set ?es" for e
      unfolding entries_map_def using C(2) that by (intro map_of_is_SomeI) (auto simp: o_def)
    have "res_fold (unpack_entry env ?files) (px_entries (pack_index_of env pack_id ?es)) Map.empty =
        Inr (\<lambda>k. if k \<in> xe_entry_id ` set (px_entries (pack_index_of env pack_id ?es)) then map_of ?files (entry_path k) else None)"
      by (rule unpack_entries_ok) (use C(1) mem look in \<open>auto simp: pack_index_of_def\<close>)
    moreover have "(if k \<in> pi_entry_id ` set ?es then entries_map ?es k else None) = entries_map ?es k" for k
      using entries_map_None [of ?es k] by auto
    ultimately show ?thesis unfolding look by (simp add: pack_index_of_def image_image)
  qed
  ultimately show ?thesis by (simp add: unpack_plain_pack_def pack_index_of_def json_result_def)
qed

lemma unpack_entries_only:
  assumes "res_fold (unpack_entry env files) items m = Inr m'"
  shows "\<forall>x\<in>set items. entry_id_ok (xe_entry_id x) \<and>
      (\<exists>bs. map_of files (entry_path (xe_entry_id x)) = Some bs \<and> i64_saturating_len (length bs) = xe_size_bytes x \<and>
        pv_hash env bs = xe_plaintext_hash x)"
  using assms
proof (induction items arbitrary: m)
  case (Cons x items)
  then obtain m1 where step: "unpack_entry env files x m = Inr m1"
    and rest: "res_fold (unpack_entry env files) items m1 = Inr m'" by (auto split: sum.splits)
  from step have "entry_id_ok (xe_entry_id x) \<and>
      (\<exists>bs. map_of files (entry_path (xe_entry_id x)) = Some bs \<and> i64_saturating_len (length bs) = xe_size_bytes x \<and>
        pv_hash env bs = xe_plaintext_hash x)"
    by (auto simp: unpack_entry_def res_bind_eq_Inr entry_id_ok_iff split: if_splits)
  with Cons.IH [OF rest] show ?case by simp
qed simp

lemma validate_all_ids:
  "(\<exists>us. res_map (\<lambda>entry. validate_entry_id (pi_entry_id entry)) es = Inr us) \<longleftrightarrow> (\<forall>e\<in>set es. entry_id_ok (pi_entry_id e))"
proof
  assume "\<exists>us. res_map (\<lambda>entry. validate_entry_id (pi_entry_id entry)) es = Inr us"
  then show "\<forall>e\<in>set es. entry_id_ok (pi_entry_id e)"
    unfolding res_map_Inr_list_all2 entry_id_ok_iff by (auto simp: list_all2_conv_all_nth in_set_conv_nth)
next
  assume "\<forall>e\<in>set es. entry_id_ok (pi_entry_id e)"
  then show "\<exists>us. res_map (\<lambda>entry. validate_entry_id (pi_entry_id entry)) es = Inr us"
    using res_map_all_Inr [of es "\<lambda>entry. validate_entry_id (pi_entry_id entry)" "\<lambda>_. ()"] by (auto simp: entry_id_ok_def)
qed

lemma validate_error: "res_map (\<lambda>entry. validate_entry_id (pi_entry_id entry)) es = Inl e \<Longrightarrow> \<exists>m. e = InvalidArgument m"
  by (induction es) (auto simp: validate_entry_id_def split: sum.splits if_splits)

section \<open>Claims\<close>

text \<open>
  A pack is read back exactly: unpacking what \<open>create_plain_pack\<close> wrote gives an index with the pack
  id and one line per entry, in the order of the entry ids, and the content of every entry; the
  result does not depend on the order in which the entries were given.
\<close>
theorem plain_pack_roundtrip:
  assumes "pack_env_ok env" "create_plain_pack env pack_id entries = Inr bs"
  shows "unpack_plain_pack env bs = Inr \<lparr>up_index = pack_index_of env pack_id (sort_key pi_entry_id entries),
    up_entries = entries_map entries\<rparr>"
proof -
  have "distinct (map pi_entry_id entries)" using create_plain_pack_Inr(2) [OF assms(2)] by (simp add: distinct_map)
  then show ?thesis using unpack_created [OF assms] by (simp add: entries_map_sort)
qed

text \<open>Libraries for the concrete instances, for packs with at most one short entry: a byte string that
  lists its parts.\<close>

definition example_index :: pack_index where
  "example_index = \<lparr>px_format = lit ''kuku.sync.pack'', px_version = 1, px_pack_id = lit ''p'',
     px_entries = [\<lparr>xe_entry_id = lit ''a'', xe_plaintext_hash = [], xe_size_bytes = 2\<rparr>]\<rparr>"

definition example_files :: "tar_file list" where
  "example_files = [(file_header [1], PACK_INDEX_PATH, [1]), (file_header [5, 6], entry_path (lit ''a''), [5, 6])]"

definition example_env :: pack_env where
  "example_env = \<lparr>pv_hash = (\<lambda>_. []),
     pv_index_json = (\<lambda>i. if i = example_index then Inr [1] else Inl []),
     pv_index_parse = (\<lambda>_. Inr example_index),
     pv_tar_build = (\<lambda>fs. if fs = example_files then Inr [7] else Inl []),
     pv_tar_read = (\<lambda>_. Inr (map tar_item_of example_files, None)),
     pv_zstd_encode = Inr, pv_zstd_decode = Inr\<rparr>"

lemma example_env_ok: "pack_env_ok example_env"
  by (simp add: pack_env_ok_def example_env_def)

lemma example_pack:
  "create_plain_pack example_env (lit ''p'') [\<lparr>pi_entry_id = lit ''a'', pi_plaintext = [5, 6]\<rparr>] = Inr [7]"
  by (simp add: create_plain_pack_def validate_entry_id_def is_ascii_alphanumeric_def is_ascii_alphabetic_def
      pack_index_of_def example_env_def example_index_def example_files_def i64_saturating_len_def i64_max_def
      json_result_def append_canonical_file_def file_header_def)

theorem plain_pack_roundtrip_witness:
  "\<exists>u. unpack_plain_pack example_env [7] = Inr u \<and> up_entries u (lit ''a'') = Some [5, 6]"
  using plain_pack_roundtrip [OF example_env_ok example_pack] by (simp add: entries_map_def)

lemma decrypt_encrypted_pack:
  assumes "pack_env_ok env" "aead_ok prims" "length nonce = 24"
    and "encrypt_pack env prims json workspace_key workspace_id object_id object_kind commit_id entries nonce = Inr pack"
  shows "decrypt_pack env prims json workspace_key workspace_id object_id object_kind commit_id (ep_blob pack) =
    Inr \<lparr>up_index = pack_index_of env object_id (sort_key pi_entry_id entries), up_entries = entries_map entries\<rparr>"
    and "distinct (map pi_entry_id entries)"
proof -
  from assms(4) obtain bs z key where c: "create_plain_pack env object_id entries = Inr bs"
    and z: "pv_zstd_encode env bs = Inr z" and key: "object_key prims workspace_key workspace_id object_kind = Inr key"
    and b: "encrypt_blob_with_nonce prims json key (pack_aad_new workspace_id object_id object_kind commit_id) z nonce =
      Inr (ep_blob pack)"
    by (auto simp: encrypt_pack_def res_bind_eq_Inr)
  have "decrypt_blob prims json key (pack_aad_new workspace_id object_id object_kind commit_id) (ep_blob pack) = Inr z"
    by (rule decrypt_blob_encrypt [OF assms(2,3) b])
  moreover have "pv_zstd_decode env z = Inr bs" using assms(1) z by (simp add: pack_env_ok_def)
  moreover show d: "distinct (map pi_entry_id entries)" using create_plain_pack_Inr(2) [OF c] by (simp add: distinct_map)
  ultimately show "decrypt_pack env prims json workspace_key workspace_id object_id object_kind commit_id (ep_blob pack) =
    Inr \<lparr>up_index = pack_index_of env object_id (sort_key pi_entry_id entries), up_entries = entries_map entries\<rparr>"
    using key unpack_created [OF assms(1) c] by (simp add: decrypt_pack_def entries_map_sort) (simp add: pack_index_of_def)
qed

text \<open>
  C34. The encrypted form is read back as well: decrypting an encrypted pack with the same workspace key,
  workspace, object, kind and commit gives the entries that were packed.
\<close>
theorem encrypted_pack_roundtrip:
  assumes "pack_env_ok env" "aead_ok prims" "length nonce = 24"
    and "encrypt_pack env prims json workspace_key workspace_id object_id object_kind commit_id entries nonce = Inr pack"
  shows "decrypt_pack env prims json workspace_key workspace_id object_id object_kind commit_id (ep_blob pack) =
    Inr \<lparr>up_index = pack_index_of env object_id (sort_key pi_entry_id entries), up_entries = entries_map entries\<rparr>"
  by (rule decrypt_encrypted_pack(1) [OF assms])

theorem encrypted_pack_roundtrip_witness:
  "\<exists>pack u. encrypt_pack example_env example_prims (\<lambda>_. Inr []) [] (lit ''w'') (lit ''p'') (lit ''content_pack'') (lit ''c'')
       [\<lparr>pi_entry_id = lit ''a'', pi_plaintext = [5, 6]\<rparr>] (replicate 24 0) = Inr pack \<and>
     decrypt_pack example_env example_prims (\<lambda>_. Inr []) [] (lit ''w'') (lit ''p'') (lit ''content_pack'') (lit ''c'')
       (ep_blob pack) = Inr u \<and> up_entries u (lit ''a'') = Some [5, 6]"
proof -
  have z: "pv_zstd_encode example_env [7] = Inr [7]" by (simp add: example_env_def)
  obtain pack where p: "encrypt_pack example_env example_prims (\<lambda>_. Inr []) [] (lit ''w'') (lit ''p'')
      (lit ''content_pack'') (lit ''c'') [\<lparr>pi_entry_id = lit ''a'', pi_plaintext = [5, 6]\<rparr>] (replicate 24 0) = Inr pack"
    unfolding encrypt_pack_def example_pack
    by (simp add: z object_key_def encrypt_blob_with_nonce_def canonical_json_def example_prims_def)
  from encrypted_pack_roundtrip [OF example_env_ok example_prims_ok _ p] p show ?thesis by (simp add: entries_map_def)
qed

text \<open>
  A pack that unpacks is intact: whatever the bytes, every line of the index has an entry whose
  size and hash are the recorded ones and whose id is a plain file name, and the result has no
  entries but those of the index.
\<close>
theorem unpack_plain_pack_intact:
  assumes "unpack_plain_pack env bs = Inr u"
  shows "list_all (\<lambda>x. good_segment (xe_entry_id x) \<and> backslash \<notin> set (xe_entry_id x) \<and>
      (\<exists>b. up_entries u (xe_entry_id x) = Some b \<and> pv_hash env b = xe_plaintext_hash x \<and>
        i64_saturating_len (length b) = xe_size_bytes x)) (px_entries (up_index u)) \<and>
    dom (up_entries u) = xe_entry_id ` set (px_entries (up_index u))"
proof -
  from assms obtain files where run: "res_fold (unpack_entry env files) (px_entries (up_index u)) Map.empty = Inr (up_entries u)"
    by (auto simp: unpack_plain_pack_def res_bind_eq_Inr split: if_splits)
  note only = unpack_entries_only [OF run]
  have e: "up_entries u = (\<lambda>k. if k \<in> xe_entry_id ` set (px_entries (up_index u)) then map_of files (entry_path k) else None)"
    using unpack_entries_ok [OF only, of Map.empty] run by simp
  have bs: "backslash \<notin> set i" if "entry_id_ok i" for i
    using that by (auto simp: entry_id_ok_def validate_entry_id_def split: if_splits)
  have "\<exists>b. up_entries u (xe_entry_id x) = Some b \<and> pv_hash env b = xe_plaintext_hash x \<and>
        i64_saturating_len (length b) = xe_size_bytes x" if "x \<in> set (px_entries (up_index u))" for x
    using only that unfolding e by auto
  moreover have "dom (up_entries u) = xe_entry_id ` set (px_entries (up_index u))"
    using only unfolding e by (auto simp: dom_def split: if_splits)
  ultimately show ?thesis using only bs entry_id_ok_good by (auto simp: list_all_iff)
qed

theorem unpack_plain_pack_intact_witness:
  "\<exists>u. unpack_plain_pack example_env [7] = Inr u \<and> dom (up_entries u) = {lit ''a''}"
proof -
  obtain u where u: "unpack_plain_pack example_env [7] = Inr u" "up_index u = pack_index_of example_env (lit ''p'')
      [\<lparr>pi_entry_id = lit ''a'', pi_plaintext = [5, 6]\<rparr>]"
    using unpack_created [OF example_env_ok example_pack] by simp
  show ?thesis using unpack_plain_pack_intact [OF u(1)] u by (auto simp: pack_index_of_def)
qed

text \<open>
  A pack with an unsafe or duplicate entry id is never written: an id that is empty, a dot
  segment, or has a character other than letters, digits, dash, underscore and dot, and two entries
  with the same id, are refused with an argument error.
\<close>
theorem create_plain_pack_rejects:
  assumes "\<not> (distinct (map pi_entry_id entries) \<and> list_all (\<lambda>e. validate_entry_id (pi_entry_id e) = Inr ()) entries)"
  shows "\<exists>m. create_plain_pack env pack_id entries = Inl (InvalidArgument m)"
proof (cases "res_map (\<lambda>entry. validate_entry_id (pi_entry_id entry)) (sort_key pi_entry_id entries)")
  case (Inl e)
  then show ?thesis using validate_error [OF Inl] by (auto simp: create_plain_pack_def Let_def)
next
  case (Inr us)
  then have "\<forall>e\<in>set entries. entry_id_ok (pi_entry_id e)" using validate_all_ids [of "sort_key pi_entry_id entries"] by auto
  with assms have "\<not> distinct (map pi_entry_id entries)" by (auto simp: list_all_iff entry_id_ok_def)
  then have "adjacent_duplicate (sort_key pi_entry_id entries)"
    using adjacent_duplicate_iff [of "sort_key pi_entry_id entries"] by (simp add: distinct_map)
  then show ?thesis using Inr by (simp add: create_plain_pack_def Let_def)
qed

theorem create_plain_pack_rejects_witness:
  "\<exists>m. create_plain_pack example_env (lit ''p'') [\<lparr>pi_entry_id = lit ''../a'', pi_plaintext = []\<rparr>] = Inl (InvalidArgument m)"
  by (rule create_plain_pack_rejects) (simp add: validate_entry_id_def)

text \<open>The check for unreferenced entries counts lines of the index, not distinct ids: an index that
  lists an entry twice makes room for a file that no line refers to.\<close>

lemma unpack_accepts_hidden_entry:
  defines "line \<equiv> \<lparr>xe_entry_id = lit ''a'', xe_plaintext_hash = [], xe_size_bytes = 0\<rparr>"
  defines "env \<equiv> example_env\<lparr>
     pv_index_parse := (\<lambda>_. Inr \<lparr>px_format = lit ''kuku.sync.pack'', px_version = 1, px_pack_id = lit ''p'', px_entries = [line, line]\<rparr>),
     pv_tar_read := (\<lambda>_. Inr (map tar_item_of [(file_header [], PACK_INDEX_PATH, []),
       (file_header [], entry_path (lit ''a''), []), (file_header [9], entry_path (lit ''hidden''), [9])], None))\<rparr>"
  shows "\<exists>u files. unpack_plain_pack env [] = Inr u \<and> read_canonical_tar_files env [] = Inr files \<and>
    (entry_path (lit ''hidden''), [9]) \<in> set files \<and> lit ''hidden'' \<notin> dom (up_entries u)"
proof -
  have ok: "entry_id_ok (lit ''a'')" "entry_id_ok (lit ''hidden'')"
    by (simp_all add: entry_id_ok_def validate_entry_id_def is_ascii_alphanumeric_def is_ascii_alphabetic_def)
  let ?files = "[(PACK_INDEX_PATH, []), (entry_path (lit ''a''), []), (entry_path (lit ''hidden''), [9 :: u8])]"
  have r: "read_canonical_tar_files env [] = Inr ?files"
    using validate_index_path validate_entry_path [OF ok(1)] validate_entry_path [OF ok(2)]
    by (simp add: env_def read_canonical_tar_files_def read_tar_item_def tar_item_of_def file_header_def)
  have "unpack_plain_pack env [] = Inr \<lparr>up_index = \<lparr>px_format = lit ''kuku.sync.pack'', px_version = 1,
      px_pack_id = lit ''p'', px_entries = [line, line]\<rparr>, up_entries = [lit ''a'' \<mapsto> []]\<rparr>"
    using ok(1) unfolding unpack_plain_pack_def r
    by (simp add: env_def example_env_def json_result_def unpack_entry_def line_def entry_id_ok_def
        i64_saturating_len_def i64_max_def)
  with r show ?thesis by auto
qed

end
