(* ===== verification/Sync_Planner.thy ===== *)
theory Sync_Planner
  imports Sync_Scanner Sync_Packer
begin

text \<open>
  \<open>sync/planner.rs\<close>: how scanned files become the tree, the file operations and the pack shards of a
  commit. A shard collects files in path order up to a number of plaintext bytes. The BLAKE3 hash
  in hex is \<open>hash\<close>, \<open>serde_json::to_vec\<close> on the tree is \<open>to_vec\<close>. The \<open>i64\<close> additions of the
  shard loop wrap (\<open>i64_add\<close>).
\<close>

section \<open>Data\<close>

datatype commit_plan_kind = Checkpoint | Incremental | MergeCommit

record planner_config =
  max_pack_plaintext_bytes :: int

definition CONTENT_PACK_KIND :: rstr where
  "CONTENT_PACK_KIND = lit ''content_pack''"

definition CHECKPOINT_PACK_KIND :: rstr where
  "CHECKPOINT_PACK_KIND = lit ''checkpoint_pack''"

definition DEFAULT_MAX_PACK_PLAINTEXT_BYTES :: int where
  "DEFAULT_MAX_PACK_PLAINTEXT_BYTES = 28 * 1024 * 1024"

definition default_planner_config :: planner_config where
  "default_planner_config = \<lparr>max_pack_plaintext_bytes = DEFAULT_MAX_PACK_PLAINTEXT_BYTES\<rparr>"

record planned_tree_entry =
  pt_file_id :: rstr
  pt_path :: rstr
  pt_normalized_path :: rstr
  pt_plaintext_hash :: rstr
  pt_size_bytes :: int
  pt_kind :: rstr
  pt_pack_ref :: "rstr option"
  pt_pack_entry_id :: "rstr option"

definition cache_record :: "planned_tree_entry \<Rightarrow> rstr \<Rightarrow> rstr option \<Rightarrow> sync_tree_entry_record" where
  "cache_record entry commit_id content_object_id =
     \<lparr>te_commit_id = commit_id, te_file_id = pt_file_id entry, te_normalized_path = pt_normalized_path entry,
      te_plaintext_hash = Some (pt_plaintext_hash entry), te_content_object_id = content_object_id,
      te_pack_entry_id = pt_pack_entry_id entry, te_kind = pt_kind entry\<rparr>"

text \<open>\<open>Upsert\<close> carries the file id, path, normalized path, hash, size, pack and pack entry;
  \<open>Delete\<close> the file id, path and normalized path.\<close>

datatype plan_file_op =
    Upsert rstr rstr rstr rstr int rstr rstr
  | Delete rstr rstr rstr

record pack_entry_plan =
  pe_entry_id :: rstr
  pe_file_id :: rstr
  pe_normalized_path :: rstr
  pe_plaintext_hash :: rstr
  pe_size_bytes :: int
  pe_plaintext :: bytes

record pack_shard_plan =
  ps_pack_ref :: rstr
  ps_pack_kind :: rstr
  ps_shard_index :: nat
  ps_total_plaintext_bytes :: int
  ps_entries :: "pack_entry_plan list"

record sync_plan =
  pl_commit_kind :: commit_plan_kind
  pl_tree_id :: rstr
  pl_tree_entries :: "planned_tree_entry list"
  pl_file_ops :: "plan_file_op list"
  pl_pack_shards :: "pack_shard_plan list"

definition plan_is_empty :: "sync_plan \<Rightarrow> bool" where
  "plan_is_empty plan \<longleftrightarrow> pl_file_ops plan = [] \<and> pl_pack_shards plan = []"

definition pack_entries :: "pack_shard_plan \<Rightarrow> pack_entry_input list" where
  "pack_entries shard =
     map (\<lambda>entry. \<lparr>pi_entry_id = pe_entry_id entry, pi_plaintext = pe_plaintext entry\<rparr>) (ps_entries shard)"

section \<open>Sizes in messages\<close>

text \<open>\<open>i64 as f64\<close> for a value that is not negative: 53 significant bits, ties to even. The division by
  \<open>1024.0 * 1024.0\<close> is exact, and \<open>{:.1}\<close> rounds the exact quotient to tenths, ties to even.\<close>

definition round_div_even :: "nat \<Rightarrow> nat \<Rightarrow> nat" where
  "round_div_even a b =
     (let q = a div b; r = a mod b
      in if 2 * r < b then q else if b < 2 * r then q + 1 else if even q then q else q + 1)"

fun f64_ulp :: "nat \<Rightarrow> nat" where
  "f64_ulp n = (if n < 9007199254740992 then 1 else 2 * f64_ulp (n div 2))"

declare f64_ulp.simps [simp del]

definition f64_of_nat :: "nat \<Rightarrow> nat" where
  "f64_of_nat n = round_div_even n (f64_ulp n) * f64_ulp n"

definition format_size_mb :: "int \<Rightarrow> rstr" where
  "format_size_mb n =
     (let tenths = round_div_even (10 * f64_of_nat (nat (max n 0))) 1048576
      in nat_digits (tenths div 10) @ [dot] @ nat_digits (tenths mod 10))"

section \<open>Packs\<close>

definition pack_entry_id :: "(bytes \<Rightarrow> rstr) \<Rightarrow> rstr \<Rightarrow> rstr \<Rightarrow> rstr" where
  "pack_entry_id hash file_id plaintext_hash =
     lit ''entry_'' @ take 32 (hash (as_bytes file_id @ [0] @ as_bytes plaintext_hash))"

definition pack_shard :: "rstr \<Rightarrow> nat \<Rightarrow> int \<Rightarrow> pack_entry_plan list \<Rightarrow> pack_shard_plan" where
  "pack_shard pack_kind shard_index total_plaintext_bytes entries =
     \<lparr>ps_pack_ref = pack_kind @ lit ''-'' @ nat_digits shard_index, ps_pack_kind = pack_kind,
      ps_shard_index = shard_index, ps_total_plaintext_bytes = total_plaintext_bytes, ps_entries = entries\<rparr>"

definition entry_of_file :: "(bytes \<Rightarrow> rstr) \<Rightarrow> scanned_file \<Rightarrow> pack_entry_plan" where
  "entry_of_file hash file =
     \<lparr>pe_entry_id = pack_entry_id hash (scf_file_id file) (scf_plaintext_hash file),
      pe_file_id = scf_file_id file, pe_normalized_path = scf_normalized_path file,
      pe_plaintext_hash = scf_plaintext_hash file, pe_size_bytes = scf_size_bytes file,
      pe_plaintext = scf_plaintext file\<rparr>"

definition size_limit_error :: "scanned_file \<Rightarrow> planner_config \<Rightarrow> sync_error" where
  "size_limit_error file config =
     QuotaExceeded (lit ''file exceeds sync size limit: '' @ scf_path file @ lit '' ('' @
       format_size_mb (scf_size_bytes file) @ lit '' MB, limit '' @
       format_size_mb (max_pack_plaintext_bytes config) @ lit '' MB)'')"

fun assign_loop ::
  "(bytes \<Rightarrow> rstr) \<Rightarrow> rstr \<Rightarrow> planner_config \<Rightarrow> scanned_file list \<Rightarrow> pack_shard_plan list \<Rightarrow> pack_entry_plan list
    \<Rightarrow> int \<Rightarrow> (pack_shard_plan list) sync_result" where
  "assign_loop hash pack_kind config [] shards current_entries current_bytes =
     Inr (if current_entries \<noteq> []
          then shards @ [pack_shard pack_kind (length shards) current_bytes current_entries]
          else shards)"
| "assign_loop hash pack_kind config (file # files) shards current_entries current_bytes =
     (if max_pack_plaintext_bytes config < scf_size_bytes file
      then Inl (size_limit_error file config)
      else if current_entries \<noteq> [] \<and>
          max_pack_plaintext_bytes config < i64_add current_bytes (scf_size_bytes file)
      then assign_loop hash pack_kind config files
             (shards @ [pack_shard pack_kind (length shards) current_bytes current_entries])
             [entry_of_file hash file] (i64_add 0 (scf_size_bytes file))
      else assign_loop hash pack_kind config files shards
             (current_entries @ [entry_of_file hash file]) (i64_add current_bytes (scf_size_bytes file)))"

definition assign_pack_entries ::
  "(bytes \<Rightarrow> rstr) \<Rightarrow> scanned_file list \<Rightarrow> rstr \<Rightarrow> planner_config \<Rightarrow> (pack_shard_plan list) sync_result" where
  "assign_pack_entries hash files pack_kind config =
     assign_loop hash pack_kind config (sort_key scf_normalized_path files) [] [] 0"

section \<open>Plans\<close>

fun plan_file_op_sort_key :: "plan_file_op \<Rightarrow> rstr \<times> rstr" where
  "plan_file_op_sort_key (Upsert _ _ normalized_path _ _ _ _) = (lit ''0'', normalized_path)"
| "plan_file_op_sort_key (Delete _ _ normalized_path) = (lit ''1'', normalized_path)"

definition compute_tree_id ::
  "(bytes \<Rightarrow> rstr) \<Rightarrow> (planned_tree_entry list \<Rightarrow> rstr + bytes) \<Rightarrow> planned_tree_entry list \<Rightarrow> rstr sync_result" where
  "compute_tree_id hash to_vec entries =
     (case to_vec entries of
        Inl e \<Rightarrow> Inl (Serialization e)
      | Inr json \<Rightarrow> Inr (lit ''tree_'' @ take 32 (hash json)))"

definition validate_config :: "planner_config \<Rightarrow> unit sync_result" where
  "validate_config config =
     res_guard (\<not> max_pack_plaintext_bytes config \<le> 0)
       (InvalidArgument (lit ''max_pack_plaintext_bytes must be positive''))"

text \<open>A \<open>BTreeMap\<close> filled in order: the last insertion of a key wins.\<close>

definition btree_of :: "('k \<times> 'v) list \<Rightarrow> 'k \<rightharpoonup> 'v" where
  "btree_of kvs = map_of (rev kvs)"

definition entry_refs :: "pack_shard_plan list \<Rightarrow> rstr \<rightharpoonup> rstr \<times> rstr" where
  "entry_refs pack_shards =
     btree_of (concat (map (\<lambda>shard. map (\<lambda>entry.
       (pe_normalized_path entry, (ps_pack_ref shard, pe_entry_id entry))) (ps_entries shard)) pack_shards))"

definition plan_upsert ::
  "(rstr \<rightharpoonup> rstr \<times> rstr) \<Rightarrow> scanned_file \<Rightarrow> (planned_tree_entry \<times> plan_file_op) sync_result" where
  "plan_upsert refs file =
     (case refs (scf_normalized_path file) of
        None \<Rightarrow> Inl (InvalidArgument (lit ''missing pack assignment for '' @ scf_normalized_path file))
      | Some (pack_ref, entry_id) \<Rightarrow>
          Inr (\<lparr>pt_file_id = scf_file_id file, pt_path = scf_path file,
                pt_normalized_path = scf_normalized_path file, pt_plaintext_hash = scf_plaintext_hash file,
                pt_size_bytes = scf_size_bytes file, pt_kind = FILE_KIND_MARKDOWN,
                pt_pack_ref = Some pack_ref, pt_pack_entry_id = Some entry_id\<rparr>,
               Upsert (scf_file_id file) (scf_path file) (scf_normalized_path file)
                 (scf_plaintext_hash file) (scf_size_bytes file) pack_ref entry_id))"

definition plan_delete :: "sync_file_record \<Rightarrow> plan_file_op" where
  "plan_delete deleted = Delete (sf_file_id deleted) (sf_path deleted) (sf_normalized_path deleted)"

definition build_plan ::
  "(bytes \<Rightarrow> rstr) \<Rightarrow> (planned_tree_entry list \<Rightarrow> rstr + bytes) \<Rightarrow> commit_plan_kind \<Rightarrow> scanned_file list
    \<Rightarrow> sync_file_record list \<Rightarrow> pack_shard_plan list \<Rightarrow> sync_plan sync_result" where
  "build_plan hash to_vec commit_kind upserts deletions pack_shards =
     res_bind (res_map (plan_upsert (entry_refs pack_shards)) upserts) (\<lambda>pairs.
     let tree_entries = sort_key pt_normalized_path (map fst pairs);
         file_ops = sort_key plan_file_op_sort_key (map snd pairs @ map plan_delete deletions)
     in res_bind (compute_tree_id hash to_vec tree_entries) (\<lambda>tree_id.
        Inr \<lparr>pl_commit_kind = commit_kind, pl_tree_id = tree_id, pl_tree_entries = tree_entries,
             pl_file_ops = file_ops, pl_pack_shards = pack_shards\<rparr>))"

definition plan_checkpoint ::
  "(bytes \<Rightarrow> rstr) \<Rightarrow> (planned_tree_entry list \<Rightarrow> rstr + bytes) \<Rightarrow> scanned_file list \<Rightarrow> planner_config
    \<Rightarrow> sync_plan sync_result" where
  "plan_checkpoint hash to_vec scanned_files config =
     res_bind (validate_config config) (\<lambda>_.
     res_bind (assign_pack_entries hash scanned_files CHECKPOINT_PACK_KIND config) (\<lambda>pack_assignments.
     build_plan hash to_vec Checkpoint scanned_files [] pack_assignments))"

definition dirty_upsert :: "(rstr \<rightharpoonup> scanned_file) \<Rightarrow> sync_file_record \<Rightarrow> scanned_file list \<Rightarrow> (scanned_file list) sync_result" where
  "dirty_upsert scanned_by_path row upserts =
     (if \<not> sf_dirty row \<or> sf_deleted row then Inr upserts
      else case scanned_by_path (sf_normalized_path row) of
             None \<Rightarrow> Inl (InvalidArgument (lit ''dirty sync file missing scanner content: '' @ sf_normalized_path row))
           | Some scanned \<Rightarrow> Inr (upserts @ [scanned]))"

definition plan_incremental ::
  "(bytes \<Rightarrow> rstr) \<Rightarrow> (planned_tree_entry list \<Rightarrow> rstr + bytes) \<Rightarrow> scan_apply_result \<Rightarrow> scanned_file list
    \<Rightarrow> planner_config \<Rightarrow> sync_plan sync_result" where
  "plan_incremental hash to_vec scan_result scanned_files config =
     res_bind (validate_config config) (\<lambda>_.
     let scanned_by_path = btree_of (map (\<lambda>file. (scf_normalized_path file, file)) scanned_files)
     in res_bind (res_fold (dirty_upsert scanned_by_path) (sar_upserts scan_result) []) (\<lambda>upserts.
        res_bind (assign_pack_entries hash upserts CONTENT_PACK_KIND config) (\<lambda>pack_assignments.
        build_plan hash to_vec Incremental upserts (sar_deletions scan_result) pack_assignments)))"

section \<open>Shards\<close>

definition shard_ok :: "rstr \<Rightarrow> int \<Rightarrow> nat \<Rightarrow> pack_shard_plan \<Rightarrow> bool" where
  "shard_ok pack_kind limit i s \<longleftrightarrow> ps_entries s \<noteq> [] \<and>
     ps_total_plaintext_bytes s = sum_list (map pe_size_bytes (ps_entries s)) \<and>
     ps_total_plaintext_bytes s \<le> limit \<and> ps_shard_index s = i \<and> ps_pack_kind s = pack_kind \<and>
     ps_pack_ref s = pack_kind @ lit ''-'' @ nat_digits i"

definition first_size :: "pack_shard_plan \<Rightarrow> int" where
  "first_size s = pe_size_bytes (hd (ps_entries s))"

text \<open>No shard could have taken the first file of the next one.\<close>

fun greedy :: "int \<Rightarrow> pack_shard_plan list \<Rightarrow> bool" where
  "greedy limit (s # t # ss) \<longleftrightarrow> limit < ps_total_plaintext_bytes s + first_size t \<and> greedy limit (t # ss)"
| "greedy limit _ = True"

lemma greedy_snoc:
  "greedy limit (ss @ [t]) \<longleftrightarrow>
     greedy limit ss \<and> (ss = [] \<or> limit < ps_total_plaintext_bytes (last ss) + first_size t)"
  by (induction limit ss rule: greedy.induct) auto

definition all_shards_ok :: "rstr \<Rightarrow> int \<Rightarrow> pack_shard_plan list \<Rightarrow> bool" where
  "all_shards_ok pack_kind limit ss \<longleftrightarrow> (\<forall>i<length ss. shard_ok pack_kind limit i (ss ! i)) \<and> greedy limit ss"

lemma all_shards_ok_snoc:
  assumes "all_shards_ok pack_kind limit ss" "cur \<noteq> []" "bytes = sum_list (map pe_size_bytes cur)" "bytes \<le> limit"
    and "ss \<noteq> [] \<Longrightarrow> limit < ps_total_plaintext_bytes (last ss) + pe_size_bytes (hd cur)"
  shows "all_shards_ok pack_kind limit (ss @ [pack_shard pack_kind (length ss) bytes cur])"
  using assms
  by (auto simp: all_shards_ok_def greedy_snoc shard_ok_def pack_shard_def first_size_def nth_append less_Suc_eq)

lemma entry_size [simp]: "pe_size_bytes (entry_of_file hash f) = scf_size_bytes f"
  by (simp add: entry_of_file_def)

lemma assign_loop_too_large:
  "assign_loop hash kind config files ss cur bytes = Inl e \<longleftrightarrow>
     (\<exists>f. find (\<lambda>f. max_pack_plaintext_bytes config < scf_size_bytes f) files = Some f \<and> e = size_limit_error f config)"
  by (induction hash kind config files ss cur bytes rule: assign_loop.induct) auto

text \<open>What the loop keeps: finished shards, an open shard within the limit, and why it was opened.\<close>

definition loop_inv :: "rstr \<Rightarrow> int \<Rightarrow> pack_shard_plan list \<Rightarrow> pack_entry_plan list \<Rightarrow> int \<Rightarrow> bool" where
  "loop_inv kind limit ss cur bytes \<longleftrightarrow> all_shards_ok kind limit ss \<and>
     bytes = sum_list (map pe_size_bytes cur) \<and> 0 \<le> bytes \<and> bytes \<le> limit \<and>
     (ss = [] \<or> cur \<noteq> [] \<and> limit < ps_total_plaintext_bytes (last ss) + pe_size_bytes (hd cur))"

lemma loop_inv_close:
  assumes "loop_inv kind limit ss cur bytes" "cur \<noteq> []"
  shows "all_shards_ok kind limit (ss @ [pack_shard kind (length ss) bytes cur])"
  using assms by (intro all_shards_ok_snoc) (auto simp: loop_inv_def)

lemma loop_inv_next:
  assumes "loop_inv kind limit ss cur bytes" "cur \<noteq> []" "limit < bytes + pe_size_bytes e"
    and "0 \<le> pe_size_bytes e" "pe_size_bytes e \<le> limit"
  shows "loop_inv kind limit (ss @ [pack_shard kind (length ss) bytes cur]) [e] (pe_size_bytes e)"
  using assms loop_inv_close [OF assms(1,2)] by (auto simp: loop_inv_def pack_shard_def)

lemma loop_inv_add:
  assumes "loop_inv kind limit ss cur bytes" "bytes + pe_size_bytes e \<le> limit" "0 \<le> pe_size_bytes e"
  shows "loop_inv kind limit ss (cur @ [e]) (bytes + pe_size_bytes e)"
  using assms by (cases cur) (auto simp: loop_inv_def)

lemma i64_add_small: "0 \<le> a \<Longrightarrow> a \<le> m \<Longrightarrow> 0 \<le> b \<Longrightarrow> b \<le> m \<Longrightarrow> 2 * m \<le> i64_max \<Longrightarrow> i64_add a b = a + b"
  unfolding i64_add_def by (rule wrap_i64_id) auto

lemma assign_loop_ok:
  assumes "assign_loop hash kind config files ss cur bytes = Inr result"
    and "loop_inv kind (max_pack_plaintext_bytes config) ss cur bytes"
    and "\<forall>f\<in>set files. 0 \<le> scf_size_bytes f" "2 * max_pack_plaintext_bytes config \<le> i64_max"
  shows "all_shards_ok kind (max_pack_plaintext_bytes config) result \<and>
    concat (map ps_entries result) = concat (map ps_entries ss) @ cur @ map (entry_of_file hash) files"
  using assms
proof (induction files arbitrary: ss cur bytes)
  case Nil
  then show ?case using loop_inv_close [of kind _ ss cur bytes]
    by (auto simp: loop_inv_def pack_shard_def split: if_splits)
next
  case (Cons f files)
  let ?m = "max_pack_plaintext_bytes config" and ?e = "entry_of_file hash f"
  have small: "scf_size_bytes f \<le> ?m" using Cons.prems(1) by (simp split: if_splits)
  have sizes: "0 \<le> scf_size_bytes f" "0 \<le> bytes" "bytes \<le> ?m"
    using Cons.prems(2,3) by (auto simp: loop_inv_def)
  have add: "i64_add bytes (scf_size_bytes f) = bytes + scf_size_bytes f"
      "i64_add 0 (scf_size_bytes f) = scf_size_bytes f"
    using i64_add_small [OF _ _ _ small Cons.prems(4)] sizes small by auto
  show ?case
  proof (cases "cur \<noteq> [] \<and> ?m < bytes + scf_size_bytes f")
    case True
    have inv: "loop_inv kind ?m (ss @ [pack_shard kind (length ss) bytes cur]) [?e] (scf_size_bytes f)"
      using loop_inv_next [OF Cons.prems(2), of ?e] True sizes small by simp
    have run: "assign_loop hash kind config files (ss @ [pack_shard kind (length ss) bytes cur]) [?e]
        (scf_size_bytes f) = Inr result"
      using Cons.prems(1) True small by (simp add: add)
    show ?thesis using Cons.IH [OF run inv] Cons.prems(3,4) by (simp add: pack_shard_def)
  next
    case False
    then have "bytes + scf_size_bytes f \<le> ?m"
      using Cons.prems(2) small by (auto simp: loop_inv_def)
    then have inv: "loop_inv kind ?m ss (cur @ [?e]) (bytes + scf_size_bytes f)"
      using loop_inv_add [OF Cons.prems(2), of ?e] sizes by simp
    have run: "assign_loop hash kind config files ss (cur @ [?e]) (bytes + scf_size_bytes f) = Inr result"
      using Cons.prems(1) False small by (simp add: add split: if_splits)
    show ?thesis using Cons.IH [OF run inv] Cons.prems(3,4) by simp
  qed
qed

lemma assign_pack_entries_Inr:
  assumes "assign_pack_entries hash files kind config = Inr shards" "0 < max_pack_plaintext_bytes config"
    and "\<forall>f\<in>set files. 0 \<le> scf_size_bytes f" "2 * max_pack_plaintext_bytes config \<le> i64_max"
  shows "all_shards_ok kind (max_pack_plaintext_bytes config) shards"
    "concat (map ps_entries shards) = map (entry_of_file hash) (sort_key scf_normalized_path files)"
proof -
  have "loop_inv kind (max_pack_plaintext_bytes config) [] [] 0"
    using assms(2) by (simp add: loop_inv_def all_shards_ok_def)
  from assign_loop_ok [OF assms(1) [unfolded assign_pack_entries_def] this] assms(3,4)
  have "all_shards_ok kind (max_pack_plaintext_bytes config) shards \<and>
    concat (map ps_entries shards) = map (entry_of_file hash) (sort_key scf_normalized_path files)" by simp
  then show "all_shards_ok kind (max_pack_plaintext_bytes config) shards"
    "concat (map ps_entries shards) = map (entry_of_file hash) (sort_key scf_normalized_path files)" by simp_all
qed

text \<open>Without any assumption on sizes the loop still keeps every file, in order.\<close>

lemma assign_loop_entries:
  "assign_loop hash kind config files ss cur bytes = Inr result \<Longrightarrow>
     concat (map ps_entries result) = concat (map ps_entries ss) @ cur @ map (entry_of_file hash) files"
  by (induction hash kind config files ss cur bytes rule: assign_loop.induct)
    (auto simp: pack_shard_def split: if_splits)

lemma assign_pack_entries_all:
  "assign_pack_entries hash files kind config = Inr shards \<Longrightarrow>
     concat (map ps_entries shards) = map (entry_of_file hash) (sort_key scf_normalized_path files)"
  unfolding assign_pack_entries_def using assign_loop_entries by fastforce

section \<open>Plans\<close>

lemma btree_of_distinct: "distinct (map fst kvs) \<Longrightarrow> btree_of kvs k = Some v \<longleftrightarrow> (k, v) \<in> set kvs"
  by (simp add: btree_of_def map_of_eq_Some_iff rev_map [symmetric])

text \<open>Where a file of the plan is stored.\<close>

definition stored_at :: "(bytes \<Rightarrow> rstr) \<Rightarrow> pack_shard_plan list \<Rightarrow> scanned_file \<Rightarrow> rstr \<Rightarrow> rstr \<Rightarrow> bool" where
  "stored_at hash shards f pack_ref entry_id \<longleftrightarrow>
     (\<exists>s\<in>set shards. ps_pack_ref s = pack_ref \<and> entry_of_file hash f \<in> set (ps_entries s) \<and>
        entry_id = pack_entry_id hash (scf_file_id f) (scf_plaintext_hash f))"

lemma entry_refs_stored:
  assumes "assign_pack_entries hash files kind config = Inr shards"
    and "distinct (map scf_normalized_path files)" "f \<in> set files"
  shows "\<exists>r i. entry_refs shards (scf_normalized_path f) = Some (r, i) \<and> stored_at hash shards f r i"
proof -
  let ?kvs = "concat (map (\<lambda>shard. map (\<lambda>entry.
       (pe_normalized_path entry, (ps_pack_ref shard, pe_entry_id entry))) (ps_entries shard)) shards)"
  note all = assign_pack_entries_all [OF assms(1)]
  have "map fst ?kvs = map pe_normalized_path (concat (map ps_entries shards))"
    by (simp add: map_concat o_def)
  also have "\<dots> = map scf_normalized_path (sort_key scf_normalized_path files)"
    unfolding all by (simp add: entry_of_file_def)
  finally have d: "distinct (map fst ?kvs)" using assms(2) by (simp add: distinct_map)
  have "entry_of_file hash f \<in> set (concat (map ps_entries shards))" unfolding all using assms(3) by simp
  then obtain s where s: "s \<in> set shards" "entry_of_file hash f \<in> set (ps_entries s)" by auto
  then have "(scf_normalized_path f, (ps_pack_ref s, pack_entry_id hash (scf_file_id f) (scf_plaintext_hash f))) \<in> set ?kvs"
    by (force simp: entry_of_file_def)
  then have "entry_refs shards (scf_normalized_path f) =
      Some (ps_pack_ref s, pack_entry_id hash (scf_file_id f) (scf_plaintext_hash f))"
    unfolding entry_refs_def btree_of_distinct [OF d] .
  with s show ?thesis by (auto simp: stored_at_def)
qed

definition plan_pair :: "(rstr \<rightharpoonup> rstr \<times> rstr) \<Rightarrow> scanned_file \<Rightarrow> planned_tree_entry \<times> plan_file_op" where
  "plan_pair refs f = (case plan_upsert refs f of Inr p \<Rightarrow> p | Inl _ \<Rightarrow> undefined)"

lemma plan_upserts_ok:
  assumes "assign_pack_entries hash files kind config = Inr shards" "distinct (map scf_normalized_path files)"
  shows "res_map (plan_upsert (entry_refs shards)) files = Inr (map (plan_pair (entry_refs shards)) files)"
  by (rule res_map_all_Inr)
    (use entry_refs_stored [OF assms] in \<open>force simp: plan_pair_def plan_upsert_def\<close>)

lemma plan_pair_keys:
  assumes "assign_pack_entries hash files kind config = Inr shards" "distinct (map scf_normalized_path files)"
    and "f \<in> set files"
  shows "pt_normalized_path (fst (plan_pair (entry_refs shards) f)) = scf_normalized_path f"
    "plan_file_op_sort_key (snd (plan_pair (entry_refs shards) f)) = (lit ''0'', scf_normalized_path f)"
  using entry_refs_stored [OF assms] by (auto simp: plan_pair_def plan_upsert_def)

lemma sort_key_unique:
  assumes "set xs = set ys" "distinct (map key xs)" "distinct (map key ys)"
  shows "sort_key key xs = sort_key key ys"
proof (rule map_sorted_distinct_set_unique [where f = key])
  show "inj_on key (set (sort_key key xs) \<union> set (sort_key key ys))" using assms by (simp add: distinct_map)
qed (use assms in \<open>simp_all add: distinct_map\<close>)

lemma plan_pair_sorted:
  assumes a: "assign_pack_entries hash files kind config = Inr shards"
    and d: "distinct (map scf_normalized_path files)" and d': "distinct (map scf_normalized_path files')"
    and s: "set files' = set files"
  shows "sort_key pt_normalized_path (map fst (map (plan_pair (entry_refs shards)) files)) =
      sort_key pt_normalized_path (map fst (map (plan_pair (entry_refs shards)) files'))"
    and "sort_key plan_file_op_sort_key (map snd (map (plan_pair (entry_refs shards)) files)) =
      sort_key plan_file_op_sort_key (map snd (map (plan_pair (entry_refs shards)) files'))"
proof -
  note keys = plan_pair_keys [OF a d]
  have e: "map pt_normalized_path (map fst (map (plan_pair (entry_refs shards)) fs)) = map scf_normalized_path fs"
    if "set fs \<subseteq> set files" for fs using keys that by auto
  have o: "map plan_file_op_sort_key (map snd (map (plan_pair (entry_refs shards)) fs)) =
      map (Pair (lit ''0'')) (map scf_normalized_path fs)" if "set fs \<subseteq> set files" for fs
    using keys that by auto
  have i: "distinct (map (Pair (lit ''0'')) (map scf_normalized_path fs)) = distinct (map scf_normalized_path fs)" for fs
    by (simp add: distinct_map inj_on_def)
  have sub: "set files' \<subseteq> set files" using s by simp
  have e1: "distinct (map pt_normalized_path (map fst (map (plan_pair (entry_refs shards)) files)))"
    unfolding e [OF subset_refl] by (rule d)
  have e2: "distinct (map pt_normalized_path (map fst (map (plan_pair (entry_refs shards)) files')))"
    unfolding e [OF sub] by (rule d')
  have o1: "distinct (map plan_file_op_sort_key (map snd (map (plan_pair (entry_refs shards)) files)))"
    unfolding o [OF subset_refl] i by (rule d)
  have o2: "distinct (map plan_file_op_sort_key (map snd (map (plan_pair (entry_refs shards)) files')))"
    unfolding o [OF sub] i by (rule d')
  show "sort_key pt_normalized_path (map fst (map (plan_pair (entry_refs shards)) files)) =
      sort_key pt_normalized_path (map fst (map (plan_pair (entry_refs shards)) files'))"
    by (rule sort_key_unique [OF _ e1 e2]) (simp add: s)
  show "sort_key plan_file_op_sort_key (map snd (map (plan_pair (entry_refs shards)) files)) =
      sort_key plan_file_op_sort_key (map snd (map (plan_pair (entry_refs shards)) files'))"
    by (rule sort_key_unique [OF _ o1 o2]) (simp add: s)
qed

lemma dirty_upsert_fold:
  "res_fold (dirty_upsert scanned) rows out = Inr ups \<longleftrightarrow>
     (\<forall>r\<in>set rows. sf_dirty r \<and> \<not> sf_deleted r \<longrightarrow> scanned (sf_normalized_path r) \<noteq> None) \<and>
     ups = out @ map (\<lambda>r. the (scanned (sf_normalized_path r))) (filter (\<lambda>r. sf_dirty r \<and> \<not> sf_deleted r) rows)"
proof (induction rows arbitrary: out)
  case (Cons r rows)
  show ?case
  proof (cases "sf_dirty r \<and> \<not> sf_deleted r")
    case True
    then show ?thesis using Cons.IH by (cases "scanned (sf_normalized_path r)") (auto simp: dirty_upsert_def)
  next
    case False
    then have "dirty_upsert scanned r out = Inr out" by (auto simp: dirty_upsert_def)
    then show ?thesis using Cons.IH [of out] False by auto
  qed
qed auto

text \<open>Sorting commutes with the key, and tags \<open>0\<close> and \<open>1\<close> separate the two groups.\<close>

lemma map_sort_key: "map key (sort_key key xs) = sort (map key xs)"
  by (rule properties_for_sort [symmetric]) simp_all

lemma sort_tagged:
  fixes xs ys :: "rstr list"
  shows "sort (map (Pair (lit ''0'')) xs @ map (Pair (lit ''1'')) ys) =
    map (Pair (lit ''0'')) (sort xs) @ map (Pair (lit ''1'')) (sort ys)"
proof (rule properties_for_sort)
  have tag: "sorted (map (Pair t) (sort zs))" for t :: rstr and zs :: "rstr list"
    using sorted_sort [of zs] by (simp add: sorted_map)
  have "lit ''0'' < lit ''1''" by simp
  then show "sorted (map (Pair (lit ''0'')) (sort xs) @ map (Pair (lit ''1'')) (sort ys))"
    using tag by (auto simp: sorted_append less_imp_le)
qed simp

section \<open>Claims\<close>

text \<open>
  C33. Pack assignment: when no file is larger than the limit, every file is put into exactly one shard,
  in path order; no shard is empty or holds more than the limit, its recorded total is the sum of
  its files (no \<open>i64\<close> overflow), shards are numbered from zero with distinct references, and no
  shard could have taken the next file. Otherwise the first oversized file is reported.
\<close>
theorem assign_pack_entries_exact:
  assumes "0 < max_pack_plaintext_bytes config" "2 * max_pack_plaintext_bytes config \<le> i64_max"
    and "\<forall>f\<in>set files. 0 \<le> scf_size_bytes f"
  shows "case assign_pack_entries hash files kind config of
      Inl e \<Rightarrow> \<exists>f\<in>set files. max_pack_plaintext_bytes config < scf_size_bytes f \<and> e = size_limit_error f config
    | Inr shards \<Rightarrow> (\<forall>f\<in>set files. scf_size_bytes f \<le> max_pack_plaintext_bytes config) \<and>
        concat (map ps_entries shards) = map (entry_of_file hash) (sort_key scf_normalized_path files) \<and>
        (\<forall>i<length shards. shard_ok kind (max_pack_plaintext_bytes config) i (shards ! i)) \<and>
        greedy (max_pack_plaintext_bytes config) shards"
proof (cases "assign_pack_entries hash files kind config")
  case (Inl e)
  then obtain f where "find (\<lambda>f. max_pack_plaintext_bytes config < scf_size_bytes f) (sort_key scf_normalized_path files) = Some f"
    "e = size_limit_error f config"
    unfolding assign_pack_entries_def assign_loop_too_large by blast
  then show ?thesis using find_SomeD Inl by fastforce
next
  case (Inr shards)
  have "\<not> (\<exists>f. find (\<lambda>f. max_pack_plaintext_bytes config < scf_size_bytes f) (sort_key scf_normalized_path files) = Some f)"
    using Inr assign_loop_too_large [of hash kind config "sort_key scf_normalized_path files" "[]" "[]" 0]
    unfolding assign_pack_entries_def by (metis Inl_Inr_False)
  then have "\<forall>f\<in>set files. scf_size_bytes f \<le> max_pack_plaintext_bytes config"
    by (auto simp: find_None_iff not_less)
  with Inr assign_pack_entries_Inr [OF Inr assms(1,3,2)] show ?thesis by (auto simp: all_shards_ok_def)
qed

theorem assign_pack_entries_exact_witness:
  "\<exists>shards. assign_pack_entries example_hash example_scan CONTENT_PACK_KIND default_planner_config = Inr shards \<and>
     concat (map ps_entries shards) = map (entry_of_file example_hash) (sort_key scf_normalized_path example_scan)"
proof -
  have "assign_pack_entries example_hash example_scan CONTENT_PACK_KIND default_planner_config =
      Inr [pack_shard CONTENT_PACK_KIND 0 1 (map (entry_of_file example_hash) example_scan)]"
    by (simp add: assign_pack_entries_def example_scan_def default_planner_config_def
        DEFAULT_MAX_PACK_PLAINTEXT_BYTES_def i64_add_def wrap_i64_def)
  then show ?thesis
    using assign_pack_entries_exact [of default_planner_config example_scan example_hash CONTENT_PACK_KIND]
    by (auto simp: default_planner_config_def DEFAULT_MAX_PACK_PLAINTEXT_BYTES_def i64_max_def example_scan_def)
qed

text \<open>
  Every file of a checkpoint plan can be found again: the tree has one entry per scanned file, in
  path order, and each entry names a planned shard and, in it, the pack entry with that file's
  content; the operations are one upsert per file with the same reference.
\<close>
theorem plan_checkpoint_references:
  assumes "plan_checkpoint hash to_vec files config = Inr plan" "distinct (map scf_normalized_path files)"
  shows "map pt_normalized_path (pl_tree_entries plan) = map scf_normalized_path (sort_key scf_normalized_path files) \<and>
    list_all (\<lambda>f. \<exists>r i. stored_at hash (pl_pack_shards plan) f r i \<and>
      \<lparr>pt_file_id = scf_file_id f, pt_path = scf_path f, pt_normalized_path = scf_normalized_path f,
       pt_plaintext_hash = scf_plaintext_hash f, pt_size_bytes = scf_size_bytes f, pt_kind = FILE_KIND_MARKDOWN,
       pt_pack_ref = Some r, pt_pack_entry_id = Some i\<rparr> \<in> set (pl_tree_entries plan) \<and>
      Upsert (scf_file_id f) (scf_path f) (scf_normalized_path f) (scf_plaintext_hash f) (scf_size_bytes f) r i
        \<in> set (pl_file_ops plan)) files \<and>
    length (pl_file_ops plan) = length files"
proof -
  from assms(1) obtain shards where a: "assign_pack_entries hash files CHECKPOINT_PACK_KIND config = Inr shards"
    and b: "build_plan hash to_vec Checkpoint files [] shards = Inr plan"
    by (auto simp: plan_checkpoint_def res_bind_eq_Inr)
  let ?pp = "plan_pair (entry_refs shards)"
  from b have plan: "pl_tree_entries plan = sort_key pt_normalized_path (map fst (map ?pp files))"
    "pl_file_ops plan = sort_key plan_file_op_sort_key (map snd (map ?pp files))" "pl_pack_shards plan = shards"
    using plan_upserts_ok [OF a assms(2)] by (auto simp: build_plan_def Let_def res_bind_eq_Inr)
  have "sort_key pt_normalized_path (map fst (map ?pp files)) = map fst (map ?pp (sort_key scf_normalized_path files))"
  proof (rule trans [OF plan_pair_sorted(1) [OF a assms(2), of "sort_key scf_normalized_path files"]])
    have k: "map pt_normalized_path (map fst (map ?pp (sort_key scf_normalized_path files))) =
        map scf_normalized_path (sort_key scf_normalized_path files)"
      using plan_pair_keys(1) [OF a assms(2)] by simp
    show "sort_key pt_normalized_path (map fst (map ?pp (sort_key scf_normalized_path files))) =
        map fst (map ?pp (sort_key scf_normalized_path files))"
      by (rule sort_key_id_if_sorted) (simp only: k sorted_sort_key)
  qed (use assms(2) in \<open>simp_all add: distinct_map\<close>)
  then have "map pt_normalized_path (pl_tree_entries plan) = map scf_normalized_path (sort_key scf_normalized_path files)"
    using plan_pair_keys(1) [OF a assms(2)] by (simp add: plan)
  moreover have "\<exists>r i. stored_at hash shards f r i \<and> ?pp f =
      (\<lparr>pt_file_id = scf_file_id f, pt_path = scf_path f, pt_normalized_path = scf_normalized_path f,
       pt_plaintext_hash = scf_plaintext_hash f, pt_size_bytes = scf_size_bytes f, pt_kind = FILE_KIND_MARKDOWN,
       pt_pack_ref = Some r, pt_pack_entry_id = Some i\<rparr>,
       Upsert (scf_file_id f) (scf_path f) (scf_normalized_path f) (scf_plaintext_hash f) (scf_size_bytes f) r i)"
    if "f \<in> set files" for f
    using entry_refs_stored [OF a assms(2) that] by (auto simp: plan_pair_def plan_upsert_def)
  ultimately show ?thesis unfolding plan list_all_iff by (force simp: image_iff)
qed

theorem plan_checkpoint_references_witness:
  "\<exists>plan. plan_checkpoint example_hash (\<lambda>_. Inr []) example_scan default_planner_config = Inr plan \<and>
     map pt_normalized_path (pl_tree_entries plan) = [lit ''a.md'', lit ''b.md'']"
proof -
  have d: "distinct (map scf_normalized_path example_scan)" by (simp add: example_scan_def)
  have a: "assign_pack_entries example_hash example_scan CHECKPOINT_PACK_KIND default_planner_config =
      Inr [pack_shard CHECKPOINT_PACK_KIND 0 1 (map (entry_of_file example_hash) example_scan)]"
    by (simp add: assign_pack_entries_def example_scan_def default_planner_config_def
        DEFAULT_MAX_PACK_PLAINTEXT_BYTES_def i64_add_def wrap_i64_def)
  have v: "validate_config default_planner_config = Inr ()"
    by (simp add: validate_config_def default_planner_config_def DEFAULT_MAX_PACK_PLAINTEXT_BYTES_def)
  have "\<exists>plan. plan_checkpoint example_hash (\<lambda>_. Inr []) example_scan default_planner_config = Inr plan"
    using plan_upserts_ok [OF a d] by (simp add: plan_checkpoint_def a v build_plan_def compute_tree_id_def Let_def)
  then obtain plan where p: "plan_checkpoint example_hash (\<lambda>_. Inr []) example_scan default_planner_config = Inr plan" ..
  show ?thesis using plan_checkpoint_references [OF p d] p by (simp add: example_scan_def)
qed

text \<open>
  A checkpoint plan does not depend on the order in which the vault was walked: the same set of
  files, in any order, gives the same shards, tree, operations and tree id, and the same error.
\<close>
theorem plan_checkpoint_order_independent:
  assumes "distinct (map scf_normalized_path files)" "mset files' = mset files"
  shows "plan_checkpoint hash to_vec files' config = plan_checkpoint hash to_vec files config"
proof -
  have s: "set files' = set files" using assms(2) by (metis set_mset_mset)
  have "mset (map scf_normalized_path files') = mset (map scf_normalized_path files)" using assms(2) by simp
  then have d': "distinct (map scf_normalized_path files')" using assms(1) by (metis mset_eq_imp_distinct_iff)
  have "assign_pack_entries hash files' CHECKPOINT_PACK_KIND config = assign_pack_entries hash files CHECKPOINT_PACK_KIND config"
    using sort_key_unique [OF s d' assms(1)] by (simp add: assign_pack_entries_def)
  moreover have "build_plan hash to_vec Checkpoint files' [] shards = build_plan hash to_vec Checkpoint files [] shards"
    if a: "assign_pack_entries hash files CHECKPOINT_PACK_KIND config = Inr shards" for shards
  proof -
    have a': "assign_pack_entries hash files' CHECKPOINT_PACK_KIND config = Inr shards" using a calculation by simp
    show ?thesis
      using plan_upserts_ok [OF a assms(1)] plan_upserts_ok [OF a' d'] plan_pair_sorted [OF a assms(1) d' s]
      by (simp add: build_plan_def)
  qed
  ultimately show ?thesis
    by (cases "assign_pack_entries hash files CHECKPOINT_PACK_KIND config")
      (simp_all add: plan_checkpoint_def)
qed

theorem plan_checkpoint_order_independent_witness:
  "plan_checkpoint example_hash (\<lambda>_. Inr []) (rev example_scan) default_planner_config =
   plan_checkpoint example_hash (\<lambda>_. Inr []) example_scan default_planner_config"
  by (rule plan_checkpoint_order_independent) (simp_all add: example_scan_def)

lemma plan_incremental_Inr:
  assumes "plan_incremental hash to_vec scan files config = Inr plan"
    and "distinct (map scf_normalized_path files)" "distinct (map sf_normalized_path (sar_upserts scan))"
  obtains ups shards where "set ups \<subseteq> set files" "distinct (map scf_normalized_path ups)"
    "map scf_normalized_path ups = map sf_normalized_path (filter (\<lambda>r. sf_dirty r \<and> \<not> sf_deleted r) (sar_upserts scan))"
    "assign_pack_entries hash ups CONTENT_PACK_KIND config = Inr shards"
    "build_plan hash to_vec Incremental ups (sar_deletions scan) shards = Inr plan"
proof -
  let ?by = "btree_of (map (\<lambda>file. (scf_normalized_path file, file)) files)"
  let ?dirty = "filter (\<lambda>r. sf_dirty r \<and> \<not> sf_deleted r) (sar_upserts scan)"
  let ?ups = "map (\<lambda>r. the (?by (sf_normalized_path r))) ?dirty"
  from assms(1) obtain shards where has: "\<forall>r\<in>set ?dirty. ?by (sf_normalized_path r) \<noteq> None"
    and ab: "assign_pack_entries hash ?ups CONTENT_PACK_KIND config = Inr shards"
      "build_plan hash to_vec Incremental ?ups (sar_deletions scan) shards = Inr plan"
    by (auto simp: plan_incremental_def res_bind_eq_Inr dirty_upsert_fold Let_def)
  have found: "?by k = Some f \<longleftrightarrow> k = scf_normalized_path f \<and> f \<in> set files" for k f
    using assms(2) by (subst btree_of_distinct) (auto simp: o_def)
  have row: "scf_normalized_path (the (?by (sf_normalized_path r))) = sf_normalized_path r \<and>
      the (?by (sf_normalized_path r)) \<in> set files" if r: "r \<in> set ?dirty" for r
  proof -
    obtain f where "?by (sf_normalized_path r) = Some f" using has r by blast
    then show ?thesis using found [of "sf_normalized_path r" f] by simp
  qed
  have keys: "map scf_normalized_path ?ups = map sf_normalized_path ?dirty" and sub: "set ?ups \<subseteq> set files" using row by auto
  have "distinct (map scf_normalized_path ?ups)" unfolding keys by (rule distinct_map_filter [OF assms(3)])
  from that [OF sub this keys ab] show ?thesis .
qed

text \<open>
  An incremental plan publishes exactly the dirty files: it uploads the scanned content of each
  dirty row that still exists, in path order, deletes each row the scan found gone after all
  uploads, and fails when a dirty row has no scanned content.
\<close>
theorem plan_incremental_exact:
  assumes "plan_incremental hash to_vec scan files config = Inr plan"
    and "distinct (map scf_normalized_path files)" "distinct (map sf_normalized_path (sar_upserts scan))"
  defines "dirty \<equiv> filter (\<lambda>r. sf_dirty r \<and> \<not> sf_deleted r) (sar_upserts scan)"
  shows "\<exists>ups. map scf_normalized_path ups = map sf_normalized_path dirty \<and> set ups \<subseteq> set files \<and>
    map pt_normalized_path (pl_tree_entries plan) = sort (map sf_normalized_path dirty) \<and>
    map plan_file_op_sort_key (pl_file_ops plan) =
      map (Pair (lit ''0'')) (sort (map sf_normalized_path dirty)) @
      map (Pair (lit ''1'')) (sort (map sf_normalized_path (sar_deletions scan))) \<and>
    list_all (\<lambda>f. \<exists>r i. stored_at hash (pl_pack_shards plan) f r i) ups"
proof -
  from plan_incremental_Inr [OF assms(1-3), folded dirty_def] obtain ups shards
    where keys: "map scf_normalized_path ups = map sf_normalized_path dirty" "set ups \<subseteq> set files"
      and d: "distinct (map scf_normalized_path ups)" and a: "assign_pack_entries hash ups CONTENT_PACK_KIND config = Inr shards"
      and b: "build_plan hash to_vec Incremental ups (sar_deletions scan) shards = Inr plan"
    by blast
  let ?pp = "plan_pair (entry_refs shards)"
  from b have plan: "pl_tree_entries plan = sort_key pt_normalized_path (map fst (map ?pp ups))"
    "pl_file_ops plan = sort_key plan_file_op_sort_key (map snd (map ?pp ups) @ map plan_delete (sar_deletions scan))"
    "pl_pack_shards plan = shards"
    using plan_upserts_ok [OF a d] by (auto simp: build_plan_def Let_def res_bind_eq_Inr)
  have k1: "map pt_normalized_path (map fst (map ?pp ups)) = map sf_normalized_path dirty"
    using plan_pair_keys(1) [OF a d] unfolding keys(1) [symmetric] by simp
  have k2: "map plan_file_op_sort_key (map snd (map ?pp ups) @ map plan_delete (sar_deletions scan)) =
      map (Pair (lit ''0'')) (map sf_normalized_path dirty) @
      map (Pair (lit ''1'')) (map sf_normalized_path (sar_deletions scan))"
    using plan_pair_keys(2) [OF a d] unfolding keys(1) [symmetric] by (simp add: plan_delete_def o_def)
  have "map pt_normalized_path (pl_tree_entries plan) = sort (map sf_normalized_path dirty)"
    unfolding plan map_sort_key k1 ..
  moreover have "map plan_file_op_sort_key (pl_file_ops plan) =
      map (Pair (lit ''0'')) (sort (map sf_normalized_path dirty)) @
      map (Pair (lit ''1'')) (sort (map sf_normalized_path (sar_deletions scan)))"
    unfolding plan map_sort_key k2 by (rule sort_tagged)
  moreover have "list_all (\<lambda>f. \<exists>r i. stored_at hash shards f r i) ups"
    unfolding list_all_iff using entry_refs_stored [OF a d] by blast
  ultimately show ?thesis using keys plan(3) by blast
qed

definition example_dirty :: scan_apply_result where
  "example_dirty = \<lparr>sar_upserts = map (\<lambda>f. scanned_row (scf_file_id f) (file_input f) True) example_scan,
     sar_deletions = []\<rparr>"

theorem plan_incremental_exact_witness:
  "\<exists>plan. plan_incremental example_hash (\<lambda>_. Inr []) example_dirty example_scan default_planner_config = Inr plan \<and>
     map pt_normalized_path (pl_tree_entries plan) = [lit ''a.md'', lit ''b.md'']"
proof -
  have d: "distinct (map scf_normalized_path example_scan)" by (simp add: example_scan_def)
  have d2: "distinct (map sf_normalized_path (sar_upserts example_dirty))"
    by (simp add: example_dirty_def example_scan_def file_input_def)
  have a: "assign_pack_entries example_hash example_scan CONTENT_PACK_KIND default_planner_config =
      Inr [pack_shard CONTENT_PACK_KIND 0 1 (map (entry_of_file example_hash) example_scan)]"
    by (simp add: assign_pack_entries_def example_scan_def default_planner_config_def
        DEFAULT_MAX_PACK_PLAINTEXT_BYTES_def i64_add_def wrap_i64_def)
  have v: "validate_config default_planner_config = Inr ()"
    by (simp add: validate_config_def default_planner_config_def DEFAULT_MAX_PACK_PLAINTEXT_BYTES_def)
  have u: "res_fold (dirty_upsert (btree_of (map (\<lambda>file. (scf_normalized_path file, file)) example_scan)))
      (sar_upserts example_dirty) [] = Inr example_scan"
    by (simp add: example_dirty_def example_scan_def dirty_upsert_def btree_of_def scanned_row_def file_input_def)
  have "\<exists>plan. plan_incremental example_hash (\<lambda>_. Inr []) example_dirty example_scan default_planner_config = Inr plan"
    using plan_upserts_ok [OF a d]
    by (simp add: plan_incremental_def a v u build_plan_def compute_tree_id_def Let_def)
  then obtain plan where p: "plan_incremental example_hash (\<lambda>_. Inr []) example_dirty example_scan default_planner_config = Inr plan" ..
  show ?thesis using plan_incremental_exact [OF p d d2] p
    by (auto simp: example_dirty_def example_scan_def scanned_row_def file_input_def)
qed

end
