(* ===== verification/BTree_Map.thy ===== *)
theory BTree_Map
  imports Prelude
begin

text \<open>
  \<open>std::collections::BTreeMap\<close>: a list of pairs with strictly increasing keys. \<open>insert\<close>, \<open>get\<close>,
  \<open>remove\<close>, \<open>values\<close> and \<open>collect\<close> are the operations the sources use. The locale
  \<open>ordered_map\<close> is what the clients rely on: lookup after an update, and that the keys stay ordered.
\<close>

fun bt_insert :: "'k::linorder \<Rightarrow> 'v \<Rightarrow> ('k \<times> 'v) list \<Rightarrow> ('k \<times> 'v) list" where
  "bt_insert k v [] = [(k, v)]"
| "bt_insert k v ((k', v') # m) =
     (if k < k' then (k, v) # (k', v') # m else if k = k' then (k, v) # m else (k', v') # bt_insert k v m)"

definition bt_get :: "('k \<times> 'v) list \<Rightarrow> 'k \<Rightarrow> 'v option" where
  "bt_get m k = map_of m k"

definition bt_remove :: "'k \<Rightarrow> ('k \<times> 'v) list \<Rightarrow> ('k \<times> 'v) list" where
  "bt_remove k m = filter (\<lambda>(k', _). k' \<noteq> k) m"

definition bt_values :: "('k \<times> 'v) list \<Rightarrow> 'v list" where
  "bt_values m = map snd m"

text \<open>\<open>iter.map(|v| (key(v), v)).collect::<BTreeMap<_, _>>()\<close>: later items replace earlier ones.\<close>

definition bt_collect :: "('v \<Rightarrow> 'k::linorder) \<Rightarrow> 'v list \<Rightarrow> ('k \<times> 'v) list" where
  "bt_collect key vs = fold (\<lambda>v m. bt_insert (key v) v m) vs []"

definition bt_ordered :: "('k::linorder \<times> 'v) list \<Rightarrow> bool" where
  "bt_ordered m = sorted_wrt (<) (map fst m)"

locale ordered_map =
  fixes empty :: "'m" and insert :: "'k::linorder \<Rightarrow> 'v \<Rightarrow> 'm \<Rightarrow> 'm" and remove :: "'k \<Rightarrow> 'm \<Rightarrow> 'm"
    and get :: "'m \<Rightarrow> 'k \<Rightarrow> 'v option" and inv :: "'m \<Rightarrow> bool"
  assumes inv_empty: "inv empty" and get_empty: "get empty k = None"
    and inv_insert: "inv m \<Longrightarrow> inv (insert k v m)"
    and get_insert: "inv m \<Longrightarrow> get (insert k v m) = (get m)(k \<mapsto> v)"
    and inv_remove: "inv m \<Longrightarrow> inv (remove k m)"
    and get_remove: "inv m \<Longrightarrow> get (remove k m) = (get m)(k := None)"
begin

lemma get_empty_map: "get empty = Map.empty"
  by (simp add: fun_eq_iff get_empty)

lemma insert_all_inv: "inv m \<Longrightarrow> inv (fold (\<lambda>(k, v). insert k v) kvs m)"
  by (induction kvs arbitrary: m) (auto simp: inv_insert)

lemma get_insert_all: "inv m \<Longrightarrow> get (fold (\<lambda>(k, v). insert k v) kvs m) = get m ++ map_of (rev kvs)"
proof (induction kvs arbitrary: m)
  case (Cons kv kvs)
  obtain k v where kv: "kv = (k, v)" by (cases kv)
  show ?case using Cons.IH [OF inv_insert [OF Cons.prems], of k v] Cons.prems kv
    by (simp add: get_insert map_add_def fun_eq_iff split: option.splits)
qed simp

lemma insert_remove_same: "inv m \<Longrightarrow> get (remove k (insert k v m)) = get (remove k m)"
  by (simp add: get_insert get_remove inv_insert)

end

section \<open>The sorted list is an ordered map\<close>

lemma fst_bt_insert: "fst ` set (bt_insert k v m) = Set.insert k (fst ` set m)"
  by (induction k v m rule: bt_insert.induct) auto

lemma bt_insert_ordered: "bt_ordered m \<Longrightarrow> bt_ordered (bt_insert k v m)"
proof (induction k v m rule: bt_insert.induct)
  case (2 k v k' v' m)
  have below: "\<forall>x\<in>fst ` set m. k' < x" "bt_ordered m" using 2(2) by (auto simp: bt_ordered_def)
  then show ?case
    using 2 fst_bt_insert [of k v m] by (auto simp: bt_ordered_def)
qed (simp add: bt_ordered_def)

lemma bt_get_insert: "bt_get (bt_insert k v m) = (bt_get m)(k \<mapsto> v)"
  unfolding bt_get_def by (induction k v m rule: bt_insert.induct) (auto simp: fun_eq_iff)

lemma bt_remove_ordered: "bt_ordered m \<Longrightarrow> bt_ordered (bt_remove k m)"
  by (induction m) (auto simp: bt_ordered_def bt_remove_def)

lemma bt_get_remove: "bt_get (bt_remove k m) = (bt_get m)(k := None)"
  unfolding bt_get_def bt_remove_def by (induction m) (auto simp: fun_eq_iff)

interpretation btree: ordered_map "[]" bt_insert bt_remove bt_get bt_ordered
  by unfold_locales
    (simp_all add: bt_ordered_def [of "[]"] bt_get_def [of "[]"] bt_insert_ordered bt_get_insert bt_remove_ordered bt_get_remove)

lemma bt_collect_fold: "bt_collect key vs = fold (\<lambda>(k, v). bt_insert k v) (map (\<lambda>v. (key v, v)) vs) []"
  by (simp add: bt_collect_def fold_map o_def)

lemma bt_collect_ordered: "bt_ordered (bt_collect key vs)"
  unfolding bt_collect_fold by (rule btree.insert_all_inv [OF btree.inv_empty])

lemma bt_get_collect:
  assumes "distinct (map key vs)"
  shows "bt_get (bt_collect key vs) k = find (\<lambda>v. key v = k) vs"
proof -
  have "bt_get (bt_collect key vs) = map_of (rev (map (\<lambda>v. (key v, v)) vs))"
    unfolding bt_collect_fold using btree.get_insert_all [OF btree.inv_empty] by (simp add: btree.get_empty_map)
  also have "\<dots> = map_of (map (\<lambda>v. (key v, v)) vs)"
  proof
    fix k
    have d: "distinct (map fst (map (\<lambda>v. (key v, v)) vs))" using assms by (simp add: o_def)
    then have d': "distinct (map fst (rev (map (\<lambda>v. (key v, v)) vs)))" by (simp only: rev_map [symmetric] distinct_rev)
    have "map_of (rev (map (\<lambda>v. (key v, v)) vs)) k = Some v \<longleftrightarrow> map_of (map (\<lambda>v. (key v, v)) vs) k = Some v" for v
      unfolding map_of_eq_Some_iff [OF d] map_of_eq_Some_iff [OF d'] by simp
    then show "map_of (rev (map (\<lambda>v. (key v, v)) vs)) k = map_of (map (\<lambda>v. (key v, v)) vs) k" by (metis not_None_eq)
  qed
  finally have "bt_get (bt_collect key vs) k = map_of (map (\<lambda>v. (key v, v)) vs) k" by simp
  also have "\<dots> = find (\<lambda>v. key v = k) vs" by (induction vs) auto
  finally show ?thesis .
qed

lemma bt_ordered_distinct: "bt_ordered m \<Longrightarrow> distinct (map fst m)"
  by (simp add: bt_ordered_def strict_sorted_iff)

lemma bt_get_Some_iff: "bt_ordered m \<Longrightarrow> bt_get m k = Some v \<longleftrightarrow> (k, v) \<in> set m"
  by (simp add: bt_get_def map_of_eq_Some_iff bt_ordered_distinct)

text \<open>A map whose keys are read off its values, as the file trees of commits are.\<close>

definition keyed_by :: "('v \<Rightarrow> 'k) \<Rightarrow> ('k \<times> 'v) list \<Rightarrow> bool" where
  "keyed_by key m = (\<forall>(k, v)\<in>set m. key v = k)"

lemma keyed_by_values: "keyed_by key m \<Longrightarrow> map key (bt_values m) = map fst m"
  by (induction m) (auto simp: keyed_by_def bt_values_def)

lemma keyed_by_insert: "keyed_by key m \<Longrightarrow> key v = k \<Longrightarrow> keyed_by key (bt_insert k v m)"
  by (induction k v m rule: bt_insert.induct) (auto simp: keyed_by_def)

lemma keyed_by_remove: "keyed_by key m \<Longrightarrow> keyed_by key (bt_remove k m)"
  by (auto simp: keyed_by_def bt_remove_def)

lemma keyed_by_collect: "keyed_by key (bt_collect key vs)"
proof -
  have "keyed_by key m \<Longrightarrow> keyed_by key (fold (\<lambda>v m. bt_insert (key v) v m) vs m)" for m
    by (induction vs arbitrary: m) (auto intro: keyed_by_insert)
  from this [of "[]"] show ?thesis by (simp add: bt_collect_def keyed_by_def [of key "[]"])
qed

end
