(* ===== verification/Sync_History.thy ===== *)
theory Sync_History
  imports Sync_Planner BTree_Map
begin

text \<open>
  The part of \<open>sync/applier.rs\<close> that reads and checks the remote history: paging through the commit
  log, choosing the commits to replay, checking headers, bodies, packs and files against each
  other, and the tree that a commit describes. The server is the parameter \<open>list_commits\<close>; JSON
  writers are parameters. The types of the protocol (\<open>SyncCommitKind\<close>, \<open>SyncObjectKind\<close>) are
  generated; only their names are used.
\<close>

section \<open>Data\<close>

datatype sync_commit_kind = Kind_Unspecified | Kind_Incremental | Kind_Merge | Kind_Checkpoint

datatype sync_object_kind =
    Object_Unspecified | Object_CommitBody | Object_ContentPack | Object_CheckpointPack | Object_LargeObject

record sync_head =
  hd_current_head_commit_id :: rstr
  hd_head_version :: int
  hd_latest_checkpoint_commit_id :: rstr

record sync_commit_header =
  ch_commit_id :: rstr
  ch_commit_kind :: sync_commit_kind
  ch_expected_head_commit_id :: rstr
  ch_parent_commit_ids :: "rstr list"
  ch_author_device_id :: rstr
  ch_device_seq :: int
  ch_body_object_id :: rstr
  ch_body_ciphertext_sha256 :: rstr
  ch_body_size_bytes :: int
  ch_referenced_object_ids :: "rstr list"
  ch_signature :: bytes
  ch_server_seq :: int

record list_commits_output =
  lc_commits :: "sync_commit_header list"
  lc_has_more :: bool
  lc_next_after_server_seq :: int

record downloaded_object =
  dl_object_id :: rstr
  dl_kind :: sync_object_kind
  dl_ciphertext_sha256 :: rstr
  dl_ciphertext :: bytes

record commit_body_content_ref =
  cr_object_id :: rstr
  cr_entry_id :: rstr

record commit_body_pack_ref =
  pr_pack_ref :: rstr
  pr_object_id :: rstr
  pr_pack_kind :: rstr
  pr_shard_index :: nat
  pr_entry_count :: nat

text \<open>\<open>UpsertFile\<close> carries the file id, path, normalized path, hash, size and content reference;
  \<open>DeleteFile\<close> the file id, path and normalized path.\<close>

datatype commit_body_file_op =
    UpsertFile rstr rstr rstr rstr int commit_body_content_ref
  | DeleteFile rstr rstr rstr

record commit_body =
  bd_format :: rstr
  bd_version :: u8
  bd_commit_id :: rstr
  bd_commit_kind :: rstr
  bd_parent_commit_ids :: "rstr list"
  bd_tree_id :: rstr
  bd_changes :: "commit_body_file_op list"
  bd_packs :: "commit_body_pack_ref list"

record tree_cache_entry =
  tc_file_id :: rstr
  tc_normalized_path :: rstr
  tc_plaintext_hash :: "rstr option"
  tc_content_object_id :: "rstr option"
  tc_pack_entry_id :: "rstr option"
  tc_kind :: rstr

record decrypted_commit =
  dc_header :: sync_commit_header
  dc_body :: commit_body
  dc_packs :: "(rstr \<times> unpacked_pack) list"

record replay_selection =
  rs_commits :: "sync_commit_header list"
  rs_bootstrapped_from_checkpoint :: bool

type_synonym file_tree = "(rstr \<times> sync_tree_entry_record) list"

definition LIST_COMMITS_PAGE_SIZE :: int where
  "LIST_COMMITS_PAGE_SIZE = 100"

section \<open>Reading the log\<close>

fun append_commit_page ::
  "sync_commit_header list \<Rightarrow> sync_commit_header list \<Rightarrow> (sync_commit_header list) sync_result" where
  "append_commit_page commits [] = Inr commits"
| "append_commit_page commits (commit # page) =
     (if commits \<noteq> [] \<and> ch_server_seq (last commits) \<ge> ch_server_seq commit
      then Inl (Transport (lit ''ListCommits returned non-increasing server_seq''))
      else append_commit_page (commits @ [commit]) page)"

type_synonym list_commits_api = "rstr \<Rightarrow> int \<Rightarrow> int \<Rightarrow> list_commits_output sync_result"

text \<open>The cursor is an \<open>i64\<close>, so the loop, which stops unless the cursor grows, always ends.\<close>

function list_commits_loop ::
  "list_commits_api \<Rightarrow> rstr \<Rightarrow> int \<Rightarrow> sync_commit_header list \<Rightarrow> (sync_commit_header list) sync_result" where
  "list_commits_loop list_commits workspace_id after_server_seq commits =
     (case list_commits workspace_id after_server_seq LIST_COMMITS_PAGE_SIZE of
        Inl e \<Rightarrow> Inl e
      | Inr page \<Rightarrow>
          (case append_commit_page commits (lc_commits page) of
             Inl e \<Rightarrow> Inl e
           | Inr commits \<Rightarrow>
               if \<not> lc_has_more page then Inr commits
               else let cursor = wrap_i64 (lc_next_after_server_seq page)
                    in if cursor \<le> after_server_seq
                       then Inl (Transport (lit ''ListCommits did not advance pagination cursor''))
                       else list_commits_loop list_commits workspace_id cursor commits))"
  by pat_completeness auto
termination
proof (relation "measure (\<lambda>(_, _, after_server_seq, _). nat (i64_max - after_server_seq))", simp, goal_cases)
  case (1 list_commits workspace_id after_server_seq commits page commits' cursor)
  then show ?case using wrap_i64_range [of "lc_next_after_server_seq page"] by auto
qed

declare list_commits_loop.simps [simp del]

definition list_all_commits :: "list_commits_api \<Rightarrow> rstr \<Rightarrow> (sync_commit_header list) sync_result" where
  "list_all_commits list_commits workspace_id = list_commits_loop list_commits workspace_id 0 []"

fun position :: "('a \<Rightarrow> bool) \<Rightarrow> 'a list \<Rightarrow> nat option" where
  "position p [] = None"
| "position p (x # xs) = (if p x then Some 0 else map_option Suc (position p xs))"

definition local_head_of :: "sync_vault_record \<Rightarrow> rstr" where
  "local_head_of vault = (case sv_local_head_commit_id vault of None \<Rightarrow> [] | Some c \<Rightarrow> c)"

definition select_replay_commits ::
  "sync_vault_record \<Rightarrow> sync_head \<Rightarrow> sync_commit_header list \<Rightarrow> replay_selection sync_result" where
  "select_replay_commits vault head commits =
     (let local_head = local_head_of vault
      in if local_head = hd_current_head_commit_id head
         then Inr \<lparr>rs_commits = [], rs_bootstrapped_from_checkpoint = False\<rparr>
         else
           res_bind
             (if local_head = []
              then if hd_latest_checkpoint_commit_id head = [] then Inr 0
                   else ok_or (position (\<lambda>commit. ch_commit_id commit = hd_latest_checkpoint_commit_id head) commits)
                     (Transport (lit ''latest checkpoint '' @ hd_latest_checkpoint_commit_id head @
                        lit '' is missing from remote history''))
              else ok_or (map_option Suc (position (\<lambda>commit. ch_commit_id commit = local_head) commits))
                (Transport (lit ''local head '' @ local_head @ lit '' is not present in remote history'')))
             (\<lambda>start_index.
               let replay = drop start_index commits
               in if replay = [] \<or> ch_commit_id (last replay) \<noteq> hd_current_head_commit_id head
                  then Inl (Transport (lit ''remote history does not include head '' @ hd_current_head_commit_id head))
                  else Inr \<lparr>rs_commits = replay,
                    rs_bootstrapped_from_checkpoint =
                      (local_head = [] \<and> hd_latest_checkpoint_commit_id head \<noteq> [])\<rparr>))"

section \<open>Checks\<close>

definition validate_required :: "rstr \<Rightarrow> rstr \<Rightarrow> unit sync_result" where
  "validate_required value field =
     res_guard (str_trim value \<noteq> []) (InvalidArgument (field @ lit '' is required''))"

definition empty_to_none :: "rstr \<Rightarrow> rstr option" where
  "empty_to_none value = (if value = [] then None else Some value)"

fun commit_kind_label :: "sync_commit_kind \<Rightarrow> rstr sync_result" where
  "commit_kind_label Kind_Checkpoint = Inr (lit ''checkpoint'')"
| "commit_kind_label Kind_Incremental = Inr (lit ''incremental'')"
| "commit_kind_label Kind_Merge = Inr (lit ''merge'')"
| "commit_kind_label Kind_Unspecified = Inl (InvalidArgument (lit ''unsupported sync commit kind''))"

definition object_kind_for_pack_kind :: "rstr \<Rightarrow> sync_object_kind sync_result" where
  "object_kind_for_pack_kind pack_kind =
     (if pack_kind = CONTENT_PACK_KIND then Inr Object_ContentPack
      else if pack_kind = CHECKPOINT_PACK_KIND then Inr Object_CheckpointPack
      else Inl (InvalidArgument (lit ''unsupported sync pack kind: '' @ pack_kind)))"

fun pack_kind_for_object_kind :: "sync_object_kind \<Rightarrow> rstr sync_result" where
  "pack_kind_for_object_kind Object_ContentPack = Inr CONTENT_PACK_KIND"
| "pack_kind_for_object_kind Object_CheckpointPack = Inr CHECKPOINT_PACK_KIND"
| "pack_kind_for_object_kind _ = Inl (InvalidArgument (lit ''sync object is not a decryptable pack''))"

definition validate_pack_ref :: "commit_body_pack_ref \<Rightarrow> rstr set \<Rightarrow> (rstr set) sync_result" where
  "validate_pack_ref pack seen =
     res_bind (validate_required (pr_object_id pack) (lit ''pack.object_id'')) (\<lambda>_.
     if pr_object_id pack \<in> seen
     then Inl (Integrity (lit ''duplicate pack object in commit body: '' @ pr_object_id pack))
     else res_bind (object_kind_for_pack_kind (pr_pack_kind pack)) (\<lambda>_.
       Inr (insert (pr_object_id pack) seen)))"

definition validate_packs :: "commit_body \<Rightarrow> unit sync_result" where
  "validate_packs body = res_bind (res_fold validate_pack_ref (bd_packs body) {}) (\<lambda>_. Inr ())"

definition validate_commit_body :: "sync_commit_header \<Rightarrow> rstr \<Rightarrow> commit_body \<Rightarrow> unit sync_result" where
  "validate_commit_body header commit_kind body =
     (if bd_format body \<noteq> lit ''kuku.sync.commit-body''
      then Inl (Serialization (lit ''unsupported sync commit body format''))
      else if bd_version body \<noteq> 1 then Inl (UnsupportedVersion (bd_version body))
      else if bd_commit_id body \<noteq> ch_commit_id header then Inl (Integrity (lit ''commit body id mismatch''))
      else if bd_commit_kind body \<noteq> commit_kind then Inl (Integrity (lit ''commit body kind mismatch''))
      else if bd_parent_commit_ids body \<noteq> ch_parent_commit_ids header
      then Inl (Integrity (lit ''commit body parents mismatch''))
      else if sort (map pr_object_id (bd_packs body)) \<noteq> sort (ch_referenced_object_ids header)
      then Inl (Integrity (lit ''commit body referenced objects mismatch''))
      else validate_packs body)"

definition validate_downloaded_commit_body ::
  "crypto_prims \<Rightarrow> sync_commit_header \<Rightarrow> downloaded_object \<Rightarrow> unit sync_result" where
  "validate_downloaded_commit_body prims header object =
     (if dl_object_id object \<noteq> ch_body_object_id header
      then Inl (Integrity (lit ''commit body object id mismatch''))
      else if dl_kind object \<noteq> Object_CommitBody
      then Inl (Integrity (lit ''commit body object kind mismatch''))
      else if dl_ciphertext_sha256 object \<noteq> ch_body_ciphertext_sha256 header
      then Inl (Integrity (lit ''commit body ciphertext hash mismatch''))
      else if bm_size_bytes (encrypted_blob_metadata prims (dl_ciphertext object)) \<noteq> ch_body_size_bytes header
      then Inl (Integrity (lit ''commit body ciphertext size mismatch''))
      else Inr ())"

definition validate_downloaded_pack :: "commit_body_pack_ref \<Rightarrow> downloaded_object \<Rightarrow> unit sync_result" where
  "validate_downloaded_pack pack_ref object =
     (if dl_object_id object \<noteq> pr_object_id pack_ref then Inl (Integrity (lit ''pack object id mismatch''))
      else
        res_bind (object_kind_for_pack_kind (pr_pack_kind pack_ref)) (\<lambda>expected_kind.
        if dl_kind object \<noteq> expected_kind then Inl (Integrity (lit ''pack object kind mismatch''))
        else Inr ()))"

definition validate_remote_file_identity ::
  "(bytes \<Rightarrow> rstr) \<Rightarrow> (rstr \<Rightarrow> rstr) \<Rightarrow> rstr \<Rightarrow> rstr \<Rightarrow> rstr \<Rightarrow> unit sync_result" where
  "validate_remote_file_identity hash lower file_id path normalized_path =
     res_bind (validate_required file_id (lit ''file_id'')) (\<lambda>_.
     res_bind (validate_required path (lit ''path'')) (\<lambda>_.
     res_bind (normalize_vault_relative_path lower path) (\<lambda>observed_normalized.
     if observed_normalized \<noteq> normalized_path
     then Inl (Integrity (lit ''remote file normalized path mismatch for '' @ path))
     else if file_id_for_normalized_path hash normalized_path \<noteq> file_id
     then Inl (Integrity (lit ''remote file id mismatch for '' @ normalized_path))
     else if \<not> is_markdown_path (path_components path)
     then Inl (InvalidArgument (lit ''remote file is not markdown: '' @ path))
     else Inr ())))"

definition validate_plaintext_metadata :: "(bytes \<Rightarrow> rstr) \<Rightarrow> rstr \<Rightarrow> bytes \<Rightarrow> rstr \<Rightarrow> int \<Rightarrow> unit sync_result" where
  "validate_plaintext_metadata hash path plaintext plaintext_hash size_bytes =
     res_bind (ok_or (i64_try_from_usize (length plaintext))
       (InvalidArgument (lit ''remote file is too large: '' @ path))) (\<lambda>observed_size.
     if observed_size \<noteq> size_bytes then Inl (Integrity (lit ''remote file size mismatch: '' @ path))
     else if hash plaintext \<noteq> plaintext_hash
     then Inl (Integrity (lit ''remote file plaintext hash mismatch: '' @ path))
     else Inr ())"

definition pack_entry_plaintext ::
  "(rstr \<times> unpacked_pack) list \<Rightarrow> commit_body_content_ref \<Rightarrow> bytes sync_result" where
  "pack_entry_plaintext packs content_ref =
     res_bind (ok_or (bt_get packs (cr_object_id content_ref))
       (Integrity (lit ''content pack '' @ cr_object_id content_ref @ lit '' missing from commit''))) (\<lambda>pack.
     ok_or (up_entries pack (cr_entry_id content_ref))
       (Integrity (lit ''content pack entry '' @ cr_entry_id content_ref @ lit '' missing from '' @
          cr_object_id content_ref)))"

section \<open>The tree of a commit\<close>

definition tree_cache_entry_body :: "sync_tree_entry_record list \<Rightarrow> tree_cache_entry list" where
  "tree_cache_entry_body entries =
     map (\<lambda>entry. \<lparr>tc_file_id = te_file_id entry, tc_normalized_path = te_normalized_path entry,
       tc_plaintext_hash = te_plaintext_hash entry, tc_content_object_id = te_content_object_id entry,
       tc_pack_entry_id = te_pack_entry_id entry, tc_kind = te_kind entry\<rparr>) entries"

definition tree_id_for_entries ::
  "(bytes \<Rightarrow> rstr) \<Rightarrow> (tree_cache_entry list \<Rightarrow> rstr + bytes) \<Rightarrow> sync_tree_entry_record list \<Rightarrow> rstr sync_result" where
  "tree_id_for_entries hash to_vec entries =
     res_bind (json_result (to_vec (tree_cache_entry_body entries))) (\<lambda>json.
     Inr (lit ''tree_'' @ take 32 (hash json)))"

definition validate_tree_id ::
  "(bytes \<Rightarrow> rstr) \<Rightarrow> (tree_cache_entry list \<Rightarrow> rstr + bytes) \<Rightarrow> rstr \<Rightarrow> sync_tree_entry_record list \<Rightarrow> unit sync_result" where
  "validate_tree_id hash to_vec tree_id entries =
     res_bind (tree_id_for_entries hash to_vec entries) (\<lambda>observed.
     if observed \<noteq> tree_id
     then Inl (Integrity (lit ''commit tree id mismatch: expected '' @ tree_id @ lit '', got '' @ observed))
     else Inr ())"

definition tree_json_for_entries ::
  "(tree_cache_entry list \<Rightarrow> rstr + rstr) \<Rightarrow> sync_tree_entry_record list \<Rightarrow> rstr sync_result" where
  "tree_json_for_entries to_string entries = json_result (to_string (tree_cache_entry_body entries))"

fun op_file_id :: "commit_body_file_op \<Rightarrow> rstr" where
  "op_file_id (UpsertFile file_id _ _ _ _ _) = file_id"
| "op_file_id (DeleteFile file_id _ _) = file_id"

text \<open>A \<open>BTreeSet\<close> read in order.\<close>

definition changed_file_ids :: "commit_body \<Rightarrow> rstr list" where
  "changed_file_ids body = sort (remdups (map op_file_id (bd_changes body)))"

definition upsert_tree_entry ::
  "sync_commit_header \<Rightarrow> rstr \<Rightarrow> rstr \<Rightarrow> rstr \<Rightarrow> commit_body_content_ref \<Rightarrow> sync_tree_entry_record" where
  "upsert_tree_entry header file_id normalized_path plaintext_hash content_ref =
     \<lparr>te_commit_id = ch_commit_id header, te_file_id = file_id, te_normalized_path = normalized_path,
      te_plaintext_hash = Some plaintext_hash, te_content_object_id = Some (cr_object_id content_ref),
      te_pack_entry_id = Some (cr_entry_id content_ref), te_kind = FILE_KIND_MARKDOWN\<rparr>"

definition start_tree :: "sync_commit_header \<Rightarrow> file_tree \<Rightarrow> file_tree" where
  "start_tree header tree = (if ch_commit_kind header = Kind_Checkpoint then [] else tree)"

fun materialize_change ::
  "(bytes \<Rightarrow> rstr) \<Rightarrow> (rstr \<Rightarrow> rstr) \<Rightarrow> decrypted_commit \<Rightarrow> commit_body_file_op \<Rightarrow> file_tree \<Rightarrow> file_tree sync_result" where
  "materialize_change hash lower commit (UpsertFile file_id path normalized_path plaintext_hash size_bytes content_ref) tree =
     res_bind (validate_remote_file_identity hash lower file_id path normalized_path) (\<lambda>_.
     res_bind (pack_entry_plaintext (dc_packs commit) content_ref) (\<lambda>plaintext.
     res_bind (validate_plaintext_metadata hash path plaintext plaintext_hash size_bytes) (\<lambda>_.
     Inr (bt_insert file_id
       (upsert_tree_entry (dc_header commit) file_id normalized_path plaintext_hash content_ref) tree))))"
| "materialize_change hash lower commit (DeleteFile file_id path normalized_path) tree =
     res_bind (validate_remote_file_identity hash lower file_id path normalized_path) (\<lambda>_.
     Inr (bt_remove file_id tree))"

definition materialize_remote_tree_only ::
  "(bytes \<Rightarrow> rstr) \<Rightarrow> (rstr \<Rightarrow> rstr) \<Rightarrow> decrypted_commit \<Rightarrow> file_tree \<Rightarrow> file_tree sync_result" where
  "materialize_remote_tree_only hash lower commit tree =
     res_fold (materialize_change hash lower commit) (bd_changes (dc_body commit)) (start_tree (dc_header commit) tree)"

definition conflict_id_for :: "(bytes \<Rightarrow> rstr) \<Rightarrow> rstr \<Rightarrow> rstr \<Rightarrow> rstr option \<Rightarrow> rstr \<Rightarrow> int \<Rightarrow> rstr" where
  "conflict_id_for hash path conflict_path base_commit_id remote_commit_id created_at_ms =
     (let input = as_bytes path @ [0] @ as_bytes conflict_path @ [0] @
            (case base_commit_id of Some c \<Rightarrow> as_bytes c | None \<Rightarrow> []) @ [0] @
            as_bytes remote_commit_id @ [0] @ as_bytes (fmt_int created_at_ms)
      in lit ''conflict_'' @ take 32 (hash input))"


section \<open>Facts on the log\<close>

lemma append_commit_page_Inr:
  "append_commit_page commits page = Inr out \<longleftrightarrow> out = commits @ page \<and>
     (\<forall>i<length page. i = 0 \<and> commits = [] \<or>
        ch_server_seq ((last commits # page) ! i) < ch_server_seq (page ! i))"
proof (induction commits page rule: append_commit_page.induct)
  case (2 commits commit page)
  have split: "(\<forall>i<Suc n. P i) \<longleftrightarrow> P 0 \<and> (\<forall>i<n. P (Suc i))" for n and P :: "nat \<Rightarrow> bool"
    using less_Suc_eq_0_disj by auto
  show ?case using 2 by (auto simp: split not_le)
qed auto

lemma sorted_snoc_page:
  assumes "sorted_wrt (<) (map ch_server_seq commits)"
    and "append_commit_page commits page = Inr out"
  shows "sorted_wrt (<) (map ch_server_seq out)"
  using assms
proof (induction commits page rule: append_commit_page.induct)
  case (2 commits commit page)
  have "\<forall>c\<in>set commits. ch_server_seq c \<le> ch_server_seq (last commits)" if "commits \<noteq> []"
    using 2(2) that by (cases commits rule: rev_cases) (auto simp: sorted_wrt_append less_imp_le)
  then have "sorted_wrt (<) (map ch_server_seq (commits @ [commit]))"
    using 2(2,3) by (cases "commits = []") (auto simp: sorted_wrt_append not_le split: if_splits)
  then show ?case using 2 by (auto split: if_splits)
qed simp

lemma list_commits_loop_sorted:
  "sorted_wrt (<) (map ch_server_seq commits) \<Longrightarrow> list_commits_loop api ws after commits = Inr out \<Longrightarrow>
     sorted_wrt (<) (map ch_server_seq out)"
proof (induction api ws after commits rule: list_commits_loop.induct)
  case (1 api ws after commits)
  obtain page mid where page: "api ws after LIST_COMMITS_PAGE_SIZE = Inr page"
    and mid: "append_commit_page commits (lc_commits page) = Inr mid"
    using 1(3) by (subst (asm) list_commits_loop.simps) (auto split: sum.splits)
  note s = sorted_snoc_page [OF 1(2) mid]
  show ?case
  proof (cases "lc_has_more page")
    case True
    let ?cursor = "wrap_i64 (lc_next_after_server_seq page)"
    have "list_commits_loop api ws after commits =
        (if ?cursor \<le> after then Inl (Transport (lit ''ListCommits did not advance pagination cursor''))
         else list_commits_loop api ws ?cursor mid)"
      by (subst list_commits_loop.simps) (simp add: page mid True Let_def)
    then have "\<not> ?cursor \<le> after" "list_commits_loop api ws ?cursor mid = Inr out"
      using 1(3) by (simp_all split: if_splits)
    then show ?thesis using 1(1) [OF page mid _ refl] True s by simp
  next
    case False
    then show ?thesis using 1(3) s page mid by (subst (asm) list_commits_loop.simps) simp
  qed
qed

text \<open>A server that pages through a log: at most \<open>n\<close> commits after the cursor, in order.\<close>

definition server_page :: "sync_commit_header list \<Rightarrow> int \<Rightarrow> int \<Rightarrow> list_commits_output" where
  "server_page history cursor n =
     (let rest = filter (\<lambda>c. cursor < ch_server_seq c) history; page = take (nat n) rest
      in \<lparr>lc_commits = page, lc_has_more = nat n < length rest,
          lc_next_after_server_seq = (if page = [] then cursor else ch_server_seq (last page))\<rparr>)"

definition cursor_at :: "sync_commit_header list \<Rightarrow> nat \<Rightarrow> int" where
  "cursor_at history k = (if k = 0 then 0 else ch_server_seq (history ! (k - 1)))"

lemma rest_at_cursor:
  assumes "sorted_wrt (<) (map ch_server_seq history)" "\<forall>c\<in>set history. 0 < ch_server_seq c" "k \<le> length history"
  shows "filter (\<lambda>c. cursor_at history k < ch_server_seq c) history = drop k history"
proof -
  have mono: "ch_server_seq (history ! i) < ch_server_seq (history ! j)" if "i < j" "j < length history" for i j
    using assms(1) that by (simp add: sorted_wrt_iff_nth_less)
  have low: "\<not> cursor_at history k < ch_server_seq c" if "c \<in> set (take k history)" for c
  proof -
    from that obtain i where i: "i < k" "c = history ! i" using assms(3) by (auto simp: in_set_conv_nth)
    then have "i = k - 1 \<or> i < k - 1" "k - 1 < length history" using assms(3) by linarith+
    then have "ch_server_seq (history ! i) \<le> ch_server_seq (history ! (k - 1))"
      using mono [of i "k - 1"] by (metis less_imp_le order_refl)
    then show ?thesis using i by (simp add: cursor_at_def)
  qed
  have high: "cursor_at history k < ch_server_seq c" if "c \<in> set (drop k history)" for c
  proof -
    from that obtain i where "i < length (drop k history)" "c = drop k history ! i" by (metis in_set_conv_nth)
    then have i: "k + i < length history" "c = history ! (k + i)" by simp_all
    then show ?thesis using mono [of "k - 1" "k + i"] assms(2) by (auto simp: cursor_at_def)
  qed
  have "filter (\<lambda>c. cursor_at history k < ch_server_seq c) (take k history @ drop k history) = drop k history"
    unfolding filter_append using low high by (auto simp: filter_id_conv filter_empty_conv)
  then show ?thesis by simp
qed

lemma append_sorted_page:
  assumes "sorted_wrt (<) (map ch_server_seq (commits @ page))"
  shows "append_commit_page commits page = Inr (commits @ page)"
  using assms
proof (induction page arbitrary: commits)
  case (Cons c page)
  have "commits \<noteq> [] \<Longrightarrow> ch_server_seq (last commits) < ch_server_seq c"
    using Cons.prems by (cases commits rule: rev_cases) (auto simp: sorted_wrt_append)
  then show ?case using Cons.IH [of "commits @ [c]"] Cons.prems by auto
qed simp

text \<open>The contract of the protocol: the commits after the cursor in order, at most \<open>n\<close> of them and at
  least one unless none is left (the server applies a cap of its own), the flag that says whether more
  are available, and the number of the last one as the next cursor.\<close>

definition pages_history :: "list_commits_api \<Rightarrow> rstr \<Rightarrow> sync_commit_header list \<Rightarrow> bool" where
  "pages_history api workspace_id history =
     (\<forall>cursor n. 0 < n \<longrightarrow> (\<exists>m. 0 < m \<and> m \<le> n \<and> api workspace_id cursor n = Inr (server_page history cursor m)))"

lemma server_page_at_cursor:
  assumes "filter (\<lambda>c. cursor_at history k < ch_server_seq c) history = drop k history" "0 < m"
  shows "lc_commits (server_page history (cursor_at history k) m) = take (nat m) (drop k history)"
    and "lc_has_more (server_page history (cursor_at history k) m) \<longleftrightarrow> nat m < length history - k"
    and "nat m < length history - k \<Longrightarrow>
      lc_next_after_server_seq (server_page history (cursor_at history k) m) = cursor_at history (k + nat m)"
proof -
  show "lc_commits (server_page history (cursor_at history k) m) = take (nat m) (drop k history)"
    "lc_has_more (server_page history (cursor_at history k) m) \<longleftrightarrow> nat m < length history - k"
    by (simp_all add: server_page_def assms(1) Let_def)
  assume more: "nat m < length history - k"
  then have "take (nat m) (drop k history) \<noteq> []" using assms(2) by auto
  moreover from this have "last (take (nat m) (drop k history)) = history ! (k + nat m - 1)"
    using more assms(2) by (simp add: last_conv_nth)
  ultimately show "lc_next_after_server_seq (server_page history (cursor_at history k) m) = cursor_at history (k + nat m)"
    using assms(2) by (simp add: server_page_def assms(1) Let_def) (simp add: cursor_at_def)
qed

lemma list_commits_loop_complete:
  assumes api: "pages_history api ws history"
    and sorted: "sorted_wrt (<) (map ch_server_seq history)"
    and range: "\<forall>c\<in>set history. 0 < ch_server_seq c \<and> ch_server_seq c \<le> i64_max" and k: "k \<le> length history"
  shows "list_commits_loop api ws (cursor_at history k) (take k history) = Inr history"
  using k
proof (induction "length history - k" arbitrary: k rule: less_induct)
  case less
  have pos: "\<forall>c\<in>set history. 0 < ch_server_seq c" using range by blast
  note rest = rest_at_cursor [OF sorted pos less.prems]
  obtain m where m: "0 < m" and answer: "api ws (cursor_at history k) LIST_COMMITS_PAGE_SIZE =
      Inr (server_page history (cursor_at history k) m)"
    using api by (force simp: pages_history_def LIST_COMMITS_PAGE_SIZE_def)
  note page = server_page_at_cursor [OF rest m]
  let ?page = "take (nat m) (drop k history)" and ?next = "cursor_at history (k + nat m)"
  have taken: "take k history @ ?page = take (k + nat m) history" by (simp add: take_add)
  have app: "append_commit_page (take k history) ?page = Inr (take (k + nat m) history)"
    using append_sorted_page [of "take k history" ?page] sorted unfolding taken
    by (simp add: take_map [symmetric] sorted_wrt_take)
  show ?case
  proof (cases "nat m < length history - k")
    case False
    then have "?page = drop k history" "take (k + nat m) history = history" by simp_all
    with app have "append_commit_page (take k history) (drop k history) = Inr history" by simp
    with False show ?thesis by (subst list_commits_loop.simps) (simp add: page answer)
  next
    case True
    have mem: "history ! (k + nat m - 1) \<in> set (drop k history)"
      using True m by (auto simp: in_set_conv_nth intro!: exI [of _ "nat m - 1"])
    then have "0 < ch_server_seq (history ! (k + nat m - 1)) \<and> ch_server_seq (history ! (k + nat m - 1)) \<le> i64_max"
      using range by (blast dest: in_set_dropD)
    then have fits: "wrap_i64 ?next = ?next" using m by (intro wrap_i64_id) (simp_all add: cursor_at_def)
    have "cursor_at history k < ?next"
      using mem m unfolding rest [symmetric] by (simp add: cursor_at_def)
    then show ?thesis using less.hyps [of "k + nat m"] True m
      by (subst list_commits_loop.simps) (simp add: page answer app fits Let_def)
  qed
qed

section \<open>Facts on the selection\<close>

lemma position_Some: "position p xs = Some i \<Longrightarrow> i < length xs \<and> p (xs ! i)"
  by (induction xs arbitrary: i) (auto split: if_splits)

lemma position_distinct:
  assumes "distinct (map f xs)" "i < length xs"
  shows "position (\<lambda>x. f x = f (xs ! i)) xs = Some i"
  using assms
proof (induction xs arbitrary: i)
  case (Cons x xs)
  then show ?case by (cases i) (auto simp: nth_eq_iff_index_eq image_iff)
qed simp

lemma split_at_position:
  assumes "distinct (map ch_commit_id commits)"
  shows "position (\<lambda>c. ch_commit_id c = i) commits = Some k \<longleftrightarrow>
    k < length commits \<and> ch_commit_id (commits ! k) = i"
  using position_distinct [OF assms, of k] position_Some [of "\<lambda>c. ch_commit_id c = i" commits k] by auto

definition start_index :: "sync_vault_record \<Rightarrow> sync_head \<Rightarrow> sync_commit_header list \<Rightarrow> nat option" where
  "start_index vault head commits =
     (if local_head_of vault \<noteq> []
      then map_option Suc (position (\<lambda>c. ch_commit_id c = local_head_of vault) commits)
      else if hd_latest_checkpoint_commit_id head = [] then Some 0
      else position (\<lambda>c. ch_commit_id c = hd_latest_checkpoint_commit_id head) commits)"

lemma select_replay_commits_Inr:
  assumes "local_head_of vault \<noteq> hd_current_head_commit_id head"
  shows "select_replay_commits vault head commits = Inr sel \<longleftrightarrow>
    (\<exists>k. start_index vault head commits = Some k \<and> rs_commits sel = drop k commits \<and>
       rs_commits sel \<noteq> [] \<and> ch_commit_id (last (rs_commits sel)) = hd_current_head_commit_id head) \<and>
    rs_bootstrapped_from_checkpoint sel =
      (local_head_of vault = [] \<and> hd_latest_checkpoint_commit_id head \<noteq> [])"
  using assms by (cases sel)
    (auto simp: select_replay_commits_def start_index_def Let_def res_bind_eq_Inr ok_or_def split: if_splits option.splits)

lemma start_index_Some:
  assumes "distinct (map ch_commit_id commits)" "k < length commits"
  shows "start_index vault head commits = Some k \<longleftrightarrow>
    (if local_head_of vault \<noteq> [] then take k commits \<noteq> [] \<and> ch_commit_id (last (take k commits)) = local_head_of vault
     else if hd_latest_checkpoint_commit_id head \<noteq> []
     then ch_commit_id (hd (drop k commits)) = hd_latest_checkpoint_commit_id head
     else take k commits = [])"
  using assms(2) split_at_position [OF assms(1)]
  by (cases k) (auto simp: start_index_def hd_drop_conv_nth take_Suc_conv_app_nth hd_conv_nth)


section \<open>Claims\<close>

text \<open>
  C35. Paging returns the whole history: if the server answers every request with the next commits after
  the cursor, at most as many as asked for and possibly fewer, then whatever the length of its log the
  client ends and returns exactly the log, in order, with nothing missing or repeated across pages.
\<close>
theorem list_all_commits_complete:
  assumes "pages_history list_commits workspace_id history"
    and "sorted_wrt (<) (map ch_server_seq history)"
    and "\<forall>c\<in>set history. 0 < ch_server_seq c \<and> ch_server_seq c \<le> i64_max"
  shows "list_all_commits list_commits workspace_id = Inr history"
  using list_commits_loop_complete [OF assms, of 0] by (simp add: list_all_commits_def cursor_at_def)

definition example_header :: "rstr \<Rightarrow> int \<Rightarrow> sync_commit_header" where
  "example_header commit_id seq = \<lparr>ch_commit_id = commit_id, ch_commit_kind = Kind_Incremental,
     ch_expected_head_commit_id = [], ch_parent_commit_ids = [], ch_author_device_id = [], ch_device_seq = 1,
     ch_body_object_id = [], ch_body_ciphertext_sha256 = [], ch_body_size_bytes = 0,
     ch_referenced_object_ids = [], ch_signature = [], ch_server_seq = seq\<rparr>"

definition example_history :: "sync_commit_header list" where
  "example_history = [example_header [1] 1, example_header [2] 2]"

definition example_list_commits :: list_commits_api where
  "example_list_commits workspace_id cursor n = Inr (server_page example_history cursor (min n 1))"

lemma example_history_paged:
  "pages_history example_list_commits ws example_history" "sorted_wrt (<) (map ch_server_seq example_history)"
  "\<forall>c\<in>set example_history. 0 < ch_server_seq c \<and> ch_server_seq c \<le> i64_max"
proof -
  have "\<exists>m. 0 < m \<and> m \<le> n \<and> example_list_commits ws cursor n = Inr (server_page example_history cursor m)"
    if "0 < n" for cursor n
    using that unfolding example_list_commits_def by (intro exI [of _ "min n 1"]) simp
  then show "pages_history example_list_commits ws example_history" unfolding pages_history_def by blast
qed (simp_all add: example_history_def example_header_def i64_max_def)

theorem list_all_commits_complete_witness:
  "list_all_commits example_list_commits (lit ''w'') = Inr [example_header [1] 1, example_header [2] 2]"
  using list_all_commits_complete [OF example_history_paged] by (simp add: example_history_def)

text \<open>
  Whatever a server answers, a history that the client accepts has strictly increasing server
  sequence numbers, so no commit occurs twice in it.
\<close>
theorem list_all_commits_increasing:
  assumes "list_all_commits api workspace_id = Inr commits"
  shows "sorted_wrt (<) (map ch_server_seq commits) \<and> distinct commits"
proof -
  have "sorted_wrt (<) (map ch_server_seq commits)"
    using list_commits_loop_sorted [of "[]"] assms by (simp add: list_all_commits_def)
  then show ?thesis by (auto simp: strict_sorted_iff distinct_map)
qed

theorem list_all_commits_increasing_witness:
  "\<exists>commits. list_all_commits example_list_commits [] = Inr commits \<and> commits \<noteq> [] \<and> distinct commits"
proof -
  have r: "list_all_commits example_list_commits [] = Inr example_history"
    using list_commits_loop_complete [OF example_history_paged, of 0] by (simp add: list_all_commits_def cursor_at_def)
  show ?thesis using list_all_commits_increasing [OF r] r by (auto simp: example_history_def)
qed

text \<open>
  The commits to replay are exactly the missing part of the history: the selection succeeds exactly
  when the history splits into a part that ends with the local head (or is empty, or ends before
  the latest checkpoint, for a new device) and a rest that ends with the remote head, and the rest
  is what is replayed; nothing is replayed when the heads agree.
\<close>
theorem select_replay_commits_exact:
  assumes "distinct (map ch_commit_id commits)"
  shows "select_replay_commits vault head commits = Inr sel \<longleftrightarrow>
    (let local = local_head_of vault; cur = hd_current_head_commit_id head;
         checkpoint = hd_latest_checkpoint_commit_id head in
     if local = cur then sel = \<lparr>rs_commits = [], rs_bootstrapped_from_checkpoint = False\<rparr>
     else rs_bootstrapped_from_checkpoint sel = (local = [] \<and> checkpoint \<noteq> []) \<and>
       (\<exists>before. commits = before @ rs_commits sel \<and> rs_commits sel \<noteq> [] \<and> ch_commit_id (last (rs_commits sel)) = cur \<and>
         (if local \<noteq> [] then before \<noteq> [] \<and> ch_commit_id (last before) = local
          else if checkpoint \<noteq> [] then ch_commit_id (hd (rs_commits sel)) = checkpoint
          else before = [])))"
proof (cases "local_head_of vault = hd_current_head_commit_id head")
  case True
  then show ?thesis by (auto simp: select_replay_commits_def Let_def)
next
  case False
  have rest: "(\<exists>before. commits = before @ xs \<and> xs \<noteq> [] \<and> Q \<and> P before) \<longleftrightarrow>
      (\<exists>k<length commits. xs = drop k commits \<and> xs \<noteq> [] \<and> Q \<and> P (take k commits))" for xs Q P
  proof
    assume "\<exists>before. commits = before @ xs \<and> xs \<noteq> [] \<and> Q \<and> P before"
    then obtain before where "commits = before @ xs" "xs \<noteq> []" Q "P before" by blast
    then show "\<exists>k<length commits. xs = drop k commits \<and> xs \<noteq> [] \<and> Q \<and> P (take k commits)"
      by (intro exI [of _ "length before"]) simp
  next
    assume "\<exists>k<length commits. xs = drop k commits \<and> xs \<noteq> [] \<and> Q \<and> P (take k commits)"
    then show "\<exists>before. commits = before @ xs \<and> xs \<noteq> [] \<and> Q \<and> P before" by (metis append_take_drop_id)
  qed
  let ?at = "\<lambda>before. if local_head_of vault \<noteq> [] then before \<noteq> [] \<and> ch_commit_id (last before) = local_head_of vault
     else if hd_latest_checkpoint_commit_id head \<noteq> []
     then ch_commit_id (hd (rs_commits sel)) = hd_latest_checkpoint_commit_id head else before = []"
  have at: "start_index vault head commits = Some k \<longleftrightarrow> ?at (take k commits)"
    if "rs_commits sel = drop k commits" "k < length commits" for k
    unfolding start_index_Some [OF assms that(2)] that(1) ..
  have "(\<exists>k. start_index vault head commits = Some k \<and> rs_commits sel = drop k commits \<and> rs_commits sel \<noteq> [] \<and> Q) \<longleftrightarrow>
      (\<exists>k<length commits. rs_commits sel = drop k commits \<and> rs_commits sel \<noteq> [] \<and> Q \<and> ?at (take k commits))" for Q
    using at by (metis drop_eq_Nil linorder_not_le)
  then show ?thesis
    unfolding select_replay_commits_Inr [OF False] Let_def if_not_P [OF False] rest by blast
qed

definition example_sync_vault :: "rstr option \<Rightarrow> sync_vault_record" where
  "example_sync_vault local = \<lparr>sv_vault_id = lit ''v'', sv_root_path = [], sv_remote_workspace_id = [],
      sv_remote_head_commit_id = None, sv_local_head_commit_id = local, sv_device_id = [],
      sv_next_device_seq = 1, sv_enabled = True, sv_created_at_ms = 0, sv_updated_at_ms = 0\<rparr>"

theorem select_replay_commits_exact_witness:
  "select_replay_commits (example_sync_vault (Some [1]))
     \<lparr>hd_current_head_commit_id = [2], hd_head_version = 2, hd_latest_checkpoint_commit_id = []\<rparr>
     [example_header [1] 1, example_header [2] 2] =
   Inr \<lparr>rs_commits = [example_header [2] 2], rs_bootstrapped_from_checkpoint = False\<rparr>"
  by (subst select_replay_commits_exact)
    (auto simp: example_header_def example_sync_vault_def local_head_of_def Let_def intro: exI [where x = "[_]"])

end
