(* ===== verification/Sync_Merge.thy ===== *)
theory Sync_Merge
  imports Utf8 Rust_Path Sync_Errors
begin

text \<open>
  \<open>sync/merge.rs\<close>: the three way merge of a Markdown file that both sides changed, and the name of
  the conflict copy that keeps the other version when the merge fails. The merge compares the three
  texts line by line at equal line numbers. The directory that \<open>conflict_copy_relative_path\<close>
  looks into is the predicate \<open>exists\<close>.
\<close>

section \<open>Three way merge\<close>

datatype markdown_merge_outcome = Merged bytes | Conflict

definition utf8_or_conflict :: "bytes \<Rightarrow> rstr sync_result" where
  "utf8_or_conflict bs =
     (case from_utf8 bs of
        Some value \<Rightarrow> Inr value
      | None \<Rightarrow> Inl (InvalidArgument (lit ''markdown merge requires utf-8 content'')))"

definition split_lines :: "rstr \<Rightarrow> rstr list" where
  "split_lines text = (if text = [] then [] else split_inclusive text)"

definition line_at :: "rstr list \<Rightarrow> nat \<Rightarrow> rstr" where
  "line_at lines index = (if index < length lines then lines ! index else [])"

text \<open>The body of the loop: \<open>None\<close> is the early return of \<open>Conflict\<close>.\<close>

definition merge_line :: "rstr \<Rightarrow> rstr \<Rightarrow> rstr \<Rightarrow> rstr option" where
  "merge_line base_line local_line remote_line =
     (if local_line = remote_line then Some local_line
      else if local_line = base_line then Some remote_line
      else if remote_line = base_line then Some local_line
      else None)"

fun merge_loop :: "rstr list \<Rightarrow> rstr list \<Rightarrow> rstr list \<Rightarrow> nat list \<Rightarrow> rstr \<Rightarrow> rstr option" where
  "merge_loop bl ll rl [] merged = Some merged"
| "merge_loop bl ll rl (index # rest) merged =
     (case merge_line (line_at bl index) (line_at ll index) (line_at rl index) of
        None \<Rightarrow> None
      | Some line \<Rightarrow> merge_loop bl ll rl rest (merged @ line))"

definition merge_markdown :: "bytes \<Rightarrow> bytes \<Rightarrow> bytes \<Rightarrow> markdown_merge_outcome sync_result" where
  "merge_markdown base local remote =
     (if local = remote then Inr (Merged local)
      else if base = local then Inr (Merged remote)
      else if base = remote then Inr (Merged local)
      else
        res_bind (utf8_or_conflict base) (\<lambda>base.
        res_bind (utf8_or_conflict local) (\<lambda>local.
        res_bind (utf8_or_conflict remote) (\<lambda>remote.
          let base_lines = split_lines base;
              local_lines = split_lines local;
              remote_lines = split_lines remote;
              max_len = max (max (length base_lines) (length local_lines)) (length remote_lines)
          in case merge_loop base_lines local_lines remote_lines [0..<max_len] [] of
               None \<Rightarrow> Inr Conflict
             | Some merged \<Rightarrow> Inr (Merged (as_bytes merged))))))"

section \<open>Conflict copy names\<close>

definition civil_from_days :: "int \<Rightarrow> int \<times> int \<times> int" where
  "civil_from_days days =
     (let z = days + 719468;
          era = tdiv (if z \<ge> 0 then z else z - 146096) 146097;
          doe = z - era * 146097;
          yoe = tdiv (doe - tdiv doe 1460 + tdiv doe 36524 - tdiv doe 146096) 365;
          y = yoe + era * 400;
          doy = doe - (365 * yoe + tdiv yoe 4 - tdiv yoe 100);
          mp = tdiv (5 * doy + 2) 153;
          day = doy - tdiv (153 * mp + 2) 5 + 1;
          month = mp + (if mp < 10 then 3 else - 9);
          year = y + (if month \<le> 2 then 1 else 0)
      in (year, month, day))"

definition timestamp_utc :: "int \<Rightarrow> rstr" where
  "timestamp_utc ms =
     (let seconds = ms div 1000;
          days = seconds div 86400;
          seconds_of_day = seconds mod 86400;
          (year, month, day) = civil_from_days days;
          hour = tdiv seconds_of_day 3600;
          minute = tdiv (trem seconds_of_day 3600) 60;
          second = trem seconds_of_day 60
      in fmt_int_pad 4 year @ fmt_int_pad 2 month @ fmt_int_pad 2 day @ lit ''-''
         @ fmt_int_pad 2 hour @ fmt_int_pad 2 minute @ fmt_int_pad 2 second)"

fun relative_components :: "path \<Rightarrow> path \<Rightarrow> path sync_result" where
  "relative_components [] out = Inr out"
| "relative_components (Normal value # cs) out = relative_components cs (path_push out value)"
| "relative_components (CurDir # cs) out = relative_components cs out"
| "relative_components (_ # cs) out =
     Inl (InvalidArgument (lit ''conflict source path must be vault-relative''))"

definition validate_relative_path :: "rstr \<Rightarrow> path sync_result" where
  "validate_relative_path path =
     (if str_trim path = [] then Inl (InvalidArgument (lit ''conflict source path is required''))
      else
        res_bind (relative_components (path_components path) []) (\<lambda>out.
          if out = [] then Inl (InvalidArgument (lit ''conflict source path is required''))
          else Inr out))"

text \<open>A path of this module always comes from a \<open>str\<close>, so the not-UTF-8 branch of
  \<open>path_to_slash_string\<close> cannot be taken.\<close>

definition path_to_slash_string :: "path \<Rightarrow> rstr" where
  "path_to_slash_string p = str_replace_char backslash slash (path_to_str p)"

definition conflict_file_name :: "rstr \<Rightarrow> rstr \<Rightarrow> rstr option \<Rightarrow> nat \<Rightarrow> rstr" where
  "conflict_file_name stem timestamp extension suffix =
     (case (suffix = 1, extension) of
        (True, Some extension) \<Rightarrow> stem @ lit ''.conflict-'' @ timestamp @ lit ''.'' @ extension
      | (True, None) \<Rightarrow> stem @ lit ''.conflict-'' @ timestamp
      | (False, Some extension) \<Rightarrow>
          stem @ lit ''.conflict-'' @ timestamp @ lit ''-'' @ nat_digits suffix @ lit ''.'' @ extension
      | (False, None) \<Rightarrow> stem @ lit ''.conflict-'' @ timestamp @ lit ''-'' @ nat_digits suffix)"

text \<open>
  The loop \<open>for suffix in 1..\<close>. The suffix is an \<open>i32\<close>: \<open>fuel\<close> is the number of suffixes that
  are left before the counter overflows, and \<open>None\<close> is that overflow.
\<close>

function conflict_search :: "(rstr \<Rightarrow> bool) \<Rightarrow> (nat \<Rightarrow> rstr) \<Rightarrow> nat \<Rightarrow> nat \<Rightarrow> rstr option" where
  "conflict_search exists candidate fuel suffix =
     (if fuel = 0 then None
      else if \<not> exists (candidate suffix) then Some (candidate suffix)
      else conflict_search exists candidate (fuel - 1) (suffix + 1))"
  by pat_completeness auto
termination by (relation "measure (\<lambda>(_, _, fuel, _). fuel)") auto

declare conflict_search.simps [simp del]

lemma conflict_search_eval [std_simps]:
  "conflict_search exists candidate 0 suffix = None"
  "fuel \<noteq> 0 \<Longrightarrow> \<not> exists (candidate suffix)
    \<Longrightarrow> conflict_search exists candidate fuel suffix = Some (candidate suffix)"
  "fuel \<noteq> 0 \<Longrightarrow> exists (candidate suffix)
    \<Longrightarrow> conflict_search exists candidate fuel suffix
      = conflict_search exists candidate (fuel - 1) (suffix + 1)"
  by (simp_all add: conflict_search.simps [of exists candidate])

definition i32_suffixes :: nat where
  "i32_suffixes = 2147483647"

definition conflict_copy_relative_path ::
  "rstr \<Rightarrow> int \<Rightarrow> (rstr \<Rightarrow> bool) \<Rightarrow> (rstr option) sync_result" where
  "conflict_copy_relative_path original_path created_at_ms exists =
     res_bind (validate_relative_path original_path) (\<lambda>original.
       let timestamp = timestamp_utc created_at_ms;
           parent = path_pop original
       in res_bind (ok_or (path_file_stem original)
                     (InvalidArgument (lit ''conflict source path is invalid''))) (\<lambda>stem.
          let extension = path_extension original
          in Inr (conflict_search exists
               (\<lambda>suffix. path_to_slash_string
                  (path_join parent (conflict_file_name stem timestamp extension suffix)))
               i32_suffixes 1)))"

section \<open>Properties of the merge\<close>

text \<open>The reference merge: the line a side changed wins; two different changes conflict.\<close>

definition line_conflict :: "rstr \<Rightarrow> rstr \<Rightarrow> rstr \<Rightarrow> bool" where
  "line_conflict b l r \<longleftrightarrow> l \<noteq> r \<and> l \<noteq> b \<and> r \<noteq> b"

definition pick_line :: "rstr \<Rightarrow> rstr \<Rightarrow> rstr \<Rightarrow> rstr" where
  "pick_line b l r = (if l = b then r else l)"

definition merge_height :: "rstr \<Rightarrow> rstr \<Rightarrow> rstr \<Rightarrow> nat" where
  "merge_height b l r =
     max (max (length (split_lines b)) (length (split_lines l))) (length (split_lines r))"

definition reference_merge :: "rstr \<Rightarrow> rstr \<Rightarrow> rstr \<Rightarrow> markdown_merge_outcome" where
  "reference_merge b l r =
     (let line = (\<lambda>t i. line_at (split_lines t) i); n = merge_height b l r
      in if \<exists>i<n. line_conflict (line b i) (line l i) (line r i) then Conflict
         else Merged (as_bytes (concat (map (\<lambda>i. pick_line (line b i) (line l i) (line r i)) [0..<n]))))"

lemma merge_line_spec:
  "merge_line b l r = (if line_conflict b l r then None else Some (pick_line b l r))"
  by (auto simp: merge_line_def line_conflict_def pick_line_def)

lemma merge_loop_spec:
  "merge_loop bl ll rl is acc =
     (if \<exists>i\<in>set is. line_conflict (line_at bl i) (line_at ll i) (line_at rl i) then None
      else Some (acc @ concat (map (\<lambda>i. pick_line (line_at bl i) (line_at ll i) (line_at rl i)) is)))"
  by (induction "is" arbitrary: acc) (auto simp: merge_line_spec)

lemma concat_split_lines: "concat (split_lines t) = t"
  by (simp add: split_lines_def)

lemma concat_line_at: "length ls \<le> n \<Longrightarrow> concat (map (line_at ls) [0..<n]) = concat ls"
proof -
  assume n: "length ls \<le> n"
  have "[0..<n] = [0..<length ls] @ [length ls..<n]"
    using n by (metis le_add_diff_inverse upt_add_eq_append zero_le)
  moreover have "map (line_at ls) [0..<length ls] = ls"
    by (rule nth_equalityI) (auto simp: line_at_def)
  moreover have "concat (map (line_at ls) [length ls..<n]) = []"
    by (auto simp: line_at_def)
  ultimately show ?thesis by simp
qed

lemma reference_merge_equal_sides: "reference_merge b l l = Merged (as_bytes l)"
  by (simp add: reference_merge_def Let_def line_conflict_def pick_line_def merge_height_def
      concat_line_at concat_split_lines)

lemma reference_merge_unchanged_local: "reference_merge b b r = Merged (as_bytes r)"
  by (simp add: reference_merge_def Let_def line_conflict_def pick_line_def merge_height_def
      concat_line_at concat_split_lines)

lemma reference_merge_unchanged_remote: "reference_merge b l b = Merged (as_bytes l)"
proof -
  have "pick_line x y x = y" for x y :: rstr by (simp add: pick_line_def)
  then show ?thesis
    by (simp add: reference_merge_def Let_def line_conflict_def merge_height_def
        concat_line_at concat_split_lines)
qed

lemma reference_merge_commute: "reference_merge b l r = reference_merge b r l"
proof -
  have h: "merge_height b l r = merge_height b r l"
    by (simp add: merge_height_def max.commute max.left_commute)
  have c: "line_conflict x y z = line_conflict x z y" for x y z
    by (auto simp: line_conflict_def)
  have p: "\<not> line_conflict x y z \<Longrightarrow> pick_line x y z = pick_line x z y" for x y z
    by (auto simp: line_conflict_def pick_line_def)
  show ?thesis
    unfolding reference_merge_def Let_def h
    by (auto simp: c p intro!: arg_cong [where f = as_bytes] arg_cong [where f = concat])
qed

lemma merge_markdown_general:
  assumes "from_utf8 base = Some b" "from_utf8 local = Some l" "from_utf8 remote = Some r"
    and "local \<noteq> remote" "base \<noteq> local" "base \<noteq> remote"
  shows "merge_markdown base local remote = Inr (reference_merge b l r)"
proof -
  let ?n = "merge_height b l r"
  have "merge_markdown base local remote =
      (case merge_loop (split_lines b) (split_lines l) (split_lines r) [0..<?n] [] of
         None \<Rightarrow> Inr Conflict | Some m \<Rightarrow> Inr (Merged (as_bytes m)))"
    using assms by (simp add: merge_markdown_def utf8_or_conflict_def Let_def merge_height_def)
  then show ?thesis by (auto simp: merge_loop_spec reference_merge_def Let_def)
qed

lemma merge_markdown_utf8:
  assumes "from_utf8 base = Some b" "from_utf8 local = Some l" "from_utf8 remote = Some r"
  shows "merge_markdown base local remote = Inr (reference_merge b l r)"
proof -
  have eqs: "as_bytes l = local" "as_bytes r = remote"
    using assms as_bytes_from_utf8 by blast+
  consider "local = remote" | "local \<noteq> remote" "base = local" | "local \<noteq> remote" "base = remote"
    | "local \<noteq> remote" "base \<noteq> local" "base \<noteq> remote" by blast
  then show ?thesis
  proof cases
    case 1
    then show ?thesis using assms eqs
      by (simp add: merge_markdown_def reference_merge_equal_sides)
  next
    case 2
    then show ?thesis using assms eqs
      by (auto simp: merge_markdown_def reference_merge_unchanged_local)
  next
    case 3
    then show ?thesis using assms eqs
      by (auto simp: merge_markdown_def reference_merge_unchanged_remote)
  qed (use assms merge_markdown_general in blast)
qed

lemma merge_markdown_not_utf8:
  assumes "local \<noteq> remote" "base \<noteq> local" "base \<noteq> remote"
    and "from_utf8 base = None \<or> from_utf8 local = None \<or> from_utf8 remote = None"
  shows "merge_markdown base local remote =
    Inl (InvalidArgument (lit ''markdown merge requires utf-8 content''))"
  using assms
  by (auto simp: merge_markdown_def utf8_or_conflict_def simp del: lit_simps split: option.splits)

lemma merge_markdown_swap: "merge_markdown base local remote = merge_markdown base remote local"
proof -
  consider "local = remote \<or> base = local \<or> base = remote"
    | b l r where "from_utf8 base = Some b" "from_utf8 local = Some l" "from_utf8 remote = Some r"
    | "local \<noteq> remote" "base \<noteq> local" "base \<noteq> remote"
      "from_utf8 base = None \<or> from_utf8 local = None \<or> from_utf8 remote = None"
    by (metis option.exhaust)
  then show ?thesis
  proof cases
    case 1
    then show ?thesis by (auto simp: merge_markdown_def)
  next
    case 2
    then show ?thesis by (simp add: merge_markdown_utf8 reference_merge_commute)
  next
    case 3
    then have "merge_markdown base remote local =
        Inl (InvalidArgument (lit ''markdown merge requires utf-8 content''))"
      by (intro merge_markdown_not_utf8) auto
    with 3 show ?thesis by (simp add: merge_markdown_not_utf8)
  qed
qed

section \<open>Properties of conflict copy names\<close>

lemma conflict_search_Some:
  "conflict_search exists candidate fuel suffix = Some c \<Longrightarrow>
     \<not> exists c \<and> (\<exists>k\<ge>suffix. c = candidate k)"
proof (induction exists candidate fuel suffix rule: conflict_search.induct)
  case (1 exists candidate fuel suffix)
  show ?case
  proof (cases "fuel \<noteq> 0 \<and> exists (candidate suffix)")
    case True
    with "1.prems" have "conflict_search exists candidate (fuel - 1) (suffix + 1) = Some c"
      by (simp add: conflict_search_eval)
    with "1.IH" True obtain k where "\<not> exists c" "k \<ge> suffix + 1" "c = candidate k" by blast
    then show ?thesis using add_leE by blast
  next
    case False
    with "1.prems" show ?thesis
      by (auto simp: conflict_search.simps [of exists candidate fuel suffix] split: if_splits)
  qed
qed

lemma conflict_search_None:
  "conflict_search exists candidate fuel suffix = None \<Longrightarrow>
     \<forall>k\<in>{suffix..<suffix + fuel}. exists (candidate k)"
proof (induction exists candidate fuel suffix rule: conflict_search.induct)
  case (1 exists candidate fuel suffix)
  show ?case
  proof (cases "fuel = 0")
    case False
    with "1.prems" have ex: "exists (candidate suffix)"
      and rec: "conflict_search exists candidate (fuel - 1) (suffix + 1) = None"
      by (auto simp: conflict_search.simps [of exists candidate fuel suffix] split: if_splits)
    from "1.IH" False ex rec have
      IH: "\<forall>k\<in>{suffix + 1..<suffix + 1 + (fuel - 1)}. exists (candidate k)" by blast
    have "{suffix..<suffix + fuel} = insert suffix {suffix + 1..<suffix + 1 + (fuel - 1)}"
      using False by auto
    with IH ex show ?thesis by auto
  qed auto
qed

lemma conflict_search_returns:
  assumes inj: "inj_on candidate {suffix..<suffix + fuel}"
    and fin: "finite {p. exists p}" and few: "card {p. exists p} < fuel"
  shows "\<exists>c. conflict_search exists candidate fuel suffix = Some c"
proof (rule ccontr)
  assume "\<nexists>c. conflict_search exists candidate fuel suffix = Some c"
  then have "conflict_search exists candidate fuel suffix = None" by auto
  then have "candidate ` {suffix..<suffix + fuel} \<subseteq> {p. exists p}"
    using conflict_search_None by blast
  then have "card (candidate ` {suffix..<suffix + fuel}) \<le> card {p. exists p}"
    using fin by (rule card_mono [rotated])
  with few inj show False by (simp add: card_image)
qed

definition suffix_part :: "nat \<Rightarrow> rstr" where
  "suffix_part k = (if k = 1 then [] else 45 # nat_digits k)"

definition extension_part :: "rstr option \<Rightarrow> rstr" where
  "extension_part extension = (case extension of None \<Rightarrow> [] | Some e \<Rightarrow> dot # e)"

lemma conflict_file_name_parts:
  "conflict_file_name stem timestamp extension k =
     stem @ lit ''.conflict-'' @ timestamp @ suffix_part k @ extension_part extension"
  by (auto simp: conflict_file_name_def suffix_part_def extension_part_def split: option.splits)

lemma relative_components_Inr:
  "relative_components cs out = Inr p \<Longrightarrow>
     p = out @ filter (\<lambda>c. c \<noteq> CurDir) cs \<and> (\<forall>c\<in>set cs. c = CurDir \<or> (\<exists>w. c = Normal w))"
  by (induction cs out rule: relative_components.induct) (auto simp: path_push_def)

lemma validate_relative_path_Inr:
  assumes "validate_relative_path s = Inr p"
  obtains ws w where "p = map Normal (ws @ [w])" "\<forall>v\<in>set (ws @ [w]). good_segment v"
proof -
  from assms have rel: "relative_components (path_components s) [] = Inr p" and ne: "p \<noteq> []"
    by (auto simp: validate_relative_path_def res_simps split: if_splits)
  from relative_components_Inr [OF rel] have
    p: "p = filter (\<lambda>c. c \<noteq> CurDir) (path_components s)" and
    cs: "\<forall>c\<in>set (path_components s). c = CurDir \<or> (\<exists>w. c = Normal w)" by auto
  define vs where "vs = map component_str p"
  have "c = Normal (component_str c) \<and> good_segment (component_str c)" if c: "c \<in> set p" for c
  proof -
    from c p cs obtain w where w: "c = Normal w" by auto
    with c p show ?thesis
      using Normal_component_segment [of w s] by (auto simp: good_segment_def)
  qed
  then have "p = map Normal vs" "\<forall>v\<in>set vs. good_segment v"
    by (auto simp: vs_def map_idI [symmetric])
  moreover from ne obtain ws w where "vs = ws @ [w]"
    by (metis calculation(1) list.map_disc_iff rev_exhaust)
  ultimately show thesis using that by simp
qed

lemma conflict_file_name_good:
  assumes "slash \<notin> set stem" "slash \<notin> set timestamp" "slash \<notin> set (extension_part extension)"
  shows "good_segment (conflict_file_name stem timestamp extension k)"
proof -
  let ?n = "conflict_file_name stem timestamp extension k"
  have len: "10 \<le> length ?n" by (simp add: conflict_file_name_parts)
  have "slash \<notin> set (suffix_part k)"
    using nat_digits_range [of slash k] by (auto simp: suffix_part_def)
  then have "slash \<notin> set ?n"
    using assms by (auto simp: conflict_file_name_parts good_segment_def)
  moreover have "?n \<noteq> []" "?n \<noteq> [dot]" "?n \<noteq> [dot, dot]" using len by auto
  ultimately show ?thesis by (simp add: good_segment_def)
qed

lemma timestamp_utc_chars: "c \<in> set (timestamp_utc ms) \<Longrightarrow> c = 45 \<or> (48 \<le> c \<and> c \<le> 57)"
  by (auto simp: timestamp_utc_def Let_def split: prod.splits dest: fmt_int_pad_chars)

lemma split_file_at_dot_good:
  assumes "good_segment name" "split_file_at_dot name = (stem, ext)"
  shows "slash \<notin> set stem" "slash \<notin> set (extension_part ext)"
proof -
  have cases: "(stem = name \<and> ext = None) \<or>
      (\<exists>e. ext = Some e \<and> name = stem @ dot # e \<and> stem \<noteq> [] \<and> dot \<notin> set e)"
  proof (cases "name = [dot, dot] \<or> dot \<notin> set name")
    case False
    define e where "e = rev (takeWhile (\<lambda>c. c \<noteq> dot) (rev name))"
    define rest where "rest = dropWhile (\<lambda>c. c \<noteq> dot) (rev name)"
    have "rest \<noteq> []" "hd rest = dot"
      using False hd_dropWhile [of "\<lambda>c. c \<noteq> dot" "rev name"]
      by (auto simp: rest_def dropWhile_eq_Nil_conv)
    then obtain b where b: "rest = dot # b" by (cases rest) auto
    have "rev name = rev e @ rest" by (simp add: e_def rest_def)
    then have name: "name = rev b @ dot # e" using b by (metis append_assoc append_Cons append_Nil rev.simps(2) rev_append rev_rev_ident)
    have "dot \<notin> set e" unfolding e_def by (auto dest: set_takeWhileD)
    moreover have "take (length name - length e - 1) name = rev b" using name by simp
    ultimately show ?thesis
      using assms(2) False name unfolding split_file_at_dot_def e_def [symmetric] Let_def
      by (auto split: if_splits)
  qed (use assms in \<open>auto simp: split_file_at_dot_def\<close>)
  then show "slash \<notin> set stem" "slash \<notin> set (extension_part ext)"
    using assms(1) by (auto simp: extension_part_def good_segment_def)
qed

text \<open>Everything the search is called with, for a path that validates.\<close>

lemma conflict_copy_unfold:
  assumes "validate_relative_path original_path = Inr p"
  obtains ws w stem ext where
    "p = map Normal (ws @ [w])" "\<forall>v\<in>set (ws @ [w]). good_segment v"
    "split_file_at_dot w = (stem, ext)"
    "conflict_copy_relative_path original_path ms exists =
       Inr (conflict_search exists
         (\<lambda>k. str_replace_char backslash slash
            (str_join [slash] (ws @ [conflict_file_name stem (timestamp_utc ms) ext k]))) i32_suffixes 1)"
    "\<forall>k. good_segment (conflict_file_name stem (timestamp_utc ms) ext k)"
proof -
  from assms obtain ws w where p: "p = map Normal (ws @ [w])"
    and good: "\<forall>v\<in>set (ws @ [w]). good_segment v" by (rule validate_relative_path_Inr)
  obtain stem ext where se: "split_file_at_dot w = (stem, ext)" by fastforce
  have "slash \<notin> set (timestamp_utc ms)" using timestamp_utc_chars by fastforce
  then have gf: "\<forall>k. good_segment (conflict_file_name stem (timestamp_utc ms) ext k)"
    using conflict_file_name_good split_file_at_dot_good [OF _ se] good by simp
  have "path_to_str (path_join (path_pop p) (conflict_file_name stem (timestamp_utc ms) ext k)) =
      str_join [slash] (ws @ [conflict_file_name stem (timestamp_utc ms) ext k])" for k
    using gf by (auto simp: p path_join_good path_pop_def path_to_str_def o_def)
  then have "conflict_copy_relative_path original_path ms exists =
       Inr (conflict_search exists
         (\<lambda>k. str_replace_char backslash slash
            (str_join [slash] (ws @ [conflict_file_name stem (timestamp_utc ms) ext k]))) i32_suffixes 1)"
    using assms se
    by (simp add: conflict_copy_relative_path_def p Let_def path_file_stem_def path_extension_def
        path_file_name_def path_to_slash_string_def)
  with p good se gf show thesis by (intro that)
qed

lemma str_join_snoc: "\<exists>pre. \<forall>x. str_join sep (ws @ [x]) = pre @ x"
proof (induction ws)
  case (Cons w ws)
  then obtain pre where "\<forall>x. str_join sep (ws @ [x]) = pre @ x" by blast
  moreover have "str_join sep ((w # ws) @ [x]) = w @ sep @ str_join sep (ws @ [x])" for x
    by (cases "ws @ [x]") auto
  ultimately have "\<forall>x. str_join sep ((w # ws) @ [x]) = (w @ sep @ pre) @ x" by simp
  then show ?case by blast
qed auto

lemma suffix_part_inj:
  "str_replace_char backslash slash (suffix_part j) = str_replace_char backslash slash (suffix_part k)
    \<Longrightarrow> j = k"
proof -
  have id: "str_replace_char backslash slash (suffix_part k) = suffix_part k" for k
    using nat_digits_range [of backslash k]
    by (intro str_replace_char_id) (auto simp: suffix_part_def)
  show "str_replace_char backslash slash (suffix_part j)
      = str_replace_char backslash slash (suffix_part k) \<Longrightarrow> j = k"
    unfolding id by (auto simp: suffix_part_def nat_digits_inj split: if_splits)
qed

lemma conflict_candidates_inj:
  "inj (\<lambda>k. str_replace_char backslash slash
            (str_join [slash] (ws @ [conflict_file_name stem ts ext k])))"
proof (rule injI)
  fix j k
  assume eq: "str_replace_char backslash slash
            (str_join [slash] (ws @ [conflict_file_name stem ts ext j])) =
          str_replace_char backslash slash
            (str_join [slash] (ws @ [conflict_file_name stem ts ext k]))"
  obtain pre where pre: "\<forall>x. str_join [slash] (ws @ [x]) = pre @ x" using str_join_snoc by blast
  from eq have "str_replace_char backslash slash (suffix_part j)
      = str_replace_char backslash slash (suffix_part k)"
    by (simp add: pre conflict_file_name_parts str_replace_char_def)
  then show "j = k" by (rule suffix_part_inj)
qed


lemma validate_relative_path_chars:
  assumes "validate_relative_path s = Inr p" "Normal w \<in> set p"
  shows "set w \<subseteq> set s"
proof -
  from assms(1) have "relative_components (path_components s) [] = Inr p"
    by (auto simp: validate_relative_path_def res_simps split: if_splits)
  then have "p = filter (\<lambda>c. c \<noteq> CurDir) (path_components s)"
    using relative_components_Inr by fastforce
  with assms(2) have "Normal w \<in> set (path_components s)" by simp
  then show ?thesis by (rule path_components_chars)
qed

lemma split_file_at_dot_chars:
  "split_file_at_dot w = (stem, ext) \<Longrightarrow> set stem \<union> set (extension_part ext) \<subseteq> insert dot (set w)"
  using set_takeWhileD [of _ "\<lambda>c. c \<noteq> dot" "rev w"]
  by (auto simp: split_file_at_dot_def Let_def extension_part_def split: if_splits
      dest: in_set_takeD)

lemma conflict_candidate_components:
  assumes "\<forall>v\<in>set ws. good_segment v" "good_segment n"
    and "\<forall>v\<in>set (ws @ [n]). backslash \<notin> set v"
  shows "path_components (str_replace_char backslash slash (str_join [slash] (ws @ [n]))) =
    map Normal ws @ [Normal n]"
  using slash_joined_components [of "ws @ [n]"] assms by simp

section \<open>Claims\<close>

text \<open>
  C6. On UTF-8 texts the merge is the reference three way merge, fast paths included: it reports a
  conflict exactly when both sides changed the same line number to different text, and otherwise
  writes, for every line number, the changed side's line (the base line when nobody changed it).
\<close>
theorem merge_markdown_is_three_way:
  assumes "from_utf8 base = Some b" "from_utf8 local = Some l" "from_utf8 remote = Some r"
  shows "merge_markdown base local remote = Inr (reference_merge b l r)"
  by (rule merge_markdown_utf8 [OF assms])

theorem merge_markdown_is_three_way_witness:
  "merge_markdown (as_bytes (lit ''a'' @ [10] @ lit ''b'')) (as_bytes (lit ''A'' @ [10] @ lit ''b''))
     (as_bytes (lit ''a'' @ [10] @ lit ''B'')) = Inr (Merged (as_bytes (lit ''A'' @ [10] @ lit ''B'')))"
proof -
  have u: "from_utf8 (as_bytes (lit ''a'' @ [10] @ lit ''b'')) = Some (lit ''a'' @ [10] @ lit ''b'')"
    "from_utf8 (as_bytes (lit ''A'' @ [10] @ lit ''b'')) = Some (lit ''A'' @ [10] @ lit ''b'')"
    "from_utf8 (as_bytes (lit ''a'' @ [10] @ lit ''B'')) = Some (lit ''a'' @ [10] @ lit ''B'')"
    by (rule from_utf8_as_bytes, simp add: valid_char_def)+
  have "reference_merge (lit ''a'' @ [10] @ lit ''b'') (lit ''A'' @ [10] @ lit ''b'')
      (lit ''a'' @ [10] @ lit ''B'') = Merged (as_bytes (lit ''A'' @ [10] @ lit ''B''))"
    by (simp add: reference_merge_def merge_height_def split_lines_def line_at_def line_conflict_def
        pick_line_def upt_rec less_Suc_eq)
  then show ?thesis using merge_markdown_is_three_way [OF u] by simp
qed

text \<open>
  The merge does not depend on which device runs it: exchanging the local and the remote text
  gives the same outcome, errors included.
\<close>
theorem merge_markdown_symmetric:
  "merge_markdown base local remote = merge_markdown base remote local"
  by (rule merge_markdown_swap)

text \<open>
  Binary content: when both sides changed and one of the three versions is not UTF-8 the merge
  fails with an invalid argument error. It is never reported as a conflict, so no conflict copy is
  written for it.
\<close>
theorem merge_markdown_rejects_non_utf8:
  assumes "local \<noteq> remote" "base \<noteq> local" "base \<noteq> remote"
    and "from_utf8 base = None \<or> from_utf8 local = None \<or> from_utf8 remote = None"
  shows "merge_markdown base local remote =
    Inl (InvalidArgument (lit ''markdown merge requires utf-8 content''))"
  by (rule merge_markdown_not_utf8 [OF assms])

theorem merge_markdown_rejects_non_utf8_witness:
  "merge_markdown [97] [255] [98] =
    Inl (InvalidArgument (lit ''markdown merge requires utf-8 content''))"
  by (rule merge_markdown_rejects_non_utf8) (simp_all add: from_utf8_def)

text \<open>
  A conflict copy always gets a fresh name, next to the original: for a vault-relative path and
  a vault with fewer than \<open>i32::MAX\<close> files the suffix search ends, the name it returns does not
  exist, and (for a path without backslashes) it has the parent directory of the original.
\<close>
theorem conflict_copy_fresh:
  assumes "validate_relative_path original_path = Inr p"
    and "finite {q. exists q}" "card {q. exists q} < i32_suffixes"
    and "backslash \<notin> set original_path"
  shows "\<exists>c name. conflict_copy_relative_path original_path ms exists = Inr (Some c) \<and>
    \<not> exists c \<and> path_components c = butlast p @ [Normal name]"
proof -
  from assms(1) obtain ws w stem ext where
    p: "p = map Normal (ws @ [w])" and good: "\<forall>v\<in>set (ws @ [w]). good_segment v" and
    se: "split_file_at_dot w = (stem, ext)" and
    run: "conflict_copy_relative_path original_path ms exists =
       Inr (conflict_search exists
         (\<lambda>k. str_replace_char backslash slash
            (str_join [slash] (ws @ [conflict_file_name stem (timestamp_utc ms) ext k]))) i32_suffixes 1)"
    and gf: "\<forall>k. good_segment (conflict_file_name stem (timestamp_utc ms) ext k)"
    by (rule conflict_copy_unfold)
  let ?cand = "\<lambda>k. str_replace_char backslash slash
            (str_join [slash] (ws @ [conflict_file_name stem (timestamp_utc ms) ext k]))"
  obtain c where c: "conflict_search exists ?cand i32_suffixes 1 = Some c"
    using conflict_search_returns [OF inj_on_subset [OF conflict_candidates_inj] assms(2,3)] by blast
  from conflict_search_Some [OF c] obtain k where nc: "\<not> exists c" and k: "c = ?cand k" by blast
  have bs: "backslash \<notin> set v" if "v \<in> set (ws @ [w])" for v
    using validate_relative_path_chars [OF assms(1), of v] that assms(4) p by auto
  have "backslash \<notin> set (conflict_file_name stem (timestamp_utc ms) ext k)"
    using bs [of w] split_file_at_dot_chars [OF se] timestamp_utc_chars [of backslash ms]
      nat_digits_range [of backslash k]
    by (auto simp: conflict_file_name_parts suffix_part_def)
  then have "path_components c = butlast p @ [Normal (conflict_file_name stem (timestamp_utc ms) ext k)]"
    unfolding k p using good gf bs by (subst conflict_candidate_components) auto
  with run c nc show ?thesis by auto
qed

theorem conflict_copy_fresh_witness:
  "\<exists>c name. conflict_copy_relative_path (lit ''notes/a.md'') 1000
       (\<lambda>q. q = lit ''notes/a.conflict-19700101-000001.md'') = Inr (Some c) \<and>
     \<not> c = lit ''notes/a.conflict-19700101-000001.md'' \<and>
     path_components c = [Normal (lit ''notes'')] @ [Normal name]"
proof -
  have v: "validate_relative_path (lit ''notes/a.md'') = Inr [Normal (lit ''notes''), Normal (lit ''a.md'')]"
    by (simp add: validate_relative_path_def std_simps)
  show ?thesis using conflict_copy_fresh [OF v, of "\<lambda>q. q = lit ''notes/a.conflict-19700101-000001.md''" 1000]
    by (simp add: i32_suffixes_def)
qed

text \<open>A merge may join two lines into one: a local version that drops the last newline and a remote
  version that appends a line give a text with a line that neither side wrote.\<close>

lemma merge_markdown_joins_lines:
  "merge_markdown (as_bytes (lit ''a'' @ [10] @ lit ''b'' @ [10])) (as_bytes (lit ''a''))
     (as_bytes (lit ''a'' @ [10] @ lit ''b'' @ [10] @ lit ''c'' @ [10])) =
   Inr (Merged (as_bytes (lit ''ac'' @ [10])))"
proof -
  have u: "from_utf8 (as_bytes (lit ''a'' @ [10] @ lit ''b'' @ [10])) = Some (lit ''a'' @ [10] @ lit ''b'' @ [10])"
    "from_utf8 (as_bytes (lit ''a'')) = Some (lit ''a'')"
    "from_utf8 (as_bytes (lit ''a'' @ [10] @ lit ''b'' @ [10] @ lit ''c'' @ [10]))
      = Some (lit ''a'' @ [10] @ lit ''b'' @ [10] @ lit ''c'' @ [10])"
    by (rule from_utf8_as_bytes, simp add: valid_char_def)+
  show ?thesis unfolding merge_markdown_utf8 [OF u]
    by (simp add: reference_merge_def merge_height_def split_lines_def line_at_def line_conflict_def
        pick_line_def upt_rec less_Suc_eq)
qed

end
