(* ===== verification/Mutation_Ledger.thy ===== *)
theory Mutation_Ledger
  imports Rust_Std
begin

text \<open>
  The ledger of \<open>vault/watcher.rs\<close>: the application records each file system change it is about to make,
  so that the watcher can tell the echo of its own change from a change made by others. Identifiers
  are \<open>u64\<close>; an \<open>Instant\<close> is a number of milliseconds.
\<close>

datatype expected_mutation_kind = Mut_Write | Mut_Delete | Mut_Rename

record expected_fs_mutation =
  em_id :: "64 word"
  em_kind :: expected_mutation_kind
  em_path :: rstr
  em_old_path :: "rstr option"
  em_is_dir :: bool
  em_created_at :: int

record expected_mutation_ledger =
  ml_entries :: "expected_fs_mutation list"
  ml_next_id :: "64 word"

text \<open>\<open>FileChangeEvent\<close> of \<open>models.rs\<close>.\<close>

record file_change_event =
  fce_kind :: rstr
  fce_path :: rstr
  fce_is_dir :: bool
  fce_old_path :: "rstr option"

definition EXPECTED_MUTATION_TTL_MS :: int where
  "EXPECTED_MUTATION_TTL_MS = 2000"

definition record_mutation ::
  "expected_mutation_kind \<Rightarrow> rstr \<Rightarrow> rstr option \<Rightarrow> bool \<Rightarrow> int \<Rightarrow> expected_mutation_ledger
    \<Rightarrow> 64 word \<times> expected_mutation_ledger" where
  "record_mutation kind path old_path is_dir now ledger =
     (let id = ml_next_id ledger + 1
      in (id, ledger\<lparr>ml_next_id := ml_next_id ledger + 1,
           ml_entries := ml_entries ledger @ [\<lparr>em_id = id, em_kind = kind, em_path = path,
             em_old_path = old_path, em_is_dir = is_dir, em_created_at = now\<rparr>]\<rparr>))"

definition record_write :: "rstr \<Rightarrow> bool \<Rightarrow> int \<Rightarrow> expected_mutation_ledger \<Rightarrow> 64 word \<times> expected_mutation_ledger" where
  "record_write path is_dir now ledger = record_mutation Mut_Write path None is_dir now ledger"

definition record_delete :: "rstr \<Rightarrow> bool \<Rightarrow> int \<Rightarrow> expected_mutation_ledger \<Rightarrow> 64 word \<times> expected_mutation_ledger" where
  "record_delete path is_dir now ledger = record_mutation Mut_Delete path None is_dir now ledger"

definition record_rename ::
  "rstr \<Rightarrow> rstr \<Rightarrow> bool \<Rightarrow> int \<Rightarrow> expected_mutation_ledger \<Rightarrow> 64 word \<times> expected_mutation_ledger" where
  "record_rename old_path new_path is_dir now ledger =
     record_mutation Mut_Rename new_path (Some old_path) is_dir now ledger"

definition cancel_mutation :: "64 word \<Rightarrow> expected_mutation_ledger \<Rightarrow> expected_mutation_ledger" where
  "cancel_mutation token ledger = ledger\<lparr>ml_entries := filter (\<lambda>entry. em_id entry \<noteq> token) (ml_entries ledger)\<rparr>"

definition paths_match :: "rstr \<Rightarrow> rstr \<Rightarrow> bool" where
  "paths_match left right \<longleftrightarrow> left = right \<or> eq_ignore_ascii_case left right"

definition create_or_modify :: "file_change_event \<Rightarrow> bool" where
  "create_or_modify event \<longleftrightarrow> fce_kind event = lit ''create'' \<or> fce_kind event = lit ''modify''"

definition expected_mutation_matches_event :: "expected_fs_mutation \<Rightarrow> file_change_event \<Rightarrow> bool" where
  "expected_mutation_matches_event entry event =
     (case em_kind entry of
        Mut_Write \<Rightarrow> create_or_modify event \<and> em_is_dir entry = fce_is_dir event \<and>
          paths_match (em_path entry) (fce_path event)
      | Mut_Delete \<Rightarrow>
          (fce_kind event = lit ''delete'' \<and> em_is_dir entry = fce_is_dir event \<and>
             paths_match (em_path entry) (fce_path event))
          \<or> (fce_kind event = lit ''rename'' \<and>
             (case fce_old_path event of Some old_path \<Rightarrow> paths_match (em_path entry) old_path | None \<Rightarrow> False))
      | Mut_Rename \<Rightarrow>
          if create_or_modify event
          then em_is_dir entry = fce_is_dir event \<and> paths_match (em_path entry) (fce_path event)
          else fce_kind event = lit ''rename'' \<and> em_is_dir entry = fce_is_dir event \<and>
            paths_match (em_path entry) (fce_path event) \<and>
            (case (em_old_path entry, fce_old_path event) of
               (Some expected, Some actual) \<Rightarrow> paths_match expected actual
             | (_, None) \<Rightarrow> True
             | (None, Some _) \<Rightarrow> True))"

definition mutation_live :: "int \<Rightarrow> expected_fs_mutation \<Rightarrow> bool" where
  "mutation_live now entry \<longleftrightarrow> now - em_created_at entry \<le> EXPECTED_MUTATION_TTL_MS"

fun remove_first :: "('a \<Rightarrow> bool) \<Rightarrow> 'a list \<Rightarrow> 'a list option" where
  "remove_first p [] = None"
| "remove_first p (x # xs) = (if p x then Some xs else map_option ((#) x) (remove_first p xs))"

definition consume_matching ::
  "file_change_event \<Rightarrow> int \<Rightarrow> expected_mutation_ledger \<Rightarrow> bool \<times> expected_mutation_ledger" where
  "consume_matching event now ledger =
     (let entries = filter (mutation_live now) (ml_entries ledger)
      in case remove_first (\<lambda>entry. expected_mutation_matches_event entry event) entries of
           None \<Rightarrow> (False, ledger\<lparr>ml_entries := entries\<rparr>)
         | Some entries \<Rightarrow> (True, ledger\<lparr>ml_entries := entries\<rparr>))"

section \<open>Facts\<close>

lemma remove_first_None: "remove_first p xs = None \<longleftrightarrow> (\<forall>x\<in>set xs. \<not> p x)"
  by (induction xs) auto

lemma remove_first_snoc:
  "\<forall>x\<in>set xs. \<not> p x \<Longrightarrow> p y \<Longrightarrow> remove_first p (xs @ [y]) = Some xs"
  by (induction xs) auto

lemma remove_first_mset:
  "remove_first p xs = Some ys \<Longrightarrow> \<exists>x. p x \<and> x \<in> set xs \<and> mset xs = add_mset x (mset ys)"
  by (induction xs arbitrary: ys) (auto split: if_splits)

lemma paths_match_refl [simp]: "paths_match p p"
  by (simp add: paths_match_def)

section \<open>Claims\<close>

text \<open>
  An expected mutation suppresses exactly one event: after the application records a change, an
  event that matches it within the time to live is consumed, and unless an older entry also matches,
  the same event is not consumed a second time and every other live entry is still there.
\<close>
theorem ledger_suppresses_once:
  assumes "record_mutation kind path old_path is_dir t0 ledger = (token, ledger1)"
    and "expected_mutation_matches_event (last (ml_entries ledger1)) event"
    and "t1 - t0 \<le> EXPECTED_MUTATION_TTL_MS" "t1 \<le> t2"
    and "\<forall>e\<in>set (ml_entries ledger). \<not> expected_mutation_matches_event e event"
  shows "\<exists>ledger2. consume_matching event t1 ledger1 = (True, ledger2) \<and>
    ml_entries ledger2 = filter (mutation_live t1) (ml_entries ledger) \<and>
    fst (consume_matching event t2 ledger2) = False"
proof -
  obtain e where e: "ml_entries ledger1 = ml_entries ledger @ [e]" "em_created_at e = t0"
    using assms(1) by (auto simp: record_mutation_def Let_def)
  then have "remove_first (\<lambda>x. expected_mutation_matches_event x event) (filter (mutation_live t1) (ml_entries ledger1)) =
      Some (filter (mutation_live t1) (ml_entries ledger))"
    using assms(2,3,5) by (auto simp: mutation_live_def intro!: remove_first_snoc)
  moreover have "remove_first (\<lambda>x. expected_mutation_matches_event x event)
      (filter (mutation_live t2) (filter (mutation_live t1) (ml_entries ledger))) = None"
    using assms(5) by (simp add: remove_first_None)
  ultimately show ?thesis by (simp add: consume_matching_def)
qed

theorem ledger_suppresses_once_witness:
  "\<exists>ledger2. consume_matching \<lparr>fce_kind = lit ''modify'', fce_path = lit ''A.md'', fce_is_dir = False, fce_old_path = None\<rparr>
      1500 (snd (record_write (lit ''a.md'') False 0 \<lparr>ml_entries = [], ml_next_id = 0\<rparr>)) = (True, ledger2) \<and>
    ml_entries ledger2 = []"
proof -
  let ?l = "\<lparr>ml_entries = [], ml_next_id = 0\<rparr>"
  have r: "record_mutation Mut_Write (lit ''a.md'') None False 0 ?l =
      (1, snd (record_write (lit ''a.md'') False 0 ?l))"
    by (simp add: record_write_def record_mutation_def)
  show ?thesis
    using ledger_suppresses_once [OF r, of "\<lparr>fce_kind = lit ''modify'', fce_path = lit ''A.md'', fce_is_dir = False, fce_old_path = None\<rparr>" 1500 1500]
    by (auto simp: record_write_def record_mutation_def expected_mutation_matches_event_def create_or_modify_def
        paths_match_def std_simps EXPECTED_MUTATION_TTL_MS_def)
qed

text \<open>
  The watcher never swallows a foreign event and never forgets more than it should: an event is
  consumed only when a live entry matches it, then exactly one such entry is removed, and otherwise
  only expired entries are dropped.
\<close>
theorem consume_matching_exact:
  "case consume_matching event now ledger of (consumed, ledger') \<Rightarrow>
     let live = filter (mutation_live now) (ml_entries ledger) in
     ml_next_id ledger' = ml_next_id ledger \<and>
     (if consumed then \<exists>e\<in>set live. expected_mutation_matches_event e event \<and>
          mset live = add_mset e (mset (ml_entries ledger'))
      else ml_entries ledger' = live \<and> (\<nexists>e. e \<in> set live \<and> expected_mutation_matches_event e event))"
proof (cases "remove_first (\<lambda>e. expected_mutation_matches_event e event) (filter (mutation_live now) (ml_entries ledger))")
  case None
  then have "consume_matching event now ledger = (False, ledger\<lparr>ml_entries := filter (mutation_live now) (ml_entries ledger)\<rparr>)"
    by (simp add: consume_matching_def)
  with None show ?thesis by (auto simp: remove_first_None)
next
  case (Some entries)
  then have "consume_matching event now ledger = (True, ledger\<lparr>ml_entries := entries\<rparr>)"
    by (simp add: consume_matching_def)
  with remove_first_mset [OF Some] show ?thesis by auto
qed

end
