(* ===== verification/State_Error.thy ===== *)
theory State_Error
  imports Sync_Errors
begin

text \<open>
  Actions on a state that may fail: an action maps a state to a result and the state it leaves, also
  when it fails (files written and rows inserted before an error stay). \<open>act_bind\<close> is the question
  mark operator, \<open>act_fold\<close> a loop whose body may return early. The error type is a parameter; \<open>act\<close> is an
  action with the errors of the sync engine.

  The locale \<open>frame\<close> is the interface of a frame condition: a relation between the state before and
  after that is reflexive and transitive. Its lemmas carry the relation through the combinators.
\<close>

type_synonym ('e, 'w, 'a) eact = "'w \<Rightarrow> ('e + 'a) \<times> 'w"

type_synonym ('w, 'a) act = "(sync_error, 'w, 'a) eact"

definition act_lift :: "'e + 'a \<Rightarrow> ('e, 'w, 'a) eact" where
  "act_lift r w = (r, w)"

definition act_get :: "('w \<Rightarrow> 'a) \<Rightarrow> ('e, 'w, 'a) eact" where
  "act_get f w = (Inr (f w), w)"

definition act_modify :: "('w \<Rightarrow> 'w) \<Rightarrow> ('e, 'w, unit) eact" where
  "act_modify f w = (Inr (), f w)"

definition act_bind :: "('e, 'w, 'a) eact \<Rightarrow> ('a \<Rightarrow> ('e, 'w, 'b) eact) \<Rightarrow> ('e, 'w, 'b) eact" where
  "act_bind m f w = (case m w of (Inl e, w) \<Rightarrow> (Inl e, w) | (Inr x, w) \<Rightarrow> f x w)"

fun act_fold :: "('a \<Rightarrow> 's \<Rightarrow> ('e, 'w, 's) eact) \<Rightarrow> 'a list \<Rightarrow> 's \<Rightarrow> ('e, 'w, 's) eact" where
  "act_fold f [] s = act_lift (Inr s)"
| "act_fold f (x # xs) s = act_bind (f x s) (act_fold f xs)"

lemma act_basic_simps [simp]:
  "act_lift r w = (r, w)" "act_get f w = (Inr (f w), w)" "act_modify g w = (Inr (), g w)"
  by (simp_all add: act_lift_def act_get_def act_modify_def)

lemma act_bind_Inr:
  "act_bind m f w = (Inr y, w') \<longleftrightarrow> (\<exists>x v. m w = (Inr x, v) \<and> f x v = (Inr y, w'))"
  by (auto simp: act_bind_def split: prod.splits sum.splits)

lemma act_bind_Inl:
  "act_bind m f w = (Inl e, w') \<longleftrightarrow>
     m w = (Inl e, w') \<or> (\<exists>x v. m w = (Inr x, v) \<and> f x v = (Inl e, w'))"
  by (auto simp: act_bind_def split: prod.splits sum.splits)

lemma act_bind_run:
  "m w = (Inr x, v) \<Longrightarrow> act_bind m f w = f x v"
  "m w = (Inl e, v) \<Longrightarrow> act_bind m f w = (Inl e, v)"
  by (simp_all add: act_bind_def)

lemma act_bind_lift [simp]:
  "act_bind (act_lift (Inr x)) f = f x" "act_bind (act_lift (Inl e)) f = act_lift (Inl e)"
  by (simp_all add: act_bind_def fun_eq_iff)

lemma act_lift_Inr: "act_lift r w = (Inr x, v) \<longleftrightarrow> r = Inr x \<and> v = w"
  by auto

lemma act_fold_append: "act_fold f (xs @ ys) s = act_bind (act_fold f xs s) (act_fold f ys)"
  by (induction xs arbitrary: s) (auto simp: act_bind_def fun_eq_iff split: prod.splits sum.splits)

text \<open>A fold whose steps track a pure fold: when the loop succeeds, the projected state is the pure one.\<close>

lemma act_fold_tracks:
  assumes "act_fold f xs s w = (Inr t, w')"
    and "\<And>x s w t w'. f x s w = (Inr t, w') \<Longrightarrow> g x (p s) = Inr (p t)"
  shows "res_fold g xs (p s) = Inr (p t)"
  using assms(1)
proof (induction xs arbitrary: s w)
  case (Cons x xs)
  then obtain s1 w1 where "f x s w = (Inr s1, w1)" "act_fold f xs s1 w1 = (Inr t, w')"
    by (auto simp: act_bind_Inr)
  then show ?case using assms(2) [of x s w s1 w1] Cons.IH [of s1 w1] by simp
qed simp

locale frame =
  fixes R :: "'w \<Rightarrow> 'w \<Rightarrow> bool"
  assumes refl: "R w w" and trans: "R u v \<Longrightarrow> R v w \<Longrightarrow> R u w"
begin

definition keeps :: "('e, 'w, 'a) eact \<Rightarrow> bool" where
  "keeps m \<longleftrightarrow> (\<forall>w. R w (snd (m w)))"

lemma keepsI: "(\<And>w. R w (snd (m w))) \<Longrightarrow> keeps m"
  by (simp add: keeps_def)

lemma keeps_run: "keeps m \<Longrightarrow> m w = (r, w') \<Longrightarrow> R w w'"
  by (metis keeps_def snd_conv)

lemma keeps_lift: "keeps (act_lift r)"
  by (simp add: keeps_def refl)

lemma keeps_get: "keeps (act_get f)"
  by (simp add: keeps_def refl)

lemma keeps_modify: "(\<And>w. R w (f w)) \<Longrightarrow> keeps (act_modify f)"
  by (simp add: keeps_def)

lemma keeps_bind:
  assumes "keeps m" "\<And>x. keeps (f x)"
  shows "keeps (act_bind m f)"
proof (rule keepsI)
  fix w
  obtain r v where m: "m w = (r, v)" by fastforce
  have v: "R w v" using keeps_run [OF assms(1) m] .
  show "R w (snd (act_bind m f w))"
  proof (cases r)
    case (Inl e)
    then show ?thesis using v m by (simp add: act_bind_def)
  next
    case (Inr x)
    then show ?thesis using trans [OF v keeps_run [OF assms(2) [of x]]] m
      by (metis act_bind_run(1) prod.collapse)
  qed
qed

lemma keeps_fold: "(\<And>x s. x \<in> set xs \<Longrightarrow> keeps (f x s)) \<Longrightarrow> keeps (act_fold f xs s)"
  by (induction xs arbitrary: s) (auto intro!: keeps_lift keeps_bind)

lemma keeps_if: "(b \<Longrightarrow> keeps m) \<Longrightarrow> (\<not> b \<Longrightarrow> keeps n) \<Longrightarrow> keeps (if b then m else n)"
  by simp

lemma keeps_option: "keeps m \<Longrightarrow> (\<And>x. keeps (f x)) \<Longrightarrow> keeps (case v of None \<Rightarrow> m | Some x \<Rightarrow> f x)"
  by (cases v) simp_all

lemma keeps_prod: "(\<And>x y. keeps (f x y)) \<Longrightarrow> keeps (case v of (x, y) \<Rightarrow> f x y)"
  by (cases v) simp

lemma keeps_state: "keeps (\<lambda>w. act_lift (f w) w)"
  by (simp add: keeps_def refl)

lemmas keeps_intros = keeps_option keeps_prod keeps_state keeps_lift keeps_get keeps_bind keeps_fold keeps_if

end

text \<open>
  Rules for an invariant \<open>P\<close> of actions that fail: \<open>Q\<close> is what holds when an error comes out.
\<close>

fun ends :: "('w \<Rightarrow> bool) \<Rightarrow> ('e \<Rightarrow> 'w \<Rightarrow> bool) \<Rightarrow> ('e + 'a) \<times> 'w \<Rightarrow> bool" where
  "ends P Q (Inl e, w) = Q e w"
| "ends P Q (Inr x, w) = P w"

definition act_inv :: "('w \<Rightarrow> bool) \<Rightarrow> ('e \<Rightarrow> 'w \<Rightarrow> bool) \<Rightarrow> ('e, 'w, 'a) eact \<Rightarrow> bool" where
  "act_inv P Q m \<longleftrightarrow> (\<forall>w. P w \<longrightarrow> ends P Q (m w))"

lemma act_invI: "(\<And>w. P w \<Longrightarrow> ends P Q (m w)) \<Longrightarrow> act_inv P Q m" and act_invD: "act_inv P Q m \<Longrightarrow> P w \<Longrightarrow> ends P Q (m w)"
  by (simp_all add: act_inv_def)

lemma ends_cases: "ends P Q z \<longleftrightarrow> (case z of (Inl e, w) \<Rightarrow> Q e w | (Inr _, w) \<Rightarrow> P w)"
  by (cases "(P, Q, z)" rule: ends.cases) auto

lemma act_inv_lift: "act_inv P Q (act_lift (Inr x))" and act_inv_fail: "(\<And>w. P w \<Longrightarrow> Q e w) \<Longrightarrow> act_inv P Q (act_lift (Inl e))"
  and act_inv_get: "act_inv P Q (act_get f)" and act_inv_modify: "(\<And>w. P w \<Longrightarrow> P (g w)) \<Longrightarrow> act_inv P Q (act_modify g)"
  by (simp_all add: act_inv_def)

lemma ends_bind:
  assumes "ends P Q (m w)" "\<And>x. act_inv P Q (f x)"
  shows "ends P Q (act_bind m f w)"
proof -
  obtain r v where m: "m w = (r, v)" by fastforce
  show ?thesis
  proof (cases r)
    case (Inr x)
    then have "P v" using assms(1) m by simp
    then show ?thesis using act_invD[OF assms(2)] m Inr by (simp add: act_bind_def)
  qed (use assms(1) m in \<open>simp add: act_bind_def\<close>)
qed

lemma act_inv_bind: "act_inv P Q m \<Longrightarrow> (\<And>x. act_inv P Q (f x)) \<Longrightarrow> act_inv P Q (act_bind m f)"
  by (rule act_invI, rule ends_bind, rule act_invD)

lemma act_inv_fold: "(\<And>x s. x \<in> set xs \<Longrightarrow> act_inv P Q (f x s)) \<Longrightarrow> act_inv P Q (act_fold f xs s)"
  by (induction xs arbitrary: s) (auto intro!: act_inv_lift act_inv_bind)

lemma act_inv_if: "(b \<Longrightarrow> act_inv P Q m) \<Longrightarrow> (\<not> b \<Longrightarrow> act_inv P Q n) \<Longrightarrow> act_inv P Q (if b then m else n)"
  and act_inv_option: "act_inv P Q m \<Longrightarrow> (\<And>x. act_inv P Q (g x)) \<Longrightarrow> act_inv P Q (case v of None \<Rightarrow> m | Some x \<Rightarrow> g x)"
  and act_inv_prod: "(\<And>x y. act_inv P Q (h x y)) \<Longrightarrow> act_inv P Q (case p of (x, y) \<Rightarrow> h x y)"
  by (auto split: option.split prod.split)

lemmas act_inv_intros = act_inv_option act_inv_prod act_inv_lift act_inv_get act_inv_bind act_inv_fold act_inv_if

end
