(* ===== verification/Sync_Applier.thy ===== *)
theory Sync_Applier
  imports Sync_History Sync_Merge Mutation_Ledger State_Error
begin

text \<open>
  \<open>sync/applier.rs\<close>: pulling remote commits into the vault. The state an operation changes is a
  \<open>pull_world\<close>: the file system, the sync database, the ledger of expected mutations, and the notices
  sent to the search index. Operations are actions that keep what they did when they fail.

  Outside the model, as parameters: the operating system (\<open>os_api\<close>, on an abstract state), and in
  \<open>pull_env\<close> the server and the transfer queue, the JSON readers and writers, the primitives of
  cryptography and packing, the clock of the ledger and the search index. A server answers the same
  request in the same way during one pull.
\<close>

section \<open>The operating system and the environment\<close>

datatype remove_error = NotFound | RemoveFailed rstr

record 'f os_api =
  os_stat :: "'f \<Rightarrow> path \<Rightarrow> bool option"
  os_exists :: "'f \<Rightarrow> path \<Rightarrow> bool"
  os_read :: "'f \<Rightarrow> path \<Rightarrow> rstr + bytes"
  os_root :: "'f \<Rightarrow> path \<Rightarrow> rstr + fs_node"
  os_create_dir_all :: "path \<Rightarrow> 'f \<Rightarrow> (rstr + unit) \<times> 'f"
  os_write :: "path \<Rightarrow> bytes \<Rightarrow> 'f \<Rightarrow> (rstr + unit) \<times> 'f"
  os_remove :: "path \<Rightarrow> 'f \<Rightarrow> (remove_error + unit) \<times> 'f"

datatype search_notice = NotifyWritten rstr rstr | NotifyRemoved rstr bool rstr

record pull_env =
  ev_hash :: "bytes \<Rightarrow> rstr"
  ev_lower :: "rstr \<Rightarrow> rstr"
  ev_pack :: pack_env
  ev_prims :: crypto_prims
  ev_pack_json :: "pack_aad \<Rightarrow> rstr + bytes"
  ev_body_json :: "commit_body_aad \<Rightarrow> rstr + bytes"
  ev_body_parse :: "bytes \<Rightarrow> rstr + commit_body"
  ev_tree_vec :: "tree_cache_entry list \<Rightarrow> rstr + bytes"
  ev_tree_string :: "tree_cache_entry list \<Rightarrow> rstr + rstr"
  ev_parents_json :: "rstr list \<Rightarrow> rstr + rstr"
  ev_get_head :: "rstr \<Rightarrow> sync_head sync_result"
  ev_list_commits :: list_commits_api
  ev_download_objects :: "rstr \<Rightarrow> rstr \<Rightarrow> rstr list \<Rightarrow> (downloaded_object list) sync_result"
  ev_instant :: "nat \<Rightarrow> int"
  ev_search :: "search_notice \<Rightarrow> rstr + unit"

record 'f pull_world =
  pw_fs :: 'f
  pw_db :: sync_db
  pw_ledger :: expected_mutation_ledger
  pw_ticks :: nat
  pw_notified :: "search_notice list"

record remote_apply_hooks =
  hk_expected_mutations :: bool
  hk_search :: bool

record pull_input =
  pn_vault_id :: rstr
  pn_vault_root :: path
  pn_workspace_id :: rstr
  pn_device_id :: rstr
  pn_workspace_key :: symmetric_key
  pn_hooks :: remote_apply_hooks
  pn_now_ms :: int

record pull_result =
  pu_applied_commits :: "rstr list"
  pu_bootstrapped_from_checkpoint :: bool

record applied_commit_state =
  ac_synced_file_ids :: "rstr list"

datatype remote_apply_action = AppliedRemote | KeptLocalDirty

type_synonym merge_state = "(rstr \<times> sync_file_record) list"
type_synonym ('f, 'a) pull_act = "('f pull_world, 'a) act"

definition REMOTE_APPLY_SOURCE :: rstr where
  "REMOTE_APPLY_SOURCE = lit ''sync-remote-apply''"

definition act_fs :: "('f \<Rightarrow> 'a sync_result \<times> 'f) \<Rightarrow> ('f, 'a) pull_act" where
  "act_fs f w = (case f (pw_fs w) of (r, fs) \<Rightarrow> (r, w\<lparr>pw_fs := fs\<rparr>))"

definition act_db :: "(sync_db \<Rightarrow> sync_db sync_result) \<Rightarrow> ('f, unit) pull_act" where
  "act_db f w = (case f (pw_db w) of Inl e \<Rightarrow> (Inl e, w) | Inr db \<Rightarrow> (Inr (), w\<lparr>pw_db := db\<rparr>))"

section \<open>File operations\<close>

definition resolve_remote_path :: "'f os_api \<Rightarrow> path \<Rightarrow> rstr \<Rightarrow> ('f, path) pull_act" where
  "resolve_remote_path os vault_root path w =
     (case resolve_vault_path_strict (os_stat os (pw_fs w)) vault_root path of
        Inl e \<Rightarrow> (Inl (InvalidArgument e), w)
      | Inr resolved \<Rightarrow> (Inr resolved, w))"

text \<open>\<open>None\<close> stands for an absent ledger, or for no token.\<close>

definition expect_mutation ::
  "pull_env \<Rightarrow> bool \<Rightarrow> (int \<Rightarrow> expected_mutation_ledger \<Rightarrow> 64 word \<times> expected_mutation_ledger)
    \<Rightarrow> ('f, 64 word option) pull_act" where
  "expect_mutation env enabled record w =
     (if enabled
      then case record (ev_instant env (pw_ticks w)) (pw_ledger w) of
        (token, ledger) \<Rightarrow> (Inr (Some token), w\<lparr>pw_ledger := ledger, pw_ticks := Suc (pw_ticks w)\<rparr>)
      else (Inr None, w))"

definition finish_remote_mutation :: "64 word option \<Rightarrow> ('f, unit) pull_act \<Rightarrow> ('f, unit) pull_act" where
  "finish_remote_mutation token result w =
     (case result w of
        (Inr _, w) \<Rightarrow> (Inr (), w)
      | (Inl e, w) \<Rightarrow>
          (Inl e, case token of Some token \<Rightarrow> w\<lparr>pw_ledger := cancel_mutation token (pw_ledger w)\<rparr> | None \<Rightarrow> w))"

definition notify_search :: "pull_env \<Rightarrow> remote_apply_hooks \<Rightarrow> search_notice \<Rightarrow> ('f, unit) pull_act" where
  "notify_search env hooks notice w =
     (if hk_search hooks
      then ((case ev_search env notice of Inl e \<Rightarrow> Inl (Storage e) | Inr _ \<Rightarrow> Inr ()),
        w\<lparr>pw_notified := pw_notified w @ [notice]\<rparr>)
      else (Inr (), w))"

definition write_file :: "'f os_api \<Rightarrow> path \<Rightarrow> bytes \<Rightarrow> ('f, unit) pull_act" where
  "write_file os resolved plaintext =
     act_bind
       (if path_has_parent resolved
        then act_fs (\<lambda>fs. case os_create_dir_all os (path_pop resolved) fs of
          (Inl e, fs) \<Rightarrow> (Inl (Storage (lit ''failed to create sync parent directory: '' @ e)), fs)
        | (Inr _, fs) \<Rightarrow> (Inr (), fs))
        else act_lift (Inr ()))
       (\<lambda>_. act_fs (\<lambda>fs. case os_write os resolved plaintext fs of
          (Inl e, fs) \<Rightarrow> (Inl (Storage (lit ''failed to apply remote file '' @ path_display resolved @ lit '': '' @ e)), fs)
        | (Inr _, fs) \<Rightarrow> (Inr (), fs)))"

definition apply_remote_write ::
  "'f os_api \<Rightarrow> pull_env \<Rightarrow> path \<Rightarrow> remote_apply_hooks \<Rightarrow> rstr \<Rightarrow> bytes \<Rightarrow> ('f, unit) pull_act" where
  "apply_remote_write os env vault_root hooks path plaintext =
     act_bind (resolve_remote_path os vault_root path) (\<lambda>resolved.
     act_bind (expect_mutation env (hk_expected_mutations hooks) (record_write path False)) (\<lambda>token.
     act_bind (finish_remote_mutation token (write_file os resolved plaintext)) (\<lambda>_.
     notify_search env hooks (NotifyWritten path REMOTE_APPLY_SOURCE))))"

definition remove_file :: "'f os_api \<Rightarrow> path \<Rightarrow> ('f, unit) pull_act" where
  "remove_file os resolved =
     act_fs (\<lambda>fs. case os_remove os resolved fs of
         (Inr _, fs) \<Rightarrow> (Inr (), fs)
       | (Inl NotFound, fs) \<Rightarrow> (Inr (), fs)
       | (Inl (RemoveFailed e), fs) \<Rightarrow>
           (Inl (Storage (lit ''failed to apply remote delete '' @ path_display resolved @ lit '': '' @ e)), fs))"

definition apply_remote_delete ::
  "'f os_api \<Rightarrow> pull_env \<Rightarrow> path \<Rightarrow> remote_apply_hooks \<Rightarrow> rstr \<Rightarrow> ('f, unit) pull_act" where
  "apply_remote_delete os env vault_root hooks path =
     act_bind (resolve_remote_path os vault_root path) (\<lambda>resolved.
     act_bind (act_get (\<lambda>w. os_exists os (pw_fs w) resolved)) (\<lambda>existed.
     act_bind (expect_mutation env (hk_expected_mutations hooks \<and> existed) (record_delete path False)) (\<lambda>token.
     act_bind (finish_remote_mutation token (remove_file os resolved)) (\<lambda>_.
     notify_search env hooks (NotifyRemoved path False REMOTE_APPLY_SOURCE)))))"

definition read_local_file :: "'f os_api \<Rightarrow> path \<Rightarrow> rstr \<Rightarrow> ('f, bytes) pull_act" where
  "read_local_file os vault_root path =
     act_bind (resolve_remote_path os vault_root path) (\<lambda>resolved w.
       case os_read os (pw_fs w) resolved of
         Inl e \<Rightarrow> (Inl (Storage (lit ''failed to read local merge file '' @ path_display resolved @ lit '': '' @ e)), w)
       | Inr bs \<Rightarrow> (Inr bs, w))"

text \<open>A suffix counter that overflows panics; the panic is shown as an error.\<close>

definition write_conflict_copy ::
  "'f os_api \<Rightarrow> pull_env \<Rightarrow> pull_input \<Rightarrow> rstr \<Rightarrow> bytes \<Rightarrow> rstr option \<Rightarrow> sync_commit_header
    \<Rightarrow> ('f, rstr) pull_act" where
  "write_conflict_copy os env input original_path plaintext base_commit_id remote_header =
     act_bind (\<lambda>w. act_lift (conflict_copy_relative_path original_path (pn_now_ms input)
        (\<lambda>candidate. os_exists os (pw_fs w) (path_join (pn_vault_root input) candidate))) w) (\<lambda>found.
     case found of
       None \<Rightarrow> act_lift (Inl (Storage (lit ''attempt to add with overflow'')))
     | Some conflict_path \<Rightarrow>
         act_bind (apply_remote_write os env (pn_vault_root input) (pn_hooks input) conflict_path plaintext) (\<lambda>_.
         act_bind (act_db (\<lambda>db. Inr (upsert_conflict db
           \<lparr>sx_conflict_id = conflict_id_for (ev_hash env) original_path conflict_path base_commit_id
              (ch_commit_id remote_header) (pn_now_ms input),
            sx_path = original_path, sx_conflict_path = conflict_path, sx_base_commit_id = base_commit_id,
            sx_local_commit_id = None, sx_remote_commit_id = Some (ch_commit_id remote_header),
            sx_status = lit ''open'', sx_created_at_ms = pn_now_ms input\<rparr>))) (\<lambda>_.
         act_lift (Inr conflict_path))))"

section \<open>Downloads\<close>

definition download_one :: "pull_env \<Rightarrow> rstr \<Rightarrow> rstr \<Rightarrow> rstr \<Rightarrow> downloaded_object sync_result" where
  "download_one env workspace_id device_id object_id =
     res_bind (ev_download_objects env workspace_id device_id [object_id]) (\<lambda>downloads.
     case downloads of
       [object] \<Rightarrow> Inr object
     | _ \<Rightarrow> Inl (Transport (lit ''download response for '' @ object_id @ lit '' returned '' @
         nat_digits (length downloads) @ lit '' objects'')))"

definition download_many ::
  "pull_env \<Rightarrow> rstr \<Rightarrow> rstr \<Rightarrow> rstr list \<Rightarrow> ((rstr \<times> downloaded_object) list) sync_result" where
  "download_many env workspace_id device_id object_ids =
     res_bind (ev_download_objects env workspace_id device_id object_ids) (\<lambda>downloads.
     Inr (bt_collect dl_object_id downloads))"

definition decrypt_pack_ref ::
  "pull_env \<Rightarrow> rstr \<Rightarrow> symmetric_key \<Rightarrow> sync_commit_header \<Rightarrow> (rstr \<times> downloaded_object) list
    \<Rightarrow> commit_body_pack_ref \<Rightarrow> (rstr \<times> unpacked_pack) list \<Rightarrow> ((rstr \<times> unpacked_pack) list) sync_result" where
  "decrypt_pack_ref env workspace_id workspace_key header downloads pack_ref packs =
     res_bind (ok_or (bt_get downloads (pr_object_id pack_ref))
       (Transport (lit ''download response missing pack object '' @ pr_object_id pack_ref))) (\<lambda>downloaded.
     res_bind (validate_downloaded_pack pack_ref downloaded) (\<lambda>_.
     res_bind (decrypt_pack (ev_pack env) (ev_prims env) (ev_pack_json env) workspace_key workspace_id
       (pr_object_id pack_ref) (pr_pack_kind pack_ref) (ch_commit_id header) (dl_ciphertext downloaded)) (\<lambda>unpacked.
     if length (px_entries (up_index unpacked)) \<noteq> pr_entry_count pack_ref
     then Inl (Integrity (lit ''pack '' @ pr_object_id pack_ref @ lit '' entry count mismatch''))
     else Inr (bt_insert (pr_object_id pack_ref) unpacked packs))))"

definition decrypt_commit ::
  "pull_env \<Rightarrow> rstr \<Rightarrow> rstr \<Rightarrow> symmetric_key \<Rightarrow> sync_commit_header \<Rightarrow> decrypted_commit sync_result" where
  "decrypt_commit env workspace_id device_id workspace_key header =
     res_bind (download_one env workspace_id device_id (ch_body_object_id header)) (\<lambda>body_download.
     res_bind (validate_downloaded_commit_body (ev_prims env) header body_download) (\<lambda>_.
     res_bind (commit_kind_label (ch_commit_kind header)) (\<lambda>commit_kind.
     let commit_key = commit_body_key (ev_prims env) workspace_key workspace_id;
         aad = commit_body_aad_new workspace_id (ch_commit_id header) commit_kind (ch_parent_commit_ids header)
           (ch_author_device_id header) (ch_device_seq header) (ch_body_object_id header)
     in
     res_bind (decrypt_commit_body (ev_prims env) (ev_body_json env) commit_key aad (dl_ciphertext body_download)) (\<lambda>plaintext.
     res_bind (json_result (ev_body_parse env plaintext)) (\<lambda>body.
     res_bind (validate_commit_body header commit_kind body) (\<lambda>_.
     res_bind (download_many env workspace_id device_id (map pr_object_id (bd_packs body))) (\<lambda>downloads.
     res_bind (res_fold (decrypt_pack_ref env workspace_id workspace_key header downloads) (bd_packs body) []) (\<lambda>packs.
     Inr \<lparr>dc_header = header, dc_body = body, dc_packs = packs\<rparr>))))))))"

definition download_tree_entry_content ::
  "pull_env \<Rightarrow> pull_input \<Rightarrow> rstr \<Rightarrow> sync_tree_entry_record \<Rightarrow> (bytes option) sync_result" where
  "download_tree_entry_content env input commit_id entry =
     (case (te_content_object_id entry, te_pack_entry_id entry) of
        (Some object_id, Some entry_id) \<Rightarrow>
          res_bind (download_one env (pn_workspace_id input) (pn_device_id input) object_id) (\<lambda>object.
          res_bind (pack_kind_for_object_kind (dl_kind object)) (\<lambda>pack_kind.
          res_bind (decrypt_pack (ev_pack env) (ev_prims env) (ev_pack_json env) (pn_workspace_key input)
            (pn_workspace_id input) object_id pack_kind commit_id (dl_ciphertext object)) (\<lambda>unpacked.
          Inr (up_entries unpacked entry_id))))
      | _ \<Rightarrow> Inr None)"

section \<open>Applying a commit\<close>

definition merge_remote_upsert ::
  "'f os_api \<Rightarrow> pull_env \<Rightarrow> pull_input \<Rightarrow> sync_commit_header \<Rightarrow> sync_tree_entry_record option \<Rightarrow> sync_file_record
    \<Rightarrow> rstr \<Rightarrow> bytes \<Rightarrow> ('f, remote_apply_action) pull_act" where
  "merge_remote_upsert os env input remote_header base_entry dirty path remote_plaintext =
     (if sf_deleted dirty
      then act_bind (write_conflict_copy os env input path remote_plaintext (map_option te_commit_id base_entry) remote_header)
        (\<lambda>_. act_lift (Inr KeptLocalDirty))
      else
        act_bind (read_local_file os (pn_vault_root input) (sf_path dirty)) (\<lambda>local_plaintext.
        case base_entry of
          None \<Rightarrow>
            act_bind (write_conflict_copy os env input path remote_plaintext None remote_header)
              (\<lambda>_. act_lift (Inr KeptLocalDirty))
        | Some base_entry \<Rightarrow>
            act_bind (act_lift (download_tree_entry_content env input (te_commit_id base_entry) base_entry)) (\<lambda>base.
            case base of
              None \<Rightarrow>
                act_bind (write_conflict_copy os env input path remote_plaintext (Some (te_commit_id base_entry)) remote_header)
                  (\<lambda>_. act_lift (Inr KeptLocalDirty))
            | Some base_plaintext \<Rightarrow>
                act_bind (act_lift (merge_markdown base_plaintext local_plaintext remote_plaintext)) (\<lambda>outcome.
                case outcome of
                  Merged merged \<Rightarrow>
                    act_bind (apply_remote_write os env (pn_vault_root input) (pn_hooks input) path merged) (\<lambda>_.
                    act_lift (Inr (if merged = remote_plaintext then AppliedRemote else KeptLocalDirty)))
                | Conflict \<Rightarrow>
                    act_bind (write_conflict_copy os env input path remote_plaintext (Some (te_commit_id base_entry)) remote_header)
                      (\<lambda>_. act_lift (Inr KeptLocalDirty))))))"

definition merge_remote_delete ::
  "'f os_api \<Rightarrow> pull_env \<Rightarrow> pull_input \<Rightarrow> sync_commit_header \<Rightarrow> sync_file_record option \<Rightarrow> rstr
    \<Rightarrow> ('f, remote_apply_action) pull_act" where
  "merge_remote_delete os env input remote_header dirty path =
     (case dirty of
        None \<Rightarrow>
          act_bind (apply_remote_delete os env (pn_vault_root input) (pn_hooks input) path)
            (\<lambda>_. act_lift (Inr AppliedRemote))
      | Some dirty \<Rightarrow>
          if sf_deleted dirty
          then act_bind (apply_remote_delete os env (pn_vault_root input) (pn_hooks input) path)
            (\<lambda>_. act_lift (Inr AppliedRemote))
          else
            act_bind (read_local_file os (pn_vault_root input) (sf_path dirty)) (\<lambda>local_plaintext.
            act_bind (write_conflict_copy os env input path local_plaintext None remote_header) (\<lambda>_.
            act_bind (apply_remote_delete os env (pn_vault_root input) (pn_hooks input) path) (\<lambda>_.
            act_lift (Inr AppliedRemote)))))"

definition push_if_applied :: "remote_apply_action \<Rightarrow> rstr \<Rightarrow> rstr list \<Rightarrow> rstr list" where
  "push_if_applied action file_id synced = (if action = AppliedRemote then synced @ [file_id] else synced)"

fun apply_change ::
  "'f os_api \<Rightarrow> pull_env \<Rightarrow> pull_input \<Rightarrow> merge_state \<Rightarrow> decrypted_commit \<Rightarrow> commit_body_file_op
    \<Rightarrow> file_tree \<times> rstr list \<Rightarrow> ('f, file_tree \<times> rstr list) pull_act" where
  "apply_change os env input dirty_files commit
     (UpsertFile file_id path normalized_path plaintext_hash size_bytes content_ref) (tree, synced) =
     act_bind (act_lift (validate_remote_file_identity (ev_hash env) (ev_lower env) file_id path normalized_path)) (\<lambda>_.
     act_bind (act_lift (pack_entry_plaintext (dc_packs commit) content_ref)) (\<lambda>remote_plaintext.
     act_bind (act_lift (validate_plaintext_metadata (ev_hash env) path remote_plaintext plaintext_hash size_bytes)) (\<lambda>_.
     act_bind
       (case bt_get dirty_files file_id of
          Some dirty \<Rightarrow>
            merge_remote_upsert os env input (dc_header commit) (bt_get tree file_id) dirty path remote_plaintext
        | None \<Rightarrow>
            act_bind (apply_remote_write os env (pn_vault_root input) (pn_hooks input) path remote_plaintext)
              (\<lambda>_. act_lift (Inr AppliedRemote))) (\<lambda>action.
     act_lift (Inr
       (bt_insert file_id
          (upsert_tree_entry (dc_header commit) file_id normalized_path plaintext_hash content_ref) tree,
        push_if_applied action file_id synced))))))"
| "apply_change os env input dirty_files commit (DeleteFile file_id path normalized_path) (tree, synced) =
     act_bind (act_lift (validate_remote_file_identity (ev_hash env) (ev_lower env) file_id path normalized_path)) (\<lambda>_.
     act_bind (merge_remote_delete os env input (dc_header commit) (bt_get dirty_files file_id) path) (\<lambda>action.
     act_lift (Inr (bt_remove file_id tree, push_if_applied action file_id synced))))"

definition refresh_local_scan :: "'f os_api \<Rightarrow> pull_env \<Rightarrow> path \<Rightarrow> int \<Rightarrow> ('f, unit) pull_act" where
  "refresh_local_scan os env vault_root now_ms =
     act_bind (\<lambda>w. act_lift (scan_vault (ev_hash env) (ev_lower env) vault_root (os_root os (pw_fs w) vault_root)) w)
       (\<lambda>scanned_files.
     act_db (\<lambda>db. res_bind (apply_scan (ev_hash env) db (map file_input scanned_files) now_ms)
       (\<lambda>(db, _). Inr db)))"

text \<open>The scan inside \<open>persist_applied_commit\<close> is the body of \<open>refresh_local_scan\<close>.\<close>

definition persist_applied_commit ::
  "'f os_api \<Rightarrow> pull_env \<Rightarrow> pull_input \<Rightarrow> decrypted_commit \<Rightarrow> file_tree \<Rightarrow> rstr list \<Rightarrow> ('f, unit) pull_act" where
  "persist_applied_commit os env input commit tree synced_file_ids =
     (let entries = sort_key te_normalized_path (bt_values tree); commit_id = ch_commit_id (dc_header commit)
      in
      act_bind (act_lift (validate_tree_id (ev_hash env) (ev_tree_vec env) (bd_tree_id (dc_body commit)) entries)) (\<lambda>_.
      act_bind (act_lift (tree_json_for_entries (ev_tree_string env) entries)) (\<lambda>tree_json.
      act_bind (act_db (\<lambda>db. persist_tree_cache db commit_id (bd_tree_id (dc_body commit)) tree_json
        (lit ''remote'') entries (pn_now_ms input))) (\<lambda>_.
      act_bind (refresh_local_scan os env (pn_vault_root input) (pn_now_ms input)) (\<lambda>_.
      act_bind (act_db (\<lambda>db. Inr (mark_files_synced db commit_id synced_file_ids))) (\<lambda>_.
      act_bind (act_lift (json_result (ev_parents_json env (ch_parent_commit_ids (dc_header commit))))) (\<lambda>parents_json.
      act_bind (act_db (\<lambda>db. Inr (upsert_local_commit db
        \<lparr>sc_commit_id = commit_id, sc_parent_commit_ids_json = parents_json,
         sc_commit_kind = bd_commit_kind (dc_body commit), sc_direction = lit ''remote'', sc_status = lit ''applied'',
         sc_created_at_ms = pn_now_ms input, sc_applied_at_ms = Some (pn_now_ms input), sc_error = None\<rparr>))) (\<lambda>_.
      act_db (\<lambda>db. Inr (update_vault_after_pull db (pn_vault_id input) commit_id (pn_now_ms input)))))))))))"

definition apply_decrypted_commit ::
  "'f os_api \<Rightarrow> pull_env \<Rightarrow> pull_input \<Rightarrow> merge_state \<Rightarrow> decrypted_commit \<Rightarrow> file_tree
    \<Rightarrow> ('f, file_tree \<times> applied_commit_state) pull_act" where
  "apply_decrypted_commit os env input dirty_files commit tree =
     act_bind (act_fold (apply_change os env input dirty_files commit) (bd_changes (dc_body commit))
       (start_tree (dc_header commit) tree, [])) (\<lambda>(tree, synced_file_ids).
     act_bind (persist_applied_commit os env input commit tree synced_file_ids) (\<lambda>_.
     act_lift (Inr (tree, \<lparr>ac_synced_file_ids = synced_file_ids\<rparr>))))"

section \<open>Pulling\<close>

definition validate_pull_input :: "pull_input \<Rightarrow> unit sync_result" where
  "validate_pull_input input =
     res_bind (validate_required (pn_vault_id input) (lit ''vault_id'')) (\<lambda>_.
     res_bind (validate_required (pn_workspace_id input) (lit ''workspace_id'')) (\<lambda>_.
     res_bind (validate_required (pn_device_id input) (lit ''device_id'')) (\<lambda>_. Inr ())))"

definition new_pull_vault :: "pull_input \<Rightarrow> sync_head \<Rightarrow> sync_vault_record" where
  "new_pull_vault input head =
     \<lparr>sv_vault_id = pn_vault_id input, sv_root_path = path_to_str (pn_vault_root input),
      sv_remote_workspace_id = pn_workspace_id input,
      sv_remote_head_commit_id = empty_to_none (hd_current_head_commit_id head),
      sv_local_head_commit_id = None, sv_device_id = pn_device_id input, sv_next_device_seq = 1,
      sv_enabled = True, sv_created_at_ms = pn_now_ms input, sv_updated_at_ms = pn_now_ms input\<rparr>"

definition refreshed_vault :: "pull_input \<Rightarrow> sync_head \<Rightarrow> sync_vault_record \<Rightarrow> sync_vault_record" where
  "refreshed_vault input head vault =
     (let vault = vault\<lparr>sv_root_path := path_to_str (pn_vault_root input),
            sv_remote_workspace_id := pn_workspace_id input,
            sv_remote_head_commit_id := empty_to_none (hd_current_head_commit_id head),
            sv_device_id := pn_device_id input, sv_enabled := True, sv_updated_at_ms := pn_now_ms input\<rparr>
      in if sv_next_device_seq vault \<le> 0 then vault\<lparr>sv_next_device_seq := 1\<rparr> else vault)"

definition ensure_pull_vault_record :: "pull_input \<Rightarrow> sync_head \<Rightarrow> ('f, sync_vault_record) pull_act" where
  "ensure_pull_vault_record input head =
     act_bind (act_get (\<lambda>w. get_vault (pw_db w) (pn_vault_id input))) (\<lambda>existing.
     let vault = refreshed_vault input head
           (case existing of Some vault \<Rightarrow> vault | None \<Rightarrow> new_pull_vault input head)
     in act_bind (act_db (\<lambda>db. Inr (upsert_vault db vault))) (\<lambda>_. act_lift (Inr vault)))"

definition initial_tree_entries :: "sync_db \<Rightarrow> sync_vault_record \<Rightarrow> file_tree" where
  "initial_tree_entries db vault =
     (case sv_local_head_commit_id vault of
        None \<Rightarrow> []
      | Some local_head \<Rightarrow> bt_collect te_file_id (list_tree_entries db local_head))"

fun rematerialize_tree_entries ::
  "pull_env \<Rightarrow> pull_input \<Rightarrow> sync_commit_header list \<Rightarrow> rstr \<Rightarrow> file_tree \<Rightarrow> file_tree sync_result" where
  "rematerialize_tree_entries env input [] target_commit_id tree =
     Inl (Transport (lit ''local head '' @ target_commit_id @ lit '' is not present in remote history''))"
| "rematerialize_tree_entries env input (header # headers) target_commit_id tree =
     res_bind (decrypt_commit env (pn_workspace_id input) (pn_device_id input) (pn_workspace_key input) header) (\<lambda>commit.
     res_bind (materialize_remote_tree_only (ev_hash env) (ev_lower env) commit tree) (\<lambda>tree.
     if ch_commit_id (dc_header commit) = target_commit_id then Inr tree
     else rematerialize_tree_entries env input headers target_commit_id tree))"

definition initial_or_rematerialized_tree_entries ::
  "pull_env \<Rightarrow> pull_input \<Rightarrow> sync_vault_record \<Rightarrow> sync_commit_header list \<Rightarrow> sync_db \<Rightarrow> file_tree sync_result" where
  "initial_or_rematerialized_tree_entries env input vault commits db =
     (let local_head = local_head_of vault; tree = initial_tree_entries db vault
      in if local_head = [] \<or> tree \<noteq> [] then Inr tree
         else rematerialize_tree_entries env input commits local_head [])"

definition pull_commit ::
  "'f os_api \<Rightarrow> pull_env \<Rightarrow> pull_input \<Rightarrow> merge_state \<Rightarrow> sync_commit_header \<Rightarrow> file_tree \<times> rstr list
    \<Rightarrow> ('f, file_tree \<times> rstr list) pull_act" where
  "pull_commit os env input dirty_files header st =
     (case st of (tree, applied) \<Rightarrow>
       act_bind (act_lift (decrypt_commit env (pn_workspace_id input) (pn_device_id input) (pn_workspace_key input) header))
         (\<lambda>commit.
       act_bind (apply_decrypted_commit os env input dirty_files commit tree) (\<lambda>(tree, _).
       act_lift (Inr (tree, applied @ [ch_commit_id (dc_header commit)])))))"

definition nothing_pulled :: pull_result where
  "nothing_pulled = \<lparr>pu_applied_commits = [], pu_bootstrapped_from_checkpoint = False\<rparr>"

definition replay_commits ::
  "'f os_api \<Rightarrow> pull_env \<Rightarrow> pull_input \<Rightarrow> sync_vault_record \<Rightarrow> sync_commit_header list \<Rightarrow> replay_selection
    \<Rightarrow> ('f, pull_result) pull_act" where
  "replay_commits os env input vault commits selection =
     act_bind (refresh_local_scan os env (pn_vault_root input) (pn_now_ms input)) (\<lambda>_.
     act_bind (act_get (\<lambda>w. bt_collect sf_file_id (list_dirty_files (pw_db w)))) (\<lambda>dirty_files.
     act_bind (\<lambda>w. act_lift (initial_or_rematerialized_tree_entries env input vault commits (pw_db w)) w) (\<lambda>tree.
     act_bind (act_fold (pull_commit os env input dirty_files) (rs_commits selection) (tree, [])) (\<lambda>(_, applied).
     act_lift (Inr \<lparr>pu_applied_commits = applied,
       pu_bootstrapped_from_checkpoint = rs_bootstrapped_from_checkpoint selection\<rparr>)))))"

definition pull_remote_changes :: "'f os_api \<Rightarrow> pull_env \<Rightarrow> pull_input \<Rightarrow> ('f, pull_result) pull_act" where
  "pull_remote_changes os env input =
     act_bind (act_lift (validate_pull_input input)) (\<lambda>_.
     act_bind (act_lift (ev_get_head env (pn_workspace_id input))) (\<lambda>head.
     act_bind (ensure_pull_vault_record input head) (\<lambda>vault.
     if hd_current_head_commit_id head = [] then act_lift (Inr nothing_pulled)
     else
       act_bind (act_lift (list_all_commits (ev_list_commits env) (pn_workspace_id input))) (\<lambda>commits.
       act_bind (act_lift (select_replay_commits vault head commits)) (\<lambda>selection.
       if rs_commits selection = [] then act_lift (Inr nothing_pulled)
       else replay_commits os env input vault commits selection)))))"


section \<open>Frames\<close>

text \<open>What file operations keep, carried through the operations that are made of them.\<close>

locale file_frame = frame R for R :: "'f pull_world \<Rightarrow> 'f pull_world \<Rightarrow> bool" +
  fixes os :: "'f os_api" and env :: pull_env and input :: pull_input
  assumes write_keeps: "R w (snd (apply_remote_write os env (pn_vault_root input) hooks path bs w))"
    and delete_keeps: "R w (snd (apply_remote_delete os env (pn_vault_root input) hooks path w))"
    and conflict_keeps: "R w (w\<lparr>pw_db := upsert_conflict (pw_db w) c\<rparr>)"
begin

lemma keeps_write: "keeps (apply_remote_write os env (pn_vault_root input) hooks path bs)"
  by (rule keepsI) (rule write_keeps)

lemma keeps_delete: "keeps (apply_remote_delete os env (pn_vault_root input) hooks path)"
  by (rule keepsI) (rule delete_keeps)

lemma keeps_resolve: "keeps (resolve_remote_path os root path)"
  by (rule keepsI) (simp add: resolve_remote_path_def refl split: sum.split)

lemma keeps_read: "keeps (read_local_file os root path)"
  unfolding read_local_file_def
  by (intro keeps_bind keeps_resolve keepsI) (simp add: refl split: sum.split)

lemma keeps_conflict: "keeps (act_db (\<lambda>db. Inr (upsert_conflict db c)))"
  by (rule keepsI) (simp add: act_db_def conflict_keeps)

lemma keeps_conflict_copy:
  "keeps (write_conflict_copy os env input path bs base header)"
  unfolding write_conflict_copy_def by (intro keeps_intros keeps_write keeps_conflict)

lemma keeps_merge_upsert:
  "keeps (merge_remote_upsert os env input header base dirty path bs)"
  unfolding merge_remote_upsert_def
  by (intro keeps_intros)
    (auto intro!: keeps_intros keeps_conflict_copy keeps_read keeps_write split: markdown_merge_outcome.split)

lemma keeps_merge_delete:
  "keeps (merge_remote_delete os env input header dirty path)"
  unfolding merge_remote_delete_def
  by (intro keeps_intros) (auto intro!: keeps_conflict_copy keeps_read keeps_delete)

lemma keeps_apply_change:
  "keeps (apply_change os env input dirty_files commit op st)"
  by (cases "(os, env, input, dirty_files, commit, op, st)" rule: apply_change.cases)
    (auto intro!: keeps_intros keeps_merge_upsert keeps_merge_delete keeps_write)

end

text \<open>A frame that no database operation can break reaches the whole pull.\<close>

locale vault_frame = file_frame +
  assumes db_keeps: "R w (w\<lparr>pw_db := db\<rparr>)"
begin

lemma keeps_db: "keeps (act_db f)"
  by (rule keepsI) (simp add: act_db_def refl db_keeps split: sum.split)

lemma keeps_refresh: "keeps (refresh_local_scan os env v now)"
  unfolding refresh_local_scan_def by (intro keeps_bind keeps_state keeps_db)

lemma keeps_persist: "keeps (persist_applied_commit os env input commit tree synced)"
  unfolding persist_applied_commit_def Let_def by (intro keeps_bind keeps_lift keeps_refresh keeps_db)

lemma keeps_pull_commit:
  "keeps (pull_commit os env input dirty_files header st)"
  unfolding pull_commit_def apply_decrypted_commit_def
  by (intro keeps_prod keeps_bind keeps_lift keeps_fold keeps_apply_change keeps_persist)

lemma keeps_pull: "keeps (pull_remote_changes os env input)"
  unfolding pull_remote_changes_def ensure_pull_vault_record_def replay_commits_def Let_def
  by (intro keeps_if keeps_bind keeps_lift keeps_get keeps_db keeps_refresh keeps_state keeps_fold
      keeps_prod keeps_pull_commit)

end


section \<open>File operations and the database\<close>

text \<open>File operations leave the database alone.\<close>

interpretation db: frame "\<lambda>w w' :: 'f pull_world. pw_db w' = pw_db w"
  by unfold_locales simp_all

lemma keeps_db_fs: "db.keeps (act_fs f)"
  by (rule db.keepsI) (simp add: act_fs_def split: prod.split)

lemma keeps_db_resolve: "db.keeps (resolve_remote_path os root path)"
  by (rule db.keepsI) (simp add: resolve_remote_path_def split: sum.split)

lemma keeps_db_expect: "db.keeps (expect_mutation env enabled record)"
  by (rule db.keepsI) (simp add: expect_mutation_def split: prod.split)

lemma pw_db_finish: "pw_db (snd (finish_remote_mutation token m w)) = pw_db (snd (m w))"
  by (simp add: finish_remote_mutation_def split: prod.split sum.split option.split)

lemma keeps_db_finish: "db.keeps m \<Longrightarrow> db.keeps (finish_remote_mutation token m)"
  by (metis db.keeps_def pw_db_finish)

lemma keeps_db_notify: "db.keeps (notify_search env hooks notice)"
  by (rule db.keepsI) (simp add: notify_search_def)

lemma apply_remote_write_db: "db.keeps (apply_remote_write os env root hooks path bs)"
  unfolding apply_remote_write_def write_file_def
  by (intro db.keeps_bind keeps_db_resolve keeps_db_expect keeps_db_finish keeps_db_notify db.keeps_if
      keeps_db_fs db.keeps_lift)

lemma apply_remote_delete_db: "db.keeps (apply_remote_delete os env root hooks path)"
  unfolding apply_remote_delete_def remove_file_def
  by (intro db.keeps_bind keeps_db_resolve keeps_db_expect keeps_db_finish keeps_db_notify db.keeps_get keeps_db_fs)

definition same_rows :: "'f pull_world \<Rightarrow> 'f pull_world \<Rightarrow> bool" where
  "same_rows w w' \<longleftrightarrow> db_vaults (pw_db w') = db_vaults (pw_db w) \<and>
     db_tree_entries (pw_db w') = db_tree_entries (pw_db w)"

interpretation rows: file_frame same_rows os env input for os :: "'f os_api" and env and input
  by unfold_locales
    (simp_all add: same_rows_def upsert_conflict_def apply_remote_write_db [unfolded db.keeps_def, rule_format]
      apply_remote_delete_db [unfolded db.keeps_def, rule_format])

section \<open>File operations and the rest of the file system\<close>

text \<open>
  What is used of the operating system: on a path without symlinks, writing or removing a file changes
  this path only, and creating a directory changes the path and its ancestors only; neither makes a
  symlink. (Distinct paths without symlinks are distinct files: no hard links.)
\<close>

definition link_free :: "'f os_api \<Rightarrow> 'f \<Rightarrow> path \<Rightarrow> bool" where
  "link_free os fs p \<longleftrightarrow> (\<forall>q. prefix q p \<longrightarrow> os_stat os fs q \<noteq> Some True)"

definition os_view :: "'f os_api \<Rightarrow> 'f \<Rightarrow> path \<Rightarrow> bool option \<times> bool \<times> (rstr + bytes)" where
  "os_view os fs p = (os_stat os fs p, os_exists os fs p, os_read os fs p)"

definition changes_only :: "'f os_api \<Rightarrow> (path \<Rightarrow> bool) \<Rightarrow> 'f \<Rightarrow> 'f \<Rightarrow> bool" where
  "changes_only os at fs fs' \<longleftrightarrow> (\<forall>q. \<not> at q \<longrightarrow> os_view os fs' q = os_view os fs q) \<and>
     (\<forall>q. os_stat os fs' q = Some True \<longrightarrow> os_stat os fs q = Some True)"

definition os_confined :: "'f os_api \<Rightarrow> bool" where
  "os_confined os \<longleftrightarrow> (\<forall>fs p. link_free os fs p \<longrightarrow>
     (\<forall>bs. changes_only os (\<lambda>q. q = p) fs (snd (os_write os p bs fs))) \<and>
     changes_only os (\<lambda>q. q = p) fs (snd (os_remove os p fs)) \<and>
     changes_only os (\<lambda>q. prefix q p) fs (snd (os_create_dir_all os p fs)))"

definition outside :: "path \<Rightarrow> path \<Rightarrow> bool" where
  "outside root q \<longleftrightarrow> \<not> prefix root q \<and> \<not> prefix q root"

definition keeps_outside :: "'f os_api \<Rightarrow> path \<Rightarrow> 'f pull_world \<Rightarrow> 'f pull_world \<Rightarrow> bool" where
  "keeps_outside os root w w' \<longleftrightarrow> (os_confined os \<and> proper_root root \<and> link_free os (pw_fs w) root \<longrightarrow>
     link_free os (pw_fs w') root \<and>
     (\<forall>q. outside root q \<longrightarrow> os_view os (pw_fs w') q = os_view os (pw_fs w) q))"

lemma changes_only_link_free: "changes_only os at fs fs' \<Longrightarrow> link_free os fs p \<Longrightarrow> link_free os fs' p"
  by (auto simp: changes_only_def link_free_def)

lemma resolved_link_free:
  assumes "proper_root root" "link_free os fs root" "resolve_vault_path_strict (os_stat os fs) root path = Inr p"
  shows "prefix root p \<and> link_free os fs p"
  using resolved_no_links [OF assms(1) _ assms(3)] assms(2) by (simp add: link_free_def)

definition write_fs :: "'f os_api \<Rightarrow> path \<Rightarrow> bytes \<Rightarrow> 'f \<Rightarrow> 'f" where
  "write_fs os p bs fs =
     (if path_has_parent p
      then case os_create_dir_all os (path_pop p) fs of
        (Inl _, fs) \<Rightarrow> fs | (Inr _, fs) \<Rightarrow> snd (os_write os p bs fs)
      else snd (os_write os p bs fs))"

lemma pw_fs_write_file: "pw_fs (snd (write_file os p bs w)) = write_fs os p bs (pw_fs w)"
  by (simp add: write_file_def write_fs_def act_bind_def act_fs_def split: sum.split prod.split)

lemma pw_fs_finish: "pw_fs (snd (finish_remote_mutation token m w)) = pw_fs (snd (m w))"
  by (simp add: finish_remote_mutation_def split: sum.split prod.split option.split)

lemma pw_fs_notify: "pw_fs (snd (notify_search env hooks notice w)) = pw_fs w"
  by (simp add: notify_search_def)

lemma pw_fs_bind_notify:
  "pw_fs (snd (act_bind m (\<lambda>_. notify_search env hooks notice) w)) = pw_fs (snd (m w))"
  by (simp add: act_bind_def pw_fs_notify split: sum.split prod.split)

lemma expect_mutation_fs: "\<exists>token v. expect_mutation env enabled record w = (Inr token, v) \<and> pw_fs v = pw_fs w"
  by (simp add: expect_mutation_def split: prod.split)

lemma apply_remote_write_fs:
  "pw_fs (snd (apply_remote_write os env root hooks path bs w)) =
     (case resolve_vault_path_strict (os_stat os (pw_fs w)) root path of
        Inl _ \<Rightarrow> pw_fs w | Inr p \<Rightarrow> write_fs os p bs (pw_fs w))"
proof (cases "resolve_vault_path_strict (os_stat os (pw_fs w)) root path")
  case (Inr p)
  obtain token v where v: "expect_mutation env (hk_expected_mutations hooks) (record_write path False) w = (Inr token, v)"
    "pw_fs v = pw_fs w" using expect_mutation_fs by blast
  have "apply_remote_write os env root hooks path bs w =
      act_bind (finish_remote_mutation token (write_file os p bs))
        (\<lambda>_. notify_search env hooks (NotifyWritten path REMOTE_APPLY_SOURCE)) v"
    by (simp add: apply_remote_write_def act_bind_def v(1) resolve_remote_path_def Inr)
  then show ?thesis using Inr v(2) by (simp add: pw_fs_bind_notify pw_fs_finish pw_fs_write_file)
qed (simp add: apply_remote_write_def act_bind_def resolve_remote_path_def)

lemma pw_fs_remove_file: "pw_fs (snd (remove_file os p w)) = snd (os_remove os p (pw_fs w))"
  by (auto simp: remove_file_def act_fs_def split: sum.split prod.split remove_error.split)

lemma apply_remote_delete_fs:
  "pw_fs (snd (apply_remote_delete os env root hooks path w)) =
     (case resolve_vault_path_strict (os_stat os (pw_fs w)) root path of
        Inl _ \<Rightarrow> pw_fs w | Inr p \<Rightarrow> snd (os_remove os p (pw_fs w)))"
proof (cases "resolve_vault_path_strict (os_stat os (pw_fs w)) root path")
  case (Inr p)
  let ?exp = "expect_mutation env (hk_expected_mutations hooks \<and> os_exists os (pw_fs w) p) (record_delete path False)"
  obtain token v where v: "?exp w = (Inr token, v)" "pw_fs v = pw_fs w" using expect_mutation_fs by blast
  have "apply_remote_delete os env root hooks path w =
      act_bind (finish_remote_mutation token (remove_file os p))
        (\<lambda>_. notify_search env hooks (NotifyRemoved path False REMOTE_APPLY_SOURCE)) v"
    by (simp add: apply_remote_delete_def act_bind_def v(1) resolve_remote_path_def Inr)
  then show ?thesis using Inr v(2) by (simp add: pw_fs_bind_notify pw_fs_finish pw_fs_remove_file)
qed (simp add: apply_remote_delete_def act_bind_def resolve_remote_path_def)


lemma os_confinedD:
  assumes "os_confined os" "link_free os fs p"
  shows "changes_only os (\<lambda>q. q = p) fs (snd (os_write os p bs fs))"
    "changes_only os (\<lambda>q. q = p) fs (snd (os_remove os p fs))"
    "changes_only os (\<lambda>q. prefix q p) fs (snd (os_create_dir_all os p fs))"
  using assms by (auto simp: os_confined_def)

lemma changes_only_mono: "changes_only os at fs fs' \<Longrightarrow> (\<And>q. at q \<Longrightarrow> at' q) \<Longrightarrow> changes_only os at' fs fs'"
  by (auto simp: changes_only_def)

lemma changes_only_trans:
  "changes_only os at fs fs' \<Longrightarrow> changes_only os at fs' fs'' \<Longrightarrow> changes_only os at fs fs''"
  by (auto simp: changes_only_def)

lemma link_free_prefix: "link_free os fs p \<Longrightarrow> prefix q p \<Longrightarrow> link_free os fs q"
  by (auto simp: link_free_def intro: prefix_order.trans)

lemma write_fs_changes_only:
  assumes "os_confined os" "link_free os fs p"
  shows "changes_only os (\<lambda>q. prefix q p) fs (write_fs os p bs fs)"
proof -
  note confined = os_confinedD [OF assms(1)]
  have pop: "link_free os fs (path_pop p)" using link_free_prefix [OF assms(2) path_pop_prefix] .
  let ?made = "snd (os_create_dir_all os (path_pop p) fs)"
  have made: "changes_only os (\<lambda>q. prefix q p) fs ?made"
    using confined(3) [OF pop] by (rule changes_only_mono) (blast intro: prefix_order.trans path_pop_prefix)
  have wrote: "changes_only os (\<lambda>q. prefix q p) fs1 (snd (os_write os p bs fs1))" if "link_free os fs1 p" for fs1
    using confined(1) [OF that] by (rule changes_only_mono) simp
  have "changes_only os (\<lambda>q. prefix q p) fs (snd (os_write os p bs ?made))"
    by (rule changes_only_trans [OF made wrote [OF changes_only_link_free [OF made assms(2)]]])
  then show ?thesis using made wrote [OF assms(2)]
    by (auto simp: write_fs_def split: prod.split sum.split)
qed

lemma changes_only_keeps_outside:
  assumes "link_free os fs root" "prefix root p" "changes_only os (\<lambda>q. prefix q p) fs fs'"
  shows "link_free os fs' root \<and> (\<forall>q. outside root q \<longrightarrow> os_view os fs' q = os_view os fs q)"
proof (intro conjI allI impI)
  show "link_free os fs' root" by (rule changes_only_link_free [OF assms(3,1)])
  fix q assume "outside root q"
  then have "\<not> prefix q p" using assms(2) prefix_same_cases by (fastforce simp: outside_def)
  then show "os_view os fs' q = os_view os fs q" using assms(3) by (simp add: changes_only_def)
qed

lemma keeps_outside_step:
  assumes "\<And>p. os_confined os \<Longrightarrow> link_free os (pw_fs w) p \<Longrightarrow> changes_only os (\<lambda>q. prefix q p) (pw_fs w) (step p)"
    and "pw_fs w' = (case resolve_vault_path_strict (os_stat os (pw_fs w)) root path of Inl _ \<Rightarrow> pw_fs w | Inr p \<Rightarrow> step p)"
  shows "keeps_outside os root w w'"
  unfolding keeps_outside_def
proof (intro impI, elim conjE)
  assume os: "os_confined os" and root: "proper_root root" and free: "link_free os (pw_fs w) root"
  show "link_free os (pw_fs w') root \<and> (\<forall>q. outside root q \<longrightarrow> os_view os (pw_fs w') q = os_view os (pw_fs w) q)"
  proof (cases "resolve_vault_path_strict (os_stat os (pw_fs w)) root path")
    case (Inr p)
    with resolved_link_free [OF root free] have p: "prefix root p" "link_free os (pw_fs w) p" by blast+
    show ?thesis using changes_only_keeps_outside [OF free p(1) assms(1) [OF os p(2)]] assms(2) Inr by simp
  qed (use free assms(2) in simp)
qed

interpretation vault: vault_frame "keeps_outside os (pn_vault_root input)" os env input
  for os :: "'f os_api" and env and input
proof unfold_locales
  fix w :: "'f pull_world" and hooks path bs
  show "keeps_outside os (pn_vault_root input) w (snd (apply_remote_write os env (pn_vault_root input) hooks path bs w))"
    by (rule keeps_outside_step [OF write_fs_changes_only apply_remote_write_fs])
  show "keeps_outside os (pn_vault_root input) w (snd (apply_remote_delete os env (pn_vault_root input) hooks path w))"
    by (rule keeps_outside_step [OF _ apply_remote_delete_fs])
      (blast intro: changes_only_mono [OF os_confinedD(2)])
qed (auto simp: keeps_outside_def)

end
