(* ===== verification/Sync_Pull.thy ===== *)
theory Sync_Pull
  imports Sync_Applier
begin

text \<open>
  What a pull achieves: the tree that replaying a commit describes, what a pulled commit and a whole pull
  leave in the database, that devices converge to the tree of the history, that nothing outside the
  vault is touched and that local edits survive as conflict copies. A small system at the end shows
  that the hypotheses can hold together.
\<close>

section \<open>The tree of a replayed commit\<close>

text \<open>The tree alone: what a history describes, without files and database.\<close>

definition replay_commit :: "pull_env \<Rightarrow> pull_input \<Rightarrow> sync_commit_header \<Rightarrow> file_tree \<Rightarrow> file_tree sync_result" where
  "replay_commit env input header tree =
     res_bind (decrypt_commit env (pn_workspace_id input) (pn_device_id input) (pn_workspace_key input) header)
       (\<lambda>commit. materialize_remote_tree_only (ev_hash env) (ev_lower env) commit tree)"

definition replay_tree :: "pull_env \<Rightarrow> pull_input \<Rightarrow> sync_commit_header list \<Rightarrow> file_tree \<Rightarrow> file_tree sync_result" where
  "replay_tree env input headers tree = res_fold (replay_commit env input) headers tree"

definition tree_ok :: "file_tree \<Rightarrow> bool" where
  "tree_ok tree \<longleftrightarrow> bt_ordered tree \<and> keyed_by te_file_id tree"

lemma apply_change_tree:
  "apply_change os env input dirty_files commit op st w = (Inr st', w') \<Longrightarrow>
     materialize_change (ev_hash env) (ev_lower env) commit op (fst st) = Inr (fst st')"
  by (cases "(os, env, input, dirty_files, commit, op, st)" rule: apply_change.cases)
    (auto simp: act_bind_Inr)

lemma apply_decrypted_commit_Inr:
  assumes "apply_decrypted_commit os env input dirty_files commit tree w = (Inr (tree', st), w')"
  obtains v where "materialize_remote_tree_only (ev_hash env) (ev_lower env) commit tree = Inr tree'"
    "same_rows w v" "persist_applied_commit os env input commit tree' (ac_synced_file_ids st) v = (Inr (), w')"
proof -
  from assms obtain synced v where
    fold: "act_fold (apply_change os env input dirty_files commit) (bd_changes (dc_body commit))
       (start_tree (dc_header commit) tree, []) w = (Inr (tree', synced), v)"
    and p: "persist_applied_commit os env input commit tree' synced v = (Inr (), w')" "st = \<lparr>ac_synced_file_ids = synced\<rparr>"
    by (auto simp: apply_decrypted_commit_def act_bind_Inr)
  have "materialize_remote_tree_only (ev_hash env) (ev_lower env) commit tree = Inr tree'"
    using act_fold_tracks [where p = fst and g = "materialize_change (ev_hash env) (ev_lower env) commit",
      OF fold apply_change_tree] by (simp add: materialize_remote_tree_only_def)
  moreover have "same_rows w v"
    by (rule rows.keeps_run [OF rows.keeps_fold [OF rows.keeps_apply_change] fold])
  ultimately show ?thesis using that p by simp
qed

lemma materialize_change_ok: "materialize_change hash lower commit op tree = Inr tree' \<Longrightarrow> tree_ok tree \<Longrightarrow> tree_ok tree'"
  by (cases op) (auto simp: res_bind_eq_Inr tree_ok_def upsert_tree_entry_def
      intro: bt_insert_ordered bt_remove_ordered keyed_by_insert keyed_by_remove)

lemma tree_ok_Nil [simp]: "tree_ok []"
  by (simp add: tree_ok_def bt_ordered_def keyed_by_def)

lemma materialize_tree_ok:
  "materialize_remote_tree_only hash lower commit tree = Inr tree' \<Longrightarrow> tree_ok tree \<Longrightarrow> tree_ok tree'"
  unfolding materialize_remote_tree_only_def
  by (erule res_fold_invariant) (auto simp: start_tree_def intro: materialize_change_ok)

lemma replay_tree_ok: "replay_tree env input headers tree = Inr tree' \<Longrightarrow> tree_ok tree \<Longrightarrow> tree_ok tree'"
  unfolding replay_tree_def
  by (erule res_fold_invariant) (auto simp: replay_commit_def res_bind_eq_Inr intro: materialize_tree_ok)

text \<open>The entries of a tree, sorted by path and collected again, are the tree.\<close>

lemma bt_map_ext:
  assumes "bt_ordered m" "bt_ordered n" "set m = set n"
  shows "m = n"
proof -
  have "distinct m" "distinct n" using assms(1,2) bt_ordered_distinct by (auto simp: distinct_map)
  have "map fst m = map fst n"
    using assms by (intro strict_sorted_equal) (auto simp: bt_ordered_def)
  moreover have "m ! i = n ! i" if "i < length m" for i
  proof -
    have l: "length m = length n" using \<open>map fst m = map fst n\<close> map_eq_imp_length_eq by blast
    have "fst (m ! i) = fst (n ! i)" using \<open>map fst m = map fst n\<close> that l by (metis nth_map)
    moreover have "m ! i \<in> set n" "n ! i \<in> set n" using assms(3) that l nth_mem by auto
    ultimately show ?thesis using bt_ordered_distinct [OF assms(2)] eq_key_imp_eq_value
      by (metis prod.collapse)
  qed
  ultimately show ?thesis by (metis map_eq_imp_length_eq nth_equalityI)
qed

lemma find_by_key: "distinct (map f xs) \<Longrightarrow> find (\<lambda>v. f v = k) xs = Some v \<longleftrightarrow> v \<in> set xs \<and> f v = k"
  by (induction xs) force+

lemma collect_tree:
  assumes "tree_ok tree"
  shows "bt_collect te_file_id (sort_key te_normalized_path (bt_values tree)) = tree"
proof (rule bt_map_ext [OF bt_collect_ordered])
  let ?vs = "sort_key te_normalized_path (bt_values tree)"
  show ord: "bt_ordered tree" using assms by (simp add: tree_ok_def)
  have keys: "map te_file_id (bt_values tree) = map fst tree" using assms keyed_by_values by (auto simp: tree_ok_def)
  have "distinct (map te_file_id (bt_values tree))" unfolding keys by (rule bt_ordered_distinct [OF ord])
  then have d: "distinct (map te_file_id ?vs)" by (simp add: distinct_map)
  have "bt_get (bt_collect te_file_id ?vs) k = Some v \<longleftrightarrow> (k, v) \<in> set tree" for k v
  proof -
    have "bt_get (bt_collect te_file_id ?vs) k = Some v \<longleftrightarrow> v \<in> set (bt_values tree) \<and> te_file_id v = k"
      unfolding bt_get_collect [OF d] find_by_key [OF d] by simp
    then show ?thesis using assms by (force simp: tree_ok_def keyed_by_def bt_values_def)
  qed
  then show "set (bt_collect te_file_id ?vs) = set tree"
    using bt_get_Some_iff [OF bt_collect_ordered [of te_file_id ?vs]] by auto
qed


section \<open>What a pulled commit leaves in the database\<close>

definition pulled_head :: "pull_input \<Rightarrow> rstr \<Rightarrow> sync_vault_record \<Rightarrow> sync_vault_record" where
  "pulled_head input commit_id v = v\<lparr>sv_remote_head_commit_id := Some commit_id,
     sv_local_head_commit_id := Some commit_id, sv_updated_at_ms := pn_now_ms input\<rparr>"

lemma act_db_Inr: "act_db f w = (Inr u, w') \<longleftrightarrow> (\<exists>db. f (pw_db w) = Inr db \<and> w' = w\<lparr>pw_db := db\<rparr>)"
  by (auto simp: act_db_def split: sum.splits)

lemma apply_scan_tables: "apply_scan hash db files now = Inr (db', res) \<Longrightarrow>
    db_vaults db' = db_vaults db \<and> db_tree_entries db' = db_tree_entries db"
  by (auto simp: apply_scan_def Let_def res_bind_eq_Inr split: prod.splits)

lemma refresh_same_rows: "rows.keeps (refresh_local_scan os env root now)"
  unfolding refresh_local_scan_def
proof (intro rows.keeps_bind rows.keeps_state rows.keepsI)
  fix w :: "'f pull_world" and files
  show "same_rows w (snd (act_db (\<lambda>db. res_bind (apply_scan (ev_hash env) db (map file_input files) now) (\<lambda>(db, _). Inr db)) w))"
  proof (cases "apply_scan (ev_hash env) (pw_db w) (map file_input files) now")
    case (Inr r)
    obtain db res where "r = (db, res)" by fastforce
    with Inr apply_scan_tables [of "ev_hash env" "pw_db w" "map file_input files" now db res] show ?thesis
      by (simp add: act_db_def same_rows_def)
  qed (simp add: act_db_def same_rows_def)
qed

lemma list_tree_entries_cong: "db_tree_entries db' = db_tree_entries db \<Longrightarrow> list_tree_entries db' = list_tree_entries db"
  by (simp add: list_tree_entries_def fun_eq_iff)

lemma get_vault_cong: "db_vaults db' = db_vaults db \<Longrightarrow> get_vault db' = get_vault db"
  by (simp add: get_vault_def fun_eq_iff)

lemma get_pulled_vault:
  "get_vault (update_vault_after_pull db vault_id commit_id (pn_now_ms input)) vault_id =
     map_option (pulled_head input commit_id) (get_vault db vault_id)"
proof -
  have "get_vault (update_vault_after_pull db vault_id commit_id (pn_now_ms input)) vault_id =
      map_option (\<lambda>r. if sv_vault_id r = vault_id then pulled_head input commit_id r else r) (get_vault db vault_id)"
    unfolding get_vault_def update_vault_after_pull_def pulled_head_def by (simp add: tbl_get_update)
  also have "\<dots> = map_option (pulled_head input commit_id) (get_vault db vault_id)"
    by (auto simp: get_vault_def dest: tbl_get_Some_key intro!: option.map_cong0 split: if_splits)
  finally show ?thesis .
qed

lemma persist_applied_commit_Inr:
  assumes "persist_applied_commit os env input commit tree synced w = (Inr (), w')"
  shows "list_tree_entries (pw_db w') = (list_tree_entries (pw_db w))
      (ch_commit_id (dc_header commit) := sort_key te_normalized_path (bt_values tree))"
    and "get_vault (pw_db w') (pn_vault_id input) =
      map_option (pulled_head input (ch_commit_id (dc_header commit))) (get_vault (pw_db w) (pn_vault_id input))"
proof -
  let ?entries = "sort_key te_normalized_path (bt_values tree)" and ?id = "ch_commit_id (dc_header commit)"
  from assms obtain json db1 w2 pj where
    tree: "persist_tree_cache (pw_db w) ?id (bd_tree_id (dc_body commit)) json (lit ''remote'') ?entries (pn_now_ms input) = Inr db1"
    and scan: "refresh_local_scan os env (pn_vault_root input) (pn_now_ms input) (w\<lparr>pw_db := db1\<rparr>) = (Inr (), w2)"
    and w': "pw_db w' = update_vault_after_pull (upsert_local_commit (mark_files_synced (pw_db w2) ?id synced) pj)
       (pn_vault_id input) ?id (pn_now_ms input)"
    unfolding persist_applied_commit_def Let_def
    by (auto simp: act_bind_Inr act_db_Inr)
  have same: "db_vaults (pw_db w2) = db_vaults db1" "db_tree_entries (pw_db w2) = db_tree_entries db1"
    using rows.keeps_run [OF refresh_same_rows scan] by (simp_all add: same_rows_def)
  have db1: "db_vaults db1 = db_vaults (pw_db w)"
    using tree by (auto simp: persist_tree_cache_def Let_def res_bind_eq_Inr)
  have "list_tree_entries db1 = (list_tree_entries (pw_db w))(?id := sort_key te_normalized_path ?entries)"
    using persist_tree_cache_reads_back [where db = "pw_db w" and commit_id = ?id and tree_id = "bd_tree_id (dc_body commit)"
      and tree_json = json and source = "lit ''remote''" and entries = ?entries and created_at_ms = "pn_now_ms input"]
    unfolding tree by simp
  moreover have "list_tree_entries (pw_db w') = list_tree_entries db1"
    by (rule list_tree_entries_cong)
      (simp add: w' update_vault_after_pull_def upsert_local_commit_def mark_files_synced_def same)
  ultimately show "list_tree_entries (pw_db w') = (list_tree_entries (pw_db w))(?id := ?entries)"
    by (simp add: sort_key_id_if_sorted)
  have "get_vault (upsert_local_commit (mark_files_synced (pw_db w2) ?id synced) pj) = get_vault (pw_db w)"
    by (rule get_vault_cong) (simp add: upsert_local_commit_def mark_files_synced_def same db1)
  then show "get_vault (pw_db w') (pn_vault_id input) =
      map_option (pulled_head input ?id) (get_vault (pw_db w) (pn_vault_id input))"
    unfolding w' get_pulled_vault by simp
qed

lemma decrypt_commit_header: "decrypt_commit env ws dev key header = Inr commit \<Longrightarrow> dc_header commit = header"
  by (auto simp: decrypt_commit_def res_bind_eq_Inr Let_def)

lemma pull_commit_Inr:
  assumes "pull_commit os env input dirty_files header (tree, applied) w = (Inr (tree', applied'), w')"
  shows "replay_commit env input header tree = Inr tree'" "applied' = applied @ [ch_commit_id header]"
    "list_tree_entries (pw_db w') = (list_tree_entries (pw_db w))
      (ch_commit_id header := sort_key te_normalized_path (bt_values tree'))"
    "get_vault (pw_db w') (pn_vault_id input) =
      map_option (pulled_head input (ch_commit_id header)) (get_vault (pw_db w) (pn_vault_id input))"
proof -
  from assms obtain commit st where
    d: "decrypt_commit env (pn_workspace_id input) (pn_device_id input) (pn_workspace_key input) header = Inr commit"
    and run: "apply_decrypted_commit os env input dirty_files commit tree w = (Inr (tree', st), w')"
    and ap: "applied' = applied @ [ch_commit_id (dc_header commit)]"
    by (auto simp: pull_commit_def act_bind_Inr)
  note h = decrypt_commit_header [OF d]
  from run obtain v where m: "materialize_remote_tree_only (ev_hash env) (ev_lower env) commit tree = Inr tree'"
    and s: "same_rows w v" and p: "persist_applied_commit os env input commit tree' (ac_synced_file_ids st) v = (Inr (), w')"
    by (rule apply_decrypted_commit_Inr)
  show "replay_commit env input header tree = Inr tree'" by (simp add: replay_commit_def d m)
  show "applied' = applied @ [ch_commit_id header]" by (simp add: ap h)
  have "list_tree_entries (pw_db v) = list_tree_entries (pw_db w)" "get_vault (pw_db v) = get_vault (pw_db w)"
    using s list_tree_entries_cong [of "pw_db v" "pw_db w"] get_vault_cong [of "pw_db v" "pw_db w"]
    by (simp_all add: same_rows_def)
  with persist_applied_commit_Inr [OF p] h show
    "list_tree_entries (pw_db w') = (list_tree_entries (pw_db w))
      (ch_commit_id header := sort_key te_normalized_path (bt_values tree'))"
    "get_vault (pw_db w') (pn_vault_id input) =
      map_option (pulled_head input (ch_commit_id header)) (get_vault (pw_db w) (pn_vault_id input))" by simp_all
qed

lemma pull_commits_Inr:
  assumes "act_fold (pull_commit os env input dirty_files) headers (tree, applied) w = (Inr (tree', applied'), w')"
    and "headers \<noteq> []"
  shows "replay_tree env input headers tree = Inr tree' \<and> applied' = applied @ map ch_commit_id headers \<and>
    list_tree_entries (pw_db w') (ch_commit_id (last headers)) = sort_key te_normalized_path (bt_values tree') \<and>
    (get_vault (pw_db w) (pn_vault_id input) \<noteq> None \<longrightarrow>
      (\<exists>v. get_vault (pw_db w') (pn_vault_id input) = Some v \<and> sv_local_head_commit_id v = Some (ch_commit_id (last headers))))"
  using assms
proof (induction headers arbitrary: tree applied w)
  case (Cons header headers)
  from Cons.prems(1) obtain tree1 applied1 w1 where
    one: "pull_commit os env input dirty_files header (tree, applied) w = (Inr (tree1, applied1), w1)"
    and rest: "act_fold (pull_commit os env input dirty_files) headers (tree1, applied1) w1 = (Inr (tree', applied'), w')"
    by (auto simp: act_bind_Inr)
  note step = pull_commit_Inr [OF one]
  show ?case
  proof (cases "headers = []")
    case True
    with rest have "tree1 = tree'" "applied1 = applied'" "w1 = w'" by auto
    with step True show ?thesis by (auto simp: replay_tree_def pulled_head_def)
  next
    case False
    from Cons.IH [OF rest False] step False show ?thesis by (auto simp: replay_tree_def pulled_head_def)
  qed
qed simp


section \<open>What a pull leaves in the database\<close>

definition pull_vault :: "pull_input \<Rightarrow> sync_head \<Rightarrow> sync_db \<Rightarrow> sync_vault_record" where
  "pull_vault input head db = refreshed_vault input head
     (case get_vault db (pn_vault_id input) of Some vault \<Rightarrow> vault | None \<Rightarrow> new_pull_vault input head)"

lemma pull_vault_id: "sv_vault_id (pull_vault input head db) = pn_vault_id input"
  by (auto simp: pull_vault_def refreshed_vault_def new_pull_vault_def Let_def get_vault_def
      dest: tbl_get_Some_key split: option.split)

lemma pull_vault_local_head:
  "sv_local_head_commit_id (pull_vault input head db) =
     (case get_vault db (pn_vault_id input) of Some vault \<Rightarrow> sv_local_head_commit_id vault | None \<Rightarrow> None)"
  by (simp add: pull_vault_def refreshed_vault_def new_pull_vault_def Let_def split: option.split)

definition enrolled :: "pull_input \<Rightarrow> sync_head \<Rightarrow> 'f pull_world \<Rightarrow> 'f pull_world" where
  "enrolled input head w = w\<lparr>pw_db := upsert_vault (pw_db w) (pull_vault input head (pw_db w))\<rparr>"

lemma ensure_pull_vault_record_run:
  "ensure_pull_vault_record input head w = (Inr (pull_vault input head (pw_db w)), enrolled input head w)"
  by (simp add: ensure_pull_vault_record_def act_bind_def act_db_def Let_def pull_vault_def enrolled_def)

lemma get_enrolled_vault:
  "\<exists>v. get_vault (pw_db (enrolled input head w)) (pn_vault_id input) = Some v \<and>
     sv_local_head_commit_id v = sv_local_head_commit_id (pull_vault input head (pw_db w))"
  by (simp add: enrolled_def get_upserted_vault pull_vault_id split: option.split)

lemma enrolled_tree_entries: "list_tree_entries (pw_db (enrolled input head w)) = list_tree_entries (pw_db w)"
  by (rule list_tree_entries_cong) (simp add: enrolled_def upsert_vault_def)

lemma pull_remote_changes_Inr:
  assumes "pull_remote_changes os env input w = (Inr res, w')"
    and "ev_get_head env (pn_workspace_id input) = Inr head" "hd_current_head_commit_id head \<noteq> []"
  obtains commits sel where "list_all_commits (ev_list_commits env) (pn_workspace_id input) = Inr commits"
    "select_replay_commits (pull_vault input head (pw_db w)) head commits = Inr sel"
    "if rs_commits sel = [] then res = nothing_pulled \<and> w' = enrolled input head w
     else replay_commits os env input (pull_vault input head (pw_db w)) commits sel (enrolled input head w) = (Inr res, w')"
  using assms
  by (auto simp: pull_remote_changes_def act_bind_Inr ensure_pull_vault_record_run split: if_splits)

lemma initial_or_rematerialized_cong:
  "list_tree_entries db' = list_tree_entries db \<Longrightarrow>
     initial_or_rematerialized_tree_entries env input vault commits db' =
     initial_or_rematerialized_tree_entries env input vault commits db"
  by (simp add: initial_or_rematerialized_tree_entries_def initial_tree_entries_def cong: option.case_cong)

lemma replay_commits_Inr:
  assumes "replay_commits os env input vault commits sel w = (Inr res, w')" "rs_commits sel \<noteq> []"
  obtains tree0 tree where
    "initial_or_rematerialized_tree_entries env input vault commits (pw_db w) = Inr tree0"
    "replay_tree env input (rs_commits sel) tree0 = Inr tree"
    "pu_applied_commits res = map ch_commit_id (rs_commits sel)"
    "list_tree_entries (pw_db w') (ch_commit_id (last (rs_commits sel))) = sort_key te_normalized_path (bt_values tree)"
    "get_vault (pw_db w) (pn_vault_id input) \<noteq> None \<Longrightarrow>
      \<exists>v. get_vault (pw_db w') (pn_vault_id input) = Some v \<and>
        sv_local_head_commit_id v = Some (ch_commit_id (last (rs_commits sel)))"
proof -
  from assms(1) obtain w1 tree0 dirty tree applied where
    scan: "refresh_local_scan os env (pn_vault_root input) (pn_now_ms input) w = (Inr (), w1)"
    and t0: "initial_or_rematerialized_tree_entries env input vault commits (pw_db w1) = Inr tree0"
    and fold: "act_fold (pull_commit os env input dirty) (rs_commits sel) (tree0, []) w1 = (Inr (tree, applied), w')"
    and res: "pu_applied_commits res = applied"
    by (auto simp: replay_commits_def act_bind_Inr)
  have same: "list_tree_entries (pw_db w1) = list_tree_entries (pw_db w)" "get_vault (pw_db w1) = get_vault (pw_db w)"
    using rows.keeps_run [OF refresh_same_rows scan] list_tree_entries_cong [of "pw_db w1" "pw_db w"]
      get_vault_cong [of "pw_db w1" "pw_db w"] by (simp_all add: same_rows_def)
  show ?thesis
    using that [of tree0 tree] pull_commits_Inr [OF fold assms(2)] t0 res
    unfolding initial_or_rematerialized_cong [OF same(1)] same(2) by simp
qed

lemma select_last:
  assumes "select_replay_commits vault head commits = Inr sel" "rs_commits sel \<noteq> []"
  shows "ch_commit_id (last (rs_commits sel)) = hd_current_head_commit_id head"
  using assms select_replay_commits_Inr [of vault head commits sel]
  by (cases "local_head_of vault = hd_current_head_commit_id head") (auto simp: select_replay_commits_def)

lemma select_nothing:
  assumes "select_replay_commits vault head commits = Inr sel" "rs_commits sel = []"
  shows "local_head_of vault = hd_current_head_commit_id head"
  using assms select_replay_commits_Inr [of vault head commits sel] by auto

lemma pull_leaves_head:
  assumes "pull_remote_changes os env input w = (Inr res, w')"
    and "ev_get_head env (pn_workspace_id input) = Inr head" "hd_current_head_commit_id head \<noteq> []"
  shows "\<exists>v. get_vault (pw_db w') (pn_vault_id input) = Some v \<and>
    sv_local_head_commit_id v = Some (hd_current_head_commit_id head)"
proof -
  obtain commits sel where sel: "select_replay_commits (pull_vault input head (pw_db w)) head commits = Inr sel"
    and run: "if rs_commits sel = [] then res = nothing_pulled \<and> w' = enrolled input head w
     else replay_commits os env input (pull_vault input head (pw_db w)) commits sel (enrolled input head w) = (Inr res, w')"
    using pull_remote_changes_Inr [OF assms] by metis
  show ?thesis
  proof (cases "rs_commits sel = []")
    case True
    have "local_head_of (pull_vault input head (pw_db w)) = hd_current_head_commit_id head" by (rule select_nothing [OF sel True])
    then have "sv_local_head_commit_id (pull_vault input head (pw_db w)) = Some (hd_current_head_commit_id head)"
      using assms(3) by (auto simp: local_head_of_def split: option.splits)
    then show ?thesis using run True get_enrolled_vault [of input head w] by simp
  next
    case False
    with run have run: "replay_commits os env input (pull_vault input head (pw_db w)) commits sel (enrolled input head w) = (Inr res, w')" by simp
    have "get_vault (pw_db (enrolled input head w)) (pn_vault_id input) \<noteq> None"
      using get_enrolled_vault [of input head w] by auto
    with replay_commits_Inr [OF run False] select_last [OF sel False] show ?thesis by metis
  qed
qed

section \<open>Convergence\<close>

lemma replay_tree_append:
  "replay_tree env input (xs @ ys) tree = res_bind (replay_tree env input xs tree) (replay_tree env input ys)"
  unfolding replay_tree_def by (rule res_fold_append)

lemma rematerialize_replays:
  "rematerialize_tree_entries env input commits target tree = Inr tree' \<Longrightarrow>
     \<exists>k<length commits. ch_commit_id (commits ! k) = target \<and>
       replay_tree env input (take (Suc k) commits) tree = Inr tree'"
proof (induction commits arbitrary: tree)
  case (Cons header headers)
  from Cons.prems obtain commit tree1 where
    d: "decrypt_commit env (pn_workspace_id input) (pn_device_id input) (pn_workspace_key input) header = Inr commit"
    and m: "materialize_remote_tree_only (ev_hash env) (ev_lower env) commit tree = Inr tree1"
    by (auto simp: res_bind_eq_Inr)
  then have one: "replay_commit env input header tree = Inr tree1" by (simp add: replay_commit_def)
  show ?case
  proof (cases "ch_commit_id header = target")
    case True
    then show ?thesis using Cons.prems d m one decrypt_commit_header [OF d]
      by (intro exI [of _ 0]) (simp add: replay_tree_def)
  next
    case False
    with Cons.prems d m decrypt_commit_header [OF d]
    have "rematerialize_tree_entries env input headers target tree1 = Inr tree'" by simp
    from Cons.IH [OF this] obtain k where "k < length headers" "ch_commit_id (headers ! k) = target"
      "replay_tree env input (take (Suc k) headers) tree1 = Inr tree'" by blast
    with one show ?thesis by (intro exI [of _ "Suc k"]) (simp add: replay_tree_def)
  qed
qed simp

lemma replay_checkpoint_forgets:
  "ch_commit_kind header = Kind_Checkpoint \<Longrightarrow> replay_commit env input header tree = replay_commit env input header []"
  using decrypt_commit_header
  by (cases "decrypt_commit env (pn_workspace_id input) (pn_device_id input) (pn_workspace_key input) header")
    (fastforce simp: replay_commit_def materialize_remote_tree_only_def start_tree_def)+

text \<open>A stored tree that agrees with the history: empty, or what the history describes up to the local head.\<close>

definition tree_consistent ::
  "pull_env \<Rightarrow> pull_input \<Rightarrow> sync_commit_header list \<Rightarrow> sync_db \<Rightarrow> sync_vault_record \<Rightarrow> bool" where
  "tree_consistent env input commits db vault \<longleftrightarrow> initial_tree_entries db vault = [] \<or>
     (local_head_of vault \<noteq> [] \<and> (\<exists>k<length commits. ch_commit_id (commits ! k) = local_head_of vault \<and>
        replay_tree env input (take (Suc k) commits) [] = Inr (initial_tree_entries db vault)))"

lemma start_tree_replays:
  assumes "tree_consistent env input commits db vault" "local_head_of vault \<noteq> []"
    and "initial_or_rematerialized_tree_entries env input vault commits db = Inr tree0"
  shows "\<exists>k<length commits. ch_commit_id (commits ! k) = local_head_of vault \<and>
    replay_tree env input (take (Suc k) commits) [] = Inr tree0"
  using assms rematerialize_replays [of env input commits "local_head_of vault" "[]" tree0]
  by (auto simp: tree_consistent_def initial_or_rematerialized_tree_entries_def Let_def split: if_splits)

lemma replay_selected:
  assumes ids: "distinct (map ch_commit_id commits)"
    and cp: "\<forall>c\<in>set commits. ch_commit_id c = hd_latest_checkpoint_commit_id head \<longrightarrow> ch_commit_kind c = Kind_Checkpoint"
    and full: "replay_tree env input commits [] = Inr tree"
    and ok: "tree_consistent env input commits db vault"
    and t0: "initial_or_rematerialized_tree_entries env input vault commits db = Inr tree0"
    and start: "start_index vault head commits = Some k" "k < length commits"
  shows "replay_tree env input (drop k commits) tree0 = Inr tree"
proof (cases "local_head_of vault = []")
  case False
  from start_tree_replays [OF ok False t0] obtain j where
    j: "j < length commits" "ch_commit_id (commits ! j) = local_head_of vault" "replay_tree env input (take (Suc j) commits) [] = Inr tree0"
    by blast
  have "position (\<lambda>c. ch_commit_id c = local_head_of vault) commits = Some j" using split_at_position [OF ids] j by blast
  then have "k = Suc j" using start False by (simp add: start_index_def)
  then show ?thesis using full j(3) replay_tree_append [of env input "take k commits" "drop k commits" "[]"] by simp
next
  case True
  with ok t0 have tree0: "tree0 = []" by (auto simp: tree_consistent_def initial_or_rematerialized_tree_entries_def)
  from full obtain t1 where t1: "replay_tree env input (take k commits) [] = Inr t1" "replay_tree env input (drop k commits) t1 = Inr tree"
    using replay_tree_append [of env input "take k commits" "drop k commits" "[]"]
    by (cases "replay_tree env input (take k commits) []") auto
  show ?thesis
  proof (cases "hd_latest_checkpoint_commit_id head = []")
    case True
    with \<open>local_head_of vault = []\<close> start have "k = 0" by (simp add: start_index_def)
    then show ?thesis using full tree0 by simp
  next
    case False
    with True start split_at_position [OF ids] have "ch_commit_id (commits ! k) = hd_latest_checkpoint_commit_id head"
      by (auto simp: start_index_def)
    with cp start(2) have "ch_commit_kind (commits ! k) = Kind_Checkpoint" by simp
    from replay_checkpoint_forgets [OF this, of env input t1] show ?thesis
      using t1(2) start(2) tree0 by (simp add: replay_tree_def Cons_nth_drop_Suc [symmetric])
  qed
qed


section \<open>Conflict copies\<close>

text \<open>What else is used of the operating system: a file that was written reads back.\<close>

definition os_reads_back :: "'f os_api \<Rightarrow> bool" where
  "os_reads_back os \<longleftrightarrow> (\<forall>fs p bs fs'. os_write os p bs fs = (Inr (), fs') \<longrightarrow> os_read os fs' p = Inr bs)"

lemma relative_components_lexical:
  "relative_components cs (map Normal ws) = Inr p \<Longrightarrow> \<exists>vs. p = map Normal vs \<and> lexical cs ws = Some vs"
proof (induction cs "map Normal ws :: path" arbitrary: ws rule: relative_components.induct)
  case (2 v cs)
  then show ?case using 2(1) [of "ws @ [v]"] by (simp add: path_push_def)
qed auto

lemma validate_relative_path_lexical:
  assumes "validate_relative_path path = Inr (map Normal ws)"
  shows "lexical (path_components path) [] = Some ws"
proof -
  have "relative_components (path_components path) (map Normal []) = Inr (map Normal ws)"
    using assms by (auto simp: validate_relative_path_def res_bind_eq_Inr split: if_splits)
  from relative_components_lexical [OF this] show ?thesis by (auto simp: inj_map_eq_map inj_def)
qed

lemma conflict_name_differs:
  assumes "split_file_at_dot w = (stem, ext)"
  shows "conflict_file_name stem timestamp ext k \<noteq> w"
proof
  assume "conflict_file_name stem timestamp ext k = w"
  then have "length w = length (conflict_file_name stem timestamp ext k)" by simp
  moreover have "length w \<le> length stem + length (extension_part ext)"
    using assms by (auto simp: split_file_at_dot_def extension_part_def Let_def split: if_splits option.splits)
  ultimately show False by (simp add: conflict_file_name_parts)
qed

text \<open>What a conflict copy does: the text is stored under a name that was free, next to the original and
  different from it, the conflict is recorded, and nothing else changes but directories on the way.\<close>

lemma conflict_copy_path:
  assumes "conflict_copy_relative_path original ms exists = Inr (Some c)" "backslash \<notin> set original"
  obtains ws w n where "lexical (path_components original) [] = Some (ws @ [w])"
    "lexical (path_components c) [] = Some (ws @ [n])" "n \<noteq> w" "\<not> exists c"
proof -
  from assms(1) obtain p where p: "validate_relative_path original = Inr p"
    by (auto simp: conflict_copy_relative_path_def res_bind_eq_Inr)
  then obtain ws w stem ext where
    pw: "p = map Normal (ws @ [w])" and good: "\<forall>v\<in>set (ws @ [w]). good_segment v" and
    se: "split_file_at_dot w = (stem, ext)" and
    run: "conflict_copy_relative_path original ms exists =
       Inr (conflict_search exists
         (\<lambda>k. str_replace_char backslash slash
            (str_join [slash] (ws @ [conflict_file_name stem (timestamp_utc ms) ext k]))) i32_suffixes 1)"
    and gf: "\<forall>k. good_segment (conflict_file_name stem (timestamp_utc ms) ext k)"
    by (rule conflict_copy_unfold)
  from run assms(1) have "conflict_search exists
         (\<lambda>k. str_replace_char backslash slash
            (str_join [slash] (ws @ [conflict_file_name stem (timestamp_utc ms) ext k]))) i32_suffixes 1 = Some c" by simp
  from conflict_search_Some [OF this] obtain k where nc: "\<not> exists c" and
    k: "c = str_replace_char backslash slash (str_join [slash] (ws @ [conflict_file_name stem (timestamp_utc ms) ext k]))" by blast
  let ?n = "conflict_file_name stem (timestamp_utc ms) ext k"
  have bs: "backslash \<notin> set v" if "v \<in> set (ws @ [w])" for v
    using validate_relative_path_chars [OF p, of v] that assms(2) pw by auto
  have "backslash \<notin> set ?n"
    using bs [of w] split_file_at_dot_chars [OF se] timestamp_utc_chars [of backslash ms] nat_digits_range [of backslash k]
    by (auto simp: conflict_file_name_parts suffix_part_def)
  then have "path_components c = map Normal ws @ [Normal ?n]"
    unfolding k using good gf bs by (subst conflict_candidate_components) auto
  then have "lexical (path_components c) [] = Some (ws @ [?n])" using lexical_names [of "ws @ [?n]" "[]"] by simp
  with that validate_relative_path_lexical [OF p [unfolded pw]] conflict_name_differs [OF se] nc show ?thesis by blast
qed

lemma apply_remote_write_Inr:
  assumes "apply_remote_write os env root hooks path bs w = (Inr u, w')"
  obtains p where "resolve_vault_path_strict (os_stat os (pw_fs w)) root path = Inr p"
    "pw_fs w' = write_fs os p bs (pw_fs w)" "\<exists>fs fs'. os_write os p bs fs = (Inr (), fs') \<and> pw_fs w' = fs'"
proof -
  from assms obtain p token v where p: "resolve_vault_path_strict (os_stat os (pw_fs w)) root path = Inr p"
    and v: "expect_mutation env (hk_expected_mutations hooks) (record_write path False) w = (Inr token, v)"
    and run: "act_bind (finish_remote_mutation token (write_file os p bs))
        (\<lambda>_. notify_search env hooks (NotifyWritten path REMOTE_APPLY_SOURCE)) v = (Inr u, w')"
    by (auto simp: apply_remote_write_def act_bind_Inr resolve_remote_path_def split: sum.splits)
  from run obtain v1 where v1: "finish_remote_mutation token (write_file os p bs) v = (Inr (), v1)"
    and w': "snd (notify_search env hooks (NotifyWritten path REMOTE_APPLY_SOURCE) v1) = w'"
    by (auto simp: act_bind_Inr)
  then have fs: "pw_fs w' = pw_fs v1" using pw_fs_notify by metis
  from v1 have "write_file os p bs v = (Inr (), v1)"
    by (auto simp: finish_remote_mutation_def split: sum.splits prod.splits)
  then have "\<exists>fs fs'. os_write os p bs fs = (Inr (), fs') \<and> pw_fs v1 = fs'"
    by (auto simp: write_file_def act_bind_Inr act_fs_def split: sum.splits prod.splits)
  with that [OF p] fs show ?thesis
    using apply_remote_write_fs [of os env root hooks path bs w] p assms by simp
qed

lemma write_conflict_copy_Inr:
  assumes os: "os_confined os" "os_reads_back os" and root: "proper_root (pn_vault_root input)"
    and free: "link_free os (pw_fs w) (pn_vault_root input)" and bs: "backslash \<notin> set path"
    and run: "write_conflict_copy os env input path text base header w = (Inr c, w')"
  obtains ws v n where "lexical (path_components path) [] = Some (ws @ [v])" "n \<noteq> v"
    "resolve_vault_path (pn_vault_root input) c = Inr (pn_vault_root input @ map Normal (ws @ [n]))"
    "os_read os (pw_fs w') (pn_vault_root input @ map Normal (ws @ [n])) = Inr text"
    "changes_only os (\<lambda>q. prefix q (pn_vault_root input @ map Normal (ws @ [n]))) (pw_fs w) (pw_fs w')"
    "\<not> os_exists os (pw_fs w) (path_join (pn_vault_root input) c)"
    "\<exists>x\<in>set (db_conflicts (pw_db w')). sx_path x = path \<and> sx_conflict_path x = c \<and> sx_status x = lit ''open''"
proof -
  from run obtain w1 x where
    found: "conflict_copy_relative_path path (pn_now_ms input)
        (\<lambda>candidate. os_exists os (pw_fs w) (path_join (pn_vault_root input) candidate)) = Inr (Some c)"
    and wr: "apply_remote_write os env (pn_vault_root input) (pn_hooks input) c text w = (Inr (), w1)"
    and fs: "pw_fs w' = pw_fs w1"
    and x: "db_conflicts (pw_db w') = tbl_upsert sx_conflict_id conflict_do_update x (db_conflicts (pw_db w1))"
      "sx_path x = path" "sx_conflict_path x = c" "sx_status x = lit ''open''"
    by (auto simp: write_conflict_copy_def act_bind_Inr act_db_Inr upsert_conflict_def split: option.splits)
  obtain y where y: "tbl_get sx_conflict_id (sx_conflict_id x) (db_conflicts (pw_db w')) = Some y"
    "y = x \<or> (\<exists>old. y = conflict_do_update x old)"
    using conflicts.upsert_get_same [of x "db_conflicts (pw_db w1)"] unfolding x(1)
    by (cases "tbl_get sx_conflict_id (sx_conflict_id x) (db_conflicts (pw_db w1))") auto
  then have row: "\<exists>x\<in>set (db_conflicts (pw_db w')). sx_path x = path \<and> sx_conflict_path x = c \<and> sx_status x = lit ''open''"
    using x(2-4) tbl_get_Some_key [OF y(1)] by (intro bexI [of _ y]) (auto simp: conflict_do_update_def)
  from conflict_copy_path [OF found bs] obtain ws v n where
    names: "lexical (path_components path) [] = Some (ws @ [v])" "lexical (path_components c) [] = Some (ws @ [n])" "n \<noteq> v"
      "\<not> os_exists os (pw_fs w) (path_join (pn_vault_root input) c)" by blast
  from wr obtain p where p: "resolve_vault_path_strict (os_stat os (pw_fs w)) (pn_vault_root input) c = Inr p"
    "pw_fs w1 = write_fs os p text (pw_fs w)" "\<exists>fs fs'. os_write os p text fs = (Inr (), fs') \<and> pw_fs w1 = fs'"
    by (rule apply_remote_write_Inr)
  have pe: "p = pn_vault_root input @ map Normal (ws @ [n])"
    using p(1) names(2) unfolding resolve_strict_ok [OF root] by auto
  have lf: "link_free os (pw_fs w) p" using resolved_link_free [OF root free p(1)] by blast
  have "resolve_vault_path (pn_vault_root input) c = Inr p"
    unfolding resolve_vault_path_lexical [OF root] using names(2) pe by blast
  moreover have "os_read os (pw_fs w') p = Inr text" using os(2) p(3) fs by (auto simp: os_reads_back_def)
  moreover have "changes_only os (\<lambda>q. prefix q p) (pw_fs w) (pw_fs w')"
    using write_fs_changes_only [OF os(1) lf] p(2) fs by simp
  ultimately show ?thesis using that [OF names(1,3)] names(4) row unfolding pe by blast
qed

text \<open>The list of edited files is read once, before the first commit is applied. When one pull deletes an
  edited file and a later commit of the same pull writes it again, the file is still listed as edited
  although its text has moved to the conflict copy; the merge cannot read it and the pull stops.\<close>

lemma edited_file_gone_stops_pull:
  assumes "\<not> sf_deleted dirty"
    and "resolve_vault_path_strict (os_stat os (pw_fs w)) (pn_vault_root input) (sf_path dirty) = Inr p"
    and "os_read os (pw_fs w) p = Inl e"
  shows "\<exists>m. merge_remote_upsert os env input header base dirty path bs w = (Inl (Storage m), w)"
  using assms by (simp add: merge_remote_upsert_def act_bind_def read_local_file_def resolve_remote_path_def)

section \<open>Claims\<close>

text \<open>
  C3. A pull cannot touch anything outside the vault: whatever the server, other devices and the keys
  are, and whether the pull succeeds or fails, every path that is neither below the vault root nor one
  of its ancestors reads as before (on a vault root that is reached without symlinks).
\<close>
theorem pull_stays_in_vault:
  assumes "os_confined os" "proper_root (pn_vault_root input)" "link_free os (pw_fs w) (pn_vault_root input)"
    and "pull_remote_changes os env input w = (r, w')" "outside (pn_vault_root input) q"
  shows "os_view os (pw_fs w') q = os_view os (pw_fs w) q"
  using vault.keeps_run [OF vault.keeps_pull assms(4)] assms(1-3,5) by (simp add: keeps_outside_def)

text \<open>
  A successful pull brings the device to the remote head: the row of the vault then names the
  remote head as its local head.
\<close>
theorem pull_reaches_head:
  assumes "pull_remote_changes os env input w = (Inr res, w')"
    and "ev_get_head env (pn_workspace_id input) = Inr head" "hd_current_head_commit_id head \<noteq> []"
  shows "\<exists>v. get_vault (pw_db w') (pn_vault_id input) = Some v \<and>
    sv_local_head_commit_id v = Some (hd_current_head_commit_id head)"
  by (rule pull_leaves_head [OF assms])

text \<open>
  C5. Pulling again right after a successful pull does nothing: it succeeds, reports no commits, and
  changes neither the files nor the stored trees.
\<close>
theorem pull_again_is_noop:
  assumes "pull_remote_changes os env input w = (Inr res, w')"
    and "ev_get_head env (pn_workspace_id input) = Inr head" "hd_current_head_commit_id head \<noteq> []"
  shows "\<exists>w''. pull_remote_changes os env input w' = (Inr nothing_pulled, w'') \<and> pw_fs w'' = pw_fs w' \<and>
    list_tree_entries (pw_db w'') = list_tree_entries (pw_db w')"
proof -
  obtain commits where commits: "list_all_commits (ev_list_commits env) (pn_workspace_id input) = Inr commits"
    by (rule pull_remote_changes_Inr [OF assms])
  have ok: "validate_pull_input input = Inr ()" using assms(1) by (auto simp: pull_remote_changes_def act_bind_Inr)
  from pull_leaves_head [OF assms] have "local_head_of (pull_vault input head (pw_db w')) = hd_current_head_commit_id head"
    by (auto simp: local_head_of_def pull_vault_local_head)
  then have sel: "select_replay_commits (pull_vault input head (pw_db w')) head commits =
      Inr \<lparr>rs_commits = [], rs_bootstrapped_from_checkpoint = False\<rparr>" by (simp add: select_replay_commits_def)
  have "pull_remote_changes os env input w' = (Inr nothing_pulled, enrolled input head w')"
    by (simp add: pull_remote_changes_def ok assms(2,3) act_bind_run(1) [where m = "ensure_pull_vault_record input head",
        OF ensure_pull_vault_record_run] commits sel)
  moreover have "pw_fs (enrolled input head w') = pw_fs w'" by (simp add: enrolled_def)
  ultimately show ?thesis using enrolled_tree_entries by blast
qed

text \<open>
  C1. Devices converge: on a history that replays, a pull that applies commits stores, as the tree of
  the new head, exactly the tree that the whole history describes from its beginning. This holds for
  a device that continues from a stored tree, for one that lost its stored tree, and for one that starts
  at the latest checkpoint, and it is what the next pull starts from.
\<close>
theorem pull_converges:
  assumes "pull_remote_changes os env input w = (Inr res, w')" "pu_applied_commits res \<noteq> []"
    and "ev_get_head env (pn_workspace_id input) = Inr head" "hd_current_head_commit_id head \<noteq> []"
    and "list_all_commits (ev_list_commits env) (pn_workspace_id input) = Inr commits"
    and "distinct (map ch_commit_id commits)"
    and "\<forall>c\<in>set commits. ch_commit_id c = hd_latest_checkpoint_commit_id head \<longrightarrow> ch_commit_kind c = Kind_Checkpoint"
    and "tree_consistent env input commits (pw_db w) (pull_vault input head (pw_db w))"
    and "replay_tree env input commits [] = Inr tree"
  shows "list_tree_entries (pw_db w') (hd_current_head_commit_id head) = sort_key te_normalized_path (bt_values tree) \<and>
    initial_tree_entries (pw_db w') (pull_vault input head (pw_db w')) = tree"
proof -
  let ?vault = "pull_vault input head (pw_db w)"
  obtain sel where sel: "select_replay_commits ?vault head commits = Inr sel"
    and run: "if rs_commits sel = [] then res = nothing_pulled \<and> w' = enrolled input head w
     else replay_commits os env input ?vault commits sel (enrolled input head w) = (Inr res, w')"
    using pull_remote_changes_Inr [OF assms(1,3,4)] assms(5) by (metis sum.inject(2))
  have ne: "rs_commits sel \<noteq> []" using run assms(2) by (auto simp: nothing_pulled_def split: if_splits)
  with run have run: "replay_commits os env input ?vault commits sel (enrolled input head w) = (Inr res, w')" by simp
  have "local_head_of ?vault \<noteq> hd_current_head_commit_id head"
    using sel ne by (auto simp: select_replay_commits_def)
  then obtain k where k: "start_index ?vault head commits = Some k" "rs_commits sel = drop k commits" "k < length commits"
    using sel ne unfolding select_replay_commits_Inr [OF \<open>local_head_of ?vault \<noteq> _\<close>] by (auto simp: not_le)
  obtain tree0 tree1 where
    t0: "initial_or_rematerialized_tree_entries env input ?vault commits (pw_db (enrolled input head w)) = Inr tree0"
    and t1: "replay_tree env input (rs_commits sel) tree0 = Inr tree1"
    and stored: "list_tree_entries (pw_db w') (ch_commit_id (last (rs_commits sel))) = sort_key te_normalized_path (bt_values tree1)"
    by (rule replay_commits_Inr [OF run ne])
  have "replay_tree env input (drop k commits) tree0 = Inr tree"
    using replay_selected [OF assms(6,7,9,8) _ k(1,3)] t0
    unfolding initial_or_rematerialized_cong [OF enrolled_tree_entries] by blast
  with t1 k(2) have "tree1 = tree" by simp
  then have tree: "list_tree_entries (pw_db w') (hd_current_head_commit_id head) = sort_key te_normalized_path (bt_values tree)"
    using stored select_last [OF sel ne] by simp
  moreover have "tree_ok tree" using replay_tree_ok [OF assms(9)] by simp
  moreover have "sv_local_head_commit_id (pull_vault input head (pw_db w')) = Some (hd_current_head_commit_id head)"
    using pull_leaves_head [OF assms(1,3,4)] by (auto simp: pull_vault_local_head)
  ultimately show ?thesis by (simp add: initial_tree_entries_def collect_tree)
qed

text \<open>
  C4. A remote delete does not lose local edits: when the deleted file was edited on this device, its
  text is found afterwards in a conflict copy, under a name that was free and in the same directory,
  and the conflict is listed as open.
\<close>
theorem remote_delete_keeps_local_edits:
  assumes "os_confined os" "os_reads_back os" "proper_root (pn_vault_root input)"
    and "link_free os (pw_fs w) (pn_vault_root input)" "backslash \<notin> set path" "\<not> sf_deleted dirty"
    and "resolve_vault_path_strict (os_stat os (pw_fs w)) (pn_vault_root input) (sf_path dirty) = Inr p"
    and "os_read os (pw_fs w) p = Inr text"
    and "merge_remote_delete os env input header (Some dirty) path w = (Inr action, w')"
  shows "\<exists>c q. resolve_vault_path (pn_vault_root input) c = Inr q \<and>
    \<not> os_exists os (pw_fs w) (path_join (pn_vault_root input) c) \<and> os_read os (pw_fs w') q = Inr text \<and>
    (\<exists>x\<in>set (db_conflicts (pw_db w')). sx_path x = path \<and> sx_conflict_path x = c \<and> sx_status x = lit ''open'')"
proof -
  from assms(6-9) obtain c w1 where
    copy: "write_conflict_copy os env input path text None header w = (Inr c, w1)"
    and del: "apply_remote_delete os env (pn_vault_root input) (pn_hooks input) path w1 = (Inr (), w')"
    by (auto simp: merge_remote_delete_def act_bind_Inr read_local_file_def resolve_remote_path_def)
  obtain ws v n where names: "lexical (path_components path) [] = Some (ws @ [v])" "n \<noteq> v"
    "resolve_vault_path (pn_vault_root input) c = Inr (pn_vault_root input @ map Normal (ws @ [n]))"
    and stored: "os_read os (pw_fs w1) (pn_vault_root input @ map Normal (ws @ [n])) = Inr text"
    and only: "changes_only os (\<lambda>q. prefix q (pn_vault_root input @ map Normal (ws @ [n]))) (pw_fs w) (pw_fs w1)"
    and fresh: "\<not> os_exists os (pw_fs w) (path_join (pn_vault_root input) c)"
    and row: "\<exists>x\<in>set (db_conflicts (pw_db w1)). sx_path x = path \<and> sx_conflict_path x = c \<and> sx_status x = lit ''open''"
    by (rule write_conflict_copy_Inr [OF assms(1-5) copy])
  have free: "link_free os (pw_fs w1) (pn_vault_root input)" by (rule changes_only_link_free [OF only assms(4)])
  from del obtain d where d: "resolve_vault_path_strict (os_stat os (pw_fs w1)) (pn_vault_root input) path = Inr d"
    by (auto simp: apply_remote_delete_def act_bind_Inr resolve_remote_path_def split: sum.splits)
  then have "d = pn_vault_root input @ map Normal (ws @ [v])"
    using names(1) unfolding resolve_strict_ok [OF assms(3)] by auto
  then have differ: "pn_vault_root input @ map Normal (ws @ [n]) \<noteq> d" using names(2) by simp
  have "pw_fs w' = snd (os_remove os d (pw_fs w1))"
    using apply_remote_delete_fs [of os env "pn_vault_root input" "pn_hooks input" path w1] del d by simp
  then have "changes_only os (\<lambda>q. q = d) (pw_fs w1) (pw_fs w')"
    using os_confinedD(2) [OF assms(1)] resolved_link_free [OF assms(3) free d] by simp
  then have "os_read os (pw_fs w') (pn_vault_root input @ map Normal (ws @ [n])) = Inr text"
    using stored differ by (simp add: changes_only_def os_view_def)
  moreover have "pw_db w' = pw_db w1" using db.keeps_run [OF apply_remote_delete_db del] .
  ultimately show ?thesis using names(3) fresh row by auto
qed

section \<open>A small system\<close>

text \<open>A file system without directories and links, and a workspace with one checkpoint that holds no files.\<close>

definition flat_node :: "path \<Rightarrow> path \<times> bytes \<Rightarrow> (rstr \<times> fs_node) option" where
  "flat_node root f =
     (case path_strip_prefix (fst f) root of
        Some [Normal w] \<Rightarrow> Some (w, FsFile \<lparr>fd_modified = Inr 0, fd_metadata_error = None, fd_content = Inr (snd f)\<rparr>)
      | _ \<Rightarrow> None)"

definition flat_os :: "(path \<times> bytes) list os_api" where
  "flat_os = \<lparr>os_stat = (\<lambda>fs q. map_option (\<lambda>_. False) (map_of fs q)),
     os_exists = (\<lambda>fs q. map_of fs q \<noteq> None),
     os_read = (\<lambda>fs q. ok_or (map_of fs q) (lit ''not found'')),
     os_root = (\<lambda>fs root. Inr (FsDir (List.map_filter (flat_node root) fs) None)),
     os_create_dir_all = (\<lambda>p fs. (Inr (), fs)),
     os_write = (\<lambda>p bs fs. (Inr (), (p, bs) # filter (\<lambda>f. fst f \<noteq> p) fs)),
     os_remove = (\<lambda>p fs. if map_of fs p = None then (Inl NotFound, fs) else (Inr (), filter (\<lambda>f. fst f \<noteq> p) fs))\<rparr>"

lemma map_of_filter_other: "map_of (filter (\<lambda>f. fst f \<noteq> p) fs) q = (if q = p then None else map_of fs q)"
  by (induction fs) auto

lemma flat_os_ok: "os_confined flat_os" "os_reads_back flat_os" "link_free flat_os fs p"
  by (auto simp: os_confined_def os_reads_back_def link_free_def changes_only_def os_view_def flat_os_def map_of_filter_other)

definition example_root :: path where
  "example_root = [RootDir, Normal (lit ''v'')]"

definition example_input :: pull_input where
  "example_input = \<lparr>pn_vault_id = lit ''v'', pn_vault_root = example_root, pn_workspace_id = lit ''w'',
     pn_device_id = lit ''d'', pn_workspace_key = [], pn_hooks = \<lparr>hk_expected_mutations = True, hk_search = False\<rparr>,
     pn_now_ms = 1000\<rparr>"

definition example_blob :: bytes where
  "example_blob = blob_frame (replicate 24 0) (cp_sha256 example_prims []) []"

definition example_checkpoint :: sync_commit_header where
  "example_checkpoint = (example_header (lit ''c1'') 1)
     \<lparr>ch_commit_kind := Kind_Checkpoint, ch_body_object_id := lit ''b1'', ch_body_size_bytes := int (length example_blob)\<rparr>"

definition example_body :: commit_body where
  "example_body = \<lparr>bd_format = lit ''kuku.sync.commit-body'', bd_version = 1, bd_commit_id = lit ''c1'',
     bd_commit_kind = lit ''checkpoint'', bd_parent_commit_ids = [], bd_tree_id = lit ''tree_h'', bd_changes = [], bd_packs = []\<rparr>"

definition example_head :: sync_head where
  "example_head = \<lparr>hd_current_head_commit_id = lit ''c1'', hd_head_version = 1, hd_latest_checkpoint_commit_id = lit ''c1''\<rparr>"

definition example_pull_env :: pull_env where
  "example_pull_env = \<lparr>ev_hash = (\<lambda>_. lit ''h''), ev_lower = to_ascii_lowercase, ev_pack = example_env,
     ev_prims = example_prims, ev_pack_json = (\<lambda>_. Inr []), ev_body_json = (\<lambda>_. Inr []),
     ev_body_parse = (\<lambda>_. Inr example_body), ev_tree_vec = (\<lambda>_. Inr []), ev_tree_string = (\<lambda>_. Inr []),
     ev_parents_json = (\<lambda>_. Inr []), ev_get_head = (\<lambda>_. Inr example_head),
     ev_list_commits = (\<lambda>_ _ _. Inr \<lparr>lc_commits = [example_checkpoint], lc_has_more = False, lc_next_after_server_seq = 1\<rparr>),
     ev_download_objects = (\<lambda>_ _ ids. Inr (if ids = [] then [] else
       [\<lparr>dl_object_id = lit ''b1'', dl_kind = Object_CommitBody, dl_ciphertext_sha256 = [], dl_ciphertext = example_blob\<rparr>])),
     ev_instant = int, ev_search = (\<lambda>_. Inr ())\<rparr>"

definition example_world :: "(path \<times> bytes) list \<Rightarrow> (path \<times> bytes) list pull_world" where
  "example_world fs = \<lparr>pw_fs = fs, pw_db = init_schema None, pw_ledger = \<lparr>ml_entries = [], ml_next_id = 0\<rparr>, pw_ticks = 0, pw_notified = []\<rparr>"

lemma example_root_ok: "proper_root (pn_vault_root example_input)"
  by (simp add: proper_root_def example_input_def example_root_def)

lemma example_decrypts:
  "decrypt_commit example_pull_env (pn_workspace_id example_input) (pn_device_id example_input)
     (pn_workspace_key example_input) example_checkpoint =
   Inr \<lparr>dc_header = example_checkpoint, dc_body = example_body, dc_packs = []\<rparr>"
proof -
  have "encrypt_blob_with_nonce example_prims (\<lambda>_ :: commit_body_aad. Inr []) key aad [] (replicate 24 0) = Inr example_blob" for key aad
    by (simp add: encrypt_blob_with_nonce_def canonical_json_def example_prims_def example_blob_def)
  then have d: "decrypt_blob example_prims (\<lambda>_. Inr []) key (aad :: commit_body_aad) example_blob = Inr []" for key aad
    by (intro decrypt_blob_encrypt [where prims = example_prims and nonce = "replicate 24 0", OF example_prims_ok]) simp_all
  have size: "i64_saturating_len (length example_blob) = int (length example_blob)"
    by (simp add: example_blob_def blob_frame_def BLOB_MAGIC_def example_prims_def i64_saturating_len_def i64_max_def)
  show ?thesis
    by (simp add: decrypt_commit_def download_one_def validate_downloaded_commit_body_def encrypted_blob_metadata_def size
        decrypt_commit_body_def d json_result_def validate_commit_body_def validate_packs_def download_many_def
        example_pull_env_def example_checkpoint_def example_header_def example_body_def Let_def)
qed

lemma example_commits: "list_all_commits (ev_list_commits example_pull_env) ws = Inr [example_checkpoint]"
  by (simp add: list_all_commits_def list_commits_loop.simps example_pull_env_def)

definition example_etc :: path where
  "example_etc = [RootDir, Normal (lit ''etc'')]"

lemma example_env_fields [simp]:
  "ev_hash example_pull_env = (\<lambda>_. lit ''h'')" "ev_tree_vec example_pull_env = (\<lambda>_. Inr [])"
  "ev_tree_string example_pull_env = (\<lambda>_. Inr [])" "ev_parents_json example_pull_env = (\<lambda>_. Inr [])"
  "ev_get_head example_pull_env = (\<lambda>_. Inr example_head)"
  by (simp_all add: example_pull_env_def)

lemma example_scan:
  "pw_fs w = [(example_etc, [66])] \<Longrightarrow> db_files (pw_db w) = [] \<Longrightarrow>
     refresh_local_scan flat_os example_pull_env (pn_vault_root example_input) now w = (Inr (), w)"
  by (simp add: refresh_local_scan_def act_bind_def act_db_def scan_vault_def flat_os_def flat_node_def
      example_input_def example_root_def example_etc_def path_strip_prefix_def List.map_filter_simps
      validate_unique_normalized_paths_def apply_scan_def list_files_def)

lemma example_replays: "replay_tree example_pull_env example_input [example_checkpoint] [] = Inr []"
  by (simp add: replay_tree_def replay_commit_def example_decrypts materialize_remote_tree_only_def start_tree_def
      example_body_def)

lemma example_persist:
  assumes "pw_fs w = [(example_etc, [66])]" "db_files (pw_db w) = []"
  shows "\<exists>w'. persist_applied_commit flat_os example_pull_env example_input
    \<lparr>dc_header = example_checkpoint, dc_body = example_body, dc_packs = []\<rparr> [] [] w = (Inr (), w')"
  using assms
  by (simp add: persist_applied_commit_def act_bind_def act_db_def validate_tree_id_def tree_id_for_entries_def
      tree_json_for_entries_def json_result_def persist_tree_cache_def bt_values_def example_scan example_body_def Let_def)

lemma example_pull:
  "\<exists>res w'. pull_remote_changes flat_os example_pull_env example_input (example_world [(example_etc, [66])]) = (Inr res, w') \<and>
     pu_applied_commits res = [lit ''c1'']"
proof -
  let ?w = "example_world [(example_etc, [66])]"
  have none: "get_vault (pw_db ?w) (pn_vault_id example_input) = None"
    by (simp add: example_world_def get_vault_def init_schema_def create_schema_def metadata_value_def tbl_get_def
        ensure_tree_entry_content_commit_id_column_def persist_schema_version_def)
  let ?vault = "pull_vault example_input example_head (pw_db ?w)"
  have head: "sv_local_head_commit_id ?vault = None" by (simp add: pull_vault_local_head none)
  have ok: "validate_pull_input example_input = Inr ()"
    by (simp add: validate_pull_input_def validate_required_def example_input_def std_simps)
  have sel: "select_replay_commits ?vault example_head [example_checkpoint] =
      Inr \<lparr>rs_commits = [example_checkpoint], rs_bootstrapped_from_checkpoint = True\<rparr>"
    using head by (simp add: select_replay_commits_def local_head_of_def example_head_def example_checkpoint_def example_header_def)
  let ?e = "enrolled example_input example_head ?w"
  have fs: "pw_fs ?e = [(example_etc, [66])]" "db_files (pw_db ?e) = []"
    by (simp_all add: enrolled_def upsert_vault_def example_world_def)
  from example_persist [OF fs] obtain w' where w': "persist_applied_commit flat_os example_pull_env example_input
    \<lparr>dc_header = example_checkpoint, dc_body = example_body, dc_packs = []\<rparr> [] [] ?e = (Inr (), w')" by blast
  have fields: "bd_changes example_body = []" "ch_commit_id example_checkpoint = lit ''c1''"
    by (simp_all add: example_body_def example_checkpoint_def example_header_def)
  have one: "pull_commit flat_os example_pull_env example_input dirty example_checkpoint ([], []) ?e = (Inr ([], [lit ''c1'']), w')" for dirty
    by (simp add: pull_commit_def example_decrypts apply_decrypted_commit_def start_tree_def act_bind_def w' fields)
  show ?thesis
    by (simp add: pull_remote_changes_def ok ensure_pull_vault_record_run act_bind_def example_commits sel replay_commits_def
        example_scan [OF fs] initial_or_rematerialized_tree_entries_def initial_tree_entries_def head local_head_of_def one)
      (simp add: example_head_def)
qed

lemma example_outside: "outside (pn_vault_root example_input) example_etc"
  by (simp add: outside_def example_input_def example_root_def example_etc_def)

theorem pull_stays_in_vault_witness:
  "os_view flat_os (pw_fs (snd (pull_remote_changes flat_os example_pull_env example_input
     (example_world [(example_etc, [66])])))) example_etc = (Some False, True, Inr [66])"
  using pull_stays_in_vault [OF flat_os_ok(1) example_root_ok flat_os_ok(3) prod.collapse [symmetric] example_outside,
      where env = example_pull_env and w = "example_world [(example_etc, [66])]"]
  by (simp add: os_view_def flat_os_def example_world_def)

theorem pull_reaches_head_witness:
  "\<exists>res w' v. pull_remote_changes flat_os example_pull_env example_input (example_world [(example_etc, [66])]) = (Inr res, w') \<and>
     get_vault (pw_db w') (lit ''v'') = Some v \<and> sv_local_head_commit_id v = Some (lit ''c1'')"
proof -
  obtain res w' where run: "pull_remote_changes flat_os example_pull_env example_input (example_world [(example_etc, [66])]) = (Inr res, w')"
    using example_pull by blast
  from pull_reaches_head [OF run, of example_head] run show ?thesis by (auto simp: example_head_def example_input_def)
qed

theorem pull_again_is_noop_witness:
  "\<exists>w''. pull_remote_changes flat_os example_pull_env example_input
     (snd (pull_remote_changes flat_os example_pull_env example_input (example_world [(example_etc, [66])]))) =
       (Inr nothing_pulled, w'')"
proof -
  obtain res w' where run: "pull_remote_changes flat_os example_pull_env example_input (example_world [(example_etc, [66])]) = (Inr res, w')"
    using example_pull by blast
  from pull_again_is_noop [OF run, of example_head] run show ?thesis by (auto simp: example_head_def)
qed

theorem pull_converges_witness:
  "\<exists>res w'. pull_remote_changes flat_os example_pull_env example_input (example_world [(example_etc, [66])]) = (Inr res, w') \<and>
     initial_tree_entries (pw_db w') (pull_vault example_input example_head (pw_db w')) = []"
proof -
  let ?w = "example_world [(example_etc, [66])]"
  obtain res w' where run: "pull_remote_changes flat_os example_pull_env example_input ?w = (Inr res, w')"
    "pu_applied_commits res = [lit ''c1'']" using example_pull by blast
  have "get_vault (pw_db ?w) (pn_vault_id example_input) = None"
    by (simp add: example_world_def get_vault_def init_schema_def create_schema_def metadata_value_def tbl_get_def
        ensure_tree_entry_content_commit_id_column_def persist_schema_version_def)
  then have "tree_consistent example_pull_env example_input [example_checkpoint] (pw_db ?w) (pull_vault example_input example_head (pw_db ?w))"
    by (simp add: tree_consistent_def initial_tree_entries_def pull_vault_local_head)
  with pull_converges [OF run(1) _ _ _ example_commits _ _ _ example_replays, of example_head] run
  show ?thesis by (auto simp: example_head_def example_checkpoint_def example_header_def)
qed

definition example_dirty :: sync_file_record where
  "example_dirty = \<lparr>sf_file_id = lit ''file_h'', sf_path = lit ''a.md'', sf_normalized_path = lit ''a.md'',
     sf_kind = lit ''markdown'', sf_plaintext_hash = None, sf_size_bytes = None, sf_mtime_ms = None,
     sf_last_synced_commit_id = None, sf_dirty = True, sf_deleted = False\<rparr>"

definition example_edited :: "(path \<times> bytes) list pull_world" where
  "example_edited = example_world [(example_root @ [Normal (lit ''a.md'')], [65])]"

lemma flat_resolves:
  "proper_root root \<Longrightarrow> lexical (path_components path) [] = Some ws \<Longrightarrow>
     resolve_vault_path_strict (os_stat flat_os fs) root path = Inr (root @ map Normal ws)"
  by (auto simp: resolve_strict_ok flat_os_def)

lemma flat_write_runs:
  assumes "proper_root root" "lexical (path_components path) [] = Some ws" "\<not> hk_search hooks"
  shows "\<exists>w'. apply_remote_write flat_os env root hooks path bs w = (Inr (), w')"
  using flat_resolves [OF assms(1,2)] assms(3)
  by (auto simp: apply_remote_write_def act_bind_def resolve_remote_path_def expect_mutation_def finish_remote_mutation_def
      write_file_def act_fs_def notify_search_def flat_os_def split: prod.split)

lemma flat_delete_runs:
  assumes "proper_root root" "lexical (path_components path) [] = Some ws" "\<not> hk_search hooks"
  shows "\<exists>w'. apply_remote_delete flat_os env root hooks path w = (Inr (), w')"
  using flat_resolves [OF assms(1,2)] assms(3)
  by (auto simp: apply_remote_delete_def act_bind_def resolve_remote_path_def expect_mutation_def finish_remote_mutation_def
      remove_file_def act_fs_def notify_search_def flat_os_def split: prod.split)

lemma example_conflict_name:
  "\<exists>c. conflict_copy_relative_path (lit ''a.md'') 1000
     (\<lambda>q. os_exists flat_os (pw_fs example_edited) (path_join example_root q)) = Inr (Some c)"
proof -
  let ?exists = "\<lambda>q. os_exists flat_os (pw_fs example_edited) (path_join example_root q)"
  have "validate_relative_path (lit ''a.md'') = Inr [Normal (lit ''a.md'')]"
    by (simp add: validate_relative_path_def std_simps)
  then obtain ws w stem ext where
    pw: "[Normal (lit ''a.md'')] = map Normal (ws @ [w])" and se: "split_file_at_dot w = (stem, ext)" and
    run: "conflict_copy_relative_path (lit ''a.md'') 1000 ?exists =
       Inr (conflict_search ?exists
         (\<lambda>k. str_replace_char backslash slash
            (str_join [slash] (ws @ [conflict_file_name stem (timestamp_utc 1000) ext k]))) i32_suffixes 1)"
    and gf: "\<forall>k. good_segment (conflict_file_name stem (timestamp_utc 1000) ext k)"
    by (rule conflict_copy_unfold)
  let ?n = "conflict_file_name stem (timestamp_utc 1000) ext 1"
  have w: "ws = []" "w = lit ''a.md''" using pw by (simp_all add: Cons_eq_append_conv append_eq_Cons_conv map_eq_Cons_conv)
  have "backslash \<notin> set ?n"
    using w(2) split_file_at_dot_chars [OF se] timestamp_utc_chars [of backslash 1000]
    by (auto simp: conflict_file_name_parts suffix_part_def)
  then have "path_components (str_replace_char backslash slash (str_join [slash] (ws @ [?n]))) = [Normal ?n]"
    using gf w by (subst conflict_candidate_components) auto
  then have "\<not> ?exists (str_replace_char backslash slash (str_join [slash] (ws @ [?n])))"
    using conflict_name_differs [OF se, of "timestamp_utc 1000" 1] w(2)
    by (simp add: path_join_def Let_def flat_os_def example_edited_def example_world_def)
  then show ?thesis unfolding run by (simp add: conflict_search_eval(2) i32_suffixes_def)
qed

lemma example_delete_runs:
  "\<exists>w'. merge_remote_delete flat_os example_pull_env example_input example_checkpoint (Some example_dirty) (lit ''a.md'')
     example_edited = (Inr AppliedRemote, w')"
proof -
  obtain c where c: "conflict_copy_relative_path (lit ''a.md'') 1000
     (\<lambda>q. os_exists flat_os (pw_fs example_edited) (path_join example_root q)) = Inr (Some c)"
    using example_conflict_name by blast
  have hooks: "\<not> hk_search (pn_hooks example_input)" and root: "proper_root example_root"
    and input: "pn_vault_root example_input = example_root" "pn_now_ms example_input = 1000"
    using example_root_ok by (simp_all add: example_input_def)
  have bs: "backslash \<notin> set (lit ''a.md'')" by simp
  obtain ws where ws: "lexical (path_components c) [] = Some ws" using conflict_copy_path [OF c bs] by blast
  have a: "lexical (path_components (lit ''a.md'')) [] = Some [lit ''a.md'']" by (simp add: std_simps)
  have read: "read_local_file flat_os example_root (lit ''a.md'') example_edited = (Inr [65], example_edited)"
  proof -
    have "os_read flat_os (pw_fs example_edited) (example_root @ map Normal [lit ''a.md'']) = Inr [65]"
      by (simp add: flat_os_def example_edited_def example_world_def)
    then show ?thesis
      by (simp only: read_local_file_def act_bind_def resolve_remote_path_def flat_resolves [OF root a] sum.case prod.case)
  qed
  obtain w1 where w1: "apply_remote_write flat_os example_pull_env example_root (pn_hooks example_input) c [65] example_edited = (Inr (), w1)"
    using flat_write_runs [OF root ws hooks] by blast
  have "\<exists>w2. write_conflict_copy flat_os example_pull_env example_input (lit ''a.md'') [65] None example_checkpoint example_edited = (Inr c, w2)"
    by (simp only: write_conflict_copy_def input) (simp only: act_bind_def c w1 act_basic_simps act_db_def prod.case sum.case option.case, simp)
  then obtain w2 where w2: "write_conflict_copy flat_os example_pull_env example_input (lit ''a.md'') [65] None example_checkpoint
      example_edited = (Inr c, w2)" by blast
  obtain w3 where w3: "apply_remote_delete flat_os example_pull_env example_root (pn_hooks example_input) (lit ''a.md'') w2 = (Inr (), w3)"
    using flat_delete_runs [OF root a hooks] by blast
  have dirty: "\<not> sf_deleted example_dirty" "sf_path example_dirty = lit ''a.md''" by (simp_all add: example_dirty_def)
  show ?thesis
    by (simp only: merge_remote_delete_def input dirty option.case if_False not_False_eq_True act_bind_def read w2 w3
        act_basic_simps prod.case sum.case) simp
qed

theorem remote_delete_keeps_local_edits_witness:
  "\<exists>w' c q. merge_remote_delete flat_os example_pull_env example_input example_checkpoint (Some example_dirty) (lit ''a.md'') example_edited =
     (Inr AppliedRemote, w') \<and> resolve_vault_path example_root c = Inr q \<and> os_read flat_os (pw_fs w') q = Inr [65]"
proof -
  have r: "resolve_vault_path_strict (os_stat flat_os (pw_fs example_edited)) (pn_vault_root example_input) (sf_path example_dirty) =
      Inr (example_root @ [Normal (lit ''a.md'')])"
    by (simp add: resolve_vault_path_strict_def resolve_vault_path_def assert_no_symlink_within_vault_def path_strip_prefix_def
      flat_os_def example_edited_def example_world_def example_input_def example_root_def example_dirty_def std_simps)
  have t: "os_read flat_os (pw_fs example_edited) (example_root @ [Normal (lit ''a.md'')]) = Inr [65]"
    by (simp add: flat_os_def example_edited_def example_world_def)
  obtain w' where run: "merge_remote_delete flat_os example_pull_env example_input example_checkpoint (Some example_dirty)
      (lit ''a.md'') example_edited = (Inr AppliedRemote, w')" using example_delete_runs by blast
  from remote_delete_keeps_local_edits [OF flat_os_ok(1,2) example_root_ok flat_os_ok(3) _ _ r t run] run show ?thesis
    by (auto simp: example_dirty_def example_input_def)
qed

end
