(* ===== verification/Sync_Transfer.thy ===== *)
theory Sync_Transfer
  imports Sync_History State_Error
begin

text \<open>
  \<open>sync/transfer.rs\<close>: the queue that uploads and downloads encrypted objects. A batch asks the
  server for presigned targets, runs one HTTP request per object in its own task, and starts over while
  the failure is one that may pass.

  Outside the model, as the fields of \<open>transfer_api\<close>: the sync server (\<open>SyncTransferApi\<close>), the object
  store behind HTTP (\<open>ObjectTransferHttp\<close>), SHA-256, the clock, and the scheduler. Server and store share
  a state of type \<open>'s\<close>. A task is one step; \<open>ta_order\<close> says in which order the tasks of an attempt
  take effect, so that a statement for every \<open>ta_order\<close> covers every interleaving that the semaphore
  allows. When an upload target is missing, the tasks that already run are not awaited; here they
  finish before the attempt returns. A task whose HTTP client panics is \<open>HttpPanic\<close>.
\<close>

section \<open>Data\<close>

record http_header =
  hh_name :: rstr
  hh_value :: rstr

record object_reservation_input =
  ori_client_object_ref :: rstr
  ori_kind :: sync_object_kind

record reserved_object =
  ro_client_object_ref :: rstr
  ro_object_id :: rstr
  ro_kind :: sync_object_kind

record object_upload_descriptor =
  ud_object_id :: rstr
  ud_kind :: sync_object_kind
  ud_ciphertext_sha256 :: rstr
  ud_size_bytes :: int

record object_upload_target =
  ut_object_id :: rstr
  ut_put_url :: rstr
  ut_required_headers :: "http_header list"

record completed_object_upload =
  cu_object_id :: rstr
  cu_ciphertext_sha256 :: rstr
  cu_size_bytes :: int
  cu_provider_etag :: "rstr option"

record uploaded_object_metadata =
  um_object_id :: rstr
  um_ciphertext_sha256 :: rstr
  um_size_bytes :: int

datatype object_error_reason =
    Reason_Unspecified | Reason_UploadExpired | Reason_ChecksumMismatch | Reason_SizeMismatch
  | Reason_StorageProviderError | Reason_QuotaExceeded | Reason_Canceled

record object_upload_completion =
  oc_object :: "uploaded_object_metadata option"
  oc_error_reason :: "object_error_reason option"

record object_download_target =
  dt_object_id :: rstr
  dt_kind :: sync_object_kind
  dt_get_url :: rstr
  dt_required_headers :: "http_header list"
  dt_ciphertext_sha256 :: rstr
  dt_size_bytes :: int

record transfer_queue_config =
  max_upload_concurrency :: nat
  max_download_concurrency :: nat
  max_attempts :: nat
  initial_backoff :: nat

record encrypted_upload_object =
  eu_client_object_ref :: rstr
  eu_kind :: sync_object_kind
  eu_ciphertext :: bytes

record reserved_encrypted_upload_object =
  ru_object_id :: rstr
  ru_kind :: sync_object_kind
  ru_ciphertext :: bytes

record object_put_request =
  put_url :: rstr
  put_required_headers :: "http_header list"
  put_body :: bytes

record object_get_request =
  get_url :: rstr
  get_required_headers :: "http_header list"

datatype object_http_error = InvalidHeader rstr | Network rstr | Status "16 word" rstr

datatype 'a http_outcome = HttpOk 'a | HttpError object_http_error | HttpPanic rstr

datatype transfer_direction = Upload | Download

text \<open>\<open>BatchStarted\<close> carries the number of objects, the attempt and the bound on attempts;
  \<open>RetryScheduled\<close> the next attempt, the bound, the time and the message.\<close>

datatype transfer_progress_event =
    BatchStarted transfer_direction int int int
  | ObjectCompleted transfer_direction
  | ObjectFailed transfer_direction rstr
  | RetryScheduled transfer_direction int int int rstr
  | BatchCompleted transfer_direction
  | BatchFailed transfer_direction rstr

record local_upload =
  lu_client_object_ref :: rstr
  lu_kind :: sync_object_kind
  lu_ciphertext_sha256 :: rstr
  lu_size_bytes :: int
  lu_ciphertext :: bytes

record planned_upload =
  pu_descriptor :: object_upload_descriptor
  pu_ciphertext :: bytes

datatype attempt_failure = Retryable rstr | Fatal sync_error

type_synonym 'a attempt_result = "attempt_failure + 'a"

record 's transfer_api =
  ta_reserve_object_ids :: "rstr \<Rightarrow> rstr \<Rightarrow> object_reservation_input list \<Rightarrow> 's \<Rightarrow> (reserved_object list) sync_result \<times> 's"
  ta_create_object_upload_batch ::
    "rstr \<Rightarrow> rstr \<Rightarrow> rstr \<Rightarrow> object_upload_descriptor list \<Rightarrow> 's \<Rightarrow> (object_upload_target list) sync_result \<times> 's"
  ta_complete_object_upload_batch ::
    "rstr \<Rightarrow> rstr \<Rightarrow> rstr \<Rightarrow> completed_object_upload list \<Rightarrow> 's \<Rightarrow> (object_upload_completion list) sync_result \<times> 's"
  ta_create_object_download_batch ::
    "rstr \<Rightarrow> rstr \<Rightarrow> rstr list \<Rightarrow> 's \<Rightarrow> (object_download_target list) sync_result \<times> 's"
  ta_put :: "object_put_request \<Rightarrow> 's \<Rightarrow> rstr option http_outcome \<times> 's"
  ta_get :: "object_get_request \<Rightarrow> 's \<Rightarrow> bytes http_outcome \<times> 's"
  ta_sha256 :: "bytes \<Rightarrow> rstr"
  ta_clock_ms :: "nat \<Rightarrow> nat option"
  ta_clock_nanos :: "nat \<Rightarrow> nat"
  ta_order :: "nat \<Rightarrow> nat \<Rightarrow> nat"
  ta_progress_sink :: bool
  ta_config :: transfer_queue_config

record 's transfer_world =
  tw_server :: 's
  tw_progress :: "transfer_progress_event list"
  tw_ticks :: nat

type_synonym ('s, 'a) transfer_act = "('s transfer_world, 'a) act"

section \<open>Helpers\<close>

definition default_transfer_config :: transfer_queue_config where
  "default_transfer_config =
     \<lparr>max_upload_concurrency = 4, max_download_concurrency = 8, max_attempts = 3, initial_backoff = 250 * 1000000\<rparr>"

definition validate_transfer_config :: "transfer_queue_config \<Rightarrow> unit sync_result" where
  "validate_transfer_config config =
     (if max_upload_concurrency config = 0
      then Inl (InvalidArgument (lit ''max_upload_concurrency must be at least 1''))
      else if max_download_concurrency config = 0
      then Inl (InvalidArgument (lit ''max_download_concurrency must be at least 1''))
      else if max_attempts config = 0 then Inl (InvalidArgument (lit ''max_attempts must be at least 1''))
      else Inr ())"

definition checked_size :: "nat \<Rightarrow> int attempt_result" where
  "checked_size len =
     ok_or (i64_try_from_usize len) (Fatal (InvalidArgument (lit ''object is too large to describe'')))"

definition checked_count :: "nat \<Rightarrow> int" where
  "checked_count n = (case i64_try_from_usize n of Some i \<Rightarrow> i | None \<Rightarrow> i64_max)"

text \<open>The pattern \<open>401 | 403 | 408 | 429 | 500..=599\<close>.\<close>

fun is_retryable_http_error :: "object_http_error \<Rightarrow> bool" where
  "is_retryable_http_error (Network _) = True"
| "is_retryable_http_error (Status status _) =
     (status \<in> {401, 403, 408, 429} \<or> 500 \<le> status \<and> status \<le> 599)"
| "is_retryable_http_error (InvalidHeader _) = False"

fun http_error_message :: "object_http_error \<Rightarrow> rstr" where
  "http_error_message (InvalidHeader message) = message"
| "http_error_message (Network message) = message"
| "http_error_message (Status status body) =
     (if str_trim body = [] then lit ''object transfer returned HTTP '' @ nat_digits (unat status)
      else lit ''object transfer returned HTTP '' @ nat_digits (unat status) @ lit '': '' @ body)"

definition from_http :: "object_http_error \<Rightarrow> attempt_failure" where
  "from_http error =
     (if is_retryable_http_error error then Retryable (http_error_message error)
      else Fatal (Transport (http_error_message error)))"

fun attempt_message :: "attempt_failure \<Rightarrow> rstr" where
  "attempt_message (Retryable message) = message"
| "attempt_message (Fatal error) = sync_error_display error"

fun object_error_reason_name :: "object_error_reason \<Rightarrow> rstr" where
  "object_error_reason_name Reason_Unspecified = lit ''unspecified''"
| "object_error_reason_name Reason_UploadExpired = lit ''upload_expired''"
| "object_error_reason_name Reason_ChecksumMismatch = lit ''checksum_mismatch''"
| "object_error_reason_name Reason_SizeMismatch = lit ''size_mismatch''"
| "object_error_reason_name Reason_StorageProviderError = lit ''storage_provider_error''"
| "object_error_reason_name Reason_QuotaExceeded = lit ''quota_exceeded''"
| "object_error_reason_name Reason_Canceled = lit ''canceled''"

text \<open>A \<open>Duration\<close> is its nanoseconds; seconds are a \<open>u64\<close>. \<open>saturating_mul\<close> and \<open>saturating_add\<close> stop at
  the largest one.\<close>

definition DURATION_MAX :: nat where
  "DURATION_MAX = 18446744073709551615 * 1000000000 + 999999999"

definition U32_MAX :: nat where
  "U32_MAX = 4294967295"

definition retry_delay :: "nat \<Rightarrow> nat \<Rightarrow> nat \<Rightarrow> nat" where
  "retry_delay jitter_seed backoff attempt =
     (if backoff = 0 then 0
      else
        let multiplier = min (attempt + 1) U32_MAX;
            base = min (backoff * multiplier) DURATION_MAX;
            jitter_cap_ms = min (base div 1000000 div 4) 1000
        in if jitter_cap_ms = 0 then base
           else min (base + (jitter_seed mod (jitter_cap_ms + 1)) * 1000000) DURATION_MAX)"

definition duration_ms_i64 :: "nat \<Rightarrow> int" where
  "duration_ms_i64 duration = checked_count (duration div 1000000)"

definition now_ms :: "'s transfer_api \<Rightarrow> nat \<Rightarrow> int" where
  "now_ms api tick = (case ta_clock_ms api tick of Some ms \<Rightarrow> min (int ms) i64_max | None \<Rightarrow> 0)"

definition i64_saturating_add :: "int \<Rightarrow> int \<Rightarrow> int" where
  "i64_saturating_add a b = max (- 9223372036854775808) (min i64_max (a + b))"

definition emit_progress :: "'s transfer_api \<Rightarrow> transfer_progress_event \<Rightarrow> 's transfer_world \<Rightarrow> 's transfer_world" where
  "emit_progress api event w =
     (if ta_progress_sink api then w\<lparr>tw_progress := tw_progress w @ [event]\<rparr> else w)"

definition emit_attempt_progress ::
  "'s transfer_api \<Rightarrow> transfer_direction \<Rightarrow> 'a attempt_result \<Rightarrow> 's transfer_world \<Rightarrow> 's transfer_world" where
  "emit_attempt_progress api direction result w =
     (case result of
        Inr _ \<Rightarrow> emit_progress api (ObjectCompleted direction) w
      | Inl error \<Rightarrow> emit_progress api (ObjectFailed direction (attempt_message error)) w)"

definition local_upload_from :: "'s transfer_api \<Rightarrow> encrypted_upload_object \<Rightarrow> local_upload sync_result" where
  "local_upload_from api object =
     res_bind (validate_required (eu_client_object_ref object) (lit ''client_object_ref'')) (\<lambda>_.
     case checked_size (length (eu_ciphertext object)) of
       Inl (Fatal error) \<Rightarrow> Inl error
     | Inl (Retryable message) \<Rightarrow> Inl (Transport message)
     | Inr size_bytes \<Rightarrow>
         Inr \<lparr>lu_client_object_ref = eu_client_object_ref object, lu_kind = eu_kind object,
              lu_ciphertext_sha256 = ta_sha256 api (eu_ciphertext object), lu_size_bytes = size_bytes,
              lu_ciphertext = eu_ciphertext object\<rparr>)"

definition local_reserved_upload_from ::
  "'s transfer_api \<Rightarrow> reserved_encrypted_upload_object \<Rightarrow> planned_upload sync_result" where
  "local_reserved_upload_from api object =
     res_bind (validate_required (ru_object_id object) (lit ''object_id'')) (\<lambda>_.
     case checked_size (length (ru_ciphertext object)) of
       Inl (Fatal error) \<Rightarrow> Inl error
     | Inl (Retryable message) \<Rightarrow> Inl (Transport message)
     | Inr size_bytes \<Rightarrow>
         Inr \<lparr>pu_descriptor = \<lparr>ud_object_id = ru_object_id object, ud_kind = ru_kind object,
                ud_ciphertext_sha256 = ta_sha256 api (ru_ciphertext object), ud_size_bytes = size_bytes\<rparr>,
              pu_ciphertext = ru_ciphertext object\<rparr>)"

definition check_completion ::
  "(rstr \<rightharpoonup> object_upload_descriptor) \<Rightarrow> object_upload_completion \<Rightarrow> uploaded_object_metadata sync_result" where
  "check_completion expected completion =
     (case oc_error_reason completion of
        Some reason \<Rightarrow>
          Inl (Transport (lit ''object upload completion failed: '' @ object_error_reason_name reason))
      | None \<Rightarrow>
          res_bind (ok_or (oc_object completion) (Transport (lit ''complete upload response missing object metadata''))) (\<lambda>object.
          res_bind (ok_or (expected (um_object_id object))
            (Transport (lit ''complete upload response included unknown object '' @ um_object_id object))) (\<lambda>descriptor.
          if um_ciphertext_sha256 object \<noteq> ud_ciphertext_sha256 descriptor
          then Inl (Integrity (lit ''completed object '' @ um_object_id object @ lit '' hash mismatch: expected '' @
            ud_ciphertext_sha256 descriptor @ lit '', got '' @ um_ciphertext_sha256 object))
          else if um_size_bytes object \<noteq> ud_size_bytes descriptor
          then Inl (Integrity (lit ''completed object '' @ um_object_id object @ lit '' size mismatch: expected '' @
            fmt_int (ud_size_bytes descriptor) @ lit '', got '' @ fmt_int (um_size_bytes object)))
          else Inr object)))"

text \<open>A \<open>HashMap\<close> filled in order: the last insertion of a key wins (\<open>btree_of\<close>).\<close>

definition validate_upload_completions ::
  "object_upload_completion list \<Rightarrow> object_upload_descriptor list \<Rightarrow> (uploaded_object_metadata list) sync_result" where
  "validate_upload_completions completions descriptors =
     (if length completions \<noteq> length descriptors
      then Inl (Transport (lit ''complete upload response count mismatch: expected '' @
        nat_digits (length descriptors) @ lit '', got '' @ nat_digits (length completions)))
      else res_map (check_completion (btree_of (map (\<lambda>d. (ud_object_id d, d)) descriptors))) completions)"

section \<open>Tasks\<close>

datatype 'a joined = Joined "'a attempt_result" | JoinError rstr

definition act_server :: "('s \<Rightarrow> 'a sync_result \<times> 's) \<Rightarrow> ('s, 'a) transfer_act" where
  "act_server f w = (case f (tw_server w) of (r, s) \<Rightarrow> (r, w\<lparr>tw_server := s\<rparr>))"

definition finish_task ::
  "'s transfer_api \<Rightarrow> transfer_direction \<Rightarrow> 'a attempt_result \<Rightarrow> 's transfer_world \<Rightarrow> 'a joined \<times> 's transfer_world" where
  "finish_task api direction result w = (Joined result, emit_attempt_progress api direction result w)"

definition upload_one ::
  "'s transfer_api \<Rightarrow> planned_upload \<Rightarrow> object_upload_target \<Rightarrow> 's transfer_world
    \<Rightarrow> completed_object_upload joined \<times> 's transfer_world" where
  "upload_one api upload target w =
     (case ta_put api \<lparr>put_url = ut_put_url target, put_required_headers = ut_required_headers target,
         put_body = pu_ciphertext upload\<rparr> (tw_server w) of
        (HttpPanic message, s) \<Rightarrow> (JoinError message, w\<lparr>tw_server := s\<rparr>)
      | (HttpError error, s) \<Rightarrow> finish_task api Upload (Inl (from_http error)) (w\<lparr>tw_server := s\<rparr>)
      | (HttpOk provider_etag, s) \<Rightarrow>
          finish_task api Upload
            (Inr \<lparr>cu_object_id = ud_object_id (pu_descriptor upload),
                  cu_ciphertext_sha256 = ud_ciphertext_sha256 (pu_descriptor upload),
                  cu_size_bytes = ud_size_bytes (pu_descriptor upload), cu_provider_etag = provider_etag\<rparr>)
            (w\<lparr>tw_server := s\<rparr>))"

definition check_download ::
  "'s transfer_api \<Rightarrow> object_download_target \<Rightarrow> bytes \<Rightarrow> downloaded_object attempt_result" where
  "check_download api target body =
     (let observed_sha256 = ta_sha256 api body
      in if observed_sha256 \<noteq> dt_ciphertext_sha256 target
         then Inl (Fatal (Integrity (lit ''downloaded object '' @ dt_object_id target @
           lit '' hash mismatch: expected '' @ dt_ciphertext_sha256 target @ lit '', got '' @ observed_sha256)))
         else res_bind (checked_size (length body)) (\<lambda>observed_size.
           if observed_size \<noteq> dt_size_bytes target
           then Inl (Fatal (Integrity (lit ''downloaded object '' @ dt_object_id target @
             lit '' size mismatch: expected '' @ fmt_int (dt_size_bytes target) @ lit '', got '' @
             fmt_int observed_size)))
           else Inr \<lparr>dl_object_id = dt_object_id target, dl_kind = dt_kind target,
                  dl_ciphertext_sha256 = observed_sha256, dl_ciphertext = body\<rparr>))"

definition download_object ::
  "'s transfer_api \<Rightarrow> object_download_target \<Rightarrow> 's transfer_world \<Rightarrow> downloaded_object joined \<times> 's transfer_world" where
  "download_object api target w =
     (case ta_get api \<lparr>get_url = dt_get_url target, get_required_headers = dt_required_headers target\<rparr> (tw_server w) of
        (HttpPanic message, s) \<Rightarrow> (JoinError message, w\<lparr>tw_server := s\<rparr>)
      | (HttpError error, s) \<Rightarrow> finish_task api Download (Inl (from_http error)) (w\<lparr>tw_server := s\<rparr>)
      | (HttpOk body, s) \<Rightarrow> finish_task api Download (check_download api target body) (w\<lparr>tw_server := s\<rparr>))"

text \<open>Tasks take effect in the order of the scheduler; their results are read in the order they were spawned.\<close>

fun run_in_order :: "(nat \<Rightarrow> 'w \<Rightarrow> 'r \<times> 'w) \<Rightarrow> nat list \<Rightarrow> (nat \<rightharpoonup> 'r) \<Rightarrow> 'w \<Rightarrow> (nat \<rightharpoonup> 'r) \<times> 'w" where
  "run_in_order task [] results w = (results, w)"
| "run_in_order task (i # is) results w =
     (case task i w of (r, w) \<Rightarrow> run_in_order task is (results(i \<mapsto> r)) w)"

definition run_tasks ::
  "'s transfer_api \<Rightarrow> ('s transfer_world \<Rightarrow> 'r \<times> 's transfer_world) list \<Rightarrow> 's transfer_world
    \<Rightarrow> 'r list \<times> 's transfer_world" where
  "run_tasks api tasks w =
     (case run_in_order (\<lambda>i. tasks ! i) (sort_key (ta_order api (tw_ticks w)) [0..<length tasks]) Map.empty
         (w\<lparr>tw_ticks := Suc (tw_ticks w)\<rparr>) of
        (results, w) \<Rightarrow> (map (\<lambda>i. the (results i)) [0..<length tasks], w))"

fun join_all ::
  "'s transfer_api \<Rightarrow> transfer_direction \<Rightarrow> 'a joined list \<Rightarrow> 'a list \<Rightarrow> attempt_failure option \<Rightarrow> 's transfer_world
    \<Rightarrow> ('a list) attempt_result \<times> 's transfer_world" where
  "join_all api direction [] completed first_error w =
     ((case first_error of Some error \<Rightarrow> Inl error | None \<Rightarrow> Inr completed), w)"
| "join_all api direction (Joined (Inr result) # handles) completed first_error w =
     join_all api direction handles (completed @ [result]) first_error w"
| "join_all api direction (Joined (Inl error) # handles) completed first_error w =
     join_all api direction handles completed
       (if first_error = None then Some error else first_error) w"
| "join_all api direction (JoinError message # handles) completed first_error w =
     join_all api direction handles completed
       (if first_error = None then Some (Fatal (Transport message)) else first_error)
       (emit_progress api (ObjectFailed direction message) w)"

section \<open>Batches\<close>

fun with_targets ::
  "(rstr \<rightharpoonup> object_upload_target) \<Rightarrow> planned_upload list
    \<Rightarrow> (planned_upload \<times> object_upload_target) list \<times> rstr option" where
  "with_targets targets [] = ([], None)"
| "with_targets targets (upload # uploads) =
     (case targets (ud_object_id (pu_descriptor upload)) of
        None \<Rightarrow> ([], Some (ud_object_id (pu_descriptor upload)))
      | Some target \<Rightarrow> (case with_targets targets uploads of (rest, missing) \<Rightarrow> ((upload, target) # rest, missing)))"

definition upload_attempt ::
  "'s transfer_api \<Rightarrow> planned_upload list \<Rightarrow> object_upload_target list \<Rightarrow> 's transfer_world
    \<Rightarrow> (completed_object_upload list) attempt_result \<times> 's transfer_world" where
  "upload_attempt api uploads targets w =
     (case with_targets (btree_of (map (\<lambda>t. (ut_object_id t, t)) targets)) uploads of
        (spawned, missing) \<Rightarrow>
          (case run_tasks api (map (\<lambda>(upload, target). upload_one api upload target) spawned) w of
             (handles, w) \<Rightarrow>
               (case missing of
                  Some object_id \<Rightarrow>
                    (Inl (Fatal (Transport (lit ''upload batch response missing target for '' @ object_id))), w)
                | None \<Rightarrow> join_all api Upload handles [] None w)))"

definition download_attempt ::
  "'s transfer_api \<Rightarrow> object_download_target list \<Rightarrow> 's transfer_world
    \<Rightarrow> (downloaded_object list) attempt_result \<times> 's transfer_world" where
  "download_attempt api targets w =
     (case run_tasks api (map (download_object api) targets) w of
        (handles, w) \<Rightarrow> join_all api Download handles [] None w)"

fun direction_label :: "transfer_direction \<Rightarrow> rstr" where
  "direction_label Upload = lit ''upload''"
| "direction_label Download = lit ''download''"

text \<open>
  The loop \<open>for attempt in 0..max_attempts\<close> of both directions. A failed call to the server ends the
  batch as a fatal failure of the attempt does: both report \<open>BatchFailed\<close> with the error and return it.
\<close>

fun batch_loop ::
  "'s transfer_api \<Rightarrow> transfer_direction \<Rightarrow> int \<Rightarrow> ('s transfer_world \<Rightarrow> 'a attempt_result \<times> 's transfer_world)
    \<Rightarrow> nat list \<Rightarrow> ('s, 'a) transfer_act" where
  "batch_loop api direction total_objects attempt_once [] w =
     (let error = Transport (direction_label direction @ lit '' transfer failed without running an attempt'')
      in (Inl error, emit_progress api (BatchFailed direction (sync_error_display error)) w))"
| "batch_loop api direction total_objects attempt_once (attempt # attempts) w =
     (let limit = max_attempts (ta_config api);
          w = emit_progress api (BatchStarted direction total_objects (checked_count (attempt + 1)) (checked_count limit)) w
      in case attempt_once w of
           (Inr x, w) \<Rightarrow> (Inr x, emit_progress api (BatchCompleted direction) w)
         | (Inl (Retryable message), w) \<Rightarrow>
             if attempt + 1 < limit
             then
               let delay = retry_delay (ta_clock_nanos api (tw_ticks w)) (initial_backoff (ta_config api)) attempt;
                   retry_at = i64_saturating_add (now_ms api (Suc (tw_ticks w))) (duration_ms_i64 delay)
               in batch_loop api direction total_objects attempt_once attempts
                    (emit_progress api (RetryScheduled direction (checked_count (attempt + 2)) (checked_count limit)
                       retry_at message) (w\<lparr>tw_ticks := tw_ticks w + 2\<rparr>))
             else
               (Inl (Transport (direction_label direction @ lit '' transfer failed after retries: '' @ message)),
                emit_progress api (BatchFailed direction message) w)
         | (Inl (Fatal error), w) \<Rightarrow>
             (Inl error, emit_progress api (BatchFailed direction (sync_error_display error)) w))"

definition attempt_of_call :: "('s, 'a) transfer_act \<Rightarrow> 's transfer_world \<Rightarrow> 'a attempt_result \<times> 's transfer_world" where
  "attempt_of_call call w = (case call w of (Inl e, w) \<Rightarrow> (Inl (Fatal e), w) | (Inr x, w) \<Rightarrow> (Inr x, w))"

definition upload_once ::
  "'s transfer_api \<Rightarrow> rstr \<Rightarrow> rstr \<Rightarrow> rstr \<Rightarrow> planned_upload list \<Rightarrow> 's transfer_world
    \<Rightarrow> (uploaded_object_metadata list) attempt_result \<times> 's transfer_world" where
  "upload_once api workspace_id device_id upload_attempt_id uploads w =
     (let descriptors = map pu_descriptor uploads
      in case attempt_of_call (act_server
             (ta_create_object_upload_batch api workspace_id device_id upload_attempt_id descriptors)) w of
           (Inl failure, w) \<Rightarrow> (Inl failure, w)
         | (Inr targets, w) \<Rightarrow>
             (case upload_attempt api uploads targets w of
                (Inl failure, w) \<Rightarrow> (Inl failure, w)
              | (Inr completed, w) \<Rightarrow>
                  attempt_of_call
                    (act_bind (act_server
                        (ta_complete_object_upload_batch api workspace_id device_id upload_attempt_id completed))
                      (\<lambda>completions. act_lift (validate_upload_completions completions descriptors))) w))"

definition upload_planned_objects ::
  "'s transfer_api \<Rightarrow> rstr \<Rightarrow> rstr \<Rightarrow> rstr \<Rightarrow> planned_upload list \<Rightarrow> ('s, uploaded_object_metadata list) transfer_act" where
  "upload_planned_objects api workspace_id device_id upload_attempt_id uploads =
     batch_loop api Upload (checked_count (length uploads))
       (upload_once api workspace_id device_id upload_attempt_id uploads) [0..<max_attempts (ta_config api)]"

definition upload_reserved_objects ::
  "'s transfer_api \<Rightarrow> rstr \<Rightarrow> rstr \<Rightarrow> rstr \<Rightarrow> reserved_encrypted_upload_object list
    \<Rightarrow> ('s, uploaded_object_metadata list) transfer_act" where
  "upload_reserved_objects api workspace_id device_id upload_attempt_id objects =
     act_bind (act_lift (validate_required workspace_id (lit ''workspace_id''))) (\<lambda>_.
     act_bind (act_lift (validate_required device_id (lit ''device_id''))) (\<lambda>_.
     act_bind (act_lift (validate_required upload_attempt_id (lit ''upload_attempt_id''))) (\<lambda>_.
     if objects = [] then act_lift (Inr [])
     else act_bind (act_lift (res_map (local_reserved_upload_from api) objects)) (\<lambda>uploads.
       upload_planned_objects api workspace_id device_id upload_attempt_id uploads))))"

definition plan_upload_of ::
  "(rstr \<rightharpoonup> reserved_object) \<Rightarrow> local_upload \<Rightarrow> planned_upload sync_result" where
  "plan_upload_of by_ref upload =
     res_bind (ok_or (by_ref (lu_client_object_ref upload))
       (Transport (lit ''ReserveObjectIds response missing '' @ lu_client_object_ref upload))) (\<lambda>reservation.
     if ro_kind reservation \<noteq> lu_kind upload
     then Inl (Transport (lit ''reserved object kind mismatch for '' @ lu_client_object_ref upload))
     else Inr \<lparr>pu_descriptor = \<lparr>ud_object_id = ro_object_id reservation, ud_kind = lu_kind upload,
            ud_ciphertext_sha256 = lu_ciphertext_sha256 upload, ud_size_bytes = lu_size_bytes upload\<rparr>,
          pu_ciphertext = lu_ciphertext upload\<rparr>)"

definition reserve_upload_objects ::
  "'s transfer_api \<Rightarrow> rstr \<Rightarrow> rstr \<Rightarrow> encrypted_upload_object list \<Rightarrow> ('s, planned_upload list) transfer_act" where
  "reserve_upload_objects api workspace_id device_id objects =
     act_bind (act_lift (res_map (local_upload_from api) objects)) (\<lambda>local.
     act_bind (act_server (ta_reserve_object_ids api workspace_id device_id
       (map (\<lambda>upload. \<lparr>ori_client_object_ref = lu_client_object_ref upload, ori_kind = lu_kind upload\<rparr>) local))) (\<lambda>reservations.
     act_lift (res_map (plan_upload_of (btree_of (map (\<lambda>r. (ro_client_object_ref r, r)) reservations))) local)))"

definition upload_objects ::
  "'s transfer_api \<Rightarrow> rstr \<Rightarrow> rstr \<Rightarrow> rstr \<Rightarrow> encrypted_upload_object list
    \<Rightarrow> ('s, uploaded_object_metadata list) transfer_act" where
  "upload_objects api workspace_id device_id upload_attempt_id objects =
     act_bind (act_lift (validate_required workspace_id (lit ''workspace_id''))) (\<lambda>_.
     act_bind (act_lift (validate_required device_id (lit ''device_id''))) (\<lambda>_.
     act_bind (act_lift (validate_required upload_attempt_id (lit ''upload_attempt_id''))) (\<lambda>_.
     if objects = [] then act_lift (Inr [])
     else act_bind (reserve_upload_objects api workspace_id device_id objects) (\<lambda>uploads.
       upload_planned_objects api workspace_id device_id upload_attempt_id uploads))))"

definition download_once ::
  "'s transfer_api \<Rightarrow> rstr \<Rightarrow> rstr \<Rightarrow> rstr list \<Rightarrow> 's transfer_world
    \<Rightarrow> (downloaded_object list) attempt_result \<times> 's transfer_world" where
  "download_once api workspace_id device_id object_ids w =
     (case attempt_of_call (act_server (ta_create_object_download_batch api workspace_id device_id object_ids)) w of
        (Inl failure, w) \<Rightarrow> (Inl failure, w)
      | (Inr targets, w) \<Rightarrow> download_attempt api targets w)"

definition download_objects ::
  "'s transfer_api \<Rightarrow> rstr \<Rightarrow> rstr \<Rightarrow> rstr list \<Rightarrow> ('s, downloaded_object list) transfer_act" where
  "download_objects api workspace_id device_id object_ids =
     act_bind (act_lift (validate_required workspace_id (lit ''workspace_id''))) (\<lambda>_.
     act_bind (act_lift (validate_required device_id (lit ''device_id''))) (\<lambda>_.
     if object_ids = [] then act_lift (Inr [])
     else batch_loop api Download (checked_count (length object_ids))
       (download_once api workspace_id device_id object_ids) [0..<max_attempts (ta_config api)]))"

section \<open>Tasks and their results\<close>

lemma run_in_order_sound:
  assumes "run_in_order task is results w = (results', w')" "distinct is"
    and "\<And>i v r v'. i \<in> set is \<Longrightarrow> task i v = (r, v') \<Longrightarrow> P i r"
  shows "(\<forall>i\<in>set is. \<exists>r. results' i = Some r \<and> P i r) \<and> (\<forall>i. i \<notin> set is \<longrightarrow> results' i = results i)"
  using assms
proof (induction "is" arbitrary: results w)
  case (Cons i "is")
  obtain r v where step: "task i w = (r, v)" by fastforce
  with Cons.prems(1) have rest: "run_in_order task is (results(i \<mapsto> r)) v = (results', w')" by simp
  have "P i r" using Cons.prems(3) [of i] step by auto
  moreover note Cons.IH [OF rest] Cons.prems(2,3)
  ultimately show ?case by auto
qed simp

lemma run_tasks_sound:
  assumes "run_tasks api tasks w = (rs, w')"
    and "\<And>i v r v'. i < length tasks \<Longrightarrow> (tasks ! i) v = (r, v') \<Longrightarrow> P i r"
  shows "length rs = length tasks \<and> (\<forall>i<length tasks. P i (rs ! i))"
proof -
  obtain results v where run: "run_in_order ((!) tasks) (sort_key (ta_order api (tw_ticks w)) [0..<length tasks])
      Map.empty (w\<lparr>tw_ticks := Suc (tw_ticks w)\<rparr>) = (results, v)" by fastforce
  have "\<forall>i<length tasks. \<exists>r. results i = Some r \<and> P i r"
    using run_in_order_sound [OF run, of P] assms(2) by auto
  then show ?thesis using assms(1) run by (fastforce simp: run_tasks_def)
qed

lemma join_all_Inr:
  "join_all api direction handles completed first_error w = (Inr xs, w') \<Longrightarrow>
     first_error = None \<and> (\<exists>ys. xs = completed @ ys \<and> handles = map (\<lambda>y. Joined (Inr y)) ys)"
  by (induction api direction handles completed first_error w rule: join_all.induct)
    (auto split: option.splits if_splits)

text \<open>What every task of an attempt leaves, it leaves in the order of the targets.\<close>

lemma tasks_joined:
  assumes "run_tasks api (map f xs) w = (handles, v)" "join_all api direction handles [] None v = (Inr ys, w')"
    and "\<And>x v y v'. x \<in> set xs \<Longrightarrow> f x v = (Joined (Inr y), v') \<Longrightarrow> Q x y"
  shows "list_all2 Q xs ys"
proof -
  have h: "handles = map (\<lambda>y. Joined (Inr y)) ys" using join_all_Inr [OF assms(2)] by auto
  have "length handles = length (map f xs) \<and>
      (\<forall>i<length (map f xs). \<forall>y. handles ! i = Joined (Inr y) \<longrightarrow> Q (xs ! i) y)"
    using assms(1) by (rule run_tasks_sound) (auto intro: assms(3))
  then show ?thesis by (auto simp: h list_all2_conv_all_nth)
qed

definition intact :: "'s transfer_api \<Rightarrow> object_download_target \<Rightarrow> downloaded_object \<Rightarrow> bool" where
  "intact api target object \<longleftrightarrow> dl_object_id object = dt_object_id target \<and> dl_kind object = dt_kind target \<and>
     ta_sha256 api (dl_ciphertext object) = dt_ciphertext_sha256 target \<and>
     dl_ciphertext_sha256 object = dt_ciphertext_sha256 target \<and>
     int (length (dl_ciphertext object)) = dt_size_bytes target"

lemma download_object_intact: "download_object api target w = (Joined (Inr object), w') \<Longrightarrow> intact api target object"
  by (auto simp: download_object_def finish_task_def check_download_def checked_size_def i64_try_from_usize_def
      intact_def Let_def res_bind_eq_Inr split: prod.splits http_outcome.splits if_splits)

lemma download_attempt_intact:
  assumes "download_attempt api targets w = (Inr objects, w')"
  shows "list_all2 (intact api) targets objects"
proof -
  obtain handles v where run: "run_tasks api (map (download_object api) targets) w = (handles, v)" by fastforce
  with assms have "join_all api Download handles [] None v = (Inr objects, w')" by (simp add: download_attempt_def)
  with run show ?thesis by (rule tasks_joined) (rule download_object_intact)
qed

lemma batch_loop_Inr:
  "batch_loop api direction total_objects attempt_once attempts w = (Inr x, w') \<Longrightarrow>
     \<exists>v v'. attempt_once v = (Inr x, v')"
  by (induction api direction total_objects attempt_once attempts w rule: batch_loop.induct)
    (auto simp: Let_def split: prod.splits sum.splits attempt_failure.splits if_splits)

lemma download_objects_sound:
  assumes "download_objects api workspace_id device_id object_ids w = (Inr objects, w')" "object_ids \<noteq> []"
  shows "\<exists>s s' targets. ta_create_object_download_batch api workspace_id device_id object_ids s = (Inr targets, s') \<and>
    list_all2 (intact api) targets objects"
proof -
  from assms obtain v v' where "download_once api workspace_id device_id object_ids v = (Inr objects, v')"
    by (auto simp: download_objects_def act_bind_Inr dest!: batch_loop_Inr)
  then obtain targets s v1 where
    "ta_create_object_download_batch api workspace_id device_id object_ids (tw_server v) = (Inr targets, s)"
    "download_attempt api targets v1 = (Inr objects, v')"
    by (auto simp: download_once_def attempt_of_call_def act_server_def split: prod.splits sum.splits)
  then show ?thesis using download_attempt_intact by blast
qed


section \<open>Uploads\<close>

definition describes :: "'s transfer_api \<Rightarrow> reserved_encrypted_upload_object \<Rightarrow> uploaded_object_metadata \<Rightarrow> bool" where
  "describes api object metadata \<longleftrightarrow> um_object_id metadata = ru_object_id object \<and>
     um_ciphertext_sha256 metadata = ta_sha256 api (ru_ciphertext object) \<and>
     um_size_bytes metadata = int (length (ru_ciphertext object))"

lemma local_reserved_upload_from_Inr:
  "local_reserved_upload_from api object = Inr upload \<Longrightarrow>
     ud_object_id (pu_descriptor upload) = ru_object_id object \<and>
     ud_ciphertext_sha256 (pu_descriptor upload) = ta_sha256 api (ru_ciphertext object) \<and>
     ud_size_bytes (pu_descriptor upload) = int (length (ru_ciphertext object)) \<and>
     pu_ciphertext upload = ru_ciphertext object"
  by (auto simp: local_reserved_upload_from_def res_bind_eq_Inr checked_size_def i64_try_from_usize_def
      split: sum.splits attempt_failure.splits if_splits)

lemma check_completion_Inr:
  assumes "check_completion (btree_of (map (\<lambda>d. (ud_object_id d, d)) descriptors)) completion = Inr metadata"
  shows "\<exists>d\<in>set descriptors. um_object_id metadata = ud_object_id d \<and>
    um_ciphertext_sha256 metadata = ud_ciphertext_sha256 d \<and> um_size_bytes metadata = ud_size_bytes d"
  using assms by (fastforce simp: check_completion_def btree_of_def res_bind_eq_Inr
      dest!: map_of_SomeD split: option.splits if_splits)

lemma upload_once_Inr:
  assumes "upload_once api workspace_id device_id attempt_id uploads w = (Inr metas, w')"
  shows "\<exists>completions. validate_upload_completions completions (map pu_descriptor uploads) = Inr metas"
  using assms by (auto simp: upload_once_def Let_def attempt_of_call_def act_bind_Inr split: prod.splits sum.splits)

lemma validate_upload_completions_Inr:
  assumes "validate_upload_completions completions descriptors = Inr metas"
  shows "length metas = length descriptors \<and> (\<forall>m\<in>set metas. \<exists>d\<in>set descriptors.
    um_object_id m = ud_object_id d \<and> um_ciphertext_sha256 m = ud_ciphertext_sha256 d \<and> um_size_bytes m = ud_size_bytes d)"
proof -
  let ?check = "check_completion (btree_of (map (\<lambda>d. (ud_object_id d, d)) descriptors))"
  from assms have len: "length completions = length descriptors" and run: "res_map ?check completions = Inr metas"
    by (auto simp: validate_upload_completions_def split: if_splits)
  have "\<exists>c. ?check c = Inr m" if "m \<in> set metas" for m
    using res_map_Inr_mem [OF run that] by blast
  then show ?thesis using check_completion_Inr res_map_Inr_length [OF run] len by simp blast
qed

lemma upload_reserved_objects_sound:
  assumes "upload_reserved_objects api workspace_id device_id attempt_id objects w = (Inr metas, w')"
  shows "length metas = length objects" "\<forall>m\<in>set metas. \<exists>object\<in>set objects. describes api object m"
proof -
  have "length metas = length objects \<and> (\<forall>m\<in>set metas. \<exists>object\<in>set objects. describes api object m)"
  proof (cases "objects = []")
    case True
    then show ?thesis using assms by (auto simp: upload_reserved_objects_def act_bind_Inr)
  next
    case False
    with assms obtain uploads v v' where local: "res_map (local_reserved_upload_from api) objects = Inr uploads"
      and once: "upload_once api workspace_id device_id attempt_id uploads v = (Inr metas, v')"
      by (auto simp: upload_reserved_objects_def upload_planned_objects_def act_bind_Inr dest!: batch_loop_Inr)
    have "length uploads = length objects" using res_map_Inr_length [OF local] .
    moreover have "\<exists>object\<in>set objects. local_reserved_upload_from api object = Inr upload" if "upload \<in> set uploads" for upload
      by (rule res_map_Inr_mem [OF local that])
    moreover obtain completions where "validate_upload_completions completions (map pu_descriptor uploads) = Inr metas"
      using upload_once_Inr [OF once] by blast
    note validate_upload_completions_Inr [OF this]
    ultimately show ?thesis unfolding describes_def using local_reserved_upload_from_Inr by fastforce
  qed
  then show "length metas = length objects" "\<forall>m\<in>set metas. \<exists>object\<in>set objects. describes api object m" by auto
qed

text \<open>An answer that confirms one object twice and another not at all is accepted.\<close>

lemma repeated_completion_accepted:
  "validate_upload_completions
     [\<lparr>oc_object = Some \<lparr>um_object_id = a, um_ciphertext_sha256 = ud_ciphertext_sha256 d, um_size_bytes = ud_size_bytes d\<rparr>,
        oc_error_reason = None\<rparr>,
      \<lparr>oc_object = Some \<lparr>um_object_id = a, um_ciphertext_sha256 = ud_ciphertext_sha256 d, um_size_bytes = ud_size_bytes d\<rparr>,
        oc_error_reason = None\<rparr>] [d, e] =
   Inr (replicate 2 \<lparr>um_object_id = a, um_ciphertext_sha256 = ud_ciphertext_sha256 d, um_size_bytes = ud_size_bytes d\<rparr>)"
  if "ud_object_id d = a" "ud_object_id e \<noteq> a"
  using that by (simp add: validate_upload_completions_def check_completion_def btree_of_def numeral_2_eq_2)

section \<open>Progress\<close>

fun object_event :: "transfer_direction \<Rightarrow> transfer_progress_event \<Rightarrow> bool" where
  "object_event direction (ObjectCompleted d) \<longleftrightarrow> d = direction"
| "object_event direction (ObjectFailed d _) \<longleftrightarrow> d = direction"
| "object_event direction _ \<longleftrightarrow> False"

text \<open>
  The events of a batch that starts with attempt number \<open>a\<close>: rounds that end with a scheduled retry,
  and a last round that ends as the batch does.
\<close>

inductive batch_trace :: "transfer_direction \<Rightarrow> int \<Rightarrow> nat \<Rightarrow> nat \<Rightarrow> bool \<Rightarrow> transfer_progress_event list \<Rightarrow> bool"
  for direction total_count limit where
  completed: "a < limit \<Longrightarrow> list_all (object_event direction) objects \<Longrightarrow>
    batch_trace direction total_count limit a True
      (BatchStarted direction total_count (checked_count (a + 1)) (checked_count limit) # objects @ [BatchCompleted direction])"
| failed: "a < limit \<Longrightarrow> list_all (object_event direction) objects \<Longrightarrow>
    batch_trace direction total_count limit a False
      (BatchStarted direction total_count (checked_count (a + 1)) (checked_count limit) # objects @ [BatchFailed direction message])"
| retried: "a + 1 < limit \<Longrightarrow> list_all (object_event direction) objects \<Longrightarrow>
    batch_trace direction total_count limit (a + 1) ok events \<Longrightarrow>
    batch_trace direction total_count limit a ok
      (BatchStarted direction total_count (checked_count (a + 1)) (checked_count limit) # objects @
       RetryScheduled direction (checked_count (a + 2)) (checked_count limit) at message # events)"

fun is_batch_start :: "transfer_progress_event \<Rightarrow> bool" where
  "is_batch_start (BatchStarted _ _ _ _) = True"
| "is_batch_start _ = False"

lemma object_event_no_start: "list_all (object_event direction) objects \<Longrightarrow> filter is_batch_start objects = []"
  by (induction objects) (auto elim: object_event.elims)

lemma batch_trace_starts: "batch_trace direction total_count limit a ok events \<Longrightarrow>
    length (filter is_batch_start events) + a \<le> limit"
  by (induction rule: batch_trace.induct) (simp_all add: object_event_no_start)

definition reports :: "'s transfer_api \<Rightarrow> (transfer_progress_event list \<Rightarrow> bool) \<Rightarrow> 's transfer_world \<Rightarrow> 's transfer_world \<Rightarrow> bool" where
  "reports api P w w' \<longleftrightarrow> (ta_progress_sink api \<longrightarrow> (\<exists>events. tw_progress w' = tw_progress w @ events \<and> P events))"

abbreviation reports_objects :: "'s transfer_api \<Rightarrow> transfer_direction \<Rightarrow> 's transfer_world \<Rightarrow> 's transfer_world \<Rightarrow> bool" where
  "reports_objects api direction \<equiv> reports api (list_all (object_event direction))"

lemma reports_objects_refl: "tw_progress w' = tw_progress w \<Longrightarrow> reports_objects api direction w w'"
  by (simp add: reports_def)

lemma reports_objects_trans:
  "reports_objects api direction u v \<Longrightarrow> reports_objects api direction v w \<Longrightarrow> reports_objects api direction u w"
  by (fastforce simp: reports_def)

lemma reports_emit: "object_event direction e \<Longrightarrow> tw_progress w' = tw_progress w \<Longrightarrow>
    reports_objects api direction w (emit_progress api e w')"
  by (auto simp: reports_def emit_progress_def)

lemma join_all_reports: "join_all api direction handles completed first_error w = (r, w') \<Longrightarrow>
    reports_objects api direction w w'"
proof (induction api direction handles completed first_error w rule: join_all.induct)
  case (4 api direction message handles completed first_error w)
  then show ?case using reports_objects_trans [OF reports_emit [OF _ refl, of direction "ObjectFailed direction message"]]
    by simp
qed (auto simp: reports_objects_refl)

lemma run_in_order_reports:
  assumes "run_in_order task is results w = (results', w')"
    and "\<And>i v r v'. i \<in> set is \<Longrightarrow> task i v = (r, v') \<Longrightarrow> reports_objects api direction v v'"
  shows "reports_objects api direction w w'"
  using assms
proof (induction "is" arbitrary: results w)
  case (Cons i "is")
  obtain r v where step: "task i w = (r, v)" by fastforce
  with Cons.prems(1) have rest: "run_in_order task is (results(i \<mapsto> r)) v = (results', w')" by simp
  show ?case
    by (rule reports_objects_trans [OF Cons.prems(2) [OF _ step] Cons.IH [OF rest]]) (auto intro: Cons.prems(2))
qed (simp add: reports_objects_refl)

lemma run_tasks_reports:
  assumes "run_tasks api tasks w = (rs, w')"
    and "\<And>i v r v'. i < length tasks \<Longrightarrow> (tasks ! i) v = (r, v') \<Longrightarrow> reports_objects api direction v v'"
  shows "reports_objects api direction w w'"
proof -
  obtain results where run: "run_in_order ((!) tasks) (sort_key (ta_order api (tw_ticks w)) [0..<length tasks])
      Map.empty (w\<lparr>tw_ticks := Suc (tw_ticks w)\<rparr>) = (results, w')"
    using assms(1) by (auto simp: run_tasks_def split: prod.splits)
  have "reports_objects api direction (w\<lparr>tw_ticks := Suc (tw_ticks w)\<rparr>) w'"
    using run by (rule run_in_order_reports) (auto intro: assms(2))
  then show ?thesis by (simp add: reports_def)
qed

lemma download_object_reports: "download_object api target w = (r, w') \<Longrightarrow> reports_objects api Download w w'"
  by (auto simp: download_object_def finish_task_def emit_attempt_progress_def reports_objects_refl
      intro!: reports_emit split: prod.splits http_outcome.splits sum.splits)

lemma download_once_reports:
  assumes "download_once api workspace_id device_id object_ids w = (r, w')"
  shows "reports_objects api Download w w'"
proof (cases "ta_create_object_download_batch api workspace_id device_id object_ids (tw_server w)")
  case (Pair answer s)
  show ?thesis
  proof (cases answer)
    case (Inl e)
    with Pair assms show ?thesis
      by (auto simp: download_once_def attempt_of_call_def act_server_def intro: reports_objects_refl)
  next
    case (Inr targets)
    obtain handles v where run: "run_tasks api (map (download_object api) targets) (w\<lparr>tw_server := s\<rparr>) = (handles, v)"
      by fastforce
    with Inr Pair assms have join: "join_all api Download handles [] None v = (r, w')"
      by (auto simp: download_once_def attempt_of_call_def act_server_def download_attempt_def)
    have "reports_objects api Download (w\<lparr>tw_server := s\<rparr>) v"
      using run by (rule run_tasks_reports) (auto intro: download_object_reports)
    from reports_objects_trans [OF this join_all_reports [OF join]] show ?thesis by (simp add: reports_def)
  qed
qed

lemma emit_progress_reports [simp]:
  "ta_progress_sink api \<Longrightarrow> tw_progress (emit_progress api e w) = tw_progress w @ [e]"
  by (simp add: emit_progress_def)

lemma batch_loop_reports:
  assumes "\<And>v r v'. attempt_once v = (r, v') \<Longrightarrow> reports_objects api direction v v'"
    and "ta_progress_sink api" "a < max_attempts (ta_config api)"
    and "batch_loop api direction total_count attempt_once [a..<max_attempts (ta_config api)] w = (r, w')"
  shows "\<exists>events. tw_progress w' = tw_progress w @ events \<and>
    batch_trace direction total_count (max_attempts (ta_config api)) a (is_ok r) events"
  using assms(3,4)
proof (induction "max_attempts (ta_config api) - a" arbitrary: a w)
  case (Suc n)
  let ?limit = "max_attempts (ta_config api)" and ?start = "BatchStarted direction total_count (checked_count (a + 1)) (checked_count (max_attempts (ta_config api)))"
  obtain x v where once: "attempt_once (emit_progress api ?start w) = (x, v)" by fastforce
  from assms(1) [OF once] assms(2) obtain objects where
    objs: "tw_progress v = tw_progress w @ ?start # objects" "list_all (object_event direction) objects"
    by (auto simp: reports_def)
  have upt: "[a..<?limit] = a # [a + 1..<?limit]" using Suc.prems(1) by (simp add: upt_conv_Cons)
  note run = Suc.prems(2) [unfolded upt batch_loop.simps Let_def once]
  consider y where "x = Inr y" | e where "x = Inl (Fatal e)"
    | m where "x = Inl (Retryable m)" "\<not> a + 1 < ?limit" | m where "x = Inl (Retryable m)" "a + 1 < ?limit"
    by (metis attempt_failure.exhaust sum.exhaust)
  then show ?case
  proof cases
    case 1
    with run assms(2) objs show ?thesis
      using batch_trace.completed [OF Suc.prems(1) objs(2)] by auto
  next
    case 2
    with run assms(2) objs show ?thesis
      using batch_trace.failed [OF Suc.prems(1) objs(2)] by auto
  next
    case 3
    with run assms(2) objs show ?thesis
      using batch_trace.failed [OF Suc.prems(1) objs(2)] by auto
  next
    case 4
    from run 4 obtain at v1 where rest: "batch_loop api direction total_count attempt_once [a + 1..<?limit] v1 = (r, w')"
      and v1: "tw_progress v1 = tw_progress v @ [RetryScheduled direction (checked_count (a + 2)) (checked_count ?limit) at m]"
      using assms(2) by simp
    have "n = ?limit - (a + 1)" using Suc.hyps(2) by arith
    from Suc.hyps(1) [OF this 4(2) rest] obtain events where
      "tw_progress w' = tw_progress v1 @ events" "batch_trace direction total_count ?limit (a + 1) (is_ok r) events" by auto
    with batch_trace.retried [OF 4(2) objs(2) this(2)] v1 objs(1) show ?thesis by auto
  qed
qed simp

section \<open>Delays\<close>

lemma retry_delay_bound:
  assumes "0 < backoff" "backoff * min (attempt + 1) U32_MAX + 1000000000 \<le> DURATION_MAX"
  shows "backoff * min (attempt + 1) U32_MAX \<le> retry_delay seed backoff attempt"
    "4 * retry_delay seed backoff attempt \<le> 5 * (backoff * min (attempt + 1) U32_MAX)"
    "retry_delay seed backoff attempt \<le> backoff * min (attempt + 1) U32_MAX + 1000000000"
proof -
  define base where "base = backoff * min (attempt + 1) U32_MAX"
  define cap where "cap = min (base div 1000000 div 4) 1000"
  define j where "j = seed mod (cap + 1)"
  have j: "j \<le> cap" by (simp add: j_def less_Suc_eq_le [symmetric])
  then have j1: "j \<le> 1000" and j2: "j \<le> base div 1000000 div 4" by (simp_all add: cap_def)
  have "j \<le> base div 4000000" using j2 by (simp add: div_mult2_eq [symmetric])
  then have "j * 4000000 \<le> base div 4000000 * 4000000" by (rule mult_le_mono1)
  then have j4: "4 * (j * 1000000) \<le> base" using div_times_less_eq_dividend [of base 4000000] by linarith
  have b: "min (backoff * min (attempt + 1) U32_MAX) DURATION_MAX = base" using assms(2) by (simp add: base_def)
  have "retry_delay seed backoff attempt = (if cap = 0 then base else min (base + j * 1000000) DURATION_MAX)"
    unfolding retry_delay_def Let_def b cap_def j_def using assms(1) by simp
  moreover have "base + j * 1000000 \<le> DURATION_MAX" using assms(2) j1 by (simp add: base_def)
  ultimately show "backoff * min (attempt + 1) U32_MAX \<le> retry_delay seed backoff attempt"
    "4 * retry_delay seed backoff attempt \<le> 5 * (backoff * min (attempt + 1) U32_MAX)"
    "retry_delay seed backoff attempt \<le> backoff * min (attempt + 1) U32_MAX + 1000000000"
    unfolding base_def [symmetric] using j1 j4 by (auto split: if_splits)
qed


section \<open>Properties\<close>

text \<open>
  C11. A download returns exactly what the server announced: for some answer of the server to the request
  for these objects, in whatever order the requests run, every returned object stands at the place of
  its target, with the target's id and kind, and its bytes have the target's SHA-256 and length.
\<close>
theorem download_objects_intact:
  assumes "download_objects api workspace_id device_id object_ids w = (Inr objects, w')" "object_ids \<noteq> []"
  shows "\<exists>s s' targets. ta_create_object_download_batch api workspace_id device_id object_ids s = (Inr targets, s') \<and>
    list_all2 (intact api) targets objects"
  by (rule download_objects_sound [OF assms])

text \<open>
  C12. When an upload succeeds, the server has confirmed as many objects as were sent, each confirmation is
  for one of them with the SHA-256 and the length of its ciphertext, and, unless the server confirms an
  object twice, every object is confirmed.
\<close>
theorem upload_confirmed:
  assumes "upload_reserved_objects api workspace_id device_id attempt_id objects w = (Inr metas, w')"
  shows "length metas = length objects \<and> (\<forall>m\<in>set metas. \<exists>object\<in>set objects. describes api object m) \<and>
    (distinct (map um_object_id metas) \<longrightarrow> um_object_id ` set metas = ru_object_id ` set objects)"
proof (intro conjI impI)
  note sound = upload_reserved_objects_sound [OF assms]
  show "length metas = length objects" "\<forall>m\<in>set metas. \<exists>object\<in>set objects. describes api object m" by (rule sound)+
  assume d: "distinct (map um_object_id metas)"
  have sub: "set (map um_object_id metas) \<subseteq> set (map ru_object_id objects)"
    using sound(2) by (auto simp: describes_def)
  have "card (set (map ru_object_id objects)) \<le> card (set (map um_object_id metas))"
    using distinct_card [OF d] card_length [of "map ru_object_id objects"] sound(1) by simp
  with sub have "set (map um_object_id metas) = set (map ru_object_id objects)" by (intro card_seteq) auto
  then show "um_object_id ` set metas = ru_object_id ` set objects" by simp
qed

lemma download_batch_trace:
  assumes "download_objects api workspace_id device_id object_ids w = (r, w')"
    and "str_trim workspace_id \<noteq> []" "str_trim device_id \<noteq> []" "object_ids \<noteq> []"
    and "validate_transfer_config (ta_config api) = Inr ()" "ta_progress_sink api"
  shows "\<exists>events. tw_progress w' = tw_progress w @ events \<and>
    batch_trace Download (checked_count (length object_ids)) (max_attempts (ta_config api)) 0 (is_ok r) events"
proof -
  have "0 < max_attempts (ta_config api)" using assms(5) by (auto simp: validate_transfer_config_def split: if_splits)
  moreover have "batch_loop api Download (checked_count (length object_ids))
      (download_once api workspace_id device_id object_ids) [0..<max_attempts (ta_config api)] w = (r, w')"
    using assms(1-4) by (simp add: download_objects_def validate_required_def)
  ultimately show ?thesis
    using batch_loop_reports [OF download_once_reports assms(6)] by fastforce
qed

text \<open>
  A download reports its progress in order: attempts are numbered from 1 and there are at most
  \<open>max_attempts\<close> of them, each is announced, every object is reported inside its attempt, an attempt that
  is not the last one ends with a scheduled retry, and the last event says whether the batch succeeded.
\<close>
theorem download_reports_progress:
  assumes "download_objects api workspace_id device_id object_ids w = (r, w')"
    and "str_trim workspace_id \<noteq> []" "str_trim device_id \<noteq> []" "object_ids \<noteq> []"
    and "validate_transfer_config (ta_config api) = Inr ()" "ta_progress_sink api"
  shows "\<exists>events. tw_progress w' = tw_progress w @ events \<and>
    batch_trace Download (checked_count (length object_ids)) (max_attempts (ta_config api)) 0 (is_ok r) events \<and>
    length (filter is_batch_start events) \<le> max_attempts (ta_config api)"
  using download_batch_trace [OF assms] batch_trace_starts by fastforce

text \<open>
  The delay before a retry grows with the attempt: it is at least the initial backoff times the number
  of the attempt, at most a quarter more, and at most one second more (unless the durations saturate).
\<close>
theorem retry_delay_bounds:
  assumes "0 < backoff" "backoff * min (attempt + 1) U32_MAX + 1000000000 \<le> DURATION_MAX"
  shows "backoff * min (attempt + 1) U32_MAX \<le> retry_delay seed backoff attempt \<and>
    4 * retry_delay seed backoff attempt \<le> 5 * (backoff * min (attempt + 1) U32_MAX) \<and>
    retry_delay seed backoff attempt \<le> backoff * min (attempt + 1) U32_MAX + 1000000000"
  using retry_delay_bound [OF assms] by simp

section \<open>A small server\<close>

text \<open>A server with one object, whose store answers the first request with status 503; it counts requests.\<close>

definition example_transfer_api :: "nat transfer_api" where
  "example_transfer_api =
     \<lparr>ta_reserve_object_ids = (\<lambda>_ _ objects s.
        (Inr (map (\<lambda>x. \<lparr>ro_client_object_ref = ori_client_object_ref x, ro_object_id = ori_client_object_ref x,
          ro_kind = ori_kind x\<rparr>) objects), s)),
      ta_create_object_upload_batch = (\<lambda>_ _ _ ds s.
        (Inr (map (\<lambda>d. \<lparr>ut_object_id = ud_object_id d, ut_put_url = ud_object_id d, ut_required_headers = []\<rparr>) ds), s)),
      ta_complete_object_upload_batch = (\<lambda>_ _ _ cs s.
        (Inr (map (\<lambda>c. \<lparr>oc_object = Some \<lparr>um_object_id = cu_object_id c, um_ciphertext_sha256 = cu_ciphertext_sha256 c,
          um_size_bytes = cu_size_bytes c\<rparr>, oc_error_reason = None\<rparr>) cs), s)),
      ta_create_object_download_batch = (\<lambda>_ _ ids s.
        (Inr (map (\<lambda>i. \<lparr>dt_object_id = i, dt_kind = Object_ContentPack, dt_get_url = i, dt_required_headers = [],
          dt_ciphertext_sha256 = lit ''7'', dt_size_bytes = 1\<rparr>) ids), s)),
      ta_put = (\<lambda>_ s. (HttpOk None, Suc s)),
      ta_get = (\<lambda>_ s. (if s = 0 then HttpError (Status 503 []) else HttpOk [7], Suc s)),
      ta_sha256 = (\<lambda>bs. lit ''7''), ta_clock_ms = (\<lambda>_. None), ta_clock_nanos = (\<lambda>_. 0),
      ta_order = (\<lambda>_ i. i), ta_progress_sink = True, ta_config = default_transfer_config\<rparr>"

definition example_transfer_world :: "nat transfer_world" where
  "example_transfer_world = \<lparr>tw_server = 0, tw_progress = [], tw_ticks = 0\<rparr>"

lemma example_download_once:
  "download_once example_transfer_api ws dev [i] w =
     (if tw_server w = 0
      then (Inl (Retryable (http_error_message (Status 503 []))),
        w\<lparr>tw_server := 1, tw_progress := tw_progress w @ [ObjectFailed Download (http_error_message (Status 503 []))],
           tw_ticks := Suc (tw_ticks w)\<rparr>)
      else (Inr [\<lparr>dl_object_id = i, dl_kind = Object_ContentPack, dl_ciphertext_sha256 = lit ''7'', dl_ciphertext = [7]\<rparr>],
        w\<lparr>tw_server := Suc (tw_server w), tw_progress := tw_progress w @ [ObjectCompleted Download],
           tw_ticks := Suc (tw_ticks w)\<rparr>))"
  by (simp add: download_once_def attempt_of_call_def act_server_def download_attempt_def run_tasks_def
      download_object_def finish_task_def emit_attempt_progress_def from_http_def check_download_def checked_size_def
      i64_try_from_usize_def i64_max_def emit_progress_def example_transfer_api_def del: http_error_message.simps)

lemma example_download:
  "\<exists>w'. download_objects example_transfer_api (lit ''ws'') (lit ''dev'') [i] example_transfer_world =
     (Inr [\<lparr>dl_object_id = i, dl_kind = Object_ContentPack, dl_ciphertext_sha256 = lit ''7'', dl_ciphertext = [7]\<rparr>], w')"
proof -
  have attempts: "max_attempts (ta_config example_transfer_api) = 3" "[0..<3] = [0::nat, 1, 2]"
    by (simp_all add: example_transfer_api_def default_transfer_config_def upt_rec)
  show ?thesis
    unfolding download_objects_def attempts batch_loop.simps
    by (simp add: validate_required_def std_simps Let_def emit_progress_def attempts example_transfer_world_def
        example_download_once)
qed

theorem download_objects_intact_witness:
  "\<exists>objects targets s s'. ta_create_object_download_batch example_transfer_api (lit ''ws'') (lit ''dev'') [lit ''a''] s =
     (Inr targets, s') \<and> list_all2 (intact example_transfer_api) targets objects \<and> objects \<noteq> []"
proof -
  obtain w' where run: "download_objects example_transfer_api (lit ''ws'') (lit ''dev'') [lit ''a''] example_transfer_world =
     (Inr [\<lparr>dl_object_id = lit ''a'', dl_kind = Object_ContentPack, dl_ciphertext_sha256 = lit ''7'', dl_ciphertext = [7]\<rparr>], w')"
    using example_download by blast
  show ?thesis using download_objects_intact [OF run] by blast
qed

theorem download_reports_progress_witness:
  "\<exists>r w'. download_objects example_transfer_api (lit ''ws'') (lit ''dev'') [lit ''a''] example_transfer_world = (r, w') \<and>
     (\<exists>events. tw_progress w' = [] @ events \<and> batch_trace Download (checked_count 1) 3 0 (is_ok r) events \<and>
       length (filter is_batch_start events) \<le> 3)"
proof -
  obtain r w' where run: "download_objects example_transfer_api (lit ''ws'') (lit ''dev'') [lit ''a''] example_transfer_world = (r, w')"
    by fastforce
  have "str_trim (lit ''ws'') \<noteq> []" "str_trim (lit ''dev'') \<noteq> []" by (simp_all add: std_simps)
  moreover have "validate_transfer_config (ta_config example_transfer_api) = Inr ()" "ta_progress_sink example_transfer_api"
    by (simp_all add: example_transfer_api_def default_transfer_config_def validate_transfer_config_def)
  ultimately show ?thesis using run download_reports_progress [OF run]
    by (simp add: example_transfer_api_def default_transfer_config_def example_transfer_world_def)
qed

theorem upload_confirmed_witness:
  "\<exists>metas. length metas = 1 \<and> (\<forall>m\<in>set metas. describes example_transfer_api
     \<lparr>ru_object_id = lit ''a'', ru_kind = Object_ContentPack, ru_ciphertext = [7]\<rparr> m)"
proof -
  let ?o = "\<lparr>ru_object_id = lit ''a'', ru_kind = Object_ContentPack, ru_ciphertext = [7]\<rparr>"
  have attempts: "max_attempts (ta_config example_transfer_api) = 3" "[0..<3] = [0::nat, 1, 2]"
    by (simp_all add: example_transfer_api_def default_transfer_config_def upt_rec)
  have "\<exists>metas w'. upload_reserved_objects example_transfer_api (lit ''ws'') (lit ''dev'') (lit ''up'') [?o] example_transfer_world =
      (Inr metas, w')"
    unfolding upload_reserved_objects_def upload_planned_objects_def attempts
    by (simp add: validate_required_def std_simps Let_def emit_progress_def example_transfer_world_def upload_once_def
        attempt_of_call_def act_server_def upload_attempt_def run_tasks_def upload_one_def finish_task_def act_bind_def
        emit_attempt_progress_def example_transfer_api_def local_reserved_upload_from_def checked_size_def
        i64_try_from_usize_def i64_max_def btree_of_def validate_upload_completions_def check_completion_def)
  then obtain metas w' where run: "upload_reserved_objects example_transfer_api (lit ''ws'') (lit ''dev'') (lit ''up'') [?o]
      example_transfer_world = (Inr metas, w')" by blast
  show ?thesis using upload_confirmed [OF run] by auto
qed

theorem retry_delay_bounds_witness:
  "250000000 \<le> retry_delay 7 250000000 0 \<and> 4 * retry_delay 7 250000000 0 \<le> 5 * 250000000"
  using retry_delay_bounds [of 250000000 0 7] by (simp add: U32_MAX_def DURATION_MAX_def)

end
