(* ===== verification/Sync_Push.thy ===== *)
theory Sync_Push
  imports Sync_Pull Sync_Transfer
begin

text \<open>
  \<open>sync/checkpoint.rs\<close>: publishing local changes. A push scans the vault, plans a commit, reserves object
  ids, encrypts and uploads packs and the commit body, signs and publishes the commit, and records
  it in the database.

  The state is a \<open>push_world\<close>: the file system (only read), the database, the transfer queue with the
  server behind it, and the number of nonces drawn. Parameters, in \<open>push_env\<close>: the server calls
  \<open>get_head\<close> and \<open>publish_commit\<close>, the JSON writers, the random nonces; hashing, cryptography and packing are
  those of \<open>pull_env\<close> (\<open>se_base\<close>).
\<close>

section \<open>When to write a checkpoint\<close>

definition CHECKPOINT_COMMIT_INTERVAL :: int where
  "CHECKPOINT_COMMIT_INTERVAL = 100"

definition CHECKPOINT_INCREMENTAL_BYTES_INTERVAL :: int where
  "CHECKPOINT_INCREMENTAL_BYTES_INTERVAL = 64 * 1024 * 1024"

definition CHECKPOINT_WALL_CLOCK_INTERVAL_MS :: int where
  "CHECKPOINT_WALL_CLOCK_INTERVAL_MS = 7 * 24 * 60 * 60 * 1000"

record checkpoint_trigger_input =
  ck_commits_since_checkpoint :: int
  ck_incremental_encrypted_bytes_since_checkpoint :: int
  ck_now_ms :: int
  ck_last_checkpoint_at_ms :: "int option"
  ck_force :: bool

definition i64_saturating_sub :: "int \<Rightarrow> int \<Rightarrow> int" where
  "i64_saturating_sub a b = max (- 9223372036854775808) (min i64_max (a - b))"

definition should_create_checkpoint :: "checkpoint_trigger_input \<Rightarrow> bool" where
  "should_create_checkpoint input =
     (if ck_force input then True
      else if CHECKPOINT_COMMIT_INTERVAL \<le> ck_commits_since_checkpoint input then True
      else if CHECKPOINT_INCREMENTAL_BYTES_INTERVAL \<le> ck_incremental_encrypted_bytes_since_checkpoint input then True
      else case ck_last_checkpoint_at_ms input of
             None \<Rightarrow> False
           | Some previous \<Rightarrow> CHECKPOINT_WALL_CLOCK_INTERVAL_MS \<le> i64_saturating_sub (ck_now_ms input) previous)"

section \<open>Data\<close>

record published_commit =
  pb_commit_id :: rstr
  pb_head_version :: int
  pb_idempotent :: bool

record publish_commit_input =
  pm_workspace_id :: rstr
  pm_commit_id :: rstr
  pm_commit_kind :: sync_commit_kind
  pm_expected_head_commit_id :: rstr
  pm_parent_commit_ids :: "rstr list"
  pm_author_device_id :: rstr
  pm_device_seq :: int
  pm_body_object_id :: rstr
  pm_body_ciphertext_sha256 :: rstr
  pm_body_size_bytes :: int
  pm_referenced_object_ids :: "rstr list"
  pm_signature :: bytes

record commit_identity =
  ci_workspace_id :: rstr
  ci_author_device_id :: rstr
  ci_device_seq :: int
  ci_commit_kind :: rstr
  ci_expected_head_commit_id :: rstr
  ci_parent_commit_ids :: "rstr list"
  ci_body_object_id :: rstr
  ci_referenced_object_ids :: "rstr list"
  ci_tree_id :: rstr
  ci_changes :: "commit_body_file_op list"

record reserved_commit_objects_t =
  rc_body_object_id :: rstr
  rc_pack_object_ids :: "(rstr \<times> rstr) list"

record push_input =
  ph_vault_id :: rstr
  ph_vault_root :: path
  ph_workspace_id :: rstr
  ph_device_id :: rstr
  ph_workspace_key :: symmetric_key
  ph_signing_key :: bytes
  ph_now_ms :: int

record push_merge_input = push_input +
  ph_local_parent_commit_id :: rstr

record push_result =
  pc_published :: bool
  pc_commit_id :: "rstr option"
  pc_commit_kind :: "commit_plan_kind option"
  pc_uploaded_object_ids :: "rstr list"
  pc_file_op_count :: nat
  pc_idempotent :: bool

record 's push_env =
  se_base :: pull_env
  se_transfer :: "'s transfer_api"
  se_get_head :: "rstr \<Rightarrow> 's \<Rightarrow> sync_head sync_result \<times> 's"
  se_publish_commit :: "publish_commit_input \<Rightarrow> 's \<Rightarrow> published_commit sync_result \<times> 's"
  se_body_vec :: "commit_body \<Rightarrow> rstr + bytes"
  se_plan_vec :: "planned_tree_entry list \<Rightarrow> rstr + bytes"
  se_identity_vec :: "commit_identity \<Rightarrow> rstr + bytes"
  se_signature_vec :: "commit_signature_payload \<Rightarrow> rstr + bytes"
  se_nonce :: "nat \<Rightarrow> bytes"
  se_planner_config :: planner_config

record ('f, 's) push_world =
  sw_fs :: 'f
  sw_db :: sync_db
  sw_transfer :: "'s transfer_world"
  sw_draws :: nat

type_synonym ('f, 's, 'a) push_act = "(('f, 's) push_world, 'a) act"

definition act_push_db :: "(sync_db \<Rightarrow> sync_db sync_result) \<Rightarrow> ('f, 's, unit) push_act" where
  "act_push_db f w = (case f (sw_db w) of Inl e \<Rightarrow> (Inl e, w) | Inr db \<Rightarrow> (Inr (), w\<lparr>sw_db := db\<rparr>))"

definition act_transfer :: "('s, 'a) transfer_act \<Rightarrow> ('f, 's, 'a) push_act" where
  "act_transfer m w = (case m (sw_transfer w) of (r, t) \<Rightarrow> (r, w\<lparr>sw_transfer := t\<rparr>))"

definition act_draw :: "'s push_env \<Rightarrow> ('f, 's, bytes) push_act" where
  "act_draw env w = (Inr (se_nonce env (sw_draws w)), w\<lparr>sw_draws := Suc (sw_draws w)\<rparr>)"

section \<open>Helpers\<close>

fun proto_commit_kind :: "commit_plan_kind \<Rightarrow> sync_commit_kind" where
  "proto_commit_kind Checkpoint = Kind_Checkpoint"
| "proto_commit_kind Incremental = Kind_Incremental"
| "proto_commit_kind MergeCommit = Kind_Merge"

fun plan_kind_label :: "commit_plan_kind \<Rightarrow> rstr" where
  "plan_kind_label Checkpoint = lit ''checkpoint''"
| "plan_kind_label Incremental = lit ''incremental''"
| "plan_kind_label MergeCommit = lit ''merge''"

definition validate_push_input :: "('a) push_input_scheme \<Rightarrow> unit sync_result" where
  "validate_push_input input =
     res_bind (validate_required (ph_vault_id input) (lit ''vault_id'')) (\<lambda>_.
     res_bind (validate_required (ph_workspace_id input) (lit ''workspace_id'')) (\<lambda>_.
     res_bind (validate_required (ph_device_id input) (lit ''device_id'')) (\<lambda>_. Inr ())))"

definition validate_push_merge_input :: "push_merge_input \<Rightarrow> unit sync_result" where
  "validate_push_merge_input input =
     res_bind (validate_required (ph_vault_id input) (lit ''vault_id'')) (\<lambda>_.
     res_bind (validate_required (ph_workspace_id input) (lit ''workspace_id'')) (\<lambda>_.
     res_bind (validate_required (ph_device_id input) (lit ''device_id'')) (\<lambda>_.
     res_bind (validate_required (ph_local_parent_commit_id input) (lit ''local_parent_commit_id'')) (\<lambda>_. Inr ()))))"

definition new_push_vault :: "('a) push_input_scheme \<Rightarrow> sync_head \<Rightarrow> sync_vault_record" where
  "new_push_vault input head =
     \<lparr>sv_vault_id = ph_vault_id input, sv_root_path = path_to_str (ph_vault_root input),
      sv_remote_workspace_id = ph_workspace_id input,
      sv_remote_head_commit_id = empty_to_none (hd_current_head_commit_id head),
      sv_local_head_commit_id = empty_to_none (hd_current_head_commit_id head),
      sv_device_id = ph_device_id input, sv_next_device_seq = 1, sv_enabled = True,
      sv_created_at_ms = ph_now_ms input, sv_updated_at_ms = ph_now_ms input\<rparr>"

definition touched_push_vault :: "('a) push_input_scheme \<Rightarrow> sync_vault_record \<Rightarrow> sync_vault_record" where
  "touched_push_vault input vault =
     (let vault = vault\<lparr>sv_root_path := path_to_str (ph_vault_root input),
            sv_remote_workspace_id := ph_workspace_id input, sv_device_id := ph_device_id input,
            sv_enabled := True, sv_updated_at_ms := ph_now_ms input\<rparr>
      in if sv_next_device_seq vault \<le> 0 then vault\<lparr>sv_next_device_seq := 1\<rparr> else vault)"

definition ensure_vault_record :: "('a) push_input_scheme \<Rightarrow> sync_head \<Rightarrow> ('f, 's, sync_vault_record) push_act" where
  "ensure_vault_record input head =
     act_bind (act_get (\<lambda>w. get_vault (sw_db w) (ph_vault_id input))) (\<lambda>existing.
     let vault = touched_push_vault input (case existing of Some vault \<Rightarrow> vault | None \<Rightarrow> new_push_vault input head)
     in act_bind (act_push_db (\<lambda>db. Inr (upsert_vault db vault))) (\<lambda>_. act_lift (Inr vault)))"

definition ensure_merge_vault_record :: "('a) push_input_scheme \<Rightarrow> sync_head \<Rightarrow> ('f, 's, sync_vault_record) push_act" where
  "ensure_merge_vault_record input head =
     act_bind (act_get (\<lambda>w. get_vault (sw_db w) (ph_vault_id input))) (\<lambda>existing.
     let vault = touched_push_vault input
           ((case existing of Some vault \<Rightarrow> vault | None \<Rightarrow> new_push_vault input head)
              \<lparr>sv_remote_head_commit_id := empty_to_none (hd_current_head_commit_id head)\<rparr>)
     in act_bind (act_push_db (\<lambda>db. Inr (upsert_vault db vault))) (\<lambda>_. act_lift (Inr vault)))"

definition ensure_local_head_can_push :: "sync_vault_record \<Rightarrow> rstr \<Rightarrow> unit sync_result" where
  "ensure_local_head_can_push vault remote_head =
     (if remote_head \<noteq> [] \<and> local_head_of vault \<noteq> remote_head
      then Inl (Transport (lit ''remote head '' @ remote_head @
        lit '' is not present locally; pull is required before push''))
      else Inr ())"

definition ensure_merge_parent_can_push :: "sync_vault_record \<Rightarrow> rstr \<Rightarrow> rstr \<Rightarrow> unit sync_result" where
  "ensure_merge_parent_can_push vault remote_head local_parent_commit_id =
     (if remote_head = [] then Inl (InvalidArgument (lit ''merge commit requires a remote head''))
      else if remote_head = local_parent_commit_id
      then Inl (InvalidArgument (lit ''merge commit requires a distinct local parent''))
      else ensure_local_head_can_push vault remote_head)"

definition parent_ids :: "rstr \<Rightarrow> rstr list" where
  "parent_ids expected_head = (if expected_head = [] then [] else [expected_head])"

definition COMMIT_BODY_REF :: rstr where
  "COMMIT_BODY_REF = lit ''commit-body''"

fun collect_reserved :: "reserved_object list \<Rightarrow> rstr option \<times> (rstr \<times> rstr) list \<Rightarrow> rstr option \<times> (rstr \<times> rstr) list" where
  "collect_reserved [] st = st"
| "collect_reserved (object # objects) (body, packs) =
     (if ro_client_object_ref object = COMMIT_BODY_REF
      then collect_reserved objects (Some (ro_object_id object), packs)
      else collect_reserved objects (body, bt_insert (ro_client_object_ref object) (ro_object_id object) packs))"

definition reserved_commit_objects :: "reserved_object list \<Rightarrow> reserved_commit_objects_t sync_result" where
  "reserved_commit_objects reserved =
     (case collect_reserved reserved (None, []) of (body_object_id, pack_object_ids) \<Rightarrow>
        res_bind (ok_or body_object_id (Transport (lit ''missing reserved commit body object''))) (\<lambda>body_object_id.
        Inr \<lparr>rc_body_object_id = body_object_id, rc_pack_object_ids = pack_object_ids\<rparr>))"

definition reservation_requests :: "sync_plan \<Rightarrow> (object_reservation_input list) sync_result" where
  "reservation_requests plan =
     res_bind (res_map (\<lambda>shard. res_bind (object_kind_for_pack_kind (ps_pack_kind shard)) (\<lambda>kind.
       Inr \<lparr>ori_client_object_ref = ps_pack_ref shard, ori_kind = kind\<rparr>)) (pl_pack_shards plan)) (\<lambda>requests.
     Inr (requests @ [\<lparr>ori_client_object_ref = COMMIT_BODY_REF, ori_kind = Object_CommitBody\<rparr>]))"

definition reserve_commit_objects ::
  "'s push_env \<Rightarrow> rstr \<Rightarrow> rstr \<Rightarrow> sync_plan \<Rightarrow> ('f, 's, reserved_commit_objects_t) push_act" where
  "reserve_commit_objects env workspace_id device_id plan =
     act_bind (act_lift (reservation_requests plan)) (\<lambda>requests.
     act_bind (act_transfer (act_server (ta_reserve_object_ids (se_transfer env) workspace_id device_id requests))) (\<lambda>reserved.
     act_lift (reserved_commit_objects reserved)))"

definition missing_pack :: "rstr \<Rightarrow> sync_error" where
  "missing_pack pack_ref = Transport (lit ''missing reserved pack object for '' @ pack_ref)"

fun materialize_op :: "reserved_commit_objects_t \<Rightarrow> plan_file_op \<Rightarrow> file_tree \<Rightarrow> file_tree sync_result" where
  "materialize_op reserved (Upsert file_id path normalized_path plaintext_hash size_bytes pack_ref entry_id) by_file_id =
     res_bind (ok_or (bt_get (rc_pack_object_ids reserved) pack_ref) (missing_pack pack_ref)) (\<lambda>object_id.
     Inr (bt_insert file_id
       \<lparr>te_commit_id = [], te_file_id = file_id, te_normalized_path = normalized_path,
        te_plaintext_hash = Some plaintext_hash, te_content_object_id = Some object_id,
        te_pack_entry_id = Some entry_id, te_kind = FILE_KIND_MARKDOWN\<rparr> by_file_id))"
| "materialize_op reserved (Delete file_id path normalized_path) by_file_id = Inr (bt_remove file_id by_file_id)"

definition materialize_tree_entries ::
  "sync_db \<Rightarrow> rstr \<Rightarrow> sync_plan \<Rightarrow> reserved_commit_objects_t \<Rightarrow> (sync_tree_entry_record list) sync_result" where
  "materialize_tree_entries db expected_head plan reserved =
     (let by_file_id = if expected_head = [] then [] else bt_collect te_file_id (list_tree_entries db expected_head)
      in res_bind (res_fold (materialize_op reserved) (pl_file_ops plan) by_file_id) (\<lambda>by_file_id.
         Inr (sort_key te_normalized_path (bt_values by_file_id))))"

fun commit_body_file_op_of :: "reserved_commit_objects_t \<Rightarrow> plan_file_op \<Rightarrow> commit_body_file_op sync_result" where
  "commit_body_file_op_of reserved (Upsert file_id path normalized_path plaintext_hash size_bytes pack_ref entry_id) =
     res_bind (ok_or (bt_get (rc_pack_object_ids reserved) pack_ref) (missing_pack pack_ref)) (\<lambda>object_id.
     Inr (UpsertFile file_id path normalized_path plaintext_hash size_bytes
       \<lparr>cr_object_id = object_id, cr_entry_id = entry_id\<rparr>))"
| "commit_body_file_op_of reserved (Delete file_id path normalized_path) = Inr (DeleteFile file_id path normalized_path)"

definition commit_body_file_ops :: "sync_plan \<Rightarrow> reserved_commit_objects_t \<Rightarrow> (commit_body_file_op list) sync_result" where
  "commit_body_file_ops plan reserved = res_map (commit_body_file_op_of reserved) (pl_file_ops plan)"

definition commit_body_pack_refs :: "sync_plan \<Rightarrow> reserved_commit_objects_t \<Rightarrow> commit_body_pack_ref list" where
  "commit_body_pack_refs plan reserved =
     List.map_filter (\<lambda>shard.
       map_option (\<lambda>object_id.
         \<lparr>pr_pack_ref = ps_pack_ref shard, pr_object_id = object_id, pr_pack_kind = ps_pack_kind shard,
          pr_shard_index = ps_shard_index shard, pr_entry_count = length (ps_entries shard)\<rparr>)
       (bt_get (rc_pack_object_ids reserved) (ps_pack_ref shard))) (pl_pack_shards plan)"

definition commit_id_for :: "'s push_env \<Rightarrow> commit_identity \<Rightarrow> rstr sync_result" where
  "commit_id_for env identity =
     res_bind (json_result (se_identity_vec env identity)) (\<lambda>json.
     Inr (lit ''commit_'' @ take 32 (ev_hash (se_base env) json)))"

definition plan_op_file_id :: "plan_file_op \<Rightarrow> rstr" where
  "plan_op_file_id op = (case op of Upsert file_id _ _ _ _ _ _ \<Rightarrow> file_id | Delete file_id _ _ \<Rightarrow> file_id)"

text \<open>A \<open>BTreeSet\<close> read in order.\<close>

definition plan_changed_file_ids :: "sync_plan \<Rightarrow> rstr list" where
  "plan_changed_file_ids plan = sort (remdups (map plan_op_file_id (pl_file_ops plan)))"

section \<open>Uploads\<close>

definition encrypted_pack_upload ::
  "'s push_env \<Rightarrow> ('a) push_input_scheme \<Rightarrow> rstr \<Rightarrow> reserved_commit_objects_t \<Rightarrow> pack_shard_plan
    \<Rightarrow> reserved_encrypted_upload_object list \<Rightarrow> ('f, 's, reserved_encrypted_upload_object list) push_act" where
  "encrypted_pack_upload env input commit_id reserved shard uploads =
     act_bind (act_lift (ok_or (bt_get (rc_pack_object_ids reserved) (ps_pack_ref shard)) (missing_pack (ps_pack_ref shard))))
       (\<lambda>object_id.
     act_bind (act_draw env) (\<lambda>nonce.
     act_bind (act_lift (encrypt_pack (ev_pack (se_base env)) (ev_prims (se_base env)) (ev_pack_json (se_base env))
       (ph_workspace_key input) (ph_workspace_id input) object_id (ps_pack_kind shard) commit_id (pack_entries shard) nonce))
       (\<lambda>encrypted.
     act_bind (act_lift (object_kind_for_pack_kind (ps_pack_kind shard))) (\<lambda>kind.
     act_lift (Inr (uploads @ [\<lparr>ru_object_id = object_id, ru_kind = kind, ru_ciphertext = ep_blob encrypted\<rparr>]))))))"

definition encrypted_uploads ::
  "'s push_env \<Rightarrow> ('a) push_input_scheme \<Rightarrow> rstr \<Rightarrow> rstr \<Rightarrow> rstr list \<Rightarrow> int \<Rightarrow> reserved_commit_objects_t \<Rightarrow> sync_plan
    \<Rightarrow> commit_body \<Rightarrow> ('f, 's, reserved_encrypted_upload_object list) push_act" where
  "encrypted_uploads env input commit_id commit_kind parents device_seq reserved plan commit_body =
     act_bind (act_fold (encrypted_pack_upload env input commit_id reserved) (pl_pack_shards plan) []) (\<lambda>uploads.
     let commit_key = commit_body_key (ev_prims (se_base env)) (ph_workspace_key input) (ph_workspace_id input);
         aad = commit_body_aad_new (ph_workspace_id input) commit_id commit_kind parents (ph_device_id input) device_seq
           (rc_body_object_id reserved)
     in
     act_bind (act_lift (json_result (se_body_vec env commit_body))) (\<lambda>body_plaintext.
     act_bind (act_draw env) (\<lambda>nonce.
     act_bind (act_lift (encrypt_commit_body (ev_prims (se_base env)) (ev_body_json (se_base env)) commit_key aad
       body_plaintext nonce)) (\<lambda>body_blob.
     act_lift (Inr (uploads @ [\<lparr>ru_object_id = rc_body_object_id reserved, ru_kind = Object_CommitBody,
       ru_ciphertext = body_blob\<rparr>]))))))"

section \<open>Publishing\<close>

definition apply_publish_success ::
  "'s push_env \<Rightarrow> rstr \<Rightarrow> published_commit \<Rightarrow> commit_plan_kind \<Rightarrow> rstr list \<Rightarrow> rstr \<Rightarrow> sync_tree_entry_record list
    \<Rightarrow> sync_plan \<Rightarrow> int \<Rightarrow> int \<Rightarrow> ('f, 's, unit) push_act" where
  "apply_publish_success env vault_id published plan_kind parents tree_id tree_entries plan device_seq now =
     (let entries = map (\<lambda>entry. if te_commit_id entry = [] then entry\<lparr>te_commit_id := pb_commit_id published\<rparr> else entry)
            tree_entries
      in
      act_bind (act_lift (tree_json_for_entries (ev_tree_string (se_base env)) entries)) (\<lambda>tree_json.
      act_bind (act_push_db (\<lambda>db. persist_tree_cache db (pb_commit_id published) tree_id tree_json (lit ''local'') entries now)) (\<lambda>_.
      act_bind (act_push_db (\<lambda>db. Inr (mark_files_synced db (pb_commit_id published) (plan_changed_file_ids plan)))) (\<lambda>_.
      act_bind (act_lift (json_result (ev_parents_json (se_base env) parents))) (\<lambda>parents_json.
      act_bind (act_push_db (\<lambda>db. Inr (upsert_local_commit db
        \<lparr>sc_commit_id = pb_commit_id published, sc_parent_commit_ids_json = parents_json,
         sc_commit_kind = plan_kind_label plan_kind, sc_direction = lit ''local'', sc_status = lit ''published'',
         sc_created_at_ms = now, sc_applied_at_ms = Some now, sc_error = None\<rparr>))) (\<lambda>_.
      act_push_db (\<lambda>db. Inr (update_vault_after_publish db vault_id (pb_commit_id published) (i64_add device_seq 1) now))))))))"

definition nothing_pushed :: push_result where
  "nothing_pushed = \<lparr>pc_published = False, pc_commit_id = None, pc_commit_kind = None, pc_uploaded_object_ids = [],
     pc_file_op_count = 0, pc_idempotent = False\<rparr>"

definition commit_body_of ::
  "rstr \<Rightarrow> rstr \<Rightarrow> rstr list \<Rightarrow> rstr \<Rightarrow> commit_body_file_op list \<Rightarrow> sync_plan \<Rightarrow> reserved_commit_objects_t \<Rightarrow> commit_body" where
  "commit_body_of commit_id commit_kind parents tree_id changes plan reserved =
     \<lparr>bd_format = lit ''kuku.sync.commit-body'', bd_version = 1, bd_commit_id = commit_id, bd_commit_kind = commit_kind,
      bd_parent_commit_ids = parents, bd_tree_id = tree_id, bd_changes = changes,
      bd_packs = commit_body_pack_refs plan reserved\<rparr>"

text \<open>
  The part that \<open>push_local_changes\<close> and \<open>push_merge_commit\<close> share, from the reservation of object ids to
  the result.
\<close>

definition publish_plan ::
  "'s push_env \<Rightarrow> ('a) push_input_scheme \<Rightarrow> sync_vault_record \<Rightarrow> rstr \<Rightarrow> rstr list \<Rightarrow> commit_plan_kind \<Rightarrow> sync_plan
    \<Rightarrow> ('f, 's, push_result) push_act" where
  "publish_plan env input vault expected_head parents plan_kind plan =
     act_bind (reserve_commit_objects env (ph_workspace_id input) (ph_device_id input) plan) (\<lambda>reserved.
     let referenced_object_ids = sort (bt_values (rc_pack_object_ids reserved)); commit_kind = plan_kind_label plan_kind;
         device_seq = sv_next_device_seq vault
     in
     act_bind (\<lambda>w. act_lift (materialize_tree_entries (sw_db w) expected_head plan reserved) w) (\<lambda>tree_entries.
     act_bind (act_lift (tree_id_for_entries (ev_hash (se_base env)) (ev_tree_vec (se_base env)) tree_entries)) (\<lambda>tree_id.
     act_bind (act_lift (commit_body_file_ops plan reserved)) (\<lambda>changes.
     act_bind (act_lift (commit_id_for env
       \<lparr>ci_workspace_id = ph_workspace_id input, ci_author_device_id = ph_device_id input, ci_device_seq = device_seq,
        ci_commit_kind = commit_kind, ci_expected_head_commit_id = expected_head, ci_parent_commit_ids = parents,
        ci_body_object_id = rc_body_object_id reserved, ci_referenced_object_ids = referenced_object_ids,
        ci_tree_id = tree_id, ci_changes = changes\<rparr>)) (\<lambda>commit_id.
     act_bind (encrypted_uploads env input commit_id commit_kind parents device_seq reserved plan
       (commit_body_of commit_id commit_kind parents tree_id changes plan reserved)) (\<lambda>uploads.
     act_bind (act_transfer (upload_reserved_objects (se_transfer env) (ph_workspace_id input) (ph_device_id input)
       (lit ''upload_'' @ commit_id) uploads)) (\<lambda>uploaded.
     act_bind (act_lift (ok_or (find (\<lambda>object. um_object_id object = rc_body_object_id reserved) uploaded)
       (Transport (lit ''commit body upload metadata missing'')))) (\<lambda>body_metadata.
     act_bind (act_lift (sign_commit_payload (ev_prims (se_base env)) (se_signature_vec env) (ph_signing_key input)
       (commit_signature_payload_new (ph_workspace_id input) commit_id commit_kind expected_head parents
         (ph_device_id input) device_seq (rc_body_object_id reserved) (um_ciphertext_sha256 body_metadata)
         (um_size_bytes body_metadata) referenced_object_ids))) (\<lambda>signature.
     act_bind (act_transfer (act_server (se_publish_commit env
       \<lparr>pm_workspace_id = ph_workspace_id input, pm_commit_id = commit_id, pm_commit_kind = proto_commit_kind plan_kind,
        pm_expected_head_commit_id = expected_head, pm_parent_commit_ids = parents,
        pm_author_device_id = ph_device_id input, pm_device_seq = device_seq,
        pm_body_object_id = rc_body_object_id reserved, pm_body_ciphertext_sha256 = um_ciphertext_sha256 body_metadata,
        pm_body_size_bytes = um_size_bytes body_metadata, pm_referenced_object_ids = referenced_object_ids,
        pm_signature = signature\<rparr>))) (\<lambda>published.
     act_bind (apply_publish_success env (ph_vault_id input) published plan_kind parents tree_id tree_entries plan
       device_seq (ph_now_ms input)) (\<lambda>_.
     act_lift (Inr \<lparr>pc_published = True, pc_commit_id = Some commit_id, pc_commit_kind = Some plan_kind,
       pc_uploaded_object_ids = map um_object_id uploaded, pc_file_op_count = length (pl_file_ops plan),
       pc_idempotent = pb_idempotent published\<rparr>))))))))))))"

definition scan_for_push ::
  "'f os_api \<Rightarrow> 's push_env \<Rightarrow> ('a) push_input_scheme \<Rightarrow> ('f, 's, scanned_file list \<times> scan_apply_result) push_act" where
  "scan_for_push os env input =
     act_bind (\<lambda>w. act_lift (scan_vault (ev_hash (se_base env)) (ev_lower (se_base env)) (ph_vault_root input)
       (os_root os (sw_fs w) (ph_vault_root input))) w) (\<lambda>scanned_files.
     act_bind (\<lambda>w. case apply_scan (ev_hash (se_base env)) (sw_db w) (map file_input scanned_files) (ph_now_ms input) of
         Inl e \<Rightarrow> (Inl e, w)
       | Inr (db, scan_result) \<Rightarrow> (Inr scan_result, w\<lparr>sw_db := db\<rparr>)) (\<lambda>scan_result.
     act_lift (Inr (scanned_files, scan_result))))"

definition push_local_changes :: "'f os_api \<Rightarrow> 's push_env \<Rightarrow> push_input \<Rightarrow> ('f, 's, push_result) push_act" where
  "push_local_changes os env input =
     act_bind (act_lift (validate_push_input input)) (\<lambda>_.
     act_bind (act_transfer (act_server (se_get_head env (ph_workspace_id input)))) (\<lambda>head.
     act_bind (ensure_vault_record input head) (\<lambda>vault.
     let expected_head = hd_current_head_commit_id head in
     act_bind (act_lift (ensure_local_head_can_push vault expected_head)) (\<lambda>_.
     act_bind (scan_for_push os env input) (\<lambda>(scanned_files, scan_result).
     let plan_kind = if expected_head = [] then Checkpoint else Incremental in
     act_bind (act_lift
       (if expected_head = []
        then plan_checkpoint (ev_hash (se_base env)) (se_plan_vec env) scanned_files (se_planner_config env)
        else plan_incremental (ev_hash (se_base env)) (se_plan_vec env) scan_result scanned_files (se_planner_config env)))
       (\<lambda>plan.
     if plan_is_empty plan then act_lift (Inr nothing_pushed)
     else publish_plan env input vault expected_head (parent_ids expected_head) plan_kind plan))))))"

definition push_merge_commit :: "'f os_api \<Rightarrow> 's push_env \<Rightarrow> push_merge_input \<Rightarrow> ('f, 's, push_result) push_act" where
  "push_merge_commit os env input =
     act_bind (act_lift (validate_push_merge_input input)) (\<lambda>_.
     act_bind (act_transfer (act_server (se_get_head env (ph_workspace_id input)))) (\<lambda>head.
     act_bind (ensure_merge_vault_record input head) (\<lambda>vault.
     let expected_head = hd_current_head_commit_id head in
     act_bind (act_lift (ensure_merge_parent_can_push vault expected_head (ph_local_parent_commit_id input))) (\<lambda>_.
     act_bind (scan_for_push os env input) (\<lambda>(scanned_files, scan_result).
     act_bind (act_lift (plan_incremental (ev_hash (se_base env)) (se_plan_vec env) scan_result scanned_files
       (se_planner_config env))) (\<lambda>plan.
     let plan = plan\<lparr>pl_commit_kind := MergeCommit\<rparr> in
     if plan_is_empty plan then act_lift (Inr nothing_pushed)
     else publish_plan env input vault expected_head [expected_head, ph_local_parent_commit_id input] MergeCommit plan))))))"

end
