(* ===== verification/Sync_Publish.thy ===== *)
theory Sync_Publish
  imports Sync_Push
begin

text \<open>
  What a push publishes. The plans the planner makes of a scanned vault are publishable, the objects
  that are uploaded decrypt to the planned packs, and the commit body describes exactly the tree that the
  pushing device stores; the theory ends with the acceptance of a published commit by the device that
  pulls it. The pipeline itself is in \<^verbatim>\<open>Sync_Push\<close>, the whole push in
  \<^verbatim>\<open>Sync_Push_Run\<close>.
\<close>

section \<open>Reserved objects\<close>

text \<open>
  What is used of the server: it reserves one object for each request, in order, with distinct ids; and the
  commit it reports as published is the one that was sent.
\<close>

definition reserves_exactly :: "object_reservation_input list \<Rightarrow> reserved_object list \<Rightarrow> bool" where
  "reserves_exactly requests reserved \<longleftrightarrow>
     map ro_client_object_ref reserved = map ori_client_object_ref requests \<and> distinct (map ro_object_id reserved)"

lemma collect_reserved_fold:
  "collect_reserved objects (body, packs) =
     (fold (\<lambda>x b. if ro_client_object_ref x = COMMIT_BODY_REF then Some (ro_object_id x) else b) objects body,
      fold (\<lambda>(k, v). bt_insert k v) (map (\<lambda>x. (ro_client_object_ref x, ro_object_id x))
        (filter (\<lambda>x. ro_client_object_ref x \<noteq> COMMIT_BODY_REF) objects)) packs)"
  by (induction objects "(body, packs)" arbitrary: body packs rule: collect_reserved.induct) auto

lemma reserved_commit_objects_exact:
  assumes "reserved_commit_objects objects = Inr reserved"
    and "map ro_client_object_ref objects = refs @ [COMMIT_BODY_REF]"
    and "distinct refs" "COMMIT_BODY_REF \<notin> set refs" "distinct (map ro_object_id objects)"
  shows "bt_ordered (rc_pack_object_ids reserved)" "fst ` set (rc_pack_object_ids reserved) = set refs"
    "distinct (map snd (rc_pack_object_ids reserved))" "rc_body_object_id reserved \<notin> snd ` set (rc_pack_object_ids reserved)"
proof -
  from assms(2) obtain packs body where o: "objects = packs @ [body]" "map ro_client_object_ref packs = refs"
    "ro_client_object_ref body = COMMIT_BODY_REF" by (auto simp: map_eq_append_conv)
  let ?pairs = "map (\<lambda>x. (ro_client_object_ref x, ro_object_id x)) packs"
  let ?m = "rc_pack_object_ids reserved"
  have "filter (\<lambda>x. ro_client_object_ref x \<noteq> COMMIT_BODY_REF) packs = packs"
    using o(2) assms(4) by (force simp: filter_id_conv)
  then have m: "?m = fold (\<lambda>(k, v). bt_insert k v) ?pairs []" and b: "rc_body_object_id reserved = ro_object_id body"
    using assms(1) o by (auto simp: reserved_commit_objects_def collect_reserved_fold)
  show ord: "bt_ordered ?m" unfolding m by (rule btree.insert_all_inv [OF btree.inv_empty])
  have d: "distinct (map fst ?pairs)" using o(2) assms(3) by (simp add: o_def)
  have "bt_get ?m = map_of (rev ?pairs)"
    unfolding m using btree.get_insert_all [OF btree.inv_empty] by (simp add: btree.get_empty_map)
  then have "bt_get ?m k = Some v \<longleftrightarrow> (k, v) \<in> set ?pairs" for k v
    using d by (simp add: map_of_eq_Some_iff rev_map [symmetric])
  then have s: "set ?m = set ?pairs" using bt_get_Some_iff [OF ord] by auto
  then show "fst ` set ?m = set refs" using o(2) by (force simp flip: o(2))
  have "distinct ?m" "distinct ?pairs" using bt_ordered_distinct [OF ord] d distinct_map by blast+
  with s have "mset ?m = mset ?pairs" using set_eq_iff_mset_eq_distinct by blast
  then have ms: "mset (map snd ?m) = mset (map snd ?pairs)" by (metis mset_map)
  have "distinct (map snd ?pairs)" "ro_object_id body \<notin> set (map snd ?pairs)" using assms(5) o(1) by (auto simp: o_def)
  with ms show "distinct (map snd ?m)" "rc_body_object_id reserved \<notin> snd ` set ?m"
    unfolding b by (metis mset_eq_imp_distinct_iff, metis mset_eq_setD list.set_map)
qed

section \<open>Plans that can be published\<close>

fun op_publishable :: "(bytes \<Rightarrow> rstr) \<Rightarrow> (rstr \<Rightarrow> rstr) \<Rightarrow> pack_shard_plan list \<Rightarrow> plan_file_op \<Rightarrow> bool" where
  "op_publishable hash lower shards (Upsert file_id path normalized_path plaintext_hash size_bytes pack_ref entry_id) \<longleftrightarrow>
     validate_remote_file_identity hash lower file_id path normalized_path = Inr () \<and>
     (\<exists>s\<in>set shards. ps_pack_ref s = pack_ref \<and> (\<exists>e\<in>set (ps_entries s). pe_entry_id e = entry_id \<and>
        validate_plaintext_metadata hash path (pe_plaintext e) plaintext_hash size_bytes = Inr ()))"
| "op_publishable hash lower shards (Delete file_id path normalized_path) \<longleftrightarrow>
     validate_remote_file_identity hash lower file_id path normalized_path = Inr ()"

definition plan_publishable :: "(bytes \<Rightarrow> rstr) \<Rightarrow> (rstr \<Rightarrow> rstr) \<Rightarrow> sync_plan \<Rightarrow> bool" where
  "plan_publishable hash lower plan \<longleftrightarrow> distinct (map ps_pack_ref (pl_pack_shards plan)) \<and>
     COMMIT_BODY_REF \<notin> ps_pack_ref ` set (pl_pack_shards plan) \<and>
     (\<forall>op\<in>set (pl_file_ops plan). op_publishable hash lower (pl_pack_shards plan) op)"

lemma assign_loop_refs:
  assumes "assign_loop hash kind config files ss cur bytes = Inr result"
    and "map ps_pack_ref ss = map (\<lambda>i. kind @ lit ''-'' @ nat_digits i) [0..<length ss]"
  shows "map ps_pack_ref result = map (\<lambda>i. kind @ lit ''-'' @ nat_digits i) [0..<length result]"
  using assms
  by (induction hash kind config files ss cur bytes rule: assign_loop.induct)
    (auto simp: pack_shard_def split: if_splits)

lemma assign_pack_entries_refs:
  assumes "assign_pack_entries hash files kind config = Inr shards" "kind = CONTENT_PACK_KIND \<or> kind = CHECKPOINT_PACK_KIND"
  shows "distinct (map ps_pack_ref shards)" "COMMIT_BODY_REF \<notin> ps_pack_ref ` set shards"
proof -
  have r: "map ps_pack_ref shards = map (\<lambda>i. kind @ lit ''-'' @ nat_digits i) [0..<length shards]"
    by (rule assign_loop_refs [OF assms(1) [unfolded assign_pack_entries_def]]) simp
  have "inj (\<lambda>i. kind @ lit ''-'' @ nat_digits i)" using nat_digits_inj by (auto simp: inj_def)
  then show "distinct (map ps_pack_ref shards)" unfolding r by (auto simp: distinct_map intro: inj_on_subset)
  have "COMMIT_BODY_REF \<notin> set (map ps_pack_ref shards)"
    unfolding r using assms(2) by (auto simp: COMMIT_BODY_REF_def CONTENT_PACK_KIND_def CHECKPOINT_PACK_KIND_def)
  then show "COMMIT_BODY_REF \<notin> ps_pack_ref ` set shards" by simp
qed

text \<open>A scanned file that another device will accept.\<close>

definition file_publishable :: "(bytes \<Rightarrow> rstr) \<Rightarrow> (rstr \<Rightarrow> rstr) \<Rightarrow> scanned_file \<Rightarrow> bool" where
  "file_publishable hash lower f \<longleftrightarrow>
     validate_remote_file_identity hash lower (scf_file_id f) (scf_path f) (scf_normalized_path f) = Inr () \<and>
     validate_plaintext_metadata hash (scf_path f) (scf_plaintext f) (scf_plaintext_hash f) (scf_size_bytes f) = Inr ()"

definition row_publishable :: "(bytes \<Rightarrow> rstr) \<Rightarrow> (rstr \<Rightarrow> rstr) \<Rightarrow> sync_file_record \<Rightarrow> bool" where
  "row_publishable hash lower r \<longleftrightarrow>
     validate_remote_file_identity hash lower (sf_file_id r) (sf_path r) (sf_normalized_path r) = Inr ()"

lemma file_id_not_blank: "str_trim (file_id_for_normalized_path hash n) \<noteq> []"
  by (auto simp: file_id_for_normalized_path_def str_trim_eq_Nil is_whitespace_def)

lemma scanned_publishable:
  assumes "lower_ok lower" "fs_wf (FsDir es err)" "scan_vault hash lower root (Inr (FsDir es err)) = Inr files"
    and "\<forall>w\<in>fs_names (FsDir es err). backslash \<notin> set w"
    and "f \<in> set files"
  shows "file_publishable hash lower f"
proof -
  from assms(5) obtain ws data where e: "(ws, data) \<in> eligible [] es"
    and run: "scan_file hash lower root (root @ map Normal ws) data = Inr f"
    unfolding scan_vault_Inr(3) [OF assms(3,2)] by auto
  have ws: "is_markdown_path (map Normal ws)" "ws \<noteq> []" using e by (auto simp: eligible_def)
  have look: "fs_lookup (FsDir es err) ws = Some (FsFile data)" using eligible_lookup [OF assms(2)] e by blast
  have good: "list_all good_segment ws" using fs_lookup_wf [OF assms(2) look] by blast
  have path: "scf_path f = to_relative_path root (root @ map Normal ws)"
    "normalize_vault_relative_path lower (scf_path f) = Inr (scf_normalized_path f)"
    "scf_file_id f = file_id_for_normalized_path hash (scf_normalized_path f)"
    "scf_plaintext_hash f = hash (scf_plaintext f)" "i64_try_from_usize (length (scf_plaintext f)) = Some (scf_size_bytes f)"
    using run by (auto simp: scan_file_def Let_def res_bind_eq_Inr split: option.splits sum.splits)
  have "path_components (scf_path f) = map Normal ws"
    unfolding path(1) using to_relative_components [OF ws(2) good] assms(4) fs_lookup_names [OF look] by blast
  moreover have "str_trim (scf_path f) \<noteq> []"
    using scan_file_valid [OF assms(1) ws run] by (auto simp: validate_file_input_def file_input_def split: if_splits)
  ultimately show ?thesis using path ws(1) file_id_not_blank
    by (auto simp: file_publishable_def validate_remote_file_identity_def validate_required_def validate_plaintext_metadata_def)
qed

lemma planned_publishable:
  assumes "assign_pack_entries hash files kind config = Inr shards"
    and "kind = CONTENT_PACK_KIND \<or> kind = CHECKPOINT_PACK_KIND" "distinct (map scf_normalized_path files)"
    and "\<And>f. f \<in> set files \<Longrightarrow> file_publishable hash lower f"
    and "\<And>r. r \<in> set deletions \<Longrightarrow> row_publishable hash lower r"
    and "build_plan hash to_vec commit_kind files deletions shards = Inr plan"
  shows "plan_publishable hash lower plan"
proof -
  have shards: "pl_pack_shards plan = shards"
    and ops: "set (pl_file_ops plan) = snd ` plan_pair (entry_refs shards) ` set files \<union> plan_delete ` set deletions"
    using assms(6) plan_upserts_ok [OF assms(1,3)] by (auto simp: build_plan_def Let_def res_bind_eq_Inr)
  have "op_publishable hash lower shards (snd (plan_pair (entry_refs shards) f))" if f: "f \<in> set files" for f
  proof -
    obtain r i where ri: "entry_refs shards (scf_normalized_path f) = Some (r, i)" "stored_at hash shards f r i"
      using entry_refs_stored [OF assms(1,3) f] by blast
    then show ?thesis using assms(4) [OF f]
      by (force simp: plan_pair_def plan_upsert_def file_publishable_def stored_at_def entry_of_file_def)
  qed
  moreover have "op_publishable hash lower shards (plan_delete r)" if "r \<in> set deletions" for r
    using assms(5) [OF that] by (simp add: plan_delete_def row_publishable_def)
  ultimately show ?thesis using assign_pack_entries_refs [OF assms(1,2)] shards ops by (auto simp: plan_publishable_def)
qed

lemma plan_checkpoint_publishable:
  assumes "plan_checkpoint hash to_vec files config = Inr plan" "distinct (map scf_normalized_path files)"
    and "\<And>f. f \<in> set files \<Longrightarrow> file_publishable hash lower f"
  shows "plan_publishable hash lower plan"
proof -
  from assms(1) obtain shards where "assign_pack_entries hash files CHECKPOINT_PACK_KIND config = Inr shards"
    "build_plan hash to_vec Checkpoint files [] shards = Inr plan"
    by (auto simp: plan_checkpoint_def res_bind_eq_Inr)
  then show ?thesis using planned_publishable [of hash files _ config shards lower "[]"] assms(2,3) by auto
qed

lemma plan_incremental_publishable:
  assumes "plan_incremental hash to_vec scan files config = Inr plan"
    and "distinct (map scf_normalized_path files)" "distinct (map sf_normalized_path (sar_upserts scan))"
    and "\<And>f. f \<in> set files \<Longrightarrow> file_publishable hash lower f"
    and "\<And>r. r \<in> set (sar_deletions scan) \<Longrightarrow> row_publishable hash lower r"
  shows "plan_publishable hash lower plan"
proof -
  from plan_incremental_Inr [OF assms(1-3)] obtain ups shards where u: "set ups \<subseteq> set files" "distinct (map scf_normalized_path ups)"
    "assign_pack_entries hash ups CONTENT_PACK_KIND config = Inr shards"
    "build_plan hash to_vec Incremental ups (sar_deletions scan) shards = Inr plan" by metis
  show ?thesis by (rule planned_publishable [OF u(3) _ u(2) _ _ u(4)]) (use u(1) assms(4,5) in auto)
qed

section \<open>Uploads\<close>

text \<open>What the pull relies on: the laws of the libraries, fresh nonces of the right length, and that the
  commit body is read back from its JSON.\<close>

definition push_env_ok :: "'s push_env \<Rightarrow> bool" where
  "push_env_ok env \<longleftrightarrow> aead_ok (ev_prims (se_base env)) \<and> pack_env_ok (ev_pack (se_base env)) \<and>
     (\<forall>n. length (se_nonce env n) = 24) \<and>
     (\<forall>body bs. se_body_vec env body = Inr bs \<longrightarrow> ev_body_parse (se_base env) bs = Inr body) \<and>
     (\<forall>ws dev requests s reserved s'. ta_reserve_object_ids (se_transfer env) ws dev requests s = (Inr reserved, s') \<longrightarrow>
        reserves_exactly requests reserved) \<and>
     (\<forall>p s published s'. se_publish_commit env p s = (Inr published, s') \<longrightarrow> pb_commit_id published = pm_commit_id p)"

lemma push_env_ok_server:
  "push_env_ok env \<Longrightarrow> ta_reserve_object_ids (se_transfer env) ws dev requests s = (Inr reserved, s') \<Longrightarrow>
     reserves_exactly requests reserved"
  "push_env_ok env \<Longrightarrow> se_publish_commit env p s = (Inr published, s') \<Longrightarrow> pb_commit_id published = pm_commit_id p"
  unfolding push_env_ok_def by blast+

definition pack_uploaded ::
  "'s push_env \<Rightarrow> ('a) push_input_scheme \<Rightarrow> rstr \<Rightarrow> reserved_commit_objects_t \<Rightarrow> pack_shard_plan
    \<Rightarrow> reserved_encrypted_upload_object \<Rightarrow> bool" where
  "pack_uploaded env input commit_id reserved shard u \<longleftrightarrow>
     bt_get (rc_pack_object_ids reserved) (ps_pack_ref shard) = Some (ru_object_id u) \<and>
     object_kind_for_pack_kind (ps_pack_kind shard) = Inr (ru_kind u) \<and>
     (\<exists>n pack. encrypt_pack (ev_pack (se_base env)) (ev_prims (se_base env)) (ev_pack_json (se_base env))
       (ph_workspace_key input) (ph_workspace_id input) (ru_object_id u) (ps_pack_kind shard) commit_id (pack_entries shard)
       (se_nonce env n) = Inr pack \<and> ru_ciphertext u = ep_blob pack)"

lemma encrypted_pack_upload_Inr:
  "encrypted_pack_upload env input commit_id reserved shard uploads w = (Inr uploads', w') \<Longrightarrow>
     \<exists>u. uploads' = uploads @ [u] \<and> pack_uploaded env input commit_id reserved shard u"
  by (auto simp: act_bind_Inr encrypted_pack_upload_def act_draw_def pack_uploaded_def) blast

lemma encrypted_pack_uploads_Inr:
  assumes "act_fold (encrypted_pack_upload env input commit_id reserved) shards uploads w = (Inr uploads', w')"
  shows "\<exists>ps. uploads' = uploads @ ps \<and> list_all2 (pack_uploaded env input commit_id reserved) shards ps"
  using assms
proof (induction shards arbitrary: uploads w)
  case (Cons shard shards)
  from Cons.prems obtain ups v where step: "encrypted_pack_upload env input commit_id reserved shard uploads w = (Inr ups, v)"
    and "act_fold (encrypted_pack_upload env input commit_id reserved) shards ups v = (Inr uploads', w')"
    by (auto simp: act_bind_Inr)
  with encrypted_pack_upload_Inr [OF step] obtain u where
    "act_fold (encrypted_pack_upload env input commit_id reserved) shards (uploads @ [u]) v = (Inr uploads', w')"
    "pack_uploaded env input commit_id reserved shard u" by auto
  then show ?case using Cons.IH [of "uploads @ [u]" v] by fastforce
qed simp

lemma encrypted_uploads_Inr:
  assumes "encrypted_uploads env input commit_id commit_kind parents device_seq reserved plan body w = (Inr uploads, w')"
  obtains ps u plain n where "uploads = ps @ [u]"
    "list_all2 (pack_uploaded env input commit_id reserved) (pl_pack_shards plan) ps"
    "ru_object_id u = rc_body_object_id reserved" "ru_kind u = Object_CommitBody" "se_body_vec env body = Inr plain"
    "encrypt_commit_body (ev_prims (se_base env)) (ev_body_json (se_base env))
       (commit_body_key (ev_prims (se_base env)) (ph_workspace_key input) (ph_workspace_id input))
       (commit_body_aad_new (ph_workspace_id input) commit_id commit_kind parents (ph_device_id input) device_seq
         (rc_body_object_id reserved)) plain (se_nonce env n) = Inr (ru_ciphertext u)"
  using assms
  by (fastforce simp: encrypted_uploads_def act_bind_Inr act_draw_def Let_def dest!: encrypted_pack_uploads_Inr)

section \<open>Reading a published commit\<close>

lemma decrypt_packs_fold:
  assumes "\<And>s. s \<in> set shards \<Longrightarrow> bt_get downloads (pr_object_id (ref s)) = Some (obj s) \<and>
      validate_downloaded_pack (ref s) (obj s) = Inr () \<and>
      decrypt_pack (ev_pack env) (ev_prims env) (ev_pack_json env) key ws (pr_object_id (ref s)) (pr_pack_kind (ref s))
        (ch_commit_id header) (dl_ciphertext (obj s)) = Inr (unp s) \<and>
      length (px_entries (up_index (unp s))) = pr_entry_count (ref s)"
  shows "res_fold (decrypt_pack_ref env ws key header downloads) (map ref shards) packs =
    Inr (fold (\<lambda>(k, v). bt_insert k v) (map (\<lambda>s. (pr_object_id (ref s), unp s)) shards) packs)"
  using assms by (induction shards arbitrary: packs) (auto simp: decrypt_pack_ref_def)

lemma decrypt_published:
  assumes "ev_download_objects env ws dev [ch_body_object_id h] = Inr [\<lparr>dl_object_id = ch_body_object_id h,
      dl_kind = Object_CommitBody, dl_ciphertext_sha256 = ch_body_ciphertext_sha256 h, dl_ciphertext = blob\<rparr>]"
    and "i64_saturating_len (length blob) = ch_body_size_bytes h" "commit_kind_label (ch_commit_kind h) = Inr kind"
    and "decrypt_commit_body (ev_prims env) (ev_body_json env) (commit_body_key (ev_prims env) key ws)
      (commit_body_aad_new ws (ch_commit_id h) kind (ch_parent_commit_ids h) (ch_author_device_id h) (ch_device_seq h)
        (ch_body_object_id h)) blob = Inr plain"
    and "ev_body_parse env plain = Inr body" "validate_commit_body h kind body = Inr ()"
    and "bd_packs body = map ref shards" "distinct (map (\<lambda>s. pr_object_id (ref s)) shards)"
    and "ev_download_objects env ws dev (map (\<lambda>s. pr_object_id (ref s)) shards) = Inr (map obj shards)"
    and s: "\<And>s. s \<in> set shards \<Longrightarrow> dl_object_id (obj s) = pr_object_id (ref s) \<and>
      validate_downloaded_pack (ref s) (obj s) = Inr () \<and>
      decrypt_pack (ev_pack env) (ev_prims env) (ev_pack_json env) key ws (pr_object_id (ref s)) (pr_pack_kind (ref s))
        (ch_commit_id h) (dl_ciphertext (obj s)) = Inr (unp s) \<and>
      length (px_entries (up_index (unp s))) = pr_entry_count (ref s)"
  obtains packs where "decrypt_commit env ws dev key h = Inr \<lparr>dc_header = h, dc_body = body, dc_packs = packs\<rparr>"
    "\<And>s. s \<in> set shards \<Longrightarrow> bt_get packs (pr_object_id (ref s)) = Some (unp s)"
proof -
  let ?pairs = "map (\<lambda>s. (pr_object_id (ref s), unp s)) shards"
  let ?packs = "fold (\<lambda>(k, v). bt_insert k v) ?pairs []"
  have ids: "map dl_object_id (map obj shards) = map (\<lambda>s. pr_object_id (ref s)) shards" using s by simp
  have d: "distinct (map dl_object_id (map obj shards))" unfolding ids by (rule assms(8))
  have got: "bt_get (bt_collect dl_object_id (map obj shards)) (pr_object_id (ref s)) = Some (obj s)" if "s \<in> set shards" for s
    unfolding bt_get_collect [OF d] find_by_key [OF d] using that s by simp
  have fold: "res_fold (decrypt_pack_ref env ws key h (bt_collect dl_object_id (map obj shards))) (map ref shards) [] = Inr ?packs"
    by (rule decrypt_packs_fold [where obj = obj]) (use got s in simp)
  have "decrypt_commit env ws dev key h = Inr \<lparr>dc_header = h, dc_body = body, dc_packs = ?packs\<rparr>"
    using assms(1-7,9) fold
    by (simp add: decrypt_commit_def download_one_def download_many_def validate_downloaded_commit_body_def
        encrypted_blob_metadata_def json_result_def o_def)
  moreover have "bt_get ?packs (pr_object_id (ref s)) = Some (unp s)" if m: "s \<in> set shards" for s
  proof -
    have "bt_get ?packs = map_of (rev ?pairs)"
      using btree.get_insert_all [OF btree.inv_empty] by (simp add: btree.get_empty_map)
    moreover have "distinct (map fst (rev ?pairs))" using assms(8) by (simp only: rev_map [symmetric] distinct_rev) (simp add: o_def)
    ultimately show ?thesis using m by (simp only: map_of_eq_Some_iff) auto
  qed
  ultimately show ?thesis using that by blast
qed

section \<open>The tree of a published commit\<close>

text \<open>Entries that the new commit adds are stored under its id; entries it keeps have theirs.\<close>

definition stamp_entry :: "rstr \<Rightarrow> sync_tree_entry_record \<Rightarrow> sync_tree_entry_record" where
  "stamp_entry commit_id entry = (if te_commit_id entry = [] then entry\<lparr>te_commit_id := commit_id\<rparr> else entry)"

definition stamp_tree :: "rstr \<Rightarrow> file_tree \<Rightarrow> file_tree" where
  "stamp_tree commit_id = map (\<lambda>(k, entry). (k, stamp_entry commit_id entry))"

lemma stamp_insert: "stamp_tree c (bt_insert k v m) = bt_insert k (stamp_entry c v) (stamp_tree c m)"
  unfolding stamp_tree_def by (induction k v m rule: bt_insert.induct) auto

lemma stamp_remove: "stamp_tree c (bt_remove k m) = bt_remove k (stamp_tree c m)"
  unfolding stamp_tree_def bt_remove_def by (induction m) auto

lemma stamp_entry_fields [simp]:
  "te_file_id (stamp_entry c e) = te_file_id e" "te_normalized_path (stamp_entry c e) = te_normalized_path e"
  by (simp_all add: stamp_entry_def)

lemma map_sort_key_same: "(\<And>x. key (f x) = key x) \<Longrightarrow> map f (sort_key key xs) = sort_key key (map f xs)"
proof -
  assume same: "\<And>x. key (f x) = key x"
  have "map f (insort_key key x xs) = insort_key key (f x) (map f xs)" for x xs
    by (induction xs) (auto simp: same)
  then show ?thesis by (induction xs) simp_all
qed

lemma stamp_values: "map (stamp_entry c) (sort_key te_normalized_path (bt_values m)) =
    sort_key te_normalized_path (bt_values (stamp_tree c m))"
  by (simp add: map_sort_key_same bt_values_def stamp_tree_def split_def o_def)

lemma stamp_body: "tree_cache_entry_body (map (stamp_entry c) es) = tree_cache_entry_body es"
  by (simp add: tree_cache_entry_body_def stamp_entry_def)

lemma stamp_tree_id: "\<forall>e\<in>set (bt_values m). te_commit_id e \<noteq> [] \<Longrightarrow> stamp_tree c m = m"
  unfolding stamp_tree_def bt_values_def stamp_entry_def by (induction m) auto

text \<open>Every shard of the plan is among the decrypted packs.\<close>

definition packs_hold :: "reserved_commit_objects_t \<Rightarrow> pack_shard_plan list \<Rightarrow> (rstr \<times> unpacked_pack) list \<Rightarrow> bool" where
  "packs_hold reserved shards packs \<longleftrightarrow> (\<forall>s\<in>set shards. \<exists>object_id u.
     bt_get (rc_pack_object_ids reserved) (ps_pack_ref s) = Some object_id \<and> bt_get packs object_id = Some u \<and>
     distinct (map pi_entry_id (pack_entries s)) \<and> up_entries u = entries_map (pack_entries s))"

lemma materialize_published_op:
  assumes "materialize_op reserved op tree = Inr tree'" "commit_body_file_op_of reserved op = Inr change"
    and "op_publishable hash lower shards op" "packs_hold reserved shards (dc_packs commit)"
    and "ch_commit_id (dc_header commit) = c"
  shows "materialize_change hash lower commit change (stamp_tree c tree) = Inr (stamp_tree c tree')"
proof (cases op)
  case (Upsert file_id path normalized_path plaintext_hash size_bytes pack_ref entry_id)
  with assms(3) obtain s e where s: "s \<in> set shards" "ps_pack_ref s = pack_ref" "e \<in> set (ps_entries s)" "pe_entry_id e = entry_id"
    and ok: "validate_plaintext_metadata hash path (pe_plaintext e) plaintext_hash size_bytes = Inr ()"
      "validate_remote_file_identity hash lower file_id path normalized_path = Inr ()" by auto
  with assms(4) obtain object_id u where o: "bt_get (rc_pack_object_ids reserved) pack_ref = Some object_id"
    "bt_get (dc_packs commit) object_id = Some u" "distinct (map pi_entry_id (pack_entries s))"
    "up_entries u = entries_map (pack_entries s)" by (force simp: packs_hold_def)
  have "up_entries u entry_id = Some (pe_plaintext e)"
    unfolding o(4) entries_map_Some [OF o(3)] using s(3,4) by (force simp: pack_entries_def)
  then show ?thesis using assms(1,2,5) Upsert ok o
    by (auto simp: stamp_insert stamp_entry_def upsert_tree_entry_def pack_entry_plaintext_def)
qed (use assms in \<open>auto simp: stamp_remove\<close>)

lemma materialize_published_ops:
  assumes "res_fold (materialize_op reserved) ops tree = Inr tree'" "res_map (commit_body_file_op_of reserved) ops = Inr changes"
    and "\<And>op. op \<in> set ops \<Longrightarrow> op_publishable hash lower shards op" "packs_hold reserved shards (dc_packs commit)"
    and "ch_commit_id (dc_header commit) = c"
  shows "res_fold (materialize_change hash lower commit) changes (stamp_tree c tree) = Inr (stamp_tree c tree')"
  using assms(1-3)
proof (induction ops arbitrary: tree changes)
  case (Cons op ops)
  then obtain t change cs where step: "materialize_op reserved op tree = Inr t" "commit_body_file_op_of reserved op = Inr change"
    and rest: "res_fold (materialize_op reserved) ops t = Inr tree'" "res_map (commit_body_file_op_of reserved) ops = Inr cs"
      "changes = change # cs" by (auto split: sum.splits)
  have "materialize_change hash lower commit change (stamp_tree c tree) = Inr (stamp_tree c t)"
    by (rule materialize_published_op [OF step _ assms(4,5)]) (use Cons.prems(3) in simp)
  then show ?case using Cons.IH [OF rest(1,2)] Cons.prems(3) rest(3) by simp
qed simp

section \<open>What a push leaves in the database\<close>

lemma act_push_db_Inr: "act_push_db f w = (Inr u, w') \<longleftrightarrow> (\<exists>db. f (sw_db w) = Inr db \<and> w' = w\<lparr>sw_db := db\<rparr>)"
  by (auto simp: act_push_db_def split: sum.splits)

lemma act_transfer_Inr: "act_transfer m w = (Inr x, w') \<longleftrightarrow> (\<exists>t. m (sw_transfer w) = (Inr x, t) \<and> w' = w\<lparr>sw_transfer := t\<rparr>)"
  by (auto simp: act_transfer_def split: prod.splits)

lemma act_server_Inr: "act_server f t = (Inr x, t') \<longleftrightarrow> (\<exists>s. f (tw_server t) = (Inr x, s) \<and> t' = t\<lparr>tw_server := s\<rparr>)"
  by (auto simp: act_server_def split: prod.splits)

definition published_head :: "rstr \<Rightarrow> int \<Rightarrow> int \<Rightarrow> sync_vault_record \<Rightarrow> sync_vault_record" where
  "published_head commit_id next_seq now v = v\<lparr>sv_remote_head_commit_id := Some commit_id,
     sv_local_head_commit_id := Some commit_id, sv_next_device_seq := next_seq, sv_updated_at_ms := now\<rparr>"

lemma get_published_vault:
  "get_vault (update_vault_after_publish db vault_id commit_id next_seq now) vault_id =
     map_option (published_head commit_id next_seq now) (get_vault db vault_id)"
proof -
  have "get_vault (update_vault_after_publish db vault_id commit_id next_seq now) vault_id =
      map_option (\<lambda>r. if sv_vault_id r = vault_id then published_head commit_id next_seq now r else r) (get_vault db vault_id)"
    unfolding get_vault_def update_vault_after_publish_def published_head_def by (simp add: tbl_get_update)
  also have "\<dots> = map_option (published_head commit_id next_seq now) (get_vault db vault_id)"
    by (auto simp: get_vault_def dest: tbl_get_Some_key intro!: option.map_cong0 split: if_splits)
  finally show ?thesis .
qed

lemma apply_publish_success_Inr:
  assumes "apply_publish_success env vault_id published kind parents tree_id entries plan device_seq now w = (Inr (), w')"
  shows "list_tree_entries (sw_db w') = (list_tree_entries (sw_db w))
      (pb_commit_id published := sort_key te_normalized_path (map (stamp_entry (pb_commit_id published)) entries))"
    and "get_vault (sw_db w') vault_id =
      map_option (published_head (pb_commit_id published) (i64_add device_seq 1) now) (get_vault (sw_db w) vault_id)"
    and "db_files (sw_db w') = db_files (mark_files_synced (sw_db w) (pb_commit_id published) (plan_changed_file_ids plan))"
proof -
  let ?c = "pb_commit_id published"
  have stamp: "map (\<lambda>entry. if te_commit_id entry = [] then entry\<lparr>te_commit_id := ?c\<rparr> else entry) entries =
      map (stamp_entry ?c) entries" by (simp add: stamp_entry_def)
  from assms obtain json db1 r where
    tree: "persist_tree_cache (sw_db w) ?c tree_id json (lit ''local'') (map (stamp_entry ?c) entries) now = Inr db1"
    and w': "sw_db w' = update_vault_after_publish
      (upsert_local_commit (mark_files_synced db1 ?c (plan_changed_file_ids plan)) r) vault_id ?c (i64_add device_seq 1) now"
    unfolding apply_publish_success_def Let_def stamp by (auto simp: act_bind_Inr act_push_db_Inr)
  have db1: "db_vaults db1 = db_vaults (sw_db w)" "db_files db1 = db_files (sw_db w)"
    using tree by (auto simp: persist_tree_cache_def Let_def res_bind_eq_Inr)
  have "list_tree_entries db1 = (list_tree_entries (sw_db w))
      (?c := sort_key te_normalized_path (map (stamp_entry ?c) entries))"
    using persist_tree_cache_reads_back [where db = "sw_db w" and commit_id = ?c and tree_id = tree_id
      and tree_json = json and source = "lit ''local''" and entries = "map (stamp_entry ?c) entries" and created_at_ms = now]
    unfolding tree by simp
  moreover have "list_tree_entries (sw_db w') = list_tree_entries db1"
    by (rule list_tree_entries_cong)
      (simp add: w' update_vault_after_publish_def upsert_local_commit_def mark_files_synced_def)
  ultimately show "list_tree_entries (sw_db w') = (list_tree_entries (sw_db w))
      (?c := sort_key te_normalized_path (map (stamp_entry ?c) entries))" by simp
  have "get_vault (upsert_local_commit (mark_files_synced db1 ?c (plan_changed_file_ids plan)) r) = get_vault (sw_db w)"
    by (rule get_vault_cong) (simp add: upsert_local_commit_def mark_files_synced_def db1)
  then show "get_vault (sw_db w') vault_id = map_option (published_head ?c (i64_add device_seq 1) now) (get_vault (sw_db w) vault_id)"
    unfolding w' get_published_vault by simp
  show "db_files (sw_db w') = db_files (mark_files_synced (sw_db w) ?c (plan_changed_file_ids plan))"
    by (simp add: w' update_vault_after_publish_def upsert_local_commit_def mark_files_synced_def db1)
qed

text \<open>Reserving, encrypting and uploading leave the database and the files alone.\<close>

interpretation push_local: frame "\<lambda>w w' :: ('f, 's) push_world. sw_db w' = sw_db w \<and> sw_fs w' = sw_fs w"
  by unfold_locales simp_all

lemma keeps_transfer: "push_local.keeps (act_transfer m)"
  by (rule push_local.keepsI) (simp add: act_transfer_def split: prod.split)

lemma keeps_draw: "push_local.keeps (act_draw env)"
  by (rule push_local.keepsI) (simp add: act_draw_def)

lemma keeps_reserve: "push_local.keeps (reserve_commit_objects env ws dev plan)"
  unfolding reserve_commit_objects_def by (intro push_local.keeps_bind push_local.keeps_lift keeps_transfer)

lemma keeps_encrypted_uploads:
  "push_local.keeps (encrypted_uploads env input commit_id commit_kind parents device_seq reserved plan body)"
  unfolding encrypted_uploads_def encrypted_pack_upload_def Let_def
  by (intro push_local.keeps_bind push_local.keeps_lift push_local.keeps_fold keeps_draw)

definition publish_request ::
  "('a) push_input_scheme \<Rightarrow> sync_vault_record \<Rightarrow> rstr \<Rightarrow> rstr list \<Rightarrow> commit_plan_kind \<Rightarrow> reserved_commit_objects_t \<Rightarrow> rstr
    \<Rightarrow> uploaded_object_metadata \<Rightarrow> bytes \<Rightarrow> publish_commit_input" where
  "publish_request input vault expected_head parents plan_kind reserved commit_id body_metadata signature =
     \<lparr>pm_workspace_id = ph_workspace_id input, pm_commit_id = commit_id, pm_commit_kind = proto_commit_kind plan_kind,
      pm_expected_head_commit_id = expected_head, pm_parent_commit_ids = parents,
      pm_author_device_id = ph_device_id input, pm_device_seq = sv_next_device_seq vault,
      pm_body_object_id = rc_body_object_id reserved, pm_body_ciphertext_sha256 = um_ciphertext_sha256 body_metadata,
      pm_body_size_bytes = um_size_bytes body_metadata,
      pm_referenced_object_ids = sort (bt_values (rc_pack_object_ids reserved)), pm_signature = signature\<rparr>"

lemma publish_plan_Inr:
  fixes w :: "('f, 's) push_world"
  assumes "publish_plan env input vault head parents kind plan w = (Inr res, w')"
  obtains requests ros s0 s1 reserved entries tree_id changes commit_id uploads t t' uploaded metadata signature s2 s3 published
    and wa wb wc :: "('f, 's) push_world"
  where "reservation_requests plan = Inr requests"
    "ta_reserve_object_ids (se_transfer env) (ph_workspace_id input) (ph_device_id input) requests s0 = (Inr ros, s1)"
    "reserved_commit_objects ros = Inr reserved"
    "materialize_tree_entries (sw_db w) head plan reserved = Inr entries"
    "tree_id_for_entries (ev_hash (se_base env)) (ev_tree_vec (se_base env)) entries = Inr tree_id"
    "commit_body_file_ops plan reserved = Inr changes"
    "encrypted_uploads env input commit_id (plan_kind_label kind) parents (sv_next_device_seq vault) reserved plan
       (commit_body_of commit_id (plan_kind_label kind) parents tree_id changes plan reserved) wa = (Inr uploads, wb)"
    "upload_reserved_objects (se_transfer env) (ph_workspace_id input) (ph_device_id input) (lit ''upload_'' @ commit_id)
       uploads t = (Inr uploaded, t')"
    "find (\<lambda>x. um_object_id x = rc_body_object_id reserved) uploaded = Some metadata"
    "se_publish_commit env (publish_request input vault head parents kind reserved commit_id metadata signature) s2 =
       (Inr published, s3)"
    "apply_publish_success env (ph_vault_id input) published kind parents tree_id entries plan (sv_next_device_seq vault)
       (ph_now_ms input) wc = (Inr (), w')"
    "sw_db wc = sw_db w"
    "pc_published res" "pc_commit_id res = Some commit_id"
proof -
  from assms obtain reserved v entries tree_id changes commit_id wa wb uploads uploaded metadata signature published t t' s2 where
    reserve: "reserve_commit_objects env (ph_workspace_id input) (ph_device_id input) plan w = (Inr reserved, v)"
    and run: "materialize_tree_entries (sw_db v) head plan reserved = Inr entries"
      "tree_id_for_entries (ev_hash (se_base env)) (ev_tree_vec (se_base env)) entries = Inr tree_id"
      "commit_body_file_ops plan reserved = Inr changes"
    and enc: "encrypted_uploads env input commit_id (plan_kind_label kind) parents (sv_next_device_seq vault) reserved plan
       (commit_body_of commit_id (plan_kind_label kind) parents tree_id changes plan reserved) v = (Inr uploads, wb)"
    and up: "upload_reserved_objects (se_transfer env) (ph_workspace_id input) (ph_device_id input) (lit ''upload_'' @ commit_id)
       uploads (sw_transfer wb) = (Inr uploaded, t)"
      "find (\<lambda>x. um_object_id x = rc_body_object_id reserved) uploaded = Some metadata"
    and pub: "se_publish_commit env (publish_request input vault head parents kind reserved commit_id metadata signature)
       (tw_server t) = (Inr published, s2)"
      "apply_publish_success env (ph_vault_id input) published kind parents tree_id entries plan (sv_next_device_seq vault)
       (ph_now_ms input) (wb\<lparr>sw_transfer := t\<lparr>tw_server := s2\<rparr>\<rparr>) = (Inr (), w')"
      "pc_published res" "pc_commit_id res = Some commit_id"
    unfolding publish_plan_def Let_def publish_request_def
    by (auto simp: act_bind_Inr act_transfer_Inr act_server_Inr)
  from reserve obtain requests ros s1 where ros: "reservation_requests plan = Inr requests"
    "ta_reserve_object_ids (se_transfer env) (ph_workspace_id input) (ph_device_id input) requests (tw_server (sw_transfer w)) = (Inr ros, s1)"
    "reserved_commit_objects ros = Inr reserved"
    by (auto simp: reserve_commit_objects_def act_bind_Inr act_transfer_Inr act_server_Inr)
  have "sw_db v = sw_db w" using push_local.keeps_run [OF keeps_reserve reserve] by simp
  moreover have "sw_db wb = sw_db v" using push_local.keeps_run [OF keeps_encrypted_uploads enc] by simp
  ultimately show ?thesis using that [OF ros _ run(2,3) enc up pub(1,2) _ pub(3,4)] run(1) by simp
qed

section \<open>A published commit is accepted by every device\<close>

text \<open>The header under which the server lists a published commit, and a server that returns the uploaded
  objects to whoever asks for them.\<close>

definition published_header :: "publish_commit_input \<Rightarrow> int \<Rightarrow> sync_commit_header" where
  "published_header p server_seq =
     \<lparr>ch_commit_id = pm_commit_id p, ch_commit_kind = pm_commit_kind p,
      ch_expected_head_commit_id = pm_expected_head_commit_id p, ch_parent_commit_ids = pm_parent_commit_ids p,
      ch_author_device_id = pm_author_device_id p, ch_device_seq = pm_device_seq p,
      ch_body_object_id = pm_body_object_id p, ch_body_ciphertext_sha256 = pm_body_ciphertext_sha256 p,
      ch_body_size_bytes = pm_body_size_bytes p, ch_referenced_object_ids = pm_referenced_object_ids p,
      ch_signature = pm_signature p, ch_server_seq = server_seq\<rparr>"

definition served :: "(bytes \<Rightarrow> rstr) \<Rightarrow> reserved_encrypted_upload_object \<Rightarrow> downloaded_object" where
  "served sha u = \<lparr>dl_object_id = ru_object_id u, dl_kind = ru_kind u, dl_ciphertext_sha256 = sha (ru_ciphertext u),
     dl_ciphertext = ru_ciphertext u\<rparr>"

definition serves :: "(bytes \<Rightarrow> rstr) \<Rightarrow> pull_env \<Rightarrow> rstr \<Rightarrow> rstr \<Rightarrow> reserved_encrypted_upload_object list \<Rightarrow> bool" where
  "serves sha env ws dev uploads \<longleftrightarrow> (\<forall>us. set us \<subseteq> set uploads \<longrightarrow>
     ev_download_objects env ws dev (map ru_object_id us) = Inr (map (served sha) us))"

text \<open>Two devices use the same libraries.\<close>

definition same_codecs :: "pull_env \<Rightarrow> pull_env \<Rightarrow> bool" where
  "same_codecs e f \<longleftrightarrow> ev_hash e = ev_hash f \<and> ev_lower e = ev_lower f \<and> ev_pack e = ev_pack f \<and>
     ev_prims e = ev_prims f \<and> ev_pack_json e = ev_pack_json f \<and> ev_body_json e = ev_body_json f \<and>
     ev_body_parse e = ev_body_parse f \<and> ev_tree_vec e = ev_tree_vec f"

text \<open>Applied to \<open>tree\<close>, the commit decrypts, its changes pass every check, and the resulting tree has the
  tree id that the commit states.\<close>

definition accepts :: "pull_env \<Rightarrow> rstr \<Rightarrow> rstr \<Rightarrow> symmetric_key \<Rightarrow> sync_commit_header \<Rightarrow> file_tree \<Rightarrow> file_tree \<Rightarrow> bool" where
  "accepts env ws dev key header tree tree' \<longleftrightarrow> (\<exists>commit. decrypt_commit env ws dev key header = Inr commit \<and>
     materialize_remote_tree_only (ev_hash env) (ev_lower env) commit tree = Inr tree' \<and>
     validate_tree_id (ev_hash env) (ev_tree_vec env) (bd_tree_id (dc_body commit))
       (sort_key te_normalized_path (bt_values tree')) = Inr ())"

lemma validate_packs_fold:
  assumes "\<And>r. r \<in> set refs \<Longrightarrow> str_trim (pr_object_id r) \<noteq> [] \<and> is_ok (object_kind_for_pack_kind (pr_pack_kind r))"
    and "distinct (map pr_object_id refs)" "set (map pr_object_id refs) \<inter> seen = {}"
  shows "res_fold validate_pack_ref refs seen = Inr (pr_object_id ` set refs \<union> seen)"
  using assms
proof (induction refs arbitrary: seen)
  case (Cons r refs)
  have "validate_pack_ref r seen = Inr (insert (pr_object_id r) seen)"
    using Cons.prems(1) [of r] Cons.prems(3) by (auto simp: validate_pack_ref_def validate_required_def is_ok_conv)
  moreover have "res_fold validate_pack_ref refs (insert (pr_object_id r) seen) =
      Inr (pr_object_id ` set refs \<union> insert (pr_object_id r) seen)"
    by (rule Cons.IH) (use Cons.prems in auto)
  ultimately show ?case by simp
qed simp

lemma upload_reserved_objects_valid:
  assumes "upload_reserved_objects api ws dev attempt_id objects w = (Inr metas, w')" "object \<in> set objects"
  shows "str_trim (ru_object_id object) \<noteq> []" "int (length (ru_ciphertext object)) \<le> i64_max"
proof -
  from assms obtain uploads where run: "res_map (local_reserved_upload_from api) objects = Inr uploads"
    by (auto simp: upload_reserved_objects_def act_bind_Inr split: if_splits)
  have "\<exists>u. local_reserved_upload_from api object = Inr u"
    using run assms(2) by (induction objects arbitrary: uploads) (auto split: sum.splits)
  then show "str_trim (ru_object_id object) \<noteq> []" "int (length (ru_ciphertext object)) \<le> i64_max"
    by (auto simp: local_reserved_upload_from_def validate_required_def checked_size_def i64_try_from_usize_def
        res_bind_eq_Inr split: sum.splits attempt_failure.splits if_splits)
qed

definition object_of :: "reserved_commit_objects_t \<Rightarrow> pack_shard_plan \<Rightarrow> rstr" where
  "object_of reserved s = the (bt_get (rc_pack_object_ids reserved) (ps_pack_ref s))"

definition ref_of :: "reserved_commit_objects_t \<Rightarrow> pack_shard_plan \<Rightarrow> commit_body_pack_ref" where
  "ref_of reserved s = \<lparr>pr_pack_ref = ps_pack_ref s, pr_object_id = object_of reserved s, pr_pack_kind = ps_pack_kind s,
     pr_shard_index = ps_shard_index s, pr_entry_count = length (ps_entries s)\<rparr>"

lemma ref_of_fields [simp]:
  "pr_object_id (ref_of reserved s) = object_of reserved s" "pr_pack_kind (ref_of reserved s) = ps_pack_kind s"
  "pr_entry_count (ref_of reserved s) = length (ps_entries s)"
  by (simp_all add: ref_of_def)

lemma pack_uploaded_object: "pack_uploaded env input c reserved s u \<Longrightarrow> object_of reserved s = ru_object_id u"
  by (simp add: pack_uploaded_def object_of_def)

lemma map_filter_all: "\<forall>x\<in>set xs. g x = Some (h x) \<Longrightarrow> List.map_filter g xs = map h xs"
  by (induction xs) (auto simp: List.map_filter_simps)

lemma commit_body_pack_refs_map:
  "\<forall>s\<in>set (pl_pack_shards plan). bt_get (rc_pack_object_ids reserved) (ps_pack_ref s) = Some (object_of reserved s) \<Longrightarrow>
     commit_body_pack_refs plan reserved = map (ref_of reserved) (pl_pack_shards plan)"
  unfolding commit_body_pack_refs_def by (rule map_filter_all) (simp add: ref_of_def)

lemma reservation_requests_refs:
  assumes "reservation_requests plan = Inr requests"
  shows "map ori_client_object_ref requests = map ps_pack_ref (pl_pack_shards plan) @ [COMMIT_BODY_REF]"
proof -
  from assms obtain rs where "requests = rs @ [\<lparr>ori_client_object_ref = COMMIT_BODY_REF, ori_kind = Object_CommitBody\<rparr>]"
    and rs: "list_all2 (\<lambda>s r. \<exists>kind. object_kind_for_pack_kind (ps_pack_kind s) = Inr kind \<and>
      \<lparr>ori_client_object_ref = ps_pack_ref s, ori_kind = kind\<rparr> = r) (pl_pack_shards plan) rs"
    by (auto simp: reservation_requests_def res_bind_eq_Inr res_map_Inr_list_all2)
  moreover have "map ori_client_object_ref rs = map ps_pack_ref (pl_pack_shards plan)"
    using rs by (induction rule: list_all2_induct) auto
  ultimately show ?thesis by simp
qed

text \<open>The objects of a reservation for a plan: one for each shard, all distinct, and the body's apart.\<close>

lemma reserved_objects_of_plan:
  assumes "reserves_exactly requests ros" "reservation_requests plan = Inr requests" "reserved_commit_objects ros = Inr reserved"
    and "plan_publishable hash lower plan"
  shows "distinct (map (object_of reserved) (pl_pack_shards plan))"
    "rc_body_object_id reserved \<notin> set (map (object_of reserved) (pl_pack_shards plan))"
    "sort (map (object_of reserved) (pl_pack_shards plan)) = sort (bt_values (rc_pack_object_ids reserved))"
    "\<forall>s\<in>set (pl_pack_shards plan). bt_get (rc_pack_object_ids reserved) (ps_pack_ref s) = Some (object_of reserved s)"
proof -
  let ?m = "rc_pack_object_ids reserved" and ?shards = "pl_pack_shards plan"
  have plan: "distinct (map ps_pack_ref ?shards)" "COMMIT_BODY_REF \<notin> set (map ps_pack_ref ?shards)"
    using assms(4) by (auto simp: plan_publishable_def)
  have refs: "map ro_client_object_ref ros = map ps_pack_ref ?shards @ [COMMIT_BODY_REF]"
    using assms(1) reservation_requests_refs [OF assms(2)] by (simp add: reserves_exactly_def)
  note r = reserved_commit_objects_exact [OF assms(3) refs plan]
  have ids: "distinct (map ro_object_id ros)" using assms(1) by (simp add: reserves_exactly_def)
  have get: "(ps_pack_ref s, object_of reserved s) \<in> set ?m" if s: "s \<in> set ?shards" for s
  proof -
    have "ps_pack_ref s \<in> fst ` set ?m" using r(2) [OF ids] s by simp
    then obtain v where "(ps_pack_ref s, v) \<in> set ?m" by auto
    with bt_get_Some_iff [OF r(1) [OF ids], of "ps_pack_ref s" v] show ?thesis by (simp add: object_of_def)
  qed
  then show "\<forall>s\<in>set ?shards. bt_get ?m (ps_pack_ref s) = Some (object_of reserved s)"
    using bt_get_Some_iff [OF r(1) [OF ids]] by blast
  have inj: "a = b" if "a \<in> set ?shards" "b \<in> set ?shards" "object_of reserved a = object_of reserved b" for a b
  proof -
    have "(ps_pack_ref a, object_of reserved a) \<in> set ?m" "(ps_pack_ref b, object_of reserved a) \<in> set ?m"
      using get [OF that(1)] get [OF that(2)] that(3) by simp_all
    then have "ps_pack_ref a = ps_pack_ref b" using r(3) [OF ids] by (fastforce simp: distinct_map inj_on_def)
    then show ?thesis using plan(1) that by (auto simp: distinct_map inj_on_def)
  qed
  then show d: "distinct (map (object_of reserved) ?shards)"
    using plan(1) by (auto simp: distinct_map inj_on_def)
  have sub: "set (map (object_of reserved) ?shards) \<subseteq> snd ` set ?m" using get by force
  then show "rc_body_object_id reserved \<notin> set (map (object_of reserved) ?shards)" using r(4) [OF ids] by blast
  have "v \<in> set (map (object_of reserved) ?shards)" if v: "(k, v) \<in> set ?m" for k v
  proof -
    have "k \<in> set (map ps_pack_ref ?shards)" using r(2) [OF ids] v by (metis fst_conv image_eqI)
    then obtain s where s: "s \<in> set ?shards" "ps_pack_ref s = k" by auto
    then have "object_of reserved s = v"
      using bt_get_Some_iff [OF r(1) [OF ids], of k v] v by (simp add: object_of_def)
    with s show ?thesis by auto
  qed
  then have "set (map (object_of reserved) ?shards) = set (bt_values ?m)" using sub by (force simp: bt_values_def)
  then have "mset (map (object_of reserved) ?shards) = mset (bt_values ?m)"
    using d r(3) [OF ids] set_eq_iff_mset_eq_distinct by (metis bt_values_def)
  then show "sort (map (object_of reserved) ?shards) = sort (bt_values ?m)"
    by (metis sorted_list_of_multiset_mset)
qed

text \<open>What a decrypted shard is.\<close>

definition unpacked_shard :: "pull_env \<Rightarrow> reserved_commit_objects_t \<Rightarrow> pack_shard_plan \<Rightarrow> unpacked_pack" where
  "unpacked_shard env reserved s =
     \<lparr>up_index = pack_index_of (ev_pack env) (object_of reserved s) (sort_key pi_entry_id (pack_entries s)),
      up_entries = entries_map (pack_entries s)\<rparr>"

lemma pack_uploaded_decrypts:
  assumes "push_env_ok env" "pack_uploaded env input c reserved s u" "same_codecs E (se_base env)"
  shows "decrypt_pack (ev_pack E) (ev_prims E) (ev_pack_json E) (ph_workspace_key input) (ph_workspace_id input)
      (object_of reserved s) (ps_pack_kind s) c (ru_ciphertext u) = Inr (unpacked_shard E reserved s)"
    "distinct (map pi_entry_id (pack_entries s))"
    "length (px_entries (up_index (unpacked_shard E reserved s))) = length (ps_entries s)"
proof -
  from assms(2) obtain n pack where e: "encrypt_pack (ev_pack (se_base env)) (ev_prims (se_base env)) (ev_pack_json (se_base env))
       (ph_workspace_key input) (ph_workspace_id input) (ru_object_id u) (ps_pack_kind s) c (pack_entries s)
       (se_nonce env n) = Inr pack" "ru_ciphertext u = ep_blob pack" by (auto simp: pack_uploaded_def)
  have ok: "pack_env_ok (ev_pack (se_base env))" "aead_ok (ev_prims (se_base env))" "length (se_nonce env n) = 24"
    using assms(1) by (auto simp: push_env_ok_def)
  note r = decrypt_encrypted_pack [OF ok e(1)]
  show "decrypt_pack (ev_pack E) (ev_prims E) (ev_pack_json E) (ph_workspace_key input) (ph_workspace_id input)
      (object_of reserved s) (ps_pack_kind s) c (ru_ciphertext u) = Inr (unpacked_shard E reserved s)"
    using r(1) e(2) assms(3) pack_uploaded_object [OF assms(2)] by (simp add: same_codecs_def unpacked_shard_def)
  show "distinct (map pi_entry_id (pack_entries s))" by (rule r(2))
  show "length (px_entries (up_index (unpacked_shard E reserved s))) = length (ps_entries s)"
    by (simp add: unpacked_shard_def pack_index_of_def pack_entries_def)
qed

lemma commit_kind_label_of_plan [simp]: "commit_kind_label (proto_commit_kind kind) = Inr (plan_kind_label kind)"
  by (cases kind) simp_all

lemma uploads_of_shards:
  assumes "list_all2 (pack_uploaded env input c reserved) shards ps" "distinct (map (object_of reserved) shards)"
  obtains upload where "ps = map upload shards" "\<And>s. s \<in> set shards \<Longrightarrow> pack_uploaded env input c reserved s (upload s)"
proof -
  define upload where "upload s = the (find (\<lambda>u. ru_object_id u = object_of reserved s) ps)" for s
  have ids: "map ru_object_id ps = map (object_of reserved) shards"
    using assms(1) by (induction rule: list_all2_induct) (simp_all add: pack_uploaded_object)
  then have d: "distinct (map ru_object_id ps)" using assms(2) by simp
  have len: "length ps = length shards" using list_all2_lengthD [OF assms(1)] by simp
  have nth: "upload (shards ! i) = ps ! i" if i: "i < length shards" for i
  proof -
    have "ru_object_id (ps ! i) = object_of reserved (shards ! i)" using ids i len by (metis nth_map)
    then have "find (\<lambda>u. ru_object_id u = object_of reserved (shards ! i)) ps = Some (ps ! i)"
      unfolding find_by_key [OF d] using i len by simp
    then show ?thesis by (simp add: upload_def)
  qed
  have "ps = map upload shards" using nth len by (auto intro!: nth_equalityI)
  moreover have "pack_uploaded env input c reserved s (upload s)" if "s \<in> set shards" for s
    using that nth assms(1) by (metis in_set_conv_nth list_all2_nthD)
  ultimately show ?thesis using that by blast
qed

text \<open>The metadata that the publisher signs are those of the encrypted body.\<close>

lemma body_metadata_describes:
  assumes "upload_reserved_objects api ws dev attempt (ps @ [u]) t = (Inr uploaded, t')"
    and "find (\<lambda>x. um_object_id x = ru_object_id u) uploaded = Some metadata" "ru_object_id u \<notin> ru_object_id ` set ps"
  shows "describes api u metadata"
proof -
  have m: "metadata \<in> set uploaded" "um_object_id metadata = ru_object_id u" using find_SomeD [OF assms(2)] by auto
  obtain v where v: "v \<in> set (ps @ [u])" "describes api v metadata"
    using upload_reserved_objects_sound(2) [OF assms(1)] m(1) by blast
  have "v \<notin> set ps" using assms(3) v(2) m(2) by (auto simp: describes_def)
  with v show ?thesis by auto
qed

lemma published_commit_decrypts:
  assumes ok: "push_env_ok env" and plan: "plan_publishable hash lower plan"
    and requests: "reservation_requests plan = Inr requests" "reserves_exactly requests ros" "reserved_commit_objects ros = Inr reserved"
    and enc: "encrypted_uploads env input commit_id (plan_kind_label kind) parents (sv_next_device_seq vault) reserved plan body wa =
      (Inr uploads, wb)"
    and up: "upload_reserved_objects (se_transfer env) ws' dev' attempt uploads t = (Inr uploaded, t')"
      "find (\<lambda>x. um_object_id x = rc_body_object_id reserved) uploaded = Some metadata"
    and body: "body = commit_body_of commit_id (plan_kind_label kind) parents tree_id changes plan reserved"
    and p: "p = publish_request input vault head parents kind reserved commit_id metadata signature"
    and E: "same_codecs E (se_base env)" "serves (ta_sha256 (se_transfer env)) E (ph_workspace_id input) dev uploads"
  obtains packs where "decrypt_commit E (ph_workspace_id input) dev (ph_workspace_key input) (published_header p seq) =
      Inr \<lparr>dc_header = published_header p seq, dc_body = body, dc_packs = packs\<rparr>"
    "packs_hold reserved (pl_pack_shards plan) packs"
proof -
  let ?shards = "pl_pack_shards plan" and ?sha = "ta_sha256 (se_transfer env)" and ?h = "published_header p seq"
  from enc obtain ps u plain n where u: "uploads = ps @ [u]" "list_all2 (pack_uploaded env input commit_id reserved) ?shards ps"
      "ru_object_id u = rc_body_object_id reserved" "ru_kind u = Object_CommitBody" "se_body_vec env body = Inr plain"
    and cipher: "encrypt_commit_body (ev_prims (se_base env)) (ev_body_json (se_base env))
       (commit_body_key (ev_prims (se_base env)) (ph_workspace_key input) (ph_workspace_id input))
       (commit_body_aad_new (ph_workspace_id input) commit_id (plan_kind_label kind) parents (ph_device_id input)
         (sv_next_device_seq vault) (rc_body_object_id reserved)) plain (se_nonce env n) = Inr (ru_ciphertext u)"
    by (rule encrypted_uploads_Inr)
  note objects = reserved_objects_of_plan [OF requests(2,1,3) plan]
  obtain upload where ups: "ps = map upload ?shards"
    and each1: "\<And>s. s \<in> set ?shards \<Longrightarrow> pack_uploaded env input commit_id reserved s (upload s)"
    using uploads_of_shards [OF u(2) objects(1)] by metis
  have each: "pack_uploaded env input commit_id reserved s (upload s)" "upload s \<in> set uploads" if "s \<in> set ?shards" for s
    using each1 u(1) ups that by auto
  have ids: "map ru_object_id ps = map (object_of reserved) ?shards"
    unfolding ups using pack_uploaded_object each1 by fastforce
  have "ru_object_id u \<notin> ru_object_id ` set ps" using objects(2) u(3) ids by (metis list.set_map)
  then have "describes (se_transfer env) u metadata"
    using body_metadata_describes up(1) [unfolded u(1)] up(2) u(3) by metis
  then have meta: "um_ciphertext_sha256 metadata = ?sha (ru_ciphertext u)"
    "um_size_bytes metadata = int (length (ru_ciphertext u))" by (auto simp: describes_def)
  have valid: "str_trim (ru_object_id v) \<noteq> []" "int (length (ru_ciphertext v)) \<le> i64_max" if "v \<in> set uploads" for v
    using upload_reserved_objects_valid [OF up(1) that] .
  have refs: "commit_body_pack_refs plan reserved = map (ref_of reserved) ?shards"
    by (rule commit_body_pack_refs_map [OF objects(4)])
  have "res_fold validate_pack_ref (map (ref_of reserved) ?shards) {} =
      Inr (pr_object_id ` set (map (ref_of reserved) ?shards) \<union> {})"
  proof (rule validate_packs_fold)
    show "distinct (map pr_object_id (map (ref_of reserved) ?shards))" using objects(1) by (simp add: o_def)
    fix r assume "r \<in> set (map (ref_of reserved) ?shards)"
    then obtain s where s: "s \<in> set ?shards" "r = ref_of reserved s" by auto
    then show "str_trim (pr_object_id r) \<noteq> [] \<and> is_ok (object_kind_for_pack_kind (pr_pack_kind r))"
      using each [OF s(1)] valid(1) pack_uploaded_object [OF each(1) [OF s(1)]] by (auto simp: pack_uploaded_def)
  qed simp
  then have vbody: "validate_commit_body ?h (plan_kind_label kind) body = Inr ()"
    using objects(3) by (simp add: validate_commit_body_def validate_packs_def body commit_body_of_def published_header_def p
        publish_request_def refs o_def sort_key_id_if_sorted)
  have prims: "ev_prims E = ev_prims (se_base env)" "ev_body_json E = ev_body_json (se_base env)"
    "ev_body_parse E = ev_body_parse (se_base env)" using E(1) by (auto simp: same_codecs_def)
  have nonce: "aead_ok (ev_prims (se_base env))" "length (se_nonce env n) = 24" using ok by (auto simp: push_env_ok_def)
  have plain: "decrypt_commit_body (ev_prims E) (ev_body_json E) (commit_body_key (ev_prims E) (ph_workspace_key input) (ph_workspace_id input))
      (commit_body_aad_new (ph_workspace_id input) (ch_commit_id ?h) (plan_kind_label kind) (ch_parent_commit_ids ?h)
        (ch_author_device_id ?h) (ch_device_seq ?h) (ch_body_object_id ?h)) (ru_ciphertext u) = Inr plain"
    using decrypt_blob_encrypt [OF nonce cipher [unfolded encrypt_commit_body_def]]
    by (simp add: decrypt_commit_body_def prims published_header_def p publish_request_def)
  have one: "ev_download_objects E (ph_workspace_id input) dev [ch_body_object_id ?h] = Inr [\<lparr>dl_object_id = ch_body_object_id ?h,
      dl_kind = Object_CommitBody, dl_ciphertext_sha256 = ch_body_ciphertext_sha256 ?h, dl_ciphertext = ru_ciphertext u\<rparr>]"
    using E(2) [unfolded serves_def, rule_format, of "[u]"] u(1,3,4) meta
    by (simp add: served_def published_header_def p publish_request_def)
  have many: "ev_download_objects E (ph_workspace_id input) dev (map (\<lambda>s. pr_object_id (ref_of reserved s)) ?shards) =
      Inr (map (\<lambda>s. served ?sha (upload s)) ?shards)"
  proof -
    have "set ps \<subseteq> set uploads" using u(1) by auto
    with E(2) have "ev_download_objects E (ph_workspace_id input) dev (map ru_object_id ps) = Inr (map (served ?sha) ps)"
      by (simp add: serves_def)
    then show ?thesis unfolding ids by (simp add: ups o_def)
  qed
  have shard: "dl_object_id (served ?sha (upload s)) = pr_object_id (ref_of reserved s) \<and>
      validate_downloaded_pack (ref_of reserved s) (served ?sha (upload s)) = Inr () \<and>
      decrypt_pack (ev_pack E) (ev_prims E) (ev_pack_json E) (ph_workspace_key input) (ph_workspace_id input)
        (pr_object_id (ref_of reserved s)) (pr_pack_kind (ref_of reserved s)) (ch_commit_id ?h)
        (dl_ciphertext (served ?sha (upload s))) = Inr (unpacked_shard E reserved s) \<and>
      length (px_entries (up_index (unpacked_shard E reserved s))) = pr_entry_count (ref_of reserved s)"
    if s: "s \<in> set ?shards" for s
    using pack_uploaded_decrypts [OF ok each(1) [OF s] E(1)] pack_uploaded_object [OF each(1) [OF s]] each(1) [OF s]
    by (simp add: served_def validate_downloaded_pack_def pack_uploaded_def published_header_def p publish_request_def)
  have size: "i64_saturating_len (length (ru_ciphertext u)) = ch_body_size_bytes ?h"
    using valid(2) [of u] u(1) meta(2) by (simp add: i64_saturating_len_def published_header_def p publish_request_def)
  have label: "commit_kind_label (ch_commit_kind ?h) = Inr (plan_kind_label kind)"
    by (simp add: published_header_def p publish_request_def)
  have parse: "ev_body_parse E plain = Inr body" using ok u(5) unfolding prims by (simp add: push_env_ok_def)
  have packs: "bd_packs body = map (ref_of reserved) ?shards" by (simp add: body commit_body_of_def refs)
  have dist: "distinct (map (\<lambda>s. pr_object_id (ref_of reserved s)) ?shards)" using objects(1) by simp
  obtain packs where dec: "decrypt_commit E (ph_workspace_id input) dev (ph_workspace_key input) ?h =
      Inr \<lparr>dc_header = ?h, dc_body = body, dc_packs = packs\<rparr>"
    and got: "\<And>s. s \<in> set ?shards \<Longrightarrow> bt_get packs (pr_object_id (ref_of reserved s)) = Some (unpacked_shard E reserved s)"
    using decrypt_published [OF one size label plain parse vbody packs dist many shard] by blast
  have "packs_hold reserved ?shards packs"
    unfolding packs_hold_def using got objects(4) pack_uploaded_decrypts(2) [OF ok each(1) E(1)]
    by (fastforce simp: unpacked_shard_def)
  with dec show ?thesis by (rule that)
qed

text \<open>The tree a push starts from: the one cached for the remote head.\<close>

definition push_base :: "rstr \<Rightarrow> sync_db \<Rightarrow> file_tree \<Rightarrow> bool" where
  "push_base head db tree \<longleftrightarrow> head = [] \<or>
     tree_ok tree \<and> (\<forall>e\<in>set (bt_values tree). te_commit_id e \<noteq> []) \<and>
     list_tree_entries db head = sort_key te_normalized_path (bt_values tree)"

lemma published_tree:
  assumes "materialize_tree_entries db head plan reserved = Inr entries" "commit_body_file_ops plan reserved = Inr changes"
    and "tree_id_for_entries hash to_vec entries = Inr tree_id" "plan_publishable hash lower plan"
    and "packs_hold reserved (pl_pack_shards plan) (dc_packs commit)" "bd_changes (dc_body commit) = changes"
    and "bd_tree_id (dc_body commit) = tree_id" "push_base head db tree"
    and "(ch_commit_kind (dc_header commit) = Kind_Checkpoint) = (head = [])"
  obtains tree' where "materialize_remote_tree_only hash lower commit tree = Inr tree'"
    "validate_tree_id hash to_vec tree_id (sort_key te_normalized_path (bt_values tree')) = Inr ()"
    "sort_key te_normalized_path (map (stamp_entry (ch_commit_id (dc_header commit))) entries) =
       sort_key te_normalized_path (bt_values tree')"
proof -
  let ?c = "ch_commit_id (dc_header commit)"
  define start where "start = (if head = [] then [] else bt_collect te_file_id (list_tree_entries db head))"
  from assms(1) obtain t where fold: "res_fold (materialize_op reserved) (pl_file_ops plan) start = Inr t"
    and entries: "entries = sort_key te_normalized_path (bt_values t)"
    by (auto simp: materialize_tree_entries_def start_def Let_def res_bind_eq_Inr)
  have start: "stamp_tree ?c start = start_tree (dc_header commit) tree"
  proof (cases "head = []")
    case True
    then show ?thesis using assms(9) by (simp add: start_def start_tree_def stamp_tree_def)
  next
    case False
    with assms(8) have "start = tree" by (simp add: push_base_def start_def collect_tree)
    then show ?thesis using False assms(8,9) by (simp add: push_base_def start_tree_def stamp_tree_id)
  qed
  have "materialize_remote_tree_only hash lower commit tree = Inr (stamp_tree ?c t)"
    unfolding materialize_remote_tree_only_def start [symmetric] assms(6)
    by (rule materialize_published_ops [OF fold assms(2) [unfolded commit_body_file_ops_def] _ assms(5) refl])
      (use assms(4) in \<open>simp add: plan_publishable_def\<close>)
  moreover have stamped: "map (stamp_entry ?c) entries = sort_key te_normalized_path (bt_values (stamp_tree ?c t))"
    unfolding entries by (rule stamp_values)
  moreover have "validate_tree_id hash to_vec tree_id (map (stamp_entry ?c) entries) = Inr ()"
    using assms(3) by (simp add: validate_tree_id_def tree_id_for_entries_def stamp_body)
  ultimately show ?thesis using that [of "stamp_tree ?c t"] by (simp add: sort_key_id_if_sorted)
qed

lemma uploads_distinct:
  assumes "encrypted_uploads env input c kind parents seq reserved plan body wa = (Inr uploads, wb)"
    and "reservation_requests plan = Inr requests" "reserves_exactly requests ros" "reserved_commit_objects ros = Inr reserved"
    and "plan_publishable hash lower plan"
  shows "distinct (map ru_object_id uploads)"
proof -
  note objects = reserved_objects_of_plan [OF assms(3,2,4,5)]
  from assms(1) obtain ps u plain n where u: "uploads = ps @ [u]" "ru_object_id u = rc_body_object_id reserved"
    and l: "list_all2 (pack_uploaded env input c reserved) (pl_pack_shards plan) ps"
    by (rule encrypted_uploads_Inr) blast
  have "map ru_object_id ps = map (object_of reserved) (pl_pack_shards plan)"
    using l by (induction rule: list_all2_induct) (simp_all add: pack_uploaded_object)
  then have "distinct (map ru_object_id ps)" "rc_body_object_id reserved \<notin> set (map ru_object_id ps)"
    using objects(1,2) by simp_all
  then show ?thesis by (simp add: u)
qed

lemma publish_plan_accepted:
  fixes w :: "('f, 's) push_world"
  assumes ok: "push_env_ok env"
    and plan: "plan_publishable (ev_hash (se_base env)) (ev_lower (se_base env)) plan"
    and run: "publish_plan env input vault head parents kind plan w = (Inr res, w')"
    and base: "push_base head (sw_db w) tree" "(kind = Checkpoint) = (head = [])"
  obtains p published s s' uploads uploaded t t' where "se_publish_commit env p s = (Inr published, s')"
    "upload_reserved_objects (se_transfer env) (ph_workspace_id input) (ph_device_id input)
       (lit ''upload_'' @ pm_commit_id p) uploads t = (Inr uploaded, t')" "distinct (map ru_object_id uploads)"
    "pc_commit_id res = Some (pm_commit_id p)" "pm_expected_head_commit_id p = head" "pm_parent_commit_ids p = parents"
    "\<And>E dev seq. same_codecs E (se_base env) \<Longrightarrow>
       serves (ta_sha256 (se_transfer env)) E (ph_workspace_id input) dev uploads \<Longrightarrow>
       \<exists>tree'. accepts E (ph_workspace_id input) dev (ph_workspace_key input) (published_header p seq) tree tree' \<and>
         list_tree_entries (sw_db w') (pm_commit_id p) = sort_key te_normalized_path (bt_values tree')"
proof -
  let ?hash = "ev_hash (se_base env)" and ?lower = "ev_lower (se_base env)" and ?vec = "ev_tree_vec (se_base env)"
  from run obtain requests ros s0 s1 reserved entries tree_id changes commit_id uploads t t' uploaded metadata signature s2 s3
      published and wa wb wc :: "('f, 's) push_world" where
    r: "reservation_requests plan = Inr requests"
      "ta_reserve_object_ids (se_transfer env) (ph_workspace_id input) (ph_device_id input) requests s0 = (Inr ros, s1)"
      "reserved_commit_objects ros = Inr reserved"
    and tree: "materialize_tree_entries (sw_db w) head plan reserved = Inr entries"
      "tree_id_for_entries ?hash ?vec entries = Inr tree_id" "commit_body_file_ops plan reserved = Inr changes"
    and enc: "encrypted_uploads env input commit_id (plan_kind_label kind) parents (sv_next_device_seq vault) reserved plan
       (commit_body_of commit_id (plan_kind_label kind) parents tree_id changes plan reserved) wa = (Inr uploads, wb)"
    and up: "upload_reserved_objects (se_transfer env) (ph_workspace_id input) (ph_device_id input) (lit ''upload_'' @ commit_id)
       uploads t = (Inr uploaded, t')" "find (\<lambda>x. um_object_id x = rc_body_object_id reserved) uploaded = Some metadata"
    and pub: "se_publish_commit env (publish_request input vault head parents kind reserved commit_id metadata signature) s2 =
       (Inr published, s3)"
    and db: "apply_publish_success env (ph_vault_id input) published kind parents tree_id entries plan (sv_next_device_seq vault)
       (ph_now_ms input) wc = (Inr (), w')" "sw_db wc = sw_db w"
    and res: "pc_published res" "pc_commit_id res = Some commit_id"
    by (rule publish_plan_Inr)
  define p where "p = publish_request input vault head parents kind reserved commit_id metadata signature"
  have p: "pm_commit_id p = commit_id" "pm_expected_head_commit_id p = head" "pm_parent_commit_ids p = parents"
    "pm_commit_kind p = proto_commit_kind kind" by (simp_all add: p_def publish_request_def)
  have exact: "reserves_exactly requests ros" "pb_commit_id published = commit_id"
    using push_env_ok_server(1) [OF ok r(2)] push_env_ok_server(2) [OF ok pub] by (simp_all add: publish_request_def)
  have stored: "list_tree_entries (sw_db w') commit_id = sort_key te_normalized_path (map (stamp_entry commit_id) entries)"
    using apply_publish_success_Inr(1) [OF db(1)] by (simp add: exact(2))
  show ?thesis
  proof (rule that)
    show "se_publish_commit env p s2 = (Inr published, s3)" using pub by (simp add: p_def)
    show "upload_reserved_objects (se_transfer env) (ph_workspace_id input) (ph_device_id input)
       (lit ''upload_'' @ pm_commit_id p) uploads t = (Inr uploaded, t')" using up(1) by (simp add: p)
    show "distinct (map ru_object_id uploads)" by (rule uploads_distinct [OF enc r(1) exact(1) r(3) plan])
    show "pc_commit_id res = Some (pm_commit_id p)" "pm_expected_head_commit_id p = head" "pm_parent_commit_ids p = parents"
      by (simp_all add: p res)
    fix E dev seq
    assume E: "same_codecs E (se_base env)" "serves (ta_sha256 (se_transfer env)) E (ph_workspace_id input) dev uploads"
    let ?h = "published_header p seq" and ?body = "commit_body_of commit_id (plan_kind_label kind) parents tree_id changes plan reserved"
    obtain packs where dec: "decrypt_commit E (ph_workspace_id input) dev (ph_workspace_key input) ?h =
        Inr \<lparr>dc_header = ?h, dc_body = ?body, dc_packs = packs\<rparr>" "packs_hold reserved (pl_pack_shards plan) packs"
      by (rule published_commit_decrypts [OF ok plan r(1) exact(1) r(3) enc up refl p_def E, of seq])
    let ?commit = "\<lparr>dc_header = ?h, dc_body = ?body, dc_packs = packs\<rparr>"
    obtain tree' where "materialize_remote_tree_only ?hash ?lower ?commit tree = Inr tree'"
        "validate_tree_id ?hash ?vec tree_id (sort_key te_normalized_path (bt_values tree')) = Inr ()"
        "sort_key te_normalized_path (map (stamp_entry commit_id) entries) = sort_key te_normalized_path (bt_values tree')"
    proof (rule published_tree [OF tree(1,3,2) plan])
      show "packs_hold reserved (pl_pack_shards plan) (dc_packs ?commit)" using dec(2) by simp
      show "(ch_commit_kind (dc_header ?commit) = Kind_Checkpoint) = (head = [])"
        using base(2) by (cases kind) (simp_all add: published_header_def p)
    qed (use base(1) in \<open>auto simp: commit_body_of_def published_header_def p\<close>)
    then show "\<exists>tree'. accepts E (ph_workspace_id input) dev (ph_workspace_key input) ?h tree tree' \<and>
         list_tree_entries (sw_db w') (pm_commit_id p) = sort_key te_normalized_path (bt_values tree')"
      using dec(1) E(1) stored by (auto simp: accepts_def p same_codecs_def commit_body_of_def)
  qed
qed

end
