(* ===== verification/Sync_Push_Run.thy ===== *)
theory Sync_Push_Run
  imports Sync_Publish
begin

text \<open>
  The push of the local changes as a whole: the vault record it leaves, the scan it plans from, that every
  device accepts what it publishes, that its files are settled afterwards, and that it refuses to
  publish on top of a head it has not pulled.
\<close>

section \<open>What a push does\<close>

definition push_vault :: "('a) push_input_scheme \<Rightarrow> sync_head \<Rightarrow> sync_db \<Rightarrow> sync_vault_record" where
  "push_vault input head db = touched_push_vault input
     (case get_vault db (ph_vault_id input) of Some vault \<Rightarrow> vault | None \<Rightarrow> new_push_vault input head)"

lemma push_vault_fields:
  "sv_vault_id (push_vault input head db) = ph_vault_id input"
  "sv_local_head_commit_id (push_vault input head db) = (case get_vault db (ph_vault_id input) of
     Some vault \<Rightarrow> sv_local_head_commit_id vault | None \<Rightarrow> empty_to_none (hd_current_head_commit_id head))"
  by (auto simp: push_vault_def touched_push_vault_def new_push_vault_def Let_def get_vault_def
      dest: tbl_get_Some_key split: option.split)

lemma ensure_vault_record_run:
  "ensure_vault_record input head w =
     (Inr (push_vault input head (sw_db w)), w\<lparr>sw_db := upsert_vault (sw_db w) (push_vault input head (sw_db w))\<rparr>)"
  by (simp add: ensure_vault_record_def act_bind_def act_push_db_def Let_def push_vault_def)

lemma scan_for_push_Inr:
  "scan_for_push os env input w = (Inr (files, scan), w') \<longleftrightarrow>
     scan_vault (ev_hash (se_base env)) (ev_lower (se_base env)) (ph_vault_root input)
       (os_root os (sw_fs w) (ph_vault_root input)) = Inr files \<and>
     (\<exists>db. apply_scan (ev_hash (se_base env)) (sw_db w) (map file_input files) (ph_now_ms input) = Inr (db, scan) \<and>
       w' = w\<lparr>sw_db := db\<rparr>)"
  by (auto simp: scan_for_push_def act_bind_Inr split: sum.splits)

lemma push_local_changes_steps:
  fixes w :: "('f, 's) push_world"
  assumes "push_local_changes os env input w = (Inr res, w')"
  obtains head s files scan db plan where
    "se_get_head env (ph_workspace_id input) (tw_server (sw_transfer w)) = (Inr head, s)"
    "ensure_local_head_can_push (push_vault input head (sw_db w)) (hd_current_head_commit_id head) = Inr ()"
    "scan_vault (ev_hash (se_base env)) (ev_lower (se_base env)) (ph_vault_root input)
       (os_root os (sw_fs w) (ph_vault_root input)) = Inr files"
    "apply_scan (ev_hash (se_base env)) (upsert_vault (sw_db w) (push_vault input head (sw_db w)))
       (map file_input files) (ph_now_ms input) = Inr (db, scan)"
    "(if hd_current_head_commit_id head = []
      then plan_checkpoint (ev_hash (se_base env)) (se_plan_vec env) files (se_planner_config env)
      else plan_incremental (ev_hash (se_base env)) (se_plan_vec env) scan files (se_planner_config env)) = Inr plan"
    "(if plan_is_empty plan then act_lift (Inr nothing_pushed)
      else publish_plan env input (push_vault input head (sw_db w)) (hd_current_head_commit_id head)
       (parent_ids (hd_current_head_commit_id head))
       (if hd_current_head_commit_id head = [] then Checkpoint else Incremental) plan)
       (w\<lparr>sw_transfer := (sw_transfer w)\<lparr>tw_server := s\<rparr>, sw_db := db\<rparr>) = (Inr res, w')"
proof -
  from assms obtain head s files scan db plan where
    "se_get_head env (ph_workspace_id input) (tw_server (sw_transfer w)) = (Inr head, s)"
    "ensure_local_head_can_push (push_vault input head (sw_db w)) (hd_current_head_commit_id head) = Inr ()"
    "scan_vault (ev_hash (se_base env)) (ev_lower (se_base env)) (ph_vault_root input)
       (os_root os (sw_fs w) (ph_vault_root input)) = Inr files"
    "apply_scan (ev_hash (se_base env)) (upsert_vault (sw_db w) (push_vault input head (sw_db w)))
       (map file_input files) (ph_now_ms input) = Inr (db, scan)"
    "(if hd_current_head_commit_id head = []
      then plan_checkpoint (ev_hash (se_base env)) (se_plan_vec env) files (se_planner_config env)
      else plan_incremental (ev_hash (se_base env)) (se_plan_vec env) scan files (se_planner_config env)) = Inr plan"
    "(if plan_is_empty plan then act_lift (Inr nothing_pushed)
      else publish_plan env input (push_vault input head (sw_db w)) (hd_current_head_commit_id head)
       (parent_ids (hd_current_head_commit_id head))
       (if hd_current_head_commit_id head = [] then Checkpoint else Incremental) plan)
       (w\<lparr>sw_transfer := (sw_transfer w)\<lparr>tw_server := s\<rparr>, sw_db := db\<rparr>) = (Inr res, w')"
    unfolding push_local_changes_def Let_def
    by (auto simp only: act_bind_Inr act_transfer_Inr act_server_Inr ensure_vault_record_run scan_for_push_Inr act_lift_Inr
        prod.inject sum.inject split_paired_all prod.case push_world.simps) (auto cong: if_cong)
  then show ?thesis by (rule that)
qed

lemma push_local_changes_Inr:
  fixes w :: "('f, 's) push_world"
  assumes "push_local_changes os env input w = (Inr res, w')" "pc_published res"
  obtains head s files scan db plan w1 where
    "se_get_head env (ph_workspace_id input) (tw_server (sw_transfer w)) = (Inr head, s)"
    "ensure_local_head_can_push (push_vault input head (sw_db w)) (hd_current_head_commit_id head) = Inr ()"
    "scan_vault (ev_hash (se_base env)) (ev_lower (se_base env)) (ph_vault_root input)
       (os_root os (sw_fs w) (ph_vault_root input)) = Inr files"
    "apply_scan (ev_hash (se_base env)) (upsert_vault (sw_db w) (push_vault input head (sw_db w)))
       (map file_input files) (ph_now_ms input) = Inr (db, scan)"
    "(if hd_current_head_commit_id head = []
      then plan_checkpoint (ev_hash (se_base env)) (se_plan_vec env) files (se_planner_config env)
      else plan_incremental (ev_hash (se_base env)) (se_plan_vec env) scan files (se_planner_config env)) = Inr plan"
    "publish_plan env input (push_vault input head (sw_db w)) (hd_current_head_commit_id head)
       (parent_ids (hd_current_head_commit_id head))
       (if hd_current_head_commit_id head = [] then Checkpoint else Incremental) plan w1 = (Inr res, w')"
    "sw_db w1 = db"
proof -
  have n: "\<not> pc_published nothing_pushed" by (simp add: nothing_pushed_def)
  from assms(1) show ?thesis
  proof (rule push_local_changes_steps)
    fix head s files scan db plan
    assume steps:
      "se_get_head env (ph_workspace_id input) (tw_server (sw_transfer w)) = (Inr head, s)"
      "ensure_local_head_can_push (push_vault input head (sw_db w)) (hd_current_head_commit_id head) = Inr ()"
      "scan_vault (ev_hash (se_base env)) (ev_lower (se_base env)) (ph_vault_root input)
       (os_root os (sw_fs w) (ph_vault_root input)) = Inr files"
      "apply_scan (ev_hash (se_base env)) (upsert_vault (sw_db w) (push_vault input head (sw_db w)))
       (map file_input files) (ph_now_ms input) = Inr (db, scan)"
      "(if hd_current_head_commit_id head = []
      then plan_checkpoint (ev_hash (se_base env)) (se_plan_vec env) files (se_planner_config env)
      else plan_incremental (ev_hash (se_base env)) (se_plan_vec env) scan files (se_planner_config env)) = Inr plan"
      "(if plan_is_empty plan then act_lift (Inr nothing_pushed)
      else publish_plan env input (push_vault input head (sw_db w)) (hd_current_head_commit_id head)
       (parent_ids (hd_current_head_commit_id head))
       (if hd_current_head_commit_id head = [] then Checkpoint else Incremental) plan)
       (w\<lparr>sw_transfer := (sw_transfer w)\<lparr>tw_server := s\<rparr>, sw_db := db\<rparr>) = (Inr res, w')"
    then have "\<not> plan_is_empty plan" using n assms(2) by auto
    with steps show ?thesis using that by auto
  qed
qed

text \<open>What the scan of a push reports.\<close>

lemma push_scan_reports:
  assumes "lower_ok lower" "db_wf hash db" "fs_wf (FsDir es err)"
    and "scan_vault hash lower root (Inr (FsDir es err)) = Inr files"
    and "inj_on (file_id_of hash) (sf_normalized_path ` set (db_files db) \<union> scf_normalized_path ` set files)"
    and "apply_scan hash (upsert_vault db vault) (map file_input files) now = Inr (db', scan)"
  shows "map sf_normalized_path (sar_upserts scan) = map scf_normalized_path files"
    "set (sar_deletions scan) \<subseteq> mark_deleted_row now ` set (db_files db)"
proof -
  have rows: "db_files (upsert_vault db vault) = db_files db" by (simp add: upsert_vault_def)
  have paths: "si_normalized_path ` set (map file_input files) = scf_normalized_path ` set files"
    by (auto simp: file_input_def image_image)
  have wf: "files_wf hash (db_files (upsert_vault db vault))" using assms(2) rows by (simp add: db_wf_def)
  from apply_scan_ok [OF wf _ scan_vault_inputs_ok [OF assms(1,3,4)], of now] assms(5,6) paths rows
  have scan: "sar_upserts scan = map (\<lambda>f. scan_row hash (file_view (db_files db) (si_normalized_path f)) f) (map file_input files)"
    "sar_deletions scan = map (mark_deleted_row now)
         (filter (gone_row (map si_normalized_path (map file_input files))) (list_files (upsert_vault db vault)))"
    by auto
  have norm: "sf_normalized_path (scan_row hash (file_view (db_files db) (si_normalized_path g)) g) = si_normalized_path g" for g
    by (rule scan_row_norm) (auto dest: file_view_key)
  show "map sf_normalized_path (sar_upserts scan) = map scf_normalized_path files"
    unfolding scan by (simp add: norm o_def) (simp add: file_input_def)
  show "set (sar_deletions scan) \<subseteq> mark_deleted_row now ` set (db_files db)"
    unfolding scan using rows by (auto simp: list_files_def)
qed

lemma pushed_plan_publishable:
  assumes "lower_ok lower" "db_wf hash db" "\<forall>r\<in>set (db_files db). row_publishable hash lower r"
    and "fs_wf (FsDir es err)" "\<forall>x\<in>fs_names (FsDir es err). backslash \<notin> set x"
    and "scan_vault hash lower root (Inr (FsDir es err)) = Inr files"
    and "inj_on (file_id_of hash) (sf_normalized_path ` set (db_files db) \<union> scf_normalized_path ` set files)"
    and "apply_scan hash (upsert_vault db vault) (map file_input files) now = Inr (db', scan)"
    and "(if head = [] then plan_checkpoint hash to_vec files config else plan_incremental hash to_vec scan files config) = Inr plan"
  shows "plan_publishable hash lower plan"
proof -
  note files = scanned_publishable [OF assms(1,4,6,5)]
  note d = scan_vault_Inr(2) [OF assms(6,4)]
  note reported = push_scan_reports [OF assms(1,2,4,6,7,8)]
  have d2: "distinct (map sf_normalized_path (sar_upserts scan))" unfolding reported(1) by (rule d)
  have del: "row_publishable hash lower r" if "r \<in> set (sar_deletions scan)" for r
    using that assms(3) reported(2) by (auto simp: row_publishable_def mark_deleted_row_def)
  show ?thesis
  proof (cases "head = []")
    case True
    with assms(9) plan_checkpoint_publishable [OF _ d files] show ?thesis by simp
  next
    case False
    with assms(9) plan_incremental_publishable [OF _ d d2 files del] show ?thesis by simp
  qed
qed

text \<open>
  C2. What a push publishes, every other device accepts. Suppose a push of changes on top of the cached tree of
  the remote head succeeds. Then for any device that uses the same libraries and the workspace key, and any
  server that returns the uploaded objects, the published commit decrypts, every file in it passes all
  checks of the pull, the resulting tree has the tree id of the commit, and it is the tree that the
  publishing device has stored for the commit. (Hypotheses: the laws of the libraries and the server, file
  ids without collision, and no backslash in file names, which a path on the wire cannot carry.)
\<close>
theorem published_commit_accepted:
  assumes "push_env_ok env" "lower_ok (ev_lower (se_base env))" "db_wf (ev_hash (se_base env)) (sw_db w)"
    and "\<forall>r\<in>set (db_files (sw_db w)). row_publishable (ev_hash (se_base env)) (ev_lower (se_base env)) r"
    and "os_root os (sw_fs w) (ph_vault_root input) = Inr (FsDir es err)" "fs_wf (FsDir es err)"
    and "\<forall>x\<in>fs_names (FsDir es err). backslash \<notin> set x"
    and "scan_vault (ev_hash (se_base env)) (ev_lower (se_base env)) (ph_vault_root input) (Inr (FsDir es err)) = Inr files"
    and "inj_on (file_id_of (ev_hash (se_base env))) (sf_normalized_path ` set (db_files (sw_db w)) \<union> scf_normalized_path ` set files)"
    and "se_get_head env (ph_workspace_id input) (tw_server (sw_transfer w)) = (Inr head, s0)"
    and "push_base (hd_current_head_commit_id head) (sw_db w) tree"
    and "push_local_changes os env input w = (Inr res, w')" "pc_published res"
  shows "\<exists>p published s s' uploads uploaded t t'.
    se_publish_commit env p s = (Inr published, s') \<and> pc_commit_id res = Some (pm_commit_id p) \<and>
    pm_expected_head_commit_id p = hd_current_head_commit_id head \<and>
    upload_reserved_objects (se_transfer env) (ph_workspace_id input) (ph_device_id input)
      (lit ''upload_'' @ pm_commit_id p) uploads t = (Inr uploaded, t') \<and> distinct (map ru_object_id uploads) \<and>
    (\<forall>E dev seq. same_codecs E (se_base env) \<and>
       serves (ta_sha256 (se_transfer env)) E (ph_workspace_id input) dev uploads \<longrightarrow>
       (\<exists>tree'. accepts E (ph_workspace_id input) dev (ph_workspace_key input) (published_header p seq) tree tree' \<and>
         list_tree_entries (sw_db w') (pm_commit_id p) = sort_key te_normalized_path (bt_values tree')))"
proof -
  from push_local_changes_Inr [OF assms(12,13)] assms(5,8,10) obtain scan db plan w1 where
    scan: "apply_scan (ev_hash (se_base env)) (upsert_vault (sw_db w) (push_vault input head (sw_db w)))
       (map file_input files) (ph_now_ms input) = Inr (db, scan)"
    and plan: "(if hd_current_head_commit_id head = []
      then plan_checkpoint (ev_hash (se_base env)) (se_plan_vec env) files (se_planner_config env)
      else plan_incremental (ev_hash (se_base env)) (se_plan_vec env) scan files (se_planner_config env)) = Inr plan"
    and run: "publish_plan env input (push_vault input head (sw_db w)) (hd_current_head_commit_id head)
       (parent_ids (hd_current_head_commit_id head))
       (if hd_current_head_commit_id head = [] then Checkpoint else Incremental) plan w1 = (Inr res, w')"
    and db: "sw_db w1 = db" by (metis Pair_inject Inr_inject)
  have ok: "plan_publishable (ev_hash (se_base env)) (ev_lower (se_base env)) plan"
    by (rule pushed_plan_publishable [OF assms(2,3,4,6,7,8,9) scan plan])
  have "list_tree_entries (sw_db w1) = list_tree_entries (sw_db w)"
    using apply_scan_tables [OF scan] db by (intro list_tree_entries_cong) (simp add: upsert_vault_def)
  then have base: "push_base (hd_current_head_commit_id head) (sw_db w1) tree" using assms(11) by (simp add: push_base_def)
  show ?thesis by (rule publish_plan_accepted [OF assms(1) ok run base]) (auto, blast)
qed

lemma planned_file_ids:
  assumes "assign_pack_entries hash files kind config = Inr shards" "distinct (map scf_normalized_path files)"
    and "build_plan hash to_vec commit_kind files deletions shards = Inr plan"
  shows "set (plan_changed_file_ids plan) = scf_file_id ` set files \<union> sf_file_id ` set deletions"
proof -
  have ops: "set (pl_file_ops plan) = snd ` plan_pair (entry_refs shards) ` set files \<union> plan_delete ` set deletions"
    using assms(3) plan_upserts_ok [OF assms(1,2)] by (auto simp: build_plan_def Let_def res_bind_eq_Inr)
  have u: "plan_op_file_id (snd (plan_pair (entry_refs shards) f)) = scf_file_id f" if "f \<in> set files" for f
    using entry_refs_stored [OF assms(1,2) that] by (auto simp: plan_pair_def plan_upsert_def plan_op_file_id_def)
  have d: "plan_op_file_id (plan_delete r) = sf_file_id r" for r by (simp add: plan_delete_def plan_op_file_id_def)
  have "plan_op_file_id ` snd ` plan_pair (entry_refs shards) ` set files = scf_file_id ` set files"
    unfolding image_image by (rule image_cong [OF refl u])
  then show ?thesis by (simp add: plan_changed_file_ids_def ops image_Un image_image d)
qed

text \<open>What a scan reports for a live row is the row.\<close>

lemma scanned_live_row:
  assumes "files_wf hash (db_files db)" "scan_inputs_ok files" "apply_scan hash db files now = Inr (db', scan)"
    and "inj_on (file_id_of hash) (sf_normalized_path ` set (db_files db) \<union> si_normalized_path ` set files)"
    and "r \<in> set (db_files db')" "\<not> sf_deleted r"
  shows "r \<in> set (sar_upserts scan)" "sf_file_id r = file_id_of hash (sf_normalized_path r)"
    "sf_normalized_path r \<in> si_normalized_path ` set files"
proof -
  from apply_scan_ok [OF assms(1,4,2), of now] assms(3) have
    ups: "sar_upserts scan = map (\<lambda>f. scan_row hash (file_view (db_files db) (si_normalized_path f)) f) files"
    and wf: "files_wf hash (db_files db')" and v: "file_view (db_files db') = scan_view hash (file_view (db_files db)) files now" by auto
  show "sf_file_id r = file_id_of hash (sf_normalized_path r)" using wf assms(5) by (simp add: files_wf_def)
  have "file_view (db_files db') (sf_normalized_path r) = Some r"
    using wf assms(5) by (intro file_view_mem) (auto simp: files_wf_def)
  then have s: "scan_view hash (file_view (db_files db)) files now (sf_normalized_path r) = Some r" unfolding v .
  then show k: "sf_normalized_path r \<in> si_normalized_path ` set files" using scan_view_live assms(6) by metis
  then obtain f where f: "find (\<lambda>f. si_normalized_path f = sf_normalized_path r) files = Some f"
    by (metis find_si_None option.exhaust)
  then have "f \<in> set files" "si_normalized_path f = sf_normalized_path r" using find_SomeD by fast+
  then show "r \<in> set (sar_upserts scan)" using s f unfolding ups by (force simp: scan_view_def)
qed

lemma pushed_plan_covers:
  assumes "lower_ok lower" "db_wf hash db" "fs_wf (FsDir es err)"
    and "scan_vault hash lower root (Inr (FsDir es err)) = Inr files"
    and "inj_on (file_id_of hash) (sf_normalized_path ` set (db_files db) \<union> scf_normalized_path ` set files)"
    and "apply_scan hash (upsert_vault db vault) (map file_input files) now = Inr (db', scan)"
    and "(if head = [] then plan_checkpoint hash to_vec files config else plan_incremental hash to_vec scan files config) = Inr plan"
    and "r \<in> set (db_files db')" "\<not> sf_deleted r" "sf_dirty r"
  shows "sf_file_id r \<in> set (plan_changed_file_ids plan)"
proof -
  note d = scan_vault_Inr(2) [OF assms(4,3)]
  have rows: "db_files (upsert_vault db vault) = db_files db" by (simp add: upsert_vault_def)
  have input: "si_normalized_path (file_input f) = scf_normalized_path f" for f by (simp add: file_input_def)
  have wf: "files_wf hash (db_files (upsert_vault db vault))" using assms(2) rows by (simp add: db_wf_def)
  have inj: "inj_on (file_id_of hash) (sf_normalized_path ` set (db_files (upsert_vault db vault)) \<union>
      si_normalized_path ` set (map file_input files))" using assms(5) rows by (simp add: input image_image)
  note row = scanned_live_row [OF wf scan_vault_inputs_ok [OF assms(1,3,4)] assms(6) inj assms(8,9)]
  have id: "scf_file_id f = sf_file_id r" if f: "f \<in> set files" "scf_normalized_path f = sf_normalized_path r" for f
  proof -
    obtain ws data where "scan_file hash lower root (root @ map Normal ws) data = Inr f"
      using f(1) unfolding scan_vault_Inr(3) [OF assms(4,3)] by auto
    then have "scf_file_id f = file_id_for_normalized_path hash (scf_normalized_path f)"
      by (auto simp: scan_file_def Let_def res_bind_eq_Inr)
    then show ?thesis using row(2) f(2) by simp
  qed
  show ?thesis
  proof (cases "head = []")
    case True
    with assms(7) obtain shards where a: "assign_pack_entries hash files CHECKPOINT_PACK_KIND config = Inr shards"
      "build_plan hash to_vec Checkpoint files [] shards = Inr plan"
      by (auto simp: plan_checkpoint_def res_bind_eq_Inr)
    obtain f where "f \<in> set files" "scf_normalized_path f = sf_normalized_path r"
      using row(3) by (auto simp: input)
    then show ?thesis unfolding planned_file_ids [OF a(1) d a(2)] using id by (metis UnI1 image_eqI)
  next
    case False
    have d2: "distinct (map sf_normalized_path (sar_upserts scan))"
      unfolding push_scan_reports(1) [OF assms(1-6)] by (rule d)
    have inc: "plan_incremental hash to_vec scan files config = Inr plan" using assms(7) False by simp
    obtain us shards where
      us: "set us \<subseteq> set files" "distinct (map scf_normalized_path us)"
        "map scf_normalized_path us = map sf_normalized_path (filter (\<lambda>r. sf_dirty r \<and> \<not> sf_deleted r) (sar_upserts scan))"
      and a: "assign_pack_entries hash us CONTENT_PACK_KIND config = Inr shards"
        "build_plan hash to_vec Incremental us (sar_deletions scan) shards = Inr plan"
      by (rule plan_incremental_Inr [OF inc d d2])
    have "sf_normalized_path r \<in> set (map scf_normalized_path us)" unfolding us(3) using row(1) assms(9,10) by auto
    then obtain f where "f \<in> set us" "scf_normalized_path f = sf_normalized_path r" by auto
    then show ?thesis unfolding planned_file_ids [OF a(1) us(2) a(2)] using id us(1) by (metis UnI1 image_eqI subsetD)
  qed
qed

text \<open>No file that still exists is left to be uploaded, whether or not there was something to publish.\<close>

lemma push_leaves_no_live_dirty:
  fixes w :: "('f, 's) push_world"
  assumes "push_env_ok env" "lower_ok (ev_lower (se_base env))" "db_wf (ev_hash (se_base env)) (sw_db w)"
    and "os_root os (sw_fs w) (ph_vault_root input) = Inr (FsDir es err)" "fs_wf (FsDir es err)"
    and "scan_vault (ev_hash (se_base env)) (ev_lower (se_base env)) (ph_vault_root input) (Inr (FsDir es err)) = Inr files"
    and "inj_on (file_id_of (ev_hash (se_base env))) (sf_normalized_path ` set (db_files (sw_db w)) \<union> scf_normalized_path ` set files)"
    and "push_local_changes os env input w = (Inr res, w')"
    and "r \<in> set (list_dirty_files (sw_db w'))"
  shows "sf_deleted r"
proof (rule ccontr)
  assume live: "\<not> sf_deleted r"
  from push_local_changes_steps [OF assms(8)] assms(4,6) obtain head s scan db plan where
    scan: "apply_scan (ev_hash (se_base env)) (upsert_vault (sw_db w) (push_vault input head (sw_db w)))
       (map file_input files) (ph_now_ms input) = Inr (db, scan)"
    and plan: "(if hd_current_head_commit_id head = []
      then plan_checkpoint (ev_hash (se_base env)) (se_plan_vec env) files (se_planner_config env)
      else plan_incremental (ev_hash (se_base env)) (se_plan_vec env) scan files (se_planner_config env)) = Inr plan"
    and run: "(if plan_is_empty plan then act_lift (Inr nothing_pushed)
      else publish_plan env input (push_vault input head (sw_db w)) (hd_current_head_commit_id head)
       (parent_ids (hd_current_head_commit_id head))
       (if hd_current_head_commit_id head = [] then Checkpoint else Incremental) plan)
       (w\<lparr>sw_transfer := (sw_transfer w)\<lparr>tw_server := s\<rparr>, sw_db := db\<rparr>) = (Inr res, w')" by (metis Inr_inject)
  from assms(9) have r: "sf_dirty r" "r \<in> set (db_files (sw_db w'))" by (auto simp: list_dirty_files_def)
  note covered = pushed_plan_covers [OF assms(2,3,5,6,7) scan plan _ live r(1)]
  show False
  proof (cases "plan_is_empty plan")
    case True
    with run have "db = sw_db w'" "plan_changed_file_ids plan = []"
      by (auto simp: plan_is_empty_def plan_changed_file_ids_def)
    then show False using covered r(2) by simp
  next
    case False
    with run have "publish_plan env input (push_vault input head (sw_db w)) (hd_current_head_commit_id head)
       (parent_ids (hd_current_head_commit_id head))
       (if hd_current_head_commit_id head = [] then Checkpoint else Incremental) plan
       (w\<lparr>sw_transfer := (sw_transfer w)\<lparr>tw_server := s\<rparr>, sw_db := db\<rparr>) = (Inr res, w')" by simp
    then obtain published wc tree_id entries kind parents n where
      pub: "apply_publish_success env (ph_vault_id input) published kind parents tree_id entries plan n (ph_now_ms input) wc = (Inr (), w')"
        "sw_db wc = db"
      by (rule publish_plan_Inr) simp
    have "r \<in> set (db_files db)" "sf_file_id r \<notin> set (plan_changed_file_ids plan)"
      using r unfolding apply_publish_success_Inr(3) [OF pub(1)] pub(2) mark_files_synced_def
      by (auto simp: mark_files_synced_rows tbl_update_def mark_file_synced_def)
    then show False using covered by blast
  qed
qed

text \<open>
  C7. After a successful push that published a commit, the commit is the local and the remote head of the vault,
  the sequence number of the device has advanced by one, and no file that still exists is left to be
  uploaded.
\<close>
theorem push_settles:
  assumes "push_env_ok env" "lower_ok (ev_lower (se_base env))" "db_wf (ev_hash (se_base env)) (sw_db w)"
    and "os_root os (sw_fs w) (ph_vault_root input) = Inr (FsDir es err)" "fs_wf (FsDir es err)"
    and "scan_vault (ev_hash (se_base env)) (ev_lower (se_base env)) (ph_vault_root input) (Inr (FsDir es err)) = Inr files"
    and "inj_on (file_id_of (ev_hash (se_base env))) (sf_normalized_path ` set (db_files (sw_db w)) \<union> scf_normalized_path ` set files)"
    and "push_local_changes os env input w = (Inr res, w')" "pc_published res"
  shows "\<exists>head v. get_vault (sw_db w') (ph_vault_id input) = Some v \<and> pc_commit_id res \<noteq> None \<and>
    sv_local_head_commit_id v = pc_commit_id res \<and> sv_remote_head_commit_id v = pc_commit_id res \<and>
    sv_next_device_seq v = i64_add (sv_next_device_seq (push_vault input head (sw_db w))) 1 \<and>
    (\<forall>r\<in>set (list_dirty_files (sw_db w')). sf_deleted r)"
proof -
  from push_local_changes_Inr [OF assms(8,9)] assms(4,6) obtain head scan db plan w1 where
    scan: "apply_scan (ev_hash (se_base env)) (upsert_vault (sw_db w) (push_vault input head (sw_db w)))
       (map file_input files) (ph_now_ms input) = Inr (db, scan)"
    and plan: "(if hd_current_head_commit_id head = []
      then plan_checkpoint (ev_hash (se_base env)) (se_plan_vec env) files (se_planner_config env)
      else plan_incremental (ev_hash (se_base env)) (se_plan_vec env) scan files (se_planner_config env)) = Inr plan"
    and run: "publish_plan env input (push_vault input head (sw_db w)) (hd_current_head_commit_id head)
       (parent_ids (hd_current_head_commit_id head))
       (if hd_current_head_commit_id head = [] then Checkpoint else Incremental) plan w1 = (Inr res, w')"
    and db: "sw_db w1 = db" by (metis Inr_inject)
  let ?vault = "push_vault input head (sw_db w)"
  from run obtain published commit_id wc tree_id entries kind parents where
    pub: "apply_publish_success env (ph_vault_id input) published kind parents tree_id entries plan (sv_next_device_seq ?vault)
       (ph_now_ms input) wc = (Inr (), w')" "sw_db wc = db" "pc_commit_id res = Some commit_id" "pb_commit_id published = commit_id"
    by (rule publish_plan_Inr) (use db push_env_ok_server(2) [OF assms(1)] in \<open>force simp: publish_request_def\<close>)
  note after = apply_publish_success_Inr [OF pub(1), unfolded pub(2,4)]
  have "get_vault db (ph_vault_id input) = get_vault (upsert_vault (sw_db w) ?vault) (ph_vault_id input)"
    using apply_scan_tables [OF scan] get_vault_cong by metis
  also have "\<dots> \<noteq> None" by (simp add: get_upserted_vault push_vault_fields split: option.split)
  finally obtain v0 where "get_vault db (ph_vault_id input) = Some v0" by auto
  then have v: "get_vault (sw_db w') (ph_vault_id input) =
      Some (published_head commit_id (i64_add (sv_next_device_seq ?vault) 1) (ph_now_ms input) v0)" using after(2) by simp
  have "sf_deleted r" if "r \<in> set (list_dirty_files (sw_db w'))" for r
    by (rule push_leaves_no_live_dirty [OF assms(1-8) that])
  then show ?thesis using v pub(3) by (auto simp: published_head_def)
qed


text \<open>The record that a push makes for a vault without one takes the head of the server for the local head, although nothing was pulled.\<close>

lemma unrecorded_head_accepted:
  assumes "get_vault (sw_db w) (ph_vault_id input) = None"
  shows "ensure_local_head_can_push (push_vault input head (sw_db w)) (hd_current_head_commit_id head) = Inr ()"
  using assms by (auto simp: ensure_local_head_can_push_def local_head_of_def push_vault_fields empty_to_none_def split: option.splits if_splits)

section \<open>A small push\<close>

text \<open>The device has pulled \<open>c1\<close>, which holds \<open>a.md\<close>; the user has deleted the file. The push publishes
  the deletion.\<close>

definition small_push :: push_input where
  "small_push = \<lparr>ph_vault_id = lit ''v'', ph_vault_root = example_root, ph_workspace_id = lit ''w'', ph_device_id = lit ''d'',
     ph_workspace_key = [], ph_signing_key = [], ph_now_ms = 5\<rparr>"

definition small_entry :: sync_tree_entry_record where
  "small_entry = \<lparr>te_commit_id = lit ''c1'', te_file_id = lit ''file_h'', te_normalized_path = lit ''a.md'',
     te_plaintext_hash = Some (lit ''h''), te_content_object_id = Some (lit ''o''), te_pack_entry_id = Some (lit ''e''),
     te_kind = FILE_KIND_MARKDOWN\<rparr>"

definition small_row :: sync_file_record where
  "small_row = \<lparr>sf_file_id = lit ''file_h'', sf_path = lit ''a.md'', sf_normalized_path = lit ''a.md'', sf_kind = FILE_KIND_MARKDOWN,
     sf_plaintext_hash = Some (lit ''h''), sf_size_bytes = Some 1, sf_mtime_ms = Some 1,
     sf_last_synced_commit_id = Some (lit ''c1''), sf_dirty = False, sf_deleted = False\<rparr>"

definition small_vault :: sync_vault_record where
  "small_vault = \<lparr>sv_vault_id = lit ''v'', sv_root_path = [], sv_remote_workspace_id = lit ''w'',
     sv_remote_head_commit_id = Some (lit ''c1''), sv_local_head_commit_id = Some (lit ''c1''), sv_device_id = lit ''d'',
     sv_next_device_seq = 1, sv_enabled = True, sv_created_at_ms = 0, sv_updated_at_ms = 0\<rparr>"

definition small_db :: sync_db where
  "small_db = \<lparr>db_metadata = [], db_vaults = [small_vault], db_files = [small_row], db_commits = [], db_commit_trees = [],
     db_tree_entries = [\<lparr>tr_commit_id = lit ''c1'', tr_content_commit_id = Some (lit ''c1''), tr_entry = small_entry\<rparr>],
     db_tree_entries_have_content_commit = True, db_conflicts = []\<rparr>"

definition small_body :: commit_body where
  "small_body = \<lparr>bd_format = lit ''kuku.sync.commit-body'', bd_version = 1, bd_commit_id = lit ''commit_h'',
     bd_commit_kind = lit ''incremental'', bd_parent_commit_ids = [lit ''c1''], bd_tree_id = lit ''tree_h'',
     bd_changes = [DeleteFile (lit ''file_h'') (lit ''a.md'') (lit ''a.md'')], bd_packs = []\<rparr>"

text \<open>Object ids are numbered within a request; the body is the only one the JSON library writes and reads.\<close>

definition small_env :: "nat push_env" where
  "small_env =
     \<lparr>se_base = example_pull_env\<lparr>ev_body_parse := (\<lambda>_. Inr small_body)\<rparr>,
      se_transfer = example_transfer_api\<lparr>ta_reserve_object_ids := (\<lambda>_ _ objects s.
        (Inr (map2 (\<lambda>i x. \<lparr>ro_client_object_ref = ori_client_object_ref x, ro_object_id = replicate (Suc i) 111,
          ro_kind = ori_kind x\<rparr>) [0..<length objects] objects), s))\<rparr>,
      se_get_head = (\<lambda>_ s. (Inr example_head, s)),
      se_publish_commit = (\<lambda>p s. (Inr \<lparr>pb_commit_id = pm_commit_id p, pb_head_version = 2, pb_idempotent = False\<rparr>, s)),
      se_body_vec = (\<lambda>b. if b = small_body then Inr [] else Inl []), se_plan_vec = (\<lambda>_. Inr []),
      se_identity_vec = (\<lambda>_. Inr []), se_signature_vec = (\<lambda>_. Inr []), se_nonce = (\<lambda>_. replicate 24 0),
      se_planner_config = default_planner_config\<rparr>"

definition small_world :: "((path \<times> bytes) list, nat) push_world" where
  "small_world = \<lparr>sw_fs = [], sw_db = small_db, sw_transfer = example_transfer_world, sw_draws = 0\<rparr>"

lemma small_env_fields [simp]:
  "ev_hash (se_base small_env) = (\<lambda>_. lit ''h'')" "ev_lower (se_base small_env) = to_ascii_lowercase"
  "ev_prims (se_base small_env) = example_prims" "ev_pack (se_base small_env) = example_env"
  "ev_tree_vec (se_base small_env) = (\<lambda>_. Inr [])" "ev_tree_string (se_base small_env) = (\<lambda>_. Inr [])"
  "ev_parents_json (se_base small_env) = (\<lambda>_. Inr [])" "ev_body_json (se_base small_env) = (\<lambda>_. Inr [])"
  "se_get_head small_env = (\<lambda>_ s. (Inr example_head, s))"
  by (simp_all add: small_env_def example_pull_env_def)

lemma small_env_ok: "push_env_ok small_env"
proof -
  have "distinct (map ro_object_id (map2 (\<lambda>i x. \<lparr>ro_client_object_ref = ori_client_object_ref x,
      ro_object_id = replicate (Suc i) 111, ro_kind = ori_kind x\<rparr>) [0..<length objects] objects))"
    for objects :: "object_reservation_input list"
  proof -
    have "map ro_object_id (map2 (\<lambda>i x. \<lparr>ro_client_object_ref = ori_client_object_ref x,
        ro_object_id = replicate (Suc i) 111, ro_kind = ori_kind x\<rparr>) [0..<length objects] objects) =
      map (\<lambda>i. replicate (Suc i) 111) [0..<length objects]" (is "?l = ?r")
      by (rule nth_equalityI) simp_all
    moreover have "distinct ?r" by (auto simp: distinct_map inj_on_def dest: arg_cong [where f = length])
    ultimately show ?thesis by simp
  qed
  moreover have "map ro_client_object_ref (map2 (\<lambda>i x. \<lparr>ro_client_object_ref = ori_client_object_ref x,
      ro_object_id = replicate (Suc i) 111, ro_kind = ori_kind x\<rparr>) [0..<length objects] objects) =
      map ori_client_object_ref objects" for objects :: "object_reservation_input list"
    by (rule nth_equalityI) simp_all
  ultimately show ?thesis
    by (auto simp: push_env_ok_def example_prims_ok example_env_ok reserves_exactly_def)
      (auto simp: small_env_def example_pull_env_def split: if_splits)
qed

lemma small_root: "os_root flat_os (sw_fs small_world) (ph_vault_root small_push) = Inr (FsDir [] None)"
  by (simp add: flat_os_def small_world_def List.map_filter_simps)

lemma small_scan: "scan_vault hash lower root (Inr (FsDir [] None)) = Inr []"
  by (simp add: scan_vault_def validate_unique_normalized_paths_def)

lemma small_wf: "db_wf (\<lambda>_. lit ''h'') small_db"
  by (simp add: db_wf_def small_db_def files_wf_def unique_key_def small_row_def file_id_for_normalized_path_def)

lemma small_row_publishable: "row_publishable (\<lambda>_. lit ''h'') to_ascii_lowercase small_row"
  by (simp add: row_publishable_def small_row_def validate_remote_file_identity_def validate_required_def std_simps
      normalize_vault_relative_path_def file_id_for_normalized_path_def is_markdown_path_def)

definition small_deleted :: sync_file_record where
  "small_deleted = mark_deleted_row 5 small_row"

definition small_plan :: sync_plan where
  "small_plan = \<lparr>pl_commit_kind = Incremental, pl_tree_id = lit ''tree_h'', pl_tree_entries = [],
     pl_file_ops = [Delete (lit ''file_h'') (lit ''a.md'') (lit ''a.md'')], pl_pack_shards = []\<rparr>"

lemma small_apply_scan:
  "apply_scan hash (upsert_vault small_db v) [] 5 =
     Inr ((upsert_vault small_db v)\<lparr>db_files := [small_deleted]\<rparr>, \<lparr>sar_upserts = [], sar_deletions = [small_deleted]\<rparr>)"
  by (simp add: apply_scan_def upsert_vault_def small_db_def list_files_def small_row_def scan_delete_step_def small_deleted_def
      mark_deleted_row_def tbl_update_def get_file_by_id_def tbl_get_def Let_def)

lemma small_planned:
  "plan_incremental (\<lambda>_. lit ''h'') (\<lambda>_. Inr []) \<lparr>sar_upserts = [], sar_deletions = [small_deleted]\<rparr> [] default_planner_config = Inr small_plan"
  by (simp add: plan_incremental_def assign_pack_entries_def build_plan_def small_plan_def validate_config_def
      compute_tree_id_def json_result_def plan_delete_def small_deleted_def mark_deleted_row_def small_row_def default_planner_config_def
      DEFAULT_MAX_PACK_PLAINTEXT_BYTES_def)

lemma small_base: "push_base (lit ''c1'') small_db [(lit ''file_h'', small_entry)]"
  by (simp add: push_base_def tree_ok_def bt_ordered_def keyed_by_def bt_values_def list_tree_entries_def small_db_def
     sync_tree_entry_from_row_def small_entry_def)

definition small_blob :: bytes where
  "small_blob = blob_frame (replicate 24 0) (cp_sha256 example_prims []) []"

lemma small_upload:
  "\<exists>t'. upload_reserved_objects (se_transfer small_env) (lit ''w'') (lit ''d'') (lit ''upload_commit_h'')
     [\<lparr>ru_object_id = lit ''o'', ru_kind = Object_CommitBody, ru_ciphertext = small_blob\<rparr>] example_transfer_world =
     (Inr [\<lparr>um_object_id = lit ''o'', um_ciphertext_sha256 = lit ''7'', um_size_bytes = int (length small_blob)\<rparr>], t')"
proof -
  have attempts: "max_attempts (ta_config (se_transfer small_env)) = 3" "[0..<3] = [0::nat, 1, 2]"
    by (simp_all add: small_env_def example_transfer_api_def default_transfer_config_def upt_rec)
  show ?thesis
    unfolding upload_reserved_objects_def upload_planned_objects_def attempts
    by (simp add: small_env_def small_blob_def blob_frame_def BLOB_MAGIC_def example_prims_def
        validate_required_def std_simps Let_def emit_progress_def example_transfer_world_def upload_once_def
        attempt_of_call_def act_server_def upload_attempt_def run_tasks_def upload_one_def finish_task_def act_bind_def
        emit_attempt_progress_def example_transfer_api_def local_reserved_upload_from_def checked_size_def
        i64_try_from_usize_def i64_max_def btree_of_def validate_upload_completions_def check_completion_def)
qed

lemma small_publish:
  assumes "sw_transfer w = example_transfer_world" "list_tree_entries (sw_db w) (lit ''c1'') = [small_entry]"
    and "sv_next_device_seq vault = 1" "sw_draws w = 0"
  shows "\<exists>res w'. publish_plan small_env small_push vault (lit ''c1'') [lit ''c1''] Incremental small_plan w = (Inr res, w') \<and>
    pc_published res"
proof -
  obtain t' where up: "upload_reserved_objects (se_transfer small_env) (lit ''w'') (lit ''d'') (lit ''upload_commit_h'')
     [\<lparr>ru_object_id = lit ''o'', ru_kind = Object_CommitBody, ru_ciphertext = small_blob\<rparr>] example_transfer_world =
     (Inr [\<lparr>um_object_id = lit ''o'', um_ciphertext_sha256 = lit ''7'', um_size_bytes = int (length small_blob)\<rparr>], t')"
    using small_upload by blast
  have reserve: "reserve_commit_objects small_env ws dev small_plan w =
      (Inr \<lparr>rc_body_object_id = lit ''o'', rc_pack_object_ids = []\<rparr>, w)" for ws dev
    using assms(1) by (simp add: reserve_commit_objects_def reservation_requests_def small_plan_def act_bind_def act_transfer_def
        act_server_def small_env_def reserved_commit_objects_def COMMIT_BODY_REF_def)
  have tree: "materialize_tree_entries (sw_db w) (lit ''c1'') small_plan \<lparr>rc_body_object_id = lit ''o'', rc_pack_object_ids = []\<rparr> = Inr []"
    using assms(2) by (simp add: materialize_tree_entries_def small_plan_def small_entry_def bt_collect_def bt_values_def bt_remove_def)
  have json: "se_body_vec small_env small_body = Inr []" "\<And>x. se_identity_vec small_env x = Inr []" "\<And>x. se_signature_vec small_env x = Inr []"
    "\<And>n. se_nonce small_env n = replicate 24 0"
    by (simp_all add: small_env_def)
  have blob: "encrypt_commit_body example_prims (\<lambda>_ :: commit_body_aad. Inr []) key aad [] (replicate 24 0) = Inr small_blob" for key aad
    by (simp add: encrypt_commit_body_def encrypt_blob_with_nonce_def canonical_json_def example_prims_def small_blob_def)
  have body: "commit_body_of (lit ''commit_h'') (lit ''incremental'') [lit ''c1''] (lit ''tree_h'')
     [DeleteFile (lit ''file_h'') (lit ''a.md'') (lit ''a.md'')] small_plan \<lparr>rc_body_object_id = lit ''o'', rc_pack_object_ids = []\<rparr> = small_body"
    by (simp add: commit_body_of_def small_body_def commit_body_pack_refs_def small_plan_def List.map_filter_simps)
  have enc: "encrypted_uploads small_env small_push c k ps n \<lparr>rc_body_object_id = lit ''o'', rc_pack_object_ids = []\<rparr> small_plan small_body w =
     (Inr [\<lparr>ru_object_id = lit ''o'', ru_kind = Object_CommitBody, ru_ciphertext = small_blob\<rparr>], w\<lparr>sw_draws := 1\<rparr>)" for c k ps n
    using assms(4) by (simp add: encrypted_uploads_def small_plan_def act_bind_def act_draw_def Let_def json json_result_def blob)
  have input: "ph_workspace_id small_push = lit ''w''" "ph_device_id small_push = lit ''d''" by (simp_all add: small_push_def)
  have ops: "commit_body_file_ops small_plan \<lparr>rc_body_object_id = lit ''o'', rc_pack_object_ids = []\<rparr> =
      Inr [DeleteFile (lit ''file_h'') (lit ''a.md'') (lit ''a.md'')]"
    "tree_id_for_entries (\<lambda>_. lit ''h'') (\<lambda>_. Inr []) [] = Inr (lit ''tree_h'')" "\<And>i. commit_id_for small_env i = Inr (lit ''commit_h'')"
    by (simp_all add: commit_body_file_ops_def small_plan_def tree_id_for_entries_def commit_id_for_def json json_result_def)
  have saved: "apply_publish_success small_env v p k ps t [] plan n now w' \<noteq> (Inl e, w'')"
    for v p k ps t plan n now e and w' w'' :: "('a, nat) push_world"
    by (simp add: apply_publish_success_def act_bind_def act_push_db_def tree_json_for_entries_def json_result_def persist_tree_cache_def)
  have published: "se_publish_commit small_env p s = (Inr \<lparr>pb_commit_id = pm_commit_id p, pb_head_version = 2, pb_idempotent = False\<rparr>, s)" for p s
    by (simp add: small_env_def)
  have w0: "sw_transfer (w\<lparr>sw_draws := 1\<rparr>) = example_transfer_world" using assms(1) by simp
  have signed: "sign_commit_payload example_prims (se_signature_vec small_env) k payload = Inr []" for k payload
    by (simp add: sign_commit_payload_def canonical_json_def json example_prims_def)
  show ?thesis
    by (simp add: publish_plan_def act_bind_def reserve tree [simplified] enc [simplified] up [simplified] Let_def ops [simplified]
      body [simplified] act_transfer_def assms(1) w0 input [simplified] signed act_server_def published saved
      split: prod.split sum.split)
qed

lemma small_pushes:
  "\<exists>res w'. push_local_changes flat_os small_env small_push small_world = (Inr res, w') \<and> pc_published res"
proof -
  have valid: "validate_push_input small_push = Inr ()"
    by (simp add: validate_push_input_def validate_required_def small_push_def std_simps)
  let ?vault = "push_vault small_push example_head small_db"
  have vault: "sv_local_head_commit_id ?vault = Some (lit ''c1'')" "sv_next_device_seq ?vault = 1"
    by (simp_all add: push_vault_def small_world_def small_db_def get_vault_def tbl_get_def small_vault_def touched_push_vault_def
        small_push_def)
  have head: "ensure_local_head_can_push ?vault (lit ''c1'') = Inr ()" "hd_current_head_commit_id example_head = lit ''c1''"
    by (simp add: ensure_local_head_can_push_def local_head_of_def vault) (simp add: example_head_def)
  have db: "sw_db small_world = small_db" by (simp add: small_world_def)
  let ?w = "small_world\<lparr>sw_db := upsert_vault small_db ?vault\<rparr>"
  let ?w' = "?w\<lparr>sw_db := (upsert_vault small_db ?vault)\<lparr>db_files := [small_deleted]\<rparr>\<rparr>"
  have scan: "scan_for_push flat_os small_env small_push ?w =
      (Inr ([], \<lparr>sar_upserts = [], sar_deletions = [small_deleted]\<rparr>), ?w')"
    unfolding scan_for_push_Inr using small_root small_apply_scan
    by (auto simp: small_scan small_push_def)
  have "list_tree_entries (sw_db ?w') (lit ''c1'') = [small_entry]"
    using small_base by (simp add: push_base_def upsert_vault_def list_tree_entries_def bt_values_def)
  then obtain res w' where run: "publish_plan small_env small_push ?vault (lit ''c1'') [lit ''c1''] Incremental small_plan ?w' = (Inr res, w')"
    "pc_published res"
    using small_publish [of ?w' ?vault] vault by (auto simp: small_world_def)
  have "plan_incremental (\<lambda>_. lit ''h'') (se_plan_vec small_env) \<lparr>sar_upserts = [], sar_deletions = [small_deleted]\<rparr> [] (se_planner_config small_env) = Inr small_plan"
    using small_planned by (simp add: small_env_def)
  moreover have "\<not> plan_is_empty small_plan" by (simp add: plan_is_empty_def small_plan_def)
  ultimately have "push_local_changes flat_os small_env small_push small_world = (Inr res, w')"
    using run(1) head by (simp add: push_local_changes_def act_bind_def valid ensure_vault_record_run scan db act_transfer_def
        act_server_def parent_ids_def Let_def)
  then show ?thesis using run(2) by blast
qed

text \<open>There is a server that returns the uploaded objects to every device.\<close>

lemma serves_uploads:
  assumes "distinct (map ru_object_id uploads)"
  obtains E where "same_codecs E base" "serves sha E ws dev uploads"
proof -
  let ?E = "base\<lparr>ev_download_objects := (\<lambda>_ _ ids. Inr (map (\<lambda>i. served sha (the (find (\<lambda>u. ru_object_id u = i) uploads))) ids))\<rparr>"
  have f: "find (\<lambda>v. ru_object_id v = ru_object_id u) uploads = Some u" if "u \<in> set uploads" for u
    using assms that by (induction uploads) (auto simp: image_iff)
  have "same_codecs ?E base" by (simp add: same_codecs_def)
  moreover have "serves sha ?E ws dev uploads" using f by (auto simp: serves_def)
  ultimately show ?thesis by (rule that)
qed

lemma small_hyps:
  "push_env_ok small_env" "lower_ok (ev_lower (se_base small_env))" "db_wf (ev_hash (se_base small_env)) (sw_db small_world)"
  "\<forall>r\<in>set (db_files (sw_db small_world)). row_publishable (ev_hash (se_base small_env)) (ev_lower (se_base small_env)) r"
  "fs_wf (FsDir [] None)" "\<forall>x\<in>fs_names (FsDir [] None). backslash \<notin> set x"
  "scan_vault (ev_hash (se_base small_env)) (ev_lower (se_base small_env)) (ph_vault_root small_push) (Inr (FsDir [] None)) = Inr []"
  "inj_on (file_id_of (ev_hash (se_base small_env))) (sf_normalized_path ` set (db_files (sw_db small_world)) \<union> scf_normalized_path ` set [])"
  "push_base (hd_current_head_commit_id example_head) (sw_db small_world) [(lit ''file_h'', small_entry)]"
proof -
  have db: "sw_db small_world = small_db" "db_files small_db = [small_row]" "hd_current_head_commit_id example_head = lit ''c1''"
    by (simp_all add: small_world_def small_db_def example_head_def)
  show "db_wf (ev_hash (se_base small_env)) (sw_db small_world)"
    "push_base (hd_current_head_commit_id example_head) (sw_db small_world) [(lit ''file_h'', small_entry)]"
    unfolding db small_env_fields by (rule small_wf small_base)+
qed (simp_all add: small_env_ok lower_ok_ascii small_scan small_world_def small_db_def small_row_publishable [simplified])

theorem published_commit_accepted_witness:
  "\<exists>res w' p E tree'. push_local_changes flat_os small_env small_push small_world = (Inr res, w') \<and>
     pc_commit_id res = Some (pm_commit_id p) \<and> pm_expected_head_commit_id p = lit ''c1'' \<and>
     accepts E (lit ''w'') (lit ''other'') [] (published_header p 7) [(lit ''file_h'', small_entry)] tree'"
proof -
  obtain res w' where run: "push_local_changes flat_os small_env small_push small_world = (Inr res, w')" "pc_published res"
    using small_pushes by blast
  have head: "se_get_head small_env (ph_workspace_id small_push) (tw_server (sw_transfer small_world)) =
      (Inr example_head, tw_server (sw_transfer small_world))" by simp
  from published_commit_accepted [OF small_hyps(1-4) small_root small_hyps(5-8) head small_hyps(9) run]
  obtain p uploads where p: "pc_commit_id res = Some (pm_commit_id p)" "pm_expected_head_commit_id p = hd_current_head_commit_id example_head"
    "distinct (map ru_object_id uploads)"
    and acc: "\<And>E dev seq. same_codecs E (se_base small_env) \<Longrightarrow>
       serves (ta_sha256 (se_transfer small_env)) E (ph_workspace_id small_push) dev uploads \<Longrightarrow>
       (\<exists>tree'. accepts E (ph_workspace_id small_push) dev (ph_workspace_key small_push) (published_header p seq)
          [(lit ''file_h'', small_entry)] tree')" by blast
  obtain E where "same_codecs E (se_base small_env)" "serves (ta_sha256 (se_transfer small_env)) E (ph_workspace_id small_push) (lit ''other'') uploads"
    by (rule serves_uploads [OF p(3)])
  from acc [OF this] obtain tree' where a: "accepts E (ph_workspace_id small_push) (lit ''other'') (ph_workspace_key small_push) (published_header p 7)
          [(lit ''file_h'', small_entry)] tree'" by blast
  moreover have "ph_workspace_id small_push = lit ''w''" "ph_workspace_key small_push = []" by (simp_all add: small_push_def)
  moreover have "pm_expected_head_commit_id p = lit ''c1''" unfolding p(2) by (simp add: example_head_def)
  ultimately show ?thesis using run(1) p(1) by metis
qed

theorem push_settles_witness:
  "\<exists>res w'. push_local_changes flat_os small_env small_push small_world = (Inr res, w') \<and>
     (\<forall>r\<in>set (list_dirty_files (sw_db w')). sf_deleted r)"
proof -
  obtain res w' where run: "push_local_changes flat_os small_env small_push small_world = (Inr res, w')" "pc_published res"
    using small_pushes by blast
  from push_settles [OF small_hyps(1-3) small_root small_hyps(5,7,8) run] run(1) show ?thesis by blast
qed


section \<open>A deletion that an earlier scan has seen\<close>

text \<open>
  A scan reports a deletion once. When another caller than the push records the scan first (the pull,
  the status display, a push that fails later), the row stays dirty and deleted and no later scan reports it.
\<close>

lemma repeated_scan_reports_no_deletion:
  assumes wf: "files_wf hash (db_files db)" and ok: "scan_inputs_ok files"
    and inj: "inj_on (file_id_of hash) (sf_normalized_path ` set (db_files db) \<union> si_normalized_path ` set files)"
    and runs: "apply_scan hash db files now = Inr (db', res)" "apply_scan hash db' files now' = Inr (db'', res')"
  shows "sar_deletions res' = []"
proof -
  from apply_scan_ok [OF wf inj ok, of now] runs(1) obtain rows where db': "db' = db\<lparr>db_files := rows\<rparr>"
    and rows: "files_wf hash rows" "file_view rows = scan_view hash (file_view (db_files db)) files now" by auto
  have "inj_on (file_id_of hash) (sf_normalized_path ` set (db_files db') \<union> si_normalized_path ` set files)"
    using scan_view_paths [OF rows] by (intro inj_on_subset [OF inj]) (auto simp: db')
  from apply_scan_ok [OF _ this ok, of now'] runs(2) rows(1)
  have "sar_deletions res' = map (mark_deleted_row now') (filter (gone_row (map si_normalized_path files)) (list_files db'))"
    by (auto simp: db')
  moreover have "\<not> gone_row (map si_normalized_path files) r" if "r \<in> set rows" for r
    using that scan_live_paths [OF rows] by (auto simp: gone_row_def)
  ultimately show ?thesis by (simp add: db' list_files_def)
qed

definition small_seen :: sync_db where
  "small_seen = (case apply_scan (\<lambda>_. lit ''h'') small_db [] 4 of Inr (db, _) \<Rightarrow> db | Inl e \<Rightarrow> small_db)"

lemma small_seen_eq: "small_seen = small_db\<lparr>db_files := [mark_deleted_row 4 small_row]\<rparr>"
  by (simp add: small_seen_def apply_scan_def small_db_def list_files_def small_row_def scan_delete_step_def
      mark_deleted_row_def tbl_update_def get_file_by_id_def tbl_get_def Let_def)

lemma seen_deletion_not_published:
  "\<exists>w'. push_local_changes flat_os small_env small_push (small_world\<lparr>sw_db := small_seen\<rparr>) = (Inr nothing_pushed, w') \<and>
     list_dirty_files (sw_db w') = [mark_deleted_row 4 small_row]"
proof -
  have valid: "validate_push_input small_push = Inr ()"
    by (simp add: validate_push_input_def validate_required_def small_push_def std_simps)
  let ?vault = "push_vault small_push example_head small_seen"
  have vault: "sv_local_head_commit_id ?vault = Some (lit ''c1'')"
    by (simp add: push_vault_def small_seen_eq small_db_def get_vault_def tbl_get_def small_vault_def touched_push_vault_def
        small_push_def)
  have head: "ensure_local_head_can_push ?vault (lit ''c1'') = Inr ()" "hd_current_head_commit_id example_head = lit ''c1''"
    by (simp add: ensure_local_head_can_push_def local_head_of_def vault) (simp add: example_head_def)
  let ?w = "small_world\<lparr>sw_db := upsert_vault small_seen ?vault\<rparr>"
  have "apply_scan hash (upsert_vault small_seen v) [] 5 = Inr (upsert_vault small_seen v, \<lparr>sar_upserts = [], sar_deletions = []\<rparr>)" for hash v
    by (simp add: apply_scan_def upsert_vault_def small_seen_eq small_db_def list_files_def scan_delete_step_def mark_deleted_row_def)
  then have scan: "scan_for_push flat_os small_env small_push ?w = (Inr ([], \<lparr>sar_upserts = [], sar_deletions = []\<rparr>), ?w)"
    unfolding scan_for_push_Inr using small_root by (auto simp: small_scan small_push_def)
  have plan: "\<exists>p. plan_incremental (\<lambda>_. lit ''h'') (se_plan_vec small_env) \<lparr>sar_upserts = [], sar_deletions = []\<rparr> [] (se_planner_config small_env) =
      Inr p \<and> plan_is_empty p"
    by (simp add: small_env_def plan_incremental_def assign_pack_entries_def build_plan_def validate_config_def
      compute_tree_id_def json_result_def default_planner_config_def DEFAULT_MAX_PACK_PLAINTEXT_BYTES_def plan_is_empty_def)
  have "push_local_changes flat_os small_env small_push (small_world\<lparr>sw_db := small_seen\<rparr>) = (Inr nothing_pushed, ?w)"
    using head plan by (auto simp: push_local_changes_def act_bind_def valid ensure_vault_record_run scan act_transfer_def
        act_server_def parent_ids_def Let_def)
  then show ?thesis
    by (simp add: list_dirty_files_def small_seen_eq upsert_vault_def small_db_def mark_deleted_row_def)
qed

end
