(* ===== verification/Sync_State.thy ===== *)
theory Sync_State
  imports Sync_Transfer
begin

text \<open>
  \<open>sync/mod.rs\<close> and the records of \<open>sync/types.rs\<close>: the status that the user interface shows and the lock
  that keeps two runs of the sync engine apart. Every method takes the lock for its whole body, so
  an operation is a function on \<open>sync_inner\<close>; its argument \<open>now\<close> is the clock it reads.

  \<open>sync_op\<close> names the operations with their arguments, \<open>sync_step\<close> runs one, and \<open>sync_reachable\<close> are the states
  that any interleaving of operations can produce.
\<close>

section \<open>Data\<close>

record sync_vault_config =
  cf_vault_id :: rstr
  cf_root_path :: rstr
  cf_account_key_id :: "rstr option"
  cf_remote_workspace_id :: rstr
  cf_workspace_name :: "rstr option"
  cf_device_id :: rstr
  cf_device_name :: "rstr option"
  cf_remember_workspace_key :: bool
  cf_passphrase :: "rstr option"

datatype sync_phase =
    Phase_NotConfigured
  | Phase_Disabled
  | Phase_Idle
  | Phase_Planning
  | Phase_Packing
  | Phase_Transferring
  | Phase_Publishing
  | Phase_Applying
  | Phase_Error

datatype sync_transfer_direction = Dir_Idle | Dir_Upload | Dir_Download | Dir_Both

record sync_transfer_status =
  ts_active :: bool
  ts_direction :: sync_transfer_direction
  ts_retrying :: bool
  ts_upload_total_objects :: int
  ts_upload_completed_objects :: int
  ts_upload_failed_objects :: int
  ts_download_total_objects :: int
  ts_download_completed_objects :: int
  ts_download_failed_objects :: int
  ts_retry_attempt :: "int option"
  ts_max_attempts :: "int option"
  ts_next_retry_at_ms :: "int option"
  ts_last_transfer_error :: "rstr option"

definition default_transfer_status :: sync_transfer_status where
  "default_transfer_status =
     \<lparr>ts_active = False, ts_direction = Dir_Idle, ts_retrying = False, ts_upload_total_objects = 0,
      ts_upload_completed_objects = 0, ts_upload_failed_objects = 0, ts_download_total_objects = 0,
      ts_download_completed_objects = 0, ts_download_failed_objects = 0, ts_retry_attempt = None,
      ts_max_attempts = None, ts_next_retry_at_ms = None, ts_last_transfer_error = None\<rparr>"

record sync_runtime_status =
  rt_configured :: bool
  rt_enabled :: bool
  rt_phase :: sync_phase
  rt_vault_id :: "rstr option"
  rt_root_path :: "rstr option"
  rt_vault_name :: "rstr option"
  rt_account_key_id :: "rstr option"
  rt_remote_workspace_id :: "rstr option"
  rt_workspace_name :: "rstr option"
  rt_device_id :: "rstr option"
  rt_device_name :: "rstr option"
  rt_remember_workspace_key :: bool
  rt_last_error :: "rstr option"
  rt_last_error_category :: "sync_error_category option"
  rt_last_synced_at_ms :: "int option"
  rt_pending_uploads :: int
  rt_pending_downloads :: int
  rt_transfer :: sync_transfer_status
  rt_conflict_count :: int
  rt_updated_at_ms :: int

definition not_configured :: "int \<Rightarrow> sync_runtime_status" where
  "not_configured updated_at_ms =
     \<lparr>rt_configured = False, rt_enabled = False, rt_phase = Phase_NotConfigured, rt_vault_id = None, rt_root_path = None,
      rt_vault_name = None, rt_account_key_id = None, rt_remote_workspace_id = None, rt_workspace_name = None,
      rt_device_id = None, rt_device_name = None, rt_remember_workspace_key = True, rt_last_error = None,
      rt_last_error_category = None, rt_last_synced_at_ms = None, rt_pending_uploads = 0, rt_pending_downloads = 0,
      rt_transfer = default_transfer_status, rt_conflict_count = 0, rt_updated_at_ms = updated_at_ms\<rparr>"

record sync_inner =
  si_status :: sync_runtime_status
  si_active_run_id :: "64 word option"
  si_next_run_id :: "64 word"

section \<open>Helpers\<close>

fun sync_transfer_direction_of :: "transfer_direction \<Rightarrow> sync_transfer_direction" where
  "sync_transfer_direction_of Upload = Dir_Upload"
| "sync_transfer_direction_of Download = Dir_Download"

fun transfer_return_phase :: "transfer_direction \<Rightarrow> sync_phase" where
  "transfer_return_phase Upload = Phase_Publishing"
| "transfer_return_phase Download = Phase_Applying"

definition next_run_id :: "64 word \<Rightarrow> 64 word" where
  "next_run_id current = (let next = current + 1 in if next = 0 then 1 else next)"

definition validate_sync_config :: "sync_vault_config \<Rightarrow> unit sync_result" where
  "validate_sync_config config =
     (if str_trim (cf_vault_id config) = [] then Inl (InvalidArgument (lit ''vault_id is required''))
      else if str_trim (cf_root_path config) = [] then Inl (InvalidArgument (lit ''root_path is required''))
      else Inr ())"

text \<open>\<open>and_then(to_str)\<close> is always \<open>Some\<close>: the path was made from a string.\<close>

definition vault_name_from_root :: "rstr \<Rightarrow> rstr option" where
  "vault_name_from_root root_path =
     Option.bind (path_file_name (path_components root_path)) (\<lambda>name.
       let name = str_trim name in if name = [] then None else Some name)"

datatype transfer_count = Count_Completed | Count_Failed

text \<open>One counter: incremented without overflow and capped by a positive total.\<close>

definition bump_count :: "int \<Rightarrow> int \<Rightarrow> int" where
  "bump_count cap n = (let n = i64_saturating_add n 1 in if 0 < cap then min n cap else n)"

fun increment_transfer_count :: "transfer_direction \<Rightarrow> transfer_count \<Rightarrow> sync_transfer_status \<Rightarrow> sync_transfer_status" where
  "increment_transfer_count Upload Count_Completed t =
     t\<lparr>ts_upload_completed_objects := bump_count (ts_upload_total_objects t) (ts_upload_completed_objects t)\<rparr>"
| "increment_transfer_count Upload Count_Failed t =
     t\<lparr>ts_upload_failed_objects := bump_count (ts_upload_total_objects t) (ts_upload_failed_objects t)\<rparr>"
| "increment_transfer_count Download Count_Completed t =
     t\<lparr>ts_download_completed_objects := bump_count (ts_download_total_objects t) (ts_download_completed_objects t)\<rparr>"
| "increment_transfer_count Download Count_Failed t =
     t\<lparr>ts_download_failed_objects := bump_count (ts_download_total_objects t) (ts_download_failed_objects t)\<rparr>"

section \<open>Operations\<close>

type_synonym 'a sync_method = "(sync_inner, 'a) act"

definition sync_state_new :: "int \<Rightarrow> sync_inner" where
  "sync_state_new now = \<lparr>si_status = not_configured now, si_active_run_id = None, si_next_run_id = 1\<rparr>"

definition is_sync_running :: "sync_inner \<Rightarrow> bool" where
  "is_sync_running inner \<longleftrightarrow> si_active_run_id inner \<noteq> None"

text \<open>Store a status and return it.\<close>

definition put_status :: "sync_runtime_status \<Rightarrow> sync_runtime_status sync_method" where
  "put_status status inner = (Inr status, inner\<lparr>si_status := status\<rparr>)"

definition configured_status :: "sync_vault_config \<Rightarrow> bool \<Rightarrow> int option \<Rightarrow> int \<Rightarrow> sync_runtime_status" where
  "configured_status config enabled last_synced_at_ms now =
     \<lparr>rt_configured = True, rt_enabled = enabled, rt_phase = (if enabled then Phase_Idle else Phase_Disabled),
      rt_vault_id = Some (cf_vault_id config), rt_root_path = Some (cf_root_path config),
      rt_vault_name = vault_name_from_root (cf_root_path config), rt_account_key_id = cf_account_key_id config,
      rt_remote_workspace_id = Some (cf_remote_workspace_id config), rt_workspace_name = cf_workspace_name config,
      rt_device_id = Some (cf_device_id config), rt_device_name = cf_device_name config,
      rt_remember_workspace_key = cf_remember_workspace_key config, rt_last_error = None,
      rt_last_error_category = None, rt_last_synced_at_ms = last_synced_at_ms, rt_pending_uploads = 0,
      rt_pending_downloads = 0, rt_transfer = default_transfer_status, rt_conflict_count = 0, rt_updated_at_ms = now\<rparr>"

definition restore_vault_with_status ::
  "sync_vault_config \<Rightarrow> bool \<Rightarrow> int option \<Rightarrow> int \<Rightarrow> sync_runtime_status sync_method" where
  "restore_vault_with_status config enabled last_synced_at_ms now =
     act_bind (act_lift (validate_sync_config config)) (\<lambda>_.
     put_status (configured_status config enabled last_synced_at_ms now))"

definition configure_vault :: "sync_vault_config \<Rightarrow> int \<Rightarrow> sync_runtime_status sync_method" where
  "configure_vault config now = restore_vault_with_status config False None now"

definition reset_status :: "int \<Rightarrow> sync_runtime_status sync_method" where
  "reset_status now inner = put_status (not_configured now) (inner\<lparr>si_active_run_id := None\<rparr>)"

definition set_phase :: "sync_phase \<Rightarrow> int \<Rightarrow> sync_runtime_status sync_method" where
  "set_phase phase now inner =
     (let status = si_status inner
      in if \<not> rt_configured status then (Inl NotConfigured, inner)
         else if \<not> rt_enabled status \<and> phase \<noteq> Phase_Disabled
         then (Inl (InvalidArgument (lit ''sync must be enabled before entering an active phase'')), inner)
         else put_status (status\<lparr>rt_phase := phase, rt_last_error := None, rt_last_error_category := None,
           rt_transfer := (if phase = Phase_Transferring then rt_transfer status else default_transfer_status),
           rt_updated_at_ms := now\<rparr>) inner)"

text \<open>
  Enabling stores the flag, gives the lock back and calls \<open>set_phase\<close>, which takes it again; \<open>store_enabled\<close> is the
  first part, after which other operations may run.
\<close>

definition store_enabled :: "unit sync_method" where
  "store_enabled inner =
     (if \<not> rt_configured (si_status inner) then (Inl NotConfigured, inner)
      else (Inr (), inner\<lparr>si_status := (si_status inner)\<lparr>rt_enabled := True\<rparr>\<rparr>))"

definition set_enabled :: "bool \<Rightarrow> int \<Rightarrow> sync_runtime_status sync_method" where
  "set_enabled enabled now inner =
     (let status = si_status inner
      in if \<not> rt_configured status then (Inl NotConfigured, inner)
         else if enabled then act_bind store_enabled (\<lambda>_. set_phase Phase_Idle now) inner
         else put_status (status\<lparr>rt_enabled := False, rt_phase := Phase_Disabled, rt_last_error := None,
           rt_last_error_category := None, rt_transfer := default_transfer_status, rt_updated_at_ms := now\<rparr>) inner)"

definition enabled_before_run :: "sync_runtime_status \<Rightarrow> unit sync_result" where
  "enabled_before_run status =
     (if \<not> rt_configured status then Inl NotConfigured
      else if \<not> rt_enabled status
      then Inl (InvalidArgument (lit ''sync must be enabled before running sync now''))
      else Inr ())"

definition begin_sync_run :: "64 word sync_method" where
  "begin_sync_run inner =
     (case enabled_before_run (si_status inner) of
        Inl e \<Rightarrow> (Inl e, inner)
      | Inr _ \<Rightarrow>
          if is_sync_running inner then (Inl (InvalidArgument (lit ''sync is already running'')), inner)
          else (Inr (si_next_run_id inner),
            inner\<lparr>si_next_run_id := next_run_id (si_next_run_id inner),
                  si_active_run_id := Some (si_next_run_id inner)\<rparr>))"

definition finish_sync_run :: "64 word \<Rightarrow> unit sync_method" where
  "finish_sync_run run_id inner =
     (Inr (), if si_active_run_id inner = Some run_id then inner\<lparr>si_active_run_id := None\<rparr> else inner)"

definition complete_manual_sync :: "int \<Rightarrow> int \<Rightarrow> sync_runtime_status sync_method" where
  "complete_manual_sync conflict_count now inner =
     (let status = si_status inner
      in case enabled_before_run status of
           Inl e \<Rightarrow> (Inl e, inner)
         | Inr _ \<Rightarrow> put_status (status\<lparr>rt_phase := Phase_Idle, rt_last_error := None, rt_last_error_category := None,
             rt_last_synced_at_ms := Some now, rt_pending_uploads := 0, rt_pending_downloads := 0,
             rt_transfer := default_transfer_status, rt_conflict_count := conflict_count, rt_updated_at_ms := now\<rparr>) inner)"

definition set_pending_counts :: "int \<Rightarrow> int \<Rightarrow> int \<Rightarrow> sync_runtime_status sync_method" where
  "set_pending_counts pending_uploads pending_downloads now inner =
     (let status = si_status inner
      in if \<not> rt_configured status then (Inl NotConfigured, inner)
         else if rt_pending_uploads status = pending_uploads \<and> rt_pending_downloads status = pending_downloads
         then (Inr status, inner)
         else put_status (status\<lparr>rt_pending_uploads := max pending_uploads 0,
           rt_pending_downloads := max pending_downloads 0, rt_updated_at_ms := now\<rparr>) inner)"

definition is_remote_status_category :: "sync_error_category \<Rightarrow> bool" where
  "is_remote_status_category c \<longleftrightarrow>
     c \<in> {Cat_LoginRequired, Cat_PermissionRequired, Cat_SyncDisabled, Cat_Offline, Cat_Server}"

definition clear_remote_status_error :: "int \<Rightarrow> (sync_runtime_status option) sync_method" where
  "clear_remote_status_error now inner =
     (let status = si_status inner
      in if \<not> rt_configured status then (Inl NotConfigured, inner)
         else if is_sync_running inner then (Inr None, inner)
         else case rt_last_error_category status of
                None \<Rightarrow> (Inr None, inner)
              | Some c \<Rightarrow>
                  if \<not> is_remote_status_category c then (Inr None, inner)
                  else
                    let status = status\<lparr>rt_phase := (if rt_enabled status then Phase_Idle else Phase_Disabled),
                      rt_last_error := None, rt_last_error_category := None, rt_transfer := default_transfer_status,
                      rt_updated_at_ms := now\<rparr>
                    in (Inr (Some status), inner\<lparr>si_status := status\<rparr>))"

definition update_workspace_name :: "rstr \<Rightarrow> rstr \<Rightarrow> int \<Rightarrow> (sync_runtime_status option) sync_method" where
  "update_workspace_name workspace_id workspace_name now inner =
     (let status = si_status inner
      in if \<not> rt_configured status then (Inr None, inner)
         else if rt_remote_workspace_id status \<noteq> Some workspace_id then (Inr None, inner)
         else
           let status = status\<lparr>rt_workspace_name := Some workspace_name, rt_updated_at_ms := now\<rparr>
           in (Inr (Some status), inner\<lparr>si_status := status\<rparr>))"

fun started_transfer :: "transfer_direction \<Rightarrow> int \<Rightarrow> int \<Rightarrow> int \<Rightarrow> sync_transfer_status" where
  "started_transfer direction total_objects attempt attempts =
     (let transfer = default_transfer_status\<lparr>ts_active := True, ts_direction := sync_transfer_direction_of direction,
            ts_retrying := False, ts_retry_attempt := Some attempt, ts_max_attempts := Some attempts\<rparr>
      in case direction of
           Upload \<Rightarrow> transfer\<lparr>ts_upload_total_objects := total_objects\<rparr>
         | Download \<Rightarrow> transfer\<lparr>ts_download_total_objects := total_objects\<rparr>)"

fun progress_status :: "transfer_progress_event \<Rightarrow> sync_runtime_status \<Rightarrow> sync_runtime_status" where
  "progress_status (BatchStarted direction total_objects attempt attempts) status =
     status\<lparr>rt_phase := Phase_Transferring, rt_last_error := None, rt_last_error_category := None,
            rt_transfer := started_transfer direction total_objects attempt attempts\<rparr>"
| "progress_status (ObjectCompleted direction) status =
     status\<lparr>rt_transfer := increment_transfer_count direction Count_Completed (rt_transfer status)\<rparr>"
| "progress_status (ObjectFailed direction message) status =
     status\<lparr>rt_transfer := (increment_transfer_count direction Count_Failed (rt_transfer status))
              \<lparr>ts_last_transfer_error := Some message\<rparr>\<rparr>"
| "progress_status (RetryScheduled direction next_attempt attempts next_retry_at_ms message) status =
     status\<lparr>rt_transfer := (rt_transfer status)\<lparr>ts_active := True, ts_direction := sync_transfer_direction_of direction,
              ts_retrying := True, ts_retry_attempt := Some next_attempt, ts_max_attempts := Some attempts,
              ts_next_retry_at_ms := Some next_retry_at_ms, ts_last_transfer_error := Some message\<rparr>\<rparr>"
| "progress_status (BatchCompleted direction) status =
     status\<lparr>rt_phase := transfer_return_phase direction, rt_transfer := default_transfer_status,
            rt_last_error := None, rt_last_error_category := None\<rparr>"
| "progress_status (BatchFailed direction message) status =
     status\<lparr>rt_transfer := default_transfer_status\<lparr>ts_last_transfer_error := Some message\<rparr>\<rparr>"

definition apply_transfer_progress ::
  "64 word \<Rightarrow> transfer_progress_event \<Rightarrow> int \<Rightarrow> (sync_runtime_status option) sync_method" where
  "apply_transfer_progress run_id event now inner =
     (let status = si_status inner
      in if si_active_run_id inner \<noteq> Some run_id then (Inr None, inner)
         else if \<not> rt_configured status then (Inl NotConfigured, inner)
         else if \<not> rt_enabled status
         then (Inl (InvalidArgument (lit ''sync must be enabled before reporting transfer progress'')), inner)
         else
           let status = (progress_status event status)\<lparr>rt_updated_at_ms := now\<rparr>
           in (Inr (Some status), inner\<lparr>si_status := status\<rparr>))"

definition set_error :: "(rstr \<Rightarrow> rstr) \<Rightarrow> sync_error \<Rightarrow> int \<Rightarrow> sync_runtime_status sync_method" where
  "set_error lower error now inner =
     (let status = si_status inner
      in if \<not> rt_configured status then (Inl NotConfigured, inner)
         else put_status (status\<lparr>rt_phase := Phase_Error, rt_last_error := Some (sync_error_display error),
           rt_last_error_category := Some (category lower error),
           rt_transfer := default_transfer_status\<lparr>ts_last_transfer_error :=
             (case ts_last_transfer_error (rt_transfer status) of
                Some message \<Rightarrow> Some message | None \<Rightarrow> Some (sync_error_display error))\<rparr>,
           rt_updated_at_ms := now\<rparr>) inner)"

section \<open>Interleavings\<close>

text \<open>The phases that the callers of \<open>set_phase\<close> pass.\<close>

definition run_phase :: "sync_phase \<Rightarrow> bool" where
  "run_phase p \<longleftrightarrow> p \<in> {Phase_Idle, Phase_Planning, Phase_Packing, Phase_Transferring, Phase_Publishing, Phase_Applying}"

datatype sync_op =
    Op_Restore sync_vault_config bool "int option" int
  | Op_Reset int
  | Op_StoreEnabled
  | Op_Disable int
  | Op_Begin
  | Op_Finish "64 word"
  | Op_Complete int int
  | Op_Pending int int int
  | Op_ClearRemoteError int
  | Op_WorkspaceName rstr rstr int
  | Op_Phase sync_phase int
  | Op_Progress "64 word" transfer_progress_event int
  | Op_Error sync_error int

text \<open>The state after an operation; \<open>configure_vault\<close> is \<open>Op_Restore\<close> and enabling is \<open>Op_StoreEnabled\<close>, later \<open>Op_Phase\<close>.\<close>

fun sync_step :: "(rstr \<Rightarrow> rstr) \<Rightarrow> sync_op \<Rightarrow> sync_inner \<Rightarrow> sync_inner" where
  "sync_step lower (Op_Restore config enabled last_synced now) s = snd (restore_vault_with_status config enabled last_synced now s)"
| "sync_step lower (Op_Reset now) s = snd (reset_status now s)"
| "sync_step lower Op_StoreEnabled s = snd (store_enabled s)"
| "sync_step lower (Op_Disable now) s = snd (set_enabled False now s)"
| "sync_step lower Op_Begin s = snd (begin_sync_run s)"
| "sync_step lower (Op_Finish run_id) s = snd (finish_sync_run run_id s)"
| "sync_step lower (Op_Complete conflicts now) s = snd (complete_manual_sync conflicts now s)"
| "sync_step lower (Op_Pending up down now) s = snd (set_pending_counts up down now s)"
| "sync_step lower (Op_ClearRemoteError now) s = snd (clear_remote_status_error now s)"
| "sync_step lower (Op_WorkspaceName workspace_id name now) s = snd (update_workspace_name workspace_id name now s)"
| "sync_step lower (Op_Phase phase now) s = snd (set_phase phase now s)"
| "sync_step lower (Op_Progress run_id event now) s = snd (apply_transfer_progress run_id event now s)"
| "sync_step lower (Op_Error error now) s = snd (set_error lower error now s)"

fun op_ok :: "sync_op \<Rightarrow> bool" where
  "op_ok (Op_Phase phase _) = run_phase phase"
| "op_ok _ = True"

inductive sync_reachable :: "(rstr \<Rightarrow> rstr) \<Rightarrow> sync_inner \<Rightarrow> bool" for lower where
  start: "sync_reachable lower (sync_state_new now)"
| step: "sync_reachable lower s \<Longrightarrow> op_ok op \<Longrightarrow> sync_reachable lower (sync_step lower op s)"

section \<open>Invariant\<close>

definition counts_ok :: "sync_transfer_status \<Rightarrow> bool" where
  "counts_ok t \<longleftrightarrow>
     0 \<le> ts_upload_completed_objects t \<and> 0 \<le> ts_upload_failed_objects t \<and>
     0 \<le> ts_download_completed_objects t \<and> 0 \<le> ts_download_failed_objects t \<and>
     (0 < ts_upload_total_objects t \<longrightarrow> ts_upload_completed_objects t \<le> ts_upload_total_objects t \<and>
        ts_upload_failed_objects t \<le> ts_upload_total_objects t) \<and>
     (0 < ts_download_total_objects t \<longrightarrow> ts_download_completed_objects t \<le> ts_download_total_objects t \<and>
        ts_download_failed_objects t \<le> ts_download_total_objects t)"

definition identified :: "sync_runtime_status \<Rightarrow> bool" where
  "identified st \<longleftrightarrow> rt_remote_workspace_id st \<noteq> None \<and> rt_device_id st \<noteq> None \<and>
     (\<exists>v r. rt_vault_id st = Some v \<and> str_trim v \<noteq> [] \<and> rt_root_path st = Some r \<and> str_trim r \<noteq> [])"

definition status_ok :: "sync_runtime_status \<Rightarrow> bool" where
  "status_ok st \<longleftrightarrow>
     (if rt_configured st then rt_phase st \<noteq> Phase_NotConfigured \<and> identified st
      else not_configured (rt_updated_at_ms st) = st) \<and>
     (\<not> rt_enabled st \<longrightarrow> rt_phase st \<in> {Phase_NotConfigured, Phase_Disabled, Phase_Error}) \<and>
     (rt_phase st = Phase_Error \<longleftrightarrow> rt_last_error st \<noteq> None) \<and>
     (rt_last_error st = None \<longleftrightarrow> rt_last_error_category st = None) \<and>
     0 \<le> rt_pending_uploads st \<and> 0 \<le> rt_pending_downloads st \<and> counts_ok (rt_transfer st)"

lemma identified_update [simp]:
  "identified (st\<lparr>rt_enabled := e\<rparr>) = identified st" "identified (st\<lparr>rt_phase := p\<rparr>) = identified st"
  "identified (st\<lparr>rt_workspace_name := n\<rparr>) = identified st" "identified (st\<lparr>rt_last_error := m\<rparr>) = identified st"
  "identified (st\<lparr>rt_last_error_category := c\<rparr>) = identified st" "identified (st\<lparr>rt_last_synced_at_ms := l\<rparr>) = identified st"
  "identified (st\<lparr>rt_pending_uploads := u\<rparr>) = identified st" "identified (st\<lparr>rt_pending_downloads := u\<rparr>) = identified st"
  "identified (st\<lparr>rt_transfer := t\<rparr>) = identified st" "identified (st\<lparr>rt_conflict_count := u\<rparr>) = identified st"
  "identified (st\<lparr>rt_updated_at_ms := u\<rparr>) = identified st"
  by (simp_all add: identified_def)

definition run_ids_ok :: "sync_inner \<Rightarrow> bool" where
  "run_ids_ok s \<longleftrightarrow> si_next_run_id s \<noteq> 0 \<and>
     (\<forall>r. si_active_run_id s = Some r \<longrightarrow> r \<noteq> 0 \<and> si_next_run_id s = next_run_id r)"

lemma next_run_id_neq: "next_run_id r \<noteq> 0" "next_run_id r \<noteq> r"
proof -
  show "next_run_id r \<noteq> 0" by (simp add: next_run_id_def Let_def)
  have "r + 1 = 0 \<Longrightarrow> r \<noteq> 1" by auto
  then show "next_run_id r \<noteq> r" by (auto simp: next_run_id_def Let_def)
qed

lemma bump_count_ok: "0 \<le> n \<Longrightarrow> 0 \<le> bump_count cap n" "0 < cap \<Longrightarrow> bump_count cap n \<le> cap"
  by (auto simp: bump_count_def Let_def i64_saturating_add_def i64_max_def)

lemma counts_ok_default [simp]: "counts_ok default_transfer_status"
  by (simp add: counts_ok_def default_transfer_status_def)

lemma counts_ok_error [simp]: "counts_ok (t\<lparr>ts_last_transfer_error := m\<rparr>) = counts_ok t"
  by (simp add: counts_ok_def)

lemma counts_ok_increment: "counts_ok t \<Longrightarrow> counts_ok (increment_transfer_count d c t)"
  by (cases d; cases c) (auto simp: counts_ok_def bump_count_ok)

lemma counts_ok_started: "counts_ok (started_transfer d n a m)"
  by (cases d) (simp_all add: counts_ok_def default_transfer_status_def)

lemma counts_ok_progress: "counts_ok (rt_transfer st) \<Longrightarrow> counts_ok (rt_transfer (progress_status event st))"
  by (cases event) (simp_all add: counts_ok_increment counts_ok_started del: started_transfer.simps, simp add: counts_ok_def)

lemma progress_status_fields [simp]:
  "rt_configured (progress_status event st) = rt_configured st" "rt_enabled (progress_status event st) = rt_enabled st"
  "rt_vault_id (progress_status event st) = rt_vault_id st" "rt_root_path (progress_status event st) = rt_root_path st"
  "rt_remote_workspace_id (progress_status event st) = rt_remote_workspace_id st"
  "rt_device_id (progress_status event st) = rt_device_id st"
  "rt_pending_uploads (progress_status event st) = rt_pending_uploads st"
  "rt_pending_downloads (progress_status event st) = rt_pending_downloads st"
  by (cases event; simp)+

lemma transfer_return_phase_cases: "transfer_return_phase d = (case d of Upload \<Rightarrow> Phase_Publishing | Download \<Rightarrow> Phase_Applying)"
  by (cases d) simp_all

lemma progress_status_phase:
  "(rt_phase (progress_status event st), rt_last_error (progress_status event st), rt_last_error_category (progress_status event st)) \<in>
     {(rt_phase st, rt_last_error st, rt_last_error_category st), (Phase_Transferring, None, None),
      (Phase_Publishing, None, None), (Phase_Applying, None, None)}"
  by (cases event) (auto split: transfer_direction.split simp: transfer_return_phase_cases)

lemma method_runs [simp]:
  "si_active_run_id (snd (put_status st s)) = si_active_run_id s" "si_next_run_id (snd (put_status st s)) = si_next_run_id s"
  "si_active_run_id (snd (restore_vault_with_status c e l now s)) = si_active_run_id s"
  "si_next_run_id (snd (restore_vault_with_status c e l now s)) = si_next_run_id s"
  "si_active_run_id (snd (store_enabled s)) = si_active_run_id s" "si_next_run_id (snd (store_enabled s)) = si_next_run_id s"
  "si_active_run_id (snd (set_enabled False now s)) = si_active_run_id s"
  "si_next_run_id (snd (set_enabled False now s)) = si_next_run_id s"
  "si_active_run_id (snd (complete_manual_sync k now s)) = si_active_run_id s"
  "si_next_run_id (snd (complete_manual_sync k now s)) = si_next_run_id s"
  "si_active_run_id (snd (set_pending_counts u d now s)) = si_active_run_id s"
  "si_next_run_id (snd (set_pending_counts u d now s)) = si_next_run_id s"
  "si_active_run_id (snd (clear_remote_status_error now s)) = si_active_run_id s"
  "si_next_run_id (snd (clear_remote_status_error now s)) = si_next_run_id s"
  "si_active_run_id (snd (update_workspace_name wid n now s)) = si_active_run_id s"
  "si_next_run_id (snd (update_workspace_name wid n now s)) = si_next_run_id s"
  "si_active_run_id (snd (set_phase p now s)) = si_active_run_id s" "si_next_run_id (snd (set_phase p now s)) = si_next_run_id s"
  "si_active_run_id (snd (apply_transfer_progress r event now s)) = si_active_run_id s"
  "si_next_run_id (snd (apply_transfer_progress r event now s)) = si_next_run_id s"
  "si_active_run_id (snd (set_error lower e' now s)) = si_active_run_id s"
  "si_next_run_id (snd (set_error lower e' now s)) = si_next_run_id s"
  by (simp_all add: put_status_def restore_vault_with_status_def validate_sync_config_def store_enabled_def set_enabled_def
      complete_manual_sync_def set_pending_counts_def clear_remote_status_error_def update_workspace_name_def set_phase_def
      apply_transfer_progress_def set_error_def Let_def split: sum.split option.split)

lemma run_ids_step: "run_ids_ok s \<Longrightarrow> run_ids_ok (sync_step lower op s)"
  by (cases op) (auto simp: run_ids_ok_def next_run_id_neq reset_status_def begin_sync_run_def finish_sync_run_def put_status_def
      split: sum.split)

lemma identified_progress [simp]: "identified (progress_status event st) = identified st"
  by (simp add: identified_def)

lemma not_configured_disabled: "not_configured now = st \<Longrightarrow> \<not> rt_enabled st"
  by (auto simp: not_configured_def)

lemma status_ok_enabled: "status_ok st \<Longrightarrow> rt_enabled st \<Longrightarrow> rt_configured st"
  unfolding status_ok_def using not_configured_disabled [of "rt_updated_at_ms st" st] by argo

lemma status_ok_progress:
  assumes ok: "status_ok st" and e: "rt_enabled st"
  shows "status_ok (progress_status event st)"
  using assms status_ok_enabled [OF assms] counts_ok_progress [of st event] progress_status_phase [of event st]
  unfolding status_ok_def by (elim conjE insertE) (simp_all split: if_splits)

lemma status_ok_updated [simp]: "rt_configured st \<Longrightarrow> status_ok (st\<lparr>rt_updated_at_ms := t\<rparr>) = status_ok st"
  by (simp add: status_ok_def)

lemma status_ok_not_configured [simp]: "status_ok (not_configured now)"
  by (simp add: status_ok_def not_configured_def)

lemma status_ok_configured:
  "validate_sync_config config = Inr () \<Longrightarrow> status_ok (configured_status config enabled last_synced now)"
  by (simp add: status_ok_def configured_status_def identified_def validate_sync_config_def split: if_splits)

lemma status_ok_step:
  assumes ok: "status_ok (si_status s)" and op: "op_ok op"
  shows "status_ok (si_status (sync_step lower op s))"
proof (cases op)
  case (Op_Restore config enabled last_synced now)
  then show ?thesis using ok status_ok_configured [of config]
    by (cases "validate_sync_config config") (simp_all add: restore_vault_with_status_def put_status_def)
next
  case (Op_Reset now)
  then show ?thesis by (simp add: reset_status_def put_status_def)
next
  case Op_StoreEnabled
  then show ?thesis using ok by (simp add: store_enabled_def) (auto simp: status_ok_def)
next
  case (Op_Disable now)
  then show ?thesis using ok by (simp add: set_enabled_def put_status_def Let_def) (simp add: status_ok_def)
next
  case Op_Begin
  then show ?thesis using ok by (simp add: begin_sync_run_def split: sum.split)
next
  case (Op_Finish r)
  then show ?thesis using ok by (simp add: finish_sync_run_def)
next
  case (Op_Complete c now)
  then show ?thesis using ok
    by (simp add: complete_manual_sync_def enabled_before_run_def put_status_def Let_def) (simp add: status_ok_def)
next
  case (Op_Pending up down now)
  then show ?thesis using ok by (simp add: set_pending_counts_def put_status_def Let_def) (auto simp: status_ok_def)
next
  case (Op_ClearRemoteError now)
  then show ?thesis using ok
    by (simp add: clear_remote_status_error_def Let_def split: option.split) (simp add: status_ok_def)
next
  case (Op_WorkspaceName w n now)
  then show ?thesis using ok by (simp add: update_workspace_name_def Let_def) (auto simp: status_ok_def)
next
  case (Op_Phase phase now)
  then show ?thesis using assms
    by (simp add: set_phase_def put_status_def Let_def run_phase_def) (auto simp: status_ok_def)
next
  case (Op_Progress run_id event now)
  then show ?thesis using ok status_ok_progress [OF ok, of event] by (simp add: apply_transfer_progress_def Let_def)
next
  case (Op_Error e now)
  then show ?thesis using ok by (simp add: set_error_def put_status_def Let_def) (simp add: status_ok_def)
qed

lemma sync_reachable_ok: "sync_reachable lower s \<Longrightarrow> status_ok (si_status s) \<and> run_ids_ok s"
proof (induction rule: sync_reachable.induct)
  case (start now)
  show ?case by (simp add: sync_state_new_def run_ids_ok_def)
next
  case (step s op)
  then show ?case using status_ok_step run_ids_step by blast
qed

section \<open>Runs\<close>

fun ends_run :: "64 word \<Rightarrow> sync_op \<Rightarrow> bool" where
  "ends_run run (Op_Reset _) = True"
| "ends_run run (Op_Finish r) = (r = run)"
| "ends_run run _ = False"

lemma step_keeps_run:
  "si_active_run_id s = Some run \<Longrightarrow> \<not> ends_run run op \<Longrightarrow>
     si_active_run_id (sync_step lower op s) = Some run \<and> si_next_run_id (sync_step lower op s) = si_next_run_id s"
  by (cases op) (simp_all add: begin_sync_run_def is_sync_running_def finish_sync_run_def split: sum.split)

lemma steps_keep_run:
  "si_active_run_id s = Some run \<Longrightarrow> list_all (\<lambda>op. \<not> ends_run run op) ops \<Longrightarrow>
     si_active_run_id (fold (sync_step lower) ops s) = Some run \<and> si_next_run_id (fold (sync_step lower) ops s) = si_next_run_id s"
proof (induction ops arbitrary: s)
  case (Cons op ops)
  then show ?case using step_keeps_run [of s run op lower] Cons.IH [of "sync_step lower op s"] by simp
qed simp

lemma begin_sync_run_Inr:
  "begin_sync_run s = (Inr run, s') \<longleftrightarrow> enabled_before_run (si_status s) = Inr () \<and> si_active_run_id s = None \<and>
     run = si_next_run_id s \<and> s' = s\<lparr>si_next_run_id := next_run_id run, si_active_run_id := Some run\<rparr>"
  by (auto simp: begin_sync_run_def is_sync_running_def split: sum.splits)

lemma begin_while_running: "si_active_run_id s = Some run \<Longrightarrow> \<exists>e. begin_sync_run s = (Inl e, s)"
  by (simp add: begin_sync_run_def is_sync_running_def split: sum.split)

section \<open>Progress of a transfer\<close>

definition show_progress :: "64 word \<Rightarrow> (transfer_progress_event \<times> int) list \<Rightarrow> sync_inner \<Rightarrow> sync_inner" where
  "show_progress run = fold (\<lambda>(event, now) s. snd (apply_transfer_progress run event now s))"

lemma show_progress_simps [simp]:
  "show_progress run [] s = s"
  "show_progress run ((event, now) # es) s = show_progress run es (snd (apply_transfer_progress run event now s))"
  "show_progress run (es @ fs) s = show_progress run fs (show_progress run es s)"
  by (simp_all add: show_progress_def)

definition running :: "64 word \<Rightarrow> sync_inner \<Rightarrow> bool" where
  "running run s \<longleftrightarrow> si_active_run_id s = Some run \<and> rt_configured (si_status s) \<and> rt_enabled (si_status s)"

lemma running_progress:
  "running run s \<Longrightarrow> snd (apply_transfer_progress run event now s) =
     s\<lparr>si_status := (progress_status event (si_status s))\<lparr>rt_updated_at_ms := now\<rparr>\<rparr>"
  "running run s \<Longrightarrow> running run (s\<lparr>si_status := (progress_status event (si_status s))\<lparr>rt_updated_at_ms := now\<rparr>\<rparr>)"
  by (simp_all add: running_def apply_transfer_progress_def Let_def)

lemma running_step: "running run s \<Longrightarrow> running run (snd (apply_transfer_progress run event now s))"
  by (simp add: running_progress)

lemma running_show_progress: "running run s \<Longrightarrow> running run (show_progress run es s)"
  by (induction es arbitrary: s) (auto simp: running_step)

lemma show_objects:
  "running run s \<Longrightarrow> list_all (object_event d) (map fst es) \<Longrightarrow>
     rt_phase (si_status (show_progress run es s)) = rt_phase (si_status s) \<and>
     rt_last_error (si_status (show_progress run es s)) = rt_last_error (si_status s)"
proof (induction es arbitrary: s)
  case (Cons x es)
  obtain event now where x: "x = (event, now)" by fastforce
  have "rt_phase (progress_status event st) = rt_phase st \<and> rt_last_error (progress_status event st) = rt_last_error st" for st
    using Cons.prems(2) x by (cases event) simp_all
  then show ?case using Cons.IH [OF running_progress(2) [OF Cons.prems(1)]] Cons.prems x
    by (simp add: running_progress(1))
qed simp

text \<open>The counters of the attempt that runs.\<close>

fun shown_counts :: "transfer_direction \<Rightarrow> sync_transfer_status \<Rightarrow> int \<times> int \<times> int" where
  "shown_counts Upload t = (ts_upload_completed_objects t, ts_upload_failed_objects t, ts_upload_total_objects t)"
| "shown_counts Download t = (ts_download_completed_objects t, ts_download_failed_objects t, ts_download_total_objects t)"

fun is_completed :: "transfer_progress_event \<Rightarrow> bool" where
  "is_completed (ObjectCompleted _) = True"
| "is_completed _ = False"

lemma shown_counts_object:
  assumes "object_event d event" "shown_counts d (rt_transfer st) = (c, f, n)" "0 \<le> c" "0 \<le> f" "c + f < n" "n \<le> i64_max"
  shows "shown_counts d (rt_transfer (progress_status event st)) =
    (if is_completed event then (c + 1, f, n) else (c, f + 1, n))"
  using assms by (cases event; cases d) (auto simp: bump_count_def i64_saturating_add_def)

lemma show_objects_counts:
  assumes "running run s" "list_all (object_event d) (map fst es)"
    and "shown_counts d (rt_transfer (si_status s)) = (c, f, n)" "0 \<le> c" "0 \<le> f" "c + f + int (length es) \<le> n" "n \<le> i64_max"
  shows "shown_counts d (rt_transfer (si_status (show_progress run es s))) =
    (c + int (length (filter (is_completed \<circ> fst) es)), f + int (length (filter (Not \<circ> is_completed \<circ> fst) es)), n)"
  using assms
proof (induction es arbitrary: s c f)
  case (Cons x es)
  obtain event now where x: "x = (event, now)" by fastforce
  let ?s = "s\<lparr>si_status := (progress_status event (si_status s))\<lparr>rt_updated_at_ms := now\<rparr>\<rparr>"
  have ev: "object_event d event" and rest: "list_all (object_event d) (map fst es)" using Cons.prems(2) x by simp_all
  have "shown_counts d (rt_transfer (si_status ?s)) = (if is_completed event then (c + 1, f, n) else (c, f + 1, n))"
    using shown_counts_object [OF ev Cons.prems(3-5)] Cons.prems(6,7) by simp
  then show ?case
    using Cons.IH [OF running_progress(2) [where event = event and now = now, OF Cons.prems(1)] rest, where c = "if is_completed event then c + 1 else c"
        and f = "if is_completed event then f else f + 1"] Cons.prems x
    by (simp add: running_progress(1) split: if_splits)
qed simp

lemma show_batch_started:
  assumes "running run s"
  shows "rt_phase (si_status (snd (apply_transfer_progress run (BatchStarted d n a m) now s))) = Phase_Transferring"
    "rt_last_error (si_status (snd (apply_transfer_progress run (BatchStarted d n a m) now s))) = None"
    "shown_counts d (rt_transfer (si_status (snd (apply_transfer_progress run (BatchStarted d n a m) now s)))) = (0, 0, n)"
  by (cases d; simp add: running_progress(1) [OF assms] default_transfer_status_def)+

lemma show_batch_ended:
  assumes "running run s"
  shows "rt_phase (si_status (snd (apply_transfer_progress run (BatchCompleted d) now s))) = transfer_return_phase d"
    "rt_last_error (si_status (snd (apply_transfer_progress run (BatchCompleted d) now s))) = None"
    "rt_transfer (si_status (snd (apply_transfer_progress run (BatchCompleted d) now s))) = default_transfer_status"
    "rt_phase (si_status (snd (apply_transfer_progress run (BatchFailed d m) now s))) = rt_phase (si_status s)"
    "rt_last_error (si_status (snd (apply_transfer_progress run (BatchFailed d m) now s))) = rt_last_error (si_status s)"
    "rt_transfer (si_status (snd (apply_transfer_progress run (BatchFailed d m) now s))) =
       default_transfer_status\<lparr>ts_last_transfer_error := Some m\<rparr>"
  by (simp_all add: running_progress(1) [OF assms])

lemma show_batch:
  assumes "batch_trace d total_count limit a ok events" "running run s" "map fst es = events"
  shows "\<exists>m. rt_transfer (si_status (show_progress run es s)) = default_transfer_status\<lparr>ts_last_transfer_error := m\<rparr> \<and>
    (m = None \<longleftrightarrow> ok) \<and>
    rt_phase (si_status (show_progress run es s)) = (if ok then transfer_return_phase d else Phase_Transferring) \<and>
    rt_last_error (si_status (show_progress run es s)) = None"
  using assms
proof (induction arbitrary: s es rule: batch_trace.induct)
  case (completed a objects)
  then obtain t0 os t1 where es: "es = (BatchStarted d total_count (checked_count (a + 1)) (checked_count limit), t0) # os @ [(BatchCompleted d, t1)]"
    by (auto simp: map_eq_Cons_conv map_eq_append_conv)
  have "default_transfer_status = default_transfer_status\<lparr>ts_last_transfer_error := None\<rparr>" by (simp add: default_transfer_status_def)
  then show ?case
    using show_batch_ended(1-3) [OF running_show_progress [OF running_step [OF completed.prems(1)]]]
    unfolding es show_progress_simps by metis
next
  case (failed a objects message)
  then obtain t0 os t1 where es: "es = (BatchStarted d total_count (checked_count (a + 1)) (checked_count limit), t0) # os @ [(BatchFailed d message, t1)]"
    and os: "list_all (object_event d) (map fst os)" by (auto simp: map_eq_Cons_conv map_eq_append_conv)
  note r = running_step [OF failed.prems(1)]
  show ?case
    using show_batch_ended(4-6) [OF running_show_progress [OF r]] show_objects [OF r os] show_batch_started [OF failed.prems(1)]
    unfolding es show_progress_simps by (intro exI [of _ "Some message"]) simp
next
  case (retried a objects ok events at message)
  then obtain t0 os t1 es' where es: "es = (BatchStarted d total_count (checked_count (a + 1)) (checked_count limit), t0) # os @
      (RetryScheduled d (checked_count (a + 2)) (checked_count limit) at message, t1) # es'"
    and es': "map fst es' = events" by (auto simp: map_eq_Cons_conv map_eq_append_conv)
  show ?case
    using retried.IH [OF running_step [OF running_show_progress [OF running_step [OF retried.prems(1)]]] es']
    unfolding es show_progress_simps .
qed


section \<open>Properties\<close>

text \<open>
  C13. Whatever the commands, the progress reports and the failures of a run do, and in whatever order they take the
  lock, the status stays consistent: a configured status names a vault, a workspace and a device, an unconfigured one
  is the initial status; a disabled service is in no active phase; the error phase, the error text and its category
  come together; counts are not negative and never exceed their totals; and run ids are never 0.
\<close>
theorem sync_state_consistent:
  assumes "sync_reachable lower s"
  shows "status_ok (si_status s) \<and> run_ids_ok s"
  by (rule sync_reachable_ok [OF assms])

text \<open>
  C14. There is one run at a time: from the start of a run until it is finished or the service is reset, nothing else
  can start a run and progress reports of other runs are ignored. The run that starts after it has another id, so
  that late reports of the finished run are ignored too.
\<close>
theorem sync_runs_exclusive:
  assumes "begin_sync_run s = (Inr run, s1)" "list_all (\<lambda>op. \<not> ends_run run op) ops"
    and "s2 = fold (sync_step lower) ops s1"
  shows "si_active_run_id s2 = Some run \<and> (\<exists>e. begin_sync_run s2 = (Inl e, s2)) \<and>
    (\<forall>other event now. other \<noteq> run \<longrightarrow> apply_transfer_progress other event now s2 = (Inr None, s2)) \<and>
    (\<forall>run' s3 event now. begin_sync_run (snd (finish_sync_run run s2)) = (Inr run', s3) \<longrightarrow>
       run' \<noteq> run \<and> apply_transfer_progress run event now s3 = (Inr None, s3))"
proof -
  from assms(1) have "si_active_run_id s1 = Some run" "si_next_run_id s1 = next_run_id run"
    by (simp_all add: begin_sync_run_Inr)
  with steps_keep_run [OF _ assms(2)] have s2: "si_active_run_id s2 = Some run" "si_next_run_id s2 = next_run_id run"
    by (auto simp: assms(3))
  then have "run' \<noteq> run \<and> apply_transfer_progress run event now s3 = (Inr None, s3)"
    if "begin_sync_run (snd (finish_sync_run run s2)) = (Inr run', s3)" for run' s3 event now
    using that next_run_id_neq(2) [of run] by (auto simp: begin_sync_run_Inr finish_sync_run_def apply_transfer_progress_def)
  then show ?thesis using s2 begin_while_running [OF s2(1)] by (auto simp: apply_transfer_progress_def)
qed

text \<open>
  The transfer display follows a download to its end: once every event that the queue reported has been shown, no
  transfer is active, the counters are cleared, the phase is the applying phase when the download succeeded and
  still the transferring phase when it failed, and an error message is shown exactly for a failed download.
\<close>
theorem download_shown_to_end:
  assumes "download_objects api workspace_id device_id object_ids w = (r, w')"
    and "str_trim workspace_id \<noteq> []" "str_trim device_id \<noteq> []" "object_ids \<noteq> []"
    and "validate_transfer_config (ta_config api) = Inr ()" "ta_progress_sink api"
    and "running run s" "map fst es = drop (length (tw_progress w)) (tw_progress w')"
  shows "\<exists>m. rt_transfer (si_status (show_progress run es s)) = default_transfer_status\<lparr>ts_last_transfer_error := m\<rparr> \<and>
    (m = None \<longleftrightarrow> is_ok r) \<and>
    rt_phase (si_status (show_progress run es s)) = (if is_ok r then Phase_Applying else Phase_Transferring) \<and>
    rt_last_error (si_status (show_progress run es s)) = None"
proof -
  obtain events where e: "tw_progress w' = tw_progress w @ events"
    and trace: "batch_trace Download (checked_count (length object_ids)) (max_attempts (ta_config api)) 0 (is_ok r) events"
    using download_batch_trace [OF assms(1-6)] by blast
  have "map fst es = events" using assms(8) e by simp
  from show_batch [OF trace assms(7) this] show ?thesis unfolding transfer_return_phase.simps .
qed

text \<open>
  While an attempt runs, the display is exact: after the start of a batch of \<open>n\<close> objects and the reports of some
  of them, it shows how many were completed, how many failed, and \<open>n\<close>.
\<close>
theorem progress_counts_exact:
  assumes "running run s" "list_all (object_event d) (map fst es)" "int (length es) \<le> n" "n \<le> i64_max"
  shows "shown_counts d (rt_transfer (si_status (show_progress run ((BatchStarted d n a m, t0) # es) s))) =
    (int (length (filter (is_completed \<circ> fst) es)), int (length (filter (Not \<circ> is_completed \<circ> fst) es)), n)"
  using show_objects_counts [OF running_step [OF assms(1)] assms(2) show_batch_started(3) [OF assms(1)]] assms(3,4)
  by simp

section \<open>A small session\<close>

definition small_config :: sync_vault_config where
  "small_config = \<lparr>cf_vault_id = lit ''v'', cf_root_path = lit ''/v'', cf_account_key_id = None, cf_remote_workspace_id = lit ''w'',
     cf_workspace_name = None, cf_device_id = lit ''d'', cf_device_name = None, cf_remember_workspace_key = True, cf_passphrase = None\<rparr>"

definition enabled_state :: sync_inner where
  "enabled_state = sync_step to_ascii_lowercase (Op_Restore small_config True None 1) (sync_state_new 0)"

lemma enabled_state_eq:
  "enabled_state = (sync_state_new 0)\<lparr>si_status := configured_status small_config True None 1\<rparr>"
  by (simp add: enabled_state_def restore_vault_with_status_def validate_sync_config_def small_config_def std_simps put_status_def)

lemma enabled_state_begins:
  "begin_sync_run enabled_state = (Inr 1, enabled_state\<lparr>si_next_run_id := 2, si_active_run_id := Some 1\<rparr>)"
  by (simp add: begin_sync_run_Inr enabled_state_eq enabled_before_run_def configured_status_def sync_state_new_def next_run_id_def)

definition running_state :: sync_inner where
  "running_state = enabled_state\<lparr>si_next_run_id := 2, si_active_run_id := Some 1\<rparr>"

lemma running_state_running: "running 1 running_state"
  by (simp add: running_def running_state_def enabled_state_eq configured_status_def)

theorem sync_state_consistent_witness:
  "status_ok (si_status enabled_state) \<and> run_ids_ok enabled_state \<and> rt_phase (si_status enabled_state) = Phase_Idle"
proof -
  have "sync_reachable to_ascii_lowercase enabled_state" unfolding enabled_state_def
    by (rule sync_reachable.step [OF sync_reachable.start]) simp
  from sync_state_consistent [OF this] show ?thesis by (simp add: enabled_state_eq configured_status_def)
qed

theorem sync_runs_exclusive_witness:
  "\<exists>e. begin_sync_run (sync_step to_ascii_lowercase (Op_Phase Phase_Applying 2) running_state) =
     (Inl e, sync_step to_ascii_lowercase (Op_Phase Phase_Applying 2) running_state)"
  using sync_runs_exclusive [OF enabled_state_begins, of "[Op_Phase Phase_Applying 2]"
      "sync_step to_ascii_lowercase (Op_Phase Phase_Applying 2) running_state" to_ascii_lowercase]
  by (simp add: running_state_def)

theorem download_shown_to_end_witness:
  "\<exists>w' r. download_objects example_transfer_api (lit ''ws'') (lit ''dev'') [lit ''a''] example_transfer_world = (Inr r, w') \<and>
     rt_phase (si_status (show_progress 1 (map (\<lambda>e. (e, 5)) (tw_progress w')) running_state)) = Phase_Applying"
proof -
  obtain w' r where run: "download_objects example_transfer_api (lit ''ws'') (lit ''dev'') [lit ''a''] example_transfer_world = (Inr r, w')"
    using example_download by blast
  have h: "str_trim (lit ''ws'') \<noteq> []" "str_trim (lit ''dev'') \<noteq> []" "[lit ''a''] \<noteq> []" by (simp_all add: std_simps)
  have c: "validate_transfer_config (ta_config example_transfer_api) = Inr ()" "ta_progress_sink example_transfer_api"
    by (simp_all add: example_transfer_api_def default_transfer_config_def validate_transfer_config_def)
  have "map fst (map (\<lambda>e. (e, 5 :: int)) (tw_progress w')) = drop (length (tw_progress example_transfer_world)) (tw_progress w')"
    by (simp add: example_transfer_world_def o_def)
  from download_shown_to_end [OF run h c running_state_running this] run show ?thesis by auto
qed

theorem progress_counts_exact_witness:
  "shown_counts Upload (rt_transfer (si_status (show_progress 1
     [(BatchStarted Upload 3 1 3, 0), (ObjectCompleted Upload, 1), (ObjectFailed Upload [], 2)] running_state))) = (1, 1, 3)"
  using progress_counts_exact [OF running_state_running, of Upload "[(ObjectCompleted Upload, 1), (ObjectFailed Upload [], 2)]" 3 1 3 0]
  by (simp add: i64_max_def)

end
