(* ===== verification/Sync_Config.thy ===== *)
theory Sync_Config
  imports Sync_State Sync_Pull
begin

text \<open>
  \<open>sync/vault_config.rs\<close> and the account names of \<open>sync/keys.rs\<close>: the file \<open>.kuku/sync.json\<close> in which a vault keeps its
  sync settings and the last status, without secrets.

  Parameters, in \<open>config_env\<close>: the file system; the JSON functions of serde (the file is written and parsed as a whole,
  its version is parsed first); deleting an entry of the key chain, whose state is part of the state \<open>'f\<close> of the
  operating system. A vault root is the text of its path.
\<close>

section \<open>Data\<close>

type_synonym u32 = "32 word"

record sync_remote_status =
  rm_workspace_id :: rstr
  rm_remote_head_commit_id :: rstr
  rm_remote_head_version :: int
  rm_latest_checkpoint_commit_id :: rstr
  rm_local_remote_head_commit_id :: "rstr option"
  rm_local_head_commit_id :: "rstr option"
  rm_has_remote_changes :: bool
  rm_checked_at_ms :: int

record sync_vault_secure_refs =
  sr_account_root_key_account :: "rstr option"
  sr_account_recovery_phrase_account :: "rstr option"
  sr_workspace_key_account :: rstr
  sr_passphrase_account :: rstr
  sr_device_signing_key_account :: rstr

record sync_vault_status_file =
  sf_last_synced_at_ms :: "int option"
  sf_remote :: "sync_remote_status option"

record sync_vault_config_file =
  cl_schema_version :: u32
  cl_vault_id :: rstr
  cl_account_key_id :: "rstr option"
  cl_remote_workspace_id :: rstr
  cl_workspace_name :: "rstr option"
  cl_device_id :: rstr
  cl_device_name :: "rstr option"
  cl_enabled :: bool
  cl_remember_workspace_key :: bool
  cl_secure :: sync_vault_secure_refs
  cl_status :: sync_vault_status_file
  cl_updated_at_ms :: int

record 'f config_env =
  cg_os :: "'f os_api"
  cg_to_vec :: "sync_vault_config_file \<Rightarrow> rstr + bytes"
  cg_parse_version :: "bytes \<Rightarrow> rstr + u32"
  cg_parse_config :: "bytes \<Rightarrow> rstr + sync_vault_config_file"
  cg_delete_secret :: "rstr \<Rightarrow> ('f, unit) act"

definition SCHEMA_VERSION :: u32 where
  "SCHEMA_VERSION = 2"

definition default_status_file :: sync_vault_status_file where
  "default_status_file = \<lparr>sf_last_synced_at_ms = None, sf_remote = None\<rparr>"

section \<open>Names of key chain entries\<close>

definition workspace_key_account :: "rstr \<Rightarrow> rstr" where
  "workspace_key_account vault_id = lit ''vault:'' @ vault_id @ lit '':workspace-key:v1''"

definition passphrase_account :: "rstr \<Rightarrow> rstr" where
  "passphrase_account vault_id = lit ''vault:'' @ vault_id @ lit '':passphrase:v1''"

definition device_signing_key_account :: "rstr \<Rightarrow> rstr" where
  "device_signing_key_account vault_id = lit ''vault:'' @ vault_id @ lit '':device-signing-key:v1''"

definition account_root_key_account :: "rstr \<Rightarrow> rstr" where
  "account_root_key_account account_key_id = lit ''sync-account:'' @ account_key_id @ lit '':root-key:v1''"

definition account_recovery_phrase_account :: "rstr \<Rightarrow> rstr" where
  "account_recovery_phrase_account account_key_id = lit ''sync-account:'' @ account_key_id @ lit '':recovery-phrase:v1''"

definition forget_workspace_key :: "'f config_env \<Rightarrow> rstr \<Rightarrow> ('f, unit) act" where
  "forget_workspace_key cg vault_id = cg_delete_secret cg (workspace_key_account vault_id)"

definition forget_passphrase :: "'f config_env \<Rightarrow> rstr \<Rightarrow> ('f, unit) act" where
  "forget_passphrase cg vault_id = cg_delete_secret cg (passphrase_account vault_id)"

definition forget_device_signing_key :: "'f config_env \<Rightarrow> rstr \<Rightarrow> ('f, unit) act" where
  "forget_device_signing_key cg vault_id = cg_delete_secret cg (device_signing_key_account vault_id)"

section \<open>The file\<close>

definition sync_config_path :: "rstr \<Rightarrow> path" where
  "sync_config_path vault_root = path_join (path_join (path_components vault_root) (lit ''.kuku'')) (lit ''sync.json'')"

definition delete_sync_config :: "'f config_env \<Rightarrow> rstr \<Rightarrow> ('f, unit) act" where
  "delete_sync_config cg vault_root fs =
     (let path = sync_config_path vault_root
      in case os_remove (cg_os cg) path fs of
           (Inr _, fs) \<Rightarrow> (Inr (), fs)
         | (Inl NotFound, fs) \<Rightarrow> (Inr (), fs)
         | (Inl (RemoveFailed e), fs) \<Rightarrow>
             (Inl (Storage (lit ''failed to delete vault sync config '' @ path_display path @ lit '': '' @ e)), fs))"

definition trimmed_optional :: "rstr option \<Rightarrow> rstr option" where
  "trimmed_optional v = Option.bind v (\<lambda>s. if str_trim s = [] then None else Some (str_trim s))"

definition unsupported :: "u32 \<Rightarrow> sync_error" where
  "unsupported version = UnsupportedVersion (word_of_nat (min (unat version) 255))"

definition validate_config_file :: "sync_vault_config_file \<Rightarrow> unit sync_result" where
  "validate_config_file config =
     (if cl_schema_version config \<noteq> SCHEMA_VERSION then Inl (unsupported (cl_schema_version config))
      else if str_trim (cl_vault_id config) = [] then Inl (InvalidArgument (lit ''vault sync config is missing vault_id''))
      else if str_trim (cl_remote_workspace_id config) = []
      then Inl (InvalidArgument (lit ''vault sync config is missing remote_workspace_id''))
      else if str_trim (cl_device_id config) = [] then Inl (InvalidArgument (lit ''vault sync config is missing device_id''))
      else if (case cl_account_key_id config of Some k \<Rightarrow> str_trim k = [] | None \<Rightarrow> False)
      then Inl (InvalidArgument (lit ''vault sync config has empty account_key_id''))
      else if (case sf_remote (cl_status config) of
          Some remote \<Rightarrow> rm_workspace_id remote \<noteq> cl_remote_workspace_id config | None \<Rightarrow> False)
      then Inl (InvalidArgument (lit ''vault sync status remote workspace does not match config''))
      else Inr ())"

definition read_sync_config_bytes :: "'f config_env \<Rightarrow> 'f \<Rightarrow> rstr \<Rightarrow> (bytes option) sync_result" where
  "read_sync_config_bytes cg fs vault_root =
     (let path = sync_config_path vault_root
      in if \<not> os_exists (cg_os cg) fs path then Inr None
         else case os_read (cg_os cg) fs path of
                Inl e \<Rightarrow> Inl (Storage (lit ''failed to read vault sync config '' @ path_display path @ lit '': '' @ e))
              | Inr bs \<Rightarrow> Inr (Some bs))"

definition read_sync_config :: "'f config_env \<Rightarrow> 'f \<Rightarrow> rstr \<Rightarrow> (sync_vault_config_file option) sync_result" where
  "read_sync_config cg fs vault_root =
     res_bind (read_sync_config_bytes cg fs vault_root) (\<lambda>content.
     case content of
       None \<Rightarrow> Inr None
     | Some bs \<Rightarrow>
         res_bind (json_result (cg_parse_version cg bs)) (\<lambda>version.
         if version \<noteq> SCHEMA_VERSION then Inl (unsupported version)
         else
           res_bind (json_result (cg_parse_config cg bs)) (\<lambda>config.
           res_bind (validate_config_file config) (\<lambda>_. Inr (Some config)))))"

definition read_sync_config_file_unchecked ::
  "'f config_env \<Rightarrow> 'f \<Rightarrow> rstr \<Rightarrow> (sync_vault_config_file option) sync_result" where
  "read_sync_config_file_unchecked cg fs vault_root =
     res_bind (read_sync_config_bytes cg fs vault_root) (\<lambda>content.
     case content of
       None \<Rightarrow> Inr None
     | Some bs \<Rightarrow> res_bind (json_result (cg_parse_config cg bs)) (\<lambda>config. Inr (Some config)))"

definition reset_sync_config :: "'f config_env \<Rightarrow> rstr \<Rightarrow> ('f, unit) act" where
  "reset_sync_config cg vault_root =
     act_bind (\<lambda>fs.
       case read_sync_config_file_unchecked cg fs vault_root of
         Inr (Some config) \<Rightarrow>
           (case trimmed_optional (Some (cl_vault_id config)) of
              Some vault_id \<Rightarrow>
                act_bind (forget_workspace_key cg vault_id) (\<lambda>_.
                act_bind (forget_passphrase cg vault_id) (\<lambda>_.
                forget_device_signing_key cg vault_id)) fs
            | None \<Rightarrow> (Inr (), fs))
       | _ \<Rightarrow> (Inr (), fs)) (\<lambda>_.
     delete_sync_config cg vault_root)"

definition status_for_workspace :: "sync_vault_status_file \<Rightarrow> rstr \<Rightarrow> sync_vault_status_file" where
  "status_for_workspace status workspace_id =
     (case sf_remote status of
        Some remote \<Rightarrow> if rm_workspace_id remote = workspace_id then status else default_status_file
      | None \<Rightarrow> status)"

definition config_file_from_runtime ::
  "sync_vault_config \<Rightarrow> bool \<Rightarrow> int \<Rightarrow> sync_vault_status_file \<Rightarrow> sync_vault_config_file sync_result" where
  "config_file_from_runtime config enabled updated_at_ms status =
     (if str_trim (cf_vault_id config) = [] then Inl (InvalidArgument (lit ''vault_id is required''))
      else if str_trim (cf_remote_workspace_id config) = []
      then Inl (InvalidArgument (lit ''remote_workspace_id is required''))
      else if str_trim (cf_device_id config) = [] then Inl (InvalidArgument (lit ''device_id is required''))
      else
        (let vault_id = str_trim (cf_vault_id config);
             workspace_id = str_trim (cf_remote_workspace_id config);
             account_key_id = trimmed_optional (cf_account_key_id config)
         in Inr \<lparr>cl_schema_version = SCHEMA_VERSION, cl_vault_id = vault_id, cl_account_key_id = account_key_id,
           cl_remote_workspace_id = workspace_id, cl_workspace_name = trimmed_optional (cf_workspace_name config),
           cl_device_id = str_trim (cf_device_id config), cl_device_name = trimmed_optional (cf_device_name config),
           cl_enabled = enabled, cl_remember_workspace_key = cf_remember_workspace_key config,
           cl_secure = \<lparr>sr_account_root_key_account = map_option account_root_key_account account_key_id,
             sr_account_recovery_phrase_account = map_option account_recovery_phrase_account account_key_id,
             sr_workspace_key_account = workspace_key_account vault_id, sr_passphrase_account = passphrase_account vault_id,
             sr_device_signing_key_account = device_signing_key_account vault_id\<rparr>,
           cl_status = status_for_workspace status workspace_id, cl_updated_at_ms = updated_at_ms\<rparr>))"

definition storage_call :: "('f \<Rightarrow> (rstr + unit) \<times> 'f) \<Rightarrow> rstr \<Rightarrow> ('f, unit) act" where
  "storage_call m what fs = (case m fs of (Inl e, fs) \<Rightarrow> (Inl (Storage (what @ e)), fs) | (Inr _, fs) \<Rightarrow> (Inr (), fs))"

definition write_sync_config_with_status ::
  "'f config_env \<Rightarrow> rstr \<Rightarrow> sync_vault_config \<Rightarrow> bool \<Rightarrow> int \<Rightarrow> sync_vault_status_file
    \<Rightarrow> ('f, sync_vault_config_file) act" where
  "write_sync_config_with_status cg vault_root config enabled updated_at_ms status =
     act_bind (act_lift (config_file_from_runtime config enabled updated_at_ms status)) (\<lambda>config_file.
     let path = sync_config_path vault_root
     in act_bind (act_lift (if path_has_parent path then Inr ()
          else Inl (Storage (lit ''vault sync config path has no parent'')))) (\<lambda>_.
        act_bind (storage_call (os_create_dir_all (cg_os cg) (path_pop path))
          (lit ''failed to create vault sync config directory '' @ path_display (path_pop path) @ lit '': '')) (\<lambda>_.
        act_bind (act_lift (json_result (cg_to_vec cg config_file))) (\<lambda>bs.
        act_bind (storage_call (os_write (cg_os cg) path bs)
          (lit ''failed to write vault sync config '' @ path_display path @ lit '': '')) (\<lambda>_.
        act_lift (Inr config_file))))))"

definition write_sync_config ::
  "'f config_env \<Rightarrow> rstr \<Rightarrow> sync_vault_config \<Rightarrow> bool \<Rightarrow> int \<Rightarrow> ('f, sync_vault_config_file) act" where
  "write_sync_config cg vault_root config enabled updated_at_ms =
     act_bind (\<lambda>fs. act_lift (read_sync_config cg fs vault_root) fs) (\<lambda>existing.
     write_sync_config_with_status cg vault_root config enabled updated_at_ms
       (case existing of
          Some e \<Rightarrow> if cl_remote_workspace_id e = str_trim (cf_remote_workspace_id config) then cl_status e
            else default_status_file
        | None \<Rightarrow> default_status_file))"

definition runtime_config_from_file :: "rstr \<Rightarrow> sync_vault_config_file \<Rightarrow> sync_vault_config" where
  "runtime_config_from_file vault_root config =
     \<lparr>cf_vault_id = cl_vault_id config, cf_root_path = vault_root, cf_account_key_id = cl_account_key_id config,
      cf_remote_workspace_id = cl_remote_workspace_id config, cf_workspace_name = cl_workspace_name config,
      cf_device_id = cl_device_id config, cf_device_name = cl_device_name config,
      cf_remember_workspace_key = cl_remember_workspace_key config, cf_passphrase = None\<rparr>"

section \<open>What is written can be read\<close>

text \<open>What is used of the parameters: the parser reads what the printer wrote, and a file that can be read exists.\<close>

definition config_json_ok :: "'f config_env \<Rightarrow> bool" where
  "config_json_ok cg \<longleftrightarrow> (\<forall>c bs. cg_to_vec cg c = Inr bs \<longrightarrow>
     cg_parse_version cg bs = Inr (cl_schema_version c) \<and> cg_parse_config cg bs = Inr c)"

definition os_read_exists :: "'f os_api \<Rightarrow> bool" where
  "os_read_exists os \<longleftrightarrow> (\<forall>fs p bs. os_read os fs p = Inr bs \<longrightarrow> os_exists os fs p)"

lemma dropWhile_rev_dropWhile: "dropWhile P (rev (dropWhile P (rev (dropWhile P s)))) = rev (dropWhile P (rev (dropWhile P s)))"
proof (cases "dropWhile P s")
  case (Cons c t)
  then have "\<not> P c" by (metis dropWhile_eq_Cons_conv)
  then show ?thesis using Cons by (simp add: dropWhile_append)
next
  case Nil
  then show ?thesis unfolding Nil by simp
qed

lemma str_trim_idem [simp]: "str_trim (str_trim s) = str_trim s"
  by (simp add: str_trim_def dropWhile_rev_dropWhile)

lemma trimmed_optional_idem [simp]: "trimmed_optional (trimmed_optional v) = trimmed_optional v"
  by (cases v) (simp_all add: trimmed_optional_def)

lemma status_for_workspace_matches:
  "sf_remote (status_for_workspace status ws) = Some r \<Longrightarrow> rm_workspace_id r = ws"
  by (auto simp: status_for_workspace_def default_status_file_def split: option.splits if_splits)

lemma trimmed_optional_not_blank: "trimmed_optional v = Some s \<Longrightarrow> str_trim s \<noteq> []"
  by (auto simp: trimmed_optional_def bind_eq_Some_conv split: if_splits)

lemma config_file_valid:
  assumes "config_file_from_runtime config enabled now status = Inr c"
  shows "validate_config_file c = Inr ()"
proof -
  have ids: "str_trim (cf_vault_id config) \<noteq> []" "str_trim (cf_remote_workspace_id config) \<noteq> []" "str_trim (cf_device_id config) \<noteq> []"
    using assms by (auto simp: config_file_from_runtime_def split: if_splits)
  then have c: "cl_schema_version c = SCHEMA_VERSION" "cl_vault_id c = str_trim (cf_vault_id config)"
    "cl_remote_workspace_id c = str_trim (cf_remote_workspace_id config)" "cl_device_id c = str_trim (cf_device_id config)"
    "cl_account_key_id c = trimmed_optional (cf_account_key_id config)"
    "cl_status c = status_for_workspace status (str_trim (cf_remote_workspace_id config))"
    using assms by (auto simp: config_file_from_runtime_def Let_def)
  show ?thesis using ids
    by (auto simp: validate_config_file_def c status_for_workspace_matches trimmed_optional_not_blank split: option.split)
qed

lemma config_file_fields:
  assumes "config_file_from_runtime config enabled now status = Inr c"
  shows "cl_schema_version c = SCHEMA_VERSION" "cl_enabled c = enabled" "cl_updated_at_ms c = now"
    "runtime_config_from_file root c = config\<lparr>cf_root_path := root, cf_vault_id := str_trim (cf_vault_id config),
       cf_remote_workspace_id := str_trim (cf_remote_workspace_id config), cf_device_id := str_trim (cf_device_id config),
       cf_account_key_id := trimmed_optional (cf_account_key_id config),
       cf_workspace_name := trimmed_optional (cf_workspace_name config),
       cf_device_name := trimmed_optional (cf_device_name config), cf_passphrase := None\<rparr>"
    "cl_status c = status_for_workspace status (str_trim (cf_remote_workspace_id config))"
  using assms by (auto simp: config_file_from_runtime_def runtime_config_from_file_def Let_def split: if_splits)

lemma storage_call_Inr: "storage_call m what fs = (Inr (), fs') \<longleftrightarrow> m fs = (Inr (), fs')"
  by (auto simp: storage_call_def split: prod.splits sum.splits)

lemma write_config_Inr:
  assumes "write_sync_config_with_status cg root config enabled now status fs = (Inr c, fs')"
  shows "config_file_from_runtime config enabled now status = Inr c"
    and "\<exists>bs fs1. cg_to_vec cg c = Inr bs \<and> os_write (cg_os cg) (sync_config_path root) bs fs1 = (Inr (), fs')"
  using assms
  by (auto simp: write_sync_config_with_status_def act_bind_Inr Let_def json_result_Inr storage_call_Inr split: if_splits)

lemma write_config_reads:
  assumes "config_json_ok cg" "os_reads_back (cg_os cg)" "os_read_exists (cg_os cg)"
    and "write_sync_config_with_status cg root config enabled now status fs = (Inr c, fs')"
  shows "read_sync_config cg fs' root = Inr (Some c)"
proof -
  note c = write_config_Inr(1) [OF assms(4)]
  obtain bs fs1 where w: "cg_to_vec cg c = Inr bs" "os_write (cg_os cg) (sync_config_path root) bs fs1 = (Inr (), fs')"
    using write_config_Inr(2) [OF assms(4)] by blast
  have "os_read (cg_os cg) fs' (sync_config_path root) = Inr bs" using assms(2) w unfolding os_reads_back_def by blast
  moreover from this have "os_exists (cg_os cg) fs' (sync_config_path root)" using assms(3) unfolding os_read_exists_def by blast
  moreover have "cg_parse_version cg bs = Inr SCHEMA_VERSION" "cg_parse_config cg bs = Inr c"
    using assms(1) w(1) config_file_fields(1) [OF c] unfolding config_json_ok_def by auto
  ultimately show ?thesis
    by (simp add: read_sync_config_def read_sync_config_bytes_def Let_def json_result_def config_file_valid [OF c])
qed

lemma passphrase_not_written:
  "config_file_from_runtime (config\<lparr>cf_passphrase := p\<rparr>) = config_file_from_runtime config"
  "write_sync_config cg root (config\<lparr>cf_passphrase := p\<rparr>) = write_sync_config cg root config"
proof -
  show *: "config_file_from_runtime (config\<lparr>cf_passphrase := p\<rparr>) = config_file_from_runtime config" for config
    by (intro ext) (simp add: config_file_from_runtime_def)
  have ws: "cf_remote_workspace_id (config\<lparr>cf_passphrase := p\<rparr>) = cf_remote_workspace_id config" by simp
  show "write_sync_config cg root (config\<lparr>cf_passphrase := p\<rparr>) = write_sync_config cg root config"
    unfolding write_sync_config_def write_sync_config_with_status_def * ws ..
qed

text \<open>
  Settings survive a restart: when the configuration of a vault was written, reading it passes every check of the
  reader (version, ids, workspace of the status) and gives the settings back, with the identifiers trimmed and without
  the passphrase; no byte of the file depends on the passphrase.
\<close>
theorem config_written_reads_back:
  assumes "config_json_ok cg" "os_reads_back (cg_os cg)" "os_read_exists (cg_os cg)"
    and "write_sync_config cg root config enabled now fs = (Inr c, fs')"
  shows "read_sync_config cg fs' root = Inr (Some c) \<and> cl_enabled c = enabled \<and>
    runtime_config_from_file root c = config\<lparr>cf_root_path := root, cf_vault_id := str_trim (cf_vault_id config),
       cf_remote_workspace_id := str_trim (cf_remote_workspace_id config), cf_device_id := str_trim (cf_device_id config),
       cf_account_key_id := trimmed_optional (cf_account_key_id config),
       cf_workspace_name := trimmed_optional (cf_workspace_name config),
       cf_device_name := trimmed_optional (cf_device_name config), cf_passphrase := None\<rparr> \<and>
    write_sync_config cg root (config\<lparr>cf_passphrase := p\<rparr>) enabled now fs = (Inr c, fs')"
proof -
  obtain status where w: "write_sync_config_with_status cg root config enabled now status fs = (Inr c, fs')"
    using assms(4) by (auto simp: write_sync_config_def act_bind_Inr act_lift_Inr)
  note c = write_config_Inr(1) [OF w]
  show ?thesis
    using write_config_reads [OF assms(1-3) w] config_file_fields(2,4) [OF c] assms(4) by (simp add: passphrase_not_written)
qed

text \<open>A file system with one vault, and a JSON printer that is replaced by numbering the written configurations.\<close>

definition example_config :: sync_vault_config where
  "example_config = \<lparr>cf_vault_id = lit '' v1 '', cf_root_path = lit ''/v'', cf_account_key_id = Some (lit ''a''),
     cf_remote_workspace_id = lit ''w1'', cf_workspace_name = Some (lit '' ''), cf_device_id = lit ''d1'', cf_device_name = None,
     cf_remember_workspace_key = True, cf_passphrase = Some (lit ''secret'')\<rparr>"

definition example_config_file :: sync_vault_config_file where
  "example_config_file = \<lparr>cl_schema_version = 2, cl_vault_id = lit ''v1'', cl_account_key_id = Some (lit ''a''),
     cl_remote_workspace_id = lit ''w1'', cl_workspace_name = None, cl_device_id = lit ''d1'', cl_device_name = None,
     cl_enabled = True, cl_remember_workspace_key = True,
     cl_secure = \<lparr>sr_account_root_key_account = Some (lit ''sync-account:a:root-key:v1''),
       sr_account_recovery_phrase_account = Some (lit ''sync-account:a:recovery-phrase:v1''),
       sr_workspace_key_account = lit ''vault:v1:workspace-key:v1'', sr_passphrase_account = lit ''vault:v1:passphrase:v1'',
       sr_device_signing_key_account = lit ''vault:v1:device-signing-key:v1''\<rparr>,
     cl_status = default_status_file, cl_updated_at_ms = 123\<rparr>"

definition example_config_env :: "(path \<times> bytes) list config_env" where
  "example_config_env = \<lparr>cg_os = flat_os,
     cg_to_vec = (\<lambda>c. if c = example_config_file then Inr [1] else Inl []),
     cg_parse_version = (\<lambda>bs. if bs = [1] then Inr 2 else Inl []),
     cg_parse_config = (\<lambda>bs. if bs = [1] then Inr example_config_file else Inl []),
     cg_delete_secret = (\<lambda>_. act_lift (Inr ()))\<rparr>"

lemma example_config_env_ok:
  "config_json_ok example_config_env" "os_reads_back (cg_os example_config_env)" "os_read_exists (cg_os example_config_env)"
  by (auto simp: example_config_env_def config_json_ok_def example_config_file_def flat_os_ok)
    (auto simp: os_read_exists_def flat_os_def ok_or_def split: option.splits)

lemma example_config_file:
  "config_file_from_runtime example_config True 123 default_status_file = Inr example_config_file"
  by (simp add: config_file_from_runtime_def example_config_def example_config_file_def std_simps is_whitespace_def
      trimmed_optional_def SCHEMA_VERSION_def status_for_workspace_def default_status_file_def account_root_key_account_def
      account_recovery_phrase_account_def workspace_key_account_def passphrase_account_def device_signing_key_account_def Let_def)

lemma example_config_written:
  "write_sync_config example_config_env (lit ''/v'') example_config True 123 [] =
     (Inr example_config_file, [(sync_config_path (lit ''/v''), [1])])"
  by (simp add: write_sync_config_def write_sync_config_with_status_def read_sync_config_def read_sync_config_bytes_def
      example_config_env_def flat_os_def act_bind_def example_config_file json_result_def Let_def storage_call_def)
    (simp add: sync_config_path_def path_has_parent_def std_simps path_components_def path_join_def Let_def)

theorem config_written_reads_back_witness:
  "write_sync_config example_config_env (lit ''/v'') example_config True 123 [] =
     (Inr example_config_file, [(sync_config_path (lit ''/v''), [1])]) \<and>
   read_sync_config example_config_env [(sync_config_path (lit ''/v''), [1])] (lit ''/v'') = Inr (Some example_config_file)"
  using config_written_reads_back [OF example_config_env_ok example_config_written] example_config_written by simp

end
