(* ===== verification/Sync_Run.thy ===== *)
theory Sync_Run
  imports Sync_Push_Run Sync_Config
begin

text \<open>
  \<open>sync/commands.rs\<close>: one run of the sync service, from the command \<open>sync_run_once\<close> to the new status; the commands that
  switch sync on and off, restore it, rebuild it and disconnect a vault; and the status queries.

  The state is a \<open>run_world\<close>: the operating system (files and key chain), the databases of all vaults by vault id, the
  watcher's ledger, the transfer queue with the server behind it, the status of the service and the status events that
  were sent. The service shares its status with other threads: \<open>re_others\<close> gives the operations that they perform
  before each turn of this thread (the progress of the transfers of a run is among them), and nothing is assumed about
  them. Parameters: sign-in; unlocking the workspace key (\<open>workspace_key_for_run\<close>); the file system; and the server as
  in \<open>pull_env\<close> and \<open>push_env\<close>, where the answers a pull gets are those of the server state at its start. A command
  that reports a \<open>SyncCommandError\<close> reports here the error it was made from.
\<close>

section \<open>State and parameters\<close>

datatype file_metadata = Meta_File | Meta_Dir | Meta_Other | Meta_NotFound | Meta_Error rstr

record ('f, 's) run_env =
  re_config :: "'f config_env"
  re_metadata :: "'f \<Rightarrow> path \<Rightarrow> file_metadata"
  re_canonicalize :: "'f \<Rightarrow> path \<Rightarrow> path option"
  re_pull_env :: "'s \<Rightarrow> pull_env"
  re_push_env :: "'s push_env"
  re_lower :: "rstr \<Rightarrow> rstr"
  re_home :: bool
  re_authorization :: "rstr sync_result"
  re_workspace_key :: "rstr \<Rightarrow> rstr \<Rightarrow> rstr option \<Rightarrow> bool \<Rightarrow> ('f, symmetric_key) act"
  re_signing_key :: "rstr \<Rightarrow> 'f \<Rightarrow> (bytes option) sync_result"
  re_vault_state :: vault_inner
  re_list_workspaces :: "'s \<Rightarrow> (rstr list) sync_result"
  re_clock :: "nat \<Rightarrow> int"
  re_others :: "nat \<Rightarrow> sync_op list"

record ('f, 's) run_world =
  rn_fs :: 'f
  rn_dbs :: "rstr \<rightharpoonup> sync_db"
  rn_ledger :: expected_mutation_ledger
  rn_ticks :: nat
  rn_notified :: "search_notice list"
  rn_transfer :: "'s transfer_world"
  rn_draws :: nat
  rn_state :: sync_inner
  rn_emitted :: "sync_runtime_status list"
  rn_turns :: nat

abbreviation re_os :: "('f, 's) run_env \<Rightarrow> 'f os_api" where
  "re_os env \<equiv> cg_os (re_config env)"

type_synonym ('f, 's, 'a) run_act = "(('f, 's) run_world, 'a) act"

text \<open>One turn of this run at the lock, after the turns of the others.\<close>

definition others_turn :: "('f, 's) run_env \<Rightarrow> ('f, 's) run_world \<Rightarrow> sync_inner" where
  "others_turn env w = fold (sync_step (re_lower env)) (re_others env (rn_turns w)) (rn_state w)"

definition with_lock :: "('f, 's) run_env \<Rightarrow> (int \<Rightarrow> 'a sync_method) \<Rightarrow> ('f, 's, 'a) run_act" where
  "with_lock env m w =
     (case m (re_clock env (rn_turns w)) (others_turn env w) of
        (r, s) \<Rightarrow> (r, w\<lparr>rn_state := s, rn_turns := Suc (rn_turns w)\<rparr>))"

definition read_status :: "('f, 's) run_env \<Rightarrow> ('f, 's, sync_runtime_status) run_act" where
  "read_status env = with_lock env (\<lambda>_. act_get si_status)"

definition emit_status :: "sync_runtime_status \<Rightarrow> ('f, 's, unit) run_act" where
  "emit_status status = act_modify (\<lambda>w. w\<lparr>rn_emitted := rn_emitted w @ [status]\<rparr>)"

definition enter_phase :: "('f, 's) run_env \<Rightarrow> sync_phase \<Rightarrow> ('f, 's, unit) run_act" where
  "enter_phase env phase = act_bind (with_lock env (set_phase phase)) emit_status"

definition act_os :: "('f, 'a) act \<Rightarrow> ('f, 's, 'a) run_act" where
  "act_os m w = (case m (rn_fs w) of (r, fs) \<Rightarrow> (r, w\<lparr>rn_fs := fs\<rparr>))"

definition clock_now :: "('f, 's) run_env \<Rightarrow> ('f, 's, int) run_act" where
  "clock_now env w = (Inr (re_clock env (rn_turns w)), w\<lparr>rn_turns := Suc (rn_turns w)\<rparr>)"

text \<open>Opening a database creates it and brings its schema up to date.\<close>

definition run_db :: "('f, 's) run_world \<Rightarrow> rstr \<Rightarrow> sync_db" where
  "run_db w vault_id = (case rn_dbs w vault_id of Some db \<Rightarrow> db | None \<Rightarrow> init_schema None)"

definition open_sync_db_for_vault :: "('f, 's) run_env \<Rightarrow> rstr \<Rightarrow> ('f, 's, unit) run_act" where
  "open_sync_db_for_vault env vault_id =
     act_bind (act_lift (if re_home env then Inr () else Inl (Storage (lit ''home directory is unavailable'')))) (\<lambda>_.
     act_bind (act_lift (validate_vault_id vault_id)) (\<lambda>_.
     act_modify (\<lambda>w. w\<lparr>rn_dbs := (rn_dbs w)(vault_id \<mapsto> init_schema (rn_dbs w vault_id))\<rparr>)))"

definition act_run_db :: "rstr \<Rightarrow> (sync_db \<Rightarrow> sync_db) \<Rightarrow> ('f, 's, unit) run_act" where
  "act_run_db vault_id f = act_modify (\<lambda>w. w\<lparr>rn_dbs := (rn_dbs w)(vault_id \<mapsto> f (run_db w vault_id))\<rparr>)"

definition run_pull :: "('f, 's) run_env \<Rightarrow> pull_input \<Rightarrow> ('f, 's, pull_result) run_act" where
  "run_pull env input w =
     (case pull_remote_changes (re_os env) (re_pull_env env (tw_server (rn_transfer w))) input
         \<lparr>pw_fs = rn_fs w, pw_db = run_db w (pn_vault_id input), pw_ledger = rn_ledger w, pw_ticks = rn_ticks w,
          pw_notified = rn_notified w\<rparr> of
        (r, p) \<Rightarrow> (r, w\<lparr>rn_fs := pw_fs p, rn_dbs := (rn_dbs w)(pn_vault_id input \<mapsto> pw_db p), rn_ledger := pw_ledger p,
           rn_ticks := pw_ticks p, rn_notified := pw_notified p\<rparr>))"

definition push_world_of :: "rstr \<Rightarrow> ('f, 's) run_world \<Rightarrow> ('f, 's) push_world" where
  "push_world_of vault_id w =
     \<lparr>sw_fs = rn_fs w, sw_db = run_db w vault_id, sw_transfer = rn_transfer w, sw_draws = rn_draws w\<rparr>"

definition run_push :: "rstr \<Rightarrow> ('f, 's, push_result) push_act \<Rightarrow> ('f, 's, push_result) run_act" where
  "run_push vault_id m w =
     (case m (push_world_of vault_id w) of
        (r, p) \<Rightarrow> (r, w\<lparr>rn_fs := sw_fs p, rn_dbs := (rn_dbs w)(vault_id \<mapsto> sw_db p), rn_transfer := sw_transfer p,
           rn_draws := sw_draws p\<rparr>))"

section \<open>Checks on the status\<close>

definition validate_enabled_status :: "sync_runtime_status \<Rightarrow> unit sync_result" where
  "validate_enabled_status status = enabled_before_run status"

definition required_status_value :: "rstr option \<Rightarrow> rstr \<Rightarrow> rstr sync_result" where
  "required_status_value v field =
     (case v of
        None \<Rightarrow> Inl (InvalidArgument (field @ lit '' is required before running sync''))
      | Some s \<Rightarrow> if str_trim s = [] then Inl (InvalidArgument (field @ lit '' is required before running sync''))
          else Inr (str_trim s))"

definition same_path :: "('f, 's) run_env \<Rightarrow> 'f \<Rightarrow> path \<Rightarrow> path \<Rightarrow> bool" where
  "same_path env fs a b =
     (case (re_canonicalize env fs a, re_canonicalize env fs b) of (Some a, Some b) \<Rightarrow> a = b | _ \<Rightarrow> a = b)"

definition status_vault_root :: "('f, 's) run_env \<Rightarrow> 'f \<Rightarrow> sync_runtime_status \<Rightarrow> path sync_result" where
  "status_vault_root env fs status =
     res_bind (required_status_value (rt_root_path status) (lit ''root_path'')) (\<lambda>configured.
     let configured_path = path_components configured
     in case get_vault_root (re_vault_state env) of
          Inr open_root \<Rightarrow>
            if same_path env fs open_root configured_path then Inr open_root
            else Inl (InvalidArgument (lit ''configured sync vault is not the currently open vault''))
        | Inl _ \<Rightarrow> Inr configured_path)"

definition is_head_conflict :: "(rstr \<Rightarrow> rstr) \<Rightarrow> sync_error \<Rightarrow> bool" where
  "is_head_conflict lower error =
     (case error of Transport message \<Rightarrow> str_contains (lower message) (lit ''head conflict'') | _ \<Rightarrow> False)"

section \<open>Stored settings\<close>

definition config_from_status :: "sync_runtime_status \<Rightarrow> sync_vault_config sync_result" where
  "config_from_status status =
     res_bind (required_status_value (rt_vault_id status) (lit ''vault_id'')) (\<lambda>vault_id.
     res_bind (required_status_value (rt_root_path status) (lit ''root_path'')) (\<lambda>root_path.
     res_bind (required_status_value (rt_remote_workspace_id status) (lit ''remote_workspace_id'')) (\<lambda>workspace_id.
     res_bind (required_status_value (rt_device_id status) (lit ''device_id'')) (\<lambda>device_id.
     Inr \<lparr>cf_vault_id = vault_id, cf_root_path = root_path, cf_account_key_id = rt_account_key_id status,
       cf_remote_workspace_id = workspace_id, cf_workspace_name = rt_workspace_name status, cf_device_id = device_id,
       cf_device_name = rt_device_name status, cf_remember_workspace_key = rt_remember_workspace_key status,
       cf_passphrase = None\<rparr>))))"

definition persist_configured_vault :: "sync_vault_config \<Rightarrow> bool \<Rightarrow> int \<Rightarrow> sync_db \<Rightarrow> sync_db" where
  "persist_configured_vault config enabled now db =
     upsert_vault db
       (case get_vault db (cf_vault_id config) of
          Some vault \<Rightarrow> vault\<lparr>sv_root_path := cf_root_path config,
            sv_remote_workspace_id := cf_remote_workspace_id config, sv_device_id := cf_device_id config,
            sv_enabled := enabled, sv_updated_at_ms := now\<rparr>
        | None \<Rightarrow> \<lparr>sv_vault_id = cf_vault_id config, sv_root_path = cf_root_path config,
            sv_remote_workspace_id = cf_remote_workspace_id config, sv_remote_head_commit_id = None,
            sv_local_head_commit_id = None, sv_device_id = cf_device_id config, sv_next_device_seq = 1,
            sv_enabled = enabled, sv_created_at_ms = now, sv_updated_at_ms = now\<rparr>)"

definition cached_remote_status_for_config ::
  "('f, 's) run_env \<Rightarrow> 'f \<Rightarrow> rstr \<Rightarrow> rstr \<Rightarrow> (sync_remote_status option) sync_result" where
  "cached_remote_status_for_config env fs root_path workspace_id =
     res_bind (read_sync_config (re_config env) fs root_path) (\<lambda>config.
     Inr (Option.bind config (\<lambda>c. if cl_remote_workspace_id c = workspace_id then sf_remote (cl_status c) else None)))"

definition cached_remote_status_for_state ::
  "('f, 's) run_env \<Rightarrow> 'f \<Rightarrow> sync_runtime_status \<Rightarrow> (sync_remote_status option) sync_result" where
  "cached_remote_status_for_state env fs status =
     (if \<not> rt_configured status then Inr None
      else
        res_bind (required_status_value (rt_root_path status) (lit ''root_path'')) (\<lambda>root_path.
        res_bind (required_status_value (rt_remote_workspace_id status) (lit ''remote_workspace_id'')) (\<lambda>workspace_id.
        cached_remote_status_for_config env fs root_path workspace_id)))"

definition persist_runtime_status :: "('f, 's) run_env \<Rightarrow> sync_runtime_status \<Rightarrow> ('f, 's, unit) run_act" where
  "persist_runtime_status env status =
     (if \<not> rt_configured status then act_lift (Inr ())
      else
        act_bind (act_lift (config_from_status status)) (\<lambda>config.
        act_bind (open_sync_db_for_vault env (cf_vault_id config)) (\<lambda>_.
        act_bind (clock_now env) (\<lambda>now.
        act_bind (act_run_db (cf_vault_id config) (persist_configured_vault config (rt_enabled status) now)) (\<lambda>_.
        act_bind (\<lambda>w. act_lift (cached_remote_status_for_config env (rn_fs w) (cf_root_path config)
          (cf_remote_workspace_id config)) w) (\<lambda>remote.
        act_bind (act_os (write_sync_config_with_status (re_config env) (cf_root_path config) config (rt_enabled status)
          (rt_updated_at_ms status) \<lparr>sf_last_synced_at_ms = rt_last_synced_at_ms status, sf_remote = remote\<rparr>)) (\<lambda>_.
        act_lift (Inr ()))))))))"

definition persist_remote_status_snapshot ::
  "('f, 's) run_env \<Rightarrow> sync_runtime_status \<Rightarrow> sync_remote_status \<Rightarrow> ('f, 's, unit) run_act" where
  "persist_remote_status_snapshot env status remote_status =
     (if \<not> rt_configured status then act_lift (Inr ())
      else
        act_bind (act_lift (config_from_status status)) (\<lambda>config.
        act_bind (act_os (write_sync_config_with_status (re_config env) (cf_root_path config) config (rt_enabled status)
          (rm_checked_at_ms remote_status)
          \<lparr>sf_last_synced_at_ms = rt_last_synced_at_ms status, sf_remote = Some remote_status\<rparr>)) (\<lambda>_.
        act_lift (Inr ()))))"

definition restore_vault_config_for_root :: "('f, 's) run_env \<Rightarrow> rstr \<Rightarrow> ('f, 's, sync_runtime_status) run_act" where
  "restore_vault_config_for_root env vault_root w =
     (case read_sync_config (re_config env) (rn_fs w) vault_root of
        Inr (Some config_file) \<Rightarrow>
          (let config = runtime_config_from_file vault_root config_file
           in act_bind (open_sync_db_for_vault env (cf_vault_id config)) (\<lambda>_.
              act_bind (clock_now env) (\<lambda>now.
              act_bind (act_run_db (cf_vault_id config) (persist_configured_vault config (cl_enabled config_file) now)) (\<lambda>_.
              act_bind (with_lock env (restore_vault_with_status config (cl_enabled config_file)
                (sf_last_synced_at_ms (cl_status config_file)))) (\<lambda>status.
              act_bind (emit_status status) (\<lambda>_. act_lift (Inr status)))))) w)
      | Inr None \<Rightarrow>
          act_bind (with_lock env reset_status) (\<lambda>status.
          act_bind (emit_status status) (\<lambda>_. act_lift (Inr status))) w
      | Inl (UnsupportedVersion version) \<Rightarrow>
          act_bind (act_os (reset_sync_config (re_config env) vault_root)) (\<lambda>_.
          act_bind (with_lock env reset_status) (\<lambda>status.
          act_bind (emit_status status) (\<lambda>_. act_lift (Inl (UnsupportedVersion version))))) w
      | Inl error \<Rightarrow> (Inl error, w))"

definition reset_vault_config_runtime :: "('f, 's) run_env \<Rightarrow> ('f, 's, sync_runtime_status) run_act" where
  "reset_vault_config_runtime env =
     act_bind (with_lock env reset_status) (\<lambda>status.
     act_bind (emit_status status) (\<lambda>_. act_lift (Inr status)))"

section \<open>Open conflicts\<close>

definition vault_relative_file_exists :: "('f, 's) run_env \<Rightarrow> 'f \<Rightarrow> path \<Rightarrow> rstr \<Rightarrow> bool sync_result" where
  "vault_relative_file_exists env fs vault_root relative_path =
     (case resolve_vault_path vault_root relative_path of
        Inl _ \<Rightarrow> Inr False
      | Inr path \<Rightarrow>
          (case re_metadata env fs path of
             Meta_NotFound \<Rightarrow> Inr False
           | Meta_Error e \<Rightarrow> Inl (Storage (lit ''failed to inspect conflict copy '' @ path_display path @ lit '': '' @ e))
           | m \<Rightarrow> Inr (m = Meta_File)))"

text \<open>One conflict: settled when its copy is gone, otherwise listed.\<close>

definition list_conflict ::
  "('f, 's) run_env \<Rightarrow> rstr \<Rightarrow> path option \<Rightarrow> sync_conflict_record \<Rightarrow> sync_conflict_record list
    \<Rightarrow> ('f, 's, sync_conflict_record list) run_act" where
  "list_conflict env vault_id vault_root conflict summaries =
     act_bind (\<lambda>w. case vault_root of
         None \<Rightarrow> (Inr True, w)
       | Some root \<Rightarrow> (vault_relative_file_exists env (rn_fs w) root (sx_conflict_path conflict), w)) (\<lambda>present.
     if present then act_lift (Inr (summaries @ [conflict]))
     else
       act_bind (act_run_db vault_id (\<lambda>db. mark_conflict_resolved db (sx_conflict_id conflict))) (\<lambda>_.
       act_bind (case normalize_vault_relative_path (re_lower env) (sx_conflict_path conflict) of
           Inl _ \<Rightarrow> act_lift (Inr ())
         | Inr normalized_path \<Rightarrow> (\<lambda>w. act_run_db vault_id (\<lambda>db.
             mark_unsynced_file_deleted_clean db normalized_path (re_clock env (rn_turns w))) w)) (\<lambda>_.
       act_lift (Inr summaries))))"

definition list_vault_conflicts ::
  "('f, 's) run_env \<Rightarrow> sync_runtime_status \<Rightarrow> ('f, 's, sync_conflict_record list) run_act" where
  "list_vault_conflicts env status =
     (case rt_vault_id status of
        None \<Rightarrow> act_lift (Inr [])
      | Some vault_id \<Rightarrow>
          if \<not> re_home env then act_lift (Inr [])
          else
            act_bind (act_lift (validate_vault_id vault_id)) (\<lambda>_.
            act_bind (act_get (\<lambda>w. rn_dbs w vault_id)) (\<lambda>existing.
            if existing = None then act_lift (Inr [])
            else
              act_bind (act_run_db vault_id (\<lambda>db. init_schema (Some db))) (\<lambda>_.
              act_bind (act_get (\<lambda>w. (list_open_conflicts (run_db w vault_id),
                Option.bind (map_option path_components (rt_root_path status)) (\<lambda>root.
                  if re_metadata env (rn_fs w) root = Meta_Dir then Some root else None)))) (\<lambda>(conflicts, vault_root).
              act_fold (list_conflict env vault_id vault_root) conflicts [])))))"

definition finish_run :: "('f, 's) run_env \<Rightarrow> ('f, 's, sync_runtime_status) run_act" where
  "finish_run env =
     act_bind (read_status env) (\<lambda>status.
     act_bind (list_vault_conflicts env status) (\<lambda>conflicts.
     with_lock env (complete_manual_sync (i64_saturating_len (length conflicts)))))"

section \<open>One run\<close>

record run_setup =
  rs_vault_id :: rstr
  rs_workspace_id :: rstr
  rs_device_id :: rstr
  rs_vault_root :: path
  rs_workspace_key :: symmetric_key
  rs_signing_key :: bytes

definition pull_input_of :: "run_setup \<Rightarrow> int \<Rightarrow> pull_input" where
  "pull_input_of setup now =
     \<lparr>pn_vault_id = rs_vault_id setup, pn_vault_root = rs_vault_root setup, pn_workspace_id = rs_workspace_id setup,
      pn_device_id = rs_device_id setup, pn_workspace_key = rs_workspace_key setup,
      pn_hooks = \<lparr>hk_expected_mutations = True, hk_search = True\<rparr>, pn_now_ms = now\<rparr>"

definition push_input_of :: "run_setup \<Rightarrow> int \<Rightarrow> push_input" where
  "push_input_of setup now =
     \<lparr>ph_vault_id = rs_vault_id setup, ph_vault_root = rs_vault_root setup, ph_workspace_id = rs_workspace_id setup,
      ph_device_id = rs_device_id setup, ph_workspace_key = rs_workspace_key setup, ph_signing_key = rs_signing_key setup,
      ph_now_ms = now\<rparr>"

definition push_merge_input_of :: "run_setup \<Rightarrow> rstr \<Rightarrow> int \<Rightarrow> push_merge_input" where
  "push_merge_input_of setup local_parent now =
     push_input.extend (push_input_of setup now) \<lparr>ph_local_parent_commit_id = local_parent\<rparr>"

definition prepare_run :: "('f, 's) run_env \<Rightarrow> ('f, 's, run_setup) run_act" where
  "prepare_run env =
     act_bind (read_status env) (\<lambda>status.
     act_bind (act_lift (validate_enabled_status status)) (\<lambda>_.
     act_bind (act_lift (required_status_value (rt_vault_id status) (lit ''vault_id''))) (\<lambda>vault_id.
     act_bind (act_lift (required_status_value (rt_remote_workspace_id status) (lit ''remote_workspace_id''))) (\<lambda>workspace_id.
     act_bind (act_lift (required_status_value (rt_device_id status) (lit ''device_id''))) (\<lambda>device_id.
     act_bind (\<lambda>w. act_lift (status_vault_root env (rn_fs w) status) w) (\<lambda>vault_root.
     act_bind (act_lift (re_authorization env)) (\<lambda>_.
     act_bind (act_lift (validate_transfer_config (ta_config (se_transfer (re_push_env env))))) (\<lambda>_.
     act_bind (open_sync_db_for_vault env vault_id) (\<lambda>_.
     act_bind (act_os (re_workspace_key env vault_id workspace_id (rt_account_key_id status)
       (rt_remember_workspace_key status))) (\<lambda>workspace_key.
     act_bind (\<lambda>w. act_lift (re_signing_key env vault_id (rn_fs w)) w) (\<lambda>signing_key.
     act_bind (act_lift (ok_or signing_key (Crypto (lit ''device signing key is missing; configure sync again'')))) (\<lambda>signing_key.
     act_lift (Inr \<lparr>rs_vault_id = vault_id, rs_workspace_id = workspace_id, rs_device_id = device_id,
       rs_vault_root = vault_root, rs_workspace_key = workspace_key, rs_signing_key = signing_key\<rparr>)))))))))))))"

definition pull_phase :: "('f, 's) run_env \<Rightarrow> run_setup \<Rightarrow> ('f, 's, unit) run_act" where
  "pull_phase env setup =
     act_bind (enter_phase env Phase_Applying) (\<lambda>_.
     act_bind (clock_now env) (\<lambda>now.
     act_bind (run_pull env (pull_input_of setup now)) (\<lambda>_. act_lift (Inr ()))))"

definition push_local :: "('f, 's) run_env \<Rightarrow> run_setup \<Rightarrow> ('f, 's, push_result) run_act" where
  "push_local env setup =
     act_bind (clock_now env) (\<lambda>now.
     run_push (rs_vault_id setup) (push_local_changes (re_os env) (re_push_env env) (push_input_of setup now)))"

definition push_merge :: "('f, 's) run_env \<Rightarrow> run_setup \<Rightarrow> rstr \<Rightarrow> ('f, 's, push_result) run_act" where
  "push_merge env setup local_parent =
     act_bind (clock_now env) (\<lambda>now.
     run_push (rs_vault_id setup) (push_merge_commit (re_os env) (re_push_env env)
       (push_merge_input_of setup local_parent now)))"

text \<open>The push and, when another device has published meanwhile, a second pull and a merge commit.\<close>

definition push_and_finish :: "('f, 's) run_env \<Rightarrow> run_setup \<Rightarrow> rstr \<Rightarrow> ('f, 's, sync_runtime_status) run_act" where
  "push_and_finish env setup local_parent w =
     (case push_local env setup w of
        (Inr _, w) \<Rightarrow> finish_run env w
      | (Inl error, w) \<Rightarrow>
          if is_head_conflict (re_lower env) error
          then
            act_bind (pull_phase env setup) (\<lambda>_.
            act_bind (enter_phase env Phase_Publishing) (\<lambda>_.
            act_bind (if local_parent = [] then push_local env setup else push_merge env setup local_parent) (\<lambda>_.
            finish_run env))) w
          else (Inl error, w))"

definition run_sync_once :: "('f, 's) run_env \<Rightarrow> ('f, 's, sync_runtime_status) run_act" where
  "run_sync_once env =
     act_bind (prepare_run env) (\<lambda>setup.
     act_bind (pull_phase env setup) (\<lambda>_.
     act_bind (enter_phase env Phase_Planning) (\<lambda>_.
     act_bind (act_get (\<lambda>w. case Option.bind (get_vault (run_db w (rs_vault_id setup)) (rs_vault_id setup))
         sv_local_head_commit_id of None \<Rightarrow> [] | Some c \<Rightarrow> c)) (\<lambda>local_parent.
     push_and_finish env setup local_parent))))"

section \<open>The command\<close>

definition error_may_indicate_missing_current_workspace :: "sync_error \<Rightarrow> bool" where
  "error_may_indicate_missing_current_workspace error =
     (case error of
        PermissionRequired \<Rightarrow> True
      | InvalidArgument message \<Rightarrow> str_contains message (lit ''workspace was not found'')
      | _ \<Rightarrow> False)"

definition non_blank :: "rstr option \<Rightarrow> rstr option" where
  "non_blank v = Option.bind v (\<lambda>s. if str_trim s = [] then None else Some (str_trim s))"

definition clear_current_workspace_binding ::
  "('f, 's) run_env \<Rightarrow> sync_runtime_status \<Rightarrow> ('f, 's, sync_runtime_status) run_act" where
  "clear_current_workspace_binding env status =
     act_bind (act_lift (ok_or (non_blank (rt_vault_id status)) NotConfigured)) (\<lambda>vault_id.
     act_bind (act_os (forget_workspace_key (re_config env) vault_id)) (\<lambda>_.
     act_bind (act_os (forget_passphrase (re_config env) vault_id)) (\<lambda>_.
     act_bind (act_os (forget_device_signing_key (re_config env) vault_id)) (\<lambda>_.
     act_bind (case non_blank (rt_root_path status) of
         None \<Rightarrow> act_lift (Inr ()) | Some root \<Rightarrow> act_os (delete_sync_config (re_config env) root)) (\<lambda>_.
     act_bind (open_sync_db_for_vault env vault_id) (\<lambda>_.
     act_bind (act_run_db vault_id (\<lambda>db. delete_vault db vault_id)) (\<lambda>_.
     act_bind (with_lock env reset_status) (\<lambda>status.
     act_bind (emit_status status) (\<lambda>_. act_lift (Inr status))))))))))"

definition current_workspace_exists_for_account :: "('f, 's) run_env \<Rightarrow> rstr \<Rightarrow> ('f, 's, bool) run_act" where
  "current_workspace_exists_for_account env workspace_id =
     act_bind (act_lift (re_authorization env)) (\<lambda>_.
     act_bind (\<lambda>w. act_lift (re_list_workspaces env (tw_server (rn_transfer w))) w) (\<lambda>workspaces.
     act_lift (Inr (workspace_id \<in> set workspaces))))"

definition clear_binding_if_current_workspace_missing ::
  "('f, 's) run_env \<Rightarrow> sync_runtime_status \<Rightarrow> sync_error \<Rightarrow> ('f, 's, sync_runtime_status option) run_act" where
  "clear_binding_if_current_workspace_missing env status error =
     (if \<not> error_may_indicate_missing_current_workspace error then act_lift (Inr None)
      else case non_blank (rt_remote_workspace_id status) of
             None \<Rightarrow> act_lift (Inr None)
           | Some workspace_id \<Rightarrow>
               act_bind (current_workspace_exists_for_account env workspace_id) (\<lambda>exists.
               if exists then act_lift (Inr None)
               else act_bind (clear_current_workspace_binding env status) (\<lambda>status. act_lift (Inr (Some status)))))"

text \<open>What the command does with the result of the run.\<close>

definition report_failure :: "('f, 's) run_env \<Rightarrow> sync_error \<Rightarrow> ('f, 's, sync_runtime_status) run_act" where
  "report_failure env error w =
     (case act_bind (read_status env) (\<lambda>status. clear_binding_if_current_workspace_missing env status error) w of
        (Inr (Some _), w) \<Rightarrow> (Inl NotConfigured, w)
      | (_, w) \<Rightarrow>
          (case with_lock env (set_error (re_lower env) error) w of
             (Inr status, w) \<Rightarrow> (Inl error, snd (emit_status status w))
           | (Inl _, w) \<Rightarrow> (Inl error, w)))"

definition report_result ::
  "('f, 's) run_env \<Rightarrow> sync_runtime_status sync_result \<Rightarrow> ('f, 's, sync_runtime_status) run_act" where
  "report_result env result =
     (case result of
        Inr status \<Rightarrow>
          act_bind (persist_runtime_status env status) (\<lambda>_.
          act_bind (emit_status status) (\<lambda>_. act_lift (Inr status)))
      | Inl error \<Rightarrow> report_failure env error)"

definition sync_run_once :: "('f, 's) run_env \<Rightarrow> ('f, 's, sync_runtime_status) run_act" where
  "sync_run_once env =
     act_bind (with_lock env (\<lambda>_. begin_sync_run)) (\<lambda>run_id w.
       case run_sync_once env w of
         (result, w) \<Rightarrow> report_result env result (snd (with_lock env (\<lambda>_. finish_sync_run run_id) w)))"

section \<open>Status queries\<close>

definition pending_upload_count ::
  "('f, 's) run_env \<Rightarrow> (bytes \<Rightarrow> rstr) \<Rightarrow> rstr \<Rightarrow> path \<Rightarrow> int \<Rightarrow> ('f, 's, int) run_act" where
  "pending_upload_count env hash vault_id vault_root now =
     act_bind (\<lambda>w. act_lift (scan_vault hash (re_lower env) vault_root (os_root (re_os env) (rn_fs w) vault_root)) w)
       (\<lambda>scanned_files.
     act_bind (\<lambda>w. case apply_scan hash (run_db w vault_id) (map file_input scanned_files) now of
         Inl e \<Rightarrow> (Inl e, w)
       | Inr (db, _) \<Rightarrow> (Inr (), w\<lparr>rn_dbs := (rn_dbs w)(vault_id \<mapsto> db)\<rparr>)) (\<lambda>_.
     act_bind (\<lambda>w. case Option.bind (get_vault (run_db w vault_id) vault_id) sv_local_head_commit_id of
         None \<Rightarrow> (Inr (), w)
       | Some head \<Rightarrow> act_run_db vault_id (\<lambda>db. fst (clear_dirty_files_matching_head db head)) w) (\<lambda>_.
     act_get (\<lambda>w. i64_saturating_len (length (list_dirty_files (run_db w vault_id)))))))"

definition pending_download_count :: "('f, 's) run_env \<Rightarrow> 'f \<Rightarrow> sync_runtime_status \<Rightarrow> int sync_result" where
  "pending_download_count env fs status =
     (case (rt_root_path status, rt_remote_workspace_id status) of
        (Some root_path, Some workspace_id) \<Rightarrow>
          res_bind (cached_remote_status_for_config env fs root_path workspace_id) (\<lambda>remote.
          Inr (case remote of Some r \<Rightarrow> if rm_has_remote_changes r then 1 else 0 | None \<Rightarrow> 0))
      | _ \<Rightarrow> Inr 0)"

definition pending_counts_for_status ::
  "('f, 's) run_env \<Rightarrow> (bytes \<Rightarrow> rstr) \<Rightarrow> sync_runtime_status \<Rightarrow> bool \<Rightarrow> ('f, 's, (int \<times> int) option) run_act" where
  "pending_counts_for_status env hash status sync_running =
     (if sync_running \<or> \<not> rt_configured status \<or> \<not> rt_enabled status \<or> rt_phase status \<noteq> Phase_Idle
      then act_lift (Inr None)
      else case (rt_vault_id status, rt_root_path status) of
             (Some vault_id, Some root_path) \<Rightarrow>
               (let vault_root = path_components root_path
                in act_bind (act_get (\<lambda>w. re_metadata env (rn_fs w) vault_root = Meta_Dir)) (\<lambda>is_dir.
                   if \<not> is_dir \<or> \<not> re_home env then act_lift (Inr None)
                   else
                     act_bind (act_lift (validate_vault_id vault_id)) (\<lambda>_.
                     act_bind (act_get (\<lambda>w. rn_dbs w vault_id)) (\<lambda>existing.
                     if existing = None then act_lift (Inr None)
                     else
                       act_bind (act_run_db vault_id (\<lambda>db. init_schema (Some db))) (\<lambda>_.
                       act_bind (clock_now env) (\<lambda>now.
                       act_bind (pending_upload_count env hash vault_id vault_root now) (\<lambda>uploads.
                       act_bind (\<lambda>w. act_lift (pending_download_count env (rn_fs w) status) w) (\<lambda>downloads.
                       act_lift (Inr (Some (uploads, downloads)))))))))))
           | _ \<Rightarrow> act_lift (Inr None))"

definition status_with_conflicts ::
  "('f, 's) run_env \<Rightarrow> (bytes \<Rightarrow> rstr) \<Rightarrow> bool \<Rightarrow> ('f, 's, sync_runtime_status) run_act" where
  "status_with_conflicts env hash scan_local =
     act_bind (read_status env) (\<lambda>status.
     act_bind
       (if \<not> scan_local then act_lift (Inr status)
        else
          act_bind (with_lock env (\<lambda>_. act_get is_sync_running)) (\<lambda>running.
          act_bind (pending_counts_for_status env hash status running) (\<lambda>counts.
          case counts of
            None \<Rightarrow> act_lift (Inr status)
          | Some (uploads, downloads) \<Rightarrow> with_lock env (set_pending_counts uploads downloads)))) (\<lambda>status.
     act_bind (list_vault_conflicts env status) (\<lambda>conflicts.
     act_lift (Inr (status\<lparr>rt_conflict_count := i64_saturating_len (length conflicts)\<rparr>)))))"

section \<open>Commands on the settings\<close>

definition sync_disconnect_vault :: "('f, 's) run_env \<Rightarrow> ('f, 's, sync_runtime_status) run_act" where
  "sync_disconnect_vault env =
     act_bind (read_status env) (\<lambda>status.
     if \<not> rt_configured status then act_lift (Inr status)
     else
       act_bind (with_lock env (\<lambda>_. act_get is_sync_running)) (\<lambda>running.
       if running then act_lift (Inl (InvalidArgument (lit ''sync is already running'')))
       else clear_current_workspace_binding env status))"

definition sync_rebuild_vault_state ::
  "('f, 's) run_env \<Rightarrow> (bytes \<Rightarrow> rstr) \<Rightarrow> ('f, 's, sync_runtime_status) run_act" where
  "sync_rebuild_vault_state env hash =
     act_bind (read_status env) (\<lambda>status.
     if \<not> rt_configured status then act_lift (Inl NotConfigured)
     else
       act_bind (with_lock env (\<lambda>_. act_get is_sync_running)) (\<lambda>running.
       if running then act_lift (Inl (InvalidArgument (lit ''sync is already running'')))
       else
         act_bind (act_lift (config_from_status status)) (\<lambda>config.
         act_bind (with_lock env (restore_vault_with_status config (rt_enabled status) (rt_last_synced_at_ms status))) (\<lambda>_.
         act_bind (status_with_conflicts env hash True) (\<lambda>status.
         act_bind (persist_runtime_status env status) (\<lambda>_.
         act_bind (emit_status status) (\<lambda>_. act_lift (Inr status))))))))"

definition sync_set_enabled :: "('f, 's) run_env \<Rightarrow> bool \<Rightarrow> ('f, 's, sync_runtime_status) run_act" where
  "sync_set_enabled env enabled =
     act_bind
       (if enabled
        then act_bind (with_lock env (\<lambda>_. store_enabled)) (\<lambda>_. with_lock env (set_phase Phase_Idle))
        else with_lock env (set_enabled False)) (\<lambda>status.
     act_bind (persist_runtime_status env status) (\<lambda>_.
     act_bind (emit_status status) (\<lambda>_. act_lift (Inr status))))"

definition sync_list_conflicts :: "('f, 's) run_env \<Rightarrow> ('f, 's, sync_conflict_record list) run_act" where
  "sync_list_conflicts env = act_bind (read_status env) (list_vault_conflicts env)"

definition remote_status_from_head ::
  "rstr \<Rightarrow> sync_vault_record option \<Rightarrow> sync_head \<Rightarrow> int \<Rightarrow> sync_remote_status" where
  "remote_status_from_head workspace_id local_vault head checked_at_ms =
     (let local_remote_head = Option.bind local_vault sv_remote_head_commit_id
      in \<lparr>rm_workspace_id = workspace_id, rm_remote_head_commit_id = hd_current_head_commit_id head,
          rm_remote_head_version = hd_head_version head,
          rm_latest_checkpoint_commit_id = hd_latest_checkpoint_commit_id head,
          rm_local_remote_head_commit_id = local_remote_head,
          rm_local_head_commit_id = Option.bind local_vault sv_local_head_commit_id,
          rm_has_remote_changes = (hd_current_head_commit_id head \<noteq> [] \<and>
            local_remote_head \<noteq> Some (hd_current_head_commit_id head)),
          rm_checked_at_ms = checked_at_ms\<rparr>)"

definition get_remote_status_for_state ::
  "('f, 's) run_env \<Rightarrow> sync_runtime_status \<Rightarrow> ('f, 's, sync_remote_status) run_act" where
  "get_remote_status_for_state env status =
     (if \<not> rt_configured status then act_lift (Inl NotConfigured)
      else
        act_bind (act_lift (required_status_value (rt_remote_workspace_id status) (lit ''remote_workspace_id''))) (\<lambda>workspace_id.
        act_bind (act_lift (re_authorization env)) (\<lambda>_.
        act_bind (\<lambda>w. act_lift (ev_get_head (re_pull_env env (tw_server (rn_transfer w))) workspace_id) w) (\<lambda>head.
        act_bind (case rt_vault_id status of
            Some vault_id \<Rightarrow> act_bind (open_sync_db_for_vault env vault_id) (\<lambda>_.
              act_get (\<lambda>w. get_vault (run_db w vault_id) vault_id))
          | None \<Rightarrow> act_lift (Inr None)) (\<lambda>local_vault.
        act_bind (clock_now env) (\<lambda>now.
        act_lift (Inr (remote_status_from_head workspace_id local_vault head now))))))))"

definition sync_get_remote_status :: "('f, 's) run_env \<Rightarrow> ('f, 's, sync_remote_status) run_act" where
  "sync_get_remote_status env =
     act_bind (read_status env) (\<lambda>status w.
       case get_remote_status_for_state env status w of
         (Inl error, w) \<Rightarrow>
           (case clear_binding_if_current_workspace_missing env status error w of
              (Inr (Some _), w) \<Rightarrow> (Inl NotConfigured, w)
            | (_, w) \<Rightarrow> (Inl error, w))
       | (Inr remote_status, w) \<Rightarrow>
           (case with_lock env clear_remote_status_error w of
              (Inr (Some status), w) \<Rightarrow>
                act_bind (emit_status status) (\<lambda>_.
                act_bind (persist_remote_status_snapshot env status remote_status) (\<lambda>_.
                act_lift (Inr remote_status))) w
            | (_, w) \<Rightarrow>
                act_bind (persist_remote_status_snapshot env status remote_status) (\<lambda>_.
                act_lift (Inr remote_status)) w))"

section \<open>The lock is released\<close>

text \<open>Nothing in a run starts another run: afterwards the same run is active, or none.\<close>

interpretation run_lock: frame "\<lambda>w w' :: ('f, 's) run_world.
    si_active_run_id (rn_state w') = None \<or> si_active_run_id (rn_state w') = si_active_run_id (rn_state w)"
  by unfold_locales auto

definition no_begin :: "('f, 's) run_env \<Rightarrow> bool" where
  "no_begin env \<longleftrightarrow> (\<forall>n. Op_Begin \<notin> set (re_others env n))"

definition method_frees :: "'a sync_method \<Rightarrow> bool" where
  "method_frees m \<longleftrightarrow> (\<forall>s. si_active_run_id (snd (m s)) = None \<or> si_active_run_id (snd (m s)) = si_active_run_id s)"

lemma step_frees: "op \<noteq> Op_Begin \<Longrightarrow>
    si_active_run_id (sync_step lower op s) = None \<or> si_active_run_id (sync_step lower op s) = si_active_run_id s"
  by (cases op) (simp_all add: reset_status_def finish_sync_run_def put_status_def)

lemma steps_free: "Op_Begin \<notin> set ops \<Longrightarrow>
    si_active_run_id (fold (sync_step lower) ops s) = None \<or> si_active_run_id (fold (sync_step lower) ops s) = si_active_run_id s"
proof (induction ops arbitrary: s)
  case (Cons op ops)
  have a: "si_active_run_id (sync_step lower op s) = None \<or> si_active_run_id (sync_step lower op s) = si_active_run_id s"
    by (rule step_frees) (use Cons.prems in auto)
  have b: "si_active_run_id (fold (sync_step lower) ops (sync_step lower op s)) = None \<or>
      si_active_run_id (fold (sync_step lower) ops (sync_step lower op s)) = si_active_run_id (sync_step lower op s)"
    by (rule Cons.IH) (use Cons.prems in simp)
  show ?case unfolding fold_simps using a b by argo
qed simp

lemma keeps_with_lock:
  assumes "no_begin env" "\<And>now. method_frees (m now)"
  shows "run_lock.keeps (with_lock env m)"
proof (rule run_lock.keepsI)
  fix w :: "('a, 'b) run_world"
  obtain r s where m: "m (re_clock env (rn_turns w)) (others_turn env w) = (r, s)" by fastforce
  have "si_active_run_id s = None \<or> si_active_run_id s = si_active_run_id (others_turn env w)"
    using assms(2) m unfolding method_frees_def by (metis snd_conv)
  moreover have "si_active_run_id (others_turn env w) = None \<or> si_active_run_id (others_turn env w) = si_active_run_id (rn_state w)"
    using assms(1) unfolding no_begin_def others_turn_def by (intro steps_free) blast
  ultimately show "si_active_run_id (rn_state (snd (with_lock env m w))) = None \<or>
      si_active_run_id (rn_state (snd (with_lock env m w))) = si_active_run_id (rn_state w)"
    using m by (auto simp: with_lock_def)
qed

lemma methods_free:
  "method_frees (act_get f)" "method_frees (set_phase p now)" "method_frees (complete_manual_sync k now)"
  "method_frees (set_error lower e now)" "method_frees (finish_sync_run r)" "method_frees (reset_status now)"
  by (simp_all add: method_frees_def finish_sync_run_def reset_status_def put_status_def)

lemma keeps_other_fields:
  "run_lock.keeps (emit_status st)" "run_lock.keeps (act_run_db v f)" "run_lock.keeps (run_pull env i)"
  "run_lock.keeps (run_push v m)" "run_lock.keeps (clock_now env)" "run_lock.keeps (open_sync_db_for_vault env v)"
  "run_lock.keeps (act_os n)"
  by (auto intro!: run_lock.keepsI simp: act_os_def emit_status_def act_run_db_def run_pull_def run_push_def clock_now_def open_sync_db_for_vault_def
      act_bind_def case_prod_beta split: sum.split)

lemmas run_keeps = run_lock.keeps_intros keeps_with_lock keeps_other_fields methods_free

lemma keeps_prepare_run: "no_begin env \<Longrightarrow> run_lock.keeps (prepare_run env)"
  unfolding prepare_run_def read_status_def by (intro run_keeps)

lemma keeps_finish_run: "no_begin env \<Longrightarrow> run_lock.keeps (finish_run env)"
  unfolding finish_run_def read_status_def list_vault_conflicts_def list_conflict_def
  by (intro run_keeps) (auto intro!: run_keeps run_lock.keepsI simp: act_run_db_def split: option.split sum.split)

lemma keeps_phases:
  "no_begin env \<Longrightarrow> run_lock.keeps (enter_phase env p)" "no_begin env \<Longrightarrow> run_lock.keeps (pull_phase env setup)"
  "run_lock.keeps (push_local env setup)" "run_lock.keeps (push_merge env setup c)"
  unfolding enter_phase_def pull_phase_def push_local_def push_merge_def by (auto intro!: run_keeps)


lemma keeps_push_and_finish:
  assumes "no_begin env"
  shows "run_lock.keeps (push_and_finish env setup local_parent)"
proof (rule run_lock.keepsI)
  fix w :: "('a, 'b) run_world"
  let ?again = "act_bind (pull_phase env setup) (\<lambda>_. act_bind (enter_phase env Phase_Publishing) (\<lambda>_.
    act_bind (if local_parent = [] then push_local env setup else push_merge env setup local_parent) (\<lambda>_. finish_run env)))"
  have again: "run_lock.keeps ?again" by (intro run_keeps keeps_phases keeps_finish_run assms)
  obtain r v where v: "push_local env setup w = (r, v)" by fastforce
  show "si_active_run_id (rn_state (snd (push_and_finish env setup local_parent w))) = None \<or>
      si_active_run_id (rn_state (snd (push_and_finish env setup local_parent w))) = si_active_run_id (rn_state w)"
    using run_lock.keeps_run [OF keeps_phases(3) v] run_lock.keeps_run [OF again prod.collapse [symmetric], of v]
      run_lock.keeps_run [OF keeps_finish_run [OF assms] prod.collapse [symmetric], of v] v
    by (cases r) (auto simp: push_and_finish_def)
qed

lemma keeps_run_sync_once: "no_begin env \<Longrightarrow> run_lock.keeps (run_sync_once env)"
  unfolding run_sync_once_def
  by (intro run_lock.keeps_bind run_lock.keeps_get keeps_prepare_run keeps_phases keeps_push_and_finish)

lemma keeps_clear_binding: "no_begin env \<Longrightarrow> run_lock.keeps (clear_binding_if_current_workspace_missing env status error)"
  unfolding clear_binding_if_current_workspace_missing_def clear_current_workspace_binding_def
    current_workspace_exists_for_account_def
  by (auto simp del: act_basic_simps intro!: run_keeps split: option.split)

lemma keeps_report_failure:
  assumes "no_begin env"
  shows "run_lock.keeps (report_failure env error)"
proof (rule run_lock.keepsI)
  fix w :: "('a, 'b) run_world"
  obtain r v where v: "act_bind (read_status env) (\<lambda>status. clear_binding_if_current_workspace_missing env status error) w = (r, v)"
    by fastforce
  have first: "run_lock.keeps (act_bind (read_status env) (\<lambda>status. clear_binding_if_current_workspace_missing env status error))"
    unfolding read_status_def by (intro run_keeps keeps_clear_binding assms)
  obtain r' v' where v': "with_lock env (set_error (re_lower env) error) v = (r', v')" by fastforce
  have "run_lock.keeps (with_lock env (set_error (re_lower env) error))" by (intro run_keeps assms)
  from run_lock.keeps_run [OF first v] run_lock.keeps_run [OF this v']
  show "si_active_run_id (rn_state (snd (report_failure env error w))) = None \<or>
      si_active_run_id (rn_state (snd (report_failure env error w))) = si_active_run_id (rn_state w)"
    by (auto simp: report_failure_def v v' emit_status_def split: sum.split option.split)
qed

lemma keeps_persist_status: "run_lock.keeps (persist_runtime_status env status)"
  unfolding persist_runtime_status_def by (intro run_keeps)

lemma keeps_report_result: "no_begin env \<Longrightarrow> run_lock.keeps (report_result env result)"
  unfolding report_result_def by (cases result) (auto intro!: run_keeps keeps_report_failure keeps_persist_status)


section \<open>What a run leaves in the database\<close>

definition settled :: "sync_db \<Rightarrow> bool" where
  "settled db \<longleftrightarrow> (\<forall>r\<in>set (list_dirty_files db). sf_deleted r)"

interpretation db_settled: frame "\<lambda>w w' :: ('f, 's) run_world. settled (run_db w v) \<longrightarrow> settled (run_db w' v)" for v
  by unfold_locales auto

lemma settled_cong: "db_files db = db_files db' \<Longrightarrow> settled db = settled db'"
  by (simp add: settled_def list_dirty_files_def)

lemma settled_init_schema: "settled db \<Longrightarrow> settled (init_schema (Some db))"
  by (simp add: settled_def list_dirty_files_def init_schema_def create_schema_def persist_schema_version_def reset_schema_def
      ensure_tree_entry_content_commit_id_column_def Let_def split: option.split)

lemma settled_mark_conflict: "settled (mark_conflict_resolved db c) = settled db"
  by (rule settled_cong) (simp add: mark_conflict_resolved_def)

lemma settled_mark_deleted: "settled db \<Longrightarrow> settled (mark_unsynced_file_deleted_clean db p now)"
  by (auto simp: settled_def list_dirty_files_def mark_unsynced_file_deleted_clean_def tbl_update_def)

lemma settled_run_db:
  "(\<And>db. settled db \<Longrightarrow> settled (f db)) \<Longrightarrow> settled (run_db w v) \<Longrightarrow> settled (run_db (snd (act_run_db v' f w)) v)"
  by (auto simp: act_run_db_def run_db_def split: option.split)

lemma keeps_settled_run_db: "(\<And>db. settled db \<Longrightarrow> settled (f db)) \<Longrightarrow> db_settled.keeps v (act_run_db v' f)"
  by (rule db_settled.keepsI) (blast intro: settled_run_db)

lemma keeps_settled_with_lock: "db_settled.keeps v (with_lock env m)"
  by (rule db_settled.keepsI) (simp add: with_lock_def run_db_def case_prod_beta)

lemma keeps_settled_list_conflict: "db_settled.keeps v (list_conflict env v' root c acc)"
proof -
  have a: "db_settled.keeps v (\<lambda>w. case root of None \<Rightarrow> (Inr True, w)
      | Some root \<Rightarrow> (vault_relative_file_exists env (rn_fs w) root p, w))" for p
    by (rule db_settled.keepsI) (simp split: option.split)
  have b: "db_settled.keeps v (act_run_db v' (\<lambda>db. mark_conflict_resolved db i))" for i
    by (rule keeps_settled_run_db) (simp add: settled_mark_conflict)
  have c: "db_settled.keeps v (\<lambda>w. act_run_db v' (\<lambda>db. mark_unsynced_file_deleted_clean db p (re_clock env (rn_turns w))) w)" for p
    by (rule db_settled.keepsI) (blast intro: settled_run_db settled_mark_deleted)
  have d: "db_settled.keeps v (case n of Inl _ \<Rightarrow> act_lift (Inr ())
      | Inr p \<Rightarrow> (\<lambda>w. act_run_db v' (\<lambda>db. mark_unsynced_file_deleted_clean db p (re_clock env (rn_turns w))) w))" for n
    using c by (cases n) (simp_all add: db_settled.keeps_lift)
  show ?thesis unfolding list_conflict_def by (intro db_settled.keeps_intros a b d)
qed

lemma keeps_settled_list_conflicts: "db_settled.keeps v (list_vault_conflicts env status)"
  unfolding list_vault_conflicts_def
  by (intro db_settled.keeps_intros keeps_settled_list_conflict keeps_settled_run_db settled_init_schema)

lemma keeps_settled_finish_run: "db_settled.keeps v (finish_run env)"
  unfolding finish_run_def read_status_def
  by (intro db_settled.keeps_intros keeps_settled_with_lock keeps_settled_list_conflicts)

lemma complete_manual_sync_Inr:
  assumes "complete_manual_sync k now s = (Inr status, s')"
  shows "si_status s' = status" "rt_phase status = Phase_Idle" "rt_last_error status = None"
    "rt_pending_uploads status = 0" "rt_pending_downloads status = 0" "rt_transfer status = default_transfer_status"
    "rt_last_synced_at_ms status = Some now" "rt_conflict_count status = k"
  using assms by (auto simp: complete_manual_sync_def put_status_def Let_def split: sum.splits)

lemma with_lock_Inr:
  "with_lock env m w = (Inr x, w') \<longleftrightarrow>
     (\<exists>s. m (re_clock env (rn_turns w)) (others_turn env w) = (Inr x, s) \<and> w' = w\<lparr>rn_state := s, rn_turns := Suc (rn_turns w)\<rparr>)"
  by (auto simp: with_lock_def split: prod.splits)

lemma finish_run_Inr:
  assumes "finish_run env w = (Inr status, w')"
  shows "si_status (rn_state w') = status" "rt_phase status = Phase_Idle" "rt_last_error status = None"
    "rt_pending_uploads status = 0" "rt_pending_downloads status = 0" "rt_transfer status = default_transfer_status"
    "\<exists>t. rn_turns w' = Suc t \<and> rt_last_synced_at_ms status = Some (re_clock env t)"
  using assms by (auto simp: finish_run_def act_bind_Inr with_lock_Inr dest: complete_manual_sync_Inr)

lemma enter_phase_fields:
  assumes "enter_phase env p w = (Inr (), w')"
  shows "rn_fs w' = rn_fs w" "rn_dbs w' = rn_dbs w" "rn_transfer w' = rn_transfer w" "rn_draws w' = rn_draws w"
  using assms by (auto simp: enter_phase_def act_bind_Inr with_lock_Inr emit_status_def)

lemma push_local_Inr:
  assumes "push_local env setup w = (Inr res, w')"
  obtains p where "push_local_changes (re_os env) (re_push_env env) (push_input_of setup (re_clock env (rn_turns w)))
      (push_world_of (rs_vault_id setup) w) = (Inr res, p)" "run_db w' (rs_vault_id setup) = sw_db p"
  using assms
  by (auto simp: push_local_def act_bind_Inr clock_now_def run_push_def push_world_of_def run_db_def split: prod.splits)

text \<open>
  What the vault has to be like when it is uploaded: the database is well formed, the directory can be listed and scanned,
  and the hash of file ids does not collide on the paths of this vault.
\<close>

definition vault_ready :: "('f, 's) run_env \<Rightarrow> run_setup \<Rightarrow> ('f, 's) run_world \<Rightarrow> bool" where
  "vault_ready env setup w \<longleftrightarrow>
     (let base = se_base (re_push_env env); db = run_db w (rs_vault_id setup) in
      push_env_ok (re_push_env env) \<and> lower_ok (ev_lower base) \<and> db_wf (ev_hash base) db \<and>
      (\<exists>es err files. os_root (re_os env) (rn_fs w) (rs_vault_root setup) = Inr (FsDir es err) \<and> fs_wf (FsDir es err) \<and>
        scan_vault (ev_hash base) (ev_lower base) (rs_vault_root setup) (Inr (FsDir es err)) = Inr files \<and>
        inj_on (file_id_of (ev_hash base)) (sf_normalized_path ` set (db_files db) \<union> scf_normalized_path ` set files)))"

lemma push_local_settles:
  fixes w :: "('f, 's) run_world"
  assumes "vault_ready env setup w" "push_local env setup w = (Inr res, w')"
  shows "settled (run_db w' (rs_vault_id setup))"
proof -
  let ?env = "re_push_env env" and ?input = "push_input_of setup (re_clock env (rn_turns w))"
    and ?p = "push_world_of (rs_vault_id setup) w"
  have fields: "ph_vault_root ?input = rs_vault_root setup" "sw_db ?p = run_db w (rs_vault_id setup)" "sw_fs ?p = rn_fs w"
    by (simp_all add: push_input_of_def push_world_of_def)
  from assms(1) obtain es err files where ready: "push_env_ok ?env" "lower_ok (ev_lower (se_base ?env))"
      "db_wf (ev_hash (se_base ?env)) (sw_db ?p)" "os_root (re_os env) (sw_fs ?p) (ph_vault_root ?input) = Inr (FsDir es err)"
      "fs_wf (FsDir es err)"
      "scan_vault (ev_hash (se_base ?env)) (ev_lower (se_base ?env)) (ph_vault_root ?input) (Inr (FsDir es err)) = Inr files"
      "inj_on (file_id_of (ev_hash (se_base ?env))) (sf_normalized_path ` set (db_files (sw_db ?p)) \<union> scf_normalized_path ` set files)"
    unfolding vault_ready_def Let_def fields by blast
  from push_local_Inr [OF assms(2)] obtain p where
    run: "push_local_changes (re_os env) ?env ?input ?p = (Inr res, p)" and db: "run_db w' (rs_vault_id setup) = sw_db p" by blast
  show ?thesis unfolding settled_def db using push_leaves_no_live_dirty [OF ready run] by blast
qed

text \<open>
  C9. A run that succeeds leaves nothing to do: when the first upload of the run was accepted, afterwards every file that
  still exists is uploaded (the only files marked as changed are deleted ones), the status that is stored and returned is
  idle, shows no error and nothing pending, and carries the time that the clock showed at the last step of the run.
\<close>
theorem sync_run_settles:
  fixes w :: "('f, 's) run_world"
  assumes "prepare_run env w = (Inr setup, w1)" "pull_phase env setup w1 = (Inr (), w2)"
    and "enter_phase env Phase_Planning w2 = (Inr (), w3)" "push_local env setup w3 = (Inr res, w4)"
    and "vault_ready env setup w2" "run_sync_once env w = (Inr status, w')"
  shows "(\<forall>r\<in>set (list_dirty_files (run_db w' (rs_vault_id setup))). sf_deleted r) \<and>
    si_status (rn_state w') = status \<and> rt_phase status = Phase_Idle \<and> rt_last_error status = None \<and>
    rt_pending_uploads status = 0 \<and> rt_pending_downloads status = 0 \<and>
    (\<exists>t. rn_turns w' = Suc t \<and> rt_last_synced_at_ms status = Some (re_clock env t))"
proof -
  note same = enter_phase_fields [OF assms(3)]
  have "run_db w3 = run_db w2" by (simp add: run_db_def same fun_eq_iff)
  with assms(5) have "vault_ready env setup w3" unfolding vault_ready_def same by simp
  from push_local_settles [OF this assms(4)] have "settled (run_db w4 (rs_vault_id setup))" .
  moreover have fin: "finish_run env w4 = (Inr status, w')"
    using assms(6) by (simp add: run_sync_once_def act_bind_def assms(1-4) push_and_finish_def)
  moreover note db_settled.keeps_run [OF keeps_settled_finish_run fin]
  ultimately show ?thesis using finish_run_Inr [OF fin] unfolding settled_def by blast
qed

section \<open>Settings across a restart\<close>

lemma required_status_value_Inr:
  "required_status_value v field = Inr s \<longleftrightarrow> (\<exists>t. v = Some t \<and> s = str_trim t \<and> s \<noteq> [])"
  by (auto simp: required_status_value_def split: option.splits if_splits)

lemma config_from_status_Inr:
  assumes "config_from_status status = Inr config"
  shows "rt_vault_id status \<noteq> None" "cf_vault_id config = str_trim (the (rt_vault_id status))"
    "rt_root_path status \<noteq> None" "cf_root_path config = str_trim (the (rt_root_path status))"
    "rt_remote_workspace_id status \<noteq> None" "cf_remote_workspace_id config = str_trim (the (rt_remote_workspace_id status))"
    "rt_device_id status \<noteq> None" "cf_device_id config = str_trim (the (rt_device_id status))"
    "cf_account_key_id config = rt_account_key_id status" "cf_workspace_name config = rt_workspace_name status"
    "cf_device_name config = rt_device_name status" "cf_remember_workspace_key config = rt_remember_workspace_key status"
    "cf_vault_id config \<noteq> []" "cf_root_path config \<noteq> []" "cf_remote_workspace_id config \<noteq> []" "cf_device_id config \<noteq> []"
  using assms by (auto simp: config_from_status_def res_bind_eq_Inr required_status_value_Inr)

lemma cached_remote_workspace:
  assumes "cached_remote_status_for_config env fs root ws = Inr (Some r)"
  shows "rm_workspace_id r = ws"
proof -
  from assms obtain c where c: "read_sync_config (re_config env) fs root = Inr (Some c)" "cl_remote_workspace_id c = ws"
    "sf_remote (cl_status c) = Some r"
    by (auto simp: cached_remote_status_for_config_def res_bind_eq_Inr bind_eq_Some_conv split: if_splits)
  then have "validate_config_file c = Inr ()"
    by (auto simp: read_sync_config_def res_bind_eq_Inr split: option.splits if_splits)
  then show ?thesis using c by (auto simp: validate_config_file_def split: if_splits)
qed

lemma act_os_Inr: "act_os m w = (Inr x, w') \<longleftrightarrow> (\<exists>fs. m (rn_fs w) = (Inr x, fs) \<and> w' = w\<lparr>rn_fs := fs\<rparr>)"
  by (auto simp: act_os_def split: prod.splits)

lemma persist_runtime_status_Inr:
  assumes "persist_runtime_status env status w = (Inr (), w')" "rt_configured status"
  obtains config remote c fs where "config_from_status status = Inr config" "re_home env"
    "validate_vault_id (cf_vault_id config) = Inr ()"
    "cached_remote_status_for_config env (rn_fs w) (cf_root_path config) (cf_remote_workspace_id config) = Inr remote"
    "write_sync_config_with_status (re_config env) (cf_root_path config) config (rt_enabled status) (rt_updated_at_ms status)
       \<lparr>sf_last_synced_at_ms = rt_last_synced_at_ms status, sf_remote = remote\<rparr> (rn_fs w) = (Inr c, rn_fs w')"
  using assms
  by (auto simp: persist_runtime_status_def act_bind_Inr open_sync_db_for_vault_def act_os_Inr clock_now_def act_run_db_def split: if_splits)

text \<open>Restoring a readable configuration succeeds, whatever the service did before.\<close>

lemma restore_config_run:
  assumes "read_sync_config (re_config env) (rn_fs v) root = Inr (Some c)" "re_home env"
    "validate_vault_id (cl_vault_id c) = Inr ()" "str_trim (cl_vault_id c) \<noteq> []" "str_trim root \<noteq> []"
  shows "\<exists>now v'. restore_vault_config_for_root env root v =
    (Inr (configured_status (runtime_config_from_file root c) (cl_enabled c) (sf_last_synced_at_ms (cl_status c)) now), v')"
  using assms
  by (simp add: restore_vault_config_for_root_def Let_def act_bind_def open_sync_db_for_vault_def clock_now_def act_run_db_def
      with_lock_def restore_vault_with_status_def put_status_def emit_status_def validate_sync_config_def runtime_config_from_file_def)
    blast

text \<open>
  A restart keeps the settings: when the status of a configured vault was stored, opening the vault again (with the
  same files, whatever the service holds in memory) succeeds and yields the same vault, workspace, device, account key,
  names and key policy, the same switch and the same time of the last run, in the idle or the disabled phase and without
  an error.
\<close>
theorem restart_restores_settings:
  assumes "config_json_ok (re_config env)" "os_reads_back (re_os env)" "os_read_exists (re_os env)"
    and "rt_configured status" "rt_root_path status = Some root" "str_trim root = root"
    and "persist_runtime_status env status w = (Inr (), w1)" "rn_fs v = rn_fs w1"
  shows "\<exists>status' v'. restore_vault_config_for_root env root v = (Inr status', v') \<and> rt_configured status' \<and>
    rt_enabled status' = rt_enabled status \<and> rt_phase status' = (if rt_enabled status then Phase_Idle else Phase_Disabled) \<and>
    rt_vault_id status' = map_option str_trim (rt_vault_id status) \<and> rt_root_path status' = Some root \<and>
    rt_remote_workspace_id status' = map_option str_trim (rt_remote_workspace_id status) \<and>
    rt_device_id status' = map_option str_trim (rt_device_id status) \<and>
    rt_account_key_id status' = trimmed_optional (rt_account_key_id status) \<and>
    rt_workspace_name status' = trimmed_optional (rt_workspace_name status) \<and>
    rt_device_name status' = trimmed_optional (rt_device_name status) \<and>
    rt_remember_workspace_key status' = rt_remember_workspace_key status \<and>
    rt_last_synced_at_ms status' = rt_last_synced_at_ms status \<and> rt_last_error status' = None"
proof -
  obtain config remote c where config: "config_from_status status = Inr config" and home: "re_home env"
    and id: "validate_vault_id (cf_vault_id config) = Inr ()"
    and remote: "cached_remote_status_for_config env (rn_fs w) (cf_root_path config) (cf_remote_workspace_id config) = Inr remote"
    and c: "write_sync_config_with_status (re_config env) (cf_root_path config) config (rt_enabled status) (rt_updated_at_ms status)
       \<lparr>sf_last_synced_at_ms = rt_last_synced_at_ms status, sf_remote = remote\<rparr> (rn_fs w) = (Inr c, rn_fs w1)"
    using persist_runtime_status_Inr [OF assms(7,4)] by metis
  note cf = config_from_status_Inr [OF config]
  have root: "cf_root_path config = root" "root \<noteq> []" using cf(4,14) assms(5,6) by simp_all
  have trim: "str_trim (cf_vault_id config) = cf_vault_id config" "str_trim (cf_remote_workspace_id config) = cf_remote_workspace_id config"
    "str_trim (cf_device_id config) = cf_device_id config" using cf(2,6,8) by simp_all
  have read: "read_sync_config (re_config env) (rn_fs v) root = Inr (Some c)"
    using write_config_reads [OF assms(1-3) c] assms(8) root by simp
  note c' = write_config_Inr(1) [OF c]
  have keep: "status_for_workspace \<lparr>sf_last_synced_at_ms = rt_last_synced_at_ms status, sf_remote = remote\<rparr>
      (cf_remote_workspace_id config) = \<lparr>sf_last_synced_at_ms = rt_last_synced_at_ms status, sf_remote = remote\<rparr>"
    using cached_remote_workspace remote by (fastforce simp: status_for_workspace_def split: option.split)
  have fields: "cl_vault_id c = cf_vault_id config" "cl_remote_workspace_id c = cf_remote_workspace_id config"
    "cl_device_id c = cf_device_id config" "cl_account_key_id c = trimmed_optional (cf_account_key_id config)"
    "cl_workspace_name c = trimmed_optional (cf_workspace_name config)" "cl_device_name c = trimmed_optional (cf_device_name config)"
    "cl_remember_workspace_key c = cf_remember_workspace_key config" "cl_enabled c = rt_enabled status"
    "sf_last_synced_at_ms (cl_status c) = rt_last_synced_at_ms status"
    using c' by (auto simp: config_file_from_runtime_def Let_def trim keep split: if_splits)
  obtain now v' where run: "restore_vault_config_for_root env root v =
      (Inr (configured_status (runtime_config_from_file root c) (cl_enabled c) (sf_last_synced_at_ms (cl_status c)) now), v')"
    using restore_config_run [OF read home] id cf(13) trim(1) root(2) assms(6) unfolding fields by auto
  have ids: "map_option str_trim (rt_vault_id status) = Some (cf_vault_id config)"
    "map_option str_trim (rt_remote_workspace_id status) = Some (cf_remote_workspace_id config)"
    "map_option str_trim (rt_device_id status) = Some (cf_device_id config)"
    using cf(1,2,5,6,7,8) by auto
  show ?thesis unfolding run ids
    by (simp add: configured_status_def runtime_config_from_file_def fields cf(9-12))
qed

section \<open>Disconnecting\<close>

definition os_removes :: "'f os_api \<Rightarrow> bool" where
  "os_removes os \<longleftrightarrow> (\<forall>fs p r fs'. os_remove os p fs = (r, fs') \<longrightarrow> (r = Inr () \<or> r = Inl NotFound) \<longrightarrow> \<not> os_exists os fs' p)"

lemma delete_sync_config_Inr:
  assumes "os_removes (cg_os cg)" "delete_sync_config cg root fs = (Inr (), fs')"
  shows "read_sync_config cg fs' root = Inr None"
proof -
  have "\<not> os_exists (cg_os cg) fs' (sync_config_path root)"
    using assms unfolding os_removes_def
    by (auto simp: delete_sync_config_def Let_def split: prod.splits sum.splits remove_error.splits)
  then show ?thesis by (simp add: read_sync_config_def read_sync_config_bytes_def Let_def)
qed

lemma delete_vault_gone: "get_vault (delete_vault db v) v = None"
  by (auto simp: get_vault_def delete_vault_def tbl_get_def tbl_delete_def find_None_iff)

lemma clear_binding_Inr:
  assumes "os_removes (re_os env)" "clear_current_workspace_binding env status w = (Inr status', w')"
  shows "\<exists>vault_id. non_blank (rt_vault_id status) = Some vault_id \<and> get_vault (run_db w' vault_id) vault_id = None \<and>
      (\<forall>v. v \<noteq> vault_id \<longrightarrow> rn_dbs w' v = rn_dbs w v) \<and>
      (\<forall>root. non_blank (rt_root_path status) = Some root \<longrightarrow> read_sync_config (re_config env) (rn_fs w') root = Inr None) \<and>
      \<not> rt_configured status' \<and> si_status (rn_state w') = status' \<and> si_active_run_id (rn_state w') = None"
proof -
  let ?delete = "case non_blank (rt_root_path status) of None \<Rightarrow> act_lift (Inr ())
      | Some root \<Rightarrow> act_os (delete_sync_config (re_config env) root)"
  from assms(2) obtain vault_id fs fs' w2 where
    id: "non_blank (rt_vault_id status) = Some vault_id"
    and delete: "?delete (w\<lparr>rn_fs := fs\<rparr>) = (Inr (), w\<lparr>rn_fs := fs'\<rparr>)"
    and rest: "act_bind (open_sync_db_for_vault env vault_id) (\<lambda>_. act_bind (act_run_db vault_id (\<lambda>db. delete_vault db vault_id)) (\<lambda>_.
      act_bind (with_lock env reset_status) (\<lambda>status. act_bind (emit_status status) (\<lambda>_. act_lift (Inr status)))))
      (w\<lparr>rn_fs := fs'\<rparr>) = (Inr status', w')"
    unfolding clear_current_workspace_binding_def act_bind_Inr act_os_Inr act_lift_Inr
    by (cases "non_blank (rt_root_path status)") (auto simp: ok_or_def act_os_Inr split: option.splits, blast+)
  have "rn_fs w' = fs'" "get_vault (run_db w' vault_id) vault_id = None" "\<forall>v. v \<noteq> vault_id \<longrightarrow> rn_dbs w' v = rn_dbs w v"
    "\<not> rt_configured status'" "si_status (rn_state w') = status'" "si_active_run_id (rn_state w') = None"
    using rest
    by (auto simp: act_bind_Inr open_sync_db_for_vault_def act_run_db_def with_lock_Inr reset_status_def put_status_def
        not_configured_def emit_status_def run_db_def delete_vault_gone split: if_splits)
  moreover have "read_sync_config (re_config env) fs' root = Inr None" if "non_blank (rt_root_path status) = Some root" for root
    using delete that delete_sync_config_Inr [OF assms(1)] by (auto simp: act_os_Inr dest!: arg_cong [where f = rn_fs])
  ultimately show ?thesis using id by blast
qed

text \<open>
  Disconnecting removes the vault from the service: its row is gone from the database (the databases of other vaults
  are unchanged), its settings file is gone, so that opening the vault again finds sync unconfigured, and the service
  reports that no vault is configured and no run active. While a run is active, disconnecting is refused and nothing changes.
\<close>
theorem disconnect_forgets_vault:
  assumes "os_removes (re_os env)" "read_status env w = (Inr status, w1)" "rt_configured status"
    and "sync_disconnect_vault env w = (r, w')"
  shows "if is_sync_running (others_turn env w1)
    then r = Inl (InvalidArgument (lit ''sync is already running'')) \<and> rn_dbs w' = rn_dbs w \<and> rn_fs w' = rn_fs w
    else \<forall>status'. r = Inr status' \<longrightarrow>
      (\<exists>vault_id. non_blank (rt_vault_id status) = Some vault_id \<and> get_vault (run_db w' vault_id) vault_id = None \<and>
        (\<forall>v. v \<noteq> vault_id \<longrightarrow> rn_dbs w' v = rn_dbs w v) \<and>
        (\<forall>root. non_blank (rt_root_path status) = Some root \<longrightarrow> read_sync_config (re_config env) (rn_fs w') root = Inr None) \<and>
        \<not> rt_configured status' \<and> si_status (rn_state w') = status' \<and> si_active_run_id (rn_state w') = None)"
proof -
  have w1: "rn_dbs w1 = rn_dbs w" "rn_fs w1 = rn_fs w" using assms(2) by (auto simp: read_status_def with_lock_Inr)
  let ?w2 = "w1\<lparr>rn_state := others_turn env w1, rn_turns := Suc (rn_turns w1)\<rparr>"
  have run: "(if is_sync_running (others_turn env w1) then act_lift (Inl (InvalidArgument (lit ''sync is already running'')))
      else clear_current_workspace_binding env status) ?w2 = (r, w')"
    using assms(3,4) by (simp add: sync_disconnect_vault_def act_bind_def assms(2) with_lock_def split: if_splits)
  show ?thesis
  proof (cases "is_sync_running (others_turn env w1)")
    case True
    with run w1 show ?thesis by auto
  next
    case False
    then have clear: "clear_current_workspace_binding env status ?w2 = (r, w')" using run by simp
    have dbs: "rn_dbs ?w2 = rn_dbs w" using w1 by simp
    show ?thesis unfolding if_not_P [OF False]
    proof (intro allI impI)
      fix status' assume "r = Inr status'"
      with clear have "clear_current_workspace_binding env status ?w2 = (Inr status', w')" by simp
      from clear_binding_Inr [OF assms(1) this, unfolded dbs]
      show "\<exists>vault_id. non_blank (rt_vault_id status) = Some vault_id \<and> get_vault (run_db w' vault_id) vault_id = None \<and>
        (\<forall>v. v \<noteq> vault_id \<longrightarrow> rn_dbs w' v = rn_dbs w v) \<and>
        (\<forall>root. non_blank (rt_root_path status) = Some root \<longrightarrow> read_sync_config (re_config env) (rn_fs w') root = Inr None) \<and>
        \<not> rt_configured status' \<and> si_status (rn_state w') = status' \<and> si_active_run_id (rn_state w') = None" .
    qed
  qed
qed

lemma switched_workspace_keeps_heads:
  assumes "get_vault db (cf_vault_id config) = Some v"
  shows "get_vault (persist_configured_vault config enabled now db) (cf_vault_id config) =
    Some (v\<lparr>sv_root_path := cf_root_path config, sv_remote_workspace_id := cf_remote_workspace_id config,
      sv_device_id := cf_device_id config, sv_enabled := enabled, sv_updated_at_ms := now\<rparr>)"
proof -
  have "sv_vault_id v = cf_vault_id config" using assms by (auto simp: get_vault_def tbl_get_def find_Some_iff)
  then show ?thesis using assms by (simp add: persist_configured_vault_def get_upserted_vault)
qed

section \<open>Open conflicts\<close>

lemma open_conflicts_resolved:
  "list_open_conflicts (mark_conflict_resolved db i) = filter (\<lambda>c. sx_conflict_id c \<noteq> i) (list_open_conflicts db)"
proof -
  have "filter (\<lambda>c. sx_status c = lit ''open'') (db_conflicts (mark_conflict_resolved db i)) =
      filter (\<lambda>c. sx_conflict_id c \<noteq> i) (filter (\<lambda>c. sx_status c = lit ''open'') (db_conflicts db))"
  proof -
    have "filter (\<lambda>c. sx_status c = lit ''open'') (tbl_update (\<lambda>c. sx_conflict_id c = i \<and> sx_status c = lit ''open'')
        (\<lambda>c. c\<lparr>sx_status := lit ''resolved''\<rparr>) cs) = filter (\<lambda>c. sx_conflict_id c \<noteq> i) (filter (\<lambda>c. sx_status c = lit ''open'') cs)" for cs
      by (induction cs) (auto simp: tbl_update_def)
    then show ?thesis by (simp add: mark_conflict_resolved_def)
  qed
  then show ?thesis by (simp add: list_open_conflicts_def filter_sort)
qed

definition conflict_present :: "('f, 's) run_env \<Rightarrow> 'f \<Rightarrow> path option \<Rightarrow> sync_conflict_record \<Rightarrow> bool sync_result" where
  "conflict_present env fs root c =
     (case root of None \<Rightarrow> Inr True | Some root \<Rightarrow> vault_relative_file_exists env fs root (sx_conflict_path c))"

lemma list_conflict_Inr:
  assumes "list_conflict env v root c acc w = (Inr acc', w')"
  shows "\<exists>b. conflict_present env (rn_fs w) root c = Inr b \<and> acc' = (if b then acc @ [c] else acc) \<and> rn_fs w' = rn_fs w \<and>
    list_open_conflicts (run_db w' v) = (if b then list_open_conflicts (run_db w v)
      else filter (\<lambda>d. sx_conflict_id d \<noteq> sx_conflict_id c) (list_open_conflicts (run_db w v)))"
proof -
  have files: "list_open_conflicts (mark_unsynced_file_deleted_clean db p now) = list_open_conflicts db" for db p now
    by (simp add: list_open_conflicts_def mark_unsynced_file_deleted_clean_def)
  have "(case root of None \<Rightarrow> (Inr True, w) | Some r \<Rightarrow> (vault_relative_file_exists env (rn_fs w) r (sx_conflict_path c), w)) =
      (conflict_present env (rn_fs w) root c, w)" by (simp add: conflict_present_def split: option.split)
  with assms show ?thesis
    by (cases "conflict_present env (rn_fs w) root c")
      (auto simp: list_conflict_def act_bind_def act_run_db_def run_db_def open_conflicts_resolved files split: sum.splits if_splits)
qed

lemma list_conflicts_Inr:
  assumes "act_fold (list_conflict env v root) cs acc w = (Inr acc', w')"
    and "distinct (map sx_conflict_id cs)" "list_open_conflicts (run_db w v) = pre @ cs" "set (map sx_conflict_id pre) \<inter> set (map sx_conflict_id cs) = {}"
  shows "list_open_conflicts (run_db w' v) = pre @ drop (length acc) acc' \<and> take (length acc) acc' = acc \<and> rn_fs w' = rn_fs w \<and>
    drop (length acc) acc' = filter (\<lambda>c. conflict_present env (rn_fs w) root c = Inr True) cs \<and>
    (\<forall>c\<in>set cs. conflict_present env (rn_fs w) root c \<in> range Inr)"
  using assms
proof (induction cs arbitrary: acc w pre)
  case (Cons c cs)
  from Cons.prems(1) obtain acc1 w1 where one: "list_conflict env v root c acc w = (Inr acc1, w1)"
    and rest: "act_fold (list_conflict env v root) cs acc1 w1 = (Inr acc', w')" by (auto simp: act_bind_Inr)
  from list_conflict_Inr [OF one] obtain b where b: "conflict_present env (rn_fs w) root c = Inr b"
    "acc1 = (if b then acc @ [c] else acc)" "rn_fs w1 = rn_fs w"
    "list_open_conflicts (run_db w1 v) = (if b then list_open_conflicts (run_db w v)
      else filter (\<lambda>d. sx_conflict_id d \<noteq> sx_conflict_id c) (list_open_conflicts (run_db w v)))" by blast
  let ?pre = "if b then pre @ [c] else pre"
  have others: "filter (\<lambda>d. sx_conflict_id d \<noteq> sx_conflict_id c) (pre @ c # cs) = pre @ cs"
  proof -
    have "filter (\<lambda>d. sx_conflict_id d \<noteq> sx_conflict_id c) pre = pre" "filter (\<lambda>d. sx_conflict_id d \<noteq> sx_conflict_id c) cs = cs"
      using Cons.prems(2,4) by (auto intro!: filter_True simp: image_iff)
    then show ?thesis by simp
  qed
  have "list_open_conflicts (run_db w1 v) = ?pre @ cs" using b(4) Cons.prems(3) others by simp
  from Cons.IH [OF rest _ this] Cons.prems(2,4) have ih: "list_open_conflicts (run_db w' v) = ?pre @ drop (length acc1) acc'"
    "take (length acc1) acc' = acc1" "rn_fs w' = rn_fs w1"
    "drop (length acc1) acc' = filter (\<lambda>c. conflict_present env (rn_fs w1) root c = Inr True) cs"
    "\<forall>c\<in>set cs. conflict_present env (rn_fs w1) root c \<in> range Inr" by (cases b; auto)+
  show ?case
  proof (cases b)
    case False
    then show ?thesis using ih b by auto
  next
    case True
    then have t: "take (Suc (length acc)) acc' = acc @ [c]" using ih(2) b(2) by simp
    then have "acc' = acc @ c # drop (Suc (length acc)) acc'" by (metis append.assoc append_Cons append_Nil append_take_drop_id)
    then have "drop (length acc) acc' = c # drop (Suc (length acc)) acc'" "take (length acc) acc' = acc"
      by (metis append_eq_conv_conj)+
    then show ?thesis using True ih b by simp
  qed
qed simp

lemma unique_conflicts_opened:
  "unique_key sx_conflict_id (db_conflicts db) \<Longrightarrow> unique_key sx_conflict_id (db_conflicts (init_schema (Some db)))"
  by (simp add: init_schema_def create_schema_def persist_schema_version_def reset_schema_def unique_key_def
      ensure_tree_entry_content_commit_id_column_def Let_def split: option.split)

text \<open>
  The list of conflicts is exact: when the conflicts of a vault with an existing database were listed, the list is what the
  database holds as open afterwards, and it contains exactly the conflicts that were open before and whose copy is still a
  file in the vault (all of them when the vault directory is missing); the conflicts whose copy is gone are settled.
\<close>
theorem conflicts_listed_exactly:
  assumes "rt_vault_id status = Some v" "re_home env" "rn_dbs w v = Some db" "unique_key sx_conflict_id (db_conflicts db)"
    and "list_vault_conflicts env status w = (Inr cs, w')"
  shows "list_open_conflicts (run_db w' v) = cs \<and> rn_fs w' = rn_fs w \<and>
    cs = filter (\<lambda>c. case rt_root_path status of
        Some root \<Rightarrow> re_metadata env (rn_fs w) (path_components root) = Meta_Dir \<longrightarrow>
          vault_relative_file_exists env (rn_fs w) (path_components root) (sx_conflict_path c) = Inr True
      | None \<Rightarrow> True) (list_open_conflicts (init_schema (Some db)))"
proof -
  let ?root = "Option.bind (map_option path_components (rt_root_path status)) (\<lambda>root.
      if re_metadata env (rn_fs w) root = Meta_Dir then Some root else None)"
  let ?w = "w\<lparr>rn_dbs := (rn_dbs w)(v \<mapsto> init_schema (Some db))\<rparr>"
  have fold: "act_fold (list_conflict env v ?root) (list_open_conflicts (init_schema (Some db))) [] ?w = (Inr cs, w')"
    using assms(5) by (auto simp: list_vault_conflicts_def assms(1-3) act_bind_Inr act_run_db_def run_db_def)
  have "distinct (map sx_conflict_id (list_open_conflicts (init_schema (Some db))))"
    using unique_conflicts_opened [OF assms(4)] unfolding unique_key_def list_open_conflicts_def distinct_map
    by (auto intro: inj_on_subset)
  from list_conflicts_Inr [OF fold this, of "[]"]
  have "list_open_conflicts (run_db w' v) = cs" "rn_fs w' = rn_fs w"
    "cs = filter (\<lambda>c. conflict_present env (rn_fs w) ?root c = Inr True) (list_open_conflicts (init_schema (Some db)))"
    by (auto simp: run_db_def)
  moreover have "conflict_present env (rn_fs w) ?root c = Inr True \<longleftrightarrow> (case rt_root_path status of
        Some root \<Rightarrow> re_metadata env (rn_fs w) (path_components root) = Meta_Dir \<longrightarrow>
          vault_relative_file_exists env (rn_fs w) (path_components root) (sx_conflict_path c) = Inr True
      | None \<Rightarrow> True)" for c
    by (simp add: conflict_present_def split: option.split)
  ultimately show ?thesis by simp
qed

section \<open>A small run\<close>

text \<open>An empty vault that is synchronised with a new workspace.\<close>

definition quiet_head :: sync_head where
  "quiet_head = \<lparr>hd_current_head_commit_id = [], hd_head_version = 0, hd_latest_checkpoint_commit_id = []\<rparr>"

definition quiet_env :: "((path \<times> bytes) list, nat) run_env" where
  "quiet_env = \<lparr>re_config = example_config_env, re_metadata = (\<lambda>_ _. Meta_NotFound), re_canonicalize = (\<lambda>_ _. None),
     re_pull_env = (\<lambda>_. example_pull_env\<lparr>ev_get_head := (\<lambda>_. Inr quiet_head)\<rparr>),
     re_push_env = small_env\<lparr>se_get_head := (\<lambda>_ s. (Inr quiet_head, s))\<rparr>, re_lower = to_ascii_lowercase, re_home = True,
     re_authorization = Inr [], re_workspace_key = (\<lambda>_ _ _ _. act_lift (Inr [])), re_signing_key = (\<lambda>_ _. Inr (Some [])),
     re_vault_state = vault_state_new, re_list_workspaces = (\<lambda>_. Inr []), re_clock = int, re_others = (\<lambda>_. [])\<rparr>"

definition quiet_config :: sync_vault_config where
  "quiet_config = example_config\<lparr>cf_vault_id := lit ''v1''\<rparr>"

definition quiet_state :: sync_inner where
  "quiet_state = \<lparr>si_status = configured_status quiet_config True None 123, si_active_run_id = None, si_next_run_id = 1\<rparr>"

definition quiet_world :: "((path \<times> bytes) list, nat) run_world" where
  "quiet_world = \<lparr>rn_fs = [], rn_dbs = Map.empty, rn_ledger = \<lparr>ml_entries = [], ml_next_id = 0\<rparr>, rn_ticks = 0, rn_notified = [],
     rn_transfer = example_transfer_world, rn_draws = 0, rn_state = quiet_state, rn_emitted = [], rn_turns = 0\<rparr>"

definition quiet_setup :: run_setup where
  "quiet_setup = \<lparr>rs_vault_id = lit ''v1'', rs_workspace_id = lit ''w1'', rs_device_id = lit ''d1'', rs_vault_root = example_root,
     rs_workspace_key = [], rs_signing_key = []\<rparr>"

lemma quiet_env_fields [simp]:
  "re_others quiet_env = (\<lambda>_. [])" "re_home quiet_env" "re_clock quiet_env = int" "re_config quiet_env = example_config_env"
  "cg_os example_config_env = flat_os" "ev_get_head (re_pull_env quiet_env t) = (\<lambda>_. Inr quiet_head)"
  "se_get_head (re_push_env quiet_env) = (\<lambda>_ t. (Inr quiet_head, t))" "se_base (re_push_env quiet_env) = se_base small_env"
  "se_plan_vec (re_push_env quiet_env) = (\<lambda>_. Inr [])" "se_planner_config (re_push_env quiet_env) = default_planner_config"
  "hd_current_head_commit_id quiet_head = []"
  by (simp_all add: quiet_env_def example_config_env_def small_env_def quiet_head_def)

lemma quiet_others [simp]: "others_turn quiet_env w = rn_state w"
  by (simp add: others_turn_def)

lemma quiet_begins: "fst (begin_sync_run (others_turn quiet_env quiet_world)) = Inr 1"
  by (simp add: quiet_world_def quiet_state_def begin_sync_run_def enabled_before_run_def configured_status_def next_run_id_def
      is_sync_running_def)


lemma quiet_prepares:
  "prepare_run quiet_env quiet_world =
     (Inr quiet_setup, quiet_world\<lparr>rn_dbs := [lit ''v1'' \<mapsto> init_schema None], rn_turns := 1\<rparr>)"
proof -
  let ?s = "configured_status quiet_config True None 123"
  have s: "si_status (rn_state quiet_world) = ?s" "rt_configured ?s" "rt_enabled ?s" "rt_vault_id ?s = Some (lit ''v1'')"
    "rt_remote_workspace_id ?s = Some (lit ''w1'')" "rt_device_id ?s = Some (lit ''d1'')" "rt_root_path ?s = Some (lit ''/v'')"
    by (simp_all add: quiet_world_def quiet_state_def configured_status_def quiet_config_def example_config_def)
  have root: "status_vault_root quiet_env fs ?s = Inr example_root" for fs
    by (simp add: status_vault_root_def required_status_value_def s quiet_env_def vault_state_new_def get_vault_root_def ok_or_def
        example_root_def std_simps is_whitespace_def path_components_def path_segments_def Let_def segment_component_def List.map_filter_simps)
  have cfg: "validate_transfer_config (ta_config (se_transfer (re_push_env quiet_env))) = Inr ()"
    by (simp add: quiet_env_def small_env_def example_transfer_api_def default_transfer_config_def validate_transfer_config_def)
  show ?thesis
    by (simp add: prepare_run_def act_bind_def read_status_def with_lock_def s root cfg validate_enabled_status_def
        enabled_before_run_def required_status_value_def open_sync_db_for_vault_def act_os_def std_simps is_whitespace_def)
      (simp add: quiet_world_def quiet_env_def quiet_setup_def std_simps validate_vault_id_def res_guard_def is_ascii_alphanumeric_def ok_or_def
        act_bind_def act_os_def)
qed

definition quiet_ready :: "((path \<times> bytes) list, nat) run_world \<Rightarrow> bool" where
  "quiet_ready w \<longleftrightarrow> rn_fs w = [] \<and> db_wf (\<lambda>_. lit ''h'') (run_db w (lit ''v1'')) \<and> db_files (run_db w (lit ''v1'')) = [] \<and>
     rt_configured (si_status (rn_state w)) \<and> rt_enabled (si_status (rn_state w)) \<and>
     rt_vault_id (si_status (rn_state w)) = Some (lit ''v1'')"

lemma quiet_phase:
  assumes "quiet_ready w" "p \<noteq> Phase_Disabled"
  shows "\<exists>w'. enter_phase quiet_env p w = (Inr (), w') \<and> quiet_ready w'"
  using assms
  by (auto simp: quiet_ready_def enter_phase_def act_bind_def with_lock_def set_phase_def put_status_def emit_status_def Let_def run_db_def)

lemma quiet_pulls:
  assumes "quiet_ready w"
  shows "\<exists>w'. pull_phase quiet_env quiet_setup w = (Inr (), w') \<and> quiet_ready w'"
proof -
  have ok: "validate_pull_input (pull_input_of quiet_setup now) = Inr ()" for now
    by (simp add: validate_pull_input_def validate_required_def pull_input_of_def quiet_setup_def std_simps is_whitespace_def)
  have id: "pn_vault_id (pull_input_of quiet_setup now) = lit ''v1''" for now by (simp add: pull_input_of_def quiet_setup_def)
  obtain w1 where w1: "enter_phase quiet_env Phase_Applying w = (Inr (), w1)" "quiet_ready w1"
    using quiet_phase [OF assms, of Phase_Applying] by auto
  have "db_wf (\<lambda>_. lit ''h'') (upsert_vault db v) \<and> db_files (upsert_vault db v) = []"
    if "db_wf (\<lambda>_. lit ''h'') db" "db_files db = []" for db v
    using that db_step_wf [OF step_upsert_vault] by (auto simp: upsert_vault_def)
  then show ?thesis using w1(2)
    by (simp add: pull_phase_def act_bind_def w1(1) clock_now_def run_pull_def pull_remote_changes_def ok id ensure_pull_vault_record_run
        quiet_ready_def run_db_def enrolled_def)
qed

lemma quiet_pushes:
  assumes "quiet_ready w"
  shows "\<exists>w'. push_local quiet_env quiet_setup w = (Inr nothing_pushed, w') \<and> rn_state w' = rn_state w"
proof -
  have ok: "validate_push_input (push_input_of quiet_setup now) = Inr ()" for now
    by (simp add: validate_push_input_def validate_required_def push_input_of_def quiet_setup_def std_simps is_whitespace_def)
  have plan: "\<exists>p. plan_checkpoint (\<lambda>_. lit ''h'') (\<lambda>_. Inr []) [] default_planner_config = Inr p \<and> plan_is_empty p"
    by (simp add: plan_checkpoint_def assign_pack_entries_def build_plan_def validate_config_def
      compute_tree_id_def json_result_def default_planner_config_def DEFAULT_MAX_PACK_PLAINTEXT_BYTES_def plan_is_empty_def)
  let ?input = "push_input_of quiet_setup (int (rn_turns w))" and ?w = "push_world_of (lit ''v1'') w"
  let ?vault = "push_vault ?input quiet_head (sw_db ?w)"
  let ?p = "?w\<lparr>sw_db := upsert_vault (sw_db ?w) ?vault\<rparr>"
  have "apply_scan hash (sw_db ?p) [] now = Inr (sw_db ?p, \<lparr>sar_upserts = [], sar_deletions = []\<rparr>)" for hash now
    using assms by (simp add: apply_scan_def upsert_vault_def list_files_def quiet_ready_def push_world_of_def)
  moreover have "os_root flat_os (sw_fs ?p) (ph_vault_root ?input) = Inr (FsDir [] None)"
    using assms by (simp add: flat_os_def quiet_ready_def push_world_of_def List.map_filter_simps)
  ultimately have scan: "scan_for_push flat_os (re_push_env quiet_env) ?input ?p = (Inr ([], \<lparr>sar_upserts = [], sar_deletions = []\<rparr>), ?p)"
    unfolding scan_for_push_Inr by (auto simp: small_scan)
  have "\<exists>p. push_local_changes flat_os (re_push_env quiet_env) ?input ?w = (Inr nothing_pushed, p)"
    using plan by (auto simp: push_local_changes_def act_bind_def ok ensure_vault_record_run scan [simplified] act_transfer_def act_server_def
        Let_def ensure_local_head_can_push_def)
  then show ?thesis by (auto simp: push_local_def act_bind_def clock_now_def run_push_def push_world_of_def run_db_def quiet_setup_def)
qed

lemma list_conflicts_unrooted: "act_fold (list_conflict env v None) cs acc w = (Inr (acc @ cs), w)"
  by (induction cs arbitrary: acc) (simp_all add: list_conflict_def act_bind_def)

lemma quiet_finishes:
  assumes "rt_configured (si_status (rn_state w))" "rt_enabled (si_status (rn_state w))" "rt_vault_id (si_status (rn_state w)) = Some (lit ''v1'')"
  shows "\<exists>status w'. finish_run quiet_env w = (Inr status, w')"
proof -
  have "re_metadata quiet_env fs p \<noteq> Meta_Dir" for fs p by (simp add: quiet_env_def)
  then have root: "Option.bind m (\<lambda>root. if re_metadata quiet_env fs root = Meta_Dir then Some root else None) = None" for m fs
    by (cases m) simp_all
  have id: "validate_vault_id (lit ''v1'') = Inr ()" by (simp add: validate_vault_id_def res_guard_def std_simps is_ascii_alphanumeric_def)
  have "\<exists>cs w'. list_vault_conflicts quiet_env (si_status (rn_state w)) v = (Inr cs, w') \<and> rn_state w' = rn_state v" for v
    by (simp add: list_vault_conflicts_def assms(3) [simplified] id [simplified] act_bind_def act_run_db_def root list_conflicts_unrooted)
  from this [of "w\<lparr>rn_turns := Suc (rn_turns w)\<rparr>"] show ?thesis
    using assms by (auto simp: finish_run_def read_status_def act_bind_def with_lock_def complete_manual_sync_def
      enabled_before_run_def put_status_def Let_def)
qed

theorem sync_run_settles_witness:
  "\<exists>status w'. run_sync_once quiet_env quiet_world = (Inr status, w') \<and> rt_phase status = Phase_Idle \<and>
     (\<forall>r\<in>set (list_dirty_files (run_db w' (lit ''v1''))). sf_deleted r)"
proof -
  let ?w1 = "quiet_world\<lparr>rn_dbs := [lit ''v1'' \<mapsto> init_schema None], rn_turns := 1\<rparr>"
  have wf: "db_wf (\<lambda>_. lit ''h'') (init_schema None)" by (rule db_wf_init_schema) simp
  have ready: "quiet_ready ?w1"
    by (simp add: quiet_ready_def quiet_world_def run_db_def quiet_state_def configured_status_def quiet_config_def wf [simplified])
  obtain w2 where pull: "pull_phase quiet_env quiet_setup ?w1 = (Inr (), w2)" "quiet_ready w2" using quiet_pulls [OF ready] by blast
  obtain w3 where phase: "enter_phase quiet_env Phase_Planning w2 = (Inr (), w3)" "quiet_ready w3"
    using quiet_phase [OF pull(2), of Phase_Planning] by auto
  obtain w4 where push: "push_local quiet_env quiet_setup w3 = (Inr nothing_pushed, w4)" "rn_state w4 = rn_state w3"
    using quiet_pushes [OF phase(2)] by blast
  obtain status w' where fin: "finish_run quiet_env w4 = (Inr status, w')"
    using quiet_finishes [of w4] phase(2) push(2) by (auto simp: quiet_ready_def)
  have run: "run_sync_once quiet_env quiet_world = (Inr status, w')"
    by (simp add: run_sync_once_def act_bind_def quiet_prepares pull(1) [simplified] phase(1) push_and_finish_def push(1) fin)
  have "push_env_ok (re_push_env quiet_env)"
    using small_env_ok by (simp add: quiet_env_def push_env_ok_def)
  moreover have "rs_vault_id quiet_setup = lit ''v1''" by (simp add: quiet_setup_def)
  ultimately have "vault_ready quiet_env quiet_setup w2" using pull(2)
    by (auto simp: vault_ready_def Let_def quiet_ready_def lower_ok_ascii small_scan flat_os_def List.map_filter_simps)
  from sync_run_settles [OF quiet_prepares pull(1) phase(1) push(1) this run] run show ?thesis by (auto simp: quiet_setup_def)
qed

definition quiet_status :: sync_runtime_status where
  "quiet_status = configured_status quiet_config True None 123"

lemma quiet_config_stored: "config_from_status quiet_status = Inr (quiet_config\<lparr>cf_passphrase := None\<rparr>)"
  by (simp add: config_from_status_def quiet_status_def configured_status_def quiet_config_def example_config_def
      required_status_value_def std_simps is_whitespace_def)

lemma quiet_file:
  "config_file_from_runtime (quiet_config\<lparr>cf_passphrase := None\<rparr>) True 123 \<lparr>sf_last_synced_at_ms = None, sf_remote = None\<rparr> =
     Inr example_config_file"
proof -
  have "config_file_from_runtime (quiet_config\<lparr>cf_passphrase := None\<rparr>) = config_file_from_runtime example_config"
    unfolding passphrase_not_written
    by (intro ext) (simp add: config_file_from_runtime_def quiet_config_def example_config_def std_simps is_whitespace_def)
  then show ?thesis using example_config_file by (simp add: default_status_file_def)
qed

lemma quiet_persists:
  "\<exists>w'. persist_runtime_status quiet_env quiet_status quiet_world = (Inr (), w')"
proof -
  have s: "rt_configured quiet_status" "rt_enabled quiet_status" "rt_updated_at_ms quiet_status = 123" "rt_last_synced_at_ms quiet_status = None"
    by (simp_all add: quiet_status_def configured_status_def)
  have id: "validate_vault_id (cf_vault_id (quiet_config\<lparr>cf_passphrase := None\<rparr>)) = Inr ()"
    by (simp add: quiet_config_def validate_vault_id_def res_guard_def std_simps is_ascii_alphanumeric_def)
  have fs: "rn_fs quiet_world = []" by (simp add: quiet_world_def)
  have none: "cached_remote_status_for_config quiet_env [] root ws = Inr None" for root ws
    by (simp add: cached_remote_status_for_config_def read_sync_config_def read_sync_config_bytes_def flat_os_def Let_def)
  have written: "\<exists>fs'. write_sync_config_with_status example_config_env (lit ''/v'') (quiet_config\<lparr>cf_passphrase := None\<rparr>) True 123
      \<lparr>sf_last_synced_at_ms = None, sf_remote = None\<rparr> [] = (Inr example_config_file, fs')"
    unfolding write_sync_config_with_status_def quiet_file
    by (simp add: act_bind_def storage_call_def Let_def example_config_env_def flat_os_def json_result_def)
      (simp add: sync_config_path_def path_has_parent_def std_simps path_components_def path_join_def Let_def)
  have root: "cf_root_path (quiet_config\<lparr>cf_passphrase := None\<rparr>) = lit ''/v''" by (simp add: quiet_config_def example_config_def)
  show ?thesis
    unfolding persist_runtime_status_def quiet_config_stored
    using written by (auto simp: s act_bind_def open_sync_db_for_vault_def id [simplified] clock_now_def act_run_db_def fs none root [simplified] act_os_def)
qed

theorem restart_restores_settings_witness:
  "\<exists>w1 status' v'. persist_runtime_status quiet_env quiet_status quiet_world = (Inr (), w1) \<and>
     restore_vault_config_for_root quiet_env (lit ''/v'') w1 = (Inr status', v') \<and> rt_enabled status' \<and>
     rt_vault_id status' = Some (lit ''v1'')"
proof -
  obtain w1 where w1: "persist_runtime_status quiet_env quiet_status quiet_world = (Inr (), w1)" using quiet_persists by blast
  have s: "rt_configured quiet_status" "rt_root_path quiet_status = Some (lit ''/v'')" "str_trim (lit ''/v'') = lit ''/v''"
    "rt_enabled quiet_status" "map_option str_trim (rt_vault_id quiet_status) = Some (lit ''v1'')"
    by (simp_all add: quiet_status_def configured_status_def quiet_config_def example_config_def std_simps is_whitespace_def)
  have ok: "config_json_ok (re_config quiet_env)" "os_reads_back (re_os quiet_env)" "os_read_exists (re_os quiet_env)"
    using example_config_env_ok by simp_all
  from restart_restores_settings [OF ok s(1-3) w1 refl] w1 s(4,5) show ?thesis by metis
qed

lemma flat_os_removes: "os_removes flat_os"
  by (auto simp: os_removes_def flat_os_def map_of_filter_other split: if_splits)

lemma quiet_disconnects: "\<exists>status' w'. sync_disconnect_vault quiet_env quiet_world = (Inr status', w')"
proof -
  have s: "si_status (rn_state quiet_world) = quiet_status" "rt_configured quiet_status" "rn_fs quiet_world = []"
    "si_active_run_id (rn_state quiet_world) = None"
    "non_blank (rt_vault_id quiet_status) = Some (lit ''v1'')" "non_blank (rt_root_path quiet_status) = Some (lit ''/v'')"
    by (simp_all add: quiet_world_def quiet_state_def quiet_status_def configured_status_def quiet_config_def example_config_def
        non_blank_def std_simps is_whitespace_def)
  have id: "validate_vault_id (lit ''v1'') = Inr ()" by (simp add: validate_vault_id_def res_guard_def std_simps is_ascii_alphanumeric_def)
  have gone: "delete_sync_config example_config_env root [] = (Inr (), [])" for root
    by (simp add: delete_sync_config_def example_config_env_def flat_os_def Let_def)
  have secret: "cg_delete_secret example_config_env a = act_lift (Inr ())" for a by (simp add: example_config_env_def)
  show ?thesis
    by (simp add: sync_disconnect_vault_def read_status_def act_bind_def with_lock_def s(1-4) is_sync_running_def
        clear_current_workspace_binding_def s(5,6) [simplified] ok_or_def act_os_def forget_workspace_key_def forget_passphrase_def
        forget_device_signing_key_def secret gone open_sync_db_for_vault_def id [simplified] act_run_db_def reset_status_def
        put_status_def emit_status_def)
qed

theorem disconnect_forgets_vault_witness:
  "\<exists>status' w'. sync_disconnect_vault quiet_env quiet_world = (Inr status', w') \<and> \<not> rt_configured status' \<and>
     get_vault (run_db w' (lit ''v1'')) (lit ''v1'') = None \<and> read_sync_config example_config_env (rn_fs w') (lit ''/v'') = Inr None"
proof -
  obtain status' w' where run: "sync_disconnect_vault quiet_env quiet_world = (Inr status', w')" using quiet_disconnects by blast
  have s: "read_status quiet_env quiet_world = (Inr quiet_status, quiet_world\<lparr>rn_turns := 1\<rparr>)" "rt_configured quiet_status"
    "\<not> is_sync_running (others_turn quiet_env (quiet_world\<lparr>rn_turns := 1\<rparr>))"
    by (simp_all add: read_status_def with_lock_def quiet_world_def quiet_state_def quiet_status_def configured_status_def is_sync_running_def)
  have f: "non_blank (rt_vault_id quiet_status) = Some (lit ''v1'')" "non_blank (rt_root_path quiet_status) = Some (lit ''/v'')"
    by (simp_all add: quiet_status_def configured_status_def quiet_config_def example_config_def non_blank_def std_simps is_whitespace_def)
  have os: "os_removes (re_os quiet_env)" using flat_os_removes by simp
  from disconnect_forgets_vault [OF os s(1,2) run] run f show ?thesis unfolding if_not_P [OF s(3)] by auto
qed

definition quiet_conflict :: sync_conflict_record where
  "quiet_conflict = \<lparr>sx_conflict_id = lit ''x'', sx_path = lit ''a.md'', sx_conflict_path = lit ''b.md'',
     sx_base_commit_id = None, sx_local_commit_id = None, sx_remote_commit_id = None, sx_status = lit ''open'', sx_created_at_ms = 1\<rparr>"

definition conflict_db :: sync_db where
  "conflict_db = (init_schema None)\<lparr>db_conflicts := [quiet_conflict]\<rparr>"

lemma conflict_db_opens: "list_open_conflicts (init_schema (Some conflict_db)) = [quiet_conflict]"
  by (simp add: conflict_db_def init_schema_def create_schema_def persist_schema_version_def reset_schema_def Let_def metadata_value_def
      tbl_get_def tbl_upsert_def ensure_tree_entry_content_commit_id_column_def list_open_conflicts_def quiet_conflict_def)

theorem conflicts_listed_exactly_witness:
  "\<exists>w'. list_vault_conflicts quiet_env quiet_status (quiet_world\<lparr>rn_dbs := [lit ''v1'' \<mapsto> conflict_db]\<rparr>) =
      (Inr [quiet_conflict], w') \<and> list_open_conflicts (run_db w' (lit ''v1'')) = [quiet_conflict]"
proof -
  let ?w = "quiet_world\<lparr>rn_dbs := [lit ''v1'' \<mapsto> conflict_db]\<rparr>"
  have id: "rt_vault_id quiet_status = Some (lit ''v1'')" "validate_vault_id (lit ''v1'') = Inr ()"
    by (simp_all add: quiet_status_def configured_status_def quiet_config_def validate_vault_id_def res_guard_def std_simps is_ascii_alphanumeric_def)
  have "re_metadata quiet_env fs p \<noteq> Meta_Dir" for fs p by (simp add: quiet_env_def)
  then have root: "Option.bind m (\<lambda>root. if re_metadata quiet_env fs root = Meta_Dir then Some root else None) = None" for m fs
    by (cases m) simp_all
  have "\<exists>cs w'. list_vault_conflicts quiet_env quiet_status ?w = (Inr cs, w')"
    by (simp add: list_vault_conflicts_def id [simplified] act_bind_def act_run_db_def root list_conflicts_unrooted)
  then obtain cs w' where run: "list_vault_conflicts quiet_env quiet_status ?w = (Inr cs, w')" by blast
  have hyps: "re_home quiet_env" "rn_dbs ?w (lit ''v1'') = Some conflict_db" "unique_key sx_conflict_id (db_conflicts conflict_db)"
    by (simp_all add: conflict_db_def unique_key_def)
  have "re_metadata quiet_env fs p = Meta_Dir \<longleftrightarrow> False" for fs p by (simp add: quiet_env_def)
  with conflicts_listed_exactly [OF id(1) hyps run] run show ?thesis
    by (simp add: conflict_db_opens option.case_eq_if)
qed

end
