(* ===== verification/Index_Text.thy ===== *)
theory Index_Text
  imports Utf8
begin

text \<open>
  The crate \<open>kuku-indexer\<close>, less its markdown parser: \<open>chunk.rs\<close> (pieces of long blocks), \<open>normalize.rs\<close>, \<open>plan.rs\<close> (from
  a typed query to a query of the full text index) and \<open>snippet.rs\<close> (the excerpt that is shown for a match).

  The case and category tables of Unicode are the parameters \<open>lower\<close> and \<open>alnum\<close>. A slice whose start lies behind its
  end panics: such a function returns \<open>None\<close>.
\<close>

section \<open>Chunks\<close>

definition CHUNK_MAX_CHARS :: nat where
  "CHUNK_MAX_CHARS = 1000"

definition CHUNK_OVERLAP_CHARS :: nat where
  "CHUNK_OVERLAP_CHARS = 100"

definition TARGET_SPLIT_CHARS :: nat where
  "TARGET_SPLIT_CHARS = 850"

definition is_boundary :: "rchar \<Rightarrow> bool" where
  "is_boundary ch \<longleftrightarrow> ch \<in> {10, 46, 33, 63, 0x3002, 0xFF01, 0xFF1F}"

text \<open>\<open>for idx in (from..to).rev()\<close>: the last position in the range that follows a boundary.\<close>

definition last_boundary :: "rstr \<Rightarrow> nat \<Rightarrow> nat \<Rightarrow> nat option" where
  "last_boundary chars from to = find (\<lambda>idx. is_boundary (chars ! (idx - 1))) (rev [from..<to])"

definition chunk_end :: "rstr \<Rightarrow> nat \<Rightarrow> nat" where
  "chunk_end chars start =
     (let upper = min (start + CHUNK_MAX_CHARS) (length chars)
      in if upper < length chars
         then
           (let target = min (start + TARGET_SPLIT_CHARS) upper
            in case last_boundary chars target upper of
                 Some idx \<Rightarrow> idx
               | None \<Rightarrow>
                   (case last_boundary chars (min (start + (CHUNK_OVERLAP_CHARS + 1)) target) target of
                      Some idx \<Rightarrow> idx | None \<Rightarrow> upper))
         else upper)"

definition sub_chars :: "rstr \<Rightarrow> nat \<Rightarrow> nat \<Rightarrow> rstr" where
  "sub_chars chars start stop = take (stop - start) (drop start chars)"

definition next_start :: "nat \<Rightarrow> nat \<Rightarrow> nat" where
  "next_start start stop = (let next = stop - CHUNK_OVERLAP_CHARS in if next \<le> start then stop else next)"

definition push_part :: "rstr list \<Rightarrow> rstr \<Rightarrow> rstr list" where
  "push_part parts part = (let trimmed = str_trim part in if trimmed \<noteq> [] then parts @ [trimmed] else parts)"

lemmas chunk_consts = CHUNK_MAX_CHARS_def CHUNK_OVERLAP_CHARS_def TARGET_SPLIT_CHARS_def

lemma last_boundary_range: "last_boundary chars from to = Some idx \<Longrightarrow> from \<le> idx \<and> idx < to"
  by (auto simp: last_boundary_def dest!: find_SomeD)

lemma chunk_end_cases:
  assumes "start < length chars"
  shows "start < chunk_end chars start" and "chunk_end chars start \<le> length chars" and "chunk_end chars start \<le> start + CHUNK_MAX_CHARS"
    and "chunk_end chars start = length chars \<or> start + CHUNK_OVERLAP_CHARS < chunk_end chars start"
  using assms unfolding chunk_end_def chunk_consts
  by (auto simp: Let_def split: option.split dest!: last_boundary_range)

lemma next_start_progress: "start < stop \<Longrightarrow> start < next_start start stop \<and> next_start start stop \<le> stop \<and> stop \<le> next_start start stop + CHUNK_OVERLAP_CHARS"
  by (auto simp: next_start_def Let_def)

function chunk_loop :: "rstr \<Rightarrow> nat \<Rightarrow> rstr list \<Rightarrow> rstr list" where
  "chunk_loop chars start parts =
     (if start < length chars
      then
        (let stop = chunk_end chars start;
             parts' = push_part parts (sub_chars chars start stop)
         in if stop = length chars then parts' else chunk_loop chars (next_start start stop) parts')
      else parts)"
  by pat_completeness auto

termination
  by (relation "measure (\<lambda>(chars, start, _). length chars - start)")
     (use next_start_progress chunk_end_cases in \<open>auto simp: diff_less_mono2\<close>)

declare chunk_loop.simps [simp del]

definition split_chunk_text :: "rstr \<Rightarrow> rstr list" where
  "split_chunk_text input =
     (if length input \<le> CHUNK_MAX_CHARS then [str_trim input] else chunk_loop input 0 [])"

text \<open>The ranges a sequence of chunks takes from a text of \<open>n\<close> characters.\<close>

fun chunk_chain :: "nat \<Rightarrow> nat \<Rightarrow> (nat \<times> nat) list \<Rightarrow> bool" where
  "chunk_chain n start [] \<longleftrightarrow> False"
| "chunk_chain n start ((a, b) # rs) \<longleftrightarrow>
     a = start \<and> a < b \<and> b \<le> a + CHUNK_MAX_CHARS \<and>
     (if rs = [] then b = n
      else (let c = fst (hd rs) in b < n \<and> a < c \<and> c \<le> b \<and> b \<le> c + CHUNK_OVERLAP_CHARS \<and> b < snd (hd rs) \<and> chunk_chain n c rs))"

definition chunk_parts :: "rstr \<Rightarrow> (nat \<times> nat) list \<Rightarrow> rstr list" where
  "chunk_parts chars rs = filter (\<lambda>p. p \<noteq> []) (map (\<lambda>(a, b). str_trim (sub_chars chars a b)) rs)"

lemma chunk_loop_ranges:
  assumes "start < length chars"
  shows "\<exists>rs. chunk_chain (length chars) start rs \<and> snd (hd rs) = chunk_end chars start \<and> chunk_loop chars start parts = parts @ chunk_parts chars rs"
  using assms
proof (induction chars start parts rule: chunk_loop.induct)
  case (1 chars start parts)
  define stop where "stop = chunk_end chars start"
  define nxt where "nxt = next_start start stop"
  note ce = chunk_end_cases[OF 1(2), folded stop_def]
  have pp: "push_part parts (sub_chars chars start stop) = parts @ chunk_parts chars [(start, stop)]"
    by (simp add: push_part_def chunk_parts_def Let_def)
  show ?case
  proof (cases "stop = length chars")
    case True
    then have "chunk_loop chars start parts = parts @ chunk_parts chars [(start, stop)]"
      using 1(2) pp by (simp add: chunk_loop.simps[of chars start parts] stop_def Let_def)
    moreover have "chunk_chain (length chars) start [(start, stop)]" using ce True by simp
    ultimately show ?thesis unfolding stop_def[symmetric] by (metis list.sel(1) snd_conv)
  next
    case False
    note np = next_start_progress[OF ce(1), folded nxt_def]
    have lt: "nxt < length chars" using np ce(2) False by linarith
    obtain rs where rs: "chunk_chain (length chars) nxt rs" "snd (hd rs) = chunk_end chars nxt"
      "chunk_loop chars nxt (push_part parts (sub_chars chars start stop)) = push_part parts (sub_chars chars start stop) @ chunk_parts chars rs"
      using 1(1)[OF 1(2) refl refl] False lt unfolding stop_def nxt_def by blast
    have eq: "chunk_loop chars start parts = chunk_loop chars nxt (push_part parts (sub_chars chars start stop))"
      using False 1(2) by (simp add: chunk_loop.simps[of chars start parts] stop_def nxt_def Let_def)
    have adv: "stop < chunk_end chars nxt" using chunk_end_cases[OF lt] np False ce(2) by linarith
    have hd: "rs \<noteq> []" "fst (hd rs) = nxt" using rs(1) by (cases rs; auto)+
    have "chunk_chain (length chars) start ((start, stop) # rs)"
      using ce np False adv rs hd by (simp add: Let_def)
    moreover have "chunk_loop chars start parts = parts @ chunk_parts chars ((start, stop) # rs)"
      using eq rs(3) pp by (simp add: chunk_parts_def)
    ultimately show ?thesis unfolding stop_def[symmetric] by (metis list.sel(1) snd_conv)
  qed
qed

lemma chunk_chain_covers:
  "chunk_chain n start rs \<Longrightarrow> start \<le> i \<Longrightarrow> i < n \<Longrightarrow> \<exists>(a, b)\<in>set rs. a \<le> i \<and> i < b"
proof (induction n start rs rule: chunk_chain.induct)
  case (2 n start a b rs)
  show ?case
  proof (cases "i < b")
    case True
    then show ?thesis using 2 by auto
  next
    case False
    then have "rs \<noteq> []" "chunk_chain n (fst (hd rs)) rs" "fst (hd rs) \<le> i"
      using 2 by (auto simp: Let_def split: if_splits)
    then show ?thesis using 2 by (auto simp: Let_def)
  qed
qed simp

lemma chunk_chain_range:
  "chunk_chain n start rs \<Longrightarrow> (a, b) \<in> set rs \<Longrightarrow> a < b \<and> b \<le> n \<and> b \<le> a + CHUNK_MAX_CHARS"
  by (induction n start rs rule: chunk_chain.induct) (auto simp: Let_def split: if_splits)

lemma str_trim_keeps: "c \<in> set s \<Longrightarrow> \<not> is_whitespace c \<Longrightarrow> c \<in> set (str_trim s)"
proof -
  have dw: "c \<in> set xs \<Longrightarrow> \<not> is_whitespace c \<Longrightarrow> c \<in> set (dropWhile is_whitespace xs)" for xs
    by (induction xs) auto
  show "c \<in> set s \<Longrightarrow> \<not> is_whitespace c \<Longrightarrow> c \<in> set (str_trim s)"
    unfolding str_trim_def using dw by simp
qed

lemma sub_chars_nth_mem: "a \<le> i \<Longrightarrow> i < b \<Longrightarrow> b \<le> length s \<Longrightarrow> s ! i \<in> set (sub_chars s a b)"
proof -
  assume a: "a \<le> i" "i < b" "b \<le> length s"
  then have "sub_chars s a b ! (i - a) = s ! i" "i - a < length (sub_chars s a b)" by (auto simp: sub_chars_def)
  then show ?thesis by (metis nth_mem)
qed

lemma split_chunk_text_ranges:
  "CHUNK_MAX_CHARS < length input \<Longrightarrow> \<exists>rs. chunk_chain (length input) 0 rs \<and> split_chunk_text input = chunk_parts input rs"
  using chunk_loop_ranges[of 0 input "[]"] unfolding split_chunk_text_def by fastforce

lemma chunk_parts_bound:
  assumes "chunk_chain (length input) 0 rs" "part \<in> set (chunk_parts input rs)"
  shows "part \<noteq> [] \<and> length part \<le> CHUNK_MAX_CHARS"
proof -
  from assms(2) obtain a b where "(a, b) \<in> set rs" "part = str_trim (sub_chars input a b)" "part \<noteq> []"
    unfolding chunk_parts_def by auto
  moreover from this have "length (sub_chars input a b) \<le> CHUNK_MAX_CHARS"
    using chunk_chain_range[OF assms(1)] by (fastforce simp: sub_chars_def)
  ultimately show ?thesis using str_trim_length le_trans by blast
qed

lemma split_chunk_text_parts:
  "CHUNK_MAX_CHARS < length input \<Longrightarrow> part \<in> set (split_chunk_text input) \<Longrightarrow> part \<noteq> [] \<and> length part \<le> CHUNK_MAX_CHARS"
  using split_chunk_text_ranges chunk_parts_bound by metis

text \<open>
  C29. A long block is cut into chunks of at most \<open>CHUNK_MAX_CHARS\<close> characters whose ranges start at the first character, end at the
  last one, overlap by at most \<open>CHUNK_OVERLAP_CHARS\<close> and each reach further than the one before; every character that is not
  white space is in a chunk that is indexed. The loop ends for every input (\<open>chunk_loop\<close> is total).
\<close>

theorem split_chunk_text_covers:
  "CHUNK_MAX_CHARS < length input \<Longrightarrow>
   \<exists>rs. chunk_chain (length input) 0 rs \<and> split_chunk_text input = chunk_parts input rs \<and>
     (\<forall>part\<in>set (split_chunk_text input). part \<noteq> [] \<and> length part \<le> CHUNK_MAX_CHARS) \<and>
     (\<forall>i<length input. \<not> is_whitespace (input ! i) \<longrightarrow>
        (\<exists>(a, b)\<in>set rs. a \<le> i \<and> i < b \<and> input ! i \<in> set (str_trim (sub_chars input a b)) \<and>
           str_trim (sub_chars input a b) \<in> set (split_chunk_text input)))"
proof -
  assume long: "CHUNK_MAX_CHARS < length input"
  obtain rs where rs: "chunk_chain (length input) 0 rs" and sp: "split_chunk_text input = chunk_parts input rs"
    using split_chunk_text_ranges[OF long] by blast
  have "part \<noteq> [] \<and> length part \<le> CHUNK_MAX_CHARS" if "part \<in> set (split_chunk_text input)" for part
    using split_chunk_text_parts[OF long that] .
  moreover have "\<exists>(a, b)\<in>set rs. a \<le> i \<and> i < b \<and> input ! i \<in> set (str_trim (sub_chars input a b)) \<and>
      str_trim (sub_chars input a b) \<in> set (split_chunk_text input)" if i: "i < length input" "\<not> is_whitespace (input ! i)" for i
  proof -
    obtain a b where ab: "(a, b) \<in> set rs" "a \<le> i" "i < b" using chunk_chain_covers[OF rs] i by blast
    then have "input ! i \<in> set (str_trim (sub_chars input a b))"
      using chunk_chain_range[OF rs] sub_chars_nth_mem str_trim_keeps i by blast
    moreover from this have "str_trim (sub_chars input a b) \<in> set (split_chunk_text input)"
      using ab unfolding sp chunk_parts_def by force
    ultimately show ?thesis using ab by blast
  qed
  ultimately show ?thesis using rs sp by blast
qed

theorem split_chunk_text_covers_witness:
  "CHUNK_MAX_CHARS < length (replicate 1001 (97::nat)) \<and>
   (\<exists>rs. chunk_chain 1001 0 rs \<and> split_chunk_text (replicate 1001 97) = chunk_parts (replicate 1001 97) rs)"
  using split_chunk_text_covers[of "replicate 1001 97"] by (auto simp: CHUNK_MAX_CHARS_def)

section \<open>Normal form of texts\<close>

function collapse_whitespace :: "rstr \<Rightarrow> rstr" where
  "collapse_whitespace [] = []"
| "collapse_whitespace (c # s) =
     (if is_whitespace c then 32 # collapse_whitespace (dropWhile is_whitespace s) else c # collapse_whitespace s)"
  by pat_completeness auto

termination
  by (relation "measure length") (auto simp: le_imp_less_Suc length_dropWhile_le)

definition normalize_text :: "(rstr \<Rightarrow> rstr) \<Rightarrow> rstr \<Rightarrow> rstr" where
  "normalize_text lower input = lower (collapse_whitespace (str_trim input))"

definition is_cjk_char :: "rchar \<Rightarrow> bool" where
  "is_cjk_char ch \<longleftrightarrow> (0x2E80 \<le> ch \<and> ch \<le> 0x9FFF) \<or> (0xAC00 \<le> ch \<and> ch \<le> 0xD7AF) \<or>
     (0xF900 \<le> ch \<and> ch \<le> 0xFAFF) \<or> (0x20000 \<le> ch \<and> ch \<le> 0x2FA1F)"

definition contains_cjk :: "rstr \<Rightarrow> bool" where
  "contains_cjk input = list_ex is_cjk_char input"

section \<open>Queries\<close>

datatype query_route = RouteNone | MetadataOnly | MetadataAndBody

record simple_query_plan =
  original_query :: rstr
  normalized_query :: rstr
  route :: query_route

definition is_query_token_char :: "(rchar \<Rightarrow> bool) \<Rightarrow> rchar \<Rightarrow> bool" where
  "is_query_token_char alnum ch \<longleftrightarrow> alnum ch \<or> is_cjk_char ch"

fun token_loop :: "(rchar \<Rightarrow> bool) \<Rightarrow> rstr list \<Rightarrow> rstr \<Rightarrow> rstr \<Rightarrow> rstr list" where
  "token_loop alnum tokens current [] = (if current \<noteq> [] then tokens @ [current] else tokens)"
| "token_loop alnum tokens current (ch # input) =
     (if is_query_token_char alnum ch then token_loop alnum tokens (current @ [ch]) input
      else if current \<noteq> [] then token_loop alnum (tokens @ [current]) [] input
      else token_loop alnum tokens current input)"

definition tokenize_query_terms :: "(rchar \<Rightarrow> bool) \<Rightarrow> rstr \<Rightarrow> rstr list" where
  "tokenize_query_terms alnum input = token_loop alnum [] [] input"

definition plan_simple_query :: "(rstr \<Rightarrow> rstr) \<Rightarrow> rstr \<Rightarrow> simple_query_plan" where
  "plan_simple_query lower query =
     (let trimmed = str_trim query
      in if trimmed = [] then \<lparr>original_query = [], normalized_query = [], route = RouteNone\<rparr>
         else
           (let normalized = normalize_text lower trimmed;
                char_count = length trimmed
            in \<lparr>original_query = trimmed, normalized_query = normalized,
                route =
                  (if char_count = 1 then MetadataOnly
                   else if contains_cjk trimmed then (if 2 \<le> char_count then MetadataAndBody else MetadataOnly)
                   else if 4 \<le> length (filter (\<lambda>c. c \<noteq> 32) normalized) then MetadataAndBody
                   else MetadataOnly)\<rparr>))"

definition build_fts_query :: "(rchar \<Rightarrow> bool) \<Rightarrow> simple_query_plan \<Rightarrow> rstr option" where
  "build_fts_query alnum plan =
     (if route plan \<noteq> MetadataAndBody then None
      else
        (let tokens = tokenize_query_terms alnum (normalized_query plan)
         in if tokens = [] then None
            else Some (str_join (lit '' '') (map (\<lambda>token. token @ lit ''*'') tokens))))"

lemma token_loop_split:
  assumes "\<forall>c\<in>set current. is_query_token_char alnum c"
  shows "token_loop alnum tokens current input =
    tokens @ filter (\<lambda>w. w \<noteq> []) (str_split (\<lambda>c. \<not> is_query_token_char alnum c) (current @ input))"
  using assms
proof (induction input arbitrary: tokens current)
  case Nil
  then have "str_split (\<lambda>c. \<not> is_query_token_char alnum c) current = [current]"
    by (intro str_split_single) auto
  then show ?case by simp
next
  case (Cons ch input)
  show ?case
  proof (cases "is_query_token_char alnum ch")
    case True
    then show ?thesis using Cons.IH[of "current @ [ch]"] Cons.prems by auto
  next
    case False
    have "str_split (\<lambda>c. \<not> is_query_token_char alnum c) (current @ ch # input)
        = current # str_split (\<lambda>c. \<not> is_query_token_char alnum c) input"
      using Cons.prems False by (intro str_split_append_sep) auto
    then show ?thesis using False Cons.IH[of "[]"] by simp
  qed
qed

lemma tokenize_query_terms_eq:
  "tokenize_query_terms alnum input = filter (\<lambda>w. w \<noteq> []) (str_split (\<lambda>c. \<not> is_query_token_char alnum c) input)"
  using token_loop_split[of "[]"] by (simp add: tokenize_query_terms_def)

lemma concat_filter_split: "concat (filter (\<lambda>w. w \<noteq> []) (str_split p s)) = filter (\<lambda>c. \<not> p c) s"
proof (induction s)
  case (Cons c s)
  then show ?case by (cases "str_split p s") (auto split: if_splits)
qed simp

lemma token_chars:
  assumes "t \<in> set (tokenize_query_terms alnum input)"
  shows "t \<noteq> [] \<and> (\<forall>c\<in>set t. c \<in> set input \<and> is_query_token_char alnum c)"
  using assms str_split_no_sep str_split_chars unfolding tokenize_query_terms_eq by fastforce

text \<open>
  \<open>bareword\<close>: the characters of a term that the query language of FTS5 takes literally: letters and digits that cannot
  spell an operator (\<open>AND\<close>, \<open>OR\<close>, \<open>NOT\<close>, \<open>NEAR\<close> are in capitals) and everything outside of ASCII.
\<close>

definition bareword_char :: "rchar \<Rightarrow> bool" where
  "bareword_char c \<longleftrightarrow> (97 \<le> c \<and> c \<le> 122) \<or> (48 \<le> c \<and> c \<le> 57) \<or> 128 \<le> c"

text \<open>
  The query that is sent to the full text index is a sequence of prefix terms: together they hold exactly the letters and digits
  of the normalized query, in order, and no term can be read as an operator, a quote or a column filter of the query language.
  \<open>alnum\<close> and \<open>lower\<close> behave on ASCII as documented.
\<close>

theorem fts_query_terms:
  assumes query: "build_fts_query alnum (plan_simple_query lower query) = Some q"
    and alnum: "\<forall>c<128. alnum c \<longrightarrow> is_ascii_alphanumeric c"
    and lower: "\<forall>s. \<forall>c\<in>set (lower s). \<not> (65 \<le> c \<and> c \<le> 90)"
  shows "\<exists>ts. ts \<noteq> [] \<and> q = str_join [32] (map (\<lambda>t. t @ [42]) ts) \<and>
    concat ts = filter (is_query_token_char alnum) (normalize_text lower (str_trim query)) \<and>
    (\<forall>t\<in>set ts. t \<noteq> [] \<and> (\<forall>c\<in>set t. bareword_char c))"
proof -
  define norm where "norm = normalize_text lower (str_trim query)"
  define ts where "ts = tokenize_query_terms alnum norm"
  have plan: "route (plan_simple_query lower query) = MetadataAndBody" "normalized_query (plan_simple_query lower query) = norm"
    using query by (auto simp: build_fts_query_def plan_simple_query_def Let_def norm_def split: if_splits)
  have q: "ts \<noteq> []" "q = str_join [32] (map (\<lambda>t. t @ [42]) ts)"
    using query plan by (auto simp: build_fts_query_def ts_def Let_def split: if_splits)
  have low: "\<not> (65 \<le> c \<and> c \<le> 90)" if "c \<in> set norm" for c
    using that lower by (auto simp: norm_def normalize_text_def)
  have "bareword_char c" if "t \<in> set ts" "c \<in> set t" for t c
  proof -
    have c: "c \<in> set norm" "alnum c \<or> is_cjk_char c"
      using token_chars that unfolding ts_def is_query_token_char_def by blast+
    from c(2) show ?thesis
    proof
      assume "alnum c"
      then show ?thesis using alnum low[OF c(1)]
        by (cases "c < 128") (auto simp: bareword_char_def is_ascii_alphanumeric_def is_ascii_alphabetic_def)
    qed (auto simp: is_cjk_char_def bareword_char_def)
  qed
  moreover have "concat ts = filter (is_query_token_char alnum) norm"
    by (simp add: ts_def tokenize_query_terms_eq concat_filter_split)
  moreover have "\<forall>t\<in>set ts. t \<noteq> []" using token_chars unfolding ts_def by blast
  ultimately show ?thesis using q unfolding norm_def by blast
qed

theorem fts_query_terms_witness:
  "build_fts_query is_ascii_alphanumeric (plan_simple_query to_ascii_lowercase (lit '' Rust-AND '')) = Some (lit ''rust* and*'') \<and>
   (\<exists>ts. ts \<noteq> [] \<and> lit ''rust* and*'' = str_join [32] (map (\<lambda>t. t @ [42]) ts) \<and> (\<forall>t\<in>set ts. \<forall>c\<in>set t. bareword_char c))"
proof -
  have q: "build_fts_query is_ascii_alphanumeric (plan_simple_query to_ascii_lowercase (lit '' Rust-AND '')) = Some (lit ''rust* and*'')"
    by (simp add: build_fts_query_def plan_simple_query_def normalize_text_def contains_cjk_def is_cjk_char_def tokenize_query_terms_def
        is_query_token_char_def std_simps)
  have l: "\<forall>s. \<forall>c\<in>set (to_ascii_lowercase s). \<not> (65 \<le> c \<and> c \<le> 90)"
    by (auto simp: to_ascii_lowercase_def ascii_lower_def)
  from fts_query_terms[OF q _ l] q show ?thesis by blast
qed

section \<open>Snippets\<close>

definition SNIPPET_RADIUS :: nat where
  "SNIPPET_RADIUS = 80"

text \<open>\<open>str::find\<close>, as the number of characters before the first match (UTF-8 matches only at character boundaries).\<close>

fun str_find :: "rstr \<Rightarrow> rstr \<Rightarrow> nat option" where
  "str_find [] p = (if p = [] then Some 0 else None)"
| "str_find (c # s) p = (if str_starts_with (c # s) p then Some 0 else map_option Suc (str_find s p))"

definition chars_slice :: "rstr \<Rightarrow> nat \<Rightarrow> nat \<Rightarrow> rstr option" where
  "chars_slice chars start stop = (if start \<le> stop \<and> stop \<le> length chars then Some (sub_chars chars start stop) else None)"

text \<open>The window with the ellipses (\<open>U+2026\<close>) of the sides that were cut.\<close>

definition with_ellipses :: "rstr \<Rightarrow> nat \<Rightarrow> nat \<Rightarrow> rstr \<Rightarrow> rstr" where
  "with_ellipses raw_chars start stop snippet =
     (if 0 < start then [0x2026] else []) @ snippet @ (if stop < length raw_chars then [0x2026] else [])"

definition build_snippet :: "(rstr \<Rightarrow> rstr) \<Rightarrow> rstr \<Rightarrow> rstr \<Rightarrow> rstr option" where
  "build_snippet lower raw_text query =
     (let raw_chars = str_trim raw_text;
          normalized_query = normalize_text lower query
      in if raw_chars = [] then Some []
         else if normalized_query = [] then Some (take (SNIPPET_RADIUS * 2) raw_chars)
         else
           (case str_find (lower raw_chars) normalized_query of
              Some prefix_chars \<Rightarrow>
                (let start = prefix_chars - SNIPPET_RADIUS;
                     stop = min (prefix_chars + length normalized_query + SNIPPET_RADIUS) (length raw_chars)
                 in map_option (with_ellipses raw_chars start stop) (chars_slice raw_chars start stop))
            | None \<Rightarrow>
                Some (take (SNIPPET_RADIUS * 2) raw_chars @
                  (if SNIPPET_RADIUS * 2 < length raw_chars then [0x2026] else []))))"

text \<open>
  Byte positions: \<open>char_index s b\<close> is the number of characters in front of byte \<open>b\<close>, \<open>None\<close> when \<open>b\<close> is not a character
  boundary (where \<open>is_char_boundary\<close> is false and \<open>&text[..b]\<close> panics).
\<close>

fun char_index :: "rstr \<Rightarrow> nat \<Rightarrow> nat option" where
  "char_index [] b = (if b = 0 then Some 0 else None)"
| "char_index (c # s) b =
     (if b = 0 then Some 0 else if b < length (utf8_char c) then None
      else map_option Suc (char_index s (b - length (utf8_char c))))"

definition is_char_boundary :: "rstr \<Rightarrow> nat \<Rightarrow> bool" where
  "is_char_boundary s b \<longleftrightarrow> char_index s b \<noteq> None"

fun snap_to_char_boundary :: "rstr \<Rightarrow> nat \<Rightarrow> nat" where
  "snap_to_char_boundary s 0 = 0"
| "snap_to_char_boundary s (Suc b) = (if is_char_boundary s (Suc b) then Suc b else snap_to_char_boundary s b)"

definition build_snippet_for_range :: "rstr \<Rightarrow> nat \<Rightarrow> nat \<Rightarrow> rstr option" where
  "build_snippet_for_range raw_text start_byte end_byte =
     (let trimmed = str_trim raw_text
      in if trimmed = [] then Some []
         else
           (let clamped_start = snap_to_char_boundary trimmed (min start_byte (byte_len trimmed));
                clamped_end = snap_to_char_boundary trimmed (min (max end_byte clamped_start) (byte_len trimmed))
            in case (char_index trimmed clamped_start, char_index trimmed clamped_end) of
                 (Some start, Some stop) \<Rightarrow>
                   (let snippet_start = start - SNIPPET_RADIUS;
                        snippet_end = min (stop + SNIPPET_RADIUS) (length trimmed)
                    in map_option (with_ellipses trimmed snippet_start snippet_end)
                         (chars_slice trimmed snippet_start snippet_end))
               | _ \<Rightarrow> None))"

lemma char_index_Some: "char_index s b = Some n \<longleftrightarrow> n \<le> length s \<and> b = byte_len (take n s)"
proof (induction s b arbitrary: n rule: char_index.induct)
  case (2 c s b)
  have pos: "0 < length (utf8_char c)" by simp
  show ?case
  proof (cases n)
    case 0
    then show ?thesis using pos by auto
  next
    case (Suc m)
    show ?thesis
    proof (cases "b < length (utf8_char c)")
      case False
      then have "b \<noteq> 0" using pos by linarith
      then show ?thesis using False Suc 2[OF _ False, of m] by auto
    qed (use Suc pos in auto)
  qed
qed auto

lemma char_index_take: "n \<le> length s \<Longrightarrow> char_index s (byte_len (take n s)) = Some n"
  by (simp add: char_index_Some)

lemma char_index_mono: "char_index s a = Some m \<Longrightarrow> char_index s b = Some n \<Longrightarrow> a \<le> b \<Longrightarrow> m \<le> n"
proof (rule ccontr)
  assume a: "char_index s a = Some m" "char_index s b = Some n" "a \<le> b" "\<not> m \<le> n"
  then have "take m s = take n s @ sub_chars s n m" "sub_chars s n m \<noteq> []"
    by (auto simp: char_index_Some sub_chars_def take_add[symmetric])
  then have "byte_len (take n s) < byte_len (take m s)"
    by (cases "sub_chars s n m") auto
  then show False using a by (auto simp: char_index_Some)
qed

lemma is_char_boundary_0 [simp]: "is_char_boundary s 0"
  by (cases s) (auto simp: is_char_boundary_def)

lemma snap_boundary: "is_char_boundary s (snap_to_char_boundary s b) \<and> snap_to_char_boundary s b \<le> b"
  by (induction b) auto

lemma snap_greatest: "is_char_boundary s a \<Longrightarrow> a \<le> b \<Longrightarrow> a \<le> snap_to_char_boundary s b"
  by (induction b) (auto simp: le_Suc_eq)

lemma snap_id: "is_char_boundary s a \<Longrightarrow> snap_to_char_boundary s a = a"
  by (cases a) auto

lemma sub_chars_append: "a \<le> b \<Longrightarrow> b \<le> c \<Longrightarrow> sub_chars s a b @ sub_chars s b c = sub_chars s a c"
  using take_add[of "b - a" "c - b" "drop a s"] by (simp add: sub_chars_def)

lemma chars_slice_window:
  assumes "start \<le> a" "a \<le> b" "b \<le> stop" "stop \<le> length s"
  shows "\<exists>w. chars_slice s start stop = Some w \<and> str_contains w (sub_chars s a b)"
proof -
  have "sub_chars s start stop = sub_chars s start a @ sub_chars s a b @ sub_chars s b stop"
    using assms by (simp add: sub_chars_append)
  then show ?thesis using assms unfolding chars_slice_def str_contains_iff by auto
qed

lemma str_contains_with_ellipses: "str_contains w x \<Longrightarrow> str_contains (with_ellipses s a b w) x"
  unfolding with_ellipses_def str_contains_iff by (metis append_assoc)

lemma snippet_window:
  assumes "start - SNIPPET_RADIUS \<le> a" "a \<le> b" "b \<le> stop" "stop \<le> length s"
  shows "\<exists>w. map_option (with_ellipses s (start - SNIPPET_RADIUS) stop) (chars_slice s (start - SNIPPET_RADIUS) stop) = Some w \<and>
    str_contains w (sub_chars s a b)"
  using chars_slice_window[OF assms] str_contains_with_ellipses by fastforce

lemma str_find_Some: "str_find s p = Some n \<Longrightarrow> sub_chars s n (n + length p) = p \<and> n + length p \<le> length s"
proof (induction s arbitrary: n)
  case (Cons c s)
  show ?case
  proof (cases "str_starts_with (c # s) p")
    case True
    then obtain t where "c # s = p @ t" "n = 0" using Cons.prems by (auto simp: str_starts_with_iff)
    then show ?thesis using arg_cong[of "c # s" "p @ t" length] by (simp add: sub_chars_def)
  next
    case False
    then obtain m where "str_find s p = Some m" "n = Suc m" using Cons.prems by auto
    then show ?thesis using Cons.IH[of m] by (auto simp: sub_chars_def)
  qed
qed (auto simp: sub_chars_def split: if_splits)

theorem snippet_shows_match:
  "length (lower (str_trim raw_text)) = length (str_trim raw_text) \<Longrightarrow>
   \<exists>w. build_snippet lower raw_text query = Some w \<and>
     (\<forall>n. normalize_text lower query \<noteq> [] \<longrightarrow> str_find (lower (str_trim raw_text)) (normalize_text lower query) = Some n \<longrightarrow>
        str_contains w (sub_chars (str_trim raw_text) n (n + length (normalize_text lower query))))"
proof -
  assume len: "length (lower (str_trim raw_text)) = length (str_trim raw_text)"
  define s q where "s = str_trim raw_text" and "q = normalize_text lower query"
  consider "s = []" | "s \<noteq> []" "q = []" | "s \<noteq> []" "q \<noteq> []" "str_find (lower s) q = None"
    | n where "s \<noteq> []" "q \<noteq> []" "str_find (lower s) q = Some n" by fastforce
  then show ?thesis
  proof cases
    case 1
    then have "str_find (lower s) q = None" if "q \<noteq> []" using len that by (auto simp: s_def)
    with 1 show ?thesis by (auto simp: build_snippet_def s_def[symmetric] q_def[symmetric])
  next
    case (4 n)
    have "n + length q \<le> length s" using str_find_Some[OF 4(3)] len by (simp add: s_def)
    then have "\<exists>w. map_option (with_ellipses s (n - SNIPPET_RADIUS) (min (n + length q + SNIPPET_RADIUS) (length s)))
        (chars_slice s (n - SNIPPET_RADIUS) (min (n + length q + SNIPPET_RADIUS) (length s))) = Some w \<and>
        str_contains w (sub_chars s n (n + length q))"
      by (intro snippet_window) auto
    then show ?thesis using 4 by (auto simp: build_snippet_def s_def[symmetric] q_def[symmetric] Let_def)
  qed (auto simp: build_snippet_def Let_def s_def[symmetric] q_def[symmetric])
qed

text \<open>
  The excerpt around a match of a regular expression never panics, whatever byte positions are given, and when the positions are
  character boundaries it shows the whole match.
\<close>

theorem range_snippet_shows_range:
  "\<exists>w. build_snippet_for_range raw_text start_byte end_byte = Some w \<and>
     (\<forall>m n. char_index (str_trim raw_text) start_byte = Some m \<longrightarrow> char_index (str_trim raw_text) end_byte = Some n \<longrightarrow>
        m \<le> n \<longrightarrow> str_contains w (sub_chars (str_trim raw_text) m n))"
proof (cases "str_trim raw_text = []")
  case True
  then show ?thesis by (auto simp: build_snippet_for_range_def sub_chars_def)
next
  case False
  define s where "s = str_trim raw_text"
  define cs where "cs = snap_to_char_boundary s (min start_byte (byte_len s))"
  define ce where "ce = snap_to_char_boundary s (min (max end_byte cs) (byte_len s))"
  obtain start stop where idx: "char_index s cs = Some start" "char_index s ce = Some stop"
    using snap_boundary[of s] unfolding cs_def ce_def is_char_boundary_def by blast
  have "cs \<le> ce"
    using snap_boundary[of s "min start_byte (byte_len s)"] unfolding ce_def by (intro snap_greatest) (auto simp: cs_def)
  then have le: "start \<le> stop" "stop \<le> length s" using char_index_mono[OF idx] idx by (auto simp: char_index_Some)
  have bl: "b \<le> byte_len s" if "char_index s b = Some k" for b k
    using that byte_len_simps(3)[of "take k s" "drop k s"] by (simp add: char_index_Some)
  have exact: "start = m \<and> stop = n" if b: "char_index s start_byte = Some m" "char_index s end_byte = Some n" "m \<le> n" for m n
  proof -
    have "cs = start_byte" using b bl by (simp add: cs_def snap_id is_char_boundary_def min_absorb1)
    moreover have "start_byte \<le> end_byte" using char_index_mono[OF b(2) b(1)] b by (metis char_index_Some le_antisym nat_le_linear)
    ultimately have "ce = end_byte" using b bl by (simp add: ce_def snap_id is_char_boundary_def min_absorb1 max_absorb1)
    then show ?thesis using idx b \<open>cs = start_byte\<close> by simp
  qed
  have "\<exists>w. map_option (with_ellipses s (start - SNIPPET_RADIUS) (min (stop + SNIPPET_RADIUS) (length s)))
      (chars_slice s (start - SNIPPET_RADIUS) (min (stop + SNIPPET_RADIUS) (length s))) = Some w \<and>
      str_contains w (sub_chars s start stop)"
    using le by (intro snippet_window) auto
  then show ?thesis using False idx exact
    by (fastforce simp: build_snippet_for_range_def s_def[symmetric] Let_def cs_def[symmetric] ce_def[symmetric])
qed

theorem range_snippet_shows_range_witness:
  "\<exists>w. build_snippet_for_range [0xD55C, 97, 98] 3 5 = Some w \<and> str_contains w [97, 98]"
proof -
  have t: "str_trim [0xD55C, 97, 98] = [0xD55C, 97, 98]" by (simp add: std_simps)
  have "char_index [0xD55C, 97, 98] 3 = Some 1" "char_index [0xD55C, 97, 98] 5 = Some 3"
    by (simp_all add: utf8_char_def)
  then show ?thesis using range_snippet_shows_range[of "[0xD55C, 97, 98]" 3 5] by (fastforce simp: t sub_chars_def)
qed

text \<open>A lower-casing with the special case of the Unicode table that matters here: \<open>U+0130\<close> becomes two characters.\<close>

definition sample_lower :: "rstr \<Rightarrow> rstr" where
  "sample_lower s = concat (map (\<lambda>c. if c = 0x130 then [0x69, 0x307] else [ascii_lower c]) s)"

lemma str_find_behind: "str_find (concat (replicate n [105, 775]) @ [120]) [120] = Some (2 * n)"
  by (induction n) auto

lemma snippet_panics: "build_snippet sample_lower (replicate 100 0x130 @ [120]) [120] = None"
proof -
  have t: "str_trim (replicate 100 0x130 @ [120]) = replicate 100 0x130 @ [120]"
    by (intro str_trim_id) (simp_all add: is_whitespace_def hd_append)
  have q: "normalize_text sample_lower [120] = [120]"
    by (simp add: normalize_text_def sample_lower_def str_trim_def is_whitespace_def ascii_lower_def)
  have l: "sample_lower (replicate 100 0x130 @ [120]) = concat (replicate 100 [105, 775]) @ [120]"
    by (simp add: sample_lower_def ascii_lower_def map_replicate_const)
  show ?thesis unfolding build_snippet_def Let_def t q l str_find_behind by (simp add: SNIPPET_RADIUS_def chars_slice_def)
qed

end
