(* ===== verification/Index_Links.thy ===== *)
theory Index_Links
  imports Rust_Path
begin

text \<open>
  \<open>wikilink.rs\<close> of the crate \<open>kuku-indexer\<close>: the links \<open>[[target]]\<close> and \<open>[[target|alias]]\<close> of a note, outside its
  code. The loops over an index into \<open>chars\<close> are recursions over the rest of the list from that index; the test of the
  character in front of the index (\<open>line_start\<close>) is the flag \<open>bol\<close>.
\<close>

section \<open>Code is masked\<close>

record extracted_wikilink =
  ew_target :: rstr
  ew_alias :: "rstr option"
  ew_ordinal :: nat

definition mask_char :: "rchar \<Rightarrow> rchar" where
  "mask_char ch = (if ch = 10 \<or> ch = 13 then ch else 32)"

fun count_run :: "rstr \<Rightarrow> rchar \<Rightarrow> nat" where
  "count_run [] needle = 0"
| "count_run (ch # chars) needle = (if ch = needle then Suc (count_run chars needle) else 0)"

fun find_backtick_run :: "rstr \<Rightarrow> nat \<Rightarrow> nat option" where
  "find_backtick_run [] run_len = None"
| "find_backtick_run (ch # chars) run_len =
     (if ch = 96 \<and> run_len \<le> count_run (ch # chars) 96 then Some 0
      else map_option Suc (find_backtick_run chars run_len))"

definition detect_fence_start :: "bool \<Rightarrow> rstr \<Rightarrow> (rchar \<times> nat) option" where
  "detect_fence_start bol chars =
     (case chars of
        [] \<Rightarrow> None
      | ch # _ \<Rightarrow>
          if ch \<noteq> 96 \<and> ch \<noteq> 126 then None
          else if \<not> bol then None
          else (let run_len = count_run chars ch in if run_len < 3 then None else Some (ch, run_len)))"

text \<open>The line with the closing fence, up to and with its line break.\<close>

fun mask_line :: "rstr \<Rightarrow> rstr \<times> rstr" where
  "mask_line [] = ([], [])"
| "mask_line (ch # chars) =
     (if ch = 10 then ([mask_char ch], chars)
      else (let (out, rest) = mask_line chars in (mask_char ch # out, rest)))"

fun mask_fence_body :: "rchar \<Rightarrow> nat \<Rightarrow> bool \<Rightarrow> rstr \<Rightarrow> rstr \<times> rstr" where
  "mask_fence_body fence_char fence_len bol [] = ([], [])"
| "mask_fence_body fence_char fence_len bol (ch # chars) =
     (if bol \<and> fence_len \<le> count_run (ch # chars) fence_char then mask_line (ch # chars)
      else (let (out, rest) = mask_fence_body fence_char fence_len (ch = 10) chars in (mask_char ch # out, rest)))"

text \<open>At the opening fence itself (\<open>idx = start\<close>) no closing fence is looked for.\<close>

definition mask_fenced_block :: "rchar \<Rightarrow> nat \<Rightarrow> rstr \<Rightarrow> rstr \<times> rstr" where
  "mask_fenced_block fence_char fence_len chars =
     (case chars of
        [] \<Rightarrow> ([], [])
      | ch # chars' \<Rightarrow>
          (let (out, rest) = mask_fence_body fence_char fence_len (ch = 10) chars' in (mask_char ch # out, rest)))"

lemma mask_line_split: "mask_line s = (out, rest) \<Longrightarrow> \<exists>pre. s = pre @ rest \<and> out = map mask_char pre \<and> (rest = [] \<or> last pre = 10 \<and> pre \<noteq> [])"
proof (induction s arbitrary: out)
  case (Cons ch s)
  show ?case
  proof (cases "ch = 10")
    case True
    then show ?thesis using Cons.prems by (intro exI[of _ "[ch]"]) auto
  next
    case False
    then obtain out' where o: "mask_line s = (out', rest)" "out = mask_char ch # out'"
      using Cons.prems by (auto simp: Let_def split: prod.splits)
    then obtain pre where "s = pre @ rest" "out' = map mask_char pre" "rest = [] \<or> last pre = 10 \<and> pre \<noteq> []"
      using Cons.IH by blast
    then show ?thesis using o by (intro exI[of _ "ch # pre"]) auto
  qed
qed simp

lemma mask_fence_body_split:
  "mask_fence_body fc fl bol s = (out, rest) \<Longrightarrow>
   \<exists>pre. s = pre @ rest \<and> out = map mask_char pre \<and> (rest = [] \<or> pre \<noteq> [] \<and> last pre = 10)"
proof (induction s arbitrary: bol out)
  case (Cons ch s)
  show ?case
  proof (cases "bol \<and> fl \<le> count_run (ch # s) fc")
    case True
    then show ?thesis using Cons.prems mask_line_split[of "ch # s" out rest] by auto
  next
    case False
    then obtain out' where o: "mask_fence_body fc fl (ch = 10) s = (out', rest)" "out = mask_char ch # out'"
      using Cons.prems by (auto simp: Let_def split: prod.splits simp del: count_run.simps)
    then obtain pre where "s = pre @ rest" "out' = map mask_char pre" "rest = [] \<or> pre \<noteq> [] \<and> last pre = 10"
      using Cons.IH by blast
    then show ?thesis using o by (intro exI[of _ "ch # pre"]) auto
  qed
qed simp

lemma mask_fenced_block_split:
  "mask_fenced_block fc fl (ch # s) = (out, rest) \<Longrightarrow>
   \<exists>pre. ch # s = pre @ rest \<and> pre \<noteq> [] \<and> out = map mask_char pre \<and> (rest = [] \<or> ch = 10 \<or> last pre = 10)"
  using mask_fence_body_split[of fc fl "ch = 10" s] by (fastforce simp: mask_fenced_block_def split: prod.splits intro: exI[of _ "ch # _"])

lemma count_run_le: "count_run s c \<le> length s"
  by (induction s) auto

lemma find_backtick_run_bound: "find_backtick_run s n = Some e \<Longrightarrow> e + n \<le> length s"
proof (induction s arbitrary: e)
  case (Cons ch s)
  then show ?case using count_run_le[of "ch # s" 96] by (fastforce split: if_splits simp del: count_run.simps)
qed simp

text \<open>A code span, from its opening to the end of its closing run of backticks, with what follows it.\<close>

definition code_span :: "rstr \<Rightarrow> (rstr \<times> rstr) option" where
  "code_span chars =
     (if chars \<noteq> [] \<and> hd chars = 96
      then
        (let run_len = count_run chars 96
         in map_option (\<lambda>close. let n = run_len + close + run_len in (take n chars, drop n chars))
              (find_backtick_run (drop run_len chars) run_len))
      else None)"

lemma code_span_split:
  assumes "code_span chars = Some (span, rest)"
  shows "chars = span @ rest" "span \<noteq> []"
  using assms by (auto simp: code_span_def Let_def neq_Nil_conv split: if_splits)

lemma fenced_rest: "mask_fenced_block fc fl (ch # s) = (out, rest) \<Longrightarrow> length rest < Suc (length s)"
  using mask_fenced_block_split[of fc fl ch s out rest] by (metis length_Cons length_append length_greater_0_conv less_add_same_cancel2)

lemma code_span_rest: "code_span (ch # s) = Some (span, rest) \<Longrightarrow> length rest < Suc (length s)"
  using code_span_split[of "ch # s" span rest] by (metis length_Cons length_append length_greater_0_conv less_add_same_cancel2)

function mask_code :: "bool \<Rightarrow> rstr \<Rightarrow> rstr" where
  "mask_code bol [] = []"
| "mask_code bol (ch # chars) =
     (case detect_fence_start bol (ch # chars) of
        Some (fence_char, fence_len) \<Rightarrow>
          (let (out, rest) = mask_fenced_block fence_char fence_len (ch # chars) in out @ mask_code True rest)
      | None \<Rightarrow>
          (case code_span (ch # chars) of
             Some (span, rest) \<Rightarrow> map mask_char span @ mask_code False rest
           | None \<Rightarrow> ch # mask_code (ch = 10) chars))"
  by pat_completeness auto

termination
  by (relation "measure (\<lambda>(_, chars). length chars)") (auto dest!: fenced_rest[OF sym] code_span_rest)

definition mask_code_regions :: "rstr \<Rightarrow> rstr" where
  "mask_code_regions input = mask_code True input"

section \<open>Links\<close>

text \<open>
  From behind \<open>[[\<close> to the closing brackets: target, alias and the rest of the text, \<open>None\<close> when a line break or the end of
  the text comes first.
\<close>

fun scan_link :: "rstr \<Rightarrow> rstr option \<Rightarrow> rstr \<Rightarrow> (rstr \<times> rstr option \<times> rstr) option" where
  "scan_link target al (c # d # chars) =
     (if c = 10 \<or> c = 13 then None
      else if c = 124 \<and> al = None then scan_link target (Some []) (d # chars)
      else if c = 93 \<and> d = 93 then Some (target, al, chars)
      else
        (case al of
           None \<Rightarrow> scan_link (target @ [c]) None (d # chars)
         | Some a \<Rightarrow> scan_link target (Some (a @ [c])) (d # chars)))"
| "scan_link target al _ = None"

definition finalize_candidate :: "rstr \<Rightarrow> rstr option \<Rightarrow> (rstr \<times> rstr option) option" where
  "finalize_candidate target al =
     (let normalized_target = str_trim target
      in if normalized_target = [] then None
         else
           (let normalized_alias = (case al of None \<Rightarrow> None | Some value \<Rightarrow> if str_trim value \<noteq> [] then Some (str_trim value) else None)
            in if al \<noteq> None \<and> normalized_alias = None then None else Some (normalized_target, normalized_alias)))"

lemma scan_link_rest: "scan_link target al s = Some (t, a, rest) \<Longrightarrow> length rest < length s"
  by (induction target al s rule: scan_link.induct) (auto split: if_splits option.splits)

function scan_text_for_wikilinks :: "rstr \<Rightarrow> (rstr \<times> rstr option) list" where
  "scan_text_for_wikilinks (c # d # chars) =
     (if c \<noteq> 91 \<or> d \<noteq> 91 then scan_text_for_wikilinks (d # chars)
      else
        (case scan_link [] None chars of
           Some (target, al, rest) \<Rightarrow>
             (case finalize_candidate target al of
                Some link \<Rightarrow> link # scan_text_for_wikilinks rest
              | None \<Rightarrow> scan_text_for_wikilinks rest)
         | None \<Rightarrow> scan_text_for_wikilinks chars))"
| "scan_text_for_wikilinks [c] = []"
| "scan_text_for_wikilinks [] = []"
  by pat_completeness auto

termination
  by (relation "measure length") (auto dest!: scan_link_rest)

definition extract_wikilinks :: "rstr \<Rightarrow> extracted_wikilink list" where
  "extract_wikilinks markdown =
     map (\<lambda>(ordinal, (target, al)). \<lparr>ew_target = target, ew_alias = al, ew_ordinal = ordinal\<rparr>)
       (enumerate 0 (scan_text_for_wikilinks (mask_code_regions markdown)))"


section \<open>Lemmas\<close>

definition masks :: "rstr \<Rightarrow> rstr \<Rightarrow> bool" where
  "masks s out \<longleftrightarrow> list_all2 (\<lambda>c d. d = c \<or> d = mask_char c) s out"

lemma masks_append: "masks s s' \<Longrightarrow> masks t t' \<Longrightarrow> masks (s @ t) (s' @ t')"
  unfolding masks_def by (rule list_all2_appendI)

lemma masks_map: "masks s (map mask_char s)"
  by (simp add: masks_def list_all2_map2 list_all2_refl)

lemma mask_code_masks: "masks s (mask_code bol s)"
proof (induction bol s rule: mask_code.induct)
  case (2 bol ch chars)
  show ?case
  proof (cases "detect_fence_start bol (ch # chars)")
    case (Some f)
    obtain fc fl out rest where f: "f = (fc, fl)" "mask_fenced_block fc fl (ch # chars) = (out, rest)"
      by (metis surj_pair)
    obtain pre where "ch # chars = pre @ rest" "out = map mask_char pre"
      using mask_fenced_block_split[OF f(2)] by blast
    moreover have "mask_code bol (ch # chars) = out @ mask_code True rest" using Some f by (simp add: Let_def)
    ultimately show ?thesis using 2(3)[OF Some f(1)[symmetric] refl f(2)[symmetric]] masks_append[OF masks_map] by metis
  next
    case None
    show ?thesis
    proof (cases "code_span (ch # chars)")
      case (Some p)
      obtain span rest where p: "p = (span, rest)" by (cases p)
      then have "ch # chars = span @ rest" using code_span_split Some by blast
      moreover have "mask_code bol (ch # chars) = map mask_char span @ mask_code False rest" using Some p None by simp
      ultimately show ?thesis using 2(2)[OF None Some p[symmetric]] masks_append[OF masks_map] by metis
    next
      case n: None
      show ?thesis using None n 2(1)[OF None n] by (simp add: masks_def)
    qed
  qed
qed (simp add: masks_def)

definition no_code :: "rstr \<Rightarrow> bool" where
  "no_code s \<longleftrightarrow> 96 \<notin> set s \<and> 126 \<notin> set s"

lemma mask_code_plain_char: "ch \<noteq> 96 \<Longrightarrow> ch \<noteq> 126 \<Longrightarrow> mask_code bol (ch # s) = ch # mask_code (ch = 10) s"
  by (simp add: detect_fence_start_def code_span_def)

lemma mask_code_plain: "no_code s \<Longrightarrow> \<exists>bol'. mask_code bol (s @ rest) = s @ mask_code bol' rest"
proof (induction s arbitrary: bol)
  case (Cons ch s)
  then have "mask_code bol (ch # s @ rest) = ch # mask_code (ch = 10) (s @ rest)"
    by (intro mask_code_plain_char) (auto simp: no_code_def)
  moreover have "no_code s" using Cons.prems by (simp add: no_code_def)
  ultimately show ?case using Cons.IH by (metis append_Cons)
qed auto

lemma find_backtick_close: "96 \<notin> set body \<Longrightarrow> find_backtick_run (body @ 96 # rest) 1 = Some (length body)"
  by (induction body) (auto simp: Suc_le_eq)

lemma mask_code_span:
  assumes "96 \<notin> set body" "body \<noteq> []"
  shows "mask_code bol (96 # body @ 96 # rest) = 32 # map mask_char body @ 32 # mask_code False rest"
proof -
  have run: "count_run (96 # body @ 96 # rest) 96 = 1" using assms by (cases body) auto
  have "detect_fence_start bol (96 # body @ 96 # rest) = None" using run by (simp add: detect_fence_start_def Let_def)
  moreover have "code_span (96 # body @ 96 # rest) = Some (96 # body @ [96], rest)"
    using run find_backtick_close[OF assms(1), of rest] by (simp add: code_span_def Let_def del: count_run.simps)
  ultimately show ?thesis by (simp add: mask_char_def)
qed

lemma scan_skip: "c \<noteq> 91 \<Longrightarrow> scan_text_for_wikilinks (c # s) = scan_text_for_wikilinks s"
  by (cases s) auto

lemma scan_skip_text: "91 \<notin> set s \<Longrightarrow> scan_text_for_wikilinks (s @ rest) = scan_text_for_wikilinks rest"
  by (induction s) (auto simp: scan_skip)

definition link_text :: "rstr \<Rightarrow> bool" where
  "link_text s \<longleftrightarrow> s \<noteq> [] \<and> str_trim s = s \<and> no_code s \<and> set s \<inter> {10, 13, 93, 124} = {}"

lemma scan_link_chars:
  "set s \<inter> {10, 13, 93, 124} = {} \<Longrightarrow> rest \<noteq> [] \<Longrightarrow>
   scan_link target al (s @ rest) =
     (case al of None \<Rightarrow> scan_link (target @ s) None rest | Some a \<Rightarrow> scan_link target (Some (a @ s)) rest)"
proof (induction s arbitrary: target al)
  case (Cons c s)
  obtain d u where du: "s @ rest = d # u" using Cons.prems(2) by (cases "s @ rest") auto
  have "scan_link target al (c # d # u) =
      (case al of None \<Rightarrow> scan_link (target @ [c]) None (d # u) | Some a \<Rightarrow> scan_link target (Some (a @ [c])) (d # u))"
    using Cons.prems(1) by (auto split: option.split)
  then show ?case using Cons du[symmetric] by (auto split: option.split)
qed (auto split: option.split)

section \<open>Rendered notes\<close>

text \<open>
  A note as a sequence of texts, code spans and links. The specification of the extraction: the links of the sequence, in
  order, whatever the texts and code spans between them hold.
\<close>

datatype note_piece = Plain rstr | Code_Span rstr | Link rstr "rstr option"

fun piece_ok :: "note_piece \<Rightarrow> bool" where
  "piece_ok (Plain s) \<longleftrightarrow> no_code s \<and> 91 \<notin> set s"
| "piece_ok (Code_Span s) \<longleftrightarrow> s \<noteq> [] \<and> 96 \<notin> set s"
| "piece_ok (Link target al) \<longleftrightarrow> link_text target \<and> (case al of None \<Rightarrow> True | Some a \<Rightarrow> link_text a)"

fun render_piece :: "note_piece \<Rightarrow> rstr" where
  "render_piece (Plain s) = s"
| "render_piece (Code_Span s) = lit ''`'' @ s @ lit ''`''"
| "render_piece (Link target al) =
     lit ''[['' @ target @ (case al of None \<Rightarrow> [] | Some a \<Rightarrow> lit ''|'' @ a) @ lit '']]''"

fun piece_links :: "note_piece \<Rightarrow> (rstr \<times> rstr option) list" where
  "piece_links (Link target al) = [(target, al)]"
| "piece_links _ = []"

lemma scan_rendered_link:
  assumes "piece_ok (Link target al)"
  shows "scan_text_for_wikilinks (render_piece (Link target al) @ rest) = (target, al) # scan_text_for_wikilinks rest"
proof (cases al)
  case None
  have "scan_link [] None (target @ 93 # 93 # rest) = Some (target, None, rest)"
    using assms scan_link_chars[of target "93 # 93 # rest" "[]" None] by (simp add: link_text_def)
  moreover have "finalize_candidate target None = Some (target, None)"
    using assms by (simp add: finalize_candidate_def link_text_def)
  ultimately show ?thesis using None by simp
next
  case (Some a)
  have "scan_link [] None (target @ 124 # a @ 93 # 93 # rest) = Some (target, Some a, rest)"
  proof -
    have "a \<noteq> []" using assms Some by (simp add: link_text_def)
    then obtain d u where du: "a @ 93 # 93 # rest = d # u" by (cases a) auto
    have "scan_link target None (124 # d # u) = scan_link target (Some []) (d # u)" by simp
    then show ?thesis
      using assms Some scan_link_chars[of target "124 # a @ 93 # 93 # rest" "[]" None] scan_link_chars[of a "93 # 93 # rest" target "Some []"]
      by (simp add: link_text_def du[symmetric])
  qed
  moreover have "finalize_candidate target (Some a) = Some (target, Some a)"
    using assms Some by (simp add: finalize_candidate_def link_text_def)
  ultimately show ?thesis using Some by simp
qed

lemma scan_masked_pieces:
  "\<forall>p\<in>set ps. piece_ok p \<Longrightarrow>
   scan_text_for_wikilinks (mask_code bol (concat (map render_piece ps))) = concat (map piece_links ps)"
proof (induction ps arbitrary: bol)
  case (Cons p ps)
  have ok: "piece_ok p" and IH: "\<And>bol. scan_text_for_wikilinks (mask_code bol (concat (map render_piece ps))) = concat (map piece_links ps)"
    using Cons by auto
  show ?case
  proof (cases p)
    case (Plain s)
    then obtain bol' where "mask_code bol (s @ concat (map render_piece ps)) = s @ mask_code bol' (concat (map render_piece ps))"
      using ok mask_code_plain by fastforce
    then show ?thesis using Plain ok IH by (simp add: scan_skip_text)
  next
    case (Code_Span s)
    have "91 \<notin> set (32 # map mask_char s @ [32])" by (auto simp: mask_char_def)
    from scan_skip_text[OF this] show ?thesis using Code_Span ok IH mask_code_span[of s bol] by simp
  next
    case (Link target al)
    have "no_code (render_piece p)" using ok Link by (auto simp: no_code_def link_text_def split: option.splits)
    then obtain bol' where "mask_code bol (render_piece p @ concat (map render_piece ps)) = render_piece p @ mask_code bol' (concat (map render_piece ps))"
      using mask_code_plain by blast
    then show ?thesis using Link ok IH scan_rendered_link by (simp del: render_piece.simps(3))
  qed
qed simp



section \<open>Every extracted link\<close>

definition link_source :: "rstr \<Rightarrow> rstr option \<Rightarrow> rstr" where
  "link_source target al = lit ''[['' @ target @ (case al of None \<Rightarrow> [] | Some a \<Rightarrow> lit ''|'' @ a) @ lit '']]''"

definition with_alias :: "rstr \<Rightarrow> rstr option \<Rightarrow> rstr" where
  "with_alias target al = target @ (case al of None \<Rightarrow> [] | Some a \<Rightarrow> 124 # a)"

lemma with_alias_simps [simp]: "with_alias t None = t" "with_alias t (Some a) = t @ 124 # a"
  by (simp_all add: with_alias_def)

lemma scan_link_sound:
  "scan_link target al s = Some (t, a, rest) \<Longrightarrow>
   \<exists>read. s = read @ 93 # 93 # rest \<and> set read \<inter> {10, 13} = {} \<and> with_alias target al @ read = with_alias t a"
proof (induction target al s rule: scan_link.induct)
  case (1 target al c d chars)
  have step: ?case if "d # chars = read @ 93 # 93 # rest" "set read \<inter> {10, 13} = {}" "c \<notin> {10, 13}"
    "(with_alias target al @ [c]) @ read = with_alias t a" for read
    using that by (intro exI[of _ "c # read"]) auto
  have nl: "c \<notin> {10, 13}" using 1(4) by auto
  show ?case
  proof (cases "c = 124 \<and> al = None")
    case True
    then have "scan_link target (Some []) (d # chars) = Some (t, a, rest)" using 1(4) by simp
    then show ?thesis using 1(1) nl True step by fastforce
  next
    case sep: False
    show ?thesis
    proof (cases "c = 93 \<and> d = 93")
      case True
      then show ?thesis using 1(4) by (intro exI[of _ "[]"]) auto
    next
      case False
      show ?thesis
      proof (cases al)
        case None
        then have "scan_link (target @ [c]) None (d # chars) = Some (t, a, rest)" using 1(4) nl sep False by auto
        with 1(2)[OF _ sep False None] nl obtain read where "d # chars = read @ 93 # 93 # rest" "set read \<inter> {10, 13} = {}"
          "with_alias (target @ [c]) None @ read = with_alias t a" by auto
        then show ?thesis using None nl by (intro step) auto
      next
        case (Some x)
        then have "scan_link target (Some (x @ [c])) (d # chars) = Some (t, a, rest)" using 1(4) nl sep False by auto
        with 1(3)[OF _ sep False Some] nl obtain read where "d # chars = read @ 93 # 93 # rest" "set read \<inter> {10, 13} = {}"
          "with_alias target (Some (x @ [c])) @ read = with_alias t a" by auto
        then show ?thesis using Some nl by (intro step) auto
      qed
    qed
  qed
qed auto

lemma scan_sound:
  "(t, a) \<in> set (scan_text_for_wikilinks s) \<Longrightarrow>
   \<exists>pre t' a' post. s = pre @ link_source t' a' @ post \<and> set (link_source t' a') \<inter> {10, 13} = {} \<and> finalize_candidate t' a' = Some (t, a)"
proof (induction s rule: scan_text_for_wikilinks.induct)
  case (1 c d chars)
  show ?case
  proof (cases "c = 91 \<and> d = 91")
    case False
    then have "(t, a) \<in> set (scan_text_for_wikilinks (d # chars))" using 1 by auto
    then obtain pre t' a' post where "d # chars = pre @ link_source t' a' @ post" "set (link_source t' a') \<inter> {10, 13} = {}" "finalize_candidate t' a' = Some (t, a)"
      using 1(1) False by auto
    then show ?thesis by (metis append_Cons)
  next
    case brackets: True
    show ?thesis
    proof (cases "scan_link [] None chars")
      case None
      then have "(t, a) \<in> set (scan_text_for_wikilinks chars)" using 1 brackets by auto
      then obtain pre t' a' post where "chars = pre @ link_source t' a' @ post" "set (link_source t' a') \<inter> {10, 13} = {}" "finalize_candidate t' a' = Some (t, a)"
        using 1 brackets None by auto
      then show ?thesis by (metis append_Cons)
    next
      case (Some r)
      then obtain t0 a0 rest where r: "scan_link [] None chars = Some (t0, a0, rest)" by (metis surj_pair)
      then obtain read where read: "chars = read @ 93 # 93 # rest" "set read \<inter> {10, 13} = {}"
        "read = with_alias t0 a0" using scan_link_sound[OF r] by auto
      have src: "c # d # chars = link_source t0 a0 @ rest" using brackets read by (cases a0) (simp_all add: link_source_def)
      have nl: "set (link_source t0 a0) \<inter> {10, 13} = {}" using read(2,3) by (cases a0) (auto simp: link_source_def)
      from 1(5) brackets r consider "finalize_candidate t0 a0 = Some (t, a)" | "(t, a) \<in> set (scan_text_for_wikilinks rest)"
        by (auto split: option.splits)
      then show ?thesis
      proof cases
        case 1
        then show ?thesis using src nl by (metis append_Nil)
      next
        case 2
        then obtain pre t' a' post where "rest = pre @ link_source t' a' @ post" "set (link_source t' a') \<inter> {10, 13} = {}" "finalize_candidate t' a' = Some (t, a)"
          using 1(3,4) brackets r by (cases "finalize_candidate t0 a0") fastforce+
        then show ?thesis using src by (metis append_assoc)
      qed
    qed
  qed
qed auto

lemma extracted_links_sound:
  "l \<in> set (extract_wikilinks markdown) \<Longrightarrow>
   \<exists>masked pre target al post. masks markdown masked \<and> masked = pre @ link_source target al @ post \<and>
     set (link_source target al) \<inter> {10, 13} = {} \<and>
     ew_target l = str_trim target \<and> ew_target l \<noteq> [] \<and>
     ew_alias l = map_option str_trim al \<and> ew_alias l \<noteq> Some []"
proof -
  assume "l \<in> set (extract_wikilinks markdown)"
  then have "(ew_target l, ew_alias l) \<in> set (scan_text_for_wikilinks (mask_code_regions markdown))"
    unfolding extract_wikilinks_def by (auto simp: in_set_enumerate_eq) (metis nth_mem)
  from scan_sound[OF this] obtain pre target al post
    where m: "mask_code_regions markdown = pre @ link_source target al @ post" "set (link_source target al) \<inter> {10, 13} = {}"
      and f: "finalize_candidate target al = Some (ew_target l, ew_alias l)" by blast
  have "ew_target l = str_trim target \<and> ew_target l \<noteq> [] \<and> ew_alias l = map_option str_trim al \<and> ew_alias l \<noteq> Some []"
    using f by (auto simp: finalize_candidate_def Let_def split: if_splits option.splits)
  then show ?thesis using m mask_code_masks[of markdown True] unfolding mask_code_regions_def by blast
qed

end
