(* ===== verification/Index_Document.thy ===== *)
theory Index_Document
  imports Index_Text Index_Links
begin

text \<open>
  \<open>extract.rs\<close> of the crate \<open>kuku-indexer\<close>: from a note to the sections, chunks, links and metadata that are indexed.

  The parsers are the parameters of the record \<open>index_env\<close>: the event stream of \<open>pulldown_cmark\<close>, the YAML reader and
  printer of \<open>serde_yaml\<close>, and the case table of Unicode. The events that \<open>extract_document\<close> ignores are \<open>EvOther\<close>,
  \<open>TagOther\<close> and \<open>EndOther\<close>; a number of a YAML document is the text it prints as.
\<close>

section \<open>Metadata\<close>

datatype yaml_value =
  YNull | YBool bool | YNumber rstr | YString rstr | YSequence "yaml_value list"
| YMapping "(yaml_value \<times> yaml_value) list" | YTagged rstr yaml_value

record frontmatter_entry =
  fe_key :: rstr
  fe_value :: rstr

datatype md_tag =
  TagParagraph | TagHeading nat | TagCodeBlock "rstr option" | TagBlockQuote | TagItem | TagTableRow | TagOther

datatype md_tag_end =
  EndParagraph | EndHeading | EndCodeBlock | EndBlockQuote | EndItem | EndTableRow | EndOther

datatype md_event =
  EvStart md_tag | EvEnd md_tag_end | EvText rstr | EvCode rstr | EvSoftBreak | EvHardBreak | EvRule | EvOther

record index_env =
  env_lower :: "rstr \<Rightarrow> rstr"
  env_parse_yaml :: "rstr \<Rightarrow> yaml_value option"
  env_print_yaml :: "yaml_value \<Rightarrow> rstr option"
  env_yaml_str :: "yaml_value \<Rightarrow> rstr option"
  env_parse_markdown :: "rstr \<Rightarrow> md_event list"

definition FRONTMATTER_MAX_DEPTH :: nat where
  "FRONTMATTER_MAX_DEPTH = 32"

definition printed_yaml :: "index_env \<Rightarrow> yaml_value \<Rightarrow> rstr" where
  "printed_yaml env v = str_trim (case env_print_yaml env v of Some s \<Rightarrow> s | None \<Rightarrow> [])"

text \<open>The depth counts down from \<open>FRONTMATTER_MAX_DEPTH\<close>.\<close>

fun flatten_yaml :: "index_env \<Rightarrow> nat \<Rightarrow> rstr \<Rightarrow> yaml_value \<Rightarrow> frontmatter_entry list" where
  "flatten_yaml env 0 pre v = [\<lparr>fe_key = pre, fe_value = printed_yaml env v\<rparr>]"
| "flatten_yaml env (Suc d) pre v =
     (case v of
        YMapping kvs \<Rightarrow>
          concat (map (\<lambda>(k, child).
            (let key = (case env_yaml_str env k of Some s \<Rightarrow> s | None \<Rightarrow> []);
                 next_prefix = (if pre = [] then key else pre @ lit ''.'' @ key)
             in flatten_yaml env d next_prefix child)) kvs)
      | YSequence vs \<Rightarrow>
          concat (map (\<lambda>(idx, child). flatten_yaml env d (pre @ lit ''['' @ nat_digits idx @ lit '']'') child) (enumerate 0 vs))
      | YNull \<Rightarrow> [\<lparr>fe_key = pre, fe_value = []\<rparr>]
      | YBool b \<Rightarrow> [\<lparr>fe_key = pre, fe_value = (if b then lit ''true'' else lit ''false'')\<rparr>]
      | YNumber n \<Rightarrow> [\<lparr>fe_key = pre, fe_value = n\<rparr>]
      | YString s \<Rightarrow> [\<lparr>fe_key = pre, fe_value = s\<rparr>]
      | YTagged _ _ \<Rightarrow> [\<lparr>fe_key = pre, fe_value = printed_yaml env v\<rparr>])"

text \<open>The lines up to the closing \<open>---\<close> and the lines behind it.\<close>

fun split_at_fence :: "rstr list \<Rightarrow> rstr list \<Rightarrow> (rstr list \<times> rstr list) option" where
  "split_at_fence yaml_lines [] = None"
| "split_at_fence yaml_lines (line # ls) =
     (if line = lit ''---'' then Some (yaml_lines, ls) else split_at_fence (yaml_lines @ [line]) ls)"

definition split_frontmatter :: "index_env \<Rightarrow> rstr \<Rightarrow> frontmatter_entry list \<times> rstr" where
  "split_frontmatter env markdown =
     (case str_lines markdown of
        [] \<Rightarrow> ([], markdown)
      | first # ls \<Rightarrow>
          if first \<noteq> lit ''---'' then ([], markdown)
          else
            (case split_at_fence [] ls of
               None \<Rightarrow> ([], markdown)
             | Some (yaml_lines, body_lines) \<Rightarrow>
                 ((case env_parse_yaml env (str_join [10] yaml_lines) of
                     Some v \<Rightarrow> flatten_yaml env FRONTMATTER_MAX_DEPTH [] v
                   | None \<Rightarrow> []),
                  str_join [10] body_lines)))"

text \<open>\<open>frontmatter_json.get("title")\<close>: a later entry replaces an earlier one with its key.\<close>

definition frontmatter_title :: "frontmatter_entry list \<Rightarrow> rstr option" where
  "frontmatter_title entries = map_of (rev (map (\<lambda>e. (fe_key e, fe_value e)) entries)) (lit ''title'')"

section \<open>Sections and chunks\<close>

datatype chunk_kind = Prose | Code | Heading

record extracted_chunk =
  ch_kind :: chunk_kind
  ch_text :: rstr
  ch_raw_text :: rstr
  ch_global_start :: nat
  ch_global_end :: nat

record doc_section =
  sec_path :: "rstr list"
  sec_level :: nat
  sec_chunks :: "extracted_chunk list"

record extracted_document =
  doc_title :: "rstr option"
  doc_frontmatter :: "frontmatter_entry list"
  doc_sections :: "doc_section list"
  doc_wikilinks :: "extracted_wikilink list"
  doc_normalized_text :: rstr

datatype block_kind = BParagraph | BHeading nat | BCode | BBlockQuote | BItem | BTableRow

record block_buffer =
  bb_kind :: block_kind
  bb_raw :: rstr

text \<open>The local variables of \<open>extract_document\<close>.\<close>

record extract_state =
  xs_title :: "rstr option"
  xs_sections :: "doc_section list"
  xs_heading_stack :: "rstr list"
  xs_buffer :: "block_buffer option"
  xs_cursor :: nat

definition ensure_section :: "doc_section list \<Rightarrow> doc_section list" where
  "ensure_section sections = (if sections = [] then [\<lparr>sec_path = [], sec_level = 0, sec_chunks = []\<rparr>] else sections)"

definition push_chunk :: "extracted_chunk \<Rightarrow> doc_section list \<Rightarrow> doc_section list" where
  "push_chunk chunk sections =
     (let ss = ensure_section sections; s = last ss in butlast ss @ [s\<lparr>sec_chunks := sec_chunks s @ [chunk]\<rparr>])"

definition append_part :: "index_env \<Rightarrow> chunk_kind \<Rightarrow> rstr \<Rightarrow> extract_state \<Rightarrow> extract_state" where
  "append_part env kind raw_part st =
     (let normalized = normalize_text (env_lower env) raw_part
      in if normalized = [] then st
         else
           (let start = xs_cursor st; stop = start + length raw_part
            in st\<lparr>xs_sections := push_chunk
                    \<lparr>ch_kind = kind, ch_text = normalized, ch_raw_text = raw_part,
                      ch_global_start = start, ch_global_end = stop\<rparr> (xs_sections st),
                  xs_cursor := stop + 1\<rparr>))"

definition append_chunk :: "index_env \<Rightarrow> chunk_kind \<Rightarrow> rstr \<Rightarrow> extract_state \<Rightarrow> extract_state" where
  "append_chunk env kind raw_text st = fold (append_part env kind) (split_chunk_text raw_text) st"

definition push_heading :: "nat \<Rightarrow> rstr \<Rightarrow> extract_state \<Rightarrow> extract_state" where
  "push_heading level raw st =
     (let stack = take (level - 1) (xs_heading_stack st) @ [raw]
      in st\<lparr>xs_title := (if xs_title st = None then Some raw else xs_title st),
            xs_heading_stack := stack,
            xs_sections := xs_sections st @ [\<lparr>sec_path = stack, sec_level = level, sec_chunks = []\<rparr>]\<rparr>)"

definition flush_buffer :: "index_env \<Rightarrow> extract_state \<Rightarrow> extract_state" where
  "flush_buffer env st =
     (case xs_buffer st of
        None \<Rightarrow> st
      | Some block \<Rightarrow>
          (let st' = st\<lparr>xs_buffer := None\<rparr>; raw = str_trim (bb_raw block)
           in if raw = [] then st'
              else
                (case bb_kind block of
                   BHeading level \<Rightarrow> append_chunk env Heading raw (push_heading level raw st')
                 | BCode \<Rightarrow> append_chunk env Code raw st'
                 | _ \<Rightarrow> append_chunk env Prose raw st')))"

definition open_block :: "block_kind \<Rightarrow> rstr \<Rightarrow> extract_state \<Rightarrow> extract_state" where
  "open_block kind raw st = st\<lparr>xs_buffer := Some \<lparr>bb_kind = kind, bb_raw = raw\<rparr>\<rparr>"

definition push_text :: "rstr \<Rightarrow> extract_state \<Rightarrow> extract_state" where
  "push_text s st = st\<lparr>xs_buffer := map_option (\<lambda>b. b\<lparr>bb_raw := bb_raw b @ s\<rparr>) (xs_buffer st)\<rparr>"

fun handle_event :: "index_env \<Rightarrow> md_event \<Rightarrow> extract_state \<Rightarrow> extract_state" where
  "handle_event env (EvStart tag) st =
     (case tag of
        TagParagraph \<Rightarrow> open_block BParagraph [] st
      | TagHeading level \<Rightarrow> open_block (BHeading level) [] st
      | TagCodeBlock lang \<Rightarrow> open_block BCode (case lang of Some l \<Rightarrow> if l \<noteq> [] then l @ [10] else [] | None \<Rightarrow> []) st
      | TagBlockQuote \<Rightarrow> open_block BBlockQuote [] st
      | TagItem \<Rightarrow> open_block BItem [] st
      | TagTableRow \<Rightarrow> open_block BTableRow [] st
      | TagOther \<Rightarrow> st)"
| "handle_event env (EvEnd tag) st = (case tag of EndOther \<Rightarrow> st | _ \<Rightarrow> flush_buffer env st)"
| "handle_event env (EvText s) st = push_text s st"
| "handle_event env (EvCode s) st = push_text s st"
| "handle_event env EvSoftBreak st = push_text [10] st"
| "handle_event env EvHardBreak st = push_text [10] st"
| "handle_event env EvRule st = flush_buffer env st"
| "handle_event env EvOther st = st"

definition initial_state :: "rstr option \<Rightarrow> extract_state" where
  "initial_state title =
     \<lparr>xs_title = title, xs_sections = [\<lparr>sec_path = [], sec_level = 0, sec_chunks = []\<rparr>], xs_heading_stack = [],
       xs_buffer = None, xs_cursor = 0\<rparr>"

definition doc_chunks :: "doc_section list \<Rightarrow> extracted_chunk list" where
  "doc_chunks sections = concat (map sec_chunks sections)"

definition extract_document :: "index_env \<Rightarrow> rstr \<Rightarrow> extracted_document" where
  "extract_document env markdown =
     (let (frontmatter, body) = split_frontmatter env markdown;
          st = flush_buffer env
                 (fold (handle_event env) (env_parse_markdown env body) (initial_state (frontmatter_title frontmatter)))
      in \<lparr>doc_title = xs_title st, doc_frontmatter = frontmatter, doc_sections = xs_sections st,
          doc_wikilinks = extract_wikilinks body,
          doc_normalized_text = str_join [32] (map ch_text (doc_chunks (xs_sections st)))\<rparr>)"

section \<open>Invariant\<close>

text \<open>
  Positions: the chunks lie one behind the other in an own coordinate of the document, with one position between two
  chunks, and the cursor stands behind the last one.
\<close>

fun chunks_laid_out :: "nat \<Rightarrow> extracted_chunk list \<Rightarrow> nat \<Rightarrow> bool" where
  "chunks_laid_out start [] cursor \<longleftrightarrow> cursor = start"
| "chunks_laid_out start (c # cs) cursor \<longleftrightarrow>
     ch_global_start c = start \<and> ch_global_end c = start + length (ch_raw_text c) \<and>
     chunks_laid_out (ch_global_end c + 1) cs cursor"

definition chunk_ok :: "index_env \<Rightarrow> extracted_chunk \<Rightarrow> bool" where
  "chunk_ok env c \<longleftrightarrow> ch_text c = normalize_text (env_lower env) (ch_raw_text c) \<and> ch_text c \<noteq> [] \<and>
     length (ch_raw_text c) \<le> CHUNK_MAX_CHARS"

definition section_ok :: "doc_section \<Rightarrow> bool" where
  "section_ok s \<longleftrightarrow> length (sec_path s) \<le> sec_level s \<and> (0 < sec_level s \<longrightarrow> sec_path s \<noteq> [] \<and> last (sec_path s) \<noteq> [])"

definition extract_inv :: "index_env \<Rightarrow> extract_state \<Rightarrow> bool" where
  "extract_inv env st \<longleftrightarrow>
     xs_sections st \<noteq> [] \<and> xs_heading_stack st = sec_path (last (xs_sections st)) \<and>
     chunks_laid_out 0 (doc_chunks (xs_sections st)) (xs_cursor st) \<and>
     (\<forall>c\<in>set (doc_chunks (xs_sections st)). chunk_ok env c) \<and> (\<forall>s\<in>set (xs_sections st). section_ok s) \<and>
     (\<forall>b. xs_buffer st = Some b \<longrightarrow> bb_kind b \<noteq> BHeading 0)"

definition event_ok :: "md_event \<Rightarrow> bool" where
  "event_ok e \<longleftrightarrow> e \<noteq> EvStart (TagHeading 0)"

lemma chunks_laid_out_append:
  "chunks_laid_out start (cs @ [c]) cursor \<longleftrightarrow>
   (\<exists>mid. chunks_laid_out start cs mid \<and> ch_global_start c = mid \<and> ch_global_end c = mid + length (ch_raw_text c) \<and> cursor = ch_global_end c + 1)"
  by (induction cs arbitrary: start) auto

lemma doc_chunks_simps [simp]:
  "doc_chunks [] = []" "doc_chunks (ss @ ts) = doc_chunks ss @ doc_chunks ts" "doc_chunks (s # ss) = sec_chunks s @ doc_chunks ss"
  by (simp_all add: doc_chunks_def)

lemma push_chunk_last:
  "sections \<noteq> [] \<Longrightarrow> push_chunk c sections = butlast sections @ [last sections\<lparr>sec_chunks := sec_chunks (last sections) @ [c]\<rparr>]"
  by (simp add: push_chunk_def ensure_section_def Let_def)

lemma doc_chunks_push: "sections \<noteq> [] \<Longrightarrow> doc_chunks (push_chunk c sections) = doc_chunks sections @ [c]"
  using append_butlast_last_id[of sections] doc_chunks_simps(2)[of "butlast sections" "[last sections]"]
  by (simp add: push_chunk_last)

lemma push_chunk_facts:
  assumes "sections \<noteq> []"
  shows "push_chunk c sections \<noteq> []" "sec_path (last (push_chunk c sections)) = sec_path (last sections)"
    "(\<forall>s\<in>set (push_chunk c sections). section_ok s) \<longleftrightarrow> (\<forall>s\<in>set sections. section_ok s)"
proof -
  have "set sections = insert (last sections) (set (butlast sections))"
    using assms by (metis append_butlast_last_id list.simps(15) rotate1.simps(2) set_rotate1)
  then show "push_chunk c sections \<noteq> []" "sec_path (last (push_chunk c sections)) = sec_path (last sections)"
    "(\<forall>s\<in>set (push_chunk c sections). section_ok s) \<longleftrightarrow> (\<forall>s\<in>set sections. section_ok s)"
    using assms by (auto simp: push_chunk_last section_ok_def)
qed

lemma append_part_inv:
  assumes "extract_inv env st" "length raw_part \<le> CHUNK_MAX_CHARS"
  shows "extract_inv env (append_part env kind raw_part st)"
  using assms
  by (auto simp: extract_inv_def append_part_def Let_def doc_chunks_push chunks_laid_out_append chunk_ok_def push_chunk_facts)

lemma split_chunk_text_max: "part \<in> set (split_chunk_text input) \<Longrightarrow> length part \<le> CHUNK_MAX_CHARS"
  using split_chunk_text_parts str_trim_length[of input]
  by (cases "CHUNK_MAX_CHARS < length input") (auto simp: split_chunk_text_def)

lemma append_chunk_inv: "extract_inv env st \<Longrightarrow> extract_inv env (append_chunk env kind raw st)"
proof -
  have "extract_inv env st \<Longrightarrow> \<forall>p\<in>set ps. length p \<le> CHUNK_MAX_CHARS \<Longrightarrow> extract_inv env (fold (append_part env kind) ps st)" for ps
    by (induction ps arbitrary: st) (auto intro: append_part_inv)
  then show "extract_inv env st \<Longrightarrow> extract_inv env (append_chunk env kind raw st)"
    using split_chunk_text_max unfolding append_chunk_def by blast
qed

lemma push_heading_inv:
  "extract_inv env st \<Longrightarrow> raw \<noteq> [] \<Longrightarrow> level \<noteq> 0 \<Longrightarrow> extract_inv env (push_heading level raw st)"
  by (auto simp: extract_inv_def push_heading_def Let_def section_ok_def)

lemma extract_inv_buffer:
  "extract_inv env st \<Longrightarrow> (\<And>b. buf = Some b \<Longrightarrow> bb_kind b \<noteq> BHeading 0) \<Longrightarrow> extract_inv env (st\<lparr>xs_buffer := buf\<rparr>)"
  by (simp add: extract_inv_def)

lemma flush_buffer_inv: "extract_inv env st \<Longrightarrow> extract_inv env (flush_buffer env st)"
proof (cases "xs_buffer st")
  case (Some b)
  assume inv: "extract_inv env st"
  then have i0: "extract_inv env (st\<lparr>xs_buffer := None\<rparr>)" by (intro extract_inv_buffer) auto
  have "bb_kind b \<noteq> BHeading 0" using inv Some by (simp add: extract_inv_def)
  then show ?thesis using Some i0
    by (auto simp: flush_buffer_def Let_def intro!: append_chunk_inv push_heading_inv split: block_kind.splits)
qed (simp add: flush_buffer_def)

lemma handle_event_inv: "extract_inv env st \<Longrightarrow> event_ok e \<Longrightarrow> extract_inv env (handle_event env e st)"
  by (cases e) (auto simp: event_ok_def open_block_def push_text_def split: md_tag.splits md_tag_end.splits
      intro!: flush_buffer_inv extract_inv_buffer, auto simp: extract_inv_def)

lemma initial_state_inv: "extract_inv env (initial_state title)"
  by (simp add: extract_inv_def initial_state_def section_ok_def)

lemma extract_inv_run:
  "\<forall>e\<in>set es. event_ok e \<Longrightarrow> extract_inv env (flush_buffer env (fold (handle_event env) es (initial_state title)))"
proof -
  have "extract_inv env st \<Longrightarrow> \<forall>e\<in>set es. event_ok e \<Longrightarrow> extract_inv env (fold (handle_event env) es st)" for st
    by (induction es arbitrary: st) (auto intro: handle_event_inv)
  then show "\<forall>e\<in>set es. event_ok e \<Longrightarrow> ?thesis" by (auto intro: flush_buffer_inv initial_state_inv)
qed

text \<open>The event stream of \<open>pulldown_cmark\<close>: heading levels are 1 to 6.\<close>

text \<open>
  For every event stream of the parser the chunks of the document lie one behind the other, each with the length of its text, every
  chunk has a text in normal form and a bounded length, and the path of every section fits its heading level; the text of the
  document is the text of its chunks.
\<close>

theorem document_positions:
  "\<forall>body. \<forall>e\<in>set (env_parse_markdown env body). event_ok e \<Longrightarrow>
   \<exists>cursor. chunks_laid_out 0 (doc_chunks (doc_sections (extract_document env markdown))) cursor \<and>
     (\<forall>c\<in>set (doc_chunks (doc_sections (extract_document env markdown))). chunk_ok env c) \<and>
     (\<forall>s\<in>set (doc_sections (extract_document env markdown)). section_ok s) \<and>
     doc_normalized_text (extract_document env markdown) =
       str_join [32] (map ch_text (doc_chunks (doc_sections (extract_document env markdown))))"
proof -
  assume ok: "\<forall>body. \<forall>e\<in>set (env_parse_markdown env body). event_ok e"
  obtain fm body where fb: "split_frontmatter env markdown = (fm, body)" by fastforce
  have "extract_inv env (flush_buffer env (fold (handle_event env) (env_parse_markdown env body) (initial_state (frontmatter_title fm))))"
    using ok by (intro extract_inv_run) blast
  then show ?thesis by (auto simp: extract_document_def fb Let_def extract_inv_def)
qed

definition sample_env :: "md_event list \<Rightarrow> index_env" where
  "sample_env es =
     \<lparr>env_lower = to_ascii_lowercase, env_parse_yaml = (\<lambda>_. None), env_print_yaml = (\<lambda>_. None), env_yaml_str = (\<lambda>_. None),
      env_parse_markdown = (\<lambda>_. es)\<rparr>"

theorem document_positions_witness:
  "\<exists>cursor. chunks_laid_out 0
     (doc_chunks (doc_sections (extract_document (sample_env [EvStart (TagHeading 1), EvText [65], EvEnd EndHeading]) [35, 32, 65]))) cursor"
proof -
  have "\<forall>body. \<forall>e\<in>set (env_parse_markdown (sample_env [EvStart (TagHeading 1), EvText [65], EvEnd EndHeading]) body). event_ok e"
    by (simp add: sample_env_def event_ok_def)
  from document_positions[OF this] show ?thesis by blast
qed

section \<open>What is indexed\<close>

text \<open>
  A block of a document that has no blocks inside, as the parser reports it: the tag and the inline events between its start
  and its end.
\<close>

datatype flat_block = Flat_Block md_tag "md_event list"

fun inline_text :: "md_event \<Rightarrow> rstr option" where
  "inline_text (EvText s) = Some s"
| "inline_text (EvCode s) = Some s"
| "inline_text EvSoftBreak = Some [10]"
| "inline_text EvHardBreak = Some [10]"
| "inline_text EvOther = Some []"
| "inline_text _ = None"

fun flat_block_ok :: "flat_block \<Rightarrow> bool" where
  "flat_block_ok (Flat_Block tag es) \<longleftrightarrow> tag \<noteq> TagOther \<and> (\<forall>e\<in>set es. inline_text e \<noteq> None)"

fun block_end :: "md_tag \<Rightarrow> md_tag_end" where
  "block_end TagParagraph = EndParagraph"
| "block_end (TagHeading _) = EndHeading"
| "block_end (TagCodeBlock _) = EndCodeBlock"
| "block_end TagBlockQuote = EndBlockQuote"
| "block_end TagItem = EndItem"
| "block_end TagTableRow = EndTableRow"
| "block_end TagOther = EndOther"

fun block_events :: "flat_block \<Rightarrow> md_event list" where
  "block_events (Flat_Block tag es) = EvStart tag # es @ [EvEnd (block_end tag)]"

definition block_intro :: "md_tag \<Rightarrow> rstr" where
  "block_intro tag = (case tag of TagCodeBlock (Some lang) \<Rightarrow> if lang \<noteq> [] then lang @ [10] else [] | _ \<Rightarrow> [])"

fun block_text :: "flat_block \<Rightarrow> rstr" where
  "block_text (Flat_Block tag es) = block_intro tag @ concat (map (\<lambda>e. the (inline_text e)) es)"

definition indexed_parts :: "index_env \<Rightarrow> rstr \<Rightarrow> rstr list" where
  "indexed_parts env s =
     (if str_trim s = [] then [] else filter (\<lambda>p. normalize_text (env_lower env) p \<noteq> []) (split_chunk_text (str_trim s)))"

definition raw_chunks :: "extract_state \<Rightarrow> rstr list" where
  "raw_chunks st = map ch_raw_text (doc_chunks (xs_sections st))"

lemma append_chunk_raw:
  "xs_sections st \<noteq> [] \<Longrightarrow>
   raw_chunks (append_chunk env kind raw st) = raw_chunks st @ filter (\<lambda>p. normalize_text (env_lower env) p \<noteq> []) (split_chunk_text raw) \<and>
   xs_sections (append_chunk env kind raw st) \<noteq> [] \<and> xs_buffer (append_chunk env kind raw st) = xs_buffer st"
proof -
  have "xs_sections st \<noteq> [] \<Longrightarrow>
    raw_chunks (fold (append_part env kind) ps st) = raw_chunks st @ filter (\<lambda>p. normalize_text (env_lower env) p \<noteq> []) ps \<and>
    xs_sections (fold (append_part env kind) ps st) \<noteq> [] \<and> xs_buffer (fold (append_part env kind) ps st) = xs_buffer st" for ps
    by (induction ps arbitrary: st) (auto simp: append_part_def raw_chunks_def Let_def doc_chunks_push push_chunk_facts)
  then show "xs_sections st \<noteq> [] \<Longrightarrow> ?thesis" unfolding append_chunk_def by blast
qed

lemma flush_buffer_raw:
  assumes "xs_sections st \<noteq> []"
  shows "raw_chunks (flush_buffer env st) = raw_chunks st @ (case xs_buffer st of None \<Rightarrow> [] | Some b \<Rightarrow> indexed_parts env (bb_raw b))"
    and "xs_sections (flush_buffer env st) \<noteq> []" and "xs_buffer (flush_buffer env st) = None"
proof -
  have h: "xs_sections (push_heading l r s) \<noteq> []" "raw_chunks (push_heading l r s) = raw_chunks s" "xs_buffer (push_heading l r s) = xs_buffer s" for l r s
    by (simp_all add: push_heading_def raw_chunks_def Let_def)
  have "raw_chunks (st\<lparr>xs_buffer := None\<rparr>) = raw_chunks st" by (simp add: raw_chunks_def)
  then show "raw_chunks (flush_buffer env st) = raw_chunks st @ (case xs_buffer st of None \<Rightarrow> [] | Some b \<Rightarrow> indexed_parts env (bb_raw b))"
    and "xs_sections (flush_buffer env st) \<noteq> []" and "xs_buffer (flush_buffer env st) = None"
    using assms append_chunk_raw h
    by (auto simp: flush_buffer_def indexed_parts_def Let_def split: option.split block_kind.split)
qed

lemma push_text_Nil [simp]: "push_text [] st = st"
  by (cases "xs_buffer st") (simp_all add: push_text_def)

lemma push_text_append: "push_text t (push_text s st) = push_text (s @ t) st"
  by (simp add: push_text_def option.map_comp comp_def)

lemma inline_run:
  "\<forall>e\<in>set es. inline_text e \<noteq> None \<Longrightarrow> fold (handle_event env) es st = push_text (concat (map (\<lambda>e. the (inline_text e)) es)) st"
proof (induction es arbitrary: st)
  case (Cons e es)
  have "handle_event env e st = push_text (the (inline_text e)) st" using Cons.prems by (cases e) auto
  then show ?case using Cons by (simp add: push_text_append)
qed simp

lemma open_flat_block:
  assumes "tag \<noteq> TagOther"
  shows "xs_sections (push_text s (handle_event env (EvStart tag) st)) = xs_sections st"
    "raw_chunks (push_text s (handle_event env (EvStart tag) st)) = raw_chunks st"
    "\<exists>b. xs_buffer (push_text s (handle_event env (EvStart tag) st)) = Some b \<and> bb_raw b = block_intro tag @ s"
  using assms by (cases tag; auto simp: open_block_def push_text_def raw_chunks_def block_intro_def split: option.splits)+

lemma flat_blocks_run:
  assumes "\<forall>b\<in>set bs. flat_block_ok b" "xs_sections st \<noteq> []" "xs_buffer st = None"
  shows "raw_chunks (flush_buffer env (fold (handle_event env) (concat (map block_events bs)) st)) =
    raw_chunks st @ concat (map (indexed_parts env \<circ> block_text) bs)"
  using assms
proof (induction bs arbitrary: st)
  case (Cons b bs)
  obtain tag es where b: "b = Flat_Block tag es" by (cases b)
  have ok: "tag \<noteq> TagOther" "\<forall>e\<in>set es. inline_text e \<noteq> None" using Cons.prems(1) b by auto
  define s where "s = concat (map (\<lambda>e. the (inline_text e)) es)"
  define st1 where "st1 = push_text s (handle_event env (EvStart tag) st)"
  have run: "fold (handle_event env) (block_events b) st = flush_buffer env st1"
    using ok b inline_run[OF ok(2), of env] by (cases tag) (auto simp: st1_def s_def)
  obtain buf where buf: "xs_buffer st1 = Some buf" "bb_raw buf = block_text b"
    using open_flat_block(3)[OF ok(1), of s env st] b by (auto simp: st1_def s_def)
  have st1: "xs_sections st1 \<noteq> []" "raw_chunks st1 = raw_chunks st"
    using Cons.prems open_flat_block(1,2)[OF ok(1)] by (simp_all add: st1_def)
  show ?case using Cons flush_buffer_raw[OF st1(1), of env] buf st1(2) by (simp add: run)
qed (simp add: flush_buffer_raw)

text \<open>
  In a document without nested blocks the text of every block is indexed, in order: the chunks are the parts of the blocks.
\<close>

theorem flat_document_indexed:
  "env_parse_markdown env (snd (split_frontmatter env markdown)) = concat (map block_events bs) \<Longrightarrow>
   \<forall>b\<in>set bs. flat_block_ok b \<Longrightarrow>
   map ch_raw_text (doc_chunks (doc_sections (extract_document env markdown))) = concat (map (indexed_parts env \<circ> block_text) bs)"
proof -
  assume parse: "env_parse_markdown env (snd (split_frontmatter env markdown)) = concat (map block_events bs)"
    and ok: "\<forall>b\<in>set bs. flat_block_ok b"
  obtain fm body where fb: "split_frontmatter env markdown = (fm, body)" by fastforce
  define st where "st = initial_state (frontmatter_title fm)"
  have st: "xs_sections st \<noteq> []" "xs_buffer st = None" "raw_chunks st = []" by (simp_all add: st_def initial_state_def raw_chunks_def)
  have "doc_sections (extract_document env markdown) = xs_sections (flush_buffer env (fold (handle_event env) (concat (map block_events bs)) st))"
    using parse fb by (simp add: extract_document_def st_def Let_def)
  then show ?thesis using flat_blocks_run[OF ok st(1,2), of env] st(3) by (simp add: raw_chunks_def)
qed

theorem flat_document_indexed_witness:
  "map ch_raw_text (doc_chunks (doc_sections (extract_document
     (sample_env [EvStart (TagHeading 1), EvText [65], EvEnd EndHeading, EvStart TagItem, EvText [66], EvSoftBreak, EvText [67], EvEnd EndItem])
     [35, 32, 65]))) = [[65], [66, 10, 67]]"
proof -
  let ?bs = "[Flat_Block (TagHeading 1) [EvText [65]], Flat_Block TagItem [EvText [66], EvSoftBreak, EvText [67]]]"
  have "\<forall>b\<in>set ?bs. flat_block_ok b" by simp
  then show ?thesis
    using flat_document_indexed[of "sample_env (concat (map block_events ?bs))" "[35, 32, 65]" ?bs]
    by (simp add: sample_env_def indexed_parts_def block_intro_def split_chunk_text_def CHUNK_MAX_CHARS_def normalize_text_def std_simps)
qed

text \<open>
  A list inside a list item: the parser reports the text of the outer item, then the inner list. The buffer of the outer
  item is replaced by the one of the inner item, and its text is not indexed.
\<close>

definition nested_list :: "rstr \<Rightarrow> rstr \<Rightarrow> md_event list" where
  "nested_list outer inner =
     [EvStart TagOther, EvStart TagItem, EvText outer, EvStart TagOther, EvStart TagItem, EvText inner, EvEnd EndItem,
      EvEnd EndOther, EvEnd EndItem, EvEnd EndOther]"

lemma nested_item_text_lost:
  "raw_chunks (flush_buffer env (fold (handle_event env) (nested_list outer inner) (initial_state title))) = indexed_parts env inner"
proof -
  define st where "st = push_text inner (handle_event env (EvStart TagItem) (push_text outer (handle_event env (EvStart TagItem) (initial_state title))))"
  have "raw_chunks st = []" "xs_sections st \<noteq> []" "map_option bb_raw (xs_buffer st) = Some inner"
    by (simp_all add: st_def raw_chunks_def initial_state_def open_block_def push_text_def)
  moreover have "fold (handle_event env) (nested_list outer inner) (initial_state title) = flush_buffer env (flush_buffer env st)"
    by (simp add: nested_list_def st_def)
  ultimately show ?thesis by (auto simp: flush_buffer_raw)
qed

end
