(* ===== verification/Link_Resolution.thy ===== *)
theory Link_Resolution
  imports Rust_Path
begin

text \<open>
  \<open>search/wikilink.rs\<close>: which note a link means. A \<open>HashMap\<close> is an association list with the newest entry first; the
  candidates of a basename keep the order in which the documents were given.
\<close>

section \<open>Documents\<close>

definition RESOLUTION_AMBIGUOUS :: rstr where
  "RESOLUTION_AMBIGUOUS = lit ''ambiguous''"

definition RESOLUTION_BASENAME :: rstr where
  "RESOLUTION_BASENAME = lit ''basename''"

definition RESOLUTION_EXACT :: rstr where
  "RESOLUTION_EXACT = lit ''exact''"

definition RESOLUTION_UNRESOLVED :: rstr where
  "RESOLUTION_UNRESOLVED = lit ''unresolved''"

record doc_identity =
  di_note_uid :: int
  di_doc_id :: rstr
  di_normalized_path :: rstr
  di_basename :: rstr

record link_resolution =
  resolved_target_uid :: "int option"
  resolved_doc_id :: "rstr option"
  resolution_kind :: rstr
  folder_distance :: "int option"

definition unresolved :: link_resolution where
  "unresolved = \<lparr>resolved_target_uid = None, resolved_doc_id = None, resolution_kind = RESOLUTION_UNRESOLVED, folder_distance = None\<rparr>"

definition ambiguous :: link_resolution where
  "ambiguous = \<lparr>resolved_target_uid = None, resolved_doc_id = None, resolution_kind = RESOLUTION_AMBIGUOUS, folder_distance = None\<rparr>"

record doc_index =
  by_normalized_path :: "(rstr \<times> doc_identity) list"
  by_basename :: "(rstr \<times> doc_identity list) list"

definition index_doc :: "doc_identity \<Rightarrow> doc_index \<Rightarrow> doc_index" where
  "index_doc doc index =
     \<lparr>by_normalized_path = (di_normalized_path doc, doc) # by_normalized_path index,
      by_basename =
        (di_basename doc,
          (case map_of (by_basename index) (di_basename doc) of Some docs \<Rightarrow> docs | None \<Rightarrow> []) @ [doc]) # by_basename index\<rparr>"

definition doc_index_new :: "doc_identity list \<Rightarrow> doc_index" where
  "doc_index_new docs = fold index_doc docs \<lparr>by_normalized_path = [], by_basename = []\<rparr>"

definition strip_ascii_suffix :: "rstr \<Rightarrow> rstr \<Rightarrow> rstr option" where
  "strip_ascii_suffix s suffix =
     (if str_ends_with (to_ascii_lowercase s) suffix then Some (take (length s - length suffix) s) else None)"

definition strip_markdown_extension :: "rstr \<Rightarrow> rstr" where
  "strip_markdown_extension s =
     (case strip_ascii_suffix s (lit ''.markdown'') of
        Some stripped \<Rightarrow> stripped
      | None \<Rightarrow> (case strip_ascii_suffix s (lit ''.md'') of Some stripped \<Rightarrow> stripped | None \<Rightarrow> s))"

definition normalize_link_target :: "(rstr \<Rightarrow> rstr) \<Rightarrow> rstr \<Rightarrow> rstr" where
  "normalize_link_target lower s = strip_markdown_extension (lower (str_replace_char 92 47 (str_trim s)))"

definition basename_from_normalized :: "rstr \<Rightarrow> rstr" where
  "basename_from_normalized s = last (str_split (\<lambda>c. c = 47) s)"

text \<open>\<open>rfind('/')\<close>: everything in front of the last slash.\<close>

definition folder_label :: "rstr \<Rightarrow> rstr" where
  "folder_label path =
     (if 47 \<in> set path then str_join [47] (butlast (str_split (\<lambda>c. c = 47) path)) else lit ''Root'')"

definition doc_display_name :: "rstr \<Rightarrow> rstr" where
  "doc_display_name path = strip_markdown_extension (last (str_split (\<lambda>c. c = 47) path))"

definition folder_parts :: "rstr \<Rightarrow> rstr list" where
  "folder_parts path = filter (\<lambda>part. part \<noteq> []) (butlast (str_split (\<lambda>c. c = 47) path))"

fun common_parts :: "rstr list \<Rightarrow> rstr list \<Rightarrow> nat" where
  "common_parts (s # ss) (c # cs) = (if s = c then Suc (common_parts ss cs) else 0)"
| "common_parts _ _ = 0"

definition folder_distance_between :: "rstr \<Rightarrow> rstr \<Rightarrow> nat" where
  "folder_distance_between source_doc_id candidate_doc_id =
     (let source_parts = folder_parts source_doc_id;
          candidate_parts = folder_parts candidate_doc_id;
          common = common_parts source_parts candidate_parts
      in (length source_parts - common) + (length candidate_parts - common))"

definition to_doc_identity :: "(rstr \<Rightarrow> rstr) \<Rightarrow> int \<Rightarrow> rstr \<Rightarrow> doc_identity" where
  "to_doc_identity lower note_uid doc_id =
     (let normalized_path = normalize_link_target lower doc_id
      in \<lparr>di_note_uid = note_uid, di_doc_id = doc_id, di_normalized_path = normalized_path,
          di_basename = basename_from_normalized normalized_path\<rparr>)"

section \<open>Resolution\<close>

definition usize_max :: nat where
  "usize_max = 18446744073709551615"

definition resolved_to :: "doc_identity \<Rightarrow> rstr \<Rightarrow> nat \<Rightarrow> link_resolution" where
  "resolved_to doc kind distance =
     \<lparr>resolved_target_uid = Some (di_note_uid doc), resolved_doc_id = Some (di_doc_id doc), resolution_kind = kind,
      folder_distance = Some (wrap_i64 (int distance))\<rparr>"

text \<open>One round of the loop over the candidates: \<open>(best_doc, best_distance, has_tie)\<close>.\<close>

fun best_step :: "rstr \<Rightarrow> doc_identity \<Rightarrow> doc_identity option \<times> nat \<times> bool \<Rightarrow> doc_identity option \<times> nat \<times> bool" where
  "best_step source candidate (best_doc, best_distance, has_tie) =
     (let distance = folder_distance_between source (di_doc_id candidate)
      in if distance < best_distance then (Some candidate, distance, False)
         else if distance = best_distance then (best_doc, best_distance, True)
         else (best_doc, best_distance, has_tie))"

definition resolve_basename :: "rstr \<Rightarrow> rstr \<Rightarrow> doc_index \<Rightarrow> link_resolution" where
  "resolve_basename source base index =
     (case map_of (by_basename index) base of
        None \<Rightarrow> unresolved
      | Some candidates \<Rightarrow>
          if length candidates = 1
          then resolved_to (hd candidates) RESOLUTION_BASENAME (folder_distance_between source (di_doc_id (hd candidates)))
          else
            (case fold (best_step source) candidates (None, usize_max, False) of
               (best_doc, best_distance, has_tie) \<Rightarrow>
                 if has_tie then ambiguous
                 else (case best_doc of None \<Rightarrow> unresolved | Some doc \<Rightarrow> resolved_to doc RESOLUTION_BASENAME best_distance)))"

definition resolve_wikilink :: "(rstr \<Rightarrow> rstr) \<Rightarrow> rstr \<Rightarrow> rstr \<Rightarrow> doc_index \<Rightarrow> link_resolution" where
  "resolve_wikilink lower source raw_target index =
     (let normalized_target = normalize_link_target lower raw_target
      in if normalized_target = [] then unresolved
         else
           (case (if 47 \<in> set normalized_target then map_of (by_normalized_path index) normalized_target else None) of
              Some doc \<Rightarrow> resolved_to doc RESOLUTION_EXACT (folder_distance_between source (di_doc_id doc))
            | None \<Rightarrow> resolve_basename source (basename_from_normalized normalized_target) index))"

section \<open>The index\<close>

lemma index_fold:
  "map_of (by_normalized_path (fold index_doc docs index)) p =
     (case map_of (rev (map (\<lambda>d. (di_normalized_path d, d)) docs)) p of Some d \<Rightarrow> Some d | None \<Rightarrow> map_of (by_normalized_path index) p)"
  by (induction docs arbitrary: index) (auto simp: index_doc_def map_add_def split: option.splits)

lemma index_basename_fold:
  "map_of (by_basename (fold index_doc docs index)) b =
     (let old = map_of (by_basename index) b; new = filter (\<lambda>d. di_basename d = b) docs
      in if new = [] then old else Some ((case old of Some ds \<Rightarrow> ds | None \<Rightarrow> []) @ new))"
  by (induction docs arbitrary: index) (auto simp: index_doc_def Let_def split: option.splits)

lemma index_basename:
  "map_of (by_basename (doc_index_new docs)) b =
     (let new = filter (\<lambda>d. di_basename d = b) docs in if new = [] then None else Some new)"
  by (simp add: doc_index_new_def index_basename_fold Let_def)

lemma index_path:
  "map_of (by_normalized_path (doc_index_new docs)) p = map_of (rev (map (\<lambda>d. (di_normalized_path d, d)) docs)) p"
  by (simp add: doc_index_new_def index_fold split: option.split)

section \<open>The closest candidate\<close>

lemma str_split_length: "length (str_split p s) \<le> Suc (length s)"
proof (induction s)
  case (Cons c s)
  then show ?case by (cases "str_split p s") auto
qed simp

lemma folder_parts_length: "length (folder_parts path) \<le> length path"
proof -
  from str_split_length[of "\<lambda>c. c = 47" path] have "length (butlast (str_split (\<lambda>c. c = 47) path)) \<le> length path" by simp
  then show ?thesis unfolding folder_parts_def by (rule le_trans[OF length_filter_le])
qed

lemma folder_distance_bound: "folder_distance_between s d \<le> length s + length d"
  using folder_parts_length[of s] folder_parts_length[of d] by (simp add: folder_distance_between_def Let_def)

lemma common_parts_same [simp]: "common_parts ps ps = length ps"
  by (induction ps) auto

lemma common_parts_le: "common_parts ss cs \<le> length ss \<and> common_parts ss cs \<le> length cs"
  by (induction ss cs rule: common_parts.induct) auto

lemma common_parts_all: "common_parts ss cs = length ss \<Longrightarrow> common_parts ss cs = length cs \<Longrightarrow> ss = cs"
  by (induction ss cs rule: common_parts.induct) (auto split: if_splits)

lemma common_parts_sym: "common_parts ss cs = common_parts cs ss"
proof (induction ss arbitrary: cs)
  case Nil
  show ?case by (cases cs) auto
next
  case (Cons s ss)
  then show ?case by (cases cs) auto
qed

lemma common_parts_take: "take (common_parts ss cs) ss = take (common_parts ss cs) cs"
  by (induction ss cs rule: common_parts.induct) auto

text \<open>The number of steps up from the folder of the source and down to the folder of the candidate: a metric on folders.\<close>

lemma folder_distance_0_iff: "folder_distance_between s d = 0 \<longleftrightarrow> folder_parts s = folder_parts d"
  using common_parts_le[of "folder_parts s" "folder_parts d"] common_parts_all[of "folder_parts s" "folder_parts d"]
  by (auto simp: folder_distance_between_def Let_def)

lemma folder_distance_sym: "folder_distance_between s d = folder_distance_between d s"
  by (simp add: folder_distance_between_def Let_def common_parts_sym[of "folder_parts s"] add.commute)

lemma best_fold:
  fixes f :: "'a \<Rightarrow> nat"
  assumes "\<forall>d\<in>set cs. f d < m" and "\<And>c st. step c st = (case st of (b, n, t) \<Rightarrow> if f c < n then (Some c, f c, False) else if f c = n then (b, n, True) else (b, n, t))"
  shows "cs \<noteq> [] \<Longrightarrow> \<exists>d n. fold step cs (None, m, False) = (Some d, n, length (filter (\<lambda>c. f c = n) cs) \<noteq> 1) \<and> f d = n \<and> d \<in> set cs \<and> (\<forall>c\<in>set cs. n \<le> f c)"
  using assms(1)
proof (induction cs rule: rev_induct)
  case (snoc c cs)
  show ?case
  proof (cases "cs = []")
    case True
    then show ?thesis using snoc assms(2) by simp
  next
    case False
    then obtain d n where dn: "fold step cs (None, m, False) = (Some d, n, length (filter (\<lambda>c. f c = n) cs) \<noteq> 1)"
      "f d = n" "d \<in> set cs" "\<forall>c\<in>set cs. n \<le> f c" using snoc by auto
    have pos: "0 < length (filter (\<lambda>c. f c = n) cs)" using dn(2,3) by (auto simp: filter_empty_conv)
    have run: "fold step (cs @ [c]) (None, m, False) =
        (if f c < n then (Some c, f c, False) else if f c = n then (Some d, n, True) else (Some d, n, length (filter (\<lambda>c. f c = n) cs) \<noteq> 1))"
      using dn(1) assms(2)[of c "(Some d, n, length (filter (\<lambda>c. f c = n) cs) \<noteq> 1)"] by simp
    consider "f c < n" | "f c = n" | "n < f c" by linarith
    then show ?thesis
    proof cases
      case 1
      have "filter (\<lambda>x. f x = f c) cs = []" using 1 dn(4) by (fastforce simp: filter_empty_conv)
      then show ?thesis using 1 dn(2-4) unfolding run by (intro exI[of _ c] exI[of _ "f c"]) auto
    qed (use dn(2-4) pos in \<open>unfold run, auto\<close>)
  qed
qed simp

text \<open>The candidates at the least distance from the source.\<close>

definition closest :: "rstr \<Rightarrow> doc_identity list \<Rightarrow> doc_identity list" where
  "closest source cands =
     filter (\<lambda>c. \<forall>c'\<in>set cands. folder_distance_between source (di_doc_id c) \<le> folder_distance_between source (di_doc_id c')) cands"

definition closest_resolution :: "rstr \<Rightarrow> doc_identity list \<Rightarrow> link_resolution" where
  "closest_resolution source cands =
     (case closest source cands of
        [] \<Rightarrow> unresolved
      | [doc] \<Rightarrow> resolved_to doc RESOLUTION_BASENAME (folder_distance_between source (di_doc_id doc))
      | _ \<Rightarrow> ambiguous)"

lemma resolve_basename_closest:
  assumes "\<forall>d\<in>set docs. length source + length (di_doc_id d) < usize_max"
  shows "resolve_basename source base (doc_index_new docs) = closest_resolution source (filter (\<lambda>d. di_basename d = base) docs)"
proof -
  define cs where "cs = filter (\<lambda>d. di_basename d = base) docs"
  define f where "f = (\<lambda>d :: doc_identity. folder_distance_between source (di_doc_id d))"
  consider "cs = []" | "length cs = 1" | "2 \<le> length cs" by (cases cs; cases "tl cs") auto
  then show ?thesis
  proof cases
    case 2
    then obtain d where "cs = [d]" by (auto simp: length_Suc_conv)
    then show ?thesis by (simp add: resolve_basename_def index_basename cs_def[symmetric] closest_resolution_def closest_def)
  next
    case 3
    have "\<forall>d\<in>set cs. f d < usize_max"
      using assms folder_distance_bound[of source] by (auto simp: f_def cs_def intro: le_less_trans)
    moreover have "best_step source c st = (case st of (b, n, t) \<Rightarrow> if f c < n then (Some c, f c, False) else if f c = n then (b, n, True) else (b, n, t))" for c st
      by (cases st) (simp add: f_def Let_def)
    moreover have "cs \<noteq> []" using 3 by auto
    ultimately obtain d n where dn: "fold (best_step source) cs (None, usize_max, False) = (Some d, n, length (filter (\<lambda>c. f c = n) cs) \<noteq> 1)"
      "f d = n" "d \<in> set cs" "\<forall>c\<in>set cs. n \<le> f c" using best_fold[of cs f usize_max "best_step source"] by blast
    have cl: "closest source cs = filter (\<lambda>c. f c = n) cs"
      unfolding closest_def using dn(2-4) by (intro filter_cong) (auto simp: f_def intro: antisym)
    have "d \<in> set (filter (\<lambda>c. f c = n) cs)" using dn by simp
    then show ?thesis using 3 dn(1,2)
      by (cases "filter (\<lambda>c. f c = n) cs"; cases "tl (filter (\<lambda>c. f c = n) cs)")
         (auto simp: resolve_basename_def index_basename cs_def[symmetric] closest_resolution_def cl f_def)
  qed (simp add: resolve_basename_def index_basename cs_def[symmetric] closest_resolution_def closest_def)
qed

text \<open>
  C31. A link is resolved as specified: to the document with its path, else to the only document at the least folder distance among
  those with its name; a tie is reported as ambiguous and a name that no document has as unresolved.
\<close>

theorem resolve_wikilink_exact:
  "\<forall>d\<in>set docs. length source + length (di_doc_id d) < usize_max \<Longrightarrow>
   resolve_wikilink lower source raw_target (doc_index_new docs) =
     (let target = normalize_link_target lower raw_target
      in if target = [] then unresolved
         else if 47 \<in> set target \<and> target \<in> di_normalized_path ` set docs
         then (let doc = last (filter (\<lambda>d. di_normalized_path d = target) docs)
               in resolved_to doc RESOLUTION_EXACT (folder_distance_between source (di_doc_id doc)))
         else closest_resolution source (filter (\<lambda>d. di_basename d = basename_from_normalized target) docs))"
proof -
  assume bound: "\<forall>d\<in>set docs. length source + length (di_doc_id d) < usize_max"
  have path: "map_of (rev (map (\<lambda>d. (di_normalized_path d, d)) docs)) p =
      (if p \<in> di_normalized_path ` set docs then Some (last (filter (\<lambda>d. di_normalized_path d = p) docs)) else None)" for p
    by (induction docs) (auto simp: map_add_def filter_empty_conv split: option.splits)
  show ?thesis
    by (auto simp: resolve_wikilink_def Let_def index_path path resolve_basename_closest[OF bound])
qed

theorem resolve_wikilink_exact_witness:
  "resolve_wikilink to_ascii_lowercase (lit ''a/b/n.md'') (lit ''X'')
     (doc_index_new [to_doc_identity to_ascii_lowercase 1 (lit ''a/x.md''), to_doc_identity to_ascii_lowercase 2 (lit ''a/b/x.md'')]) =
   resolved_to (to_doc_identity to_ascii_lowercase 2 (lit ''a/b/x.md'')) RESOLUTION_BASENAME 0"
proof -
  let ?docs = "[to_doc_identity to_ascii_lowercase 1 (lit ''a/x.md''), to_doc_identity to_ascii_lowercase 2 (lit ''a/b/x.md'')]"
  have "\<forall>d\<in>set ?docs. length (lit ''a/b/n.md'') + length (di_doc_id d) < usize_max"
    by (simp add: to_doc_identity_def usize_max_def Let_def)
  from resolve_wikilink_exact[OF this, of to_ascii_lowercase "lit ''X''"] show ?thesis
    by (simp add: Let_def to_doc_identity_def normalize_link_target_def strip_markdown_extension_def strip_ascii_suffix_def
        basename_from_normalized_def closest_resolution_def closest_def folder_distance_between_def folder_parts_def std_simps)
qed

text \<open>A note is found under its own path: the link text is the path with or without the extension, in any case.\<close>

lemma own_path_resolves:
  "docs = map (\<lambda>(uid, doc_id). to_doc_identity lower uid doc_id) ids \<Longrightarrow> distinct (map di_normalized_path docs) \<Longrightarrow>
   (uid, doc_id) \<in> set ids \<Longrightarrow> normalize_link_target lower raw_target = normalize_link_target lower doc_id \<Longrightarrow>
   47 \<in> set (normalize_link_target lower doc_id) \<Longrightarrow>
   resolved_target_uid (resolve_wikilink lower source raw_target (doc_index_new docs)) = Some uid \<and>
   resolved_doc_id (resolve_wikilink lower source raw_target (doc_index_new docs)) = Some doc_id"
proof -
  assume a: "docs = map (\<lambda>(uid, doc_id). to_doc_identity lower uid doc_id) ids" "distinct (map di_normalized_path docs)"
    "(uid, doc_id) \<in> set ids" "normalize_link_target lower raw_target = normalize_link_target lower doc_id"
    "47 \<in> set (normalize_link_target lower doc_id)"
  define doc where "doc = to_doc_identity lower uid doc_id"
  have doc: "doc \<in> set docs" "di_normalized_path doc = normalize_link_target lower doc_id" using a(1,3) by (force simp: doc_def to_doc_identity_def Let_def)+
  have "map_of (by_normalized_path (doc_index_new docs)) (normalize_link_target lower doc_id) = Some doc"
    unfolding index_path using a(2) doc by (intro map_of_is_SomeI) (force simp: rev_map[symmetric] comp_def)+
  then show ?thesis using a(4,5)
    by (auto simp: resolve_wikilink_def Let_def resolved_to_def doc_def to_doc_identity_def)
qed

end
