(* ===== verification/Protected_Paths.thy ===== *)
theory Protected_Paths
  imports Vault_Paths Utf8
begin

text \<open>
  \<open>knowledge/protected_paths.rs\<close>: which paths a language model may change directly. The memory, decision and wiki folders
  of the vault are only changed through decision documents; \<open>guard_ai_raw_mutation_path\<close> refuses them however they are
  written (case, dots, percent encoding, symlinks).

  The Unicode tables are the parameters \<open>lower\<close> (\<open>str::to_lowercase\<close>) and \<open>nfc\<close> (the normalizer of \<open>icu_normalizer\<close>). What
  the guard asks the operating system is the record \<open>guard_fs\<close>.
\<close>

section \<open>Paths as text\<close>

definition PROTECTED_PREFIXES :: "rstr list" where
  "PROTECTED_PREFIXES = [lit ''Knowledge/memory'', lit ''Knowledge/decisions'', lit ''Knowledge/wiki'']"

record protected_path_error =
  ppe_message :: rstr

abbreviation pp_err :: "rstr \<Rightarrow> protected_path_error + 'a" where
  "pp_err message \<equiv> Inl \<lparr>ppe_message = message\<rparr>"

definition hex_value :: "u8 \<Rightarrow> u8 option" where
  "hex_value b =
     (if 48 \<le> b \<and> b \<le> 57 then Some (b - 48)
      else if 97 \<le> b \<and> b \<le> 102 then Some (b - 97 + 10)
      else if 65 \<le> b \<and> b \<le> 70 then Some (b - 65 + 10)
      else None)"

fun percent_decode_bytes :: "bytes \<Rightarrow> protected_path_error + bytes" where
  "percent_decode_bytes [] = Inr []"
| "percent_decode_bytes (b # bs) =
     (if b \<noteq> 37 then res_bind (percent_decode_bytes bs) (\<lambda>out. Inr (b # out))
      else
        (case bs of
           h # l # rest \<Rightarrow>
             res_bind (ok_or (hex_value h) \<lparr>ppe_message = lit ''Malformed percent encoding''\<rparr>) (\<lambda>high.
             res_bind (ok_or (hex_value l) \<lparr>ppe_message = lit ''Malformed percent encoding''\<rparr>) (\<lambda>low.
             (let decoded = or (push_bit 4 high) low
              in if decoded = 47 \<or> decoded = 92 then pp_err (lit ''Percent-encoded separators are not allowed'')
                 else res_bind (percent_decode_bytes rest) (\<lambda>out. Inr (decoded # out)))))
         | _ \<Rightarrow> pp_err (lit ''Malformed percent encoding'')))"

fun contains_percent_encoding :: "bytes \<Rightarrow> bool" where
  "contains_percent_encoding (a # b # c # bs) \<longleftrightarrow>
     (a = 37 \<and> hex_value b \<noteq> None \<and> hex_value c \<noteq> None) \<or> contains_percent_encoding (b # c # bs)"
| "contains_percent_encoding _ \<longleftrightarrow> False"

definition percent_decode_segment :: "rstr \<Rightarrow> protected_path_error + rstr" where
  "percent_decode_segment s =
     res_bind (percent_decode_bytes (as_bytes s)) (\<lambda>output.
     res_bind (ok_or (from_utf8 output) \<lparr>ppe_message = lit ''Invalid UTF-8''\<rparr>) (\<lambda>decoded.
     if contains_percent_encoding (as_bytes decoded) then pp_err (lit ''Repeated percent encoding is not allowed'')
     else Inr decoded))"

definition has_windows_drive_prefix :: "rstr \<Rightarrow> bool" where
  "has_windows_drive_prefix s = (case as_bytes s of a # b # _ \<Rightarrow> is_ascii_alphabetic (unat a) \<and> b = 58 | _ \<Rightarrow> False)"

fun normalize_segments :: "(rstr \<Rightarrow> rstr) \<Rightarrow> rstr list \<Rightarrow> rstr list \<Rightarrow> protected_path_error + rstr list" where
  "normalize_segments nfc [] segments = Inr segments"
| "normalize_segments nfc (raw # raws) segments =
     (if raw = [] then normalize_segments nfc raws segments
      else
        res_bind (percent_decode_segment raw) (\<lambda>decoded.
        (let segment = nfc decoded
         in if segment = lit ''.'' then normalize_segments nfc raws segments
            else if segment = lit ''..'' then pp_err (lit ''Path traversal is not allowed'')
            else normalize_segments nfc raws (segments @ [segment]))))"

definition normalize_ai_raw_mutation_path :: "(rstr \<Rightarrow> rstr) \<Rightarrow> rstr \<Rightarrow> protected_path_error + rstr" where
  "normalize_ai_raw_mutation_path nfc path =
     (let trimmed = str_trim path
      in if trimmed = [] then pp_err (lit ''Path is empty'')
         else if str_starts_with trimmed [47] \<or> str_starts_with trimmed [92] \<or> has_windows_drive_prefix trimmed
         then pp_err (lit ''Absolute paths are not allowed'')
         else if list_ex (\<lambda>ch. ch = 0 \<or> is_control ch) trimmed
         then pp_err (lit ''Path contains NUL or control characters'')
         else
           res_bind (normalize_segments nfc (str_split (\<lambda>c. c = 47 \<or> c = 92) trimmed) []) (\<lambda>segments.
           if segments = [] then pp_err (lit ''Path is empty'') else Inr (str_join [47] segments)))"

definition is_protected_relative_path :: "(rstr \<Rightarrow> rstr) \<Rightarrow> rstr \<Rightarrow> bool" where
  "is_protected_relative_path lower path =
     (let key = lower path
      in list_ex (\<lambda>p. let prefix = lower p in key = prefix \<or> str_starts_with key (prefix @ [47])) PROTECTED_PREFIXES)"

section \<open>Where a path leads to\<close>

datatype link_stat = Stat_Symlink | Stat_Other | Stat_Not_Found | Stat_Error rstr

record guard_fs =
  gf_stat :: "path \<Rightarrow> link_stat"
  gf_canonicalize :: "path \<Rightarrow> rstr + path"
  gf_read_link :: "path \<Rightarrow> rstr + path"

definition path_key :: "(rstr \<Rightarrow> rstr) \<Rightarrow> path \<Rightarrow> rstr" where
  "path_key lower p = lower (str_replace_char 92 47 (path_to_str p))"

definition path_key_is_under :: "rstr \<Rightarrow> rstr \<Rightarrow> bool" where
  "path_key_is_under path protected \<longleftrightarrow> path = protected \<or> str_starts_with path (protected @ [47])"

definition protected_absolute_keys :: "(rstr \<Rightarrow> rstr) \<Rightarrow> guard_fs \<Rightarrow> path \<Rightarrow> rstr list" where
  "protected_absolute_keys lower fs vault_root =
     remdups (sort (concat (map (\<lambda>prefix.
       (let lexical = path_join vault_root prefix
        in path_key lower lexical #
           (case gf_canonicalize fs lexical of Inr canonical \<Rightarrow> [path_key lower canonical] | Inl _ \<Rightarrow> []))) PROTECTED_PREFIXES)))"

text \<open>\<open>Path::join\<close> with a path: an absolute argument replaces the path.\<close>

definition path_join_path :: "path \<Rightarrow> path \<Rightarrow> path" where
  "path_join_path p q = (if q \<noteq> [] \<and> hd q = RootDir then q else p @ filter (\<lambda>c. c \<noteq> CurDir) q)"

definition resolve_symlink_target :: "guard_fs \<Rightarrow> path \<Rightarrow> protected_path_error + path" where
  "resolve_symlink_target fs path =
     (case gf_read_link fs path of
        Inl e \<Rightarrow> pp_err e
      | Inr target \<Rightarrow>
          (let absolute = (if target \<noteq> [] \<and> hd target = RootDir then target else path_join_path (path_pop path) target)
           in case gf_canonicalize fs absolute of
                Inl e \<Rightarrow> pp_err (lit ''Symlink target cannot be resolved: '' @ e)
              | Inr p \<Rightarrow> Inr p))"

definition append_remaining :: "path \<Rightarrow> rstr list \<Rightarrow> path" where
  "append_remaining path remaining = fold (\<lambda>segment p. path_join p segment) remaining path"

fun resolve_segments :: "guard_fs \<Rightarrow> rstr list \<Rightarrow> path \<Rightarrow> protected_path_error + path" where
  "resolve_segments fs [] current = Inr current"
| "resolve_segments fs (segment # segments) current =
     (let next = path_join current segment
      in case gf_stat fs next of
           Stat_Symlink \<Rightarrow> res_bind (resolve_symlink_target fs next) (resolve_segments fs segments)
         | Stat_Other \<Rightarrow>
             resolve_segments fs segments (case gf_canonicalize fs next of Inr p \<Rightarrow> p | Inl _ \<Rightarrow> next)
         | Stat_Not_Found \<Rightarrow> Inr (append_remaining next segments)
         | Stat_Error e \<Rightarrow> pp_err e)"

definition resolved_absolute_key :: "(rstr \<Rightarrow> rstr) \<Rightarrow> guard_fs \<Rightarrow> path \<Rightarrow> rstr \<Rightarrow> protected_path_error + rstr" where
  "resolved_absolute_key lower fs vault_root normalized_path =
     res_bind (resolve_segments fs (str_split (\<lambda>c. c = 47) normalized_path)
       (case gf_canonicalize fs vault_root of Inr p \<Rightarrow> p | Inl _ \<Rightarrow> vault_root)) (\<lambda>current.
     Inr (path_key lower current))"

definition resolved_path_is_protected :: "(rstr \<Rightarrow> rstr) \<Rightarrow> guard_fs \<Rightarrow> path \<Rightarrow> rstr \<Rightarrow> protected_path_error + bool" where
  "resolved_path_is_protected lower fs vault_root normalized_path =
     res_bind (resolved_absolute_key lower fs vault_root normalized_path) (\<lambda>resolved_key.
     Inr (list_ex (path_key_is_under resolved_key) (protected_absolute_keys lower fs vault_root)))"

definition protected_path_error_for :: "rstr \<Rightarrow> protected_path_error" where
  "protected_path_error_for path =
     \<lparr>ppe_message = lit ''AI raw file mutation is not allowed for protected Knowledge path: '' @ path\<rparr>"

definition guard_ai_raw_mutation_path ::
  "(rstr \<Rightarrow> rstr) \<Rightarrow> (rstr \<Rightarrow> rstr) \<Rightarrow> guard_fs \<Rightarrow> path \<Rightarrow> rstr \<Rightarrow> protected_path_error + rstr" where
  "guard_ai_raw_mutation_path lower nfc fs vault_root path =
     res_bind (normalize_ai_raw_mutation_path nfc path) (\<lambda>normalized.
     if is_protected_relative_path lower normalized then Inl (protected_path_error_for normalized)
     else
       res_bind (resolved_path_is_protected lower fs vault_root normalized) (\<lambda>protected.
       if protected then Inl (protected_path_error_for normalized) else Inr normalized))"

lemma guard_Inr:
  "guard_ai_raw_mutation_path lower nfc fs root path = Inr n \<longleftrightarrow>
     normalize_ai_raw_mutation_path nfc path = Inr n \<and> \<not> is_protected_relative_path lower n \<and>
     resolved_path_is_protected lower fs root n = Inr False"
  by (auto simp: guard_ai_raw_mutation_path_def res_simps split: if_splits)

section \<open>Splitting and trimming\<close>

definition blank :: "rstr \<Rightarrow> bool" where
  "blank s \<longleftrightarrow> (\<forall>c\<in>set s. is_whitespace c)"

definition padded :: "rstr \<Rightarrow> rstr \<Rightarrow> bool" where
  "padded s' s \<longleftrightarrow> (\<exists>a b. blank a \<and> blank b \<and> s' = a @ s @ b)"

lemma padded_refl [simp]: "padded s s"
  unfolding padded_def blank_def by (intro exI[of _ "[]"]) simp

lemma padded_append: "blank b \<Longrightarrow> padded (s @ b) s"
  unfolding padded_def by (intro exI[of _ "[]"] exI[of _ b]) (simp add: blank_def)

lemma padded_prepend: "blank a \<Longrightarrow> padded s' s \<Longrightarrow> padded (a @ s') s"
proof -
  assume "blank a" "padded s' s"
  then obtain c d where "blank (a @ c)" "blank d" "a @ s' = (a @ c) @ s @ d" unfolding padded_def blank_def by auto
  then show ?thesis unfolding padded_def by blast
qed

lemma padded_same: "padded s' s \<Longrightarrow> \<forall>c\<in>set s'. \<not> is_whitespace c \<Longrightarrow> s = s'"
proof -
  assume "padded s' s" "\<forall>c\<in>set s'. \<not> is_whitespace c"
  then obtain a b where "blank a" "blank b" "s' = a @ s @ b" "set a = {}" "set b = {}"
    unfolding padded_def blank_def by fastforce
  then show ?thesis by simp
qed

lemma str_trim_padded: "padded s (str_trim s)"
proof -
  obtain a where a: "s = a @ dropWhile is_whitespace s" "blank a"
    unfolding blank_def by (metis takeWhile_dropWhile_id set_takeWhileD)
  define t where "t = dropWhile is_whitespace s"
  obtain b where "rev t = b @ dropWhile is_whitespace (rev t)" "blank b"
    unfolding blank_def by (metis takeWhile_dropWhile_id set_takeWhileD)
  then have "t = str_trim s @ rev b" "blank (rev b)"
    by (simp_all add: str_trim_def t_def[symmetric] blank_def) (metis rev_append rev_rev_ident)
  then show ?thesis using a unfolding padded_def t_def by metis
qed

lemma str_split_append: "\<forall>c\<in>set w. \<not> p c \<Longrightarrow> str_split p (w @ s) = (w @ hd (str_split p s)) # tl (str_split p s)"
proof (induction w)
  case Nil
  then show ?case by (cases "str_split p s") auto
qed auto

lemma str_split_append_end: "\<forall>c\<in>set w. \<not> p c \<Longrightarrow> str_split p (s @ w) = butlast (str_split p s) @ [last (str_split p s) @ w]"
proof (induction s)
  case Nil
  then show ?case by (simp add: str_split_single)
next
  case (Cons c s)
  then show ?case by (cases "str_split p s") auto
qed

lemma split_padded:
  assumes "padded s' s" "\<And>c. p c \<Longrightarrow> \<not> is_whitespace c"
  shows "list_all2 padded (str_split p s') (str_split p s)"
proof -
  obtain a b where ab: "blank a" "blank b" "s' = a @ s @ b" using assms(1) by (auto simp: padded_def)
  have np: "\<forall>c\<in>set a. \<not> p c" "\<forall>c\<in>set b. \<not> p c" using ab assms(2) by (auto simp: blank_def)
  have one: "list_all2 padded (str_split p (s @ b)) (str_split p s)"
  proof -
    have "list_all2 padded (butlast (str_split p s) @ [last (str_split p s) @ b]) (butlast (str_split p s) @ [last (str_split p s)])"
      using ab(2) padded_append by (intro list_all2_appendI) (auto simp: list_all2_refl)
    then show ?thesis using str_split_append_end[OF np(2), of s] by simp
  qed
  obtain h r where hr: "str_split p (s @ b) = h # r" by (cases "str_split p (s @ b)") auto
  obtain h2 r2 where hr2: "str_split p s = h2 # r2" by (cases "str_split p s") auto
  have "padded h h2" "list_all2 padded r r2" using one hr hr2 by auto
  moreover from this(1) have "padded (a @ h) h2" by (rule padded_prepend[OF ab(1)])
  ultimately show ?thesis using str_split_append[OF np(1), of "s @ b"] hr hr2 ab(3) by simp
qed

lemma split_two: "str_split (\<lambda>c. p c \<or> q c) s = concat (map (str_split q) (str_split p s))"
proof (induction s)
  case (Cons c s)
  show ?case by (cases "str_split p s") (use Cons in \<open>auto split: list.splits\<close>)
qed simp

section \<open>Normal form\<close>

lemma percent_decode_bytes_plain: "37 \<notin> set bs \<Longrightarrow> percent_decode_bytes bs = Inr bs"
  by (induction bs) auto

lemma contains_percent_plain: "37 \<notin> set bs \<Longrightarrow> \<not> contains_percent_encoding bs"
  by (induction bs rule: contains_percent_encoding.induct) auto

lemma percent_decode_plain:
  assumes "is_ascii_str s" "37 \<notin> set s"
  shows "percent_decode_segment s = Inr s"
proof -
  have v: "\<forall>c\<in>set s. valid_char c" using assms(1) by (auto simp: is_ascii_str_def valid_char_def)
  have "as_bytes s = map of_nat s"
    using assms(1) by (induction s) (auto simp: as_bytes_def utf8_char_def is_ascii_str_def)
  moreover have "(of_nat c :: 8 word) \<noteq> 37" if "c \<in> set s" for c
  proof
    assume "(of_nat c :: 8 word) = 37"
    then have "unat (of_nat c :: 8 word) = 37" by simp
    then show False using that assms by (auto simp: is_ascii_str_def unat_of_nat)
  qed
  ultimately have "37 \<notin> set (as_bytes s)" by force
  then show ?thesis using from_utf8_as_bytes[of s] v
    by (simp add: percent_decode_segment_def percent_decode_bytes_plain contains_percent_plain)
qed

definition nfc_ok :: "(rstr \<Rightarrow> rstr) \<Rightarrow> bool" where
  "nfc_ok nfc \<longleftrightarrow> (\<forall>s. is_ascii_str s \<longrightarrow> nfc s = s)"

definition lower_ascii_ok :: "(rstr \<Rightarrow> rstr) \<Rightarrow> bool" where
  "lower_ascii_ok lower \<longleftrightarrow> (\<forall>s. is_ascii_str s \<longrightarrow> lower s = to_ascii_lowercase s) \<and>
     (\<forall>a b. lower (a @ 47 # b) = lower a @ 47 # lower b)"

definition dot_segment :: "rstr \<Rightarrow> bool" where
  "dot_segment w \<longleftrightarrow> w = [] \<or> w = [46]"

definition plain_name :: "rstr \<Rightarrow> bool" where
  "plain_name w \<longleftrightarrow> w \<noteq> [] \<and> (\<forall>c\<in>set w. is_ascii_alphabetic c)"

lemma plain_name_ascii: "plain_name w \<Longrightarrow> is_ascii_str w \<and> 37 \<notin> set w \<and> 46 \<notin> set w \<and> 92 \<notin> set w \<and> (\<forall>c\<in>set w. \<not> is_whitespace c)"
proof -
  assume a: "plain_name w"
  have "c < 128 \<and> c \<noteq> 37 \<and> c \<noteq> 46 \<and> c \<noteq> 92 \<and> \<not> is_whitespace c" if "c \<in> set w" for c
  proof -
    have "(65 \<le> c \<and> c \<le> 90) \<or> (97 \<le> c \<and> c \<le> 122)" using a that by (simp add: plain_name_def is_ascii_alphabetic_def)
    then show ?thesis by (auto simp: is_whitespace_def)
  qed
  then show ?thesis by (auto simp: is_ascii_str_def)
qed

lemma normalize_skip:
  assumes "nfc_ok nfc" "\<forall>w\<in>set ds. dot_segment w"
  shows "normalize_segments nfc (ds @ ws) segs = normalize_segments nfc ws segs"
  using assms(2)
proof (induction ds)
  case (Cons d ds)
  have "percent_decode_segment [46] = Inr [46]" "nfc [46] = [46]"
    using assms(1) by (auto simp: nfc_ok_def is_ascii_str_def intro!: percent_decode_plain)
  then show ?case using Cons by (auto simp: dot_segment_def)
qed simp

lemma normalize_plain:
  assumes "nfc_ok nfc" "plain_name w"
  shows "normalize_segments nfc (w # ws) segs = normalize_segments nfc ws (segs @ [w])"
proof -
  have "percent_decode_segment w = Inr w" "nfc w = w" using assms plain_name_ascii[OF assms(2)] by (auto simp: nfc_ok_def intro!: percent_decode_plain)
  moreover have "w \<noteq> []" "w \<noteq> [46]" "w \<noteq> [46, 46]" using assms(2) plain_name_ascii[OF assms(2)] by (auto simp: plain_name_def)
  ultimately show ?thesis by simp
qed

lemma normalize_segments_ext: "normalize_segments nfc ws segs = Inr out \<Longrightarrow> \<exists>more. out = segs @ more"
  by (induction nfc ws segs rule: normalize_segments.induct) (fastforce simp: res_simps Let_def split: if_splits)+

lemma normalize_no_parent:
  assumes "nfc_ok nfc" "normalize_segments nfc ws segs = Inr out"
  shows "[46, 46] \<notin> set ws"
  using assms(2)
proof (induction ws arbitrary: segs)
  case (Cons w ws)
  have "percent_decode_segment [46, 46] = Inr [46, 46]" "nfc [46, 46] = [46, 46]"
    using assms(1) by (auto simp: nfc_ok_def is_ascii_str_def intro!: percent_decode_plain)
  then have "w \<noteq> [46, 46]" using Cons.prems by auto
  moreover obtain segs' where "normalize_segments nfc ws segs' = Inr out"
    using Cons.prems by (auto simp: res_simps Let_def split: if_splits)
  ultimately show ?case using Cons.IH by auto
qed simp

section \<open>The guard and the strict resolver\<close>

text \<open>A place in the memory, decision or wiki folder of the vault, also on a file system that ignores case.\<close>

definition protected_folder :: "rstr \<Rightarrow> rstr \<Rightarrow> bool" where
  "protected_folder k m \<longleftrightarrow> to_ascii_lowercase k = lit ''knowledge'' \<and>
     to_ascii_lowercase m \<in> {lit ''memory'', lit ''decisions'', lit ''wiki''}"

definition protected_place :: "path \<Rightarrow> path \<Rightarrow> bool" where
  "protected_place root p \<longleftrightarrow> (\<exists>k m rest. p = root @ Normal k # Normal m # rest \<and> protected_folder k m)"

lemma lowercase_plain: "to_ascii_lowercase w = v \<Longrightarrow> plain_name v \<Longrightarrow> plain_name w"
  by (auto simp: plain_name_def to_ascii_lowercase_def is_ascii_alphabetic_def ascii_lower_def split: if_splits)

lemma protected_folder_plain: "protected_folder k m \<Longrightarrow> plain_name k \<and> plain_name m"
proof -
  assume "protected_folder k m"
  moreover have "plain_name (lit ''knowledge'')" "plain_name (lit ''memory'')" "plain_name (lit ''decisions'')" "plain_name (lit ''wiki'')"
    by (simp_all add: plain_name_def is_ascii_alphabetic_def)
  ultimately show ?thesis unfolding protected_folder_def by (blast intro: lowercase_plain)
qed

lemma map_filter_components_split:
  assumes "List.map_filter segment_component ws = Normal k # cs"
  shows "\<exists>ds rest. ws = ds @ k # rest \<and> (\<forall>d\<in>set ds. dot_segment d) \<and> List.map_filter segment_component rest = cs"
  using assms
proof (induction ws)
  case (Cons w ws)
  show ?case
  proof (cases "dot_segment w")
    case True
    then have "segment_component w = None" by (auto simp: segment_component_def dot_segment_def)
    then have "List.map_filter segment_component ws = Normal k # cs" using Cons.prems by (simp add: List.map_filter_simps)
    from Cons.IH[OF this] obtain ds rest where "ws = ds @ k # rest" "\<forall>d\<in>set ds. dot_segment d" "List.map_filter segment_component rest = cs" by blast
    then show ?thesis using True by (intro exI[of _ "w # ds"] exI[of _ rest]) auto
  next
    case False
    then have "segment_component w = Some (if w = [46, 46] then ParentDir else Normal w)" by (auto simp: segment_component_def dot_segment_def)
    then show ?thesis using Cons.prems by (intro exI[of _ "[]"] exI[of _ ws]) (auto simp: List.map_filter_simps split: if_splits)
  qed
qed (simp add: List.map_filter_simps)

lemma lexical_no_parent:
  "ParentDir \<notin> set cs \<Longrightarrow> lexical cs ws = Some vs \<Longrightarrow> map Normal vs = map Normal ws @ filter (\<lambda>c. c \<noteq> CurDir) cs"
  by (induction cs ws rule: lexical.induct) auto

lemma parent_segment: "ParentDir \<in> set (List.map_filter segment_component ws) \<Longrightarrow> [46, 46] \<in> set ws"
  by (induction ws) (auto simp: List.map_filter_simps segment_component_def[of "_"] split: if_splits option.splits)

lemma lexical_body:
  assumes "lexical (path_components path) [] = Some ws" "ParentDir \<notin> set (List.map_filter segment_component (path_segments path))"
  shows "List.map_filter segment_component (path_segments path) = map Normal ws"
proof -
  let ?body = "List.map_filter segment_component (path_segments path)"
  have cur: "filter (\<lambda>c. c \<noteq> CurDir) ?body = ?body"
    using map_filter_Normal_ParentDir by (auto simp: filter_id_conv)
  have "path_components path = ?body \<or> path_components path = CurDir # ?body \<or> path_components path = RootDir # ?body"
    by (auto simp: path_components_def Let_def)
  then show ?thesis using lexical_no_parent[OF _ assms(1)] assms cur by auto
qed

lemma padded_dot_segment: "list_all2 padded ds es \<Longrightarrow> \<forall>d\<in>set ds. dot_segment d \<Longrightarrow> es = ds"
proof (induction rule: list_all2_induct)
  case (Cons d ds e es)
  have "\<forall>c\<in>set d. \<not> is_whitespace c" using Cons by (auto simp: dot_segment_def is_whitespace_def)
  then show ?case using Cons padded_same by auto
qed simp

lemma split_backslash_plain: "92 \<notin> set w \<Longrightarrow> str_split (\<lambda>c. c = 92) w = [w]"
  by (intro str_split_single) auto

lemma split_backslash_dot_segment: "\<forall>d\<in>set ds. dot_segment d \<Longrightarrow> concat (map (str_split (\<lambda>c. c = 92)) ds) = ds"
  by (induction ds) (auto simp: dot_segment_def)

lemma normalized_starts:
  assumes nfc: "nfc_ok nfc" and norm: "normalize_ai_raw_mutation_path nfc path = Inr n"
    and comps: "lexical (path_components path) [] = Some (k # m # ws)" and prot: "protected_folder k m"
  shows "\<exists>more. n = str_join [47] (k # m # more)"
proof -
  define t where "t = str_trim path"
  define T where "T = str_split (\<lambda>c. c = 47 \<or> c = 92) t"
  obtain segs where segs: "normalize_segments nfc T [] = Inr segs" "n = str_join [47] segs"
    using norm by (auto simp: normalize_ai_raw_mutation_path_def t_def[symmetric] T_def[symmetric] res_simps Let_def split: if_splits)
  have T: "T = concat (map (str_split (\<lambda>c. c = 92)) (str_split (\<lambda>c. c = 47) t))" unfolding T_def by (rule split_two)
  have pad: "list_all2 padded (path_segments path) (str_split (\<lambda>c. c = 47) t)"
    unfolding path_segments_def t_def by (intro split_padded str_trim_padded) (auto simp: is_whitespace_def)
  have "[46, 46] \<notin> set (path_segments path)"
  proof
    assume "[46, 46] \<in> set (path_segments path)"
    then obtain w where "padded [46, 46] w" "w \<in> set (str_split (\<lambda>c. c = 47) t)"
      using pad by (metis in_set_conv_nth list_all2_conv_all_nth)
    moreover from this(1) have "w = [46, 46]" by (intro padded_same) (auto simp: is_whitespace_def)
    ultimately have "[46, 46] \<in> set T" unfolding T by (force simp: split_backslash_plain)
    then show False using normalize_no_parent[OF nfc segs(1)] by blast
  qed
  then have nopar: "ParentDir \<notin> set (List.map_filter segment_component (path_segments path))" using parent_segment by blast
  have "List.map_filter segment_component (path_segments path) = Normal k # Normal m # map Normal ws"
    using lexical_body[OF comps nopar] by simp
  from map_filter_components_split[OF this] obtain d1 r1 where r1: "path_segments path = d1 @ k # r1" "\<forall>d\<in>set d1. dot_segment d"
    "List.map_filter segment_component r1 = Normal m # map Normal ws" by blast
  from map_filter_components_split[OF r1(3)] obtain d2 r2 where r2: "r1 = d2 @ m # r2" "\<forall>d\<in>set d2. dot_segment d" by blast
  have nows: "\<forall>c\<in>set k. \<not> is_whitespace c" "\<forall>c\<in>set m. \<not> is_whitespace c" "92 \<notin> set k" "92 \<notin> set m" "plain_name k" "plain_name m"
    using protected_folder_plain[OF prot] plain_name_ascii by blast+
  from pad obtain r2' where "str_split (\<lambda>c. c = 47) t = d1 @ k # d2 @ m # r2'"
    unfolding r1(1) r2(1) list_all2_append1 list_all2_Cons1
    using padded_dot_segment r1(2) r2(2) padded_same nows(1,2) by metis
  then have "T = d1 @ k # d2 @ m # concat (map (str_split (\<lambda>c. c = 92)) r2')"
    unfolding T using r1(2) r2(2) nows by (simp add: split_backslash_dot_segment split_backslash_plain)
  then have "normalize_segments nfc (concat (map (str_split (\<lambda>c. c = 92)) r2')) [k, m] = Inr segs"
    using segs(1) nows(5,6) r1(2) r2(2) nfc by (simp add: normalize_skip normalize_plain del: normalize_segments.simps)
  from normalize_segments_ext[OF this] show ?thesis using segs(2) by auto
qed

lemma guard_covers_resolver:
  assumes "nfc_ok nfc" "lower_ascii_ok lower" "proper_root root"
    and guard: "guard_ai_raw_mutation_path lower nfc fs root path = Inr n"
    and resolved: "resolve_vault_path_strict stat root path = Inr p"
  shows "\<not> protected_place root p"
proof
  assume "protected_place root p"
  then obtain k m rest where p: "p = root @ Normal k # Normal m # rest" "protected_folder k m"
    unfolding protected_place_def by blast
  obtain ws where ws: "lexical (path_components path) [] = Some ws" "p = root @ map Normal ws"
    using resolved unfolding resolve_strict_ok[OF assms(3)] by blast
  from ws p(1) obtain vs where "ws = k # m # vs" by (auto simp: map_eq_Cons_conv)
  then obtain more where n: "n = str_join [47] (k # m # more)"
    using normalized_starts[OF assms(1)] guard ws(1) p(2) unfolding guard_Inr by blast
  have low: "lower k = to_ascii_lowercase k" "lower m = to_ascii_lowercase m" "\<And>a b. lower (a @ 47 # b) = lower a @ 47 # lower b"
    using assms(2) protected_folder_plain[OF p(2)] plain_name_ascii by (auto simp: lower_ascii_ok_def)
  have "lower n = lower k @ 47 # lower m \<or> (\<exists>b. lower n = lower k @ 47 # lower m @ 47 # b)"
    unfolding n by (cases more) (auto simp: low(3))
  moreover have "lower (lit ''Knowledge/memory'') = lit ''knowledge/memory''" "lower (lit ''Knowledge/decisions'') = lit ''knowledge/decisions''"
    "lower (lit ''Knowledge/wiki'') = lit ''knowledge/wiki''"
    using assms(2) by (simp_all add: lower_ascii_ok_def is_ascii_str_def to_ascii_lowercase_def ascii_lower_def)
  ultimately have "is_protected_relative_path lower n"
    using p(2) low(1,2) by (auto simp: is_protected_relative_path_def PROTECTED_PREFIXES_def protected_folder_def Let_def str_starts_with_iff)
  then show False using guard by (simp add: guard_Inr)
qed

section \<open>Symlinks\<close>

text \<open>
  \<open>canonicalize\<close> resolves all symlinks: of the result it is the identity, a prefix of a path that has a canonical form has
  one and can be replaced by it, and a symlink is replaced by its target.
\<close>

definition canonical_laws :: "guard_fs \<Rightarrow> bool" where
  "canonical_laws fs \<longleftrightarrow>
     (\<forall>p c. gf_canonicalize fs p = Inr c \<longrightarrow> gf_canonicalize fs c = Inr c \<and> gf_stat fs p \<noteq> Stat_Not_Found) \<and>
     (\<forall>p w c. gf_canonicalize fs (path_join p w) = Inr c \<longrightarrow> (\<exists>d. gf_canonicalize fs p = Inr d)) \<and>
     (\<forall>p d w. gf_canonicalize fs p = Inr d \<longrightarrow> gf_canonicalize fs (path_join p w) = gf_canonicalize fs (path_join d w)) \<and>
     (\<forall>p target. gf_stat fs p = Stat_Symlink \<longrightarrow> gf_read_link fs p = Inr target \<longrightarrow>
        gf_canonicalize fs p =
          gf_canonicalize fs (if target \<noteq> [] \<and> hd target = RootDir then target else path_join_path (path_pop p) target))"

lemma append_remaining_simps [simp]:
  "append_remaining p [] = p" "append_remaining p (w # ws) = append_remaining (path_join p w) ws"
  "append_remaining p (ws @ [w]) = path_join (append_remaining p ws) w"
  by (simp_all add: append_remaining_def)

lemma canonical_parent: "canonical_laws fs \<Longrightarrow> gf_canonicalize fs (path_join p w) = Inr c \<Longrightarrow> \<exists>d. gf_canonicalize fs p = Inr d"
  unfolding canonical_laws_def by blast

lemma canonical_prefix:
  assumes "canonical_laws fs"
  shows "gf_canonicalize fs (append_remaining p ws) = Inr c \<Longrightarrow> \<exists>d. gf_canonicalize fs p = Inr d"
  by (induction ws arbitrary: c rule: rev_induct) (auto dest: canonical_parent[OF assms])

lemma canonical_replace:
  assumes "canonical_laws fs" "gf_canonicalize fs p = Inr d"
  shows "gf_canonicalize fs (append_remaining p ws) = Inr c \<longleftrightarrow> gf_canonicalize fs (append_remaining d ws) = Inr c"
proof (induction ws arbitrary: c rule: rev_induct)
  case Nil
  then show ?case using assms by (auto simp: canonical_laws_def)
next
  case (snoc w ws)
  have step: "gf_canonicalize fs (path_join q w) = Inr c \<longleftrightarrow> (\<exists>e. gf_canonicalize fs q = Inr e \<and> gf_canonicalize fs (path_join e w) = Inr c)" for q
    using assms(1) unfolding canonical_laws_def by metis
  show ?case unfolding append_remaining_simps(3) step[of "append_remaining p ws"] step[of "append_remaining d ws"] snoc by (rule refl)
qed

lemma resolve_segments_canonical:
  assumes "canonical_laws fs"
  shows "gf_canonicalize fs current = Inr current \<Longrightarrow> gf_canonicalize fs (append_remaining current ws) = Inr c \<Longrightarrow>
    resolve_segments fs ws current = Inr p \<Longrightarrow> p = c"
proof (induction ws arbitrary: current)
  case (Cons w ws)
  let ?next = "path_join current w"
  obtain d where d: "gf_canonicalize fs ?next = Inr d"
    using canonical_prefix[OF assms, of ?next ws c] Cons.prems(2) by auto
  have stat: "gf_stat fs ?next \<noteq> Stat_Not_Found" and dd: "gf_canonicalize fs d = Inr d" using assms d unfolding canonical_laws_def by blast+
  have rest: "gf_canonicalize fs (append_remaining d ws) = Inr c" using canonical_replace[OF assms d, of ws c] Cons.prems(2) by simp
  have "resolve_segments fs ws d = Inr p"
  proof (cases "gf_stat fs ?next")
    case Stat_Symlink
    then obtain q where q: "resolve_symlink_target fs ?next = Inr q" "resolve_segments fs ws q = Inr p"
      using Cons.prems(3) by (auto simp: Let_def res_simps)
    obtain target where t: "gf_read_link fs ?next = Inr target" using q(1) by (auto simp: resolve_symlink_target_def split: sum.splits)
    then have "gf_canonicalize fs ?next = gf_canonicalize fs (if target \<noteq> [] \<and> hd target = RootDir then target else path_join_path (path_pop ?next) target)"
      using assms Stat_Symlink unfolding canonical_laws_def by blast
    then have "q = d" using q(1) d t by (auto simp: resolve_symlink_target_def Let_def split: sum.splits if_splits)
    then show ?thesis using q(2) by simp
  qed (use Cons.prems(3) d stat in \<open>auto simp: Let_def\<close>)
  then show ?case using Cons.IH[OF dd rest] by blast
qed simp

text \<open>
  C18. When the guard accepts a path and the path exists, then the place it leads to, with all symlinks resolved, is neither one of
  the protected folders nor below one, with their symlinks resolved, also when letters are compared without case.
\<close>

theorem guard_checks_location:
  assumes "canonical_laws fs"
    and guard: "guard_ai_raw_mutation_path lower nfc fs root path = Inr n"
    and here: "gf_canonicalize fs (append_remaining root (str_split (\<lambda>c. c = 47) n)) = Inr c"
  shows "\<forall>p\<in>set PROTECTED_PREFIXES. \<forall>d. gf_canonicalize fs (path_join root p) = Inr d \<longrightarrow>
    \<not> path_key_is_under (path_key lower c) (path_key lower d)"
proof -
  let ?ws = "str_split (\<lambda>c. c = 47) n"
  obtain r where r: "gf_canonicalize fs root = Inr r" using canonical_prefix[OF assms(1) here] by blast
  have rr: "gf_canonicalize fs r = Inr r" using assms(1) r unfolding canonical_laws_def by blast
  have c: "gf_canonicalize fs (append_remaining r ?ws) = Inr c" using canonical_replace[OF assms(1) r, of ?ws c] here by simp
  obtain p where p: "resolve_segments fs ?ws r = Inr p" "\<not> list_ex (path_key_is_under (path_key lower p)) (protected_absolute_keys lower fs root)"
    using guard r unfolding guard_Inr by (auto simp: resolved_path_is_protected_def resolved_absolute_key_def res_simps)
  have "p = c" by (rule resolve_segments_canonical[OF assms(1) rr c p(1)])
  moreover have "path_key lower d \<in> set (protected_absolute_keys lower fs root)"
    if "q \<in> set PROTECTED_PREFIXES" "gf_canonicalize fs (path_join root q) = Inr d" for q d
    using that unfolding protected_absolute_keys_def by (force simp: Let_def)
  ultimately show ?thesis using p(2) by (auto simp: list_ex_iff)
qed

section \<open>Concrete instances\<close>

definition plain_guard_fs :: guard_fs where
  "plain_guard_fs = \<lparr>gf_stat = (\<lambda>_. Stat_Other), gf_canonicalize = Inr, gf_read_link = Inr\<rparr>"

abbreviation guarded_vault :: path where
  "guarded_vault \<equiv> [RootDir, Normal (lit ''v'')]"

lemma lower_ascii_ok_ascii: "lower_ascii_ok to_ascii_lowercase" and id_nfc_ok: "nfc_ok (\<lambda>s. s)"
  by (simp_all add: lower_ascii_ok_def nfc_ok_def to_ascii_lowercase_def ascii_lower_def)

lemma plain_canonical: "canonical_laws plain_guard_fs"
  by (simp add: canonical_laws_def plain_guard_fs_def)

lemma guard_accepts:
  "guard_ai_raw_mutation_path to_ascii_lowercase (\<lambda>s. s) plain_guard_fs guarded_vault (lit ''Notes/x.md'') = Inr (lit ''Notes/x.md'')"
  by (simp add: guard_ai_raw_mutation_path_def normalize_ai_raw_mutation_path_def percent_decode_segment_def as_bytes_def utf8_char_def from_utf8_def
      has_windows_drive_prefix_def is_protected_relative_path_def PROTECTED_PREFIXES_def resolved_path_is_protected_def resolved_absolute_key_def
      protected_absolute_keys_def path_key_def path_key_is_under_def plain_guard_fs_def std_simps Let_def)

theorem guard_checks_location_witness:
  "list_all (\<lambda>p. \<not> path_key_is_under
     (path_key to_ascii_lowercase (append_remaining guarded_vault [lit ''Notes'', lit ''x.md'']))
     (path_key to_ascii_lowercase (path_join guarded_vault p))) PROTECTED_PREFIXES"
proof -
  have "str_split (\<lambda>c. c = 47) (lit ''Notes/x.md'') = [lit ''Notes'', lit ''x.md'']" by simp
  then have "gf_canonicalize plain_guard_fs (append_remaining guarded_vault (str_split (\<lambda>c. c = 47) (lit ''Notes/x.md''))) =
      Inr (append_remaining guarded_vault [lit ''Notes'', lit ''x.md''])"
    by (simp add: plain_guard_fs_def)
  from guard_checks_location[OF plain_canonical guard_accepts this] show ?thesis by (simp add: plain_guard_fs_def list_all_iff)
qed

text \<open>The parent folder of the protected folders is not protected.\<close>

lemma guard_accepts_parent:
  "guard_ai_raw_mutation_path to_ascii_lowercase (\<lambda>s. s) plain_guard_fs guarded_vault (lit ''Knowledge'') = Inr (lit ''Knowledge'')"
  by (simp add: guard_ai_raw_mutation_path_def normalize_ai_raw_mutation_path_def percent_decode_segment_def as_bytes_def utf8_char_def from_utf8_def
      has_windows_drive_prefix_def is_protected_relative_path_def PROTECTED_PREFIXES_def resolved_path_is_protected_def resolved_absolute_key_def
      protected_absolute_keys_def path_key_def path_key_is_under_def plain_guard_fs_def std_simps Let_def)

lemma guard_accepts_folder: "guard_ai_raw_mutation_path to_ascii_lowercase (\<lambda>s. s) plain_guard_fs guarded_vault (lit ''S'') = Inr (lit ''S'')"
  by (simp add: guard_ai_raw_mutation_path_def normalize_ai_raw_mutation_path_def percent_decode_segment_def as_bytes_def utf8_char_def from_utf8_def
      has_windows_drive_prefix_def is_protected_relative_path_def PROTECTED_PREFIXES_def resolved_path_is_protected_def resolved_absolute_key_def
      protected_absolute_keys_def path_key_def path_key_is_under_def plain_guard_fs_def std_simps Let_def)

text \<open>Control characters are looked for before the percent encoding is removed.\<close>

lemma encoded_control_accepted: "normalize_ai_raw_mutation_path (\<lambda>s. s) (lit ''a%0Ab'') = Inr [97, 10, 98]"
  by (simp add: normalize_ai_raw_mutation_path_def percent_decode_segment_def as_bytes_def utf8_char_def from_utf8_def
      has_windows_drive_prefix_def hex_value_def std_simps Let_def)

end
