(* ===== verification/Ai_Mutations.thy ===== *)
theory Ai_Mutations
  imports Protected_Paths Mutation_Ledger State_Error
begin

text \<open>
  Changes that a language model proposes (\<open>kuku-ai/mutation.rs\<close>) and how the desktop host applies them
  (\<open>ai_host/desktop_host.rs\<close>): a guard on every path, a check for conflicts, then the operations in order, each with its
  own check (\<open>vault/checksum.rs\<close>) and announced to watcher and search (\<open>vault/mutation_sync.rs\<close>).

  The file system is the record \<open>host_fs\<close> over an abstract state; the content hash (BLAKE3, as hexadecimal text), the
  clock and the answer of the search index are parameters of \<open>ai_env\<close>.
\<close>

section \<open>Plans\<close>

datatype mutation_op =
  CreateFile rstr rstr
| CreateDirectory rstr
| ReplaceFile rstr rstr rstr "rstr option"
| DeleteFile rstr rstr
| DeleteDirectory rstr rstr
| RenameFile rstr rstr

record mutation_plan =
  mp_summary :: rstr
  mp_operations :: "mutation_op list"

record conflict_item =
  ci_path :: rstr
  ci_reason :: rstr
  ci_expected :: "rstr option"
  ci_actual :: "rstr option"

datatype mutation_apply_result =
  Applied rstr "rstr list"
| PartiallyApplied rstr "rstr list" "rstr list" "rstr list" "rstr list"
| Conflict rstr "conflict_item list"

text \<open>\<open>AiError\<close> of \<open>kuku-ai/error.rs\<close>; the host raises \<open>State\<close> and \<open>Io\<close>.\<close>

datatype ai_error =
  AiNotConfigured | AiSessionNotFound | AiSessionBusy | AiCancelled | AiHostUnavailable | AiApprovalNotFound | AiUnauthorized
| AiProviderInit rstr | AiProviderError rstr | AiInvalidArguments rstr | AiToolNotFound rstr | AiProxyTimeout rstr
| AiState rstr | AiIo rstr

section \<open>The file system\<close>

record 'f host_fs =
  hf_guard :: "'f \<Rightarrow> guard_fs"
  hf_exists :: "'f \<Rightarrow> path \<Rightarrow> rstr + bool"
  hf_is_dir :: "'f \<Rightarrow> path \<Rightarrow> rstr + bool"
  hf_read :: "'f \<Rightarrow> path \<Rightarrow> rstr + rstr"
  hf_read_bytes :: "'f \<Rightarrow> path \<Rightarrow> rstr + bytes"
  hf_tree :: "'f \<Rightarrow> path \<Rightarrow> fs_node"
  hf_create_dir_all :: "path \<Rightarrow> 'f \<Rightarrow> (rstr + unit) \<times> 'f"
  hf_write :: "path \<Rightarrow> rstr \<Rightarrow> 'f \<Rightarrow> (rstr + unit) \<times> 'f"
  hf_remove_file :: "path \<Rightarrow> 'f \<Rightarrow> (rstr + unit) \<times> 'f"
  hf_remove_dir_all :: "path \<Rightarrow> 'f \<Rightarrow> (rstr + unit) \<times> 'f"
  hf_rename :: "path \<Rightarrow> path \<Rightarrow> 'f \<Rightarrow> (rstr + unit) \<times> 'f"

definition hf_stat :: "'f host_fs \<Rightarrow> 'f \<Rightarrow> path \<Rightarrow> bool option" where
  "hf_stat os fs p =
     (case gf_stat (hf_guard os fs) p of Stat_Symlink \<Rightarrow> Some True | Stat_Other \<Rightarrow> Some False | _ \<Rightarrow> None)"

record ai_env =
  ae_lower :: "rstr \<Rightarrow> rstr"
  ae_nfc :: "rstr \<Rightarrow> rstr"
  ae_hash :: "bytes \<Rightarrow> rstr"
  ae_now :: int

section \<open>Checksums\<close>

definition compute_checksum :: "ai_env \<Rightarrow> rstr \<Rightarrow> rstr" where
  "compute_checksum env content = ae_hash env (as_bytes content)"

record directory_entry_checksum =
  de_relative_path :: rstr
  de_kind :: rstr
  de_checksum :: "rstr option"

definition relative_text :: "path \<Rightarrow> path \<Rightarrow> rstr + rstr" where
  "relative_text root path =
     (case path_strip_prefix path root of
        Some rel \<Rightarrow> Inr (str_replace_char 92 47 (path_to_str rel))
      | None \<Rightarrow> Inl (lit ''Failed to strip prefix '' @ path_display path @ lit '': prefix not found''))"

fun collect_directory_entries :: "ai_env \<Rightarrow> (path \<Rightarrow> rstr + bytes) \<Rightarrow> path \<Rightarrow> path \<Rightarrow> fs_node \<Rightarrow> rstr + directory_entry_checksum list"
  and collect_entries :: "ai_env \<Rightarrow> (path \<Rightarrow> rstr + bytes) \<Rightarrow> path \<Rightarrow> path \<Rightarrow> (rstr \<times> fs_node) list \<Rightarrow> rstr option \<Rightarrow> rstr + directory_entry_checksum list"
where
  "collect_directory_entries env read root dir (FsDir es err) = collect_entries env read root dir es err"
| "collect_directory_entries env read root dir (FsDirErr e) =
     Inl (lit ''Failed to read directory '' @ path_display dir @ lit '': '' @ e)"
| "collect_directory_entries env read root dir _ =
     Inl (lit ''Failed to read directory '' @ path_display dir @ lit '': Not a directory (os error 20)'')"
| "collect_entries env read root dir [] err =
     (case err of
        None \<Rightarrow> Inr []
      | Some e \<Rightarrow> Inl (lit ''Failed to read directory '' @ path_display dir @ lit '': '' @ e))"
| "collect_entries env read root dir ((name, child) # es) err =
     (let path = path_push dir name
      in case child of
           FsTypeErr e \<Rightarrow> Inl (lit ''Failed to stat '' @ path_display path @ lit '': '' @ e)
         | FsSymlink \<Rightarrow> collect_entries env read root dir es err
         | _ \<Rightarrow>
             res_bind (relative_text root path) (\<lambda>relative_path.
             (case child of
                FsDir ces cerr \<Rightarrow>
                  res_bind (collect_entries env read root path ces cerr) (\<lambda>inner.
                  res_bind (collect_entries env read root dir es err) (\<lambda>more.
                  Inr (\<lparr>de_relative_path = relative_path, de_kind = lit ''dir'', de_checksum = None\<rparr> # inner @ more)))
              | FsDirErr e \<Rightarrow> Inl (lit ''Failed to read directory '' @ path_display path @ lit '': '' @ e)
              | _ \<Rightarrow>
                  (case read path of
                     Inl e \<Rightarrow> Inl (lit ''Failed to read file '' @ path_display path @ lit '': '' @ e)
                   | Inr data \<Rightarrow>
                       res_bind (collect_entries env read root dir es err) (\<lambda>more.
                       Inr (\<lparr>de_relative_path = relative_path, de_kind = lit ''file'', de_checksum = Some (ae_hash env data)\<rparr> # more))))))"

definition entry_bytes :: "directory_entry_checksum \<Rightarrow> bytes" where
  "entry_bytes entry =
     as_bytes (de_kind entry) @ [0] @ as_bytes (de_relative_path entry) @ [0] @
     (case de_checksum entry of Some checksum \<Rightarrow> as_bytes checksum | None \<Rightarrow> []) @ [10]"

definition compute_directory_checksum :: "ai_env \<Rightarrow> 'f host_fs \<Rightarrow> 'f \<Rightarrow> path \<Rightarrow> rstr + rstr" where
  "compute_directory_checksum env os fs path =
     res_bind (collect_directory_entries env (hf_read_bytes os fs) path path (hf_tree os fs path)) (\<lambda>entries.
     Inr (ae_hash env (concat (map entry_bytes (sort_key de_relative_path entries)))))"

section \<open>Guarded operations\<close>

definition conflict_at :: "path \<Rightarrow> rstr \<Rightarrow> conflict_item" where
  "conflict_at path reason = \<lparr>ci_path = path_to_str path, ci_reason = reason, ci_expected = None, ci_actual = None\<rparr>"

definition checksum_conflict_at :: "path \<Rightarrow> rstr \<Rightarrow> rstr \<Rightarrow> conflict_item" where
  "checksum_conflict_at path expected actual =
     \<lparr>ci_path = path_to_str path, ci_reason = lit ''Checksum mismatch: expected '' @ expected @ lit '', actual '' @ actual,
      ci_expected = Some expected, ci_actual = Some actual\<rparr>"

text \<open>A call of the operating system whose error becomes a conflict at \<open>path\<close> with the text \<open>what: error\<close>.\<close>

definition fs_call :: "path \<Rightarrow> rstr \<Rightarrow> ('f \<Rightarrow> (rstr + 'a) \<times> 'f) \<Rightarrow> (conflict_item, 'f, 'a) eact" where
  "fs_call path what call fs =
     (case call fs of (Inl e, fs') \<Rightarrow> (Inl (conflict_at path (what @ lit '': '' @ e)), fs') | (Inr x, fs') \<Rightarrow> (Inr x, fs'))"

definition fs_query :: "path \<Rightarrow> rstr \<Rightarrow> ('f \<Rightarrow> rstr + 'a) \<Rightarrow> (conflict_item, 'f, 'a) eact" where
  "fs_query path what query = fs_call path what (\<lambda>fs. (query fs, fs))"

definition create_parent :: "'f host_fs \<Rightarrow> path \<Rightarrow> (conflict_item, 'f, unit) eact" where
  "create_parent os path =
     (if path_has_parent path
      then fs_call path (lit ''Failed to create parent directories'') (hf_create_dir_all os (path_pop path))
      else act_lift (Inr ()))"

definition guarded_create :: "'f host_fs \<Rightarrow> path \<Rightarrow> rstr \<Rightarrow> (conflict_item, 'f, unit) eact" where
  "guarded_create os path content =
     act_bind (fs_query path (lit ''Existence check failed'') (\<lambda>fs. hf_exists os fs path)) (\<lambda>exists.
     if exists then act_lift (Inl (conflict_at path (lit ''File already exists'')))
     else
       act_bind (create_parent os path) (\<lambda>_.
       fs_call path (lit ''Failed to write file'') (hf_write os path content)))"

definition guarded_create_dir :: "'f host_fs \<Rightarrow> path \<Rightarrow> (conflict_item, 'f, unit) eact" where
  "guarded_create_dir os path =
     act_bind (fs_query path (lit ''Existence check failed'') (\<lambda>fs. hf_exists os fs path)) (\<lambda>exists.
     if exists then act_lift (Inl (conflict_at path (lit ''Directory already exists'')))
     else fs_call path (lit ''Failed to create directory'') (hf_create_dir_all os path))"

definition check_content :: "ai_env \<Rightarrow> 'f host_fs \<Rightarrow> path \<Rightarrow> rstr \<Rightarrow> (conflict_item, 'f, unit) eact" where
  "check_content env os path expected_checksum =
     act_bind (fs_query path (lit ''Failed to read file'') (\<lambda>fs. hf_read os fs path)) (\<lambda>current.
     (let actual = compute_checksum env current
      in act_lift (if actual \<noteq> expected_checksum then Inl (checksum_conflict_at path expected_checksum actual) else Inr ())))"

definition guarded_write :: "ai_env \<Rightarrow> 'f host_fs \<Rightarrow> path \<Rightarrow> rstr \<Rightarrow> rstr \<Rightarrow> (conflict_item, 'f, unit) eact" where
  "guarded_write env os path content expected_checksum =
     act_bind (check_content env os path expected_checksum) (\<lambda>_.
     fs_call path (lit ''Failed to write file'') (hf_write os path content))"

definition guarded_delete :: "ai_env \<Rightarrow> 'f host_fs \<Rightarrow> path \<Rightarrow> rstr \<Rightarrow> (conflict_item, 'f, unit) eact" where
  "guarded_delete env os path expected_checksum =
     act_bind (check_content env os path expected_checksum) (\<lambda>_.
     fs_call path (lit ''Failed to delete file'') (hf_remove_file os path))"

definition guarded_delete_dir :: "ai_env \<Rightarrow> 'f host_fs \<Rightarrow> path \<Rightarrow> rstr \<Rightarrow> (conflict_item, 'f, unit) eact" where
  "guarded_delete_dir env os path expected_checksum =
     act_bind (fs_query path (lit ''Failed to stat directory'') (\<lambda>fs. hf_is_dir os fs path)) (\<lambda>is_dir.
     if \<not> is_dir then act_lift (Inl (conflict_at path (lit ''Path is not a directory'')))
     else
       act_bind (fs_query path (lit ''Failed to checksum directory'') (\<lambda>fs. compute_directory_checksum env os fs path)) (\<lambda>actual.
       if actual \<noteq> expected_checksum then act_lift (Inl (checksum_conflict_at path expected_checksum actual))
       else fs_call path (lit ''Failed to delete directory'') (hf_remove_dir_all os path)))"

definition guarded_rename :: "'f host_fs \<Rightarrow> path \<Rightarrow> path \<Rightarrow> (conflict_item, 'f, unit) eact" where
  "guarded_rename os from to =
     act_bind (fs_query from (lit ''Existence check failed'') (\<lambda>fs. hf_exists os fs from)) (\<lambda>exists.
     if \<not> exists then act_lift (Inl (conflict_at from (lit ''Source file does not exist'')))
     else
       act_bind (fs_query to (lit ''Existence check failed'') (\<lambda>fs. hf_exists os fs to)) (\<lambda>taken.
       if taken then act_lift (Inl (conflict_at to (lit ''Destination file already exists'')))
       else
         act_bind (create_parent os to) (\<lambda>_.
         fs_call from (lit ''Failed to rename file'') (hf_rename os from to))))"

section \<open>Announcing changes\<close>

datatype app_mutation = MutWrite rstr bool | MutDelete rstr bool | MutRename rstr rstr bool

datatype search_notice =
  NoteWritten rstr rstr | NoteRemoved rstr bool rstr | NoteRenamed rstr rstr bool rstr | NoteRebuild rstr

record 'f ai_world =
  aw_fs :: 'f
  aw_ledger :: expected_mutation_ledger
  aw_notices :: "search_notice list"

record recorded_app_mutation =
  rm_mutation :: app_mutation
  rm_token :: "64 word"

fun sync_record :: "ai_env \<Rightarrow> app_mutation \<Rightarrow> expected_mutation_ledger \<Rightarrow> recorded_app_mutation \<times> expected_mutation_ledger" where
  "sync_record env m ledger =
     (let (token, ledger') =
        (case m of
           MutWrite path is_dir \<Rightarrow> record_write path is_dir (ae_now env) ledger
         | MutDelete path is_dir \<Rightarrow> record_delete path is_dir (ae_now env) ledger
         | MutRename old_path new_path is_dir \<Rightarrow> record_rename old_path new_path is_dir (ae_now env) ledger)
      in (\<lparr>rm_mutation = m, rm_token = token\<rparr>, ledger'))"

definition sync_cancel :: "recorded_app_mutation \<Rightarrow> 'f ai_world \<Rightarrow> 'f ai_world" where
  "sync_cancel recorded w = w\<lparr>aw_ledger := cancel_mutation (rm_token recorded) (aw_ledger w)\<rparr>"

text \<open>\<open>search\<close> is what the index answers to a notice.\<close>

fun mutation_notice :: "rstr \<Rightarrow> app_mutation \<Rightarrow> search_notice option" where
  "mutation_notice source (MutWrite path is_dir) = (if is_dir then None else Some (NoteWritten path source))"
| "mutation_notice source (MutDelete path is_dir) = Some (NoteRemoved path is_dir source)"
| "mutation_notice source (MutRename old_path new_path is_dir) = Some (NoteRenamed old_path new_path is_dir source)"

definition notify_applied :: "(search_notice \<Rightarrow> rstr + unit) \<Rightarrow> rstr \<Rightarrow> recorded_app_mutation \<Rightarrow> (rstr, 'f ai_world, unit) eact" where
  "notify_applied search source recorded w =
     (case mutation_notice source (rm_mutation recorded) of
        None \<Rightarrow> (Inr (), w)
      | Some notice \<Rightarrow> (search notice, w\<lparr>aw_notices := aw_notices w @ [notice]\<rparr>))"

definition sync_search :: "(search_notice \<Rightarrow> rstr + unit) \<Rightarrow> recorded_app_mutation \<Rightarrow> 'f ai_world \<Rightarrow> rstr option \<times> 'f ai_world" where
  "sync_search search recorded w =
     (case notify_applied search (lit ''ai-mutation'') recorded w of
        (Inl e, w') \<Rightarrow>
          (Some (lit ''Search sync fallback: '' @ e), w'\<lparr>aw_notices := aw_notices w' @ [NoteRebuild (lit ''sync-error'')]\<rparr>)
      | (Inr _, w') \<Rightarrow> (None, w'))"

section \<open>Applying a plan\<close>

fun op_summary :: "mutation_op \<Rightarrow> rstr" where
  "op_summary (CreateFile path _) = lit ''Created '' @ path"
| "op_summary (CreateDirectory path) = lit ''Created directory '' @ path"
| "op_summary (ReplaceFile path _ _ _) = lit ''Modified '' @ path"
| "op_summary (DeleteFile path _) = lit ''Deleted '' @ path"
| "op_summary (DeleteDirectory path _) = lit ''Deleted directory '' @ path"
| "op_summary (RenameFile from to) = lit ''Renamed '' @ from @ lit '' -> '' @ to"

definition conflict :: "rstr \<Rightarrow> rstr \<Rightarrow> conflict_item" where
  "conflict path reason = \<lparr>ci_path = path, ci_reason = reason, ci_expected = None, ci_actual = None\<rparr>"

definition checksum_conflict :: "rstr \<Rightarrow> rstr \<Rightarrow> rstr \<Rightarrow> conflict_item" where
  "checksum_conflict path expected actual =
     \<lparr>ci_path = path, ci_reason = lit ''Checksum mismatch: expected '' @ expected @ lit '', actual '' @ actual,
      ci_expected = Some expected, ci_actual = Some actual\<rparr>"

definition guard_path :: "ai_env \<Rightarrow> 'f host_fs \<Rightarrow> path \<Rightarrow> 'f \<Rightarrow> rstr \<Rightarrow> rstr + unit" where
  "guard_path env os root fs path =
     (case guard_ai_raw_mutation_path (ae_lower env) (ae_nfc env) (hf_guard os fs) root path of
        Inl e \<Rightarrow> Inl (ppe_message e) | Inr _ \<Rightarrow> Inr ())"

fun guard_mutation_op :: "ai_env \<Rightarrow> 'f host_fs \<Rightarrow> path \<Rightarrow> 'f \<Rightarrow> mutation_op \<Rightarrow> rstr + unit" where
  "guard_mutation_op env os root fs (CreateFile path _) = guard_path env os root fs path"
| "guard_mutation_op env os root fs (CreateDirectory path) = guard_path env os root fs path"
| "guard_mutation_op env os root fs (ReplaceFile path _ _ _) = guard_path env os root fs path"
| "guard_mutation_op env os root fs (DeleteFile path _) = guard_path env os root fs path"
| "guard_mutation_op env os root fs (DeleteDirectory path _) = guard_path env os root fs path"
| "guard_mutation_op env os root fs (RenameFile from to) =
     res_bind (guard_path env os root fs from) (\<lambda>_. guard_path env os root fs to)"

definition resolve_op_path :: "'f host_fs \<Rightarrow> path \<Rightarrow> 'f \<Rightarrow> rstr \<Rightarrow> ai_error + path" where
  "resolve_op_path os root fs path =
     (case resolve_vault_path_strict (hf_stat os fs) root path of Inl e \<Rightarrow> Inl (AiState e) | Inr p \<Rightarrow> Inr p)"

definition exists_op_path :: "'f host_fs \<Rightarrow> 'f \<Rightarrow> path \<Rightarrow> ai_error + bool" where
  "exists_op_path os fs p = (case hf_exists os fs p of Inl e \<Rightarrow> Inl (AiIo e) | Inr b \<Rightarrow> Inr b)"

text \<open>The conflicts of one operation before anything is changed.\<close>

definition content_conflicts :: "ai_env \<Rightarrow> 'f host_fs \<Rightarrow> 'f \<Rightarrow> rstr \<Rightarrow> rstr \<Rightarrow> path \<Rightarrow> conflict_item list" where
  "content_conflicts env os fs path expected resolved =
     (case hf_read os fs resolved of
        Inl e \<Rightarrow> [conflict path (lit ''Failed to read file: '' @ e)]
      | Inr current \<Rightarrow>
          (let actual = compute_checksum env current
           in if actual \<noteq> expected then [checksum_conflict path expected actual] else []))"

definition directory_conflicts :: "ai_env \<Rightarrow> 'f host_fs \<Rightarrow> 'f \<Rightarrow> rstr \<Rightarrow> rstr \<Rightarrow> path \<Rightarrow> conflict_item list" where
  "directory_conflicts env os fs path expected resolved =
     (case hf_is_dir os fs resolved of
        Inl e \<Rightarrow> [conflict path (lit ''Failed to stat directory: '' @ e)]
      | Inr is_dir \<Rightarrow>
          if \<not> is_dir then [conflict path (lit ''Path is not a directory'')]
          else
            (case compute_directory_checksum env os fs resolved of
               Inl e \<Rightarrow> [conflict path (lit ''Failed to checksum directory: '' @ e)]
             | Inr actual \<Rightarrow> if actual \<noteq> expected then [checksum_conflict path expected actual] else []))"

fun op_conflicts :: "ai_env \<Rightarrow> 'f host_fs \<Rightarrow> path \<Rightarrow> 'f \<Rightarrow> mutation_op \<Rightarrow> ai_error + conflict_item list" where
  "op_conflicts env os root fs (CreateFile path _) =
     res_bind (resolve_op_path os root fs path) (\<lambda>resolved.
     res_bind (exists_op_path os fs resolved) (\<lambda>taken.
     Inr (if taken then [conflict path (lit ''File already exists'')] else [])))"
| "op_conflicts env os root fs (CreateDirectory path) =
     res_bind (resolve_op_path os root fs path) (\<lambda>resolved.
     res_bind (exists_op_path os fs resolved) (\<lambda>taken.
     Inr (if taken then [conflict path (lit ''Directory already exists'')] else [])))"
| "op_conflicts env os root fs (ReplaceFile path _ expected _) =
     res_bind (resolve_op_path os root fs path) (\<lambda>resolved. Inr (content_conflicts env os fs path expected resolved))"
| "op_conflicts env os root fs (DeleteFile path expected) =
     res_bind (resolve_op_path os root fs path) (\<lambda>resolved. Inr (content_conflicts env os fs path expected resolved))"
| "op_conflicts env os root fs (DeleteDirectory path expected) =
     res_bind (resolve_op_path os root fs path) (\<lambda>resolved. Inr (directory_conflicts env os fs path expected resolved))"
| "op_conflicts env os root fs (RenameFile from to) =
     res_bind (resolve_op_path os root fs from) (\<lambda>from_resolved.
     res_bind (resolve_op_path os root fs to) (\<lambda>to_resolved.
     res_bind (exists_op_path os fs from_resolved) (\<lambda>there.
     res_bind (exists_op_path os fs to_resolved) (\<lambda>taken.
     Inr ((if \<not> there then [conflict from (lit ''Source file does not exist'')] else []) @
          (if taken then [conflict to (lit ''Destination file already exists'')] else []))))))"

fun mutation_for_applied_op :: "'f host_fs \<Rightarrow> path \<Rightarrow> 'f \<Rightarrow> mutation_op \<Rightarrow> rstr + app_mutation" where
  "mutation_for_applied_op os root fs (CreateFile path _) = Inr (MutWrite path False)"
| "mutation_for_applied_op os root fs (ReplaceFile path _ _ _) = Inr (MutWrite path False)"
| "mutation_for_applied_op os root fs (CreateDirectory path) = Inr (MutWrite path True)"
| "mutation_for_applied_op os root fs (DeleteFile path _) = Inr (MutDelete path False)"
| "mutation_for_applied_op os root fs (DeleteDirectory path _) = Inr (MutDelete path True)"
| "mutation_for_applied_op os root fs (RenameFile from to) =
     res_bind (resolve_vault_path_strict (hf_stat os fs) root from) (\<lambda>from_resolved.
     Inr (MutRename from to (case hf_is_dir os fs from_resolved of Inr b \<Rightarrow> b | Inl _ \<Rightarrow> False)))"

text \<open>The operation on the resolved paths; \<open>Inl\<close> when a path does not resolve any more.\<close>

definition run_at :: "'f host_fs \<Rightarrow> path \<Rightarrow> rstr \<Rightarrow> (path \<Rightarrow> (conflict_item, 'f, unit) eact) \<Rightarrow> 'f \<Rightarrow> (ai_error + (conflict_item + unit)) \<times> 'f" where
  "run_at os root path act fs =
     (case resolve_op_path os root fs path of
        Inl e \<Rightarrow> (Inl e, fs)
      | Inr resolved \<Rightarrow> (case act resolved fs of (r, fs') \<Rightarrow> (Inr r, fs')))"

fun perform_op :: "ai_env \<Rightarrow> 'f host_fs \<Rightarrow> path \<Rightarrow> mutation_op \<Rightarrow> 'f \<Rightarrow> (ai_error + (conflict_item + unit)) \<times> 'f" where
  "perform_op env os root (CreateFile path content) fs = run_at os root path (\<lambda>p. guarded_create os p content) fs"
| "perform_op env os root (CreateDirectory path) fs = run_at os root path (\<lambda>p. guarded_create_dir os p) fs"
| "perform_op env os root (ReplaceFile path content expected _) fs = run_at os root path (\<lambda>p. guarded_write env os p content expected) fs"
| "perform_op env os root (DeleteFile path expected) fs = run_at os root path (\<lambda>p. guarded_delete env os p expected) fs"
| "perform_op env os root (DeleteDirectory path expected) fs = run_at os root path (\<lambda>p. guarded_delete_dir env os p expected) fs"
| "perform_op env os root (RenameFile from to) fs =
     (case resolve_op_path os root fs from of
        Inl e \<Rightarrow> (Inl e, fs)
      | Inr from_resolved \<Rightarrow> run_at os root to (\<lambda>p. guarded_rename os from_resolved p) fs)"

definition stopped_result :: "mutation_op \<Rightarrow> mutation_op list \<Rightarrow> rstr list \<Rightarrow> rstr list \<Rightarrow> conflict_item \<Rightarrow> mutation_apply_result" where
  "stopped_result op rest applied warnings item =
     (if applied = [] then Conflict (lit ''Commit-time conflict. No changes were applied.'') [item]
      else
        PartiallyApplied (nat_digits (length applied) @ lit '' applied, 1 failed, '' @ nat_digits (length rest) @ lit '' skipped'')
          applied [op_summary op @ lit '': '' @ ci_reason item] (map op_summary rest) warnings)"

definition applied_summary :: "rstr \<Rightarrow> rstr list \<Rightarrow> rstr" where
  "applied_summary summary applied =
     (if str_trim summary = [] then (if applied = [] then lit ''No operations'' else str_join (lit ''; '') applied) else summary)"

fun apply_ops :: "ai_env \<Rightarrow> 'f host_fs \<Rightarrow> (search_notice \<Rightarrow> rstr + unit) \<Rightarrow> path \<Rightarrow> rstr \<Rightarrow> mutation_op list \<Rightarrow> rstr list \<Rightarrow> rstr list
    \<Rightarrow> (ai_error, 'f ai_world, mutation_apply_result) eact" where
  "apply_ops env os search root summary [] applied warnings w = (Inr (Applied (applied_summary summary applied) warnings), w)"
| "apply_ops env os search root summary (op # rest) applied warnings w =
     (case mutation_for_applied_op os root (aw_fs w) op of
        Inl e \<Rightarrow> (Inl (AiState e), w)
      | Inr mutation \<Rightarrow>
          (case sync_record env mutation (aw_ledger w) of (recorded, ledger) \<Rightarrow>
          (case perform_op env os root op (aw_fs w) of (r, fs) \<Rightarrow>
            (let w' = w\<lparr>aw_fs := fs, aw_ledger := ledger\<rparr>
             in case r of
                  Inl e \<Rightarrow> (Inl e, w')
                | Inr (Inl item) \<Rightarrow> (Inr (stopped_result op rest applied warnings item), sync_cancel recorded w')
                | Inr (Inr _) \<Rightarrow>
                    (case sync_search search recorded w' of (warning, w'') \<Rightarrow>
                      apply_ops env os search root summary rest (applied @ [op_summary op])
                        (case warning of Some text \<Rightarrow> warnings @ [text] | None \<Rightarrow> warnings) w'')))))"

fun guard_ops :: "ai_env \<Rightarrow> 'f host_fs \<Rightarrow> path \<Rightarrow> 'f \<Rightarrow> mutation_op list \<Rightarrow> ai_error + unit" where
  "guard_ops env os root fs [] = Inr ()"
| "guard_ops env os root fs (op # ops) =
     (case guard_mutation_op env os root fs op of Inl e \<Rightarrow> Inl (AiState e) | Inr _ \<Rightarrow> guard_ops env os root fs ops)"

fun plan_conflicts :: "ai_env \<Rightarrow> 'f host_fs \<Rightarrow> path \<Rightarrow> 'f \<Rightarrow> mutation_op list \<Rightarrow> ai_error + conflict_item list" where
  "plan_conflicts env os root fs [] = Inr []"
| "plan_conflicts env os root fs (op # ops) =
     res_bind (op_conflicts env os root fs op) (\<lambda>items.
     res_bind (plan_conflicts env os root fs ops) (\<lambda>more. Inr (items @ more)))"

definition apply_mutation :: "ai_env \<Rightarrow> 'f host_fs \<Rightarrow> (search_notice \<Rightarrow> rstr + unit) \<Rightarrow> vault_inner \<Rightarrow> mutation_plan
    \<Rightarrow> (ai_error, 'f ai_world, mutation_apply_result) eact" where
  "apply_mutation env os search vault plan w =
     (case get_vault_root vault of
        Inl e \<Rightarrow> (Inl (AiState e), w)
      | Inr root \<Rightarrow>
          (case guard_ops env os root (aw_fs w) (mp_operations plan) of
             Inl e \<Rightarrow> (Inl e, w)
           | Inr _ \<Rightarrow>
               (case plan_conflicts env os root (aw_fs w) (mp_operations plan) of
                  Inl e \<Rightarrow> (Inl e, w)
                | Inr conflicts \<Rightarrow>
                    if conflicts \<noteq> []
                    then (Inr (Conflict (nat_digits (length conflicts) @ lit '' conflict(s) detected. No changes were applied.'') conflicts), w)
                    else apply_ops env os search root (mp_summary plan) (mp_operations plan) [] [] w)))"

section \<open>What the file system promises\<close>

definition host_view :: "'f host_fs \<Rightarrow> 'f \<Rightarrow> path \<Rightarrow> bool option \<times> (rstr + bool) \<times> (rstr + rstr)" where
  "host_view os fs q = (hf_stat os fs q, hf_exists os fs q, hf_read os fs q)"

definition unlinked :: "'f host_fs \<Rightarrow> 'f \<Rightarrow> path \<Rightarrow> bool" where
  "unlinked os fs p \<longleftrightarrow> (\<forall>q. prefix q p \<longrightarrow> hf_stat os fs q \<noteq> Some True)"

text \<open>The state changes at most where \<open>at\<close> says, and new symlinks appear at most where \<open>fresh\<close> says.\<close>

definition touches :: "'f host_fs \<Rightarrow> (path \<Rightarrow> bool) \<Rightarrow> (path \<Rightarrow> bool) \<Rightarrow> 'f \<Rightarrow> 'f \<Rightarrow> bool" where
  "touches os at fresh fs fs' \<longleftrightarrow> (\<forall>q. \<not> at q \<longrightarrow> host_view os fs' q = host_view os fs q) \<and>
     (\<forall>q. hf_stat os fs' q = Some True \<longrightarrow> hf_stat os fs q = Some True \<or> fresh q)"

definition host_confined :: "'f host_fs \<Rightarrow> bool" where
  "host_confined os \<longleftrightarrow> (\<forall>fs p. unlinked os fs p \<longrightarrow>
     (\<forall>content. touches os (\<lambda>q. q = p) (\<lambda>_. False) fs (snd (hf_write os p content fs))) \<and>
     touches os (\<lambda>q. q = p) (\<lambda>_. False) fs (snd (hf_remove_file os p fs)) \<and>
     touches os (\<lambda>q. prefix p q) (\<lambda>_. False) fs (snd (hf_remove_dir_all os p fs)) \<and>
     touches os (\<lambda>q. prefix q p) (\<lambda>_. False) fs (snd (hf_create_dir_all os p fs)) \<and>
     (\<forall>to. unlinked os fs to \<longrightarrow> touches os (\<lambda>q. prefix p q \<or> prefix to q) (strict_prefix to) fs (snd (hf_rename os p to fs))))"

section \<open>Protected and outside places\<close>

definition kept_place :: "path \<Rightarrow> path \<Rightarrow> bool" where
  "kept_place root q \<longleftrightarrow> protected_place root q \<or> (\<not> prefix root q \<and> \<not> prefix q root)"

definition free_place :: "path \<Rightarrow> path \<Rightarrow> bool" where
  "free_place root p \<longleftrightarrow> prefix root p \<and> \<not> protected_place root p"

text \<open>A relative path that does not name the vault itself or the folder above the protected folders.\<close>

definition spares :: "rstr \<Rightarrow> bool" where
  "spares path \<longleftrightarrow> (case lexical (path_components path) [] of
     None \<Rightarrow> True | Some ws \<Rightarrow> ws \<noteq> [] \<and> (\<forall>k. ws = [k] \<longrightarrow> to_ascii_lowercase k \<noteq> lit ''knowledge''))"

fun op_spares :: "mutation_op \<Rightarrow> bool" where
  "op_spares (DeleteDirectory path _) = spares path"
| "op_spares (RenameFile from to) = (spares from \<and> spares to)"
| "op_spares _ = True"

lemma protected_place_below: "protected_place root q \<Longrightarrow> prefix q p \<Longrightarrow> protected_place root p"
  by (fastforce simp: protected_place_def prefix_def)

lemma kept_free: "kept_place root q \<Longrightarrow> free_place root p \<Longrightarrow> \<not> prefix q p \<and> q \<noteq> p"
  using protected_place_below prefix_same_cases[of root p q] by (fastforce simp: kept_place_def free_place_def)

lemma kept_below:
  assumes "kept_place root q" "free_place root p" "p = root @ map Normal ws" "ws \<noteq> []" "\<forall>k. ws = [k] \<longrightarrow> to_ascii_lowercase k \<noteq> lit ''knowledge''"
  shows "\<not> prefix p q"
proof
  assume pq: "prefix p q"
  then have "prefix root q" using assms(3) by (auto simp: prefix_def)
  then obtain k m rest where q: "q = root @ Normal k # Normal m # rest" "protected_folder k m"
    using assms(1) by (auto simp: kept_place_def protected_place_def)
  obtain w ws' where ws: "ws = w # ws'" using assms(4) by (cases ws) auto
  have "w = k" using pq q(1) assms(3) ws by (auto simp: prefix_def)
  then have "ws' \<noteq> []" using assms(5) ws q(2) by (auto simp: protected_folder_def)
  then obtain v vs where "ws' = v # vs" by (cases ws') auto
  then have "p = root @ Normal k # Normal m # map Normal vs" using pq q(1) assms(3) ws by (auto simp: prefix_def)
  then show False using assms(2) q(2) by (auto simp: free_place_def protected_place_def)
qed

definition still :: "'f host_fs \<Rightarrow> path \<Rightarrow> path set \<Rightarrow> 'f \<Rightarrow> 'f \<Rightarrow> bool" where
  "still os root P fs fs' \<longleftrightarrow> ((\<forall>p\<in>P. unlinked os fs p) \<longrightarrow>
     (\<forall>p\<in>P. unlinked os fs' p) \<and> (\<forall>q. kept_place root q \<longrightarrow> host_view os fs' q = host_view os fs q))"

interpretation host: frame "still os root P" for os :: "'f host_fs" and root and P
  by unfold_locales (auto simp: still_def)

lemma unlinked_prefix: "unlinked os fs p \<Longrightarrow> prefix q p \<Longrightarrow> unlinked os fs q"
  by (auto simp: unlinked_def dest: prefix_order.order_trans)

lemma touches_still:
  assumes "(\<forall>p\<in>P. unlinked os fs p) \<Longrightarrow> touches os at (\<lambda>_. False) fs fs'" "\<And>q. kept_place root q \<Longrightarrow> \<not> at q"
  shows "still os root P fs fs'"
proof -
  have "unlinked os fs' p" if "touches os at (\<lambda>_. False) fs fs'" "unlinked os fs p" for p
    using that unfolding touches_def unlinked_def by blast
  then show ?thesis using assms unfolding still_def touches_def by blast
qed

lemma host_laws:
  assumes "host_confined os" "unlinked os fs p"
  shows "touches os (\<lambda>q. q = p) (\<lambda>_. False) fs (snd (hf_write os p content fs))"
    "touches os (\<lambda>q. q = p) (\<lambda>_. False) fs (snd (hf_remove_file os p fs))"
    "touches os (\<lambda>q. prefix p q) (\<lambda>_. False) fs (snd (hf_remove_dir_all os p fs))"
    "touches os (\<lambda>q. prefix q p) (\<lambda>_. False) fs (snd (hf_create_dir_all os p fs))"
    "unlinked os fs to \<Longrightarrow> touches os (\<lambda>q. prefix p q \<or> prefix to q) (strict_prefix to) fs (snd (hf_rename os p to fs))"
  using assms unfolding host_confined_def by blast+

lemma fs_call_snd: "snd (fs_call path what call fs) = snd (call fs)"
  by (auto simp: fs_call_def split: prod.splits sum.splits)

lemma fs_call_keeps:
  assumes "\<And>fs. still os root P fs (snd (call fs))"
  shows "host.keeps os root P (fs_call path what call)"
  using assms by (intro host.keepsI) (simp add: fs_call_snd)

lemma fs_query_keeps: "host.keeps os root P (fs_query path what query)"
  unfolding fs_query_def by (intro fs_call_keeps) (simp add: host.refl)

lemma write_still:
  assumes "host_confined os" "free_place root p" "p \<in> P"
  shows "still os root P fs (snd (hf_write os p content fs))" "still os root P fs (snd (hf_remove_file os p fs))"
    "still os root P fs (snd (hf_create_dir_all os p fs))"
  using assms(3) kept_free[OF _ assms(2)]
  by (intro touches_still[OF host_laws(1)[OF assms(1)]] touches_still[OF host_laws(2)[OF assms(1)]] touches_still[OF host_laws(4)[OF assms(1)]]; blast)+

lemma create_parent_keeps:
  assumes "host_confined os" "free_place root p" "p \<in> P"
  shows "host.keeps os root P (create_parent os p)"
proof -
  have "still os root P fs (snd (hf_create_dir_all os (path_pop p) fs))" for fs
  proof (rule touches_still)
    assume "\<forall>p\<in>P. unlinked os fs p"
    then have "unlinked os fs (path_pop p)" using assms(3) by (auto intro: unlinked_prefix[OF _ path_pop_prefix])
    then show "touches os (\<lambda>q. prefix q (path_pop p)) (\<lambda>_. False) fs (snd (hf_create_dir_all os (path_pop p) fs))"
      by (rule host_laws(4)[OF assms(1)])
  next
    fix q
    assume "kept_place root q"
    then have "\<not> prefix q p" using kept_free[OF _ assms(2)] by blast
    then show "\<not> prefix q (path_pop p)" using prefix_order.order_trans[OF _ path_pop_prefix] by blast
  qed
  then show ?thesis unfolding create_parent_def by (intro host.keeps_if fs_call_keeps host.keeps_lift)
qed

lemmas guarded_keeps_intros = host.keeps_bind host.keeps_if host.keeps_lift fs_query_keeps fs_call_keeps

lemma guarded_keeps:
  assumes "host_confined os" "free_place root p"
  shows "host.keeps os root {p} (guarded_create os p content)" "host.keeps os root {p} (guarded_create_dir os p)"
    "host.keeps os root {p} (guarded_write env os p content expected)" "host.keeps os root {p} (guarded_delete env os p expected)"
  unfolding guarded_create_def guarded_create_dir_def guarded_write_def guarded_delete_def check_content_def Let_def
  using assms by (intro guarded_keeps_intros create_parent_keeps write_still; simp)+

lemma guarded_delete_dir_keeps:
  assumes "host_confined os" "\<And>q. kept_place root q \<Longrightarrow> \<not> prefix p q"
  shows "host.keeps os root {p} (guarded_delete_dir env os p expected)"
proof -
  have "still os root {p} fs (snd (hf_remove_dir_all os p fs))" for fs
    using assms(2) by (intro touches_still[OF host_laws(3)[OF assms(1)]]) blast+
  then show ?thesis unfolding guarded_delete_dir_def by (intro guarded_keeps_intros)
qed

text \<open>A rename ends with the vault free of symlinks on the way to it, and the kept places as they were.\<close>

definition renames :: "'f host_fs \<Rightarrow> path \<Rightarrow> path \<Rightarrow> path \<Rightarrow> 'f \<Rightarrow> 'f \<Rightarrow> bool" where
  "renames os root from to fs fs' \<longleftrightarrow> (unlinked os fs from \<and> unlinked os fs to \<longrightarrow>
     unlinked os fs' root \<and> (\<forall>q. kept_place root q \<longrightarrow> host_view os fs' q = host_view os fs q))"

lemma still_renames: "still os root {from, to} fs fs' \<Longrightarrow> prefix root to \<Longrightarrow> renames os root from to fs fs'"
  using unlinked_prefix[of os fs' to root] by (auto simp: still_def renames_def)

lemma still_then_renames: "still os root {from, to} u v \<Longrightarrow> renames os root from to v w \<Longrightarrow> renames os root from to u w"
  by (auto simp: still_def renames_def)

lemma renames_bind:
  assumes "host.keeps os root {from, to} m" "prefix root to" "\<And>x v. renames os root from to v (snd (f x v))"
  shows "renames os root from to w (snd (act_bind m f w))"
proof -
  obtain r v where m: "m w = (r, v)" by fastforce
  have "still os root {from, to} w v" using host.keeps_run[OF assms(1) m] .
  then show ?thesis using m still_renames[OF _ assms(2)] still_then_renames[OF _ assms(3)] by (cases r) (auto simp: act_bind_def)
qed

lemma guarded_rename_renames:
  assumes "host_confined os" "free_place root to" "\<And>q. kept_place root q \<Longrightarrow> \<not> prefix from q \<and> \<not> prefix to q"
  shows "renames os root from to fs (snd (guarded_rename os from to fs))"
proof -
  have root: "prefix root to" using assms(2) by (simp add: free_place_def)
  have last: "renames os root from to v (snd (fs_call from what (hf_rename os from to) v))" for v what
    unfolding fs_call_snd renames_def
  proof (intro impI conjI allI)
    assume u: "unlinked os v from \<and> unlinked os v to"
    then have t: "touches os (\<lambda>q. prefix from q \<or> prefix to q) (strict_prefix to) v (snd (hf_rename os from to v))"
      using host_laws(5)[OF assms(1)] by blast
    have "\<not> strict_prefix to q" if "prefix q root" for q using that root by (meson prefix_order.leD prefix_order.order_trans)
    moreover have "unlinked os v root" using u unlinked_prefix[of os v to root] root by simp
    ultimately show "unlinked os (snd (hf_rename os from to v)) root"
      using t by (auto simp: touches_def unlinked_def)
    show "host_view os (snd (hf_rename os from to v)) q = host_view os v q" if "kept_place root q" for q
      using t assms(3)[OF that] unfolding touches_def by blast
  qed
  have lift: "renames os root from to v (snd (act_lift r v))" for r :: "conflict_item + unit" and v
    using still_renames[OF host.refl root] by simp
  show ?thesis unfolding guarded_rename_def
    by (auto intro!: renames_bind fs_query_keeps create_parent_keeps assms(1,2) root last lift[simplified])
qed

section \<open>Whole plans\<close>

lemma guard_path_ok:
  assumes "lower_ascii_ok (ae_lower env)" "nfc_ok (ae_nfc env)" "proper_root root" "guard_path env os root fs0 path = Inr ()"
    "resolve_op_path os root fs path = Inr p"
  shows "free_place root p" "unlinked os fs root \<Longrightarrow> unlinked os fs p" "spares path \<Longrightarrow> kept_place root q \<Longrightarrow> \<not> prefix p q"
proof -
  obtain n where g: "guard_ai_raw_mutation_path (ae_lower env) (ae_nfc env) (hf_guard os fs0) root path = Inr n"
    using assms(4) by (auto simp: guard_path_def split: sum.splits)
  have r: "resolve_vault_path_strict (hf_stat os fs) root path = Inr p" using assms(5) by (simp add: resolve_op_path_def split: sum.splits)
  obtain ws where ws: "lexical (path_components path) [] = Some ws" "p = root @ map Normal ws"
    using r unfolding resolve_strict_ok[OF assms(3)] by blast
  show free: "free_place root p"
    using guard_covers_resolver[OF assms(2,1,3) g r] ws(2) by (simp add: free_place_def)
  show "unlinked os fs root \<Longrightarrow> unlinked os fs p"
    using resolved_no_links[OF assms(3) _ r] by (simp add: unlinked_def)
  show "\<not> prefix p q" if "spares path" "kept_place root q"
    using that(1) ws by (intro kept_below[OF that(2) free ws(2)]) (auto simp: spares_def)
qed

definition kept :: "'f host_fs \<Rightarrow> path \<Rightarrow> 'f \<Rightarrow> 'f \<Rightarrow> bool" where
  "kept os root fs fs' \<longleftrightarrow> (unlinked os fs root \<longrightarrow>
     unlinked os fs' root \<and> (\<forall>q. kept_place root q \<longrightarrow> host_view os fs' q = host_view os fs q))"

lemma kept_refl [simp]: "kept os root fs fs" and kept_trans: "kept os root u v \<Longrightarrow> kept os root v w \<Longrightarrow> kept os root u w"
  by (auto simp: kept_def)

lemma run_at_kept:
  assumes "\<And>p fs. resolve_op_path os root fs path = Inr p \<Longrightarrow> host.keeps os root {p} (act p)"
    and "\<And>p fs. resolve_op_path os root fs path = Inr p \<Longrightarrow> prefix root p \<and> (unlinked os fs root \<longrightarrow> unlinked os fs p)"
  shows "kept os root fs (snd (run_at os root path act fs))"
proof (cases "resolve_op_path os root fs path")
  case (Inr p)
  obtain r fs' where a: "act p fs = (r, fs')" by fastforce
  have "still os root {p} fs fs'" using host.keeps_run[OF assms(1)[OF Inr] a] .
  then show ?thesis using assms(2)[OF Inr] Inr a unlinked_prefix[of os fs' p root]
    by (auto simp: run_at_def kept_def still_def)
qed (simp add: run_at_def)

lemma perform_op_kept:
  assumes os: "host_confined os" and env: "lower_ascii_ok (ae_lower env)" "nfc_ok (ae_nfc env)" "proper_root root"
    and guard: "guard_mutation_op env os root fs0 op = Inr ()" and sp: "op_spares op"
  shows "kept os root fs (snd (perform_op env os root op fs))"
proof -
  have one: "kept os root fs (snd (run_at os root path act fs))"
    if "guard_path env os root fs0 path = Inr ()" "\<And>p. free_place root p \<Longrightarrow> (spares path \<Longrightarrow> \<forall>q. kept_place root q \<longrightarrow> \<not> prefix p q) \<Longrightarrow> host.keeps os root {p} (act p)" for path act
    using guard_path_ok[OF env that(1)] by (intro run_at_kept that(2)) (auto simp: free_place_def)
  show ?thesis
  proof (cases op)
    case (RenameFile a b)
    have g: "guard_path env os root fs0 a = Inr ()" "guard_path env os root fs0 b = Inr ()"
      using guard RenameFile by (auto simp: res_simps)
    show ?thesis
    proof (cases "resolve_op_path os root fs a")
      case from_ok: (Inr p)
      show ?thesis
      proof (cases "resolve_op_path os root fs b")
        case to_ok: (Inr p')
        have "renames os root p p' fs (snd (guarded_rename os p p' fs))"
          using guard_path_ok[OF env g(1) from_ok] guard_path_ok[OF env g(2) to_ok] sp RenameFile by (intro guarded_rename_renames os) auto
        then show ?thesis using guard_path_ok(2)[OF env g(1) from_ok] guard_path_ok(2)[OF env g(2) to_ok] from_ok to_ok RenameFile
          by (auto simp: run_at_def kept_def renames_def split: prod.splits)
      qed (use from_ok RenameFile in \<open>simp add: run_at_def\<close>)
    qed (use RenameFile in simp)
  next
    case (DeleteDirectory path expected)
    then show ?thesis using guard sp guarded_delete_dir_keeps[OF os] by (auto intro!: one)
  qed (use guard guarded_keeps[OF os] in \<open>auto intro!: one\<close>)
qed

lemma aw_fs_search: "aw_fs (snd (sync_search search recorded w)) = aw_fs w"
  by (auto simp: sync_search_def notify_applied_def split: option.splits sum.splits)

lemma apply_ops_kept:
  assumes "host_confined os" "lower_ascii_ok (ae_lower env)" "nfc_ok (ae_nfc env)" "proper_root root"
    and "\<forall>op\<in>set ops. guard_mutation_op env os root fs0 op = Inr () \<and> op_spares op"
  shows "kept os root (aw_fs w) (aw_fs (snd (apply_ops env os search root summary ops applied warnings w)))"
  using assms(5)
proof (induction ops arbitrary: applied warnings w)
  case (Cons op ops)
  obtain r fs where p: "perform_op env os root op (aw_fs w) = (r, fs)" by fastforce
  have k: "kept os root (aw_fs w) fs"
    using perform_op_kept[OF assms(1-4), of fs0 op "aw_fs w"] Cons.prems p by simp
  show ?case
  proof (cases "mutation_for_applied_op os root (aw_fs w) op")
    case (Inr m)
    obtain recorded ledger where rec: "sync_record env m (aw_ledger w) = (recorded, ledger)" by fastforce
    define w' where "w' = w\<lparr>aw_fs := fs, aw_ledger := ledger\<rparr>"
    obtain warning w'' where s: "sync_search search recorded w' = (warning, w'')" by fastforce
    have w'': "aw_fs w'' = fs" using aw_fs_search[of search recorded w'] s by (simp add: w'_def)
    have IH: "kept os root fs (aw_fs (snd (apply_ops env os search root summary ops a ws w'')))" for a ws
      using Cons.IH[of w''] Cons.prems w'' by simp
    show ?thesis
      using kept_trans[OF k IH] k Inr rec p s w''
      by (auto simp: Let_def w'_def[symmetric] sync_cancel_def split: sum.splits) (auto simp: w'_def)
  qed simp
qed simp

section \<open>Guarantees\<close>

lemma guard_ops_all: "guard_ops env os root fs ops = Inr () \<longleftrightarrow> (\<forall>op\<in>set ops. guard_mutation_op env os root fs op = Inr ())"
  by (induction ops) (auto split: sum.splits)

text \<open>
  C16. Whatever a language model proposes and however applying it ends, nothing in the memory, decision and wiki folders and nothing
  outside of the vault changes, as long as no operation deletes or renames the folder above the protected folders or the vault, or renames
  something to the name of that folder or of the vault (\<open>parent_folder_deleted\<close> and \<open>folder_renamed_to_parent\<close> show why).
\<close>

theorem ai_changes_spare_protected:
  assumes "host_confined os" "lower_ascii_ok (ae_lower env)" "nfc_ok (ae_nfc env)"
    and "vi_path vault = Some root" "proper_root root" "unlinked os (aw_fs w) root"
    and "\<forall>op\<in>set (mp_operations plan). op_spares op"
  shows "\<forall>q. kept_place root q \<longrightarrow>
    host_view os (aw_fs (snd (apply_mutation env os search vault plan w))) q = host_view os (aw_fs w) q"
proof (cases "guard_ops env os root (aw_fs w) (mp_operations plan)")
  case (Inr u)
  then have "\<forall>op\<in>set (mp_operations plan). guard_mutation_op env os root (aw_fs w) op = Inr () \<and> op_spares op"
    using assms(7) by (simp add: guard_ops_all)
  from apply_ops_kept[OF assms(1-3,5) this]
  have "kept os root (aw_fs w) (aw_fs (snd (apply_mutation env os search vault plan w)))"
    using assms(4) Inr by (auto simp: apply_mutation_def get_vault_root_def split: sum.split)
  then show ?thesis using assms(6) by (simp add: kept_def)
qed (use assms(4) in \<open>simp add: apply_mutation_def get_vault_root_def\<close>)

fun performed :: "ai_env \<Rightarrow> 'f host_fs \<Rightarrow> path \<Rightarrow> 'f \<Rightarrow> mutation_op list \<Rightarrow> 'f \<Rightarrow> bool" where
  "performed env os root fs [] fs' \<longleftrightarrow> fs' = fs"
| "performed env os root fs (op # ops) fs' \<longleftrightarrow>
     (\<exists>mid. perform_op env os root op fs = (Inr (Inr ()), mid) \<and> performed env os root mid ops fs')"

lemma performed_append: "performed env os root fs (xs @ ys) fs' \<longleftrightarrow> (\<exists>mid. performed env os root fs xs mid \<and> performed env os root mid ys fs')"
  by (induction xs arbitrary: fs) auto

text \<open>Where the loop stopped: behind the operations \<open>ok\<close>, at \<open>op\<close>, with the conflict \<open>item\<close>.\<close>

definition stopped_at :: "ai_env \<Rightarrow> 'f host_fs \<Rightarrow> path \<Rightarrow> 'f \<Rightarrow> mutation_op list \<Rightarrow> mutation_op list \<Rightarrow> mutation_op \<Rightarrow> conflict_item \<Rightarrow>
    mutation_op list \<Rightarrow> 'f \<Rightarrow> bool" where
  "stopped_at env os root fs ops ok op item rest fs' \<longleftrightarrow> ops = ok @ op # rest \<and>
     (\<exists>mid. performed env os root fs ok mid \<and> perform_op env os root op mid = (Inr (Inl item), fs'))"

fun outcome_ok :: "ai_env \<Rightarrow> 'f host_fs \<Rightarrow> path \<Rightarrow> rstr \<Rightarrow> mutation_op list \<Rightarrow> 'f \<Rightarrow> 'f \<Rightarrow> mutation_apply_result \<Rightarrow> bool" where
  "outcome_ok env os root title ops fs fs' (Applied summary warnings) \<longleftrightarrow> performed env os root fs ops fs' \<and>
     summary = (if str_trim title \<noteq> [] then title else if ops = [] then lit ''No operations'' else str_join (lit ''; '') (map op_summary ops))"
| "outcome_ok env os root title ops fs fs' (PartiallyApplied summary applied failed skipped warnings) \<longleftrightarrow>
     (\<exists>ok op item rest. ok \<noteq> [] \<and> stopped_at env os root fs ops ok op item rest fs' \<and>
        applied = map op_summary ok \<and> failed = [op_summary op @ lit '': '' @ ci_reason item] \<and> skipped = map op_summary rest \<and>
        summary = nat_digits (length ok) @ lit '' applied, 1 failed, '' @ nat_digits (length rest) @ lit '' skipped'')"
| "outcome_ok env os root title ops fs fs' (Conflict summary items) \<longleftrightarrow>
     (\<exists>op item rest. stopped_at env os root fs ops [] op item rest fs' \<and> items = [item] \<and>
        summary = lit ''Commit-time conflict. No changes were applied.'')"

lemma stopped_outcome:
  assumes "stopped_at env os root fs ops ok op item rest fs'"
  shows "outcome_ok env os root title ops fs fs' (stopped_result op rest (map op_summary ok) warnings item)"
proof (cases "ok = []")
  case True
  show ?thesis unfolding stopped_result_def
    by (simp add: True; rule exI[of _ op]; rule exI[of _ rest]; simp add: assms[unfolded True])
next
  case False
  show ?thesis unfolding stopped_result_def
    by (simp add: False; rule exI[of _ ok]; rule conjI[OF False]; rule exI[of _ op]; rule exI[of _ item]; rule exI[of _ rest]; simp add: assms)
qed

lemma apply_ops_outcome:
  assumes "performed env os root fs ok (aw_fs w)"
    and "apply_ops env os search root summary ops (map op_summary ok) warnings w = (Inr res, w')"
  shows "outcome_ok env os root summary (ok @ ops) fs (aw_fs w') res"
  using assms
proof (induction ops arbitrary: ok warnings w)
  case (Cons op ops)
  obtain m where m: "mutation_for_applied_op os root (aw_fs w) op = Inr m" using Cons.prems(2) by (auto split: sum.splits)
  obtain recorded ledger where rec: "sync_record env m (aw_ledger w) = (recorded, ledger)" by fastforce
  obtain r fs1 where p: "perform_op env os root op (aw_fs w) = (r, fs1)" by fastforce
  define w1 where "w1 = w\<lparr>aw_fs := fs1, aw_ledger := ledger\<rparr>"
  obtain x where r: "r = Inr x" using Cons.prems(2) m rec p by (auto simp del: sync_record.simps simp: Let_def split: sum.splits)
  show ?case
  proof (cases x)
    case (Inl item)
    then have res: "res = stopped_result op ops (map op_summary ok) warnings item" "aw_fs w' = fs1"
      using Cons.prems(2) m rec p r by (auto simp del: sync_record.simps simp: Let_def sync_cancel_def)
    have "stopped_at env os root fs (ok @ op # ops) ok op item ops (aw_fs w')"
      using Cons.prems(1) p r Inl res(2) by (auto simp: stopped_at_def)
    then show ?thesis unfolding res(1) by (rule stopped_outcome)
  next
    case (Inr u)
    obtain warning w2 where s: "sync_search search recorded w1 = (warning, w2)" by fastforce
    have w2: "aw_fs w2 = fs1" using aw_fs_search[of search recorded w1] s by (simp add: w1_def)
    have "performed env os root fs (ok @ [op]) (aw_fs w2)"
      using Cons.prems(1) p r Inr w2 by (auto simp: performed_append)
    moreover have "apply_ops env os search root summary ops (map op_summary (ok @ [op]))
        (case warning of Some t \<Rightarrow> warnings @ [t] | None \<Rightarrow> warnings) w2 = (Inr res, w')"
      using Cons.prems(2) m rec p r Inr s by (simp del: sync_record.simps add: Let_def w1_def)
    ultimately show ?thesis using Cons.IH by fastforce
  qed
qed (auto simp: applied_summary_def)


text \<open>An edit or deletion is only performed on the content that the plan was made for.\<close>

lemma check_content_Inr:
  "check_content env os p expected fs = (Inr u, fs') \<longleftrightarrow> fs' = fs \<and> (\<exists>current. hf_read os fs p = Inr current \<and> compute_checksum env current = expected)"
  by (auto simp: check_content_def act_bind_Inr fs_query_def fs_call_def Let_def split: sum.splits if_splits)

lemma performed_edit_current:
  assumes "perform_op env os root op fs = (Inr (Inr ()), fs')"
    and "op = ReplaceFile path content expected excerpt \<or> op = DeleteFile path expected"
  shows "\<exists>p current. resolve_op_path os root fs path = Inr p \<and> hf_read os fs p = Inr current \<and> compute_checksum env current = expected"
  using assms
  by (auto simp: run_at_def guarded_write_def guarded_delete_def act_bind_Inr check_content_Inr split: sum.splits prod.splits)

section \<open>Concrete instances\<close>

text \<open>Files as a map from paths to texts, without symlinks.\<close>

definition map_host :: "(path \<Rightarrow> rstr option) host_fs" where
  "map_host =
     \<lparr>hf_guard = (\<lambda>_. plain_guard_fs), hf_exists = (\<lambda>fs p. Inr (fs p \<noteq> None)), hf_is_dir = (\<lambda>_ _. Inr False),
      hf_read = (\<lambda>fs p. case fs p of Some s \<Rightarrow> Inr s | None \<Rightarrow> Inl (lit ''not found'')),
      hf_read_bytes = (\<lambda>fs p. case fs p of Some s \<Rightarrow> Inr (as_bytes s) | None \<Rightarrow> Inl (lit ''not found'')),
      hf_tree = (\<lambda>_ _. FsDir [] None), hf_create_dir_all = (\<lambda>_ fs. (Inr (), fs)),
      hf_write = (\<lambda>p s fs. (Inr (), fs(p := Some s))), hf_remove_file = (\<lambda>p fs. (Inr (), fs(p := None))),
      hf_remove_dir_all = (\<lambda>p fs. (Inr (), \<lambda>q. if prefix p q then None else fs q)),
      hf_rename = (\<lambda>p to fs. (Inr (), \<lambda>q. if prefix to q then fs (p @ drop (length to) q) else if prefix p q then None else fs q))\<rparr>"

lemma map_host_fields [simp]:
  "hf_guard map_host fs = plain_guard_fs" "hf_exists map_host fs p = Inr (fs p \<noteq> None)"
  "hf_read map_host fs p = (case fs p of Some s \<Rightarrow> Inr s | None \<Rightarrow> Inl (lit ''not found''))"
  "hf_create_dir_all map_host p fs = (Inr (), fs)" "hf_write map_host p s fs = (Inr (), fs(p := Some s))"
  "hf_remove_file map_host p fs = (Inr (), fs(p := None))"
  "hf_remove_dir_all map_host p fs = (Inr (), \<lambda>q. if prefix p q then None else fs q)"
  "hf_rename map_host p to fs =
     (Inr (), \<lambda>q. if prefix to q then fs (p @ drop (length to) q) else if prefix p q then None else fs q)"
  by (simp_all add: map_host_def)

lemma map_host_stat [simp]: "hf_stat map_host fs p = Some False"
  by (simp add: hf_stat_def plain_guard_fs_def)

lemma map_host_touches: "(\<And>q. \<not> at q \<Longrightarrow> fs' q = fs q) \<Longrightarrow> touches map_host at fresh fs fs'"
  by (simp add: touches_def host_view_def)

lemma map_host_confined: "host_confined map_host"
  unfolding host_confined_def by (auto intro!: map_host_touches split: if_splits)

definition ai_example_env :: ai_env where
  "ai_example_env = \<lparr>ae_lower = to_ascii_lowercase, ae_nfc = (\<lambda>s. s), ae_hash = (\<lambda>_. []), ae_now = 0\<rparr>"

definition example_plan :: mutation_plan where
  "example_plan = \<lparr>mp_summary = [], mp_operations = [CreateFile (lit ''Notes/x.md'') (lit ''hi'')]\<rparr>"

definition ai_example_world :: "(path \<Rightarrow> rstr option) ai_world" where
  "ai_example_world = \<lparr>aw_fs = (\<lambda>_. None), aw_ledger = \<lparr>ml_entries = [], ml_next_id = 0\<rparr>, aw_notices = []\<rparr>"

definition open_vault :: vault_inner where
  "open_vault = \<lparr>vi_path = Some guarded_vault, vi_watching = False\<rparr>"

lemma example_vault_ok: "proper_root guarded_vault" "vi_path open_vault = Some guarded_vault"
  by (simp_all add: proper_root_def open_vault_def)

definition protected_note :: path where
  "protected_note = guarded_vault @ [Normal (lit ''Knowledge''), Normal (lit ''Memory''), Normal (lit ''a.md'')]"

lemma protected_note_kept: "kept_place guarded_vault protected_note"
  by (simp add: kept_place_def protected_place_def protected_note_def protected_folder_def std_simps)

theorem ai_changes_spare_protected_witness:
  "host_view map_host (aw_fs (snd (apply_mutation ai_example_env map_host (\<lambda>_. Inr ()) open_vault example_plan ai_example_world))) protected_note =
    host_view map_host (aw_fs ai_example_world) protected_note"
proof -
  have "unlinked map_host (aw_fs ai_example_world) guarded_vault" by (simp add: unlinked_def)
  moreover have "lower_ascii_ok (ae_lower ai_example_env)" "nfc_ok (ae_nfc ai_example_env)"
    using lower_ascii_ok_ascii id_nfc_ok by (simp_all add: ai_example_env_def)
  moreover have "\<forall>op\<in>set (mp_operations example_plan). op_spares op" by (simp add: example_plan_def)
  ultimately show ?thesis
    using ai_changes_spare_protected[OF map_host_confined _ _ example_vault_ok(2,1)] protected_note_kept by blast
qed

lemma example_resolves: "resolve_op_path map_host guarded_vault fs (lit ''Notes/x.md'') = Inr [RootDir, Normal (lit ''v''), Normal (lit ''Notes''), Normal (lit ''x.md'')]"
  by (simp add: resolve_op_path_def resolve_vault_path_strict_def resolve_vault_path_def assert_no_symlink_within_vault_def path_strip_prefix_def std_simps Let_def)


text \<open>The folder above the protected folders can be deleted, and the protected files with it.\<close>

definition dir_host :: "(path \<Rightarrow> rstr option) host_fs" where
  "dir_host = map_host\<lparr>hf_is_dir := (\<lambda>_ _. Inr True)\<rparr>"

lemma parent_folder_deleted:
  "guard_mutation_op ai_example_env dir_host guarded_vault fs (DeleteDirectory (lit ''Knowledge'') []) = Inr () \<and>
   perform_op ai_example_env dir_host guarded_vault (DeleteDirectory (lit ''Knowledge'') []) fs =
     (Inr (Inr ()), \<lambda>q. if prefix (guarded_vault @ [Normal (lit ''Knowledge'')]) q then None else fs q)"
proof
  show "guard_mutation_op ai_example_env dir_host guarded_vault fs (DeleteDirectory (lit ''Knowledge'') []) = Inr ()"
    using guard_accepts_parent by (simp add: guard_path_def ai_example_env_def dir_host_def map_host_def)
  have st: "hf_stat dir_host fs p = Some False" for p by (simp add: hf_stat_def dir_host_def plain_guard_fs_def)
  have "resolve_op_path dir_host guarded_vault fs (lit ''Knowledge'') = Inr (guarded_vault @ [Normal (lit ''Knowledge'')])"
    by (simp add: resolve_op_path_def resolve_vault_path_strict_def resolve_vault_path_def assert_no_symlink_within_vault_def
        path_strip_prefix_def st std_simps Let_def)
  then show "perform_op ai_example_env dir_host guarded_vault (DeleteDirectory (lit ''Knowledge'') []) fs =
     (Inr (Inr ()), \<lambda>q. if prefix (guarded_vault @ [Normal (lit ''Knowledge'')]) q then None else fs q)"
    by (simp add: run_at_def guarded_delete_dir_def act_bind_def fs_query_def fs_call_def compute_directory_checksum_def dir_host_def
        map_host_def ai_example_env_def del: lit_simps)
qed

text \<open>Where there is no such folder yet, another folder can take its name, and what lies in it becomes a protected file.\<close>

lemma folder_renamed_to_parent:
  assumes "fs (guarded_vault @ [Normal (lit ''S'')]) \<noteq> None" "fs (guarded_vault @ [Normal (lit ''Knowledge'')]) = None"
    and "fs (guarded_vault @ [Normal (lit ''S''), Normal (lit ''memory''), Normal (lit ''x.md'')]) = Some note"
  shows "guard_mutation_op ai_example_env map_host guarded_vault fs (RenameFile (lit ''S'') (lit ''Knowledge'')) = Inr () \<and>
   (\<exists>fs'. perform_op ai_example_env map_host guarded_vault (RenameFile (lit ''S'') (lit ''Knowledge'')) fs = (Inr (Inr ()), fs') \<and>
      fs' (guarded_vault @ [Normal (lit ''Knowledge''), Normal (lit ''memory''), Normal (lit ''x.md'')]) = Some note)"
proof
  show "guard_mutation_op ai_example_env map_host guarded_vault fs (RenameFile (lit ''S'') (lit ''Knowledge'')) = Inr ()"
    using guard_accepts_parent guard_accepts_folder by (simp add: guard_path_def ai_example_env_def res_simps)
  have "resolve_op_path map_host guarded_vault fs (lit ''S'') = Inr (guarded_vault @ [Normal (lit ''S'')])"
      "resolve_op_path map_host guarded_vault fs (lit ''Knowledge'') = Inr (guarded_vault @ [Normal (lit ''Knowledge'')])"
    by (simp_all add: resolve_op_path_def resolve_vault_path_strict_def resolve_vault_path_def assert_no_symlink_within_vault_def
        path_strip_prefix_def std_simps Let_def)
  then show "\<exists>fs'. perform_op ai_example_env map_host guarded_vault (RenameFile (lit ''S'') (lit ''Knowledge'')) fs = (Inr (Inr ()), fs') \<and>
      fs' (guarded_vault @ [Normal (lit ''Knowledge''), Normal (lit ''memory''), Normal (lit ''x.md'')]) = Some note"
    using assms by (simp add: run_at_def guarded_rename_def create_parent_def act_bind_def fs_query_def fs_call_def del: lit_simps)
qed

text \<open>A file that cannot be written after its folders were made: reported as a conflict without changes, with the folders in place.\<close>

lemma conflict_after_folders:
  assumes "hf_exists os fs p = Inr False" "path_has_parent p" "hf_create_dir_all os (path_pop p) fs = (Inr (), made)"
    and "hf_write os p content made = (Inl e, made)"
  shows "\<exists>item. guarded_create os p content fs = (Inl item, made)"
  using assms by (simp add: guarded_create_def create_parent_def act_bind_def fs_query_def fs_call_def)

end
