(* ===== verification/Ai_Session.thy ===== *)
theory Ai_Session
  imports Ai_Mutations Ai_History "HOL-Library.AList"
begin

text \<open>
  The life of an AI session (\<open>kuku-ai/session.rs\<close>) with its tools (\<open>kuku-ai/tools\<close>): the control block of a session, approvals,
  snapshots of paths, the loop of a turn over requests to the model and calls of tools, and the gate that applies a
  change only after an approval.

  Everything else that happens to the session while a turn waits is data: a \<^emph>\<open>script\<close>. At every point where the turn awaits,
  the next batch of the script takes effect: commands of the user interface, of plug-ins and of other turns of the
  session. A statement about all scripts is a statement about all interleavings. A wait that nothing in the script ends is the
  value \<open>Suspended\<close>. The provider, the native tools and the host are parameters that act on a state \<open>'x\<close>.
\<close>

section \<open>One-shot channels under a key\<close>

text \<open>
  \<open>HashMap<String, oneshot::Sender<T>>\<close>: channels are numbered; a channel has a sender in the map, a receiver, and the value that
  was sent. Inserting under a key drops the sender that was there.
\<close>

record 'm channels =
  ch_count :: nat
  ch_senders :: "rstr \<rightharpoonup> nat"
  ch_receivers :: "nat \<Rightarrow> bool"
  ch_sent :: "nat \<rightharpoonup> 'm"

datatype 'm poll = Pending | Dropped | Received 'm

definition ch_empty :: "'m channels" where
  "ch_empty = \<lparr>ch_count = 0, ch_senders = Map.empty, ch_receivers = (\<lambda>_. False), ch_sent = Map.empty\<rparr>"

definition ch_open :: "rstr \<Rightarrow> 'm channels \<Rightarrow> nat \<times> 'm channels" where
  "ch_open key c = (ch_count c, c\<lparr>ch_count := Suc (ch_count c), ch_senders := (ch_senders c)(key \<mapsto> ch_count c),
     ch_receivers := (ch_receivers c)(ch_count c := True)\<rparr>)"

definition ch_clear :: "rstr \<Rightarrow> 'm channels \<Rightarrow> 'm channels" where
  "ch_clear key c = c\<lparr>ch_senders := (ch_senders c)(key := None)\<rparr>"

text \<open>\<open>remove\<close> and \<open>send\<close>: no sender under the key, the receiver is gone, or the value is delivered.\<close>

definition ch_send :: "rstr \<Rightarrow> 'm \<Rightarrow> 'm channels \<Rightarrow> bool option \<times> 'm channels" where
  "ch_send key v c =
     (case ch_senders c key of
        None \<Rightarrow> (None, c)
      | Some n \<Rightarrow>
          if ch_receivers c n then (Some True, (ch_clear key c)\<lparr>ch_sent := (ch_sent c)(n \<mapsto> v)\<rparr>) else (Some False, ch_clear key c))"

definition ch_close :: "nat \<Rightarrow> 'm channels \<Rightarrow> 'm channels" where
  "ch_close n c = c\<lparr>ch_receivers := (ch_receivers c)(n := False)\<rparr>"

definition ch_poll :: "rstr \<Rightarrow> nat \<Rightarrow> 'm channels \<Rightarrow> 'm poll" where
  "ch_poll key n c =
     (case ch_sent c n of Some v \<Rightarrow> Received v | None \<Rightarrow> if ch_senders c key = Some n then Pending else Dropped)"

section \<open>Sessions\<close>

datatype session_status = Idle | Streaming | AwaitingApproval | Applying

datatype approval_decision = Approve | Reject

text \<open>A cancellation token is a number; \<open>sr_cancelled\<close> tells which of them are cancelled.\<close>

record session_control =
  sc_status :: session_status
  sc_cancel :: "nat option"
  sc_deferred_cancel :: bool

record path_snapshot =
  ps_checksum :: rstr
  ps_is_dir :: bool

record 'v session_runtime =
  sr_mode :: chat_mode
  sr_messages :: "'v chat_message list"
  sr_editor_context :: editor_context
  sr_approvals :: "approval_decision channels"
  sr_path_snapshots :: "rstr \<rightharpoonup> path_snapshot"
  sr_control :: session_control
  sr_tokens :: nat
  sr_cancelled :: "nat \<Rightarrow> bool"

definition session_new :: "chat_mode \<Rightarrow> 'v session_runtime" where
  "session_new mode =
     \<lparr>sr_mode = mode, sr_messages = [],
      sr_editor_context = \<lparr>ec_active_file = None, ec_selected_text = None, ec_embedded_files = [], ec_open_tabs = [], ec_cursor_line = None\<rparr>,
      sr_approvals = ch_empty, sr_path_snapshots = Map.empty,
      sr_control = \<lparr>sc_status = Idle, sc_cancel = None, sc_deferred_cancel = False\<rparr>, sr_tokens = 0, sr_cancelled = (\<lambda>_. False)\<rparr>"

definition replace_mode :: "chat_mode \<Rightarrow> 'v session_runtime \<Rightarrow> chat_mode \<times> 'v session_runtime" where
  "replace_mode mode s = (sr_mode s, s\<lparr>sr_mode := mode\<rparr>)"

definition start_run :: "'v session_runtime \<Rightarrow> (ai_error + nat) \<times> 'v session_runtime" where
  "start_run s =
     (if sc_status (sr_control s) \<noteq> Idle then (Inl AiSessionBusy, s)
      else (Inr (sr_tokens s),
        s\<lparr>sr_tokens := Suc (sr_tokens s),
          sr_control := \<lparr>sc_status = Streaming, sc_cancel = Some (sr_tokens s), sc_deferred_cancel = False\<rparr>\<rparr>))"

definition cancel_token :: "nat option \<Rightarrow> 'v session_runtime \<Rightarrow> 'v session_runtime" where
  "cancel_token token s = (case token of None \<Rightarrow> s | Some n \<Rightarrow> s\<lparr>sr_cancelled := (sr_cancelled s)(n := True)\<rparr>)"

definition session_cancel :: "'v session_runtime \<Rightarrow> 'v session_runtime" where
  "session_cancel s =
     (let control = sr_control s
      in case sc_status control of
           Applying \<Rightarrow> cancel_token (sc_cancel control) (s\<lparr>sr_control := control\<lparr>sc_deferred_cancel := True\<rparr>\<rparr>)
         | _ \<Rightarrow> cancel_token (sc_cancel control) (s\<lparr>sr_control := control\<lparr>sc_cancel := None\<rparr>\<rparr>))"

definition set_status :: "session_status \<Rightarrow> 'v session_runtime \<Rightarrow> 'v session_runtime" where
  "set_status status s = s\<lparr>sr_control := (sr_control s)\<lparr>sc_status := status\<rparr>\<rparr>"

definition begin_awaiting_approval :: "rstr \<Rightarrow> 'v session_runtime \<Rightarrow> nat \<times> 'v session_runtime" where
  "begin_awaiting_approval call_id s =
     (let (n, c) = ch_open call_id (sr_approvals s) in (n, set_status AwaitingApproval (s\<lparr>sr_approvals := c\<rparr>)))"

definition resolve_approval :: "rstr \<Rightarrow> bool \<Rightarrow> 'v session_runtime \<Rightarrow> (ai_error + unit) \<times> 'v session_runtime" where
  "resolve_approval call_id approved s =
     (let (sent, c) = ch_send call_id (if approved then Approve else Reject) (sr_approvals s)
      in (if sent = Some True then Inr () else Inl AiApprovalNotFound, s\<lparr>sr_approvals := c\<rparr>))"

definition clear_approval :: "rstr \<Rightarrow> 'v session_runtime \<Rightarrow> 'v session_runtime" where
  "clear_approval call_id s = s\<lparr>sr_approvals := ch_clear call_id (sr_approvals s)\<rparr>"

definition remember_path_snapshot :: "rstr \<Rightarrow> rstr \<Rightarrow> bool \<Rightarrow> 'v session_runtime \<Rightarrow> 'v session_runtime" where
  "remember_path_snapshot path checksum is_dir s =
     s\<lparr>sr_path_snapshots := (sr_path_snapshots s)(path \<mapsto> \<lparr>ps_checksum = checksum, ps_is_dir = is_dir\<rparr>)\<rparr>"

definition path_snapshot_of :: "rstr \<Rightarrow> 'v session_runtime \<Rightarrow> (rstr \<times> bool) option" where
  "path_snapshot_of path s = map_option (\<lambda>p. (ps_checksum p, ps_is_dir p)) (sr_path_snapshots s path)"

definition checksum_for_content :: "ai_env \<Rightarrow> rstr \<Rightarrow> rstr" where
  "checksum_for_content env content = ae_hash env (as_bytes content)"

definition empty_directory_checksum :: "ai_env \<Rightarrow> rstr" where
  "empty_directory_checksum env = ae_hash env []"

fun snapshot_applied :: "ai_env \<Rightarrow> mutation_op \<Rightarrow> (rstr \<rightharpoonup> path_snapshot) \<Rightarrow> (rstr \<rightharpoonup> path_snapshot)" where
  "snapshot_applied env (CreateFile path content) m = m(path \<mapsto> \<lparr>ps_checksum = checksum_for_content env content, ps_is_dir = False\<rparr>)"
| "snapshot_applied env (ReplaceFile path content _ _) m = m(path \<mapsto> \<lparr>ps_checksum = checksum_for_content env content, ps_is_dir = False\<rparr>)"
| "snapshot_applied env (CreateDirectory path) m = m(path \<mapsto> \<lparr>ps_checksum = empty_directory_checksum env, ps_is_dir = True\<rparr>)"
| "snapshot_applied env (DeleteFile path _) m = m(path := None)"
| "snapshot_applied env (DeleteDirectory path _) m = m(path := None)"
| "snapshot_applied env (RenameFile src dst) m =
     (case m src of Some snapshot \<Rightarrow> (m(src := None))(dst \<mapsto> snapshot) | None \<Rightarrow> (m(src := None))(dst := None))"

definition apply_successful_mutation :: "ai_env \<Rightarrow> mutation_op list \<Rightarrow> 'v session_runtime \<Rightarrow> 'v session_runtime" where
  "apply_successful_mutation env ops s = s\<lparr>sr_path_snapshots := fold (snapshot_applied env) ops (sr_path_snapshots s)\<rparr>"

fun snapshot_cleared :: "mutation_op \<Rightarrow> (rstr \<rightharpoonup> path_snapshot) \<Rightarrow> (rstr \<rightharpoonup> path_snapshot)" where
  "snapshot_cleared (RenameFile src dst) m = (m(src := None))(dst := None)"
| "snapshot_cleared (CreateFile path _) m = m(path := None)"
| "snapshot_cleared (CreateDirectory path) m = m(path := None)"
| "snapshot_cleared (ReplaceFile path _ _ _) m = m(path := None)"
| "snapshot_cleared (DeleteFile path _) m = m(path := None)"
| "snapshot_cleared (DeleteDirectory path _) m = m(path := None)"

definition clear_mutation_snapshots :: "mutation_op list \<Rightarrow> 'v session_runtime \<Rightarrow> 'v session_runtime" where
  "clear_mutation_snapshots ops s = s\<lparr>sr_path_snapshots := fold snapshot_cleared ops (sr_path_snapshots s)\<rparr>"

definition complete_run :: "'v session_runtime \<Rightarrow> bool \<times> 'v session_runtime" where
  "complete_run s =
     (sc_deferred_cancel (sr_control s), s\<lparr>sr_control := \<lparr>sc_status = Idle, sc_cancel = None, sc_deferred_cancel = False\<rparr>\<rparr>)"

definition remember_embedded_file_snapshots :: "editor_context \<Rightarrow> 'v session_runtime \<Rightarrow> 'v session_runtime" where
  "remember_embedded_file_snapshots ctx s =
     fold (\<lambda>file. remember_path_snapshot (ef_path file) (ef_checksum file) False) (ec_embedded_files ctx) s"

section \<open>Tools and providers\<close>

datatype tool_access = ReadOnly | ProposesMutation

datatype tool_source = Native | Proxy

record 'v tool_descriptor =
  td_tool_id :: rstr
  td_name :: rstr
  td_description :: rstr
  td_parameters :: 'v
  td_category :: rstr
  td_access :: tool_access
  td_source :: tool_source

definition allowed_tools :: "chat_mode \<Rightarrow> 'v tool_descriptor list \<Rightarrow> 'v tool_descriptor list" where
  "allowed_tools mode descriptors =
     (case mode of
        Agent \<Rightarrow> descriptors
      | Ask \<Rightarrow> filter (\<lambda>tool. td_access tool = ReadOnly) descriptors
      | Inline \<Rightarrow> filter (\<lambda>tool. td_access tool = ReadOnly \<or> td_tool_id tool = lit ''builtin.edit_file'' \<or>
          td_name tool = lit ''edit_file'') descriptors)"

record 'v proxy_tool_descriptor =
  pt_tool_id :: rstr
  pt_name :: rstr
  pt_description :: rstr
  pt_parameters :: 'v
  pt_category :: rstr

definition as_tool_descriptor :: "'v proxy_tool_descriptor \<Rightarrow> 'v tool_descriptor" where
  "as_tool_descriptor p =
     \<lparr>td_tool_id = pt_tool_id p, td_name = pt_name p, td_description = pt_description p, td_parameters = pt_parameters p,
      td_category = pt_category p, td_access = ReadOnly, td_source = Proxy\<rparr>"

record native_tool_result =
  nr_text :: rstr
  nr_mutation :: "mutation_plan option"
  nr_preview_text :: "rstr option"

datatype tool_error = InvalidArguments rstr | ExecutionFailed rstr

fun tool_error_text :: "tool_error \<Rightarrow> rstr" where
  "tool_error_text (InvalidArguments e) = lit ''Invalid tool arguments: '' @ e"
| "tool_error_text (ExecutionFailed e) = lit ''Tool execution failed: '' @ e"

record tool_call_context =
  tx_mode :: chat_mode
  tx_editor_context :: editor_context

record ('v, 'x) native_tool =
  nt_descriptor :: "'v tool_descriptor"
  nt_call :: "tool_call_context \<Rightarrow> 'v \<Rightarrow> (tool_error, 'x, native_tool_result) eact"

text \<open>The hash maps of the registry as association lists, in the order in which iteration meets the entries.\<close>

record ('v, 'x) tool_registry =
  rg_native :: "(rstr \<times> ('v, 'x) native_tool) list"
  rg_proxy :: "(rstr \<times> 'v proxy_tool_descriptor) list"

definition get_native :: "rstr \<Rightarrow> ('v, 'x) tool_registry \<Rightarrow> ('v, 'x) native_tool option" where
  "get_native name r = map_of (rg_native r) name"

definition get_proxy :: "rstr \<Rightarrow> ('v, 'x) tool_registry \<Rightarrow> 'v proxy_tool_descriptor option" where
  "get_proxy name r = map_of (rg_proxy r) name"

definition register_native :: "('v, 'x) native_tool \<Rightarrow> ('v, 'x) tool_registry \<Rightarrow> ('v, 'x) tool_registry" where
  "register_native tool r = r\<lparr>rg_native := AList.update (td_name (nt_descriptor tool)) tool (rg_native r)\<rparr>"

definition register_proxy :: "'v proxy_tool_descriptor \<Rightarrow> ('v, 'x) tool_registry \<Rightarrow> ('v, 'x) tool_registry" where
  "register_proxy d r = r\<lparr>rg_proxy := AList.update (pt_name d) d (rg_proxy r)\<rparr>"

definition unregister_proxy :: "rstr \<Rightarrow> ('v, 'x) tool_registry \<Rightarrow> ('v, 'x) tool_registry" where
  "unregister_proxy name r = r\<lparr>rg_proxy := AList.delete name (rg_proxy r)\<rparr>"

definition registry_descriptors :: "('v, 'x) tool_registry \<Rightarrow> 'v tool_descriptor list" where
  "registry_descriptors r =
     sort_key td_name (map (nt_descriptor \<circ> snd) (rg_native r) @ map (as_tool_descriptor \<circ> snd) (rg_proxy r))"

datatype provider_kind = Gemini | OpenAi | Remote

record ai_config =
  cf_provider :: provider_kind
  cf_api_key :: "rstr option"
  cf_openai_api_key :: "rstr option"
  cf_openai_base_url :: "rstr option"
  cf_openai_model :: "rstr option"
  cf_model :: rstr
  cf_server_url :: "rstr option"
  cf_round_limit :: nat
  cf_proxy_tool_timeout_ms :: nat

datatype finish_reason = Stop | ToolCalls | ToolRoundLimit | FinishCancelled | FinishError

record token_usage =
  tu_input_tokens :: nat
  tu_output_tokens :: nat
  tu_total_tokens :: nat
  tu_cached_input_tokens :: nat

datatype 'v completion_event =
  TextDelta rstr
| ToolCallsEvent "'v model_tool_call list"
| Finished finish_reason "token_usage option"

datatype tool_choice = ChooseAuto | ChooseRequired | ChooseNone

record 'v completion_turn_request =
  cr_model :: rstr
  cr_system_prompt :: "rstr option"
  cr_messages :: "'v chat_message list"
  cr_tools :: "'v tool_descriptor list"
  cr_tool_choice :: tool_choice
  cr_authorization_header :: "rstr option"

definition build_system_prompt :: "chat_mode \<Rightarrow> 'v tool_descriptor list \<Rightarrow> rstr" where
  "build_system_prompt mode tools =
     (let instruction =
        (case mode of
           Ask \<Rightarrow> lit ''You are Kuku AI in Ask mode. Answer clearly. You may use read-only tools when useful.''
         | Agent \<Rightarrow> lit ''You are Kuku AI in Agent mode. You may read from the vault and, when needed, propose edits through tools.''
         | Inline \<Rightarrow> lit ''You are Kuku AI in Inline mode. Work from the active editor context. You may use read-only tools and may propose edits only with edit_file on the current active file. Never create, delete, move, or rename files in Inline mode. If the selected text is only an excerpt, read the active file before proposing edits and preserve unrelated content.'')
      in if tools = [] then instruction
         else instruction @ [10, 10] @ lit ''All tool paths are vault-relative. Use an empty string for the vault root, never '' @ [39, 47, 39] @ lit ''.'' @
           [10, 10] @ lit ''Available tools:'' @ [10] @
           str_join [10] (map (\<lambda>tool. lit ''- '' @ td_name tool @ lit '': '' @ td_description tool) tools))"

fun ai_error_text :: "ai_error \<Rightarrow> rstr" where
  "ai_error_text AiNotConfigured = lit ''AI is not configured. Choose a connection in Settings and add its API key or model.''"
| "ai_error_text AiSessionNotFound = lit ''AI session not found.''"
| "ai_error_text AiSessionBusy = lit ''AI session is already running.''"
| "ai_error_text AiCancelled = lit ''AI request was cancelled.''"
| "ai_error_text AiHostUnavailable = lit ''AI host is not registered.''"
| "ai_error_text AiApprovalNotFound = lit ''Approval request not found.''"
| "ai_error_text AiUnauthorized = lit ''Authorization expired or invalid.''"
| "ai_error_text (AiProviderInit e) = lit ''Provider init failed: '' @ e"
| "ai_error_text (AiProviderError e) = lit ''Provider request failed: '' @ e"
| "ai_error_text (AiInvalidArguments e) = lit ''Invalid arguments: '' @ e"
| "ai_error_text (AiToolNotFound e) = lit ''Tool not found: '' @ e"
| "ai_error_text (AiProxyTimeout e) = lit ''Proxy tool timeout: '' @ e"
| "ai_error_text (AiState e) = lit ''State error: '' @ e"
| "ai_error_text (AiIo e) = lit ''I/O error: '' @ e"

section \<open>The world of a turn\<close>

datatype 'v turn_event =
  StreamChunk rstr
| Done finish_reason "token_usage option"
| ErrorShown rstr
| ToolCallStart rstr rstr rstr 'v
| ToolCallEnd rstr rstr rstr rstr bool
| PendingApproval rstr rstr rstr mutation_plan "rstr option"
| ProxyToolCall rstr rstr rstr 'v

text \<open>What others do to the session, the broker and the registry while a turn waits; the last six are steps of another turn.\<close>

datatype 'v outside =
  CancelSession
| ResolveApproval rstr bool
| SubmitProxyResult rstr rstr bool
| RegisterProxyTool "'v proxy_tool_descriptor"
| UnregisterProxyTool rstr
| OtherStart
| OtherComplete
| OtherStatus session_status
| OtherApproval rstr
| OtherClear rstr
| OtherMessage "'v chat_message"
| OtherPending rstr
| OtherPendingClear rstr

record 'v batch =
  bt_commands :: "'v outside list"
  bt_cancel_first :: bool
  bt_timeout :: bool

record ('v, 'x) turn_world =
  tw_session :: "'v session_runtime"
  tw_broker :: "(rstr \<times> bool) channels"
  tw_registry :: "('v, 'x) tool_registry"
  tw_ext :: 'x
  tw_events :: "'v turn_event list"
  tw_script :: "'v batch list"
  tw_requests :: "'v completion_turn_request list"
  tw_applied :: "(rstr \<times> mutation_plan) list"

text \<open>The last two fields record the requests to the provider and the plans handed to the host.\<close>

record ('v, 'x) ai_host =
  ah_apply :: "mutation_plan \<Rightarrow> (ai_error, 'x, mutation_apply_result) eact"
  ah_authorization :: "(ai_error, 'x, rstr option) eact"
  ah_refresh :: "(ai_error, 'x, rstr option) eact"

record ('v, 'x) turn_env =
  te_ai :: ai_env
  te_to_json :: "'v \<Rightarrow> rstr option"
  te_config :: ai_config
  te_backend :: "ai_error + ('v completion_turn_request \<Rightarrow> (ai_error, 'x, (ai_error + 'v completion_event) list) eact)"
  te_host :: "('v, 'x) ai_host option"

datatype stop = Suspended | Raised ai_error

type_synonym ('v, 'x, 'a) tact = "(stop, ('v, 'x) turn_world, 'a) eact"

abbreviation on_session :: "('v session_runtime \<Rightarrow> 'v session_runtime) \<Rightarrow> ('v, 'x) turn_world \<Rightarrow> ('v, 'x) turn_world" where
  "on_session f w \<equiv> w\<lparr>tw_session := f (tw_session w)\<rparr>"

abbreviation on_broker :: "((rstr \<times> bool) channels \<Rightarrow> (rstr \<times> bool) channels) \<Rightarrow> ('v, 'x) turn_world \<Rightarrow> ('v, 'x) turn_world" where
  "on_broker f w \<equiv> w\<lparr>tw_broker := f (tw_broker w)\<rparr>"

definition push_message :: "'v chat_message \<Rightarrow> 'v session_runtime \<Rightarrow> 'v session_runtime" where
  "push_message m s = s\<lparr>sr_messages := sr_messages s @ [m]\<rparr>"

definition broker_resolve :: "rstr \<Rightarrow> rstr \<Rightarrow> bool \<Rightarrow> (rstr \<times> bool) channels \<Rightarrow> (ai_error + unit) \<times> (rstr \<times> bool) channels" where
  "broker_resolve call_id output is_error c =
     (let (sent, c') = ch_send call_id (output, is_error) c
      in (case sent of
            None \<Rightarrow> Inl (AiToolNotFound call_id)
          | Some True \<Rightarrow> Inr ()
          | Some False \<Rightarrow> Inl (AiState (lit ''Proxy call '' @ call_id @ lit '' is no longer pending'')), c'))"

fun outside_step :: "'v outside \<Rightarrow> ('v, 'x) turn_world \<Rightarrow> ('v, 'x) turn_world" where
  "outside_step CancelSession w = on_session session_cancel w"
| "outside_step (ResolveApproval call_id approved) w = on_session (snd \<circ> resolve_approval call_id approved) w"
| "outside_step (SubmitProxyResult call_id output is_error) w = on_broker (snd \<circ> broker_resolve call_id output is_error) w"
| "outside_step (RegisterProxyTool d) w = w\<lparr>tw_registry := register_proxy d (tw_registry w)\<rparr>"
| "outside_step (UnregisterProxyTool name) w = w\<lparr>tw_registry := unregister_proxy name (tw_registry w)\<rparr>"
| "outside_step OtherStart w = on_session (snd \<circ> start_run) w"
| "outside_step OtherComplete w = on_session (snd \<circ> complete_run) w"
| "outside_step (OtherStatus status) w = on_session (set_status status) w"
| "outside_step (OtherApproval call_id) w = on_session (snd \<circ> begin_awaiting_approval call_id) w"
| "outside_step (OtherClear call_id) w = on_session (clear_approval call_id) w"
| "outside_step (OtherMessage m) w = on_session (push_message m) w"
| "outside_step (OtherPending call_id) w = on_broker (snd \<circ> ch_open call_id) w"
| "outside_step (OtherPendingClear call_id) w = on_broker (ch_clear call_id) w"

text \<open>An await: the next batch takes effect. When the script is at its end nothing else happens: a cancellation is noticed, a timeout elapses.\<close>

definition last_batch :: "'v batch" where
  "last_batch = \<lparr>bt_commands = [], bt_cancel_first = True, bt_timeout = True\<rparr>"

definition next_batch :: "('v, 'x) turn_world \<Rightarrow> 'v batch \<times> ('v, 'x) turn_world" where
  "next_batch w =
     (case tw_script w of
        [] \<Rightarrow> (last_batch, w)
      | b # bs \<Rightarrow> (b, fold outside_step (bt_commands b) (w\<lparr>tw_script := bs\<rparr>)))"

definition pause :: "('v, 'x, 'v batch) tact" where
  "pause w = (let (b, w') = next_batch w in (Inr b, w'))"

text \<open>Waiting until a condition of the world gives a result.\<close>

fun wait_script :: "('v batch \<Rightarrow> ('v, 'x) turn_world \<Rightarrow> 'r option) \<Rightarrow> 'v batch list \<Rightarrow> ('v, 'x) turn_world \<Rightarrow> 'r option \<times> ('v, 'x) turn_world" where
  "wait_script poll [] w = (poll last_batch (w\<lparr>tw_script := []\<rparr>), w\<lparr>tw_script := []\<rparr>)"
| "wait_script poll (b # bs) w =
     (let w' = fold outside_step (bt_commands b) (w\<lparr>tw_script := bs\<rparr>)
      in case poll b w' of Some r \<Rightarrow> (Some r, w') | None \<Rightarrow> wait_script poll bs w')"

definition wait_for :: "('v batch \<Rightarrow> ('v, 'x) turn_world \<Rightarrow> 'r option) \<Rightarrow> ('v, 'x, 'r) tact" where
  "wait_for poll w =
     (case wait_script poll (tw_script w) w of (None, w') \<Rightarrow> (Inl Suspended, w') | (Some r, w') \<Rightarrow> (Inr r, w'))"

definition emit :: "'v turn_event \<Rightarrow> ('v, 'x, unit) tact" where
  "emit e = act_modify (\<lambda>w. w\<lparr>tw_events := tw_events w @ [e]\<rparr>)"

definition is_cancelled :: "nat \<Rightarrow> ('v, 'x) turn_world \<Rightarrow> bool" where
  "is_cancelled token w = sr_cancelled (tw_session w) token"

definition raise_error :: "ai_error \<Rightarrow> ('v, 'x, 'a) tact" where
  "raise_error e = act_lift (Inl (Raised e))"

text \<open>A call of the host, the provider or a tool, with what happens meanwhile.\<close>

definition call_ext :: "(ai_error, 'x, 'a) eact \<Rightarrow> ('v, 'x, 'a) tact" where
  "call_ext f =
     act_bind pause (\<lambda>_ w. let (r, x) = f (tw_ext w)
       in (case r of Inl e \<Rightarrow> Inl (Raised e) | Inr a \<Rightarrow> Inr a, w\<lparr>tw_ext := x\<rparr>))"

section \<open>The approval gate\<close>

record pending_approval =
  pa_call_id :: rstr
  pa_tool_id :: rstr
  pa_tool_name :: rstr
  pa_plan :: mutation_plan
  pa_preview_text :: "rstr option"

definition describe_apply_result :: "mutation_apply_result \<Rightarrow> rstr" where
  "describe_apply_result result =
     (case result of
        Applied summary warnings \<Rightarrow>
          lit ''Applied: '' @ summary @ (if warnings = [] then [] else [10] @ lit ''Warnings: '' @ str_join (lit ''; '') warnings)
      | PartiallyApplied summary applied failed skipped warnings \<Rightarrow>
          str_join [10] ([lit ''Partially applied: '' @ summary] @
            (if applied = [] then [] else [lit ''Applied: '' @ str_join (lit '', '') applied]) @
            (if failed = [] then [] else [lit ''Failed: '' @ str_join (lit '', '') failed]) @
            (if skipped = [] then [] else [lit ''Skipped: '' @ str_join (lit '', '') skipped]) @
            (if warnings = [] then [] else [lit ''Warnings: '' @ str_join (lit ''; '') warnings]))
      | Conflict summary conflicts \<Rightarrow>
          lit ''Conflict: '' @ summary @ lit ''. '' @
          str_join (lit '', '') (map (\<lambda>c. ci_path c @ lit '' ('' @ ci_reason c @ lit '')'') conflicts))"

text \<open>\<open>select!\<close> over the cancellation and the decision: when both are ready either may be taken.\<close>

definition poll_decision :: "rstr \<Rightarrow> nat \<Rightarrow> nat \<Rightarrow> 'v batch \<Rightarrow> ('v, 'x) turn_world \<Rightarrow> (ai_error + approval_decision) option" where
  "poll_decision call_id token n b w =
     (let p = ch_poll call_id n (sr_approvals (tw_session w))
      in if is_cancelled token w \<and> (bt_cancel_first b \<or> p = Pending) then Some (Inl AiCancelled)
         else (case p of Pending \<Rightarrow> None | Dropped \<Rightarrow> Some (Inl AiApprovalNotFound) | Received d \<Rightarrow> Some (Inr d)))"

definition await_decision :: "rstr \<Rightarrow> nat \<Rightarrow> nat \<Rightarrow> ('v, 'x, approval_decision) tact" where
  "await_decision call_id token n =
     act_bind (wait_for (poll_decision call_id token n)) (\<lambda>r.
     act_bind (act_modify (on_session (\<lambda>s. s\<lparr>sr_approvals := ch_close n (sr_approvals s)\<rparr>))) (\<lambda>_.
     case r of
       Inr d \<Rightarrow> act_lift (Inr d)
     | Inl e \<Rightarrow>
         if e = AiCancelled then act_bind (act_modify (on_session (clear_approval call_id))) (\<lambda>_. raise_error e)
         else raise_error e))"

text \<open>The guard \<open>RestoreStreaming\<close>: however the body ends, the status is set back. A suspended body has not ended.\<close>

definition restoring_streaming :: "('v, 'x, 'a) tact \<Rightarrow> ('v, 'x, 'a) tact" where
  "restoring_streaming m w =
     (case m w of
        (Inl Suspended, w') \<Rightarrow> (Inl Suspended, w')
      | (r, w') \<Rightarrow> (r, on_session (set_status Streaming) w'))"

definition update_snapshots :: "ai_env \<Rightarrow> mutation_op list \<Rightarrow> mutation_apply_result \<Rightarrow> 'v session_runtime \<Rightarrow> 'v session_runtime" where
  "update_snapshots env ops result =
     (case result of
        Applied _ _ \<Rightarrow> apply_successful_mutation env ops
      | PartiallyApplied _ _ _ _ _ \<Rightarrow> clear_mutation_snapshots ops
      | Conflict _ _ \<Rightarrow> id)"

definition is_conflict :: "mutation_apply_result \<Rightarrow> bool" where
  "is_conflict result = (case result of Conflict _ _ \<Rightarrow> True | _ \<Rightarrow> False)"

definition apply_approved :: "('v, 'x) turn_env \<Rightarrow> nat \<Rightarrow> pending_approval \<Rightarrow> ('v, 'x, rstr \<times> bool) tact" where
  "apply_approved env token pending =
     (case te_host env of
        None \<Rightarrow> raise_error AiHostUnavailable
      | Some host \<Rightarrow>
          act_bind (act_modify (on_session (set_status Applying))) (\<lambda>_.
          act_bind (act_modify (\<lambda>w. w\<lparr>tw_applied := tw_applied w @ [(pa_call_id pending, pa_plan pending)]\<rparr>)) (\<lambda>_.
          act_bind (call_ext (ah_apply host (pa_plan pending))) (\<lambda>result.
          act_bind (act_modify (on_session (update_snapshots (te_ai env) (mp_operations (pa_plan pending)) result))) (\<lambda>_.
          act_bind (act_get (is_cancelled token)) (\<lambda>cancelled.
          if cancelled then raise_error AiCancelled
          else act_lift (Inr (describe_apply_result result, is_conflict result))))))))"

definition apply_decision :: "('v, 'x) turn_env \<Rightarrow> nat \<Rightarrow> pending_approval \<Rightarrow> approval_decision \<Rightarrow> ('v, 'x, rstr \<times> bool) tact" where
  "apply_decision env token pending decision =
     (case decision of
        Reject \<Rightarrow> act_lift (Inr (lit ''Rejected by user'', True))
      | Approve \<Rightarrow> apply_approved env token pending)"

definition approval_shown :: "pending_approval \<Rightarrow> 'v turn_event" where
  "approval_shown pending =
     PendingApproval (pa_call_id pending) (pa_tool_id pending) (pa_tool_name pending) (pa_plan pending) (pa_preview_text pending)"

definition gate_and_apply :: "('v, 'x) turn_env \<Rightarrow> nat \<Rightarrow> pending_approval \<Rightarrow> ('v, 'x, rstr \<times> bool) tact" where
  "gate_and_apply env token pending w =
     (let (n, s) = begin_awaiting_approval (pa_call_id pending) (tw_session w)
      in restoring_streaming
           (act_bind (emit (approval_shown pending)) (\<lambda>_.
            act_bind (await_decision (pa_call_id pending) token n) (apply_decision env token pending)))
           (w\<lparr>tw_session := s\<rparr>))"

section \<open>Tool calls\<close>

definition execute_native_tool :: "('v, 'x) turn_env \<Rightarrow> nat \<Rightarrow> chat_mode \<Rightarrow> 'v model_tool_call \<Rightarrow> 'v tool_descriptor \<Rightarrow> ('v, 'x, rstr \<times> bool) tact" where
  "execute_native_tool env token mode call descriptor =
     act_bind (act_get (\<lambda>w. get_native (tc_tool_name call) (tw_registry w))) (\<lambda>found.
     case found of
       None \<Rightarrow> raise_error (AiToolNotFound (tc_tool_name call))
     | Some tool \<Rightarrow>
         act_bind (act_get (\<lambda>w. \<lparr>tx_mode = mode, tx_editor_context = sr_editor_context (tw_session w)\<rparr>)) (\<lambda>ctx.
         act_bind (call_ext (\<lambda>x. let (r, x') = nt_call tool ctx (tc_arguments call) x in (Inr r, x'))) (\<lambda>called.
         case called of
           Inl e \<Rightarrow> act_lift (Inr (tool_error_text e, True))
         | Inr result \<Rightarrow>
             (case nr_mutation result of
                None \<Rightarrow> act_lift (Inr (nr_text result, False))
              | Some plan \<Rightarrow>
                  if td_access descriptor = ReadOnly then act_lift (Inr (nr_text result, False))
                  else gate_and_apply env token
                    \<lparr>pa_call_id = tc_call_id call, pa_tool_id = td_tool_id descriptor, pa_tool_name = tc_tool_name call,
                     pa_plan = plan, pa_preview_text = nr_preview_text result\<rparr>))))"

definition poll_proxy :: "'v model_tool_call \<Rightarrow> nat \<Rightarrow> nat \<Rightarrow> 'v batch \<Rightarrow> ('v, 'x) turn_world \<Rightarrow> (ai_error + rstr \<times> bool) option" where
  "poll_proxy call token n b w =
     (let p = ch_poll (tc_call_id call) n (tw_broker w)
      in if is_cancelled token w \<and> (bt_cancel_first b \<or> p = Pending \<and> \<not> bt_timeout b) then Some (Inl AiCancelled)
         else (case p of
                 Received answer \<Rightarrow> Some (Inr answer)
               | Dropped \<Rightarrow> Some (Inr (lit ''Proxy tool responder dropped'', True))
               | Pending \<Rightarrow> if bt_timeout b then Some (Inl (AiProxyTimeout (tc_tool_name call))) else None))"

definition execute_proxy_tool :: "nat \<Rightarrow> 'v model_tool_call \<Rightarrow> rstr \<Rightarrow> ('v, 'x, rstr \<times> bool) tact" where
  "execute_proxy_tool token call tool_id =
     act_bind (act_get (\<lambda>w. get_proxy (tc_tool_name call) (tw_registry w))) (\<lambda>found.
     if found = None then act_lift (Inr (lit ''Proxy tool '' @ tc_tool_name call @ lit '' is not registered'', True))
     else
       act_bind (\<lambda>w. let (n, c) = ch_open (tc_call_id call) (tw_broker w) in (Inr n, w\<lparr>tw_broker := c\<rparr>)) (\<lambda>n.
       act_bind (emit (ProxyToolCall (tc_call_id call) tool_id (tc_tool_name call) (tc_arguments call))) (\<lambda>_.
       act_bind (wait_for (poll_proxy call token n)) (\<lambda>r.
       act_bind (act_modify (on_broker (ch_close n))) (\<lambda>_.
       case r of
         Inr answer \<Rightarrow> act_lift (Inr answer)
       | Inl e \<Rightarrow> act_bind (act_modify (on_broker (ch_clear (tc_call_id call)))) (\<lambda>_. raise_error e))))))"

definition fallback_tool_id :: "rstr \<Rightarrow> rstr" where
  "fallback_tool_id tool_name = (if 46 \<in> set tool_name then tool_name else lit ''builtin.'' @ tool_name)"

definition tool_not_allowed_message :: "rstr \<Rightarrow> chat_mode \<Rightarrow> rstr" where
  "tool_not_allowed_message tool_name mode =
     lit ''Tool '' @ [39] @ tool_name @ [39] @ lit '' is not available in '' @ mode_label mode @ lit '' mode for this turn.''"

definition summarize_output :: "rstr \<Rightarrow> rstr" where
  "summarize_output output = (if length output \<le> 600 then output else take 600 output @ lit ''...'')"

text \<open>An error of a tool is its answer; only a cancellation, and a wait that lasts, end the turn.\<close>

definition answer_errors :: "('v, 'x, rstr \<times> bool) tact \<Rightarrow> ('v, 'x, rstr \<times> bool) tact" where
  "answer_errors m w =
     (case m w of
        (Inl (Raised e), w') \<Rightarrow> (if e = AiCancelled then Inl (Raised e) else Inr (ai_error_text e, True), w')
      | (r, w') \<Rightarrow> (r, w'))"

definition handle_tool_call :: "('v, 'x) turn_env \<Rightarrow> nat \<Rightarrow> chat_mode \<Rightarrow> 'v tool_descriptor list \<Rightarrow> 'v model_tool_call \<Rightarrow> ('v, 'x, rstr \<times> bool) tact" where
  "handle_tool_call env token mode allowed call =
     (let found = find (\<lambda>tool. td_name tool = tc_tool_name call) allowed;
          tool_id = (case found of Some tool \<Rightarrow> td_tool_id tool | None \<Rightarrow> fallback_tool_id (tc_tool_name call))
      in act_bind (emit (ToolCallStart (tc_call_id call) tool_id (tc_tool_name call) (tc_arguments call))) (\<lambda>_.
         act_bind
           (case found of
              None \<Rightarrow> act_lift (Inr (tool_not_allowed_message (tc_tool_name call) mode, True))
            | Some descriptor \<Rightarrow>
                (case td_source descriptor of
                   Native \<Rightarrow> answer_errors (execute_native_tool env token mode call descriptor)
                 | Proxy \<Rightarrow> answer_errors (execute_proxy_tool token call tool_id))) (\<lambda>outcome.
         act_bind (emit (ToolCallEnd (tc_call_id call) tool_id (tc_tool_name call) (summarize_output (fst outcome)) (snd outcome))) (\<lambda>_.
         act_lift (Inr outcome)))))"

section \<open>Turns\<close>

text \<open>One round of \<open>select!\<close> over the cancellation and the stream.\<close>

definition check_cancel :: "nat \<Rightarrow> ('v, 'x, unit) tact" where
  "check_cancel token =
     act_bind pause (\<lambda>b. act_bind (act_get (is_cancelled token)) (\<lambda>cancelled.
     if cancelled \<and> bt_cancel_first b then raise_error AiCancelled else act_lift (Inr ())))"

type_synonym 'v round_result = "rstr \<times> 'v model_tool_call list \<times> finish_reason \<times> token_usage option"

fun consume_stream :: "nat \<Rightarrow> (ai_error + 'v completion_event) list \<Rightarrow> 'v round_result \<Rightarrow> ('v, 'x, 'v round_result) tact" where
  "consume_stream token [] acc = act_bind (check_cancel token) (\<lambda>_. act_lift (Inr acc))"
| "consume_stream token (Inl e # items) acc = act_bind (check_cancel token) (\<lambda>_. raise_error e)"
| "consume_stream token (Inr (TextDelta delta) # items) (assistant_text, calls, reason, usage) =
     act_bind (check_cancel token) (\<lambda>_. act_bind (emit (StreamChunk delta)) (\<lambda>_.
     consume_stream token items (assistant_text @ delta, calls, reason, usage)))"
| "consume_stream token (Inr (ToolCallsEvent new_calls) # items) (assistant_text, calls, reason, usage) =
     act_bind (check_cancel token) (\<lambda>_. consume_stream token items (assistant_text, calls @ new_calls, reason, usage))"
| "consume_stream token (Inr (Finished reason' usage') # items) (assistant_text, calls, reason, usage) =
     act_bind (check_cancel token) (\<lambda>_. consume_stream token items (assistant_text, calls, reason', usage'))"

definition required_header :: "(ai_error, 'x, rstr option) eact \<Rightarrow> ('v, 'x, rstr option) tact" where
  "required_header f =
     act_bind (call_ext f) (\<lambda>header. case header of None \<Rightarrow> raise_error AiNotConfigured | Some h \<Rightarrow> act_lift (Inr (Some h)))"

definition authorization_header :: "('v, 'x) turn_env \<Rightarrow> ('v, 'x, rstr option) tact" where
  "authorization_header env =
     (if cf_provider (te_config env) = Remote
      then (case te_host env of
              None \<Rightarrow> raise_error AiHostUnavailable
            | Some host \<Rightarrow> required_header (ah_authorization host))
      else act_lift (Inr None))"

type_synonym ('v, 'x) backend = "'v completion_turn_request \<Rightarrow> (ai_error, 'x, (ai_error + 'v completion_event) list) eact"

definition stream_turn :: "('v, 'x) backend \<Rightarrow> 'v completion_turn_request \<Rightarrow> ('v, 'x, (ai_error + 'v completion_event) list) tact" where
  "stream_turn backend request =
     act_bind (act_modify (\<lambda>w. w\<lparr>tw_requests := tw_requests w @ [request]\<rparr>)) (\<lambda>_. call_ext (backend request))"

definition retry_unauthorized :: "('v, 'x) turn_env \<Rightarrow> ('v, 'x) backend \<Rightarrow> 'v completion_turn_request \<Rightarrow> ('v, 'x, (ai_error + 'v completion_event) list) tact" where
  "retry_unauthorized env backend request w =
     (case stream_turn backend request w of
        (Inl (Raised AiUnauthorized), w') \<Rightarrow>
          if cf_provider (te_config env) = Remote
          then (case te_host env of
                  None \<Rightarrow> raise_error AiHostUnavailable w'
                | Some host \<Rightarrow>
                    act_bind (required_header (ah_refresh host)) (\<lambda>header.
                    stream_turn backend (request\<lparr>cr_authorization_header := header\<rparr>)) w')
          else (Inl (Raised AiUnauthorized), w')
      | r \<Rightarrow> r)"

definition tool_answer :: "'v model_tool_call \<Rightarrow> rstr \<times> bool \<Rightarrow> 'v chat_message" where
  "tool_answer call result =
     ToolResult (tc_call_id call) (tc_tool_name call) (fst result) (snd result) (tc_tool_call_id call) (tc_provider_call_id call)"

definition answer_calls :: "('v, 'x) turn_env \<Rightarrow> nat \<Rightarrow> chat_mode \<Rightarrow> 'v tool_descriptor list \<Rightarrow> 'v model_tool_call list \<Rightarrow> ('v, 'x, unit) tact" where
  "answer_calls env token mode allowed calls =
     act_fold (\<lambda>call _.
       act_bind (handle_tool_call env token mode allowed call) (\<lambda>result.
       act_modify (on_session (push_message (tool_answer call result))))) calls ()"

definition stream_round :: "('v, 'x) turn_env \<Rightarrow> nat \<Rightarrow> chat_mode \<Rightarrow> 'v tool_descriptor list \<Rightarrow> ('v, 'x) backend \<Rightarrow> ('v, 'x, 'v round_result) tact" where
  "stream_round env token mode allowed backend =
     act_bind (act_get (\<lambda>w. compact_history_for_model (te_to_json env) (sr_messages (tw_session w)))) (\<lambda>compacted.
     act_bind (authorization_header env) (\<lambda>header.
     act_bind (retry_unauthorized env backend
       \<lparr>cr_model = cf_model (te_config env), cr_system_prompt = Some (build_system_prompt mode allowed), cr_messages = compacted,
        cr_tools = allowed, cr_tool_choice = ChooseAuto, cr_authorization_header = header\<rparr>) (\<lambda>items.
     consume_stream token items ([], [], Stop, None))))"

definition push_assistant :: "rstr \<Rightarrow> 'v model_tool_call list \<Rightarrow> 'v session_runtime \<Rightarrow> 'v session_runtime" where
  "push_assistant assistant_text calls s =
     (if assistant_text \<noteq> [] \<or> calls \<noteq> [] then push_message (Assistant assistant_text calls) s else s)"

primrec run_rounds :: "('v, 'x) turn_env \<Rightarrow> nat \<Rightarrow> chat_mode \<Rightarrow> 'v tool_descriptor list \<Rightarrow> ('v, 'x) backend \<Rightarrow> nat \<Rightarrow> token_usage option
    \<Rightarrow> ('v, 'x, finish_reason \<times> token_usage option) tact" where
  "run_rounds env token mode allowed backend 0 final_usage = act_lift (Inr (ToolRoundLimit, final_usage))"
| "run_rounds env token mode allowed backend (Suc n) final_usage =
     act_bind (stream_round env token mode allowed backend) (\<lambda>(assistant_text, calls, reason, usage).
     act_bind (act_modify (on_session (push_assistant assistant_text calls))) (\<lambda>_.
     if calls = [] then act_lift (Inr (reason, usage))
     else act_bind (answer_calls env token mode allowed calls) (\<lambda>_.
       run_rounds env token mode allowed backend n usage)))"

definition begin_turn :: "chat_mode \<Rightarrow> rstr \<Rightarrow> editor_context \<Rightarrow> 'v session_runtime \<Rightarrow> 'v session_runtime" where
  "begin_turn mode content ctx s =
     (let (previous_mode, s1) = replace_mode mode s;
          s2 = remember_embedded_file_snapshots ctx s1
      in push_message (User (content_with_turn_context previous_mode mode content ctx) (Some ctx)) (s2\<lparr>sr_editor_context := ctx\<rparr>))"

definition run_turn_inner :: "('v, 'x) turn_env \<Rightarrow> chat_mode \<Rightarrow> rstr \<Rightarrow> editor_context \<Rightarrow> ('v, 'x, finish_reason \<times> token_usage option) tact" where
  "run_turn_inner env mode content ctx w =
     (case start_run (tw_session w) of
        (Inl e, s) \<Rightarrow> (Inl (Raised e), w\<lparr>tw_session := s\<rparr>)
      | (Inr token, s) \<Rightarrow>
          act_bind (act_modify (on_session (begin_turn mode content ctx))) (\<lambda>_.
          case te_backend env of
            Inl e \<Rightarrow> raise_error e
          | Inr backend \<Rightarrow>
              act_bind (act_get (\<lambda>w. allowed_tools mode (registry_descriptors (tw_registry w)))) (\<lambda>allowed.
              run_rounds env token mode allowed backend (cf_round_limit (te_config env)) None)) (w\<lparr>tw_session := s\<rparr>))"

definition finalize_run :: "ai_error + finish_reason \<times> token_usage option \<Rightarrow> ('v, 'x) turn_world \<Rightarrow> ('v, 'x) turn_world" where
  "finalize_run result w =
     (let (deferred_cancel, s) = complete_run (tw_session w)
      in w\<lparr>tw_session := s, tw_events := tw_events w @
        (case result of
           Inr (reason, usage) \<Rightarrow> [Done (if deferred_cancel then FinishCancelled else reason) usage]
         | Inl e \<Rightarrow> [ErrorShown (ai_error_text e), Done (if e = AiCancelled \<or> deferred_cancel then FinishCancelled else FinishError) None])\<rparr>)"

text \<open>The first component tells whether the turn has ended.\<close>

definition run_turn :: "('v, 'x) turn_env \<Rightarrow> chat_mode \<Rightarrow> rstr \<Rightarrow> editor_context \<Rightarrow> ('v, 'x) turn_world \<Rightarrow> bool \<times> ('v, 'x) turn_world" where
  "run_turn env mode content ctx w =
     (case run_turn_inner env mode content ctx w of
        (Inl Suspended, w') \<Rightarrow> (False, w')
      | (Inl (Raised e), w') \<Rightarrow> (True, finalize_run (Inl e) w')
      | (Inr r, w') \<Rightarrow> (True, finalize_run (Inr r) w'))"

end
