(* ===== verification/Ai_Turn_Rules.thy ===== *)
theory Ai_Turn_Rules
  imports Ai_Session
begin

text \<open>
  Rules for properties of a turn of the AI session. The locale \<open>turn_steps\<close> is the interface of an invariant of the steps
  of the world; \<open>turn_rules\<close> adds the gate and \<open>turn_rules_push\<close> the messages, and their lemmas carry the invariant
  through every action of a turn; \<open>turn_gate\<close> gives the gate for invariants that its own steps keep. Before it: the channels of
  approvals, what commands from outside do to them, and the frame of a turn, in which only approved changes are applied.
\<close>

section \<open>Approvals\<close>

definition channels_ok :: "'m channels \<Rightarrow> bool" where
  "channels_ok c \<longleftrightarrow> (\<forall>n. ch_count c \<le> n \<longrightarrow> ch_sent c n = None) \<and>
     (\<forall>k n. ch_senders c k = Some n \<longrightarrow> n < ch_count c \<and> ch_sent c n = None) \<and>
     (\<forall>k k' n. ch_senders c k = Some n \<longrightarrow> ch_senders c k' = Some n \<longrightarrow> k = k')"

lemma channels_ok_steps:
  assumes "channels_ok c"
  shows "channels_ok (snd (ch_open key c))" "channels_ok (ch_clear key c)" "channels_ok (snd (ch_send key v c))" "channels_ok (ch_close n c)"
proof -
  show "channels_ok (snd (ch_open key c))"
    using assms unfolding channels_ok_def ch_open_def by (auto intro: less_SucI split: if_splits)
  show clear: "channels_ok (ch_clear key c)"
    using assms by (auto simp: channels_ok_def ch_clear_def)
  show "channels_ok (ch_close n c)" using assms by (simp add: channels_ok_def ch_close_def)
  show "channels_ok (snd (ch_send key v c))"
  proof (cases "ch_senders c key")
    case (Some n)
    have "channels_ok ((ch_clear key c)\<lparr>ch_sent := (ch_sent c)(n \<mapsto> v)\<rparr>)"
      using assms Some by (auto simp: channels_ok_def ch_clear_def dest: leD)
    then show ?thesis using Some clear by (simp add: ch_send_def)
  qed (use assms in \<open>simp add: ch_send_def\<close>)
qed

abbreviation approvals :: "('v, 'x) turn_world \<Rightarrow> approval_decision channels" where
  "approvals w \<equiv> sr_approvals (tw_session w)"

lemmas session_defs = session_cancel_def cancel_token_def resolve_approval_def start_run_def complete_run_def set_status_def
  begin_awaiting_approval_def clear_approval_def push_message_def

text \<open>What a step from outside does to the approvals.\<close>

lemma outside_approvals:
  "approvals (outside_step c w) =
     (case c of
        ResolveApproval cid b \<Rightarrow> snd (ch_send cid (if b then Approve else Reject) (approvals w))
      | OtherApproval cid \<Rightarrow> snd (ch_open cid (approvals w))
      | OtherClear cid \<Rightarrow> ch_clear cid (approvals w)
      | _ \<Rightarrow> approvals w)"
  by (cases c) (auto simp: session_defs Let_def split: session_status.split option.split prod.split)

lemma outside_fields [simp]:
  "tw_script (outside_step c w) = tw_script w" "tw_events (outside_step c w) = tw_events w"
  "tw_applied (outside_step c w) = tw_applied w" "tw_requests (outside_step c w) = tw_requests w" "tw_ext (outside_step c w) = tw_ext w"
  by (cases c; simp)+

lemma outside_fold_fields [simp]:
  "tw_script (fold outside_step cs w) = tw_script w" "tw_events (fold outside_step cs w) = tw_events w"
  "tw_applied (fold outside_step cs w) = tw_applied w" "tw_requests (fold outside_step cs w) = tw_requests w"
  "tw_ext (fold outside_step cs w) = tw_ext w"
  by (induction cs arbitrary: w) simp_all

declare outside_step.simps [simp del]

definition approvals_ok :: "('v, 'x) turn_world \<Rightarrow> bool" where
  "approvals_ok w \<longleftrightarrow> channels_ok (approvals w)"

lemma approvals_ok_outside: "approvals_ok w \<Longrightarrow> approvals_ok (outside_step c w)"
  by (auto simp: approvals_ok_def outside_approvals channels_ok_steps split: outside.split)

lemma approvals_ok_fold: "approvals_ok w \<Longrightarrow> approvals_ok (fold outside_step cs w)"
  by (induction cs arbitrary: w) (simp_all add: approvals_ok_outside)

text \<open>
  The invariant of a wait for a decision on the channel \<open>n\<close>: only the key that it was opened under leads to it, and an
  approval in it was given by a command for that key.
\<close>

definition decides :: "rstr \<Rightarrow> nat \<Rightarrow> bool \<Rightarrow> ('v, 'x) turn_world \<Rightarrow> bool" where
  "decides cid n approved w \<longleftrightarrow> approvals_ok w \<and> n < ch_count (approvals w) \<and>
     (\<forall>k. ch_senders (approvals w) k = Some n \<longrightarrow> k = cid) \<and> (ch_sent (approvals w) n = Some Approve \<longrightarrow> approved)"

lemma decides_outside:
  assumes "decides cid n approved w"
  shows "decides cid n (approved \<or> c = ResolveApproval cid True) (outside_step c w)"
proof -
  note ok = approvals_ok_outside[of w c]
  show ?thesis
  proof (cases c)
    case (ResolveApproval k b)
    then show ?thesis using assms ok
      by (auto simp: decides_def outside_approvals ch_send_def ch_clear_def split: option.split if_splits)
  next
    case (OtherApproval k)
    then show ?thesis using assms ok by (auto simp: decides_def outside_approvals ch_open_def)
  next
    case (OtherClear k)
    then show ?thesis using assms ok by (auto simp: decides_def outside_approvals ch_clear_def)
  qed (use assms ok in \<open>auto simp: decides_def outside_approvals\<close>)
qed

lemma decides_fold:
  "decides cid n approved w \<Longrightarrow> decides cid n (approved \<or> ResolveApproval cid True \<in> set cs) (fold outside_step cs w)"
proof (induction cs arbitrary: w approved)
  case (Cons c cs)
  show ?case using Cons.IH[OF decides_outside[OF Cons.prems, of c]] by (auto simp: disj_commute disj_left_commute elim: back_subst)
qed simp

definition commands :: "'v batch list \<Rightarrow> 'v outside set" where
  "commands bs = (\<Union>b\<in>set bs. set (bt_commands b))"

lemma commands_simps [simp]:
  "commands [] = {}" "commands (b # bs) = set (bt_commands b) \<union> commands bs" "commands (xs @ ys) = commands xs \<union> commands ys"
  by (simp_all add: commands_def)

text \<open>A wait takes a first part of the script and changes what the commands change.\<close>

definition waited :: "('v batch \<Rightarrow> ('v, 'x) turn_world \<Rightarrow> 'r option) \<Rightarrow> 'v batch list \<Rightarrow> ('v, 'x) turn_world \<Rightarrow> 'v batch list \<Rightarrow> 'v batch list \<Rightarrow> bool" where
  "waited poll bs w used rest \<longleftrightarrow> bs = used @ rest \<and>
     snd (wait_script poll bs w) = (fold outside_step (concat (map bt_commands used)) w)\<lparr>tw_script := rest\<rparr> \<and>
     (\<forall>r. fst (wait_script poll bs w) = Some r \<longrightarrow> (\<exists>b. poll b (snd (wait_script poll bs w)) = Some r)) \<and>
     (fst (wait_script poll bs w) = None \<longrightarrow> rest = [] \<and> poll last_batch (snd (wait_script poll bs w)) = None)"

lemma outside_script: "outside_step c (w\<lparr>tw_script := s\<rparr>) = (outside_step c w)\<lparr>tw_script := s\<rparr>"
  by (cases c) (simp_all add: outside_step.simps)

lemma outside_fold_script: "fold outside_step cs (w\<lparr>tw_script := s\<rparr>) = (fold outside_step cs w)\<lparr>tw_script := s\<rparr>"
  by (induction cs arbitrary: w) (simp_all add: outside_script)

lemma wait_script_runs: "\<exists>used rest. waited poll bs w used rest"
proof (induction bs arbitrary: w)
  case (Cons b bs)
  define w' where "w' = fold outside_step (bt_commands b) (w\<lparr>tw_script := bs\<rparr>)"
  have w': "w' = (fold outside_step (bt_commands b) w)\<lparr>tw_script := bs\<rparr>" by (simp add: w'_def outside_fold_script)
  show ?case
  proof (cases "poll b w'")
    case None
    then have step: "wait_script poll (b # bs) w = wait_script poll bs w'" by (simp add: w'_def[symmetric] Let_def)
    obtain used rest where u: "waited poll bs w' used rest" using Cons.IH by blast
    have "fold outside_step (concat (map bt_commands used)) w'\<lparr>tw_script := rest\<rparr> =
        fold outside_step (concat (map bt_commands (b # used))) w\<lparr>tw_script := rest\<rparr>"
      by (simp add: w' outside_fold_script)
    moreover have "b # bs = (b # used) @ rest" using u unfolding waited_def by (metis append_Cons)
    ultimately have "waited poll (b # bs) w (b # used) rest" using u unfolding waited_def step by metis
    then show ?thesis by blast
  next
    case (Some r)
    then have "wait_script poll (b # bs) w = (Some r, w')" by (simp add: w'_def[symmetric] Let_def)
    then have "waited poll (b # bs) w [b] bs" using Some by (auto simp: waited_def w')
    then show ?thesis by blast
  qed
next
  case Nil
  have "waited poll [] w [] []" by (auto simp: waited_def)
  then show ?case by blast
qed

section \<open>Only approved changes are applied\<close>

text \<open>
  The frame of a turn: it takes a first part of the script, adds events and plans; each plan was shown with the descriptor of an
  allowed tool that proposes changes, and approved in that part of the script.
\<close>

definition shown :: "'v tool_descriptor list \<Rightarrow> 'v turn_event list \<Rightarrow> rstr \<times> mutation_plan \<Rightarrow> bool" where
  "shown allowed evs p \<longleftrightarrow> (\<exists>tool\<in>set allowed. td_access tool = ProposesMutation \<and>
     (\<exists>preview. PendingApproval (fst p) (td_tool_id tool) (td_name tool) (snd p) preview \<in> set evs))"

definition approved_frame :: "'v tool_descriptor list \<Rightarrow> ('v, 'x) turn_world \<Rightarrow> ('v, 'x) turn_world \<Rightarrow> bool" where
  "approved_frame allowed w w' \<longleftrightarrow> (\<exists>used evs new. tw_script w = used @ tw_script w' \<and> tw_events w' = tw_events w @ evs \<and>
     tw_applied w' = tw_applied w @ new \<and>
     (approvals_ok w \<longrightarrow> approvals_ok w' \<and> (\<forall>p\<in>set new. ResolveApproval (fst p) True \<in> commands used \<and> shown allowed evs p)))"

lemma approved_frame_trans:
  assumes "approved_frame allowed u v" "approved_frame allowed v w"
  shows "approved_frame allowed u w"
proof -
  obtain used evs new where 1: "tw_script u = used @ tw_script v" "tw_events v = tw_events u @ evs" "tw_applied v = tw_applied u @ new"
      "approvals_ok u \<longrightarrow> approvals_ok v \<and> (\<forall>p\<in>set new. ResolveApproval (fst p) True \<in> commands used \<and> shown allowed evs p)"
    using assms(1) by (auto simp: approved_frame_def)
  obtain used' evs' new' where 2: "tw_script v = used' @ tw_script w" "tw_events w = tw_events v @ evs'" "tw_applied w = tw_applied v @ new'"
      "approvals_ok v \<longrightarrow> approvals_ok w \<and> (\<forall>p\<in>set new'. ResolveApproval (fst p) True \<in> commands used' \<and> shown allowed evs' p)"
    using assms(2) by (auto simp: approved_frame_def)
  have "shown allowed (evs @ evs') p" if "shown allowed evs p \<or> shown allowed evs' p" for p
    using that by (auto simp: shown_def)
  then show ?thesis unfolding approved_frame_def
    using 1 2 by (intro exI[of _ "used @ used'"] exI[of _ "evs @ evs'"] exI[of _ "new @ new'"]) auto
qed

interpretation ap: frame "approved_frame allowed" for allowed :: "'v tool_descriptor list"
proof
  show "approved_frame allowed w w" for w :: "('v, 'x) turn_world" by (auto simp: approved_frame_def intro!: exI[of _ "[]"])
qed (rule approved_frame_trans)

text \<open>Steps that apply nothing, with the part of the script that they take.\<close>

lemma approved_frame_quiet:
  assumes "tw_script w = used @ tw_script w'" "tw_events w' = tw_events w @ evs" "tw_applied w' = tw_applied w"
    and "approvals_ok w \<Longrightarrow> approvals_ok w'"
  shows "approved_frame allowed w w'"
  unfolding approved_frame_def using assms by (intro exI[of _ used] exI[of _ evs] exI[of _ "[]"]) auto

lemma ap_emit: "ap.keeps allowed (emit e)"
  unfolding emit_def by (intro ap.keeps_modify approved_frame_quiet[where used = "[]"]) (auto simp: approvals_ok_def)

lemma ap_session:
  assumes "\<And>s. channels_ok (sr_approvals s) \<Longrightarrow> channels_ok (sr_approvals (f s))"
  shows "ap.keeps allowed (act_modify (on_session f))"
  by (intro ap.keeps_modify approved_frame_quiet[where used = "[]" and evs = "[]"]) (auto simp: approvals_ok_def assms)

lemma ap_wait: "ap.keeps allowed (wait_for poll)"
proof (rule ap.keepsI)
  fix w
  obtain used rest where u: "waited poll (tw_script w) w used rest" using wait_script_runs by blast
  have "snd (wait_for poll w) = snd (wait_script poll (tw_script w) w)"
    by (auto simp: wait_for_def split: prod.split option.split)
  then have "snd (wait_for poll w) = (fold outside_step (concat (map bt_commands used)) w)\<lparr>tw_script := rest\<rparr>" "tw_script w = used @ rest"
    using u unfolding waited_def by metis+
  then show "approved_frame allowed w (snd (wait_for poll w))"
    by (intro approved_frame_quiet[where used = used and evs = "[]"])
      (use approvals_ok_fold[of w] in \<open>auto simp: approvals_ok_def\<close>)
qed

lemma next_batch_runs:
  "\<exists>used. tw_script w = used @ tw_script (snd (next_batch w)) \<and>
     snd (next_batch w) = (fold outside_step (concat (map bt_commands used)) w)\<lparr>tw_script := tw_script (snd (next_batch w))\<rparr>"
proof (cases "tw_script w")
  case (Cons b bs)
  then show ?thesis by (intro exI[of _ "[b]"]) (simp add: next_batch_def outside_fold_script)
qed (simp add: next_batch_def)

lemma ap_pause: "ap.keeps allowed (pause :: ('v, 'x, 'v batch) tact)"
proof (rule ap.keepsI)
  fix w :: "('v, 'x) turn_world"
  obtain used where u: "tw_script w = used @ tw_script (snd (next_batch w))"
      "snd (next_batch w) = (fold outside_step (concat (map bt_commands used)) w)\<lparr>tw_script := tw_script (snd (next_batch w))\<rparr>"
    using next_batch_runs by blast
  have "snd (pause w) = snd (next_batch w)" by (simp add: pause_def split: prod.split)
  moreover have "approved_frame allowed w (snd (next_batch w))"
    by (rule approved_frame_quiet[where used = used and evs = "[]"]) (subst u(2), use u(1) approvals_ok_fold[of w] in \<open>auto simp: approvals_ok_def\<close>)+
  ultimately show "approved_frame allowed w (snd (pause w))" by simp
qed

lemma ap_call_ext: "ap.keeps allowed (call_ext f :: ('v, 'x, 'a) tact)"
  unfolding call_ext_def
proof (intro ap.keeps_bind ap_pause ap.keepsI)
  show "approved_frame allowed w (snd (let (r, x) = f (tw_ext w) in (case r of Inl e \<Rightarrow> Inl (Raised e) | Inr a \<Rightarrow> Inr a, w\<lparr>tw_ext := x\<rparr>)))" for w :: "('v, 'x) turn_world"
    by (rule approved_frame_quiet[where used = "[]" and evs = "[]"]) (auto simp: approvals_ok_def Let_def split: prod.split)
qed

lemma ap_raise: "ap.keeps allowed (raise_error e)"
  unfolding raise_error_def by (rule ap.keeps_lift)

lemma ap_approvals:
  "ap.keeps allowed (act_modify (on_session (\<lambda>s. s\<lparr>sr_approvals := ch_close n (sr_approvals s)\<rparr>)))"
  "ap.keeps allowed (act_modify (on_session (clear_approval cid)))"
  "ap.keeps allowed (act_modify (on_session (set_status status)))"
  "ap.keeps allowed (act_modify (on_session (push_message m)))"
  "ap.keeps allowed (act_modify (on_session (update_snapshots env ops result)))"
  by (intro ap_session; auto simp: session_defs channels_ok_steps update_snapshots_def apply_successful_mutation_def
      clear_mutation_snapshots_def split: mutation_apply_result.split)+

lemmas ap_intros = ap_call_ext ap_raise ap_approvals ap_emit ap_wait ap_pause

lemma ap_await: "ap.keeps allowed (await_decision cid token n)"
  unfolding await_decision_def by (intro ap.keeps_bind ap_intros) (auto split: sum.split intro!: ap.keeps_intros ap_intros)

lemma ap_restoring:
  assumes "ap.keeps allowed (m :: ('v, 'x, 'a) tact)"
  shows "ap.keeps allowed (restoring_streaming m)"
proof (rule ap.keepsI)
  fix w :: "('v, 'x) turn_world"
  obtain r v where m: "m w = (r, v)" by fastforce
  have v: "approved_frame allowed w v" using ap.keeps_run[OF assms m] .
  then have "approved_frame allowed w (on_session (set_status Streaming) v)"
    using ap.trans ap.keeps_run[OF ap_approvals(3)[of allowed Streaming], of v] by (fastforce simp: act_modify_def)
  then show "approved_frame allowed w (snd (restoring_streaming m w))"
    using m v by (auto simp: restoring_streaming_def split: sum.split stop.split)
qed

lemma await_approves:
  assumes "await_decision cid token n w = (Inr Approve, w')" "decides cid n False w"
  shows "\<exists>used. tw_script w = used @ tw_script w' \<and> ResolveApproval cid True \<in> commands used \<and>
    tw_events w' = tw_events w \<and> tw_applied w' = tw_applied w \<and> approvals_ok w'"
proof -
  obtain v where v: "wait_for (poll_decision cid token n) w = (Inr (Inr Approve), v)"
      "w' = on_session (\<lambda>s. s\<lparr>sr_approvals := ch_close n (sr_approvals s)\<rparr>) v"
  proof -
    obtain r v where "wait_for (poll_decision cid token n) w = (Inr r, v)"
      "(case r of Inr d \<Rightarrow> act_lift (Inr d) | Inl e \<Rightarrow> if e = AiCancelled then act_bind (act_modify (on_session (clear_approval cid))) (\<lambda>_. raise_error e) else raise_error e)
         (on_session (\<lambda>s. s\<lparr>sr_approvals := ch_close n (sr_approvals s)\<rparr>) v) = (Inr Approve, w')"
      using assms(1) by (auto simp: await_decision_def act_bind_Inr)
    then show thesis using that[of v] by (cases r) (auto simp: raise_error_def act_bind_def split: if_splits)
  qed
  obtain used rest where u: "waited (poll_decision cid token n) (tw_script w) w used rest" using wait_script_runs by blast
  have ws: "wait_script (poll_decision cid token n) (tw_script w) w = (Some (Inr Approve), v)"
    using v(1) by (auto simp: wait_for_def split: prod.splits option.splits)
  then have script: "tw_script w = used @ rest" "v = (fold outside_step (concat (map bt_commands used)) w)\<lparr>tw_script := rest\<rparr>"
    and "\<exists>b. poll_decision cid token n b v = Some (Inr Approve)"
    using u unfolding waited_def by (metis, metis snd_conv, metis fst_conv snd_conv)
  then have sent: "ch_sent (approvals v) n = Some Approve"
    by (auto simp: poll_decision_def ch_poll_def Let_def split: if_splits poll.splits option.splits)
  have "decides cid n (ResolveApproval cid True \<in> set (concat (map bt_commands used))) (fold outside_step (concat (map bt_commands used)) w)"
    using decides_fold[OF assms(2), of "concat (map bt_commands used)"] by simp
  then have "ResolveApproval cid True \<in> commands used" "approvals_ok v"
    using sent script(2) by (auto simp: decides_def commands_def approvals_ok_def)
  then show ?thesis using script v(2)
    by (intro exI[of _ used]) (auto simp: approvals_ok_def channels_ok_steps)
qed

lemma ap_after_apply:
  fixes w :: "('v, 'x) turn_world" and allowed :: "'v tool_descriptor list"
  assumes "te_host env = Some host"
  shows "approved_frame allowed (on_session (set_status Applying) w\<lparr>tw_applied := tw_applied w @ [(pa_call_id pending, pa_plan pending)]\<rparr>)
    (snd (apply_approved env token pending w))"
proof -
  define rest :: "('v, 'x, rstr \<times> bool) tact" where "rest = act_bind (call_ext (ah_apply host (pa_plan pending))) (\<lambda>result.
          act_bind (act_modify (on_session (update_snapshots (te_ai env) (mp_operations (pa_plan pending)) result))) (\<lambda>_.
          act_bind (act_get (is_cancelled token)) (\<lambda>cancelled.
          if cancelled then raise_error AiCancelled
          else act_lift (Inr (describe_apply_result result, is_conflict result)))))"
  have "ap.keeps allowed rest"
    unfolding rest_def by (intro ap.keeps_bind ap.keeps_if ap.keeps_get ap.keeps_lift ap_intros)
  moreover have "apply_approved env token pending w =
      rest (on_session (set_status Applying) w\<lparr>tw_applied := tw_applied w @ [(pa_call_id pending, pa_plan pending)]\<rparr>)"
    using assms by (simp add: apply_approved_def rest_def act_bind_def)
  ultimately show ?thesis by (simp add: ap.keeps_def)
qed

lemma ap_gate:
  assumes "\<exists>tool\<in>set allowed. td_access tool = ProposesMutation \<and> td_tool_id tool = pa_tool_id pending \<and> td_name tool = pa_tool_name pending"
  shows "ap.keeps allowed (gate_and_apply env token pending :: ('v, 'x, rstr \<times> bool) tact)"
proof (rule ap.keepsI)
  fix w :: "('v, 'x) turn_world"
  let ?cid = "pa_call_id pending" and ?n = "ch_count (approvals w)"
  define w1 where "w1 = on_session (snd \<circ> begin_awaiting_approval ?cid) w\<lparr>tw_events := tw_events w @ [approval_shown pending]\<rparr>"
  have gate: "gate_and_apply env token pending w = restoring_streaming (\<lambda>_. act_bind (await_decision ?cid token ?n) (apply_decision env token pending) w1) w"
    by (simp add: gate_and_apply_def restoring_streaming_def w1_def begin_awaiting_approval_def ch_open_def emit_def act_bind_def Let_def)
  have w1: "tw_script w1 = tw_script w" "tw_events w1 = tw_events w @ [approval_shown pending]" "tw_applied w1 = tw_applied w"
    by (simp_all add: w1_def)
  have ok1: "decides ?cid ?n False w1" if "approvals_ok w"
  proof -
    have ok: "channels_ok (approvals w)" using that by (simp add: approvals_ok_def)
    have "channels_ok (snd (ch_open ?cid (approvals w)))" using ok by (rule channels_ok_steps)
    moreover have "ch_senders (approvals w) k \<noteq> Some ?n" "ch_sent (approvals w) ?n = None" for k using ok by (auto simp: channels_ok_def)
    ultimately show ?thesis
      by (simp add: decides_def approvals_ok_def w1_def begin_awaiting_approval_def ch_open_def set_status_def)
  qed
  have q1: "approved_frame allowed w w1"
    using ok1 by (intro approved_frame_quiet[where used = "[]"]) (auto simp: w1 decides_def)
  obtain r2 w2 where aw: "await_decision ?cid token ?n w1 = (r2, w2)" by fastforce
  have q2: "approved_frame allowed w w2" using ap.trans[OF q1 ap.keeps_run[OF ap_await aw]] .
  have "approved_frame allowed w (snd (act_bind (await_decision ?cid token ?n) (apply_decision env token pending) w1))"
  proof (cases "r2 = Inr Approve \<and> te_host env \<noteq> None")
    case True
    then obtain host where host: "te_host env = Some host" by auto
    let ?w3 = "on_session (set_status Applying) w2\<lparr>tw_applied := tw_applied w2 @ [(?cid, pa_plan pending)]\<rparr>"
    have "approved_frame allowed w ?w3"
    proof (cases "approvals_ok w")
      case ok: True
      obtain used where used: "tw_script w1 = used @ tw_script w2" "ResolveApproval ?cid True \<in> commands used"
          "tw_events w2 = tw_events w1" "tw_applied w2 = tw_applied w1" "approvals_ok w2"
        using await_approves[OF _ ok1[OF ok]] aw True by blast
      have "shown allowed [approval_shown pending] (?cid, pa_plan pending)" using assms by (force simp: shown_def approval_shown_def)
      then show ?thesis unfolding approved_frame_def using used w1
        by (intro exI[of _ used] exI[of _ "[approval_shown pending]"] exI[of _ "[(?cid, pa_plan pending)]"]) (auto simp: approvals_ok_def set_status_def)
    next
      case False
      then show ?thesis using q2 by (auto simp: approved_frame_def)
    qed
    then show ?thesis
      using ap.trans[OF _ ap_after_apply[OF host]] True aw by (auto simp: act_bind_def apply_decision_def)
  next
    case False
    have "snd (act_bind (await_decision ?cid token ?n) (apply_decision env token pending) w1) = w2"
      using aw False by (auto simp: act_bind_def apply_decision_def apply_approved_def raise_error_def split: sum.split approval_decision.split)
    then show ?thesis using q2 by simp
  qed
  then have "ap.keeps allowed (\<lambda>v. if v = w then act_bind (await_decision ?cid token ?n) (apply_decision env token pending) w1 else (Inl Suspended, v))"
    by (simp add: ap.keeps_def ap.refl)
  from ap_restoring[OF this] show "approved_frame allowed w (snd (gate_and_apply env token pending w))"
    by (auto simp: gate restoring_streaming_def ap.keeps_def dest!: spec[of _ w])
qed

lemma retry_cases:
  "retry_unauthorized env backend request w = stream_turn backend request w \<or>
   (\<exists>w1. stream_turn backend request w = (Inl (Raised AiUnauthorized), w1) \<and>
     (retry_unauthorized env backend request w = (Inl (Raised AiHostUnavailable), w1) \<or>
      (\<exists>host. te_host env = Some host \<and> retry_unauthorized env backend request w =
         act_bind (required_header (ah_refresh host)) (\<lambda>header. stream_turn backend (request\<lparr>cr_authorization_header := header\<rparr>)) w1)))"
  by (auto simp: retry_unauthorized_def raise_error_def split: prod.split sum.split stop.split ai_error.split option.split)

section \<open>Rules for turns\<close>

text \<open>
  The interface of a property of turns: \<open>P\<close> is kept by the steps of the world, and by the gate for the tools that propose
  changes; \<open>asks\<close> is what holds when the turn waits in the gate for ever.
\<close>

definition gate_tool :: "'v tool_descriptor list \<Rightarrow> pending_approval \<Rightarrow> bool" where
  "gate_tool allowed pending \<longleftrightarrow>
     (\<exists>tool\<in>set allowed. td_access tool = ProposesMutation \<and> td_tool_id tool = pa_tool_id pending \<and> td_name tool = pa_tool_name pending)"

fun stop_inv :: "('w \<Rightarrow> bool) \<Rightarrow> ('w \<Rightarrow> bool) \<Rightarrow> stop \<Rightarrow> 'w \<Rightarrow> bool" where
  "stop_inv P asks Suspended w = asks w"
| "stop_inv P asks (Raised e) w = P w"

locale turn_steps =
  fixes P asks :: "('v, 'x) turn_world \<Rightarrow> bool"
  assumes script: "P w \<Longrightarrow> tw_script w = used @ rest \<Longrightarrow> P ((fold outside_step (concat (map bt_commands used)) w)\<lparr>tw_script := rest\<rparr>)"
    and events: "P w \<Longrightarrow> P (w\<lparr>tw_events := tw_events w @ [e]\<rparr>)"
    and ext: "P w \<Longrightarrow> P (w\<lparr>tw_ext := x\<rparr>)"
    and broker: "P w \<Longrightarrow> P (w\<lparr>tw_broker := c\<rparr>)"
    and requests: "P w \<Longrightarrow> P (w\<lparr>tw_requests := rs\<rparr>)"
begin

definition safe :: "('v, 'x, 'a) tact \<Rightarrow> bool" where
  "safe m \<longleftrightarrow> act_inv P (stop_inv P asks) m"

lemma safe_lift: "safe (act_lift (Inr x))" and safe_raise: "safe (raise_error e)" and safe_get: "safe (act_get f)"
  and safe_modify: "(\<And>w. P w \<Longrightarrow> P (g w)) \<Longrightarrow> safe (act_modify g)"
  by (simp_all add: safe_def raise_error_def act_inv_lift act_inv_fail act_inv_get act_inv_modify)

lemma safe_bind: "safe m \<Longrightarrow> (\<And>x. safe (f x)) \<Longrightarrow> safe (act_bind m f)"
  unfolding safe_def by (rule act_inv_bind)

lemma safe_if: "(b \<Longrightarrow> safe m) \<Longrightarrow> (\<not> b \<Longrightarrow> safe n) \<Longrightarrow> safe (if b then m else n)"
  and safe_option: "safe m \<Longrightarrow> (\<And>x. safe (g x)) \<Longrightarrow> safe (case v of None \<Rightarrow> m | Some x \<Rightarrow> g x)"
  and safe_prod: "(\<And>x y. safe (h x y)) \<Longrightarrow> safe (case p of (x, y) \<Rightarrow> h x y)"
  by (auto split: option.split prod.split)

lemma safe_fold: "(\<And>x s. x \<in> set xs \<Longrightarrow> safe (f x s)) \<Longrightarrow> safe (act_fold f xs s)"
  unfolding safe_def by (rule act_inv_fold)

lemma safe_emit: "safe (emit e)"
  unfolding emit_def by (intro safe_modify events)

lemma safe_pause: "safe pause"
  unfolding safe_def
proof (rule act_invI)
  fix w
  assume w: "P w"
  obtain used where u: "tw_script w = used @ tw_script (snd (next_batch w))"
      "snd (next_batch w) = (fold outside_step (concat (map bt_commands used)) w)\<lparr>tw_script := tw_script (snd (next_batch w))\<rparr>"
    using next_batch_runs by blast
  have "P (snd (next_batch w))" by (subst u(2)) (rule script[OF w u(1)])
  then show "ends P (stop_inv P asks) (pause w)" by (cases "next_batch w") (simp add: pause_def)
qed

lemma safe_call_ext: "safe (call_ext f)"
  unfolding call_ext_def
  by (intro safe_bind safe_pause) (auto simp: safe_def act_inv_def ends_cases Let_def ext split: prod.split sum.split)

text \<open>A wait that the last batch ends.\<close>

lemma safe_wait:
  assumes "\<And>w. poll last_batch w \<noteq> None"
  shows "safe (wait_for poll)"
  unfolding safe_def
proof (rule act_invI)
  fix w
  assume w: "P w"
  obtain used rest where u: "waited poll (tw_script w) w used rest" using wait_script_runs by blast
  obtain r v where r: "wait_script poll (tw_script w) w = (r, v)" by fastforce
  have "P v" "r \<noteq> None" using u r script[OF w, of used rest] assms unfolding waited_def by auto
  then show "ends P (stop_inv P asks) (wait_for poll w)" using r by (auto simp: wait_for_def)
qed

lemma safe_answer_errors: "safe m \<Longrightarrow> safe (answer_errors m)"
  unfolding safe_def
proof (rule act_invI)
  fix w
  assume "act_inv P (stop_inv P asks) m" "P w"
  then have "ends P (stop_inv P asks) (m w)" by (rule act_invD)
  then show "ends P (stop_inv P asks) (answer_errors m w)"
    by (auto simp: answer_errors_def ends_cases split: prod.split sum.split stop.split)
qed

end

locale turn_rules = turn_steps P asks for P asks :: "('v, 'x) turn_world \<Rightarrow> bool" +
  fixes token :: nat and allowed :: "'v tool_descriptor list"
  assumes gate: "gate_tool allowed pending \<Longrightarrow> act_inv P (stop_inv P asks) (gate_and_apply env token pending)"
begin

lemma safe_native:
  assumes "descriptor \<in> set allowed" "td_name descriptor = tc_tool_name call"
  shows "safe (execute_native_tool env token mode call descriptor)"
proof -
  have "safe (gate_and_apply env token \<lparr>pa_call_id = tc_call_id call, pa_tool_id = td_tool_id descriptor,
      pa_tool_name = tc_tool_name call, pa_plan = plan, pa_preview_text = preview\<rparr>)" if "td_access descriptor \<noteq> ReadOnly" for plan preview
    unfolding safe_def using that assms tool_access.exhaust[of "td_access descriptor"]
    by (intro gate) (auto simp: gate_tool_def intro!: bexI[of _ descriptor])
  then show ?thesis unfolding execute_native_tool_def
    by (intro safe_bind safe_get safe_option safe_raise safe_call_ext)
      (auto split: sum.split option.split intro!: safe_lift)
qed

lemma safe_proxy: "safe (execute_proxy_tool token call tool_id)"
proof -
  have open_pending: "safe (\<lambda>w. let (n, c) = ch_open cid (tw_broker w) in (Inr n, w\<lparr>tw_broker := c\<rparr>))" for cid
    by (auto simp: safe_def act_inv_def ends_cases Let_def broker split: prod.split)
  have broker_step: "safe (act_modify (on_broker f))" for f by (intro safe_modify broker)
  have "safe (wait_for (poll_proxy call token n))" for n
    by (rule safe_wait) (auto simp: poll_proxy_def last_batch_def Let_def split: poll.split)
  then show ?thesis unfolding execute_proxy_tool_def
    by (intro safe_bind safe_get safe_if safe_lift safe_emit open_pending broker_step)
      (auto split: sum.split intro!: safe_lift safe_bind safe_raise broker_step)
qed

lemma safe_handle: "safe (handle_tool_call env token mode allowed call)"
  unfolding handle_tool_call_def Let_def
  by (intro safe_bind safe_emit safe_lift)
    (auto split: option.split tool_source.split intro!: safe_lift safe_answer_errors safe_native safe_proxy dest: find_SomeD)

lemma safe_check_cancel: "safe (check_cancel t)"
  unfolding check_cancel_def by (intro safe_bind safe_get safe_if safe_lift safe_pause safe_raise)

lemma safe_consume: "safe (consume_stream t items acc)"
  by (induction t items acc rule: consume_stream.induct)
    (auto intro!: safe_bind safe_lift safe_raise safe_emit safe_check_cancel)

lemma safe_header: "safe (required_header f)"
  unfolding required_header_def by (intro safe_bind safe_option safe_lift safe_raise safe_call_ext)

lemma safe_authorization: "safe (authorization_header env)"
  unfolding authorization_header_def by (intro safe_if safe_option safe_lift safe_raise safe_header)

lemma safe_stream_turn: "safe (stream_turn backend request)"
  unfolding stream_turn_def by (intro safe_bind safe_modify safe_call_ext requests)

lemma safe_retry: "safe (retry_unauthorized env backend request)"
  unfolding safe_def
proof (rule act_invI)
  fix w
  assume w: "P w"
  have again: "safe (act_bind (required_header (ah_refresh host)) (\<lambda>header. stream_turn backend (request\<lparr>cr_authorization_header := header\<rparr>)))" for host
    by (intro safe_bind safe_header safe_stream_turn)
  have first: "ends P (stop_inv P asks) (stream_turn backend request w)"
    using safe_stream_turn w unfolding safe_def by (rule act_invD)
  show "ends P (stop_inv P asks) (retry_unauthorized env backend request w)"
    using retry_cases[of env backend request w]
  proof (elim disjE exE conjE)
    fix w1
    assume "stream_turn backend request w = (Inl (Raised AiUnauthorized), w1)"
    then have w1: "P w1" using first by simp
    {
      assume "retry_unauthorized env backend request w = (Inl (Raised AiHostUnavailable), w1)"
      then show ?thesis using w1 by simp
    next
      fix host
      assume "retry_unauthorized env backend request w = act_bind (required_header (ah_refresh host))
          (\<lambda>header. stream_turn backend (request\<lparr>cr_authorization_header := header\<rparr>)) w1"
      then show ?thesis using act_invD[OF again[of host, unfolded safe_def] w1] by simp
    }
  qed (use first in simp)
qed

lemma safe_stream_round: "safe (stream_round env token mode allowed backend)"
  unfolding stream_round_def by (intro safe_bind safe_get safe_authorization safe_retry safe_consume)

end

locale turn_rules_push = turn_rules +
  assumes push: "P w \<Longrightarrow> P (on_session (push_message m) w)"
begin

lemma safe_answer_calls: "safe (answer_calls env token mode allowed calls)"
  unfolding answer_calls_def by (intro safe_fold safe_bind safe_handle safe_modify push)

lemma safe_rounds: "safe (run_rounds env token mode allowed backend n usage)"
proof (induction n arbitrary: usage)
  case (Suc n)
  have "P (on_session (push_assistant t calls) w)" if "P w" for t calls w
    using push[OF that, of "Assistant t calls"] that by (cases "t \<noteq> [] \<or> calls \<noteq> []") (simp_all add: push_assistant_def)
  then show ?case unfolding run_rounds.simps
    by (intro safe_bind safe_stream_round safe_prod safe_modify safe_if safe_lift safe_answer_calls Suc)
qed (simp add: safe_lift)

end

text \<open>Invariants that the gate keeps step by step; \<open>asks\<close> has to hold when its wait lasts.\<close>

locale turn_gate = turn_steps +
  assumes status: "P w \<Longrightarrow> P (on_session (set_status status) w)"
    and applied: "P w \<Longrightarrow> P (w\<lparr>tw_applied := ps\<rparr>)"
    and snapshots: "P w \<Longrightarrow> P (on_session (update_snapshots env ops result) w)"
    and closed: "P w \<Longrightarrow> P (on_session (\<lambda>s. s\<lparr>sr_approvals := ch_close n (sr_approvals s)\<rparr>) w)"
    and cleared: "P w \<Longrightarrow> P (on_session (clear_approval cid) w)"
begin

lemma safe_apply_decision: "safe (apply_decision env token pending decision)"
  unfolding apply_decision_def apply_approved_def
  by (cases decision) (auto intro!: safe_option safe_raise safe_bind safe_modify safe_call_ext safe_get safe_lift status applied snapshots)

lemma gate_ends:
  assumes "P w1" "w1 = on_session (snd \<circ> begin_awaiting_approval (pa_call_id pending)) w\<lparr>tw_events := tw_events w @ [approval_shown pending]\<rparr>"
    and "\<And>v. wait_for (poll_decision (pa_call_id pending) token (ch_count (approvals w))) w1 = (Inl Suspended, v) \<Longrightarrow> asks v"
  shows "ends P (stop_inv P asks) (gate_and_apply env token pending w)"
proof -
  let ?cid = "pa_call_id pending" and ?n = "ch_count (approvals w)"
  obtain used rest where u: "waited (poll_decision ?cid token ?n) (tw_script w1) w1 used rest" using wait_script_runs by blast
  obtain r v where r: "wait_script (poll_decision ?cid token ?n) (tw_script w1) w1 = (r, v)" by fastforce
  have v: "P v" using u r script[OF assms(1), of used rest] unfolding waited_def by auto
  have "ends P (stop_inv P asks) (await_decision ?cid token ?n w1)"
  proof (cases r)
    case None
    then show ?thesis using assms(3) r by (simp add: await_decision_def act_bind_def wait_for_def)
  next
    case (Some d)
    then have "await_decision ?cid token ?n w1 =
       (case d of
          Inr d \<Rightarrow> act_lift (Inr d)
        | Inl e \<Rightarrow>
            if e = AiCancelled then act_bind (act_modify (on_session (clear_approval ?cid))) (\<lambda>_. raise_error e)
            else raise_error e) (on_session (\<lambda>s. s\<lparr>sr_approvals := ch_close ?n (sr_approvals s)\<rparr>) v)"
      using r by (simp add: await_decision_def act_bind_def wait_for_def)
    then show ?thesis using closed[OF v, of ?n] cleared[OF closed[OF v, of ?n]]
      by (auto simp: raise_error_def act_bind_def split: sum.split)
  qed
  then have "ends P (stop_inv P asks) (act_bind (await_decision ?cid token ?n) (apply_decision env token pending) w1)"
    by (rule ends_bind) (rule safe_apply_decision[unfolded safe_def])
  moreover have "gate_and_apply env token pending w =
      restoring_streaming (\<lambda>_. act_bind (await_decision ?cid token ?n) (apply_decision env token pending) w1) w"
    by (simp add: gate_and_apply_def restoring_streaming_def assms(2) begin_awaiting_approval_def ch_open_def emit_def act_bind_def Let_def)
  ultimately show ?thesis
    by (auto simp: restoring_streaming_def ends_cases status split: prod.split sum.split stop.split)
qed

end

lemma approved_rules: "turn_rules_push (approved_frame allowed w0) (approved_frame allowed w0) token allowed"
proof
  fix w :: "('a, 'b) turn_world"
  assume w: "approved_frame allowed w0 w"
  show "approved_frame allowed w0 ((fold outside_step (concat (map bt_commands used)) w)\<lparr>tw_script := rest\<rparr>)" if "tw_script w = used @ rest" for used rest
    by (rule ap.trans[OF w], rule approved_frame_quiet[where used = used and evs = "[]"])
      (use that approvals_ok_fold[of w] in \<open>auto simp: approvals_ok_def\<close>)
  show "approved_frame allowed w0 (w\<lparr>tw_events := tw_events w @ [e]\<rparr>)" "approved_frame allowed w0 (w\<lparr>tw_ext := x\<rparr>)"
    "approved_frame allowed w0 (w\<lparr>tw_broker := c\<rparr>)" "approved_frame allowed w0 (w\<lparr>tw_requests := rs\<rparr>)"
    "approved_frame allowed w0 (on_session (push_message m) w)" for e x c rs m
    by (rule ap.trans[OF w], rule approved_frame_quiet[where used = "[]"]; simp add: approvals_ok_def push_message_def)+
next
  fix pending env
  assume "gate_tool allowed pending"
  then have gate: "ap.keeps allowed (gate_and_apply env token pending :: ('a, 'b, rstr \<times> bool) tact)" by (intro ap_gate) (simp add: gate_tool_def)
  have same: "stop_inv R R e = R" for R :: "('a, 'b) turn_world \<Rightarrow> bool" and e by (cases e) auto
  show "act_inv (approved_frame allowed w0) (stop_inv (approved_frame allowed w0) (approved_frame allowed w0)) (gate_and_apply env token pending)"
  proof (rule act_invI)
    fix w
    assume "approved_frame allowed w0 w"
    then have "approved_frame allowed w0 (snd (gate_and_apply env token pending w))"
      by (rule ap.trans) (use gate in \<open>simp add: ap.keeps_def\<close>)
    then show "ends (approved_frame allowed w0) (stop_inv (approved_frame allowed w0) (approved_frame allowed w0)) (gate_and_apply env token pending w)"
      by (auto simp: ends_cases same split: prod.split sum.split)
  qed
qed

end
