(* ===== verification/Ai_Turn.thy ===== *)
theory Ai_Turn
  imports Ai_Turn_Rules
begin

text \<open>
  Properties of a turn of the AI session: only approved changes are applied, a turn ends or waits for an answer that it
  would take, and the history has an answer for every call; at the end a small session that is run.
\<close>

interpretation ar: turn_rules_push "approved_frame allowed w0" "approved_frame allowed w0" token allowed for allowed w0 token
  by (rule approved_rules)

section \<open>Turns from the start\<close>

abbreviation turn_tools :: "chat_mode \<Rightarrow> ('v, 'x) turn_world \<Rightarrow> 'v tool_descriptor list" where
  "turn_tools mode w \<equiv> allowed_tools mode (registry_descriptors (tw_registry w))"

lemma remember_fields [simp]:
  "sr_approvals (remember_embedded_file_snapshots ctx s) = sr_approvals s" "sr_control (remember_embedded_file_snapshots ctx s) = sr_control s"
  "sr_cancelled (remember_embedded_file_snapshots ctx s) = sr_cancelled s" "sr_messages (remember_embedded_file_snapshots ctx s) = sr_messages s"
proof -
  have "sr_approvals (fold (\<lambda>file. remember_path_snapshot (ef_path file) (ef_checksum file) False) fs s) = sr_approvals s \<and>
      sr_control (fold (\<lambda>file. remember_path_snapshot (ef_path file) (ef_checksum file) False) fs s) = sr_control s \<and>
      sr_cancelled (fold (\<lambda>file. remember_path_snapshot (ef_path file) (ef_checksum file) False) fs s) = sr_cancelled s \<and>
      sr_messages (fold (\<lambda>file. remember_path_snapshot (ef_path file) (ef_checksum file) False) fs s) = sr_messages s" for fs
    by (induction fs arbitrary: s) (simp_all add: remember_path_snapshot_def)
  then show "sr_approvals (remember_embedded_file_snapshots ctx s) = sr_approvals s" "sr_control (remember_embedded_file_snapshots ctx s) = sr_control s"
    "sr_cancelled (remember_embedded_file_snapshots ctx s) = sr_cancelled s" "sr_messages (remember_embedded_file_snapshots ctx s) = sr_messages s"
    unfolding remember_embedded_file_snapshots_def by blast+
qed

lemma begin_turn_fields [simp]:
  "sr_approvals (begin_turn mode content ctx s) = sr_approvals s" "sr_control (begin_turn mode content ctx s) = sr_control s"
  "sr_cancelled (begin_turn mode content ctx s) = sr_cancelled s"
  "sr_messages (begin_turn mode content ctx s) = sr_messages s @ [User (content_with_turn_context (sr_mode s) mode content ctx) (Some ctx)]"
  by (simp_all add: begin_turn_def replace_mode_def push_message_def)

text \<open>A turn that starts: the state behind the new message, and the rounds.\<close>

definition started :: "chat_mode \<Rightarrow> rstr \<Rightarrow> editor_context \<Rightarrow> ('v, 'x) turn_world \<Rightarrow> ('v, 'x) turn_world" where
  "started mode content ctx w = on_session (begin_turn mode content ctx \<circ> snd \<circ> start_run) w"

lemma run_turn_inner_cases:
  "(sc_status (sr_control (tw_session w)) \<noteq> Idle \<and> run_turn_inner env mode content ctx w = (Inl (Raised AiSessionBusy), w)) \<or>
   (sc_status (sr_control (tw_session w)) = Idle \<and>
     ((\<exists>e. run_turn_inner env mode content ctx w = (Inl (Raised e), started mode content ctx w)) \<or>
      (\<exists>backend. run_turn_inner env mode content ctx w =
        run_rounds env (sr_tokens (tw_session w)) mode (turn_tools mode w) backend (cf_round_limit (te_config env)) None (started mode content ctx w))))"
  by (auto simp: run_turn_inner_def start_run_def started_def act_bind_def raise_error_def split: sum.split)

lemma ap_run_turn: "approved_frame (turn_tools mode w) w (snd (run_turn env mode content ctx w))"
proof -
  have start: "approved_frame (turn_tools mode w) w (started mode content ctx w)"
    by (rule approved_frame_quiet[where used = "[]" and evs = "[]"]) (auto simp: started_def start_run_def approvals_ok_def)
  have same: "stop_inv R R e = R" for R :: "('a, 'b) turn_world \<Rightarrow> bool" and e by (cases e) auto
  have rounds: "approved_frame (turn_tools mode w) w (snd (run_rounds env token mode (turn_tools mode w) backend n usage (started mode content ctx w)))" for token backend n usage
    using act_invD[OF ar.safe_rounds[unfolded ar.safe_def] start, of env token mode backend n usage]
    by (auto simp: ends_cases same split: prod.splits sum.splits)
  have inner: "approved_frame (turn_tools mode w) w (snd (run_turn_inner env mode content ctx w))"
    using run_turn_inner_cases[of w env mode content ctx] start rounds by (auto simp: ap.refl)
  have fin: "approved_frame (turn_tools mode w) v (finalize_run r v)" for r and v :: "('a, 'b) turn_world"
    by (rule approved_frame_quiet[where used = "[]"])
      (auto simp: finalize_run_def complete_run_def approvals_ok_def Let_def split: prod.split)
  show ?thesis using inner ap.trans[OF inner fin]
    by (auto simp: run_turn_def split: prod.split sum.split stop.split)
qed

lemma ask_tools_read: "tool \<in> set (allowed_tools Ask ds) \<Longrightarrow> td_access tool = ReadOnly"
  by (simp add: allowed_tools_def)

lemma inline_tools_edit:
  "tool \<in> set (allowed_tools Inline ds) \<Longrightarrow> td_access tool = ProposesMutation \<Longrightarrow>
     td_tool_id tool = lit ''builtin.edit_file'' \<or> td_name tool = lit ''edit_file''"
  by (auto simp: allowed_tools_def)

text \<open>
  C19. A turn hands only those changes to the host that the user was shown, under the name of a tool that may propose changes in the
  mode of the turn, and that the user approved with a command for that call, whatever the model and the tools do and whatever
  other turns of the session do meanwhile. In the Ask mode nothing is applied.
\<close>

theorem turn_applies_only_approved:
  assumes "channels_ok (sr_approvals (tw_session w))"
  shows "\<exists>used evs new. tw_script w = used @ tw_script (snd (run_turn env mode content ctx w)) \<and>
    tw_events (snd (run_turn env mode content ctx w)) = tw_events w @ evs \<and>
    tw_applied (snd (run_turn env mode content ctx w)) = tw_applied w @ new \<and>
    (\<forall>p\<in>set new. ResolveApproval (fst p) True \<in> commands used \<and>
       shown (allowed_tools mode (registry_descriptors (tw_registry w))) evs p) \<and> (mode = Ask \<longrightarrow> new = [])"
proof -
  obtain used evs new where *: "tw_script w = used @ tw_script (snd (run_turn env mode content ctx w))"
      "tw_events (snd (run_turn env mode content ctx w)) = tw_events w @ evs"
      "tw_applied (snd (run_turn env mode content ctx w)) = tw_applied w @ new"
      "\<forall>p\<in>set new. ResolveApproval (fst p) True \<in> commands used \<and> shown (turn_tools mode w) evs p"
    using ap_run_turn[of mode w env content ctx] assms by (auto simp: approved_frame_def approvals_ok_def)
  moreover have "mode = Ask \<longrightarrow> new = []"
    using * ask_tools_read by (cases new) (fastforce simp: shown_def)+
  ultimately show ?thesis by blast
qed

section \<open>How turns end\<close>

text \<open>A command that is not a step of another turn of the same session.\<close>

fun own_command :: "'v outside \<Rightarrow> bool" where
  "own_command OtherStart = False"
| "own_command OtherComplete = False"
| "own_command (OtherStatus _) = False"
| "own_command (OtherApproval _) = False"
| "own_command (OtherClear _) = False"
| "own_command (OtherMessage _) = False"
| "own_command _ = True"

definition alone :: "('v, 'x) turn_world \<Rightarrow> bool" where
  "alone w \<longleftrightarrow> (\<forall>c\<in>commands (tw_script w). own_command c)"

abbreviation control :: "('v, 'x) turn_world \<Rightarrow> session_control" where
  "control w \<equiv> sr_control (tw_session w)"

definition cancellable :: "nat \<Rightarrow> ('v, 'x) turn_world \<Rightarrow> bool" where
  "cancellable token w \<longleftrightarrow> is_cancelled token w \<or> sc_cancel (control w) = Some token"

definition running :: "nat \<Rightarrow> ('v, 'x) turn_world \<Rightarrow> bool" where
  "running token w \<longleftrightarrow> alone w \<and> approvals_ok w \<and> cancellable token w"

text \<open>The turn waits for an answer to the last event: the answer would be taken, and so would a cancellation.\<close>

definition asking :: "nat \<Rightarrow> ('v, 'x) turn_world \<Rightarrow> bool" where
  "asking token w \<longleftrightarrow> sc_status (control w) = AwaitingApproval \<and> sc_cancel (control w) = Some token \<and> \<not> is_cancelled token w \<and>
     (\<exists>pending evs. tw_events w = evs @ [approval_shown pending] \<and>
        (\<forall>approved. fst (resolve_approval (pa_call_id pending) approved (tw_session w)) = Inr ()))"

lemma own_command_keeps:
  assumes "own_command c"
  shows "sc_status (control (outside_step c w)) = sc_status (control w)"
    and "ch_receivers (approvals (outside_step c w)) = ch_receivers (approvals w)"
    and "sr_messages (tw_session (outside_step c w)) = sr_messages (tw_session w)"
    and "cancellable token w \<Longrightarrow> cancellable token (outside_step c w)"
  using assms
  by (cases c; auto simp: outside_step.simps session_defs ch_send_def ch_clear_def cancellable_def is_cancelled_def Let_def
      split: session_status.split option.split)+

lemma own_commands_keep:
  assumes "\<forall>c\<in>set cs. own_command c"
  shows "sc_status (control (fold outside_step cs w)) = sc_status (control w)"
    and "ch_receivers (approvals (fold outside_step cs w)) = ch_receivers (approvals w)"
    and "sr_messages (tw_session (fold outside_step cs w)) = sr_messages (tw_session w)"
    and "cancellable token w \<Longrightarrow> cancellable token (fold outside_step cs w)"
  using assms by (induction cs arbitrary: w) (simp_all add: own_command_keeps)

lemma set_commands: "set (concat (map bt_commands bs)) = commands bs"
  by (simp add: commands_def)

lemma running_simps [simp]:
  "running token (w\<lparr>tw_events := es\<rparr>) = running token w" "running token (w\<lparr>tw_ext := x\<rparr>) = running token w"
  "running token (w\<lparr>tw_broker := c\<rparr>) = running token w" "running token (w\<lparr>tw_requests := rs\<rparr>) = running token w"
  "running token (w\<lparr>tw_applied := ps\<rparr>) = running token w"
  by (simp_all add: running_def alone_def approvals_ok_def cancellable_def is_cancelled_def)

lemma running_script:
  assumes "running token w" "tw_script w = used @ rest"
  shows "running token ((fold outside_step (concat (map bt_commands used)) w)\<lparr>tw_script := rest\<rparr>)"
proof -
  have "\<forall>c\<in>set (concat (map bt_commands used)). own_command c" using assms unfolding set_commands by (auto simp: running_def alone_def)
  from own_commands_keep(4)[OF this, of token w] assms show ?thesis
    using approvals_ok_fold[of w "concat (map bt_commands used)"]
    by (auto simp: running_def alone_def approvals_ok_def cancellable_def is_cancelled_def)
qed

lemma running_session:
  assumes "running token w" "\<And>s. sc_cancel (sr_control (f s)) = sc_cancel (sr_control s)" "\<And>s. sr_cancelled (f s) = sr_cancelled s"
    and "\<And>s. channels_ok (sr_approvals s) \<Longrightarrow> channels_ok (sr_approvals (f s))"
  shows "running token (on_session f w)"
  using assms by (simp add: running_def alone_def approvals_ok_def cancellable_def is_cancelled_def)

interpretation rg: turn_gate "running token" "asking token" for token
proof
  show "running token w \<Longrightarrow> tw_script w = used @ rest \<Longrightarrow>
      running token (fold outside_step (concat (map bt_commands used)) w\<lparr>tw_script := rest\<rparr>)" for w :: "('v, 'x) turn_world" and used rest
    by (rule running_script)
qed (auto intro!: running_session simp: set_status_def clear_approval_def channels_ok_steps update_snapshots_def apply_successful_mutation_def
  clear_mutation_snapshots_def split: mutation_apply_result.split)

lemma gate_asks: "act_inv (running token) (stop_inv (running token) (asking token)) (gate_and_apply env token pending :: ('v, 'x, rstr \<times> bool) tact)"
proof (rule act_invI)
  fix w :: "('v, 'x) turn_world"
  assume w: "running token w"
  let ?cid = "pa_call_id pending" and ?n = "ch_count (approvals w)"
  define w1 where "w1 = on_session (snd \<circ> begin_awaiting_approval ?cid) w\<lparr>tw_events := tw_events w @ [approval_shown pending]\<rparr>"
  have run1: "running token w1"
    unfolding w1_def using w by (simp, intro running_session) (auto simp: begin_awaiting_approval_def set_status_def channels_ok_steps split: prod.split
      intro: channels_ok_steps(1)[of _ ?cid, THEN subst[of _ _ channels_ok, rotated]])
  have w1: "sc_status (control w1) = AwaitingApproval" "ch_receivers (approvals w1) ?n" "tw_events w1 = tw_events w @ [approval_shown pending]"
    by (simp_all add: w1_def begin_awaiting_approval_def ch_open_def set_status_def)
  show "ends (running token) (stop_inv (running token) (asking token)) (gate_and_apply env token pending w)"
  proof (rule rg.gate_ends[OF run1 w1_def])
    fix v
    assume "wait_for (poll_decision ?cid token ?n) w1 = (Inl Suspended, v)"
    then have ws: "wait_script (poll_decision ?cid token ?n) (tw_script w1) w1 = (None, v)"
      by (auto simp: wait_for_def split: prod.splits option.splits)
    obtain used rest where u: "waited (poll_decision ?cid token ?n) (tw_script w1) w1 used rest" using wait_script_runs by blast
    then have script: "tw_script w1 = used @ rest" and v: "v = fold outside_step (concat (map bt_commands used)) w1\<lparr>tw_script := rest\<rparr>"
      and poll: "poll_decision ?cid token ?n last_batch v = None"
      using ws unfolding waited_def by auto
    have own: "\<forall>c\<in>set (concat (map bt_commands used)). own_command c"
      using run1 script unfolding set_commands by (auto simp: running_def alone_def)
    have run: "running token v" using running_script[OF run1 script] v by simp
    have "ch_poll ?cid ?n (approvals v) = Pending" "\<not> is_cancelled token v"
      using poll by (auto simp: poll_decision_def last_batch_def Let_def split: if_splits poll.splits)
    moreover have "sc_status (control v) = AwaitingApproval" "ch_receivers (approvals v) ?n" "tw_events v = tw_events w @ [approval_shown pending]"
      using own_commands_keep(1,2)[OF own, of w1] w1 by (simp_all add: v)
    moreover have "sc_cancel (control v) = Some token" using run calculation(2) by (simp add: running_def cancellable_def)
    ultimately show "asking token v"
      unfolding asking_def by (intro conjI exI[of _ pending] exI[of _ "tw_events w"])
        (auto simp: resolve_approval_def ch_send_def ch_poll_def split: option.splits if_splits)
  qed
qed

interpretation rr: turn_rules_push "running token" "asking token" token allowed for token allowed
proof
  show "gate_tool allowed pending \<Longrightarrow> act_inv (running token) (stop_inv (running token) (asking token)) (gate_and_apply env token pending)"
    for pending and env :: "('v, 'x) turn_env"
    by (rule gate_asks)
  show "running token w \<Longrightarrow> running token (on_session (push_message m) w)" for w :: "('v, 'x) turn_world" and m
    by (rule running_session) (simp_all add: push_message_def)
qed

lemma started_running:
  assumes "sc_status (control w) = Idle" "approvals_ok w" "alone w"
  shows "running (sr_tokens (tw_session w)) (started mode content ctx w)"
  using assms by (simp add: started_def start_run_def running_def alone_def approvals_ok_def cancellable_def)

lemma finalize_run_ends:
  "sr_control (tw_session (finalize_run r w)) = \<lparr>sc_status = Idle, sc_cancel = None, sc_deferred_cancel = False\<rparr>"
  "\<exists>evs reason usage. tw_events (finalize_run r w) = evs @ [Done reason usage]"
  by (auto simp: finalize_run_def complete_run_def Let_def split: sum.split)

text \<open>
  C20. A turn of a session that no other turn disturbs either ends, with a final event and the session idle, whatever the model, the
  tools and the host answer; or it waits for the answer of the user to the question it has shown last, and then the answer would
  be taken and the turn can be cancelled.
\<close>

theorem turn_ends_or_asks:
  assumes "sc_status (control w) = Idle" "channels_ok (sr_approvals (tw_session w))" "alone w"
  shows "case run_turn env mode content ctx w of
      (True, w') \<Rightarrow> sr_control (tw_session w') = \<lparr>sc_status = Idle, sc_cancel = None, sc_deferred_cancel = False\<rparr> \<and>
        (\<exists>evs reason usage. tw_events w' = evs @ [Done reason usage])
    | (False, w') \<Rightarrow> asking (sr_tokens (tw_session w)) w'"
proof -
  let ?token = "sr_tokens (tw_session w)"
  have run: "running ?token (started mode content ctx w)" using started_running assms by (auto simp: approvals_ok_def)
  have rounds: "ends (running ?token) (stop_inv (running ?token) (asking ?token))
      (run_rounds env ?token mode (turn_tools mode w) backend n usage (started mode content ctx w))" for backend n usage
    using rr.safe_rounds[unfolded rg.safe_def] run by (rule act_invD)
  have "ends (running ?token) (stop_inv (running ?token) (asking ?token)) (run_turn_inner env mode content ctx w)"
    using run_turn_inner_cases[of w env mode content ctx] assms(1) run rounds by auto
  then show ?thesis
    using finalize_run_ends by (auto simp: run_turn_def ends_cases split: prod.split sum.split stop.split)
qed

text \<open>A message to a busy session frees it, while the first turn goes on: a second turn can start, and the first cannot be cancelled.\<close>

lemma busy_message_frees_session:
  assumes "sc_status (control w) \<noteq> Idle"
  shows "fst (run_turn env mode content ctx w)"
    and "control (snd (run_turn env mode content ctx w)) = \<lparr>sc_status = Idle, sc_cancel = None, sc_deferred_cancel = False\<rparr>"
    and "\<exists>token s. start_run (tw_session (snd (run_turn env mode content ctx w))) = (Inr token, s)"
    and "sr_cancelled (session_cancel (tw_session (snd (run_turn env mode content ctx w)))) = sr_cancelled (tw_session w)"
  using run_turn_inner_cases[of w env mode content ctx] assms
  by (auto simp: run_turn_def finalize_run_def complete_run_def start_run_def session_cancel_def cancel_token_def)

section \<open>The history of a turn\<close>

definition same_history :: "'v chat_message list \<Rightarrow> ('v, 'x) turn_world \<Rightarrow> bool" where
  "same_history ms w \<longleftrightarrow> alone w \<and> sr_messages (tw_session w) = ms"

lemma same_history_session:
  assumes "same_history ms w" "\<And>s. sr_messages (f s) = sr_messages s"
  shows "same_history ms (on_session f w)"
  using assms by (simp add: same_history_def alone_def)

lemma same_history_script:
  "same_history ms w \<Longrightarrow> tw_script w = used @ rest \<Longrightarrow> same_history ms (fold outside_step (concat (map bt_commands used)) w\<lparr>tw_script := rest\<rparr>)"
  using own_commands_keep(3)[of "concat (map bt_commands used)" w] unfolding set_commands by (auto simp: same_history_def alone_def)

interpretation mg: turn_gate "same_history ms" "same_history ms" for ms
  by unfold_locales (erule (1) same_history_script,
    auto simp: same_history_def alone_def set_status_def clear_approval_def update_snapshots_def apply_successful_mutation_def
      clear_mutation_snapshots_def split: mutation_apply_result.split)

lemma wait_keeps:
  assumes "\<And>w used rest. P w \<Longrightarrow> tw_script w = used @ rest \<Longrightarrow> P (fold outside_step (concat (map bt_commands used)) w\<lparr>tw_script := rest\<rparr>)"
    and "P w" "wait_for poll w = (r, v)"
  shows "P v"
proof -
  obtain used rest where u: "waited poll (tw_script w) w used rest" using wait_script_runs by blast
  have "v = snd (wait_script poll (tw_script w) w)" using assms(3) by (auto simp: wait_for_def split: prod.splits option.splits)
  then have "v = fold outside_step (concat (map bt_commands used)) w\<lparr>tw_script := rest\<rparr>" "tw_script w = used @ rest"
    using u unfolding waited_def by metis+
  then show ?thesis using assms(1)[OF assms(2), of used rest] by simp
qed

lemma gate_same_history:
  "act_inv (same_history ms) (stop_inv (same_history ms) (same_history ms)) (gate_and_apply env token pending :: ('v, 'x, rstr \<times> bool) tact)"
proof (rule act_invI)
  fix w :: "('v, 'x) turn_world"
  assume w: "same_history ms w"
  define w1 where "w1 = on_session (snd \<circ> begin_awaiting_approval (pa_call_id pending)) w\<lparr>tw_events := tw_events w @ [approval_shown pending]\<rparr>"
  have w1: "same_history ms w1"
    using w by (simp add: w1_def same_history_def alone_def begin_awaiting_approval_def set_status_def split: prod.split)
  show "ends (same_history ms) (stop_inv (same_history ms) (same_history ms)) (gate_and_apply env token pending w)"
    by (rule mg.gate_ends[OF w1 w1_def]) (rule wait_keeps[OF same_history_script w1])
qed

interpretation mr: turn_rules "same_history ms" "same_history ms" token allowed for ms token allowed
  by unfold_locales (rule gate_same_history)

text \<open>What a round adds: the message of the model, and an answer to each of the calls that were answered.\<close>

fun round_messages :: "rstr \<times> 'v model_tool_call list \<times> (rstr \<times> bool) list \<Rightarrow> 'v chat_message list" where
  "round_messages (assistant_text, calls, outcomes) =
     (if assistant_text = [] \<and> calls = [] then [] else Assistant assistant_text calls # map2 tool_answer calls outcomes)"

fun answered :: "rstr \<times> 'v model_tool_call list \<times> (rstr \<times> bool) list \<Rightarrow> bool" where
  "answered (assistant_text, calls, outcomes) \<longleftrightarrow> length outcomes = length calls"

definition calls_answered :: "'v model_tool_call list \<Rightarrow> 'v chat_message list \<Rightarrow> (stop + unit) \<times> ('v, 'x) turn_world \<Rightarrow> bool" where
  "calls_answered calls ms z \<longleftrightarrow> (\<exists>outcomes. same_history (ms @ map2 tool_answer calls outcomes) (snd z) \<and>
     (case fst z of Inr _ \<Rightarrow> length outcomes = length calls | Inl _ \<Rightarrow> length outcomes < length calls))"

lemma answer_calls_history:
  "same_history ms w \<Longrightarrow> calls_answered calls ms (answer_calls env token mode allowed calls w)"
proof (induction calls arbitrary: ms w)
  case Nil
  then show ?case by (auto simp: calls_answered_def answer_calls_def)
next
  case (Cons call calls)
  obtain r v where h: "handle_tool_call env token mode allowed call w = (r, v)" by fastforce
  have e: "ends (same_history ms) (stop_inv (same_history ms) (same_history ms)) (handle_tool_call env token mode allowed call w)"
    using mr.safe_handle[unfolded mg.safe_def] Cons.prems by (rule act_invD)
  have same: "stop_inv R R x = R" for R :: "('a, 'b) turn_world \<Rightarrow> bool" and x by (cases x) auto
  show ?case
  proof (cases r)
    case (Inl x)
    then show ?thesis using h e
      by (auto simp: calls_answered_def answer_calls_def act_bind_def same intro!: exI[of _ "[]"])
  next
    case (Inr outcome)
    let ?v = "on_session (push_message (tool_answer call outcome)) v"
    have "same_history (ms @ [tool_answer call outcome]) ?v"
      using e h Inr by (simp add: same_history_def alone_def push_message_def)
    from Cons.IH[OF this] obtain outcomes where o: "same_history ((ms @ [tool_answer call outcome]) @ map2 tool_answer calls outcomes) (snd (answer_calls env token mode allowed calls ?v))"
        "case fst (answer_calls env token mode allowed calls ?v) of Inr _ \<Rightarrow> length outcomes = length calls | Inl _ \<Rightarrow> length outcomes < length calls"
      by (auto simp: calls_answered_def)
    have "answer_calls env token mode allowed (call # calls) w = answer_calls env token mode allowed calls ?v"
      using h Inr by (simp add: answer_calls_def act_bind_def)
    then show ?thesis using o unfolding calls_answered_def
      by (intro exI[of _ "outcome # outcomes"]) (auto split: sum.split)
  qed
qed

definition rounds_ok :: "nat \<Rightarrow> 'v chat_message list \<Rightarrow> (stop + 'a) \<times> ('v, 'x) turn_world \<Rightarrow> bool" where
  "rounds_ok n ms z \<longleftrightarrow> (\<exists>rounds. same_history (ms @ concat (map round_messages rounds)) (snd z) \<and> length rounds \<le> n \<and>
     (\<forall>r\<in>set (if is_ok (fst z) then rounds else butlast rounds). answered r))"

lemma rounds_ok_stop: "same_history ms w \<Longrightarrow> rounds_ok n ms (r, w)"
  unfolding rounds_ok_def by (rule exI[of _ "[]"]) simp

lemma rounds_ok_Cons:
  assumes "rounds_ok n (ms @ round_messages r) z" "answered r"
  shows "rounds_ok (Suc n) ms z"
proof -
  obtain rounds where "same_history ((ms @ round_messages r) @ concat (map round_messages rounds)) (snd z)" "length rounds \<le> n"
      "\<forall>r\<in>set (if is_ok (fst z) then rounds else butlast rounds). answered r"
    using assms(1) by (auto simp: rounds_ok_def)
  then show ?thesis unfolding rounds_ok_def using assms(2)
    by (intro exI[of _ "r # rounds"]) (auto split: if_splits)
qed

lemma rounds_history: "same_history ms w \<Longrightarrow> rounds_ok n ms (run_rounds env token mode allowed backend n usage w)"
proof (induction n arbitrary: ms w usage)
  case 0
  then show ?case by (simp add: rounds_ok_stop)
next
  case (Suc n)
  obtain r v where s: "stream_round env token mode allowed backend w = (r, v)" by fastforce
  have e: "ends (same_history ms) (stop_inv (same_history ms) (same_history ms)) (stream_round env token mode allowed backend w)"
    using mr.safe_stream_round[unfolded mg.safe_def] Suc.prems by (rule act_invD)
  have same: "stop_inv R R x = R" for R :: "('a, 'b) turn_world \<Rightarrow> bool" and x by (cases x) auto
  show ?case
  proof (cases r)
    case (Inl x)
    then show ?thesis using s e by (simp add: act_bind_def same rounds_ok_stop)
  next
    case (Inr result)
    obtain assistant_text calls reason usage' where res: "result = (assistant_text, calls, reason, usage')" by (cases result)
    let ?v = "on_session (push_assistant assistant_text calls) v"
    have v: "same_history (ms @ round_messages (assistant_text, calls, [])) ?v"
      using e s Inr by (auto simp: same_history_def alone_def push_assistant_def push_message_def)
    show ?thesis
    proof (cases "calls = []")
      case True
      have "rounds_ok (Suc n) ms (Inr (reason, usage'), ?v)"
        by (rule rounds_ok_Cons[OF rounds_ok_stop[OF v]]) (simp add: True)
      then show ?thesis using s Inr res True by (simp add: act_bind_def)
    next
      case False
      obtain z u where a: "answer_calls env token mode allowed calls ?v = (z, u)" by fastforce
      have "calls_answered calls (ms @ round_messages (assistant_text, calls, [])) (z, u)"
        using answer_calls_history[OF v] a by metis
      then obtain outcomes where o: "same_history (ms @ round_messages (assistant_text, calls, outcomes)) u"
          "case z of Inr _ \<Rightarrow> length outcomes = length calls | Inl _ \<Rightarrow> length outcomes < length calls"
        using False by (auto simp: calls_answered_def)
      show ?thesis
      proof (cases z)
        case (Inl x)
        have "rounds_ok (Suc n) ms (Inl x, u)"
          unfolding rounds_ok_def using o(1) by (intro exI[of _ "[(assistant_text, calls, outcomes)]"]) simp
        then show ?thesis using s Inr res False a Inl by (simp add: act_bind_def)
      next
        case (Inr x)
        then have "rounds_ok (Suc n) ms (run_rounds env token mode allowed backend n usage' u)"
          using o by (intro rounds_ok_Cons[OF Suc.IH[OF o(1)]]) simp
        then show ?thesis using s \<open>r = Inr result\<close> res False a Inr by (simp add: act_bind_def)
      qed
    qed
  qed
qed

text \<open>
  C21. What an undisturbed turn adds to the history: the message of the user, and for each of at most \<open>round_limit\<close> rounds the
  message of the model with its calls, each followed by its answers in the order of the calls, with the identifiers of the calls. A
  turn that succeeds has answered every call; one that is cancelled or suspended leaves calls of its last round only without an answer.
\<close>

theorem turn_answers_calls:
  assumes "sc_status (control w) = Idle" "alone w"
  shows "\<exists>rounds. sr_messages (tw_session (snd (run_turn_inner env mode content ctx w))) =
      sr_messages (tw_session w) @ User (content_with_turn_context (sr_mode (tw_session w)) mode content ctx) (Some ctx) #
        concat (map round_messages rounds) \<and>
    length rounds \<le> cf_round_limit (te_config env) \<and>
    (\<forall>r\<in>set (if is_ok (fst (run_turn_inner env mode content ctx w)) then rounds else butlast rounds). answered r)"
proof -
  let ?ms = "sr_messages (tw_session w) @ [User (content_with_turn_context (sr_mode (tw_session w)) mode content ctx) (Some ctx)]"
  have s: "same_history ?ms (started mode content ctx w)"
    using assms by (simp add: started_def start_run_def same_history_def alone_def)
  have "rounds_ok (cf_round_limit (te_config env)) ?ms (run_turn_inner env mode content ctx w)"
    using run_turn_inner_cases[of w env mode content ctx] assms(1) rounds_ok_stop[OF s] rounds_history[OF s] by auto
  then show ?thesis by (auto simp: rounds_ok_def same_history_def)
qed

section \<open>Examples\<close>

text \<open>A session whose model asks to create a file: approved, not answered, and cancelled.\<close>

definition example_call :: "nat model_tool_call" where
  "example_call = \<lparr>tc_call_id = lit ''c1'', tc_tool_name = lit ''create_file'', tc_arguments = 0, tc_signature = None,
     tc_tool_call_id = None, tc_provider_call_id = None\<rparr>"

definition create_tool :: "(nat, nat) native_tool" where
  "create_tool = \<lparr>nt_descriptor = \<lparr>td_tool_id = lit ''builtin.create_file'', td_name = lit ''create_file'', td_description = [],
       td_parameters = 0, td_category = [], td_access = ProposesMutation, td_source = Native\<rparr>,
     nt_call = (\<lambda>_ _ x. (Inr \<lparr>nr_text = [], nr_mutation = Some example_plan, nr_preview_text = None\<rparr>, x))\<rparr>"

definition example_turn_env :: "(nat, nat) turn_env" where
  "example_turn_env = \<lparr>te_ai = ai_example_env, te_to_json = (\<lambda>_. None),
     te_config = \<lparr>cf_provider = OpenAi, cf_api_key = None, cf_openai_api_key = None, cf_openai_base_url = None, cf_openai_model = None,
       cf_model = lit ''m'', cf_server_url = None, cf_round_limit = 1, cf_proxy_tool_timeout_ms = 15000\<rparr>,
     te_backend = Inr (\<lambda>_ x. (Inr [Inr (ToolCallsEvent [example_call])], x)),
     te_host = Some \<lparr>ah_apply = (\<lambda>_ x. (Inr (Applied [] []), x + 1)), ah_authorization = (\<lambda>x. (Inr None, x)), ah_refresh = (\<lambda>x. (Inr None, x))\<rparr>\<rparr>"

definition no_context :: editor_context where
  "no_context = \<lparr>ec_active_file = None, ec_selected_text = None, ec_embedded_files = [], ec_open_tabs = [], ec_cursor_line = None\<rparr>"

definition at_gate :: "nat outside list \<Rightarrow> nat batch list" where
  "at_gate cs = replicate 4 \<lparr>bt_commands = [], bt_cancel_first = False, bt_timeout = False\<rparr> @ [\<lparr>bt_commands = cs, bt_cancel_first = False, bt_timeout = False\<rparr>]"

definition example_turn :: "nat outside list \<Rightarrow> (nat, nat) turn_world" where
  "example_turn cs = \<lparr>tw_session = session_new Agent, tw_broker = ch_empty,
     tw_registry = \<lparr>rg_native = [(lit ''create_file'', create_tool)], rg_proxy = []\<rparr>, tw_ext = 0, tw_events = [],
     tw_script = at_gate cs, tw_requests = [], tw_applied = []\<rparr>"

lemmas example_turn_defs = example_turn_def at_gate_def example_turn_env_def create_tool_def example_call_def no_context_def session_new_def ch_empty_def

lemma example_turn_ok: "channels_ok (sr_approvals (tw_session (example_turn cs)))" "sc_status (control (example_turn cs)) = Idle"
  "(\<forall>c\<in>set cs. own_command c) \<Longrightarrow> alone (example_turn cs)"
  by (auto simp: example_turn_defs channels_ok_def alone_def commands_def)

lemmas turn_eval = run_turn_def run_turn_inner_def start_run_def act_bind_def raise_error_def stream_round_def authorization_header_def
  retry_unauthorized_def stream_turn_def call_ext_def pause_def next_batch_def check_cancel_def emit_def is_cancelled_def push_assistant_def
  push_message_def answer_calls_def handle_tool_call_def answer_errors_def execute_native_tool_def get_native_def gate_and_apply_def
  begin_awaiting_approval_def ch_open_def set_status_def restoring_streaming_def await_decision_def wait_for_def poll_decision_def
  ch_poll_def resolve_approval_def ch_send_def ch_clear_def ch_close_def apply_decision_def apply_approved_def approval_shown_def
  registry_descriptors_def allowed_tools_def outside_step.simps last_batch_def session_cancel_def cancel_token_def
  begin_turn_def replace_mode_def remember_embedded_file_snapshots_def update_snapshots_def apply_successful_mutation_def
  finalize_run_def complete_run_def clear_approval_def tool_answer_def

lemma example_turn_approved:
  "tw_applied (snd (run_turn example_turn_env Agent [] no_context (example_turn [ResolveApproval (lit ''c1'') True]))) = [(lit ''c1'', example_plan)]"
  "tw_script (snd (run_turn example_turn_env Agent [] no_context (example_turn [ResolveApproval (lit ''c1'') True]))) = []"
  by (simp_all add: example_turn_defs turn_eval Let_def numeral_eq_Suc del: lit_simps)

theorem turn_applies_only_approved_witness:
  "shown (allowed_tools Agent (registry_descriptors (tw_registry (example_turn [ResolveApproval (lit ''c1'') True]))))
     (tw_events (snd (run_turn example_turn_env Agent [] no_context (example_turn [ResolveApproval (lit ''c1'') True]))))
     (lit ''c1'', example_plan)"
proof -
  let ?w = "example_turn [ResolveApproval (lit ''c1'') True]"
  have none: "tw_events ?w = []" "tw_applied ?w = []" by (simp_all add: example_turn_def)
  show ?thesis
    using turn_applies_only_approved[OF example_turn_ok(1)[of "[ResolveApproval (lit ''c1'') True]"], of example_turn_env Agent "[]" no_context]
      example_turn_approved(1) none by (auto simp del: lit_simps)
qed

lemma example_turn_waits:
  "fst (run_turn example_turn_env Agent [] no_context (example_turn [])) = False"
  by (simp add: example_turn_defs turn_eval Let_def numeral_eq_Suc del: lit_simps)

theorem turn_ends_or_asks_witness: "asking 0 (snd (run_turn example_turn_env Agent [] no_context (example_turn [])))"
proof -
  have "sr_tokens (tw_session (example_turn [])) = 0" by (simp add: example_turn_defs)
  moreover obtain w' where "run_turn example_turn_env Agent [] no_context (example_turn []) = (False, w')"
    using example_turn_waits by (metis prod.collapse)
  ultimately show ?thesis
    using turn_ends_or_asks[OF example_turn_ok(2,1) example_turn_ok(3)[of "[]"], of example_turn_env Agent "[]" no_context] by simp
qed

text \<open>A turn that is cancelled at the gate leaves a call without an answer, which the next request to the model contains.\<close>

lemma cancelled_turn_leaves_call:
  "sr_messages (tw_session (snd (run_turn example_turn_env Agent [] no_context (example_turn [CancelSession])))) =
     [User [] (Some no_context), Assistant [] [example_call]]"
  "fst (run_turn example_turn_env Agent [] no_context (example_turn [CancelSession]))"
  by (simp_all add: example_turn_defs turn_eval Let_def numeral_eq_Suc content_with_turn_context_def selected_text_context_def
      active_editor_context_block_def trimmed_active_file_def trimmed_tabs_def content_with_mode_notice_def del: lit_simps)

theorem turn_answers_calls_witness:
  "\<exists>rounds. sr_messages (tw_session (snd (run_turn_inner example_turn_env Agent [] no_context (example_turn [CancelSession])))) =
      [User [] (Some no_context)] @ concat (map round_messages rounds) \<and> length rounds \<le> 1"
proof -
  have s: "sr_messages (tw_session (example_turn [CancelSession])) = []" "sr_mode (tw_session (example_turn [CancelSession])) = Agent"
    "cf_round_limit (te_config example_turn_env) = 1" "content_with_turn_context Agent Agent [] no_context = []"
    by (simp_all add: example_turn_defs content_with_turn_context_def selected_text_context_def
      active_editor_context_block_def trimmed_active_file_def trimmed_tabs_def content_with_mode_notice_def)
  have "\<forall>c\<in>set [CancelSession]. own_command c" by simp
  from turn_answers_calls[OF example_turn_ok(2) example_turn_ok(3)[OF this], of example_turn_env Agent "[]" no_context]
  show ?thesis unfolding s by auto
qed

end
