(* ===== verification/Knowledge_Markdown.thy ===== *)
theory Knowledge_Markdown
  imports Protected_Paths
begin

text \<open>
  The notes of the knowledge vault (\<open>knowledge/markdown.rs\<close>, the data of \<open>knowledge/models.rs\<close>): identifiers and slugs,
  paths relative to the vault, references to sources, and the markdown form of memory items and wiki pages, a YAML front
  matter and a body. YAML (\<open>serde_yaml\<close>), time stamps (\<open>chrono\<close>) and the Unicode normal form are parameters.
\<close>

record knowledge_model_error =
  km_field :: rstr
  km_message :: rstr

abbreviation km_err :: "rstr \<Rightarrow> rstr \<Rightarrow> knowledge_model_error + 'a" where
  "km_err field message \<equiv> Inl \<lparr>km_field = field, km_message = message\<rparr>"

section \<open>Identifiers\<close>

datatype knowledge_id_prefix = PrefixMemory | PrefixWiki | PrefixProposal | PrefixChange | PrefixDecision | PrefixDocument

definition prefix_as_str :: "knowledge_id_prefix \<Rightarrow> rstr" where
  "prefix_as_str p =
     (case p of PrefixMemory \<Rightarrow> lit ''mem'' | PrefixWiki \<Rightarrow> lit ''wiki'' | PrefixProposal \<Rightarrow> lit ''prop'' | PrefixChange \<Rightarrow> lit ''change''
      | PrefixDecision \<Rightarrow> lit ''decision'' | PrefixDocument \<Rightarrow> lit ''doc'')"

definition MAX_ID_BODY_LEN :: nat where "MAX_ID_BODY_LEN = 80"

definition MAX_SLUG_LEN :: nat where "MAX_SLUG_LEN = 80"

definition id_char :: "rchar \<Rightarrow> bool" where
  "id_char c \<longleftrightarrow> (97 \<le> c \<and> c \<le> 122) \<or> (48 \<le> c \<and> c \<le> 57)"

definition valid_id_body :: "rstr \<Rightarrow> bool" where
  "valid_id_body body =
     (case body of
        [] \<Rightarrow> False
      | first # chars \<Rightarrow>
          if \<not> id_char first then False
          else if length body > MAX_ID_BODY_LEN then False
          else list_all (\<lambda>ch. id_char ch \<or> ch = 95) chars)"

fun str_split_once :: "rchar \<Rightarrow> rstr \<Rightarrow> (rstr \<times> rstr) option" where
  "str_split_once c [] = None"
| "str_split_once c (x # s) = (if x = c then Some ([], s) else map_option (\<lambda>(a, b). (x # a, b)) (str_split_once c s))"

definition is_valid_knowledge_id :: "rstr \<Rightarrow> bool" where
  "is_valid_knowledge_id value =
     (case str_split_once 95 value of
        None \<Rightarrow> False
      | Some (pfx, body) \<Rightarrow>
          pfx \<in> set [lit ''mem'', lit ''wiki'', lit ''prop'', lit ''change'', lit ''decision'', lit ''doc''] \<and> valid_id_body body)"

text \<open>The loops of \<open>slugify_title\<close> and \<open>sanitize_id_body\<close> differ in the character that stands for the others.\<close>

fun squash_chars :: "rchar \<Rightarrow> rstr \<Rightarrow> bool \<Rightarrow> rstr \<Rightarrow> rstr" where
  "squash_chars sep out last_was_sep [] = out"
| "squash_chars sep out last_was_sep (ch # s) =
     (if is_ascii_alphanumeric ch then squash_chars sep (out @ [ascii_lower ch]) False s
      else if \<not> last_was_sep \<and> out \<noteq> [] then squash_chars sep (out @ [sep]) True s
      else squash_chars sep out last_was_sep s)"

definition pop_trailing :: "rchar \<Rightarrow> rstr \<Rightarrow> rstr" where
  "pop_trailing c s = rev (dropWhile (\<lambda>x. x = c) (rev s))"

definition slugify_title :: "rstr \<Rightarrow> rstr" where
  "slugify_title value =
     (let slug = pop_trailing 45 (squash_chars 45 [] False value)
      in take MAX_SLUG_LEN (if slug = [] then lit ''memory-proposal'' else slug))"

definition strip_known_prefix :: "rstr \<Rightarrow> rstr" where
  "strip_known_prefix value =
     (case find (\<lambda>p. str_starts_with value p) [lit ''mem_'', lit ''wiki_'', lit ''prop_'', lit ''change_'', lit ''decision_'', lit ''doc_''] of
        Some p \<Rightarrow> drop (length p) value
      | None \<Rightarrow> value)"

definition sanitize_id_body :: "rstr \<Rightarrow> rstr" where
  "sanitize_id_body seed =
     (let body = pop_trailing 95 (squash_chars 95 [] False (strip_known_prefix seed))
      in take MAX_ID_BODY_LEN (if body = [] then lit ''memory'' else body))"

definition make_knowledge_id :: "knowledge_id_prefix \<Rightarrow> rstr \<Rightarrow> rstr" where
  "make_knowledge_id pfx seed = prefix_as_str pfx @ [95] @ sanitize_id_body seed"

definition truncate_for_suffix :: "rstr \<Rightarrow> rstr \<Rightarrow> nat \<Rightarrow> rstr" where
  "truncate_for_suffix value sfx max_len = take (max_len - length sfx) value"

definition id_candidate :: "knowledge_id_prefix \<Rightarrow> rstr \<Rightarrow> nat \<Rightarrow> rstr" where
  "id_candidate pfx base index =
     (let sfx = (if index = 1 then [] else 95 # nat_digits index)
      in prefix_as_str pfx @ [95] @ truncate_for_suffix base sfx MAX_ID_BODY_LEN @ sfx)"

definition make_collision_free_knowledge_id :: "knowledge_id_prefix \<Rightarrow> rstr \<Rightarrow> (rstr \<Rightarrow> bool) \<Rightarrow> knowledge_model_error + rstr" where
  "make_collision_free_knowledge_id pfx seed exists =
     (case find (\<lambda>candidate. \<not> exists candidate) (map (id_candidate pfx (sanitize_id_body seed)) [1..<101]) of
        Some candidate \<Rightarrow> Inr candidate
      | None \<Rightarrow> km_err (lit ''id'') (lit ''No collision-free Knowledge id is available''))"

section \<open>Paths\<close>

text \<open>Unlike its namesake of \<open>protected_paths.rs\<close> this test asks for the backslash behind the colon.\<close>

definition has_drive_and_backslash :: "rstr \<Rightarrow> bool" where
  "has_drive_and_backslash s =
     (case as_bytes s of a # b # c # _ \<Rightarrow> is_ascii_alphabetic (unat a) \<and> b = 58 \<and> c = 92 | _ \<Rightarrow> False)"

definition decode_path_segment :: "rstr \<Rightarrow> rstr \<Rightarrow> knowledge_model_error + rstr" where
  "decode_path_segment value field =
     (case percent_decode_segment value of Inl e \<Rightarrow> km_err field (ppe_message e) | Inr decoded \<Rightarrow> Inr decoded)"

definition to_ascii_uppercase :: "rstr \<Rightarrow> rstr" where
  "to_ascii_uppercase s = map (\<lambda>c. if 97 \<le> c \<and> c \<le> 122 then c - 32 else c) s"

definition is_reserved_filename :: "rstr \<Rightarrow> bool" where
  "is_reserved_filename value \<longleftrightarrow>
     to_ascii_uppercase value \<in> set [lit ''.'', lit ''..'', lit ''.DS_STORE'', lit ''CON'', lit ''PRN'', lit ''AUX'', lit ''NUL'', lit ''COM1'', lit ''LPT1'']"

definition has_control :: "rstr \<Rightarrow> bool" where
  "has_control s \<longleftrightarrow> list_ex (\<lambda>ch. ch = 0 \<or> is_control ch) s"

fun safe_segments :: "(rstr \<Rightarrow> rstr) \<Rightarrow> rstr \<Rightarrow> rstr list \<Rightarrow> knowledge_model_error + rstr list" where
  "safe_segments nfc field [] = Inr []"
| "safe_segments nfc field (raw_segment # raws) =
     (if raw_segment = [] then km_err field (lit ''Path contains an empty segment'')
      else
        res_bind (decode_path_segment raw_segment field) (\<lambda>decoded.
        (let segment = nfc decoded
         in if segment = lit ''.'' \<or> segment = lit ''..'' then km_err field (lit ''Path contains a dot segment'')
            else if is_reserved_filename segment then km_err field (lit ''Reserved filename is not allowed: '' @ segment)
            else if has_control segment then km_err field (lit ''Path contains NUL or control characters'')
            else res_bind (safe_segments nfc field raws) (\<lambda>segments. Inr (segment # segments)))))"

definition validate_safe_vault_relative_path :: "(rstr \<Rightarrow> rstr) \<Rightarrow> rstr \<Rightarrow> rstr \<Rightarrow> knowledge_model_error + rstr" where
  "validate_safe_vault_relative_path nfc value field =
     (let trimmed = str_trim value
      in if trimmed = [] then km_err field (lit ''Path is empty'')
         else if str_starts_with trimmed [47] \<or> str_starts_with trimmed [92] \<or> has_drive_and_backslash trimmed
         then km_err field (lit ''Absolute paths are not allowed'')
         else if has_control trimmed then km_err field (lit ''Path contains NUL or control characters'')
         else res_bind (safe_segments nfc field (str_split (\<lambda>c. c = 47 \<or> c = 92) trimmed)) (\<lambda>segments. Inr (str_join [47] segments)))"

definition MAX_WIKI_PATH_CHARS :: nat where "MAX_WIKI_PATH_CHARS = 1024"

definition validate_wiki_page_path :: "(rstr \<Rightarrow> rstr) \<Rightarrow> rstr \<Rightarrow> rstr \<Rightarrow> knowledge_model_error + rstr" where
  "validate_wiki_page_path nfc value field =
     res_bind (validate_safe_vault_relative_path nfc value field) (\<lambda>path.
     if length path > MAX_WIKI_PATH_CHARS then km_err field (lit ''Path is too long'')
     else if \<not> str_starts_with path (lit ''Knowledge/wiki/'') then km_err field (lit ''Wiki page path must be under Knowledge/wiki/'')
     else if \<not> str_ends_with path (lit ''.md'') then km_err field (lit ''Wiki page path must end with .md'')
     else Inr path)"

section \<open>References to sources\<close>

record source_range =
  rg_start_line :: nat
  rg_end_line :: nat

record source_ref =
  sc_path :: rstr
  sc_title :: "rstr option"
  sc_section_path :: "rstr list option"
  sc_range :: "source_range option"
  sc_checksum :: "rstr option"
  sc_captured_at :: rstr

record source_ref_input =
  si_path :: rstr
  si_title :: "rstr option"
  si_section_path :: "rstr list option"
  si_range :: "source_range option"
  si_checksum :: "rstr option"
  si_captured_at :: "rstr option"

definition MAX_SOURCE_PATH_CHARS :: nat where "MAX_SOURCE_PATH_CHARS = 1024"

definition MAX_TITLE_CHARS :: nat where "MAX_TITLE_CHARS = 160"

definition MAX_SECTION_PATH_ENTRIES :: nat where "MAX_SECTION_PATH_ENTRIES = 16"

definition MAX_SECTION_PATH_ENTRY_CHARS :: nat where "MAX_SECTION_PATH_ENTRY_CHARS = 120"

definition validate_non_empty_limited :: "rstr \<Rightarrow> rstr \<Rightarrow> nat \<Rightarrow> knowledge_model_error + unit" where
  "validate_non_empty_limited value field max_chars =
     (if str_trim value = [] then km_err field (lit ''Value is empty'')
      else if length value > max_chars then km_err field (lit ''Value is too long'')
      else Inr ())"

definition optional_trimmed_limited :: "rstr option \<Rightarrow> rstr \<Rightarrow> nat \<Rightarrow> knowledge_model_error + rstr option" where
  "optional_trimmed_limited value field max_chars =
     (case value of
        None \<Rightarrow> Inr None
      | Some v \<Rightarrow>
          let trimmed = str_trim v
          in if trimmed = [] then Inr None
             else res_bind (validate_non_empty_limited trimmed field max_chars) (\<lambda>_. Inr (Some trimmed)))"

definition normalize_section_path :: "rstr list option \<Rightarrow> knowledge_model_error + rstr list option" where
  "normalize_section_path value =
     (case value of
        None \<Rightarrow> Inr None
      | Some entries \<Rightarrow>
          if length entries > MAX_SECTION_PATH_ENTRIES then km_err (lit ''source_refs.section_path'') (lit ''Too many section path entries'')
          else res_bind (res_map (\<lambda>entry.
                 res_bind (validate_non_empty_limited (str_trim entry) (lit ''source_refs.section_path'') MAX_SECTION_PATH_ENTRY_CHARS)
                   (\<lambda>_. Inr (str_trim entry))) entries) (\<lambda>normalized. Inr (Some normalized)))"

definition validate_range :: "source_range option \<Rightarrow> knowledge_model_error + unit" where
  "validate_range value =
     (case value of
        None \<Rightarrow> Inr ()
      | Some r \<Rightarrow>
          if rg_start_line r = 0 \<or> rg_end_line r = 0 \<or> rg_start_line r > rg_end_line r
          then km_err (lit ''source_refs.range'') (lit ''Invalid source range'') else Inr ())"

definition is_ascii_hexdigit :: "u8 \<Rightarrow> bool" where
  "is_ascii_hexdigit b \<longleftrightarrow> hex_value b \<noteq> None"

definition validate_sha256_checksum :: "rstr \<Rightarrow> rstr \<Rightarrow> knowledge_model_error + unit" where
  "validate_sha256_checksum value field =
     (if \<not> str_starts_with value (lit ''sha256:'') then km_err field (lit ''Invalid checksum prefix'')
      else
        let hex = as_bytes (drop 7 value)
        in if length hex \<noteq> 64 \<or> \<not> list_all is_ascii_hexdigit hex then km_err field (lit ''Invalid checksum'')
           else if list_ex (\<lambda>b. 65 \<le> b \<and> b \<le> 90) hex then km_err field (lit ''Checksum hex must be lowercase'')
           else Inr ())"

text \<open>\<open>rfc3339\<close> tells whether \<open>chrono\<close> accepts the text as a time stamp.\<close>

definition validate_timestamp :: "(rstr \<Rightarrow> bool) \<Rightarrow> rstr \<Rightarrow> rstr \<Rightarrow> knowledge_model_error + unit" where
  "validate_timestamp rfc3339 value field =
     (if \<not> rfc3339 value then km_err field (lit ''Invalid timestamp'')
      else if \<not> str_ends_with value (lit ''Z'') \<or> str_contains value (lit ''.'') then km_err field (lit ''Timestamp must be UTC seconds precision'')
      else Inr ())"

record knowledge_env =
  kn_nfc :: "rstr \<Rightarrow> rstr"
  kn_rfc3339 :: "rstr \<Rightarrow> bool"

definition optional_check :: "('a \<Rightarrow> 'e + unit) \<Rightarrow> 'a option \<Rightarrow> 'e + unit" where
  "optional_check f v = (case v of None \<Rightarrow> Inr () | Some x \<Rightarrow> f x)"

fun check_all :: "('a \<Rightarrow> 'e + unit) \<Rightarrow> 'a list \<Rightarrow> 'e + unit" where
  "check_all f [] = Inr ()"
| "check_all f (x # xs) = res_bind (f x) (\<lambda>_. check_all f xs)"

definition normalize_source_ref :: "knowledge_env \<Rightarrow> source_ref_input \<Rightarrow> rstr \<Rightarrow> knowledge_model_error + source_ref" where
  "normalize_source_ref env input captured_at =
     res_bind (validate_safe_vault_relative_path (kn_nfc env) (si_path input) (lit ''source_refs.path'')) (\<lambda>path.
     if length path > MAX_SOURCE_PATH_CHARS then km_err (lit ''source_refs.path'') (lit ''Path is too long'')
     else
       res_bind (optional_trimmed_limited (si_title input) (lit ''source_refs.title'') MAX_TITLE_CHARS) (\<lambda>title.
       res_bind (normalize_section_path (si_section_path input)) (\<lambda>section_path.
       res_bind (validate_range (si_range input)) (\<lambda>_.
       res_bind (optional_check (\<lambda>c. validate_sha256_checksum c (lit ''source_refs.checksum'')) (si_checksum input)) (\<lambda>_.
       Inr \<lparr>sc_path = path, sc_title = title, sc_section_path = section_path, sc_range = si_range input, sc_checksum = si_checksum input,
            sc_captured_at = captured_at\<rparr>)))))"

definition validate_source_ref :: "knowledge_env \<Rightarrow> source_ref \<Rightarrow> knowledge_model_error + unit" where
  "validate_source_ref env r =
     res_bind (validate_safe_vault_relative_path (kn_nfc env) (sc_path r) (lit ''source_refs.path'')) (\<lambda>path.
     if length path > MAX_SOURCE_PATH_CHARS then km_err (lit ''source_refs.path'') (lit ''Path is too long'')
     else
       res_bind (optional_check (\<lambda>t. validate_non_empty_limited t (lit ''source_refs.title'') MAX_TITLE_CHARS) (sc_title r)) (\<lambda>_.
       res_bind (optional_check (\<lambda>section_path.
         if length section_path > MAX_SECTION_PATH_ENTRIES
         then km_err (lit ''source_refs.section_path'') (lit ''Too many section path entries'')
         else check_all (\<lambda>entry. validate_non_empty_limited entry (lit ''source_refs.section_path'') MAX_SECTION_PATH_ENTRY_CHARS) section_path)
         (sc_section_path r)) (\<lambda>_.
       res_bind (validate_range (sc_range r)) (\<lambda>_.
       res_bind (optional_check (\<lambda>c. validate_sha256_checksum c (lit ''source_refs.checksum'')) (sc_checksum r)) (\<lambda>_.
       validate_timestamp (kn_rfc3339 env) (sc_captured_at r) (lit ''source_refs.captured_at''))))))"

definition validate_source_refs :: "knowledge_env \<Rightarrow> source_ref list \<Rightarrow> knowledge_model_error + unit" where
  "validate_source_refs env refs = check_all (validate_source_ref env) refs"

section \<open>Notes\<close>

datatype memory_status = MemoryActive | MemoryArchived | MemorySuperseded

record memory_frontmatter =
  mf_id :: rstr
  mf_kind :: "rstr option"
  mf_title :: rstr
  mf_status :: memory_status
  mf_tags :: "rstr list"
  mf_source_refs :: "source_ref list"
  mf_created_at :: rstr
  mf_updated_at :: rstr
  mf_proposal_id :: rstr
  mf_decision_document :: rstr

record memory_item = memory_frontmatter +
  mi_body :: rstr

datatype wiki_page_type = WikiSource | WikiConcept | WikiEntity | WikiSynthesis

datatype wiki_page_status = WikiActive | WikiArchived | WikiSuperseded

record wiki_frontmatter =
  wf_id :: rstr
  wf_page_type :: wiki_page_type
  wf_title :: rstr
  wf_status :: wiki_page_status
  wf_tags :: "rstr list"
  wf_source_refs :: "source_ref list"
  wf_created_at :: rstr
  wf_updated_at :: rstr
  wf_proposal_id :: rstr
  wf_decision_document :: rstr

record wiki_page = wiki_frontmatter +
  wp_body :: rstr

text \<open>The YAML of front matter: a printer and a parser, both of which may fail with a message.\<close>

record 'a yaml =
  ym_print :: "'a \<Rightarrow> rstr + rstr"
  ym_parse :: "rstr \<Rightarrow> rstr + 'a"

definition validate_prefixed_id :: "rstr \<Rightarrow> knowledge_id_prefix \<Rightarrow> rstr \<Rightarrow> knowledge_model_error + unit" where
  "validate_prefixed_id value pfx field =
     (let expected = prefix_as_str pfx @ [95]
      in if \<not> str_starts_with value expected \<or> \<not> valid_id_body (drop (length expected) value)
         then km_err field (lit ''Invalid Knowledge id'') else Inr ())"

text \<open>The checks that notes of both kinds share, from the tags on.\<close>

definition validate_note :: "knowledge_env \<Rightarrow> rstr list \<Rightarrow> source_ref list \<Rightarrow> rstr \<Rightarrow> rstr \<Rightarrow> rstr \<Rightarrow> rstr \<Rightarrow> rstr \<Rightarrow> knowledge_model_error + unit" where
  "validate_note env tags refs created updated proposal document body =
     res_bind (check_all (\<lambda>tag. validate_non_empty_limited tag (lit ''tags'') 40) tags) (\<lambda>_.
     res_bind (validate_source_refs env refs) (\<lambda>_.
     res_bind (validate_timestamp (kn_rfc3339 env) created (lit ''created_at'')) (\<lambda>_.
     res_bind (validate_timestamp (kn_rfc3339 env) updated (lit ''updated_at'')) (\<lambda>_.
     res_bind (validate_prefixed_id proposal PrefixProposal (lit ''proposal_id'')) (\<lambda>_.
     res_bind (validate_safe_vault_relative_path (kn_nfc env) document (lit ''decision_document'')) (\<lambda>decision_document.
     if \<not> str_starts_with decision_document (lit ''Knowledge/decisions/'')
     then km_err (lit ''decision_document'') (lit ''Decision document must be under Knowledge/decisions/'')
     else if str_trim body = [] then km_err (lit ''body'') (lit ''Body is empty'')
     else Inr ()))))))"

definition validate_memory_item :: "knowledge_env \<Rightarrow> memory_item \<Rightarrow> knowledge_model_error + unit" where
  "validate_memory_item env item =
     res_bind (validate_prefixed_id (mf_id item) PrefixMemory (lit ''id'')) (\<lambda>_.
     res_bind (optional_check (\<lambda>kind. validate_non_empty_limited kind (lit ''kind'') 40) (mf_kind item)) (\<lambda>_.
     res_bind (validate_non_empty_limited (mf_title item) (lit ''title'') MAX_TITLE_CHARS) (\<lambda>_.
     validate_note env (mf_tags item) (mf_source_refs item) (mf_created_at item) (mf_updated_at item) (mf_proposal_id item)
       (mf_decision_document item) (mi_body item))))"

definition validate_wiki_page :: "knowledge_env \<Rightarrow> wiki_page \<Rightarrow> knowledge_model_error + unit" where
  "validate_wiki_page env page =
     res_bind (validate_prefixed_id (wf_id page) PrefixWiki (lit ''id'')) (\<lambda>_.
     res_bind (validate_non_empty_limited (wf_title page) (lit ''title'') MAX_TITLE_CHARS) (\<lambda>_.
     validate_note env (wf_tags page) (wf_source_refs page) (wf_created_at page) (wf_updated_at page) (wf_proposal_id page)
       (wf_decision_document page) (wp_body page)))"

fun replace_crlf :: "rstr \<Rightarrow> rstr" where
  "replace_crlf [] = []"
| "replace_crlf (c # s) = (if str_starts_with (c # s) [13, 10] then 10 # replace_crlf (tl s) else c # replace_crlf s)"

definition normalize_markdown_body :: "rstr \<Rightarrow> rstr" where
  "normalize_markdown_body value = pop_trailing 10 (str_replace_char 13 10 (replace_crlf value)) @ [10]"

definition document_marker :: rstr where
  "document_marker = lit ''---'' @ [10]"

text \<open>YAML text between two markers.\<close>

definition yaml_block :: "rstr \<Rightarrow> rstr" where
  "yaml_block yaml =
     (let y = (if str_starts_with yaml document_marker then drop (length document_marker) yaml else yaml)
      in if str_ends_with y [10] then y else y @ [10])"

definition front_matter :: "rstr \<Rightarrow> rstr" where
  "front_matter yaml = document_marker @ yaml_block yaml @ document_marker"

text \<open>\<open>find\<close>, with the texts before and behind the match.\<close>

fun split_at_str :: "rstr \<Rightarrow> rstr \<Rightarrow> (rstr \<times> rstr) option" where
  "split_at_str p [] = (if p = [] then Some ([], []) else None)"
| "split_at_str p (c # s) =
     (if str_starts_with (c # s) p then Some ([], drop (length p) (c # s))
      else map_option (\<lambda>(a, b). (c # a, b)) (split_at_str p s))"

definition split_note_frontmatter :: "rstr \<Rightarrow> knowledge_model_error + rstr \<times> rstr" where
  "split_note_frontmatter markdown =
     (if \<not> str_starts_with markdown document_marker then km_err (lit ''frontmatter'') (lit ''Missing frontmatter'')
      else
        case split_at_str (10 # document_marker) (drop (length document_marker) markdown) of
          None \<Rightarrow> km_err (lit ''frontmatter'') (lit ''Missing closing frontmatter marker'')
        | Some parts \<Rightarrow> Inr parts)"

definition yaml_result :: "rstr + 'a \<Rightarrow> knowledge_model_error + 'a" where
  "yaml_result r = (case r of Inl e \<Rightarrow> km_err (lit ''frontmatter'') e | Inr v \<Rightarrow> Inr v)"

definition serialize_memory_item :: "knowledge_env \<Rightarrow> memory_frontmatter yaml \<Rightarrow> memory_item \<Rightarrow> knowledge_model_error + rstr" where
  "serialize_memory_item env yaml item =
     res_bind (validate_memory_item env item) (\<lambda>_.
     res_bind (yaml_result (ym_print yaml (memory_frontmatter.truncate item))) (\<lambda>text.
     Inr (front_matter text @ normalize_markdown_body (mi_body item))))"

definition into_memory_item :: "memory_frontmatter \<Rightarrow> rstr \<Rightarrow> memory_item" where
  "into_memory_item fm body = memory_frontmatter.extend fm (memory_item.fields body)"

definition parse_memory_item :: "knowledge_env \<Rightarrow> memory_frontmatter yaml \<Rightarrow> rstr \<Rightarrow> knowledge_model_error + memory_item" where
  "parse_memory_item env yaml markdown =
     res_bind (split_note_frontmatter markdown) (\<lambda>(frontmatter, body).
     res_bind (yaml_result (ym_parse yaml frontmatter)) (\<lambda>parsed.
     let item = into_memory_item parsed body
     in res_bind (validate_memory_item env item) (\<lambda>_. Inr item)))"

definition serialize_wiki_page :: "knowledge_env \<Rightarrow> wiki_frontmatter yaml \<Rightarrow> wiki_page \<Rightarrow> knowledge_model_error + rstr" where
  "serialize_wiki_page env yaml page =
     res_bind (validate_wiki_page env page) (\<lambda>_.
     res_bind (yaml_result (ym_print yaml (wiki_frontmatter.truncate page))) (\<lambda>text.
     Inr (front_matter text @ normalize_markdown_body (wp_body page))))"

definition into_wiki_page :: "wiki_frontmatter \<Rightarrow> rstr \<Rightarrow> wiki_page" where
  "into_wiki_page fm body = wiki_frontmatter.extend fm (wiki_page.fields body)"

definition parse_wiki_page :: "knowledge_env \<Rightarrow> wiki_frontmatter yaml \<Rightarrow> rstr \<Rightarrow> knowledge_model_error + wiki_page" where
  "parse_wiki_page env yaml markdown =
     res_bind (split_note_frontmatter markdown) (\<lambda>(frontmatter, body).
     res_bind (yaml_result (ym_parse yaml frontmatter)) (\<lambda>parsed.
     let page = into_wiki_page parsed body
     in res_bind (validate_wiki_page env page) (\<lambda>_. Inr page)))"

section \<open>Identifiers are valid and new\<close>

definition id_text :: "rchar \<Rightarrow> rstr \<Rightarrow> bool" where
  "id_text sep s \<longleftrightarrow> s \<noteq> [] \<and> id_char (hd s) \<and> (\<forall>c\<in>set s. id_char c \<or> c = sep)"

lemma ascii_lower_id_char: "is_ascii_alphanumeric c \<Longrightarrow> id_char (ascii_lower c)"
  by (auto simp: is_ascii_alphanumeric_def is_ascii_alphabetic_def ascii_lower_def id_char_def)

lemma squash_chars_text: "out = [] \<or> id_text sep out \<Longrightarrow> squash_chars sep out b s = [] \<or> id_text sep (squash_chars sep out b s)"
proof (induction sep out b s rule: squash_chars.induct)
  case (2 sep out b ch s)
  have "id_text sep (out @ [ascii_lower ch])" if "is_ascii_alphanumeric ch"
    using 2(4) ascii_lower_id_char[OF that] by (auto simp: id_text_def hd_append)
  moreover have "id_text sep (out @ [sep])" if "out \<noteq> []"
    using 2(4) that by (auto simp: id_text_def)
  ultimately show ?case using 2 by simp
qed simp

lemma pop_trailing_text:
  assumes "s = [] \<or> id_text sep s"
  shows "pop_trailing sep s = [] \<or> id_text sep (pop_trailing sep s)"
proof -
  have "\<exists>t. s = pop_trailing sep s @ t"
    unfolding pop_trailing_def by (metis rev_append rev_rev_ident takeWhile_dropWhile_id)
  then obtain t where t: "s = pop_trailing sep s @ t" ..
  show ?thesis
  proof (cases "pop_trailing sep s = []")
    case False
    then have "s \<noteq> []" using t by auto
    then have "id_text sep s" using assms by simp
    moreover have "hd s = hd (pop_trailing sep s)" "set (pop_trailing sep s) \<subseteq> set s"
      using False t by (metis hd_append2, metis Un_upper1 set_append)
    ultimately show ?thesis using False by (auto simp: id_text_def)
  qed simp
qed

lemma id_text_take: "id_text sep s \<Longrightarrow> 0 < n \<Longrightarrow> id_text sep (take n s)"
  by (cases s; cases n) (auto simp: id_text_def dest: in_set_takeD)

lemma sanitize_id_body_text: "id_text 95 (sanitize_id_body seed) \<and> length (sanitize_id_body seed) \<le> MAX_ID_BODY_LEN"
proof -
  let ?b = "pop_trailing 95 (squash_chars 95 [] False (strip_known_prefix seed))"
  have "?b = [] \<or> id_text 95 ?b" by (intro pop_trailing_text squash_chars_text) simp
  moreover have "id_text 95 (lit ''memory'')" by (simp add: id_text_def id_char_def)
  ultimately have "id_text 95 (if ?b = [] then lit ''memory'' else ?b)" by auto
  then show ?thesis unfolding sanitize_id_body_def Let_def by (intro conjI id_text_take) (simp_all add: MAX_ID_BODY_LEN_def)
qed

lemma id_text_valid: "id_text 95 s \<Longrightarrow> length s \<le> MAX_ID_BODY_LEN \<Longrightarrow> valid_id_body s"
  by (cases s) (auto simp: id_text_def valid_id_body_def list_all_iff)

lemma prefix_valid: "is_valid_knowledge_id (prefix_as_str p @ 95 # body) \<longleftrightarrow> valid_id_body body"
  by (cases p) (simp_all add: prefix_as_str_def is_valid_knowledge_id_def)

lemma id_candidate_valid:
  assumes "id_text 95 base" "length base \<le> MAX_ID_BODY_LEN" "0 < index" "index \<le> 100"
  shows "is_valid_knowledge_id (id_candidate pfx base index)"
proof (cases "index = 1")
  case True
  then show ?thesis using assms id_text_valid[of "take 80 base"] id_text_take[OF assms(1), of 80]
    by (simp add: id_candidate_def truncate_for_suffix_def prefix_valid MAX_ID_BODY_LEN_def)
next
  case False
  have len: "length (nat_digits index) \<le> 3" and ds: "\<forall>c\<in>set (nat_digits index). id_char c"
  proof -
    show "length (nat_digits index) \<le> 3"
      using assms(4) by (simp add: nat_digits.simps[of index] nat_digits.simps[of "index div 10"] nat_digits.simps[of "index div 10 div 10"])
    show "\<forall>c\<in>set (nat_digits index). id_char c" using nat_digits_range by (auto simp: id_char_def)
  qed
  let ?b = "take (80 - Suc (length (nat_digits index))) base"
  have b: "id_text 95 ?b" using len by (intro id_text_take assms(1)) simp
  then have "id_text 95 (?b @ 95 # nat_digits index)" using ds by (auto simp: id_text_def)
  moreover have "length (?b @ 95 # nat_digits index) \<le> 80" using len by simp
  ultimately have "valid_id_body (?b @ 95 # nat_digits index)" using id_text_valid by (simp add: MAX_ID_BODY_LEN_def)
  then show ?thesis using False
    by (simp add: id_candidate_def truncate_for_suffix_def prefix_valid MAX_ID_BODY_LEN_def Let_def)
qed

text \<open>
  C26. An identifier that is made is valid, also when its text had to be cut, and no existing one; there is no identifier only when
  all of the hundred candidates exist.
\<close>

theorem knowledge_ids_valid:
  "case make_collision_free_knowledge_id pfx seed exists of
     Inr candidate \<Rightarrow> is_valid_knowledge_id candidate \<and> \<not> exists candidate \<and> str_starts_with candidate (prefix_as_str pfx @ [95])
   | Inl e \<Rightarrow> list_all (\<lambda>index. exists (id_candidate pfx (sanitize_id_body seed) index)) [1..<101]"
proof (cases "find (\<lambda>candidate. \<not> exists candidate) (map (id_candidate pfx (sanitize_id_body seed)) [1..<101])")
  case None
  then have "list_all (\<lambda>index. exists (id_candidate pfx (sanitize_id_body seed) index)) [1..<101]"
    by (simp add: find_None_iff list_all_iff)
  then show ?thesis by (simp only: make_collision_free_knowledge_id_def None option.case sum.case)
next
  case (Some candidate)
  then obtain index where "1 \<le> index" "index \<le> 100" "candidate = id_candidate pfx (sanitize_id_body seed) index" "\<not> exists candidate"
    by (auto dest!: find_SomeD)
  then show ?thesis using Some id_candidate_valid[of "sanitize_id_body seed" index pfx] sanitize_id_body_text[of seed]
    by (auto simp: make_collision_free_knowledge_id_def str_starts_with_iff id_candidate_def Let_def)
qed


section \<open>Safe paths\<close>

text \<open>What is used of the normal form: it keeps a name a name and brings in no separator.\<close>

definition nfc_names_ok :: "(rstr \<Rightarrow> rstr) \<Rightarrow> bool" where
  "nfc_names_ok nfc \<longleftrightarrow> (\<forall>s. (nfc s = [] \<longrightarrow> s = []) \<and> (47 \<in> set (nfc s) \<longrightarrow> 47 \<in> set s))"

lemma slash_byte: "valid_char c \<Longrightarrow> (47 :: u8) \<in> set (map of_nat (utf8_char c)) \<longleftrightarrow> c = 47"
proof -
  assume v: "valid_char c"
  have b: "(of_nat b :: u8) = 47 \<longleftrightarrow> b = 47" if "b < 256" for b
  proof
    assume "(of_nat b :: u8) = 47"
    then have "unat (of_nat b :: u8) = 47" by simp
    then show "b = 47" using that by (simp add: unat_of_nat)
  qed simp
  have "(47 :: u8) \<in> set (map of_nat (utf8_char c)) \<longleftrightarrow> 47 \<in> set (utf8_char c)"
    using b utf8_char_byte[OF v] by force
  then show ?thesis by (auto simp: utf8_char_def split: if_splits)
qed

lemma slash_bytes: "\<forall>c\<in>set s. valid_char c \<Longrightarrow> 47 \<in> set (as_bytes s) \<longleftrightarrow> 47 \<in> set s"
  unfolding as_bytes_def by (induction s) (auto simp: slash_byte[symmetric])

lemma percent_decode_bytes_slash:
  "percent_decode_bytes bs = Inr out \<Longrightarrow> 47 \<notin> set bs \<Longrightarrow> 47 \<notin> set out \<and> (out = [] \<longrightarrow> bs = [])"
proof (induction bs arbitrary: out rule: length_induct)
  case (1 bs)
  show ?case
  proof (cases bs)
    case (Cons b cs)
    show ?thesis
    proof (cases "b = 37")
      case False
      then obtain out' where "percent_decode_bytes cs = Inr out'" "out = b # out'"
        using 1(2) Cons by (auto simp: res_bind_eq_Inr)
      then show ?thesis using 1(1)[rule_format, of cs out'] 1(3) Cons by auto
    next
      case True
      then obtain h l rest high low out' where "cs = h # l # rest" "percent_decode_bytes rest = Inr out'"
          "out = or (push_bit 4 high) low # out'" "or (push_bit 4 high) low \<noteq> 47"
        using 1(2) Cons by (auto simp: res_bind_eq_Inr Let_def split: list.splits if_splits)
      then show ?thesis using 1(1)[rule_format, of rest out'] 1(3) Cons by auto
    qed
  qed (use 1 in auto)
qed

lemma decode_path_segment_name:
  assumes "decode_path_segment raw field = Inr w" "47 \<notin> set raw" "raw \<noteq> []" "\<forall>c\<in>set raw. valid_char c"
  shows "47 \<notin> set w \<and> w \<noteq> []"
proof -
  obtain bs where o: "percent_decode_bytes (as_bytes raw) = Inr bs" "from_utf8 bs = Some w"
    using assms(1) by (auto simp: decode_path_segment_def percent_decode_segment_def res_bind_eq_Inr split: sum.splits if_splits)
  have "47 \<notin> set (as_bytes raw)" "as_bytes raw \<noteq> []"
    using slash_bytes[OF assms(4)] assms(2,3) by (auto simp: as_bytes_def neq_Nil_conv)
  from percent_decode_bytes_slash[OF o(1) this(1)] this(2) as_bytes_from_utf8[OF o(2)] slash_bytes[of w]
  show ?thesis by (auto simp: as_bytes_def)
qed

definition safe_name :: "rstr \<Rightarrow> bool" where
  "safe_name w \<longleftrightarrow> good_segment w \<and> \<not> is_reserved_filename w \<and> \<not> has_control w"

lemma safe_segments_names:
  assumes "nfc_names_ok nfc"
  shows "safe_segments nfc field raws = Inr ws \<Longrightarrow> \<forall>raw\<in>set raws. 47 \<notin> set raw \<and> (\<forall>c\<in>set raw. valid_char c) \<Longrightarrow>
    length ws = length raws \<and> (\<forall>w\<in>set ws. safe_name w)"
proof (induction raws arbitrary: ws)
  case (Cons raw raws)
  then obtain decoded rest where d: "raw \<noteq> []" "decode_path_segment raw field = Inr decoded" "safe_segments nfc field raws = Inr rest"
      "ws = nfc decoded # rest" "nfc decoded \<noteq> [46]" "nfc decoded \<noteq> [46, 46]" "\<not> is_reserved_filename (nfc decoded)" "\<not> has_control (nfc decoded)"
    by (auto simp: res_bind_eq_Inr Let_def split: if_splits)
  have "47 \<notin> set decoded \<and> decoded \<noteq> []" using decode_path_segment_name[OF d(2)] d(1) Cons.prems(2) by simp
  then have "safe_name (nfc decoded)"
    using assms d unfolding safe_name_def good_segment_def nfc_names_ok_def by auto
  then show ?case using Cons.IH[OF d(3)] Cons.prems(2) d(4) by simp
qed simp

text \<open>
  C24. A path that is accepted names a place below the vault: it consists of at least one proper name, no name is reserved or has
  control characters, and none is a dot segment, also not one that was percent encoded.
\<close>

theorem safe_path_names:
  assumes "nfc_names_ok nfc" "\<forall>c\<in>set value. valid_char c" "validate_safe_vault_relative_path nfc value field = Inr p"
  shows "\<exists>ws. ws \<noteq> [] \<and> path_components p = map Normal ws \<and> path_join root p = root @ map Normal ws \<and>
    list_all safe_name ws"
proof -
  let ?raws = "str_split (\<lambda>c. c = 47 \<or> c = 92) (str_trim value)"
  obtain ws where ws: "safe_segments nfc field ?raws = Inr ws" "p = str_join [47] ws"
    using assms(3) by (auto simp: validate_safe_vault_relative_path_def Let_def res_bind_eq_Inr split: if_splits)
  have raws: "\<forall>raw\<in>set ?raws. 47 \<notin> set raw \<and> (\<forall>c\<in>set raw. valid_char c)"
    using str_split_no_sep[of _ "\<lambda>c. c = 47 \<or> c = 92" "str_trim value" 47] str_split_chars[of _ "\<lambda>c. c = 47 \<or> c = 92" "str_trim value"]
      str_trim_set[of "value"] assms(2) by blast
  have names: "ws \<noteq> []" "\<forall>w\<in>set ws. safe_name w"
    using safe_segments_names[OF assms(1) ws(1) raws] by auto
  then have comps: "path_components p = map Normal ws"
    unfolding ws(2) by (intro path_components_join) (auto simp: safe_name_def)
  then show ?thesis using names by (intro exI[of _ ws]) (auto simp: path_join_def Let_def list_all_iff hd_map)
qed

lemma safe_path_accepted:
  "validate_safe_vault_relative_path (\<lambda>s. s) (lit '' Notes/my%20plan.md'') (lit ''path'') = Inr (lit ''Notes/my plan.md'')"
  by (simp add: validate_safe_vault_relative_path_def has_drive_and_backslash_def has_control_def is_control_def decode_path_segment_def
      percent_decode_segment_def as_bytes_def utf8_char_def from_utf8_def hex_value_def is_reserved_filename_def to_ascii_uppercase_def std_simps Let_def)

theorem safe_path_names_witness:
  "\<exists>ws. ws \<noteq> [] \<and> path_components (lit ''Notes/my plan.md'') = map Normal ws \<and>
    path_join [RootDir, Normal (lit ''v'')] (lit ''Notes/my plan.md'') = [RootDir, Normal (lit ''v'')] @ map Normal ws \<and> list_all safe_name ws"
  by (rule safe_path_names[OF _ _ safe_path_accepted]) (simp_all add: nfc_names_ok_def valid_char_def)

text \<open>A path with a drive is refused only when a backslash follows the colon.\<close>

lemma drive_accepted: "validate_safe_vault_relative_path (\<lambda>s. s) (lit ''C:/x'') field = Inr (lit ''C:/x'')"
proof -
  have "\<not> has_drive_and_backslash (lit ''C:/x'')" "\<not> has_control (lit ''C:/x'')"
    by (simp_all add: has_drive_and_backslash_def has_control_def is_control_def as_bytes_def utf8_char_def)
  moreover have "decode_path_segment (lit ''C:'') field = Inr (lit ''C:'')" "decode_path_segment (lit ''x'') field = Inr (lit ''x'')"
    by (simp_all add: decode_path_segment_def percent_decode_segment_def as_bytes_def utf8_char_def from_utf8_def hex_value_def std_simps)
  moreover have "\<not> is_reserved_filename (lit ''C:'')" "\<not> is_reserved_filename (lit ''x'')"
    by (simp_all add: is_reserved_filename_def to_ascii_uppercase_def)
  moreover have "str_split (\<lambda>c. c = 47 \<or> c = 92) (str_trim (lit ''C:/x'')) = [lit ''C:'', lit ''x'']" by (simp add: std_simps)
  ultimately show ?thesis
    unfolding validate_safe_vault_relative_path_def Let_def
    by (simp add: std_simps has_control_def is_control_def)
qed

text \<open>A percent sign in the name of a source survives the first check as a plain character, which the second check, made when the note is
  written, takes for a broken escape.\<close>

lemma percent_kept: "validate_safe_vault_relative_path (\<lambda>s. s) (lit ''50%25.md'') field = Inr (lit ''50%.md'')"
proof -
  have "\<not> has_drive_and_backslash (lit ''50%25.md'')" "\<not> has_control (lit ''50%25.md'')"
    by (simp_all add: has_drive_and_backslash_def has_control_def is_control_def as_bytes_def utf8_char_def)
  moreover have "decode_path_segment (lit ''50%25.md'') field = Inr (lit ''50%.md'')"
    by (simp add: decode_path_segment_def percent_decode_segment_def as_bytes_def utf8_char_def from_utf8_def hex_value_def std_simps Let_def)
  moreover have "\<not> is_reserved_filename (lit ''50%.md'')"
    by (simp add: is_reserved_filename_def to_ascii_uppercase_def)
  moreover have "str_split (\<lambda>c. c = 47 \<or> c = 92) (str_trim (lit ''50%25.md'')) = [lit ''50%25.md'']" by (simp add: std_simps)
  ultimately show ?thesis
    unfolding validate_safe_vault_relative_path_def Let_def
    by (simp add: std_simps has_control_def is_control_def)
qed

lemma percent_refused: "validate_safe_vault_relative_path (\<lambda>s. s) (lit ''50%.md'') field = km_err field (lit ''Malformed percent encoding'')"
proof -
  have "\<not> has_drive_and_backslash (lit ''50%.md'')" "\<not> has_control (lit ''50%.md'')"
    by (simp_all add: has_drive_and_backslash_def has_control_def is_control_def as_bytes_def utf8_char_def)
  moreover have "decode_path_segment (lit ''50%.md'') field = km_err field (lit ''Malformed percent encoding'')"
    by (simp add: decode_path_segment_def percent_decode_segment_def as_bytes_def utf8_char_def from_utf8_def hex_value_def std_simps Let_def)
  moreover have "str_split (\<lambda>c. c = 47 \<or> c = 92) (str_trim (lit ''50%.md'')) = [lit ''50%.md'']" by (simp add: std_simps)
  ultimately show ?thesis
    unfolding validate_safe_vault_relative_path_def Let_def
    by (simp add: std_simps has_control_def is_control_def)
qed

lemma percent_source_refused:
  assumes "normalize_source_ref env input at = Inr r" "si_path input = lit ''50%25.md''" "kn_nfc env = (\<lambda>s. s)"
  shows "validate_source_refs env [r] = km_err (lit ''source_refs.path'') (lit ''Malformed percent encoding'')"
proof -
  have "sc_path r = lit ''50%.md''"
    using assms by (auto simp: normalize_source_ref_def percent_kept res_bind_eq_Inr split: if_splits simp del: lit_simps)
  then show ?thesis by (simp add: validate_source_refs_def validate_source_ref_def percent_refused assms(3) del: lit_simps)
qed

section \<open>Notes are read back as they were written\<close>

lemma replace_crlf_set: "set (replace_crlf s) \<subseteq> set s \<and> set s \<subseteq> insert 13 (set (replace_crlf s))"
proof (induction s rule: replace_crlf.induct)
  case (2 c s)
  show ?case
  proof (cases "str_starts_with (c # s) [13, 10]")
    case True
    then obtain t where "s = 10 # t" "c = 13" by (auto simp: str_starts_with_iff)
    then show ?thesis using 2(1) True by auto
  next
    case False
    then show ?thesis using 2(2) by auto
  qed
qed simp

lemma pop_trailing_set: "set (pop_trailing c s) \<subseteq> set s \<and> set s \<subseteq> insert c (set (pop_trailing c s))"
proof -
  have "set (rev s) = set (takeWhile (\<lambda>x. x = c) (rev s)) \<union> set (dropWhile (\<lambda>x. x = c) (rev s))"
    by (metis set_append takeWhile_dropWhile_id)
  then show ?thesis unfolding pop_trailing_def by (auto dest: set_takeWhileD)
qed

lemma str_trim_blank: "str_trim s = [] \<longleftrightarrow> (\<forall>c\<in>set s. is_whitespace c)"
proof
  assume "str_trim s = []"
  then have a: "\<forall>c\<in>set (dropWhile is_whitespace s). is_whitespace c" by (simp add: str_trim_def dropWhile_eq_Nil_conv)
  have "dropWhile is_whitespace s = []"
  proof (rule ccontr)
    assume n: "dropWhile is_whitespace s \<noteq> []"
    show False using hd_dropWhile[OF n] hd_in_set[OF n] a by blast
  qed
  then show "\<forall>c\<in>set s. is_whitespace c" by (simp add: dropWhile_eq_Nil_conv)
next
  assume "\<forall>c\<in>set s. is_whitespace c"
  then show "str_trim s = []" using str_trim_set[of s] by (auto simp: str_trim_def dropWhile_eq_Nil_conv dest: set_dropWhileD)
qed

lemma normalize_body_blank: "str_trim (normalize_markdown_body s) = [] \<longleftrightarrow> str_trim s = []"
proof -
  let ?lf = "map (\<lambda>c. if c = (13 :: nat) then 10 else c)"
  have ws: "is_whitespace 10" "is_whitespace 13" by (simp_all add: is_whitespace_def)
  have "(\<forall>c\<in>set (replace_crlf s). is_whitespace c) \<longleftrightarrow> (\<forall>c\<in>set s. is_whitespace c)"
    using replace_crlf_set[of s] ws by blast
  moreover have "(\<forall>c\<in>set (?lf t). is_whitespace c) \<longleftrightarrow> (\<forall>c\<in>set t. is_whitespace c)" for t
    using ws by auto
  moreover have "(\<forall>c\<in>set (pop_trailing 10 t). is_whitespace c) \<longleftrightarrow> (\<forall>c\<in>set t. is_whitespace c)" for t
    using pop_trailing_set[of 10 t] ws by blast
  ultimately show ?thesis using ws by (simp add: str_trim_blank normalize_markdown_body_def str_replace_char_def)
qed

lemma replace_crlf_id: "13 \<notin> set s \<Longrightarrow> replace_crlf s = s"
  by (induction s rule: replace_crlf.induct) (auto simp: str_starts_with_iff)

lemma pop_trailing_snoc: "pop_trailing c (pop_trailing c s @ [c]) = pop_trailing c s"
  by (simp add: pop_trailing_def)

lemma normalize_body_twice: "normalize_markdown_body (normalize_markdown_body s) = normalize_markdown_body s"
proof -
  let ?t = "str_replace_char 13 10 (replace_crlf s)"
  have "13 \<notin> set ?t" by (auto simp: str_replace_char_def)
  then have n: "13 \<notin> set (pop_trailing 10 ?t @ [10])" using pop_trailing_set[of 10 ?t] by auto
  then have "str_replace_char 13 10 (replace_crlf (pop_trailing 10 ?t @ [10])) = pop_trailing 10 ?t @ [10]"
    unfolding replace_crlf_id[OF n] using n by (auto simp: str_replace_char_def intro!: map_idI)
  then show ?thesis by (simp add: normalize_markdown_body_def pop_trailing_snoc)
qed

text \<open>No line of the text is a marker.\<close>

definition no_marker :: "rstr \<Rightarrow> bool" where
  "no_marker s \<longleftrightarrow> (\<nexists>a b. s = a @ 10 # document_marker @ b)"

lemma split_at_marker:
  assumes "no_marker (y @ [10])"
  shows "split_at_str (10 # document_marker) (y @ 10 # document_marker @ body) = Some (y, body)"
  using assms
proof (induction y)
  case Nil
  then show ?case by (simp add: document_marker_def std_simps)
next
  case (Cons c y)
  have "no_marker (y @ [10])" using Cons.prems unfolding no_marker_def by (metis append_Cons)
  moreover have "\<not> str_starts_with (c # y @ 10 # document_marker @ body) (10 # document_marker)"
  proof
    assume "str_starts_with (c # y @ 10 # document_marker @ body) (10 # document_marker)"
    then obtain t where t: "c # y @ 10 # document_marker @ body = 10 # document_marker @ t" by (auto simp: str_starts_with_iff)
    have "4 \<le> length (y @ [10])"
    proof (rule ccontr)
      assume "\<not> 4 \<le> length (y @ [10])"
      then consider "y = []" | d where "y = [d]" | d e where "y = [d, e]" by (cases y; cases "tl y"; cases "tl (tl y)") auto
      then show False using t by cases (auto simp: document_marker_def)
    qed
    moreover have "take 4 (y @ [10]) = document_marker"
    proof -
      have "take 4 (y @ 10 # document_marker @ body) = document_marker" using t by (simp add: document_marker_def)
      moreover have "take 4 (y @ 10 # document_marker @ body) = take 4 (y @ [10])"
        using \<open>4 \<le> length (y @ [10])\<close> by (cases "length y = 3") auto
      ultimately show ?thesis by simp
    qed
    ultimately have "c # y @ [10] = [] @ 10 # document_marker @ drop 4 (y @ [10])" using t
      by (metis append_Nil append_take_drop_id list.inject)
    then show False using Cons.prems unfolding no_marker_def by (metis append_Cons)
  qed
  ultimately show ?case using Cons.IH by (simp add: document_marker_def)
qed

lemma split_front_matter:
  assumes "no_marker (yaml_block y)"
  shows "split_note_frontmatter (front_matter y @ body) = Inr (butlast (yaml_block y), body)"
proof -
  have ends: "\<exists>z. (if str_ends_with s [10] then s else s @ [10]) = z @ [10]" for s
    by (auto simp: str_ends_with_def str_starts_with_iff)
  then obtain z where z: "yaml_block y = z @ [10]" unfolding yaml_block_def Let_def by blast
  show ?thesis using split_at_marker[of z body] assms
    by (simp add: split_note_frontmatter_def front_matter_def z str_starts_with_iff)
qed

definition yaml_reads_back :: "'a yaml \<Rightarrow> 'a \<Rightarrow> bool" where
  "yaml_reads_back yaml fm \<longleftrightarrow>
     (\<forall>y. ym_print yaml fm = Inr y \<longrightarrow> no_marker (yaml_block y) \<and> ym_parse yaml (butlast (yaml_block y)) = Inr fm)"

lemma validate_memory_body: "str_trim b = [] \<longleftrightarrow> str_trim (mi_body item) = [] \<Longrightarrow>
    validate_memory_item env (item\<lparr>mi_body := b\<rparr>) = validate_memory_item env item"
  by (simp add: validate_memory_item_def validate_note_def)

text \<open>
  C25. When YAML reads back what it prints, and prints no marker, then a memory item that was serialized is read back with its fields and
  its body in normal form, and serializing what was read gives the same text.
\<close>

theorem memory_items_read_back:
  assumes "yaml_reads_back yaml (memory_frontmatter.truncate item)" "serialize_memory_item env yaml item = Inr text"
  shows "parse_memory_item env yaml text = Inr (item\<lparr>mi_body := normalize_markdown_body (mi_body item)\<rparr>) \<and>
    serialize_memory_item env yaml (item\<lparr>mi_body := normalize_markdown_body (mi_body item)\<rparr>) = Inr text"
proof -
  let ?new = "item\<lparr>mi_body := normalize_markdown_body (mi_body item)\<rparr>"
  obtain y where y: "validate_memory_item env item = Inr ()" "ym_print yaml (memory_frontmatter.truncate item) = Inr y"
      "text = front_matter y @ normalize_markdown_body (mi_body item)"
    using assms(2) by (auto simp: serialize_memory_item_def yaml_result_def res_bind_eq_Inr split: sum.splits)
  have new: "validate_memory_item env ?new = Inr ()"
    using y(1) by (simp add: validate_memory_body normalize_body_blank)
  have "into_memory_item (memory_frontmatter.truncate item) (normalize_markdown_body (mi_body item)) = ?new"
    by (cases item) (simp add: into_memory_item_def memory_frontmatter.defs memory_item.defs)
  moreover have "memory_frontmatter.truncate ?new = memory_frontmatter.truncate item"
    by (cases item) (simp add: memory_frontmatter.defs)
  ultimately show ?thesis using assms(1) y new
    by (simp add: parse_memory_item_def serialize_memory_item_def split_front_matter yaml_reads_back_def yaml_result_def
        normalize_body_twice res_bind_eq_Inr)
qed

lemma validate_wiki_body: "str_trim b = [] \<longleftrightarrow> str_trim (wp_body page) = [] \<Longrightarrow>
    validate_wiki_page env (page\<lparr>wp_body := b\<rparr>) = validate_wiki_page env page"
  by (simp add: validate_wiki_page_def validate_note_def)

lemma wiki_pages_read_back:
  assumes "yaml_reads_back yaml (wiki_frontmatter.truncate page)" "serialize_wiki_page env yaml page = Inr text"
  shows "parse_wiki_page env yaml text = Inr (page\<lparr>wp_body := normalize_markdown_body (wp_body page)\<rparr>)"
proof -
  let ?new = "page\<lparr>wp_body := normalize_markdown_body (wp_body page)\<rparr>"
  obtain y where y: "validate_wiki_page env page = Inr ()" "ym_print yaml (wiki_frontmatter.truncate page) = Inr y"
      "text = front_matter y @ normalize_markdown_body (wp_body page)"
    using assms(2) by (auto simp: serialize_wiki_page_def yaml_result_def res_bind_eq_Inr split: sum.splits)
  have "validate_wiki_page env ?new = Inr ()"
    using y(1) by (simp add: validate_wiki_body normalize_body_blank)
  moreover have "into_wiki_page (wiki_frontmatter.truncate page) (normalize_markdown_body (wp_body page)) = ?new"
    by (cases page) (simp add: into_wiki_page_def wiki_frontmatter.defs wiki_page.defs)
  ultimately show ?thesis using assms(1) y
    by (simp add: parse_wiki_page_def split_front_matter yaml_reads_back_def yaml_result_def res_bind_eq_Inr)
qed

section \<open>Concrete instances\<close>

definition example_note_env :: knowledge_env where
  "example_note_env = \<lparr>kn_nfc = (\<lambda>s. s), kn_rfc3339 = (\<lambda>s. length s = 20)\<rparr>"

definition example_item :: memory_item where
  "example_item = \<lparr>mf_id = lit ''mem_rust'', mf_kind = None, mf_title = lit ''Rust'', mf_status = MemoryActive, mf_tags = [lit ''code''],
     mf_source_refs = [], mf_created_at = lit ''2026-01-02T03:04:05Z'', mf_updated_at = lit ''2026-01-02T03:04:05Z'',
     mf_proposal_id = lit ''prop_1'', mf_decision_document = lit ''Knowledge/decisions/d.md'', mi_body = lit ''Likes Rust''\<rparr>"

text \<open>YAML for notes that differ in their title only.\<close>

definition example_yaml :: "memory_frontmatter yaml" where
  "example_yaml =
     \<lparr>ym_print = (\<lambda>fm. Inr (lit ''title: '' @ mf_title fm)),
      ym_parse = (\<lambda>s. Inr ((memory_frontmatter.truncate example_item)\<lparr>mf_title := drop 7 s\<rparr>))\<rparr>"

lemma example_document:
  "validate_safe_vault_relative_path (\<lambda>s. s) (lit ''Knowledge/decisions/d.md'') field = Inr (lit ''Knowledge/decisions/d.md'')"
proof -
  have "\<not> has_drive_and_backslash (lit ''Knowledge/decisions/d.md'')" "\<not> has_control (lit ''Knowledge/decisions/d.md'')"
    by (simp_all add: has_drive_and_backslash_def has_control_def is_control_def as_bytes_def utf8_char_def)
  moreover have "decode_path_segment (lit ''Knowledge'') field = Inr (lit ''Knowledge'')"
      "decode_path_segment (lit ''decisions'') field = Inr (lit ''decisions'')" "decode_path_segment (lit ''d.md'') field = Inr (lit ''d.md'')"
    by (simp_all add: decode_path_segment_def percent_decode_segment_def as_bytes_def utf8_char_def from_utf8_def hex_value_def std_simps)
  moreover have "\<not> is_reserved_filename (lit ''Knowledge'')" "\<not> is_reserved_filename (lit ''decisions'')" "\<not> is_reserved_filename (lit ''d.md'')"
    by (simp_all add: is_reserved_filename_def to_ascii_uppercase_def)
  moreover have "str_split (\<lambda>c. c = 47 \<or> c = 92) (str_trim (lit ''Knowledge/decisions/d.md'')) =
      [lit ''Knowledge'', lit ''decisions'', lit ''d.md'']" by (simp add: std_simps)
  ultimately show ?thesis
    unfolding validate_safe_vault_relative_path_def Let_def
    by (simp add: std_simps has_control_def is_control_def)
qed

lemma example_item_valid: "validate_memory_item example_note_env example_item = Inr ()"
proof -
  have "validate_timestamp (kn_rfc3339 example_note_env) (lit ''2026-01-02T03:04:05Z'') field = Inr ()" for field
    by (simp add: validate_timestamp_def example_note_env_def std_simps)
  moreover have "validate_prefixed_id (lit ''mem_rust'') PrefixMemory field = Inr ()" "validate_prefixed_id (lit ''prop_1'') PrefixProposal field = Inr ()" for field
    by (simp_all add: validate_prefixed_id_def prefix_as_str_def valid_id_body_def id_char_def MAX_ID_BODY_LEN_def std_simps)
  moreover have "validate_non_empty_limited (lit ''Rust'') field 160 = Inr ()" "validate_non_empty_limited (lit ''code'') field 40 = Inr ()" for field
    by (simp_all add: validate_non_empty_limited_def std_simps)
  moreover have "str_trim (lit ''Likes Rust'') \<noteq> []" by (simp add: std_simps)
  moreover have "str_starts_with (lit ''Knowledge/decisions/d.md'') (lit ''Knowledge/decisions/'')" by (simp add: std_simps)
  moreover have "kn_nfc example_note_env = (\<lambda>s. s)" by (simp add: example_note_env_def)
  ultimately show ?thesis
    by (simp add: validate_memory_item_def validate_note_def validate_source_refs_def optional_check_def MAX_TITLE_CHARS_def example_item_def
        example_document del: lit_simps)
qed

lemma example_yaml_reads_back: "yaml_reads_back example_yaml (memory_frontmatter.truncate example_item)"
proof -
  have "no_marker (lit ''title: Rust'' @ [10])"
    unfolding no_marker_def document_marker_def by (auto simp: Cons_eq_append_conv)
  then show ?thesis
    by (simp add: yaml_reads_back_def example_yaml_def example_item_def memory_frontmatter.defs yaml_block_def document_marker_def std_simps)
qed

lemma example_serialized:
  "serialize_memory_item example_note_env example_yaml example_item =
     Inr (lit ''---'' @ [10] @ lit ''title: Rust'' @ [10] @ lit ''---'' @ [10] @ lit ''Likes Rust'' @ [10])"
proof -
  have "ym_print example_yaml (memory_frontmatter.truncate example_item) = Inr (lit ''title: Rust'')"
    by (simp add: example_yaml_def example_item_def memory_frontmatter.defs)
  moreover have "normalize_markdown_body (mi_body example_item) = lit ''Likes Rust'' @ [10]"
    by (simp add: normalize_markdown_body_def pop_trailing_def example_item_def std_simps)
  moreover have "front_matter (lit ''title: Rust'') = lit ''---'' @ [10] @ lit ''title: Rust'' @ [10] @ lit ''---'' @ [10]"
    by (simp add: front_matter_def yaml_block_def document_marker_def std_simps)
  ultimately show ?thesis by (simp add: serialize_memory_item_def example_item_valid yaml_result_def del: lit_simps)
qed

theorem memory_items_read_back_witness:
  "parse_memory_item example_note_env example_yaml
     (lit ''---'' @ [10] @ lit ''title: Rust'' @ [10] @ lit ''---'' @ [10] @ lit ''Likes Rust'' @ [10]) =
     Inr (example_item\<lparr>mi_body := lit ''Likes Rust'' @ [10]\<rparr>)"
proof -
  have "normalize_markdown_body (mi_body example_item) = lit ''Likes Rust'' @ [10]"
    by (simp add: normalize_markdown_body_def pop_trailing_def example_item_def std_simps)
  then show ?thesis using memory_items_read_back[OF example_yaml_reads_back example_serialized] by (simp del: lit_simps)
qed


end
