(* ===== verification/Knowledge_Decision.thy ===== *)
theory Knowledge_Decision
  imports Knowledge_Markdown BTree_Map
begin

text \<open>
  Decision documents (\<open>knowledge/decision_document.rs\<close>): a markdown note with a front matter and fenced \<open>kuku\<close> blocks, which
  hold proposed changes and the decisions about them. The scanner of the fences with the byte ranges of the blocks, the
  replacement of blocks, and the checks that make a document applicable. YAML is a parameter.
\<close>

datatype knowledge_error_code =
  InvalidArgumentCode | ValidationFailed | UnsafePathCode | AlreadyExists | NotPending | ApplyInProgress | ApplyRecoveryRequired
| ApplyFailed | DocumentChanged | IoError

record decision_document_error =
  de_code :: knowledge_error_code
  de_message :: rstr

abbreviation dd_err :: "rstr \<Rightarrow> decision_document_error + 'a" where
  "dd_err message \<equiv> Inl \<lparr>de_code = ValidationFailed, de_message = message\<rparr>"

definition as_dd_error :: "knowledge_model_error + 'a \<Rightarrow> decision_document_error + 'a" where
  "as_dd_error r = (case r of Inl e \<Rightarrow> dd_err (km_message e) | Inr v \<Rightarrow> Inr v)"

section \<open>Data\<close>

definition MAX_DOCUMENT_BYTES :: nat where "MAX_DOCUMENT_BYTES = 2 * 1024 * 1024"

definition MAX_FRONTMATTER_BYTES :: nat where "MAX_FRONTMATTER_BYTES = 64 * 1024"

definition MAX_KUKU_BLOCKS :: nat where "MAX_KUKU_BLOCKS = 200"

definition MAX_PROPOSAL_BLOCKS :: nat where "MAX_PROPOSAL_BLOCKS = 100"

definition MAX_DECISION_BLOCKS :: nat where "MAX_DECISION_BLOCKS = 100"

definition MAX_KUKU_PAYLOAD_BYTES :: nat where "MAX_KUKU_PAYLOAD_BYTES = 128 * 1024"

definition MAX_ID_CHARS :: nat where "MAX_ID_CHARS = 84"

definition MAX_KIND_CHARS :: nat where "MAX_KIND_CHARS = 40"

definition MAX_TAG_CHARS :: nat where "MAX_TAG_CHARS = 40"

record byte_range =
  br_start :: nat
  br_end :: nat

record kuku_block_span =
  ks_full :: byte_range
  ks_opening_fence :: byte_range
  ks_payload :: byte_range
  ks_closing_fence :: byte_range

record memory_proposal_memory =
  mm_id :: rstr
  mm_kind :: "rstr option"
  mm_title :: rstr
  mm_tags :: "rstr list"
  mm_body :: rstr
  mm_source_refs :: "source_ref list"

record memory_proposal_block =
  mb_id :: rstr
  mb_operation :: rstr
  mb_memory :: memory_proposal_memory

record wiki_proposal_page =
  pg_path :: rstr
  pg_expected_checksum :: "rstr option"
  pg_page_type :: rstr
  pg_title :: rstr
  pg_tags :: "rstr list"
  pg_body :: rstr
  pg_source_refs :: "source_ref list"

record wiki_proposal_block =
  wb_id :: rstr
  wb_operation :: rstr
  wb_page :: wiki_proposal_page

record decision_option_block =
  ob_id :: rstr
  ob_label :: rstr
  ob_requires_input :: "bool option"

record decision_block =
  dn_id :: rstr
  dn_proposal_id :: rstr
  dn_target_change_id :: rstr
  dn_question :: rstr
  dn_selection_mode :: rstr
  dn_required :: bool
  dn_status :: rstr
  dn_selected_option_id :: "rstr option"
  dn_options :: "decision_option_block list"
  dn_other_text :: "rstr option"
  dn_resolved_at :: "rstr option"

record 'v parsed_block =
  pb_span :: "kuku_block_span option"
  pb_value :: 'v

datatype parsed_kuku_block =
  MemoryProposal "memory_proposal_block parsed_block"
| WikiProposal "wiki_proposal_block parsed_block"
| Decision "decision_block parsed_block"

record frontmatter_known =
  fm_id :: rstr
  fm_proposal_id :: rstr
  fm_target_kind :: rstr
  fm_request_source :: rstr
  fm_status :: rstr
  fm_created_at :: rstr
  fm_updated_at :: rstr
  fm_source_refs :: "source_ref list"

record 'raw decision_document_frontmatter = frontmatter_known +
  fm_raw :: 'raw

record 'raw parsed_decision_document =
  pd_markdown :: rstr
  pd_frontmatter :: "'raw decision_document_frontmatter"
  pd_frontmatter_span :: byte_range
  pd_blocks :: "parsed_kuku_block list"

record decision_document_integrity =
  ig_doc_id :: rstr
  ig_proposal_id :: rstr
  ig_yes_memory_paths :: "rstr list"
  ig_yes_wiki_paths :: "rstr list"

text \<open>
  The YAML of blocks and of the front matter, which is read twice: its known fields, and the whole mapping (\<open>'raw\<close>) into
  which texts are inserted by key.
\<close>

record 'raw kuku_env =
  ke_note :: knowledge_env
  ke_known :: "rstr \<Rightarrow> rstr + frontmatter_known"
  ke_raw :: "'raw yaml"
  ke_insert :: "rstr \<Rightarrow> rstr \<Rightarrow> 'raw \<Rightarrow> 'raw"
  ke_memory :: "memory_proposal_block yaml"
  ke_wiki :: "wiki_proposal_block yaml"
  ke_decision :: "decision_block yaml"

definition proposal_blocks :: "parsed_kuku_block list \<Rightarrow> memory_proposal_block parsed_block list" where
  "proposal_blocks blocks = List.map_filter (\<lambda>block. case block of MemoryProposal b \<Rightarrow> Some b | _ \<Rightarrow> None) blocks"

definition wiki_proposal_blocks :: "parsed_kuku_block list \<Rightarrow> wiki_proposal_block parsed_block list" where
  "wiki_proposal_blocks blocks = List.map_filter (\<lambda>block. case block of WikiProposal b \<Rightarrow> Some b | _ \<Rightarrow> None) blocks"

definition decision_blocks :: "parsed_kuku_block list \<Rightarrow> decision_block parsed_block list" where
  "decision_blocks blocks = List.map_filter (\<lambda>block. case block of Decision b \<Rightarrow> Some b | _ \<Rightarrow> None) blocks"

fun block_span :: "parsed_kuku_block \<Rightarrow> kuku_block_span option" where
  "block_span (MemoryProposal b) = pb_span b"
| "block_span (WikiProposal b) = pb_span b"
| "block_span (Decision b) = pb_span b"

section \<open>Lines and fences\<close>

text \<open>Positions are in bytes. The scanner walks along the text: \<open>s\<close> is what follows the position \<open>start\<close>.\<close>

record markdown_line =
  ln_text :: rstr
  ln_start :: nat
  ln_end :: nat

definition markdown_line_at :: "rstr \<Rightarrow> nat \<Rightarrow> markdown_line \<times> rstr" where
  "markdown_line_at s start =
     (let text = takeWhile (\<lambda>c. c \<noteq> 10) s
      in case dropWhile (\<lambda>c. c \<noteq> 10) s of
           [] \<Rightarrow> (\<lparr>ln_text = text, ln_start = start, ln_end = start + byte_len text\<rparr>, [])
         | _ # after \<Rightarrow> (\<lparr>ln_text = text, ln_start = start, ln_end = start + byte_len text + 1\<rparr>, after))"

lemma line_at_shorter: "markdown_line_at s start = (l, after) \<Longrightarrow> s \<noteq> [] \<Longrightarrow> length after < length s"
proof -
  assume l: "markdown_line_at s start = (l, after)" and s: "s \<noteq> []"
  have "length (dropWhile (\<lambda>c. c \<noteq> 10) s) \<le> length s" by (rule length_dropWhile_le)
  then show "length after < length s"
    using l s by (auto simp: markdown_line_at_def Let_def split: list.splits)
qed

record opening_fence =
  of_marker :: rchar
  of_len :: nat
  of_info :: rstr

definition fence_indent :: "rstr \<Rightarrow> nat" where
  "fence_indent line = length (takeWhile (\<lambda>c. c = 32) line)"

definition parse_opening_fence :: "rstr \<Rightarrow> opening_fence option" where
  "parse_opening_fence line =
     (let indent = fence_indent line
      in if indent > 3 then None
         else
           case drop indent line of
             [] \<Rightarrow> None
           | marker # s \<Rightarrow>
               if marker \<noteq> 96 \<and> marker \<noteq> 126 then None
               else
                 let fence_len = length (takeWhile (\<lambda>c. c = marker) (marker # s))
                 in if fence_len < 3 then None
                    else Some \<lparr>of_marker = marker, of_len = fence_len, of_info = str_trim (drop fence_len (marker # s))\<rparr>)"

definition is_closing_fence :: "rstr \<Rightarrow> rchar \<Rightarrow> nat \<Rightarrow> bool" where
  "is_closing_fence line marker opening_len =
     (let indent = fence_indent line
      in if indent > 3 then False
         else
           let s = drop indent line; fence_len = length (takeWhile (\<lambda>c. c = marker) s)
           in if fence_len < opening_len then False else str_trim (drop fence_len s) = [])"

function find_closing_fence :: "rstr \<Rightarrow> nat \<Rightarrow> rchar \<Rightarrow> nat \<Rightarrow> (markdown_line \<times> rstr) option" where
  "find_closing_fence s start marker opening_len =
     (if s = [] then None
      else
        let (line, after) = markdown_line_at s start
        in if is_closing_fence (ln_text line) marker opening_len then Some (line, after)
           else find_closing_fence after (ln_end line) marker opening_len)"
  by pat_completeness auto
termination
  by (relation "measure (\<lambda>(s, _). length s)") (auto dest: line_at_shorter[OF sym])

declare find_closing_fence.simps [simp del]

lemma find_closing_fence_shorter:
  "find_closing_fence s start marker n = Some (l, after) \<Longrightarrow> length after < length s"
proof (induction s start marker n rule: find_closing_fence.induct)
  case (1 s start marker n)
  obtain line t where l: "markdown_line_at s start = (line, t)" by (cases "markdown_line_at s start")
  have s: "s \<noteq> []" using 1(2) by (auto simp: find_closing_fence.simps[of s])
  show ?case
  proof (cases "is_closing_fence (ln_text line) marker n")
    case True
    then show ?thesis using 1(2) l s line_at_shorter[OF l s] by (simp add: find_closing_fence.simps[of s])
  next
    case False
    then have "find_closing_fence t (ln_end line) marker n = Some (l, after)"
      using 1(2) l s by (simp add: find_closing_fence.simps[of s])
    then show ?thesis using 1(1)[OF s _ refl] l s False line_at_shorter[OF l s] by fastforce
  qed
qed

datatype kuku_kind = KukuMemoryProposal | KukuWikiProposal | KukuDecision

definition kuku_language :: "rstr \<Rightarrow> kuku_kind option" where
  "kuku_language info =
     (let word = takeWhile (\<lambda>c. \<not> is_whitespace c) (dropWhile is_whitespace info)
      in if word = lit ''kuku-memory-proposal'' then Some KukuMemoryProposal
         else if word = lit ''kuku-wiki-proposal'' then Some KukuWikiProposal
         else if word = lit ''kuku-decision'' then Some KukuDecision
         else None)"

section \<open>Parsing\<close>

definition parse_value :: "rstr \<Rightarrow> (rstr \<Rightarrow> rstr + 'v) \<Rightarrow> rstr \<Rightarrow> decision_document_error + 'v" where
  "parse_value what parse payload =
     (case parse payload of Inl e \<Rightarrow> dd_err (lit ''Malformed '' @ what @ lit '': '' @ e) | Inr v \<Rightarrow> Inr v)"

definition parse_memory_proposal_block :: "'raw kuku_env \<Rightarrow> rstr \<Rightarrow> decision_document_error + memory_proposal_block" where
  "parse_memory_proposal_block env = parse_value (lit ''kuku-memory-proposal block'') (ym_parse (ke_memory env))"

definition parse_wiki_proposal_block :: "'raw kuku_env \<Rightarrow> rstr \<Rightarrow> decision_document_error + wiki_proposal_block" where
  "parse_wiki_proposal_block env = parse_value (lit ''kuku-wiki-proposal block'') (ym_parse (ke_wiki env))"

definition parse_decision_block :: "'raw kuku_env \<Rightarrow> rstr \<Rightarrow> decision_document_error + decision_block" where
  "parse_decision_block env = parse_value (lit ''kuku-decision block'') (ym_parse (ke_decision env))"

definition parse_kuku_block :: "'raw kuku_env \<Rightarrow> kuku_kind \<Rightarrow> kuku_block_span \<Rightarrow> rstr \<Rightarrow> decision_document_error + parsed_kuku_block" where
  "parse_kuku_block env language span payload =
     (case language of
        KukuMemoryProposal \<Rightarrow>
          res_bind (parse_memory_proposal_block env payload) (\<lambda>v. Inr (MemoryProposal \<lparr>pb_span = Some span, pb_value = v\<rparr>))
      | KukuWikiProposal \<Rightarrow>
          res_bind (parse_wiki_proposal_block env payload) (\<lambda>v. Inr (WikiProposal \<lparr>pb_span = Some span, pb_value = v\<rparr>))
      | KukuDecision \<Rightarrow>
          res_bind (parse_decision_block env payload) (\<lambda>v. Inr (Decision \<lparr>pb_span = Some span, pb_value = v\<rparr>)))"

fun is_proposal :: "parsed_kuku_block \<Rightarrow> bool" where
  "is_proposal (Decision _) = False"
| "is_proposal _ = True"

definition check_block_limits :: "parsed_kuku_block list \<Rightarrow> decision_document_error + unit" where
  "check_block_limits blocks =
     (if length blocks > MAX_KUKU_BLOCKS then dd_err (lit ''Decision document has too many Kuku fenced blocks'')
      else if length (filter is_proposal blocks) > MAX_PROPOSAL_BLOCKS then dd_err (lit ''Decision document has too many proposal blocks'')
      else if length (filter (\<lambda>b. \<not> is_proposal b) blocks) > MAX_DECISION_BLOCKS
      then dd_err (lit ''Decision document has too many decision blocks'')
      else Inr ())"

text \<open>The part of a text with the given number of bytes, and the rest.\<close>

fun split_bytes :: "nat \<Rightarrow> rstr \<Rightarrow> rstr \<times> rstr" where
  "split_bytes n [] = ([], [])"
| "split_bytes n (c # s) =
     (if n = 0 then ([], c # s) else let (a, b) = split_bytes (n - length (utf8_char c)) s in (c # a, b))"

definition byte_slice :: "rstr \<Rightarrow> nat \<Rightarrow> nat \<Rightarrow> rstr" where
  "byte_slice s a b = fst (split_bytes (b - a) (snd (split_bytes a s)))"

definition make_span :: "markdown_line \<Rightarrow> markdown_line \<Rightarrow> kuku_block_span" where
  "make_span line closing =
     \<lparr>ks_full = \<lparr>br_start = ln_start line, br_end = ln_end closing\<rparr>,
      ks_opening_fence = \<lparr>br_start = ln_start line, br_end = ln_end line\<rparr>,
      ks_payload = \<lparr>br_start = ln_end line, br_end = ln_start closing\<rparr>,
      ks_closing_fence = \<lparr>br_start = ln_start closing, br_end = ln_end closing\<rparr>\<rparr>"

function kuku_loop :: "'raw kuku_env \<Rightarrow> rstr \<Rightarrow> nat \<Rightarrow> parsed_kuku_block list \<Rightarrow> decision_document_error + parsed_kuku_block list" where
  "kuku_loop env s start blocks =
     (if s = [] then Inr blocks
      else
        let (line, after) = markdown_line_at s start
        in case parse_opening_fence (ln_text line) of
             None \<Rightarrow> kuku_loop env after (ln_end line) blocks
           | Some opening \<Rightarrow>
               let found = find_closing_fence after (ln_end line) (of_marker opening) (of_len opening)
               in case kuku_language (of_info opening) of
                    None \<Rightarrow>
                      (case found of
                         Some (closing, behind) \<Rightarrow> kuku_loop env behind (ln_end closing) blocks
                       | None \<Rightarrow> kuku_loop env after (ln_end line) blocks)
                  | Some language \<Rightarrow>
                      (case found of
                         None \<Rightarrow> dd_err (lit ''Kuku fenced block is missing closing fence'')
                       | Some (closing, behind) \<Rightarrow>
                           if ln_start closing - ln_end line > MAX_KUKU_PAYLOAD_BYTES
                           then dd_err (lit ''Kuku fenced block payload exceeds maximum size'')
                           else
                             (case parse_kuku_block env language (make_span line closing)
                                     (fst (split_bytes (ln_start closing - ln_end line) after)) of
                                Inl e \<Rightarrow> Inl e
                              | Inr block \<Rightarrow>
                                  (case check_block_limits (blocks @ [block]) of
                                     Inl e \<Rightarrow> Inl e
                                   | Inr _ \<Rightarrow> kuku_loop env behind (ln_end closing) (blocks @ [block])))))"
  by pat_completeness auto
termination
  by (relation "measure (\<lambda>(_, s, _). length s)")
    (auto dest!: line_at_shorter[OF sym] find_closing_fence_shorter[OF sym] intro: less_trans)

declare kuku_loop.simps [simp del]

definition parse_kuku_blocks :: "'raw kuku_env \<Rightarrow> rstr \<Rightarrow> decision_document_error + parsed_kuku_block list" where
  "parse_kuku_blocks env markdown = kuku_loop env markdown 0 []"

definition parse_document_frontmatter ::
  "'raw kuku_env \<Rightarrow> rstr \<Rightarrow> decision_document_error + 'raw decision_document_frontmatter \<times> byte_range" where
  "parse_document_frontmatter env markdown =
     (if \<not> str_starts_with markdown document_marker then dd_err (lit ''Missing document frontmatter'')
      else
        case split_at_str (10 # document_marker) (drop (length document_marker) markdown) of
          None \<Rightarrow> dd_err (lit ''Missing closing frontmatter marker'')
        | Some (payload, _) \<Rightarrow>
            if byte_len payload > MAX_FRONTMATTER_BYTES then dd_err (lit ''Decision document frontmatter exceeds maximum size'')
            else
              res_bind (parse_value (lit ''document frontmatter'') (ke_known env) payload) (\<lambda>known.
              res_bind (parse_value (lit ''document frontmatter'') (ym_parse (ke_raw env)) payload) (\<lambda>raw.
              Inr (frontmatter_known.extend known (decision_document_frontmatter.fields raw),
                   \<lparr>br_start = 0, br_end = length document_marker + byte_len payload + 5\<rparr>))))"

definition parse_decision_document :: "'raw kuku_env \<Rightarrow> rstr \<Rightarrow> decision_document_error + 'raw parsed_decision_document" where
  "parse_decision_document env markdown =
     (if byte_len markdown > MAX_DOCUMENT_BYTES then dd_err (lit ''Decision document exceeds maximum size'')
      else
        res_bind (parse_document_frontmatter env markdown) (\<lambda>(frontmatter, frontmatter_span).
        res_bind (parse_kuku_blocks env markdown) (\<lambda>blocks.
        Inr \<lparr>pd_markdown = markdown, pd_frontmatter = frontmatter, pd_frontmatter_span = frontmatter_span, pd_blocks = blocks\<rparr>)))"

section \<open>Rendering\<close>

definition render_kuku_block :: "rstr \<Rightarrow> ('v \<Rightarrow> rstr + rstr) \<Rightarrow> 'v \<Rightarrow> decision_document_error + rstr" where
  "render_kuku_block language print v =
     (case print v of
        Inl e \<Rightarrow> dd_err e
      | Inr yaml \<Rightarrow> Inr (lit ''```'' @ language @ [10] @ yaml_block yaml @ lit ''```'' @ [10]))"

fun canonical_markdown :: "'raw kuku_env \<Rightarrow> parsed_kuku_block \<Rightarrow> decision_document_error + rstr" where
  "canonical_markdown env (MemoryProposal b) = render_kuku_block (lit ''kuku-memory-proposal'') (ym_print (ke_memory env)) (pb_value b)"
| "canonical_markdown env (WikiProposal b) = render_kuku_block (lit ''kuku-wiki-proposal'') (ym_print (ke_wiki env)) (pb_value b)"
| "canonical_markdown env (Decision b) = render_kuku_block (lit ''kuku-decision'') (ym_print (ke_decision env)) (pb_value b)"

fun replace_ranges :: "rstr \<Rightarrow> nat \<Rightarrow> rstr \<Rightarrow> (byte_range \<times> rstr) list \<Rightarrow> decision_document_error + rstr" where
  "replace_ranges markdown cursor out [] = Inr (out @ byte_slice markdown cursor (byte_len markdown))"
| "replace_ranges markdown cursor out ((rng, replacement) # rs) =
     (if br_start rng < cursor \<or> br_end rng > byte_len markdown then dd_err (lit ''Kuku block byte span is invalid'')
      else replace_ranges markdown (br_end rng) (out @ byte_slice markdown cursor (br_start rng) @ replacement) rs)"

definition render_with_replacements :: "rstr \<Rightarrow> (byte_range \<times> rstr) list \<Rightarrow> decision_document_error + rstr" where
  "render_with_replacements markdown replacements =
     replace_ranges markdown 0 [] (sort_key (\<lambda>(rng, _). br_start rng) replacements)"

definition block_replacement :: "'raw kuku_env \<Rightarrow> parsed_kuku_block \<Rightarrow> decision_document_error + byte_range \<times> rstr" where
  "block_replacement env block =
     (case block_span block of
        None \<Rightarrow> dd_err (lit ''Kuku block is missing byte span data'')
      | Some span \<Rightarrow> res_bind (canonical_markdown env block) (\<lambda>text. Inr (ks_full span, text)))"

definition canonicalize_kuku_blocks :: "'raw kuku_env \<Rightarrow> 'raw parsed_decision_document \<Rightarrow> decision_document_error + rstr" where
  "canonicalize_kuku_blocks env document =
     res_bind (res_map (block_replacement env) (pd_blocks document)) (render_with_replacements (pd_markdown document))"

definition render_frontmatter_block :: "'raw kuku_env \<Rightarrow> 'raw \<Rightarrow> decision_document_error + rstr" where
  "render_frontmatter_block env raw =
     (case ym_print (ke_raw env) raw of Inl e \<Rightarrow> dd_err e | Inr yaml \<Rightarrow> Inr (front_matter yaml))"

definition render_decision_document :: "'raw kuku_env \<Rightarrow> 'raw parsed_decision_document \<Rightarrow> decision_document_error + rstr" where
  "render_decision_document env document =
     res_bind (render_frontmatter_block env (fm_raw (pd_frontmatter document))) (\<lambda>first.
     res_bind (res_map (block_replacement env) (pd_blocks document)) (\<lambda>replacements.
     render_with_replacements (pd_markdown document) ((pd_frontmatter_span document, first) # replacements)))"

section \<open>Checks\<close>

definition validate_document_id :: "rstr \<Rightarrow> rstr \<Rightarrow> rstr \<Rightarrow> decision_document_error + unit" where
  "validate_document_id value pfx field =
     (if length value > MAX_ID_CHARS \<or> \<not> str_starts_with value (pfx @ [95]) \<or> \<not> is_valid_knowledge_id value
      then dd_err (lit ''Invalid '' @ field) else Inr ())"

definition validate_limited :: "rstr \<Rightarrow> rstr \<Rightarrow> nat option \<Rightarrow> decision_document_error + unit" where
  "validate_limited value field max_chars =
     (if str_trim value = [] then dd_err (field @ lit '' is empty'')
      else if (case max_chars of None \<Rightarrow> False | Some n \<Rightarrow> length value > n) then dd_err (field @ lit '' is too long'')
      else Inr ())"

definition validate_document_timestamp :: "(rstr \<Rightarrow> bool) \<Rightarrow> rstr \<Rightarrow> rstr \<Rightarrow> decision_document_error + unit" where
  "validate_document_timestamp rfc3339 value field =
     (if \<not> rfc3339 value then dd_err (field @ lit '' must be a valid RFC 3339 timestamp'')
      else if \<not> str_ends_with value (lit ''Z'') \<or> str_contains value (lit ''.'') then dd_err (field @ lit '' must be UTC seconds precision'')
      else Inr ())"

definition validate_source_range :: "source_range option \<Rightarrow> decision_document_error + unit" where
  "validate_source_range rng =
     (case rng of
        None \<Rightarrow> Inr ()
      | Some r \<Rightarrow>
          if rg_start_line r = 0 \<or> rg_end_line r = 0 \<or> rg_start_line r > rg_end_line r
          then dd_err (lit ''Invalid source reference range'') else Inr ())"

definition validate_document_source_ref :: "knowledge_env \<Rightarrow> source_ref \<Rightarrow> decision_document_error + unit" where
  "validate_document_source_ref env r =
     res_bind (as_dd_error (validate_safe_vault_relative_path (kn_nfc env) (sc_path r) (lit ''source_refs.path''))) (\<lambda>_.
     res_bind (optional_check (\<lambda>t. validate_limited t (lit ''source_refs.title'') (Some MAX_TITLE_CHARS)) (sc_title r)) (\<lambda>_.
     res_bind (optional_check (check_all (\<lambda>s. validate_limited s (lit ''source_refs.section_path'') (Some MAX_TITLE_CHARS)))
       (sc_section_path r)) (\<lambda>_.
     res_bind (validate_source_range (sc_range r)) (\<lambda>_.
     res_bind (optional_check (\<lambda>c. as_dd_error (validate_sha256_checksum c (lit ''source_refs.checksum''))) (sc_checksum r)) (\<lambda>_.
     validate_document_timestamp (kn_rfc3339 env) (sc_captured_at r) (lit ''source_refs.captured_at''))))))"

definition validate_document_source_refs :: "knowledge_env \<Rightarrow> source_ref list \<Rightarrow> decision_document_error + unit" where
  "validate_document_source_refs env refs = check_all (validate_document_source_ref env) refs"

definition validate_document_frontmatter :: "knowledge_env \<Rightarrow> 'r frontmatter_known_scheme \<Rightarrow> decision_document_error + unit" where
  "validate_document_frontmatter env fm =
     res_bind (validate_document_id (fm_id fm) (lit ''doc'') (lit ''document id'')) (\<lambda>_.
     res_bind (validate_document_id (fm_proposal_id fm) (lit ''prop'') (lit ''document proposal_id'')) (\<lambda>_.
     if fm_target_kind fm \<notin> set [lit ''memory'', lit ''wiki''] then dd_err (lit ''Unsupported decision document target_kind'')
     else if fm_request_source fm \<notin> set [lit ''ai_tool'', lit ''ui_command''] then dd_err (lit ''Unsupported decision document request_source'')
     else if fm_status fm \<notin> set [lit ''pending'', lit ''applied'', lit ''partially_applied'', lit ''needs_revision'', lit ''apply_failed'', lit ''superseded'']
     then dd_err (lit ''Unsupported decision document status'')
     else
       res_bind (validate_document_timestamp (kn_rfc3339 env) (fm_created_at fm) (lit ''created_at'')) (\<lambda>_.
       res_bind (validate_document_timestamp (kn_rfc3339 env) (fm_updated_at fm) (lit ''updated_at'')) (\<lambda>_.
       validate_document_source_refs env (fm_source_refs fm)))))"

definition validate_memory_proposal :: "knowledge_env \<Rightarrow> memory_proposal_block \<Rightarrow> decision_document_error + unit" where
  "validate_memory_proposal env block =
     res_bind (validate_document_id (mb_id block) (lit ''change'') (lit ''memory proposal id'')) (\<lambda>_.
     if mb_operation block \<noteq> lit ''create_memory'' then dd_err (lit ''Unsupported memory proposal operation: '' @ mb_operation block)
     else
       (let memory = mb_memory block
        in res_bind (validate_document_id (mm_id memory) (lit ''mem'') (lit ''proposed memory id'')) (\<lambda>_.
           res_bind (validate_limited (mm_title memory) (lit ''memory title'') (Some MAX_TITLE_CHARS)) (\<lambda>_.
           res_bind (validate_limited (mm_body memory) (lit ''memory body'') None) (\<lambda>_.
           res_bind (optional_check (\<lambda>kind. validate_limited kind (lit ''memory kind'') (Some MAX_KIND_CHARS)) (mm_kind memory)) (\<lambda>_.
           res_bind (check_all (\<lambda>tag. validate_limited tag (lit ''memory tag'') (Some MAX_TAG_CHARS)) (mm_tags memory)) (\<lambda>_.
           validate_document_source_refs env (mm_source_refs memory))))))))"

definition normalize_wiki_proposal_path :: "knowledge_env \<Rightarrow> rstr \<Rightarrow> decision_document_error + rstr" where
  "normalize_wiki_proposal_path env path = as_dd_error (validate_wiki_page_path (kn_nfc env) path (lit ''wiki page path''))"

definition validate_wiki_operation :: "wiki_proposal_block \<Rightarrow> decision_document_error + unit" where
  "validate_wiki_operation block =
     (if wb_operation block = lit ''create_wiki_page'' then
        if pg_expected_checksum (wb_page block) \<noteq> None then dd_err (lit ''Wiki create proposal must not include expected_checksum'')
        else Inr ()
      else if wb_operation block = lit ''update_wiki_page'' then
        case pg_expected_checksum (wb_page block) of
          None \<Rightarrow> dd_err (lit ''Wiki update proposal requires expected_checksum'')
        | Some checksum \<Rightarrow> as_dd_error (validate_sha256_checksum checksum (lit ''wiki expected_checksum''))
      else dd_err (lit ''Unsupported wiki proposal operation: '' @ wb_operation block))"

definition validate_wiki_proposal :: "knowledge_env \<Rightarrow> wiki_proposal_block \<Rightarrow> decision_document_error + unit" where
  "validate_wiki_proposal env block =
     res_bind (validate_document_id (wb_id block) (lit ''change'') (lit ''wiki proposal id'')) (\<lambda>_.
     res_bind (validate_wiki_operation block) (\<lambda>_.
     (let page = wb_page block
      in res_bind (normalize_wiki_proposal_path env (pg_path page)) (\<lambda>_.
         if pg_page_type page \<notin> set [lit ''source'', lit ''concept'', lit ''entity'', lit ''synthesis'']
         then dd_err (lit ''Unsupported wiki page_type: '' @ pg_page_type page)
         else
           res_bind (validate_limited (pg_title page) (lit ''wiki title'') (Some MAX_TITLE_CHARS)) (\<lambda>_.
           res_bind (validate_limited (pg_body page) (lit ''wiki body'') None) (\<lambda>_.
           res_bind (check_all (\<lambda>tag. validate_limited tag (lit ''wiki tag'') (Some MAX_TAG_CHARS)) (pg_tags page)) (\<lambda>_.
           validate_document_source_refs env (pg_source_refs page))))))))"

fun option_ids_loop :: "decision_option_block list \<Rightarrow> rstr list \<Rightarrow> decision_document_error + rstr list" where
  "option_ids_loop [] ids = Inr ids"
| "option_ids_loop (opt # opts) ids =
     res_bind (validate_limited (ob_id opt) (lit ''decision option id'') (Some MAX_ID_CHARS)) (\<lambda>_.
     res_bind (validate_limited (ob_label opt) (lit ''decision option label'') (Some MAX_TITLE_CHARS)) (\<lambda>_.
     if ob_id opt \<in> set ids then dd_err (lit ''Duplicate decision option id: '' @ ob_id opt)
     else option_ids_loop opts (ob_id opt # ids)))"

definition validate_decision_options :: "decision_block \<Rightarrow> decision_document_error + unit" where
  "validate_decision_options block =
     res_bind (option_ids_loop (dn_options block) []) (\<lambda>ids.
     res_bind (check_all (\<lambda>required. if required \<in> set ids then Inr () else dd_err (lit ''Decision is missing required option: '' @ required))
       [lit ''yes'', lit ''no'', lit ''other'']) (\<lambda>_.
     case find (\<lambda>opt. ob_id opt = lit ''other'') (dn_options block) of
       None \<Rightarrow> dd_err (lit ''Decision is missing other option'')
     | Some other \<Rightarrow>
         if ob_requires_input other \<noteq> Some True then dd_err (lit ''Decision other option must require input'') else Inr ()))"

definition validate_selection :: "decision_block \<Rightarrow> rstr \<Rightarrow> decision_document_error + unit" where
  "validate_selection block selected =
     (if \<not> list_ex (\<lambda>opt. ob_id opt = selected) (dn_options block) then dd_err (lit ''Unknown selected option id: '' @ selected)
      else if selected \<notin> set [lit ''yes'', lit ''no'', lit ''other''] then dd_err (lit ''Unsupported selected option id: '' @ selected)
      else Inr ())"

definition validate_decision :: "knowledge_env \<Rightarrow> decision_block \<Rightarrow> rstr \<Rightarrow> decision_document_error + unit" where
  "validate_decision env block document_proposal_id =
     res_bind (validate_document_id (dn_id block) (lit ''decision'') (lit ''decision id'')) (\<lambda>_.
     res_bind (validate_document_id (dn_proposal_id block) (lit ''prop'') (lit ''decision proposal_id'')) (\<lambda>_.
     if dn_proposal_id block \<noteq> document_proposal_id then dd_err (lit ''Decision proposal_id does not match document proposal_id'')
     else
       res_bind (validate_document_id (dn_target_change_id block) (lit ''change'') (lit ''decision target_change_id'')) (\<lambda>_.
       res_bind (validate_limited (dn_question block) (lit ''decision question'') (Some MAX_TITLE_CHARS)) (\<lambda>_.
       if dn_selection_mode block \<noteq> lit ''single'' then dd_err (lit ''Unsupported decision selection_mode'')
       else if \<not> dn_required block then dd_err (lit ''MVP decisions must be required'')
       else if dn_status block \<notin> set [lit ''pending'', lit ''committed'', lit ''rejected'', lit ''needs_revision'']
       then dd_err (lit ''Unsupported decision status'')
       else
         res_bind (validate_decision_options block) (\<lambda>_.
         res_bind (optional_check (validate_selection block) (dn_selected_option_id block)) (\<lambda>_.
         optional_check (\<lambda>t. validate_document_timestamp (kn_rfc3339 env) t (lit ''resolved_at'')) (dn_resolved_at block)))))))"

section \<open>Integrity\<close>

definition memory_path_for_id :: "rstr \<Rightarrow> rstr" where
  "memory_path_for_id memory_id = lit ''Knowledge/memory/'' @ memory_id @ lit ''.md''"

definition memory_proposal_step ::
  "knowledge_env \<Rightarrow> memory_proposal_block parsed_block \<Rightarrow> (rstr \<times> memory_proposal_block) list \<times> rstr list \<Rightarrow>
    decision_document_error + (rstr \<times> memory_proposal_block) list \<times> rstr list" where
  "memory_proposal_step env proposal = (\<lambda>(by_id, memory_ids).
     let block = pb_value proposal
     in if pb_span proposal = None then dd_err (lit ''Memory proposal block is missing byte span data'')
        else
          res_bind (validate_memory_proposal env block) (\<lambda>_.
          if bt_get by_id (mb_id block) \<noteq> None then dd_err (lit ''Duplicate memory proposal id: '' @ mb_id block)
          else if mm_id (mb_memory block) \<in> set memory_ids then dd_err (lit ''Duplicate proposed memory id: '' @ mm_id (mb_memory block))
          else Inr (bt_insert (mb_id block) block by_id, mm_id (mb_memory block) # memory_ids)))"

definition wiki_proposal_step ::
  "knowledge_env \<Rightarrow> wiki_proposal_block parsed_block \<Rightarrow> (rstr \<times> wiki_proposal_block) list \<times> rstr list \<Rightarrow>
    decision_document_error + (rstr \<times> wiki_proposal_block) list \<times> rstr list" where
  "wiki_proposal_step env proposal = (\<lambda>(by_id, paths).
     let block = pb_value proposal
     in if pb_span proposal = None then dd_err (lit ''Wiki proposal block is missing byte span data'')
        else
          res_bind (validate_wiki_proposal env block) (\<lambda>_.
          if bt_get by_id (wb_id block) \<noteq> None then dd_err (lit ''Duplicate wiki proposal id: '' @ wb_id block)
          else
            res_bind (normalize_wiki_proposal_path env (pg_path (wb_page block))) (\<lambda>path.
            if path \<in> set paths then dd_err (lit ''Duplicate proposed wiki path: '' @ path)
            else Inr (bt_insert (wb_id block) block by_id, path # paths))))"

text \<open>The state of the loop over the decisions, which is the same for both kinds of documents.\<close>

record integrity_state =
  is_decision_ids :: "rstr list"
  is_counts :: "(rstr \<times> nat) list"
  is_yes_paths :: "rstr list"

definition decision_step ::
  "knowledge_env \<Rightarrow> rstr \<Rightarrow> rstr \<Rightarrow> ('p \<Rightarrow> decision_document_error + rstr) \<Rightarrow> ('p \<Rightarrow> rstr \<Rightarrow> decision_document_error + unit) \<Rightarrow>
    (rstr \<times> 'p) list \<Rightarrow> decision_block parsed_block \<Rightarrow> integrity_state \<Rightarrow> decision_document_error + integrity_state" where
  "decision_step env kind proposal_id path_of check by_id decision st =
     (let block = pb_value decision
      in if pb_span decision = None then dd_err (lit ''Decision block is missing byte span data'')
         else
           res_bind (validate_decision env block proposal_id) (\<lambda>_.
           if dn_id block \<in> set (is_decision_ids st) then dd_err (lit ''Duplicate decision id: '' @ dn_id block)
           else
             case bt_get by_id (dn_target_change_id block) of
               None \<Rightarrow> dd_err (lit ''Decision target_change_id has no matching proposal: '' @ dn_target_change_id block)
             | Some proposal \<Rightarrow>
                 let target = dn_target_change_id block;
                     n = (case bt_get (is_counts st) target of None \<Rightarrow> 0 | Some n \<Rightarrow> n);
                     st = st\<lparr>is_decision_ids := dn_id block # is_decision_ids st, is_counts := bt_insert target (n + 1) (is_counts st)\<rparr>
                 in if dn_selected_option_id block = Some (lit ''yes'') then
                      res_bind (path_of proposal) (\<lambda>path.
                      if path \<in> set (is_yes_paths st) then dd_err (lit ''Duplicate yes '' @ kind @ lit '' output path: '' @ path)
                      else res_bind (check proposal path) (\<lambda>_. Inr (st\<lparr>is_yes_paths := is_yes_paths st @ [path]\<rparr>)))
                    else Inr st))"

definition check_counts :: "(rstr \<times> nat) list \<Rightarrow> rstr list \<Rightarrow> decision_document_error + unit" where
  "check_counts counts ids =
     check_all (\<lambda>proposal_id.
       case bt_get counts proposal_id of
         None \<Rightarrow> dd_err (lit ''Proposal has no matching decision: '' @ proposal_id)
       | Some n \<Rightarrow>
           if n = 1 then Inr () else if n = 0 then dd_err (lit ''Proposal has no matching decision: '' @ proposal_id)
           else dd_err (lit ''Proposal has more than one matching decision: '' @ proposal_id)) ids"

text \<open>\<open>root\<close>: whether a path below the vault exists, when that is to be checked.\<close>

definition memory_output_check :: "(rstr \<Rightarrow> bool) option \<Rightarrow> memory_proposal_block \<Rightarrow> rstr \<Rightarrow> decision_document_error + unit" where
  "memory_output_check root proposal path =
     (case root of
        None \<Rightarrow> Inr ()
      | Some exists \<Rightarrow> if exists path then dd_err (lit ''Memory output path already exists: '' @ path) else Inr ())"

definition wiki_output_check :: "(rstr \<Rightarrow> bool) option \<Rightarrow> wiki_proposal_block \<Rightarrow> rstr \<Rightarrow> decision_document_error + unit" where
  "wiki_output_check root proposal path =
     (case root of
        None \<Rightarrow> Inr ()
      | Some exists \<Rightarrow>
          if wb_operation proposal = lit ''create_wiki_page'' \<and> exists path then dd_err (lit ''Wiki output path already exists: '' @ path)
          else if wb_operation proposal = lit ''update_wiki_page'' \<and> \<not> exists path then dd_err (lit ''Wiki update path does not exist: '' @ path)
          else Inr ())"

definition validate_memory_decision_document_integrity ::
  "knowledge_env \<Rightarrow> 'raw parsed_decision_document \<Rightarrow> (rstr \<Rightarrow> bool) option \<Rightarrow> decision_document_error + decision_document_integrity" where
  "validate_memory_decision_document_integrity env document root =
     (let fm = pd_frontmatter document; proposals = proposal_blocks (pd_blocks document); decisions = decision_blocks (pd_blocks document)
      in if wiki_proposal_blocks (pd_blocks document) \<noteq> [] then dd_err (lit ''Memory decision document cannot contain wiki proposal blocks'')
         else if proposals = [] then dd_err (lit ''Decision document has no memory proposal blocks'')
         else if decisions = [] then dd_err (lit ''Decision document has no decision blocks'')
         else
           res_bind (res_fold (memory_proposal_step env) proposals ([], [])) (\<lambda>(by_id, _).
           res_bind (res_fold (decision_step env (lit ''memory'') (fm_proposal_id fm) (\<lambda>p. Inr (memory_path_for_id (mm_id (mb_memory p))))
               (memory_output_check root) by_id) decisions \<lparr>is_decision_ids = [], is_counts = [], is_yes_paths = []\<rparr>) (\<lambda>st.
           res_bind (check_counts (is_counts st) (map fst by_id)) (\<lambda>_.
           Inr \<lparr>ig_doc_id = fm_id fm, ig_proposal_id = fm_proposal_id fm, ig_yes_memory_paths = is_yes_paths st, ig_yes_wiki_paths = []\<rparr>))))"

definition validate_wiki_decision_document_integrity ::
  "knowledge_env \<Rightarrow> 'raw parsed_decision_document \<Rightarrow> (rstr \<Rightarrow> bool) option \<Rightarrow> decision_document_error + decision_document_integrity" where
  "validate_wiki_decision_document_integrity env document root =
     (let fm = pd_frontmatter document; proposals = wiki_proposal_blocks (pd_blocks document); decisions = decision_blocks (pd_blocks document)
      in if proposal_blocks (pd_blocks document) \<noteq> [] then dd_err (lit ''Wiki decision document cannot contain memory proposal blocks'')
         else if proposals = [] then dd_err (lit ''Decision document has no wiki proposal blocks'')
         else if decisions = [] then dd_err (lit ''Decision document has no decision blocks'')
         else
           res_bind (res_fold (wiki_proposal_step env) proposals ([], [])) (\<lambda>(by_id, _).
           res_bind (res_fold (decision_step env (lit ''wiki'') (fm_proposal_id fm) (\<lambda>p. normalize_wiki_proposal_path env (pg_path (wb_page p)))
               (wiki_output_check root) by_id) decisions \<lparr>is_decision_ids = [], is_counts = [], is_yes_paths = []\<rparr>) (\<lambda>st.
           res_bind (check_counts (is_counts st) (map fst by_id)) (\<lambda>_.
           Inr \<lparr>ig_doc_id = fm_id fm, ig_proposal_id = fm_proposal_id fm, ig_yes_memory_paths = [], ig_yes_wiki_paths = is_yes_paths st\<rparr>))))"

definition validate_decision_document_integrity ::
  "knowledge_env \<Rightarrow> 'raw parsed_decision_document \<Rightarrow> (rstr \<Rightarrow> bool) option \<Rightarrow> decision_document_error + decision_document_integrity" where
  "validate_decision_document_integrity env document root =
     res_bind (validate_document_frontmatter env (pd_frontmatter document)) (\<lambda>_.
     if fm_target_kind (pd_frontmatter document) = lit ''memory'' then validate_memory_decision_document_integrity env document root
     else if fm_target_kind (pd_frontmatter document) = lit ''wiki'' then validate_wiki_decision_document_integrity env document root
     else dd_err (lit ''Unsupported decision document target_kind''))"

section \<open>What a block looks like\<close>

text \<open>
  The form of a block without reference to the scanner: a line with at least three backquotes or tildes and the name of the kind, the
  lines of the payload, and the first line that closes it.
\<close>

abbreviation text_lines :: "rstr list \<Rightarrow> rstr" where
  "text_lines ls \<equiv> concat (map (\<lambda>w. w @ [10]) ls)"

definition fence_line :: "rchar \<Rightarrow> nat \<Rightarrow> rstr \<Rightarrow> rstr \<Rightarrow> bool" where
  "fence_line marker n info line \<longleftrightarrow>
     (\<exists>k\<le>3. line = replicate k 32 @ replicate n marker @ info \<and> (info = [] \<or> hd info \<noteq> marker))"

definition closes :: "rchar \<Rightarrow> nat \<Rightarrow> rstr \<Rightarrow> bool" where
  "closes marker n line \<longleftrightarrow> (\<exists>m\<ge>n. \<exists>blank. fence_line marker m blank line \<and> (\<forall>c\<in>set blank. is_whitespace c))"

definition first_word :: "rstr \<Rightarrow> rstr \<Rightarrow> bool" where
  "first_word word s \<longleftrightarrow> (\<exists>blank after. s = blank @ word @ after \<and> (\<forall>c\<in>set blank. is_whitespace c) \<and> (after = [] \<or> is_whitespace (hd after)))"

fun kuku_name :: "kuku_kind \<Rightarrow> rstr" where
  "kuku_name KukuMemoryProposal = lit ''kuku-memory-proposal''"
| "kuku_name KukuWikiProposal = lit ''kuku-wiki-proposal''"
| "kuku_name KukuDecision = lit ''kuku-decision''"

text \<open>\<open>after\<close> is what follows the block: only at the end of a document may the line break behind the closing line be missing.\<close>

definition kuku_fenced :: "'raw kuku_env \<Rightarrow> rstr \<Rightarrow> parsed_kuku_block \<Rightarrow> rstr \<Rightarrow> bool" where
  "kuku_fenced env b block after \<longleftrightarrow>
     (\<exists>kind marker n info first body closing nl span.
        b = first @ 10 # text_lines body @ closing @ nl \<and> 10 \<notin> set first \<and> 10 \<notin> set closing \<and> list_all (\<lambda>l. 10 \<notin> set l) body \<and>
        (nl = [10] \<or> nl = [] \<and> after = []) \<and>
        fence_line marker n info first \<and> marker \<in> {96, 126} \<and> 3 \<le> n \<and> first_word (kuku_name kind) info \<and>
        closes marker n closing \<and> list_all (\<lambda>l. \<not> closes marker n l) body \<and>
        parse_kuku_block env kind span (text_lines body) = Inr block)"

lemma marker_split: "s = replicate (length (takeWhile (\<lambda>c. c = marker) s)) marker @ drop (length (takeWhile (\<lambda>c. c = marker) s)) s \<and>
    (drop (length (takeWhile (\<lambda>c. c = marker) s)) s = [] \<or> hd (drop (length (takeWhile (\<lambda>c. c = marker) s)) s) \<noteq> marker)"
  by (induction s) auto

lemma fence_indent_split: "line = replicate (fence_indent line) 32 @ drop (fence_indent line) line"
  using marker_split[of line 32] unfolding fence_indent_def by blast

lemma indent_fence:
  assumes "marker \<noteq> 32" "0 < m"
  shows "fence_indent (replicate k 32 @ replicate m marker @ info) = k"
  using assms by (simp add: fence_indent_def takeWhile_append takeWhile_replicate)

lemma closes_iff:
  assumes "marker \<in> {96, 126}" "0 < n"
  shows "is_closing_fence line marker n \<longleftrightarrow> closes marker n line"
proof
  let ?s = "drop (fence_indent line) line" and ?m = "length (takeWhile (\<lambda>c. c = marker) (drop (fence_indent line) line))"
  assume "is_closing_fence line marker n"
  then have "fence_indent line \<le> 3" "n \<le> ?m" "\<forall>c\<in>set (drop ?m ?s). is_whitespace c"
    by (auto simp: is_closing_fence_def Let_def str_trim_blank split: if_splits)
  moreover have "fence_line marker ?m (drop ?m ?s) line"
    unfolding fence_line_def using calculation(1) fence_indent_split[of line] marker_split[of ?s marker] by metis
  ultimately show "closes marker n line" unfolding closes_def by blast
next
  assume "closes marker n line"
  then obtain m blank k where l: "n \<le> m" "\<forall>c\<in>set blank. is_whitespace c" "k \<le> 3" "line = replicate k 32 @ replicate m marker @ blank"
      "blank = [] \<or> hd blank \<noteq> marker"
    unfolding closes_def fence_line_def by blast
  then have "fence_indent line = k" using indent_fence[of marker m k blank] assms by auto
  moreover have "takeWhile (\<lambda>c. c = marker) (replicate m marker @ blank) = replicate m marker"
    using l(5) by (cases blank) (auto simp: takeWhile_append)
  ultimately show "is_closing_fence line marker n" using l by (simp add: is_closing_fence_def Let_def str_trim_blank)
qed

lemma opening_fence_line:
  assumes "parse_opening_fence line = Some opn"
  shows "\<exists>info. fence_line (of_marker opn) (of_len opn) info line \<and> of_marker opn \<in> {96, 126} \<and> 3 \<le> of_len opn \<and> of_info opn = str_trim info"
proof -
  let ?s = "drop (fence_indent line) line"
  obtain marker s where s: "?s = marker # s" "fence_indent line \<le> 3" "marker \<in> {96, 126}"
      "opn = \<lparr>of_marker = marker, of_len = length (takeWhile (\<lambda>c. c = marker) ?s), of_info = str_trim (drop (length (takeWhile (\<lambda>c. c = marker) ?s)) ?s)\<rparr>"
      "3 \<le> of_len opn"
    using assms by (auto simp: parse_opening_fence_def Let_def split: if_splits list.splits)
  then have "fence_line marker (of_len opn) (drop (of_len opn) ?s) line"
    unfolding fence_line_def using fence_indent_split[of line] marker_split[of ?s marker] by (metis opening_fence.select_convs(2))
  then show ?thesis using s by auto
qed

lemma trim_split: "\<exists>a b. s = a @ str_trim s @ b \<and> (\<forall>c\<in>set a. is_whitespace c) \<and> (\<forall>c\<in>set b. is_whitespace c)"
proof -
  let ?d = "dropWhile is_whitespace s"
  have "s = takeWhile is_whitespace s @ str_trim s @ rev (takeWhile is_whitespace (rev ?d))"
    unfolding str_trim_def by (metis append.assoc rev_append rev_rev_ident takeWhile_dropWhile_id)
  moreover have "\<forall>c\<in>set (takeWhile is_whitespace s). is_whitespace c" "\<forall>c\<in>set (rev (takeWhile is_whitespace (rev ?d))). is_whitespace c"
    by (auto dest: set_takeWhileD)
  ultimately show ?thesis by blast
qed

lemma language_first_word:
  assumes "kuku_language (str_trim info) = Some kind"
  shows "first_word (kuku_name kind) info"
proof -
  let ?x = "dropWhile is_whitespace (str_trim info)"
  obtain a b where ab: "info = a @ str_trim info @ b" "\<forall>c\<in>set a. is_whitespace c" "\<forall>c\<in>set b. is_whitespace c" using trim_split by blast
  have word: "takeWhile (\<lambda>c. \<not> is_whitespace c) ?x = kuku_name kind"
    using assms by (cases kind) (auto simp: kuku_language_def Let_def split: if_splits simp del: lit_simps)
  let ?after = "dropWhile (\<lambda>c. \<not> is_whitespace c) ?x"
  have "str_trim info = takeWhile is_whitespace (str_trim info) @ kuku_name kind @ ?after"
    using word by (metis takeWhile_dropWhile_id)
  then have "info = (a @ takeWhile is_whitespace (str_trim info)) @ kuku_name kind @ (?after @ b)" using ab(1) by (metis append.assoc)
  moreover have "?after @ b = [] \<or> is_whitespace (hd (?after @ b))"
  proof (cases "?after = []")
    case True
    then show ?thesis using ab(3) by (cases b) (simp_all del: dropWhile_eq_Nil_conv)
  next
    case False
    then show ?thesis using hd_dropWhile[of "\<lambda>c. \<not> is_whitespace c" ?x] by simp
  qed
  moreover have "\<forall>c\<in>set (a @ takeWhile is_whitespace (str_trim info)). is_whitespace c" using ab(2) by (auto dest: set_takeWhileD)
  ultimately show ?thesis unfolding first_word_def by blast
qed

section \<open>Only blocks are replaced\<close>

lemma split_bytes_append [simp]: "split_bytes (byte_len a) (a @ b) = (a, b)"
proof (induction a)
  case Nil
  show ?case by (cases b) (simp_all add: byte_len_simps)
next
  case (Cons c a)
  have "0 < length (utf8_char c)" using utf8_char_not_Nil by simp
  then show ?case using Cons by (simp add: byte_len_simps)
qed

lemma split_bytes_0 [simp]: "split_bytes 0 s = ([], s)"
  by (cases s) simp_all

lemma byte_slice_middle: "byte_slice (a @ b @ c) (byte_len a) (byte_len a + byte_len b) = b"
  by (simp add: byte_slice_def)

lemma line_at_simps:
  "10 \<notin> set w \<Longrightarrow> markdown_line_at (w @ 10 # t) start = (\<lparr>ln_text = w, ln_start = start, ln_end = start + byte_len w + 1\<rparr>, t)"
  "10 \<notin> set w \<Longrightarrow> markdown_line_at w start = (\<lparr>ln_text = w, ln_start = start, ln_end = start + byte_len w\<rparr>, [])"
proof -
  assume w: "10 \<notin> set w"
  then have d: "takeWhile (\<lambda>c. c \<noteq> 10) w = w" "dropWhile (\<lambda>c. c \<noteq> 10) w = []" by (auto simp: takeWhile_eq_all_conv dropWhile_eq_Nil_conv)
  then show "markdown_line_at w start = (\<lparr>ln_text = w, ln_start = start, ln_end = start + byte_len w\<rparr>, [])"
    unfolding markdown_line_at_def Let_def d by simp
  have "takeWhile (\<lambda>c. c \<noteq> 10) (w @ 10 # t) = w" "dropWhile (\<lambda>c. c \<noteq> 10) (w @ 10 # t) = 10 # t"
    using d by (simp_all add: takeWhile_append dropWhile_append w)
  then show "markdown_line_at (w @ 10 # t) start = (\<lparr>ln_text = w, ln_start = start, ln_end = start + byte_len w + 1\<rparr>, t)"
    by (simp add: markdown_line_at_def)
qed

lemma line_cases:
  obtains (last) "10 \<notin> set s" | (line) w t where "10 \<notin> set w" "s = w @ 10 # t"
  using split_list_first[of 10 s] by blast

lemma byte_len_newline [simp]: "length (utf8_char 10) = 1"
  by (simp add: utf8_char_def)

lemma line_at_split:
  assumes "markdown_line_at s start = (l, after)"
  shows "\<exists>nl. s = ln_text l @ nl @ after \<and> 10 \<notin> set (ln_text l) \<and> (nl = [10] \<or> nl = [] \<and> after = []) \<and>
    ln_start l = start \<and> ln_end l = start + byte_len (ln_text l @ nl)"
proof (cases s rule: line_cases)
  case last
  then show ?thesis using assms by (auto simp: line_at_simps)
next
  case (line w t)
  then show ?thesis using assms by (intro exI[of _ "[10]"]) (auto simp: line_at_simps)
qed

lemma find_closing_fence_Nil [simp]: "find_closing_fence [] start marker n = None"
  by (simp add: find_closing_fence.simps)

lemma find_closing_fence_step:
  "s \<noteq> [] \<Longrightarrow> markdown_line_at s start = (line, after) \<Longrightarrow> find_closing_fence s start marker n =
     (if is_closing_fence (ln_text line) marker n then Some (line, after) else find_closing_fence after (ln_end line) marker n)"
  by (simp add: find_closing_fence.simps[of s])

lemma find_closing_fence_split:
  "find_closing_fence s start marker n = Some (l, after) \<Longrightarrow>
    \<exists>body nl. s = text_lines body @ ln_text l @ nl @ after \<and> list_all (\<lambda>w. 10 \<notin> set w \<and> \<not> is_closing_fence w marker n) body \<and>
      10 \<notin> set (ln_text l) \<and> is_closing_fence (ln_text l) marker n \<and> (nl = [10] \<or> nl = [] \<and> after = []) \<and>
      ln_start l = start + byte_len (text_lines body) \<and> ln_end l = ln_start l + byte_len (ln_text l @ nl)"
proof (induction s start marker n rule: find_closing_fence.induct)
  case (1 s start marker n)
  obtain line t where l: "markdown_line_at s start = (line, t)" by (cases "markdown_line_at s start")
  obtain nl where w: "s = ln_text line @ nl @ t" "10 \<notin> set (ln_text line)" "nl = [10] \<or> nl = [] \<and> t = []"
      "ln_start line = start" "ln_end line = start + byte_len (ln_text line @ nl)" using line_at_split[OF l] by blast
  have s: "s \<noteq> []" using 1(2) by auto
  note step = find_closing_fence_step[OF s l, of marker n]
  show ?case
  proof (cases "is_closing_fence (ln_text line) marker n")
    case True
    then have "l = line" "after = t" using 1(2) step by auto
    then show ?thesis using w True by (intro exI[of _ "[]"] exI[of _ nl]) simp
  next
    case False
    then have f: "find_closing_fence t (ln_end line) marker n = Some (l, after)" using 1(2) step by simp
    then have "nl = [10]" using w(3) by auto
    moreover from 1(1)[OF s l[symmetric] refl False f] obtain body nl' where
        "t = text_lines body @ ln_text l @ nl' @ after" "list_all (\<lambda>w. 10 \<notin> set w \<and> \<not> is_closing_fence w marker n) body"
        "10 \<notin> set (ln_text l)" "is_closing_fence (ln_text l) marker n" "nl' = [10] \<or> nl' = [] \<and> after = []"
        "ln_start l = ln_end line + byte_len (text_lines body)" "ln_end l = ln_start l + byte_len (ln_text l @ nl')" by blast
    ultimately show ?thesis using w False by (intro exI[of _ "ln_text line # body"] exI[of _ nl']) simp
  qed
qed

text \<open>Blocks with the text in front of each, from a position on.\<close>

fun blocks_at :: "nat \<Rightarrow> (rstr \<times> rstr \<times> parsed_kuku_block) list \<Rightarrow> bool" where
  "blocks_at start [] = True"
| "blocks_at start ((t, b, block) # ps) =
     (map_option ks_full (block_span block) = Some \<lparr>br_start = start + byte_len t, br_end = start + byte_len t + byte_len b\<rparr> \<and>
      blocks_at (start + byte_len t + byte_len b) ps)"

abbreviation pieces_text :: "(rstr \<times> rstr \<times> parsed_kuku_block) list \<Rightarrow> rstr" where
  "pieces_text ps \<equiv> concat (map (\<lambda>(t, b, _). t @ b) ps)"

lemma parse_kuku_block_span: "parse_kuku_block env language span payload = Inr block \<Longrightarrow> block_span block = Some span"
  by (auto simp: parse_kuku_block_def res_bind_eq_Inr split: kuku_kind.splits)

fun fenced_pieces :: "'raw kuku_env \<Rightarrow> (rstr \<times> rstr \<times> parsed_kuku_block) list \<Rightarrow> rstr \<Rightarrow> bool" where
  "fenced_pieces env [] tail = True"
| "fenced_pieces env ((_, b, block) # ps) tail = (kuku_fenced env b block (pieces_text ps @ tail) \<and> fenced_pieces env ps tail)"

definition cut_at :: "'raw kuku_env \<Rightarrow> nat \<Rightarrow> rstr \<Rightarrow> parsed_kuku_block list \<Rightarrow> bool" where
  "cut_at env start s blocks \<longleftrightarrow>
     (\<exists>ps tail. blocks = map (snd \<circ> snd) ps \<and> s = pieces_text ps @ tail \<and> blocks_at start ps \<and> fenced_pieces env ps tail)"

lemma cut_at_text: "cut_at env (start + byte_len w) s blocks \<Longrightarrow> cut_at env start (w @ s) blocks"
proof -
  assume "cut_at env (start + byte_len w) s blocks"
  then obtain ps tail where ps: "blocks = map (snd \<circ> snd) ps" "s = pieces_text ps @ tail" "blocks_at (start + byte_len w) ps" "fenced_pieces env ps tail"
    unfolding cut_at_def by blast
  show ?thesis
  proof (cases ps)
    case Nil
    then show ?thesis using ps unfolding cut_at_def by (intro exI[of _ "[]"] exI[of _ "w @ s"]) auto
  next
    case (Cons p qs)
    obtain t b block where "p = (t, b, block)" by (cases p)
    then show ?thesis using ps Cons unfolding cut_at_def
      by (intro exI[of _ "(w @ t, b, block) # qs"] exI[of _ tail]) (auto simp: byte_len_simps add.assoc)
  qed
qed

lemma cut_at_block:
  assumes "cut_at env (start + byte_len b) s blocks" "kuku_fenced env b block s"
    "map_option ks_full (block_span block) = Some \<lparr>br_start = start, br_end = start + byte_len b\<rparr>"
  shows "cut_at env start (b @ s) (block # blocks)"
proof -
  obtain ps tail where ps: "blocks = map (snd \<circ> snd) ps" "s = pieces_text ps @ tail" "blocks_at (start + byte_len b) ps" "fenced_pieces env ps tail"
    using assms(1) unfolding cut_at_def by blast
  then show ?thesis using assms(2,3) unfolding cut_at_def
    by (intro exI[of _ "([], b, block) # ps"] exI[of _ tail]) (auto simp: byte_len_simps)
qed

lemma kuku_loop_Nil [simp]: "kuku_loop env [] start blocks = Inr blocks"
  by (simp add: kuku_loop.simps)

lemma kuku_loop_step:
  "s \<noteq> [] \<Longrightarrow> markdown_line_at s start = (line, after) \<Longrightarrow> kuku_loop env s start blocks =
     (case parse_opening_fence (ln_text line) of
        None \<Rightarrow> kuku_loop env after (ln_end line) blocks
      | Some opening \<Rightarrow>
          (case kuku_language (of_info opening) of
             None \<Rightarrow>
               (case find_closing_fence after (ln_end line) (of_marker opening) (of_len opening) of
                  Some (closing, behind) \<Rightarrow> kuku_loop env behind (ln_end closing) blocks
                | None \<Rightarrow> kuku_loop env after (ln_end line) blocks)
           | Some language \<Rightarrow>
               (case find_closing_fence after (ln_end line) (of_marker opening) (of_len opening) of
                  None \<Rightarrow> dd_err (lit ''Kuku fenced block is missing closing fence'')
                | Some (closing, behind) \<Rightarrow>
                    if ln_start closing - ln_end line > MAX_KUKU_PAYLOAD_BYTES
                    then dd_err (lit ''Kuku fenced block payload exceeds maximum size'')
                    else
                      (case parse_kuku_block env language (make_span line closing)
                              (fst (split_bytes (ln_start closing - ln_end line) after)) of
                         Inl e \<Rightarrow> Inl e
                       | Inr block \<Rightarrow>
                           (case check_block_limits (blocks @ [block]) of
                              Inl e \<Rightarrow> Inl e
                            | Inr _ \<Rightarrow> kuku_loop env behind (ln_end closing) (blocks @ [block]))))))"
  unfolding kuku_loop.simps[of env s] Let_def by simp

lemma kuku_loop_block_Inr:
  assumes "s \<noteq> []" "markdown_line_at s start = (line, after)" "parse_opening_fence (ln_text line) = Some opn"
    "find_closing_fence after (ln_end line) (of_marker opn) (of_len opn) = Some (closing, behind)" "kuku_loop env s start blocks = Inr res"
  shows "kuku_loop env behind (ln_end closing) blocks = Inr res \<or>
    (\<exists>kind block. kuku_language (of_info opn) = Some kind \<and>
       parse_kuku_block env kind (make_span line closing) (fst (split_bytes (ln_start closing - ln_end line) after)) = Inr block \<and>
       kuku_loop env behind (ln_end closing) (blocks @ [block]) = Inr res)"
  using kuku_loop_step[OF assms(1,2), of env blocks] assms(3-5) by (auto split: option.splits sum.splits if_splits)

lemma scanned_block:
  assumes line: "markdown_line_at s start = (line, after)" and opn: "parse_opening_fence (ln_text line) = Some opn"
    and closing: "find_closing_fence after (ln_end line) (of_marker opn) (of_len opn) = Some (closing, behind)"
    and kind: "kuku_language (of_info opn) = Some kind"
    and block: "parse_kuku_block env kind (make_span line closing) (fst (split_bytes (ln_start closing - ln_end line) after)) = Inr block"
  shows "\<exists>b. s = b @ behind \<and> ln_end closing = start + byte_len b \<and> kuku_fenced env b block behind \<and>
    map_option ks_full (block_span block) = Some \<lparr>br_start = start, br_end = start + byte_len b\<rparr>"
proof -
  obtain nl where w: "s = ln_text line @ nl @ after" "10 \<notin> set (ln_text line)" "nl = [10] \<or> nl = [] \<and> after = []"
      "ln_start line = start" "ln_end line = start + byte_len (ln_text line @ nl)" using line_at_split[OF line] by blast
  obtain body nl' where c: "after = text_lines body @ ln_text closing @ nl' @ behind"
      "list_all (\<lambda>w. 10 \<notin> set w \<and> \<not> is_closing_fence w (of_marker opn) (of_len opn)) body" "10 \<notin> set (ln_text closing)"
      "is_closing_fence (ln_text closing) (of_marker opn) (of_len opn)" "nl' = [10] \<or> nl' = [] \<and> behind = []"
      "ln_start closing = ln_end line + byte_len (text_lines body)" "ln_end closing = ln_start closing + byte_len (ln_text closing @ nl')"
    using find_closing_fence_split[OF closing] by blast
  have nl: "nl = [10]" using w(3) closing by auto
  obtain info where info: "fence_line (of_marker opn) (of_len opn) info (ln_text line)" "of_marker opn \<in> {96, 126}" "3 \<le> of_len opn"
      "of_info opn = str_trim info" using opening_fence_line[OF opn] by blast
  let ?b = "ln_text line @ 10 # text_lines body @ ln_text closing @ nl'"
  have iff: "is_closing_fence w (of_marker opn) (of_len opn) \<longleftrightarrow> closes (of_marker opn) (of_len opn) w" for w
    using closes_iff[OF info(2)] info(3) by simp
  have "fst (split_bytes (ln_start closing - ln_end line) after) = text_lines body" using c(1,6) by simp
  then have "parse_kuku_block env kind (make_span line closing) (text_lines body) = Inr block" using block by simp
  moreover have "first_word (kuku_name kind) info" using language_first_word kind info(4) by simp
  ultimately have "kuku_fenced env ?b block behind"
    using w(2) c(2-5) info(1-3) unfolding kuku_fenced_def iff list_all_iff by blast
  moreover have "ln_end closing = start + byte_len ?b" using w(5) c(6,7) nl by (simp add: add.assoc)
  moreover have "block_span block = Some (make_span line closing)" using block by (rule parse_kuku_block_span)
  ultimately show ?thesis using w(1,4) c(1) nl by (intro exI[of _ ?b]) (simp add: make_span_def)
qed

lemma kuku_loop_cut:
  "kuku_loop env s start blocks = Inr res \<Longrightarrow> \<exists>new. res = blocks @ new \<and> cut_at env start s new"
proof (induction "length s" arbitrary: s start blocks rule: less_induct)
  case less
  show ?case
  proof (cases "s = []")
    case True
    then show ?thesis using less(2) by (auto simp: cut_at_def intro!: exI[of _ "[]"])
  next
    case False
    obtain line after where l: "markdown_line_at s start = (line, after)" by (cases "markdown_line_at s start")
    obtain w where w: "s = w @ after" "ln_end line = start + byte_len w" using line_at_split[OF l] by (metis append.assoc)
    note step = kuku_loop_step[OF False l, of env blocks] and shorter = line_at_shorter[OF l False]
    have skip: ?thesis if "kuku_loop env after (ln_end line) blocks = Inr res"
      using less(1)[OF shorter that] cut_at_text w by metis
    show ?thesis
    proof (cases "parse_opening_fence (ln_text line)")
      case None
      then show ?thesis using less(2) step skip by simp
    next
      case opn: (Some opn)
      show ?thesis
      proof (cases "find_closing_fence after (ln_end line) (of_marker opn) (of_len opn)")
        case None
        then show ?thesis using less(2) step skip opn by (cases "kuku_language (of_info opn)") auto
      next
        case (Some found)
        then obtain closing behind where f: "find_closing_fence after (ln_end line) (of_marker opn) (of_len opn) = Some (closing, behind)"
          by (cases found) auto
        have shorter': "length behind < length s" using find_closing_fence_shorter[OF f] shorter by simp
        from kuku_loop_block_Inr[OF False l opn f less(2)] show ?thesis
        proof (elim disjE exE conjE)
          assume run: "kuku_loop env behind (ln_end closing) blocks = Inr res"
          obtain body nl where c: "after = text_lines body @ ln_text closing @ nl @ behind"
              "ln_start closing = ln_end line + byte_len (text_lines body)" "ln_end closing = ln_start closing + byte_len (ln_text closing @ nl)"
            using find_closing_fence_split[OF f] by blast
          let ?v = "w @ text_lines body @ ln_text closing @ nl"
          have v: "s = ?v @ behind" "ln_end closing = start + byte_len ?v" using w c by (simp_all add: add.assoc)
          from less(1)[OF shorter' run] obtain new where n: "res = blocks @ new" "cut_at env (ln_end closing) behind new" by blast
          have "cut_at env start s new" unfolding v(1) by (rule cut_at_text) (use n(2) v(2) in simp)
          then show ?thesis using n(1) by blast
        next
          fix kind block
          assume b: "kuku_language (of_info opn) = Some kind" "kuku_loop env behind (ln_end closing) (blocks @ [block]) = Inr res"
            "parse_kuku_block env kind (make_span line closing) (fst (split_bytes (ln_start closing - ln_end line) after)) = Inr block"
          from less(1)[OF shorter' b(2)] obtain new where n: "res = (blocks @ [block]) @ new" "cut_at env (ln_end closing) behind new" by blast
          from scanned_block[OF l opn f b(1,3)] obtain v where v: "s = v @ behind" "ln_end closing = start + byte_len v"
              "kuku_fenced env v block behind" "map_option ks_full (block_span block) = Some \<lparr>br_start = start, br_end = start + byte_len v\<rparr>" by blast
          have "cut_at env start s (block # new)" unfolding v(1) by (rule cut_at_block[OF _ v(3,4)]) (use n(2) v(2) in simp)
          then show ?thesis using n(1) by auto
        qed
      qed
    qed
  qed
qed

text \<open>Replacing the blocks keeps the text between them.\<close>

definition replace_pieces :: "(parsed_kuku_block \<Rightarrow> rstr) \<Rightarrow> (rstr \<times> rstr \<times> parsed_kuku_block) list \<Rightarrow> rstr" where
  "replace_pieces f ps = concat (map (\<lambda>(t, _, block). t @ f block) ps)"

lemma replace_ranges_pieces:
  assumes "blocks_at (byte_len pre) ps" "length new = length ps"
    "map fst new = map (\<lambda>(_, _, block). ks_full (the (block_span block))) ps"
  shows "replace_ranges (pre @ pieces_text ps @ tail) (byte_len pre) out new =
    Inr (out @ concat (map2 (\<lambda>p n. fst p @ snd n) ps new) @ tail)"
  using assms
proof (induction ps arbitrary: pre out new)
  case Nil
  have "byte_slice (pre @ tail) (byte_len pre) (byte_len (pre @ tail)) = tail"
    using byte_slice_middle[of pre tail "[]"] by simp
  then show ?case using Nil by simp
next
  case (Cons p ps)
  obtain t b block where p: "p = (t, b, block)" by (cases p)
  obtain rng r new' where n: "new = (rng, r) # new'" using Cons.prems(2) by (cases new) auto
  have rng: "rng = \<lparr>br_start = byte_len pre + byte_len t, br_end = byte_len pre + byte_len t + byte_len b\<rparr>"
    using Cons.prems(1,3) p n by auto
  let ?md = "pre @ pieces_text (p # ps) @ tail"
  have md: "?md = (pre @ t @ b) @ pieces_text ps @ tail" using p by simp
  have "byte_slice ?md (byte_len pre) (byte_len pre + byte_len t) = t"
    using byte_slice_middle[of pre t "b @ pieces_text ps @ tail"] p by simp
  moreover have "replace_ranges ?md (byte_len (pre @ t @ b)) (out @ t @ r) new' =
      Inr ((out @ t @ r) @ concat (map2 (\<lambda>p n. fst p @ snd n) ps new') @ tail)"
    unfolding md using Cons.prems p n by (intro Cons.IH) (simp_all add: add.assoc)
  ultimately show ?case using n p rng by (simp add: add.assoc)
qed

lemma blocks_at_starts:
  "blocks_at start ps \<Longrightarrow> sorted (map (\<lambda>(_, _, block). br_start (ks_full (the (block_span block)))) ps) \<and>
    (\<forall>(t, b, block)\<in>set ps. start \<le> br_start (ks_full (the (block_span block))))"
proof (induction start ps rule: blocks_at.induct)
  case (2 start t b block ps)
  then obtain span where "block_span block = Some span" "ks_full span = \<lparr>br_start = start + byte_len t, br_end = start + byte_len t + byte_len b\<rparr>"
    by auto
  with 2 show ?case by fastforce
qed simp

lemma common_prefix:
  assumes "a @ b = c @ d" "byte_len a \<le> byte_len c"
  shows "\<exists>e. c = a @ e"
proof -
  from assms(1) consider us where "c = a @ us" | us where "a = c @ us" by (auto simp: append_eq_append_conv2)
  then show ?thesis
  proof cases
    case 2
    then have "byte_len us = 0" using assms(2) by simp
    then have "us = []" by (cases us) simp_all
    then show ?thesis using 2 by auto
  qed auto
qed

lemma block_replacements:
  assumes "res_map (block_replacement env) blocks = Inr rs"
  shows "map fst rs = map (\<lambda>block. ks_full (the (block_span block))) blocks \<and> res_map (canonical_markdown env) blocks = Inr (map snd rs)"
  using assms
proof (induction blocks arbitrary: rs)
  case (Cons block blocks)
  then obtain r rs' where r: "block_replacement env block = Inr r" "res_map (block_replacement env) blocks = Inr rs'" "rs = r # rs'"
    by (auto simp: res_bind_eq_Inr split: sum.splits)
  then obtain span tx where "block_span block = Some span" "canonical_markdown env block = Inr tx" "r = (ks_full span, tx)"
    by (auto simp: block_replacement_def res_bind_eq_Inr split: option.splits)
  then show ?case using Cons.IH[OF r(2)] r(3) by simp
qed simp

lemma blocks_at_slices:
  assumes "blocks_at (byte_len pre) ps" "markdown = pre @ pieces_text ps @ tail"
  shows "map (\<lambda>block. let r = ks_full (the (block_span block)) in byte_slice markdown (br_start r) (br_end r)) (map (snd \<circ> snd) ps) =
    map (fst \<circ> snd) ps"
  using assms
proof (induction ps arbitrary: pre)
  case (Cons p ps)
  obtain t b block where p: "p = (t, b, block)" by (cases p)
  then obtain span where span: "block_span block = Some span"
      "ks_full span = \<lparr>br_start = byte_len (pre @ t), br_end = byte_len (pre @ t) + byte_len b\<rparr>"
    using Cons.prems(1) by auto
  have "byte_slice markdown (byte_len (pre @ t)) (byte_len (pre @ t) + byte_len b) = b"
    using byte_slice_middle[of "pre @ t" b "pieces_text ps @ tail"] Cons.prems(2) p by simp
  moreover have at: "blocks_at (byte_len (pre @ t @ b)) ps" and md: "markdown = (pre @ t @ b) @ pieces_text ps @ tail"
    using Cons.prems p by (simp_all add: add.assoc)
  moreover note Cons.IH[OF at md]
  ultimately show ?case using p span by (simp add: Let_def)
qed simp

lemma split_at_str_first:
  "split_at_str p s = Some (a, b) \<Longrightarrow> s = a @ p @ b \<and> (\<forall>a' b'. s = a' @ p @ b' \<longrightarrow> length a \<le> length a')"
proof (induction p s arbitrary: a rule: split_at_str.induct)
  case (2 p c s)
  show ?case
  proof (cases "str_starts_with (c # s) p")
    case True
    then show ?thesis using 2(2) by (auto simp: str_starts_with_iff)
  next
    case False
    then obtain a1 where a1: "a = c # a1" "split_at_str p s = Some (a1, b)" using 2(2) by auto
    have "length a \<le> length a'" if "c # s = a' @ p @ b'" for a' b'
    proof (cases a')
      case Nil
      then show ?thesis using False that by (auto simp: str_starts_with_iff)
    next
      case (Cons d a2)
      then show ?thesis using 2(1)[OF False a1(2)] that a1(1) by auto
    qed
    then show ?thesis using 2(1)[OF False a1(2)] a1(1) by simp
  qed
qed (simp split: if_splits)

lemma front_matter_span:
  assumes "parse_document_frontmatter env markdown = Inr (fm, span)"
  shows "\<exists>payload after. markdown = document_marker @ payload @ 10 # document_marker @ after \<and>
    span = \<lparr>br_start = 0, br_end = byte_len (document_marker @ payload @ 10 # document_marker)\<rparr> \<and>
    (\<forall>a b. markdown = document_marker @ a @ 10 # document_marker @ b \<longrightarrow> length payload \<le> length a)"
proof -
  obtain payload body where m: "str_starts_with markdown document_marker"
      "split_at_str (10 # document_marker) (drop (length document_marker) markdown) = Some (payload, body)"
      "span = \<lparr>br_start = 0, br_end = length document_marker + byte_len payload + 5\<rparr>"
    using assms by (auto simp: parse_document_frontmatter_def res_bind_eq_Inr split: option.splits if_splits)
  obtain s where s: "markdown = document_marker @ s" using m(1) by (auto simp: str_starts_with_iff)
  then have "s = payload @ 10 # document_marker @ body" "\<And>a b. s = a @ 10 # document_marker @ b \<Longrightarrow> length payload \<le> length a"
    using split_at_str_first[OF m(2)] by auto
  then show ?thesis using m(3) s
    by (intro exI[of _ payload] exI[of _ body]) (auto simp: document_marker_def utf8_char_def)
qed

lemma replacement_ranges:
  assumes "res_map (block_replacement env) blocks' = Inr rs" "map block_span blocks' = map block_span blocks" "blocks = map (snd \<circ> snd) ps"
  shows "map fst rs = map (\<lambda>(_, _, block). ks_full (the (block_span block))) ps"
proof -
  have "map fst rs = map (\<lambda>s. ks_full (the s)) (map block_span blocks')" using block_replacements[OF assms(1)] by (simp add: comp_def)
  then show ?thesis unfolding assms(2,3) by (simp add: comp_def case_prod_unfold)
qed

text \<open>The front matter comes first, so the rest of the text is what the blocks are replaced in.\<close>

lemma replace_head:
  assumes "render_with_replacements (head @ after) ((\<lparr>br_start = 0, br_end = byte_len head\<rparr>, first) # rs) = Inr out"
    and "map fst rs = map (\<lambda>(_, _, block). ks_full (the (block_span block))) ps" "blocks_at 0 ps"
  shows "replace_ranges (head @ after) (byte_len head) first rs = Inr out"
proof -
  have "map (\<lambda>(rng, _). br_start rng) rs = map br_start (map fst rs)" by (simp add: split_beta comp_def)
  then have "sorted (map (\<lambda>(rng, _). br_start rng) ((\<lparr>br_start = 0, br_end = byte_len head\<rparr>, first) # rs))"
    using blocks_at_starts[OF assms(3)] assms(2) by (simp add: case_prod_unfold comp_def)
  then show ?thesis
    using assms(1) by (simp add: render_with_replacements_def sort_key_id_if_sorted byte_slice_def del: sort_key_simps split: if_splits)
qed

text \<open>No block starts inside of the front matter: the replacement would have failed.\<close>

lemma pieces_behind:
  assumes "markdown = pieces_text ps @ tail" "blocks_at 0 ps" "fenced_pieces env ps tail" "markdown = head @ after"
    and run: "replace_ranges markdown (byte_len head) first rs = Inr out"
    and rngs: "map fst rs = map (\<lambda>(_, _, block). ks_full (the (block_span block))) ps"
  shows "\<exists>ps' tail'. markdown = head @ pieces_text ps' @ tail' \<and> blocks_at (byte_len head) ps' \<and> map snd ps' = map snd ps \<and>
    fenced_pieces env ps' tail'"
proof (cases ps)
  case Nil
  then show ?thesis using assms(4) by (intro exI[of _ "[]"] exI[of _ after]) simp
next
  case (Cons p qs)
  obtain t b block where p: "p = (t, b, block)" by (cases p)
  obtain s where s: "block_span block = Some s" "ks_full s = \<lparr>br_start = byte_len t, br_end = byte_len t + byte_len b\<rparr>"
    using assms(2) Cons p by auto
  obtain rr rs' where rr: "rs = rr # rs'" "fst rr = ks_full s" using rngs Cons p s by (cases rs) auto
  have "byte_len head \<le> byte_len t"
  proof (rule ccontr)
    assume "\<not> byte_len head \<le> byte_len t"
    then show False using run rr s by (cases rr) auto
  qed
  then obtain e where "t = head @ e" using common_prefix[of head after t "b @ pieces_text qs @ tail"] assms(1,4) Cons p by auto
  then show ?thesis using assms(1-3) Cons p by (intro exI[of _ "(e, b, block) # qs"] exI[of _ tail]) (auto simp: add.assoc)
qed

text \<open>
  C22. Saving a document whose blocks and front matter have changed replaces these and nothing else. The saved text is the old one cut
  into the front matter, which ends at the first closing marker, the blocks, each from its fence line to the first line that closes it, and
  the text between them, which is kept as it was and in its order.
\<close>

theorem decision_text_kept:
  assumes "parse_decision_document env markdown = Inr document"
    and "pd_markdown document' = markdown" "pd_frontmatter_span document' = pd_frontmatter_span document"
      "map block_span (pd_blocks document') = map block_span (pd_blocks document)"
    and "render_decision_document env document' = Inr out"
  shows "\<exists>payload first ts olds news tail.
    markdown = document_marker @ payload @ 10 # document_marker @ concat (map2 (@) ts olds) @ tail \<and>
    out = first @ concat (map2 (@) ts news) @ tail \<and>
    (\<forall>a b. markdown = document_marker @ a @ 10 # document_marker @ b \<longrightarrow> length payload \<le> length a) \<and>
    length ts = length (pd_blocks document) \<and> length olds = length (pd_blocks document) \<and>
    fenced_pieces env (zip ts (zip olds (pd_blocks document))) tail \<and>
    render_frontmatter_block env (fm_raw (pd_frontmatter document')) = Inr first \<and>
    res_map (canonical_markdown env) (pd_blocks document') = Inr news"
proof -
  obtain fm span where doc: "parse_document_frontmatter env markdown = Inr (fm, span)" "parse_kuku_blocks env markdown = Inr (pd_blocks document)"
      "pd_frontmatter_span document = span"
    using assms(1) by (auto simp: parse_decision_document_def res_bind_eq_Inr split: if_splits)
  obtain ps tail where ps: "pd_blocks document = map (snd \<circ> snd) ps" "markdown = pieces_text ps @ tail" "blocks_at 0 ps" "fenced_pieces env ps tail"
    using kuku_loop_cut[of env markdown 0 "[]"] doc(2) unfolding parse_kuku_blocks_def cut_at_def by auto
  obtain payload after where fmt: "markdown = document_marker @ payload @ 10 # document_marker @ after"
      "span = \<lparr>br_start = 0, br_end = byte_len (document_marker @ payload @ 10 # document_marker)\<rparr>"
      "\<forall>a b. markdown = document_marker @ a @ 10 # document_marker @ b \<longrightarrow> length payload \<le> length a"
    using front_matter_span[OF doc(1)] by blast
  obtain first rs where r: "render_frontmatter_block env (fm_raw (pd_frontmatter document')) = Inr first"
      "res_map (block_replacement env) (pd_blocks document') = Inr rs" "render_with_replacements markdown ((span, first) # rs) = Inr out"
    using assms(2,3,5) doc(3) by (auto simp: render_decision_document_def res_bind_eq_Inr)
  have rngs: "map fst rs = map (\<lambda>(_, _, block). ks_full (the (block_span block))) ps"
    using replacement_ranges[OF r(2) assms(4) ps(1)] .
  have texts: "res_map (canonical_markdown env) (pd_blocks document') = Inr (map snd rs)" using block_replacements[OF r(2)] by simp
  define head where "head = document_marker @ payload @ 10 # document_marker"
  have head: "markdown = head @ after" "span = \<lparr>br_start = 0, br_end = byte_len head\<rparr>" using fmt by (simp_all add: head_def)
  have run: "replace_ranges markdown (byte_len head) first rs = Inr out"
    unfolding head(1) using replace_head[OF _ rngs ps(3)] r(3) head by simp
  obtain ps' tail' where ps': "markdown = head @ pieces_text ps' @ tail'" "blocks_at (byte_len head) ps'" "map snd ps' = map snd ps"
      "fenced_pieces env ps' tail'"
    using pieces_behind[OF ps(2,3,4) head(1) run rngs] by blast
  have len: "length ps' = length ps" "length rs = length ps" using ps'(3) rngs by (metis length_map)+
  have blocks: "pd_blocks document = map (snd \<circ> snd) ps'" using ps(1) ps'(3) by (metis map_map)
  have "map fst rs = map (\<lambda>(_, _, block). ks_full (the (block_span block))) ps'"
    unfolding rngs using arg_cong[OF ps'(3), of "map (\<lambda>x. ks_full (the (block_span (snd x))))"] by (simp add: case_prod_unfold comp_def)
  then have "out = first @ concat (map2 (\<lambda>p n. fst p @ snd n) ps' rs) @ tail'"
    using replace_ranges_pieces[OF ps'(2), of rs tail' first] run ps'(1) len by simp
  moreover have "map2 (\<lambda>p n. fst p @ snd n) ps' rs = map2 (@) (map fst ps') (map snd rs)"
    by (simp add: zip_map_map case_prod_unfold)
  moreover have "pieces_text ps' = concat (map2 (@) (map fst ps') (map (fst \<circ> snd) ps'))" by (induction ps') auto
  moreover have "zip (map fst ps') (zip (map (fst \<circ> snd) ps') (pd_blocks document)) = ps'" unfolding blocks by (induction ps') auto
  ultimately show ?thesis using ps'(1,4) r(1) texts fmt(3) len blocks
    by (intro exI[of _ payload] exI[of _ first] exI[of _ "map fst ps'"] exI[of _ "map (fst \<circ> snd) ps'"] exI[of _ "map snd rs"] exI[of _ tail'])
      (simp add: head_def)
qed

section \<open>Documents made of lines and blocks\<close>

lemma kuku_loop_lines:
  "\<forall>w\<in>set ls. 10 \<notin> set w \<and> parse_opening_fence w = None \<Longrightarrow>
    kuku_loop env (text_lines ls @ s) start blocks = kuku_loop env s (start + byte_len (text_lines ls)) blocks"
proof (induction ls arbitrary: start)
  case (Cons w ls)
  have "markdown_line_at (text_lines (w # ls) @ s) start = (\<lparr>ln_text = w, ln_start = start, ln_end = start + byte_len w + 1\<rparr>, text_lines ls @ s)"
    using Cons.prems line_at_simps(1)[of w "text_lines ls @ s" start] by simp
  from kuku_loop_step[OF _ this, of env blocks] Cons.prems have
    "kuku_loop env (text_lines (w # ls) @ s) start blocks = kuku_loop env (text_lines ls @ s) (start + byte_len w + 1) blocks" by simp
  then show ?case using Cons.IH[of "start + byte_len w + 1"] Cons.prems by (simp add: add.assoc)
qed simp

lemma find_closing_fence_lines:
  "\<forall>w\<in>set ls. 10 \<notin> set w \<and> \<not> is_closing_fence w marker n \<Longrightarrow>
    find_closing_fence (text_lines ls @ s) start marker n = find_closing_fence s (start + byte_len (text_lines ls)) marker n"
proof (induction ls arbitrary: start)
  case (Cons w ls)
  have "markdown_line_at (text_lines (w # ls) @ s) start = (\<lparr>ln_text = w, ln_start = start, ln_end = start + byte_len w + 1\<rparr>, text_lines ls @ s)"
    using Cons.prems line_at_simps(1)[of w "text_lines ls @ s" start] by simp
  from find_closing_fence_step[OF _ this, of marker n] Cons.prems have
    "find_closing_fence (text_lines (w # ls) @ s) start marker n = find_closing_fence (text_lines ls @ s) (start + byte_len w + 1) marker n" by simp
  then show ?case using Cons.IH[of "start + byte_len w + 1"] Cons.prems by (simp add: add.assoc)
qed simp

text \<open>The span of a block whose three parts begin at a position.\<close>

definition span_at :: "nat \<Rightarrow> nat \<Rightarrow> nat \<Rightarrow> nat \<Rightarrow> kuku_block_span" where
  "span_at start opn payload closing =
     \<lparr>ks_full = \<lparr>br_start = start, br_end = start + opn + payload + closing\<rparr>,
      ks_opening_fence = \<lparr>br_start = start, br_end = start + opn\<rparr>,
      ks_payload = \<lparr>br_start = start + opn, br_end = start + opn + payload\<rparr>,
      ks_closing_fence = \<lparr>br_start = start + opn + payload, br_end = start + opn + payload + closing\<rparr>\<rparr>"

lemma kuku_loop_block:
  assumes "10 \<notin> set w" "parse_opening_fence w = Some opn" "kuku_language (of_info opn) = Some language"
    and "\<forall>l\<in>set ls. 10 \<notin> set l \<and> \<not> is_closing_fence l (of_marker opn) (of_len opn)"
    and "10 \<notin> set c" "is_closing_fence c (of_marker opn) (of_len opn)"
    and "byte_len (text_lines ls) \<le> MAX_KUKU_PAYLOAD_BYTES"
    and "parse_kuku_block env language (span_at start (byte_len w + 1) (byte_len (text_lines ls)) (byte_len c + 1)) (text_lines ls) = Inr block"
    and "check_block_limits (blocks @ [block]) = Inr ()"
  shows "kuku_loop env (w @ 10 # text_lines ls @ c @ 10 # s) start blocks =
    kuku_loop env s (start + byte_len (w @ 10 # text_lines ls @ c @ [10])) (blocks @ [block])"
proof -
  let ?line = "\<lparr>ln_text = w, ln_start = start, ln_end = start + byte_len w + 1\<rparr>"
  let ?e = "start + byte_len w + 1 + byte_len (text_lines ls)"
  let ?closing = "\<lparr>ln_text = c, ln_start = ?e, ln_end = ?e + byte_len c + 1\<rparr>"
  have l: "markdown_line_at (w @ 10 # text_lines ls @ c @ 10 # s) start = (?line, text_lines ls @ c @ 10 # s)"
    by (rule line_at_simps(1)[OF assms(1)])
  have cl: "markdown_line_at (c @ 10 # s) ?e = (?closing, s)"
    by (rule line_at_simps(1)[OF assms(5)])
  have f: "find_closing_fence (text_lines ls @ c @ 10 # s) (ln_end ?line) (of_marker opn) (of_len opn) = Some (?closing, s)"
    using find_closing_fence_lines[OF assms(4)] find_closing_fence_step[OF _ cl, of "of_marker opn" "of_len opn"] assms(6) by simp
  have span: "make_span ?line ?closing = span_at start (byte_len w + 1) (byte_len (text_lines ls)) (byte_len c + 1)"
    by (simp add: make_span_def span_at_def add.assoc)
  have payload: "fst (split_bytes (ln_start ?closing - ln_end ?line) (text_lines ls @ c @ 10 # s)) = text_lines ls"
    by simp
  show ?thesis
    using kuku_loop_step[OF _ l, of env blocks] f assms(2,3,7-9) span by (simp add: add.assoc)
qed


section \<open>Decisions and proposals belong together\<close>

lemma memory_proposals_fold:
  assumes "res_fold (memory_proposal_step env) ps ([], []) = Inr (by_id, ids)"
  shows "distinct (map (\<lambda>p. mb_id (pb_value p)) ps) \<and> ids = rev (map (\<lambda>p. mm_id (mb_memory (pb_value p))) ps) \<and> distinct ids \<and>
    bt_get by_id = map_of (map (\<lambda>p. (mb_id (pb_value p), pb_value p)) ps) \<and> set (map fst by_id) = (\<lambda>p. mb_id (pb_value p)) ` set ps"
  using assms
proof (induction ps arbitrary: by_id ids rule: rev_induct)
  case Nil
  then show ?case by (auto simp: bt_get_def)
next
  case (snoc p ps)
  obtain bm ids' where r: "res_fold (memory_proposal_step env) ps ([], []) = Inr (bm, ids')" "memory_proposal_step env p (bm, ids') = Inr (by_id, ids)"
    using snoc.prems unfolding res_fold_snoc res_bind_eq_Inr by auto
  note IH = snoc.IH[OF r(1)]
  have new: "bt_get bm (mb_id (pb_value p)) = None" "mm_id (mb_memory (pb_value p)) \<notin> set ids'"
      "by_id = bt_insert (mb_id (pb_value p)) (pb_value p) bm" "ids = mm_id (mb_memory (pb_value p)) # ids'"
    using r(2) by (auto simp: memory_proposal_step_def Let_def res_bind_eq_Inr split: if_splits)
  have fresh: "mb_id (pb_value p) \<notin> (\<lambda>p. mb_id (pb_value p)) ` set ps"
    using IH new(1) by (auto simp: map_of_eq_None_iff image_image)
  have "bt_get by_id = map_of (map (\<lambda>p. (mb_id (pb_value p), pb_value p)) (ps @ [p]))"
    using IH fresh map_of_snoc_fresh[of "mb_id (pb_value p)" "map (\<lambda>p. (mb_id (pb_value p), pb_value p)) ps" "pb_value p"]
    by (simp add: new(3) bt_get_insert image_image)
  then show ?case using IH fresh new by (auto simp: fst_bt_insert)
qed

lemma decisions_fold:
  assumes "res_fold (decision_step env kind pid path_of check by_id) ds \<lparr>is_decision_ids = [], is_counts = [], is_yes_paths = []\<rparr> = Inr st"
  shows "is_decision_ids st = rev (map (\<lambda>d. dn_id (pb_value d)) ds) \<and> distinct (is_decision_ids st) \<and>
    (\<forall>t. bt_get (is_counts st) t = (let n = length (filter (\<lambda>d. dn_target_change_id (pb_value d) = t) ds) in if n = 0 then None else Some n)) \<and>
    (\<forall>d\<in>set ds. bt_get by_id (dn_target_change_id (pb_value d)) \<noteq> None) \<and> distinct (is_yes_paths st) \<and>
    list_all2 (\<lambda>d path. path_of (the (bt_get by_id (dn_target_change_id (pb_value d)))) = Inr path \<and>
        check (the (bt_get by_id (dn_target_change_id (pb_value d)))) path = Inr ())
      (filter (\<lambda>d. dn_selected_option_id (pb_value d) = Some (lit ''yes'')) ds) (is_yes_paths st)"
  using assms
proof (induction ds arbitrary: st rule: rev_induct)
  case Nil
  then show ?case by (auto simp: bt_get_def)
next
  case (snoc d ds)
  let ?t = "dn_target_change_id (pb_value d)"
  obtain st' where r: "res_fold (decision_step env kind pid path_of check by_id) ds \<lparr>is_decision_ids = [], is_counts = [], is_yes_paths = []\<rparr> = Inr st'"
      "decision_step env kind pid path_of check by_id d st' = Inr st"
    using snoc.prems unfolding res_fold_snoc res_bind_eq_Inr by auto
  note IH = snoc.IH[OF r(1)]
  obtain p where p: "bt_get by_id ?t = Some p" "dn_id (pb_value d) \<notin> set (is_decision_ids st')"
    using r(2) by (auto simp: decision_step_def Let_def res_bind_eq_Inr split: if_splits option.splits)
  let ?n = "case bt_get (is_counts st') ?t of None \<Rightarrow> 0 | Some n \<Rightarrow> n"
  have st: "is_decision_ids st = dn_id (pb_value d) # is_decision_ids st'" "is_counts st = bt_insert ?t (?n + 1) (is_counts st')"
    using r(2) p by (auto simp: decision_step_def Let_def res_bind_eq_Inr split: if_splits)
  have yes: "dn_selected_option_id (pb_value d) = Some (lit ''yes'') \<and> (\<exists>path. path_of p = Inr path \<and> check p path = Inr () \<and>
        path \<notin> set (is_yes_paths st') \<and> is_yes_paths st = is_yes_paths st' @ [path]) \<or>
      dn_selected_option_id (pb_value d) \<noteq> Some (lit ''yes'') \<and> is_yes_paths st = is_yes_paths st'"
    using r(2) p by (auto simp: decision_step_def Let_def res_bind_eq_Inr split: if_splits)
  have "?n = length (filter (\<lambda>d. dn_target_change_id (pb_value d) = ?t) ds)"
    using IH by (auto simp: Let_def)
  then have "bt_get (is_counts st) t = (let n = length (filter (\<lambda>d. dn_target_change_id (pb_value d) = t) (ds @ [d])) in if n = 0 then None else Some n)" for t
    using IH by (auto simp: st(2) bt_get_insert Let_def)
  then show ?case using IH yes p st(1) by (auto simp: list_all2_appendI)
qed

lemma map_of_mapped_find: "map_of (map (\<lambda>p. (key (f p), f p)) ps) = (\<lambda>t. find (\<lambda>v. key v = t) (map f ps))"
  by (induction ps) (auto simp: fun_eq_iff)

lemma check_all_Inr: "check_all f xs = Inr () \<longleftrightarrow> (\<forall>x\<in>set xs. f x = Inr ())"
  by (induction xs) (auto simp: res_bind_eq_Inr)

text \<open>
  C23. When a document for memories passes the check, then its proposals and memories have different names, each decision is about one of
  the proposals and each proposal has exactly one decision; the paths it reports are those of the accepted memories, in the order of the
  decisions, all different, and none exists yet.
\<close>

theorem decisions_match_proposals:
  assumes "validate_memory_decision_document_integrity env document root = Inr ig"
  defines "proposals \<equiv> map pb_value (proposal_blocks (pd_blocks document))"
    and "decisions \<equiv> map pb_value (decision_blocks (pd_blocks document))"
  shows "distinct (map mb_id proposals) \<and> distinct (map (\<lambda>p. mm_id (mb_memory p)) proposals) \<and> distinct (map dn_id decisions) \<and>
    mset (map dn_target_change_id decisions) = mset (map mb_id proposals) \<and>
    ig_yes_memory_paths ig = map (\<lambda>d. memory_path_for_id (mm_id (mb_memory (the (find (\<lambda>p. mb_id p = dn_target_change_id d) proposals)))))
      (filter (\<lambda>d. dn_selected_option_id d = Some (lit ''yes'')) decisions) \<and>
    distinct (ig_yes_memory_paths ig) \<and> (case root of None \<Rightarrow> True | Some exists \<Rightarrow> list_all (\<lambda>path. \<not> exists path) (ig_yes_memory_paths ig))"
proof -
  let ?ps = "proposal_blocks (pd_blocks document)" and ?ds = "decision_blocks (pd_blocks document)"
  obtain by_id ids st where run: "res_fold (memory_proposal_step env) ?ps ([], []) = Inr (by_id, ids)"
      "res_fold (decision_step env (lit ''memory'') (fm_proposal_id (pd_frontmatter document)) (\<lambda>p. Inr (memory_path_for_id (mm_id (mb_memory p))))
         (memory_output_check root) by_id) ?ds \<lparr>is_decision_ids = [], is_counts = [], is_yes_paths = []\<rparr> = Inr st"
      "check_counts (is_counts st) (map fst by_id) = Inr ()" "ig_yes_memory_paths ig = is_yes_paths st"
    using assms(1) by (auto simp: validate_memory_decision_document_integrity_def Let_def res_bind_eq_Inr split: if_splits)
  note ps = memory_proposals_fold[OF run(1)] and ds = decisions_fold[OF run(2)]
  have one: "length (filter (\<lambda>d. dn_target_change_id (pb_value d) = mb_id (pb_value p)) ?ds) = 1" if "p \<in> set ?ps" for p
  proof -
    have "mb_id (pb_value p) \<in> set (map fst by_id)" using ps that by simp
    from run(3)[unfolded check_counts_def check_all_Inr, rule_format, OF this]
    have "bt_get (is_counts st) (mb_id (pb_value p)) = Some 1" by (auto split: option.splits if_splits)
    then show ?thesis using ds by (auto simp: Let_def split: if_splits)
  qed
  have found: "bt_get by_id = (\<lambda>t. find (\<lambda>p. mb_id p = t) proposals)"
    using ps unfolding assms(2) map_of_mapped_find by simp
  have targets: "mset (map dn_target_change_id decisions) = mset (map mb_id proposals)"
  proof (rule multiset_eqI)
    fix x
    have d: "distinct (map mb_id proposals)" using ps by (simp add: assms(2) comp_def)
    have c: "count (mset (map dn_target_change_id decisions)) x = length (filter (\<lambda>d. dn_target_change_id (pb_value d) = x) ?ds)"
      unfolding assms(3) map_map count_map_filter by (simp add: comp_def)
    show "count (mset (map dn_target_change_id decisions)) x = count (mset (map mb_id proposals)) x"
    proof (cases "x \<in> set (map mb_id proposals)")
      case True
      then obtain p where "p \<in> set ?ps" "x = mb_id (pb_value p)" by (auto simp: assms(2))
      then show ?thesis using one c d True by (simp add: distinct_count_atmost_1)
    next
      case False
      then have "find (\<lambda>p. mb_id p = x) proposals = None" by (auto simp: find_None_iff)
      moreover have "\<forall>d\<in>set ?ds. find (\<lambda>p. mb_id p = dn_target_change_id (pb_value d)) proposals \<noteq> None"
        using ds unfolding found by blast
      ultimately have "\<forall>d\<in>set ?ds. dn_target_change_id (pb_value d) \<noteq> x" by metis
      moreover have "count (mset (map mb_id proposals)) x = 0" using False by (metis count_eq_zero_iff set_mset_mset)
      ultimately show ?thesis using c by (simp add: filter_False)
    qed
  qed
  let ?yes = "filter (\<lambda>d. dn_selected_option_id (pb_value d) = Some (lit ''yes'')) ?ds"
  let ?path = "\<lambda>d. memory_path_for_id (mm_id (mb_memory (the (find (\<lambda>p. mb_id p = dn_target_change_id d) proposals))))"
  have all: "list_all2 (\<lambda>d path. path = ?path (pb_value d) \<and> memory_output_check root (the (bt_get by_id (dn_target_change_id (pb_value d)))) path = Inr ())
      ?yes (is_yes_paths st)"
    using ds unfolding found by (auto elim: list_all2_mono)
  then have "is_yes_paths st = map (\<lambda>d. ?path (pb_value d)) ?yes" by (rule list_all2_map_eq)
  then have paths: "is_yes_paths st = map ?path (filter (\<lambda>d. dn_selected_option_id d = Some (lit ''yes'')) decisions)"
    unfolding assms(3) filter_map map_map comp_def .
  have "case root of None \<Rightarrow> True | Some exists \<Rightarrow> list_all (\<lambda>path. \<not> exists path) (is_yes_paths st)"
    using all by (auto simp: memory_output_check_def list_all2_conv_all_nth list_all_length split: option.splits if_splits)
  moreover have "distinct (map mb_id proposals)" using ps unfolding assms(2) map_map comp_def by blast
  moreover have "distinct (map (\<lambda>p. mm_id (mb_memory p)) proposals)" using ps unfolding assms(2) map_map comp_def by (metis distinct_rev)
  moreover have "distinct (map dn_id decisions)" using ds unfolding assms(3) map_map comp_def by (metis distinct_rev)
  moreover have "distinct (is_yes_paths st)" using ds by simp
  ultimately show ?thesis unfolding run(4) using targets paths by (simp only: simp_thms)
qed

section \<open>Concrete instances\<close>

definition example_proposal :: memory_proposal_block where
  "example_proposal = \<lparr>mb_id = lit ''change_a'', mb_operation = lit ''create_memory'',
     mb_memory = \<lparr>mm_id = lit ''mem_a'', mm_kind = None, mm_title = lit ''T'', mm_tags = [], mm_body = lit ''B'', mm_source_refs = []\<rparr>\<rparr>"

definition example_decision :: decision_block where
  "example_decision = \<lparr>dn_id = lit ''decision_a'', dn_proposal_id = lit ''prop_a'', dn_target_change_id = lit ''change_a'', dn_question = lit ''Q'',
     dn_selection_mode = lit ''single'', dn_required = True, dn_status = lit ''pending'', dn_selected_option_id = Some (lit ''yes''),
     dn_options = [\<lparr>ob_id = lit ''yes'', ob_label = lit ''Yes'', ob_requires_input = None\<rparr>,
       \<lparr>ob_id = lit ''no'', ob_label = lit ''No'', ob_requires_input = None\<rparr>,
       \<lparr>ob_id = lit ''other'', ob_label = lit ''Other'', ob_requires_input = Some True\<rparr>],
     dn_other_text = None, dn_resolved_at = None\<rparr>"

definition example_known :: frontmatter_known where
  "example_known = \<lparr>fm_id = lit ''doc_a'', fm_proposal_id = lit ''prop_a'', fm_target_kind = lit ''memory'', fm_request_source = lit ''ai_tool'',
     fm_status = lit ''pending'', fm_created_at = lit ''2026-01-02T03:04:05Z'', fm_updated_at = lit ''2026-01-02T03:04:05Z'', fm_source_refs = []\<rparr>"

text \<open>YAML in which a decision is written as its status, and the front matter as it is.\<close>

definition example_kuku_env :: "rstr kuku_env" where
  "example_kuku_env = \<lparr>ke_note = example_note_env, ke_known = (\<lambda>_. Inr example_known), ke_raw = \<lparr>ym_print = Inr, ym_parse = Inr\<rparr>,
     ke_insert = (\<lambda>k v raw. raw @ [10] @ k @ lit '': '' @ v),
     ke_memory = \<lparr>ym_print = (\<lambda>p. Inr (mb_id p)), ym_parse = (\<lambda>_. Inr example_proposal)\<rparr>,
     ke_wiki = \<lparr>ym_print = (\<lambda>_. Inl []), ym_parse = (\<lambda>_. Inl [])\<rparr>,
     ke_decision = \<lparr>ym_print = (\<lambda>d. Inr (dn_status d)), ym_parse = (\<lambda>_. Inr example_decision)\<rparr>\<rparr>"

definition example_span :: kuku_block_span where
  "example_span = span_at 19 17 8 4"

definition example_document :: "rstr parsed_decision_document" where
  "example_document = \<lparr>pd_markdown = text_lines [lit ''---'', lit ''id: 1'', lit ''---'', lit ''# Hi'', lit ''```kuku-decision'', lit ''pending'', lit ''```'', lit ''Bye''],
     pd_frontmatter = frontmatter_known.extend example_known (decision_document_frontmatter.fields (lit ''id: 1'')),
     pd_frontmatter_span = \<lparr>br_start = 0, br_end = 14\<rparr>,
     pd_blocks = [Decision \<lparr>pb_span = Some (span_at 19 17 8 4), pb_value = example_decision\<rparr>]\<rparr>"

lemma plain_lines:
  "\<forall>w\<in>set [lit ''---'', lit ''id: 1'', lit ''---'', lit ''# Hi'']. 10 \<notin> set w \<and> parse_opening_fence w = None"
  "\<forall>w\<in>set [lit ''Bye'']. 10 \<notin> set w \<and> parse_opening_fence w = None"
  by (simp_all add: parse_opening_fence_def fence_indent_def)

lemma example_fence:
  "parse_opening_fence (lit ''```kuku-decision'') = Some \<lparr>of_marker = 96, of_len = 3, of_info = lit ''kuku-decision''\<rparr>"
  "kuku_language (lit ''kuku-decision'') = Some KukuDecision"
  "is_closing_fence (lit ''```'') 96 3" "\<not> is_closing_fence (lit ''pending'') 96 3"
  by (simp_all add: parse_opening_fence_def fence_indent_def kuku_language_def is_closing_fence_def std_simps Let_def)

lemma example_blocks: "kuku_loop example_kuku_env (pd_markdown example_document) 0 [] = Inr (pd_blocks example_document)"
proof -
  have md: "pd_markdown example_document = text_lines [lit ''---'', lit ''id: 1'', lit ''---'', lit ''# Hi''] @
      lit ''```kuku-decision'' @ 10 # text_lines [lit ''pending''] @ lit ''```'' @ 10 # text_lines [lit ''Bye''] @ []"
    by (simp add: example_document_def)
  have len: "byte_len (text_lines [lit ''---'', lit ''id: 1'', lit ''---'', lit ''# Hi'']) = 19" "byte_len (lit ''```kuku-decision'') = 16"
      "byte_len (lit ''pending'' @ [10]) = 8" "byte_len (lit ''```'') = 3"
    by (simp_all add: utf8_char_def)
  have "kuku_loop example_kuku_env (pd_markdown example_document) 0 [] =
      kuku_loop example_kuku_env (lit ''```kuku-decision'' @ 10 # text_lines [lit ''pending''] @ lit ''```'' @ 10 # text_lines [lit ''Bye''] @ []) 19 []"
    unfolding md kuku_loop_lines[OF plain_lines(1)] len(1) add_0 ..
  also have "\<dots> = kuku_loop example_kuku_env (text_lines [lit ''Bye''] @ []) (19 + byte_len (lit ''```kuku-decision'' @ 10 # text_lines [lit ''pending''] @ lit ''```'' @ [10]))
      ([] @ [Decision \<lparr>pb_span = Some (span_at 19 17 8 4), pb_value = example_decision\<rparr>])"
  proof (rule kuku_loop_block[where language = KukuDecision, OF _ example_fence(1)])
    show "parse_kuku_block example_kuku_env KukuDecision (span_at 19 (byte_len (lit ''```kuku-decision'') + 1) (byte_len (text_lines [lit ''pending'']))
        (byte_len (lit ''```'') + 1)) (text_lines [lit ''pending'']) = Inr (Decision \<lparr>pb_span = Some (span_at 19 17 8 4), pb_value = example_decision\<rparr>)"
      using len by (simp add: parse_kuku_block_def parse_decision_block_def parse_value_def example_kuku_env_def del: lit_simps byte_len_simps)
    show "check_block_limits ([] @ [Decision \<lparr>pb_span = Some (span_at 19 17 8 4), pb_value = example_decision\<rparr>]) = Inr ()"
      by (simp add: check_block_limits_def MAX_KUKU_BLOCKS_def MAX_PROPOSAL_BLOCKS_def MAX_DECISION_BLOCKS_def)
    show "byte_len (text_lines [lit ''pending'']) \<le> MAX_KUKU_PAYLOAD_BYTES" using len by (simp add: MAX_KUKU_PAYLOAD_BYTES_def del: lit_simps byte_len_simps)
  qed (use example_fence in \<open>simp_all\<close>)
  also have "\<dots> = Inr (pd_blocks example_document)"
    unfolding kuku_loop_lines[OF plain_lines(2)] by (simp add: example_document_def del: lit_simps)
  finally show ?thesis .
qed

lemma example_frontmatter:
  "parse_document_frontmatter example_kuku_env (pd_markdown example_document) = Inr (pd_frontmatter example_document, \<lparr>br_start = 0, br_end = 14\<rparr>)"
proof -
  have "pd_markdown example_document = front_matter (lit ''id: 1'') @ text_lines [lit ''# Hi'', lit ''```kuku-decision'', lit ''pending'', lit ''```'', lit ''Bye'']"
    by (simp add: example_document_def front_matter_def yaml_block_def document_marker_def std_simps)
  moreover have "no_marker (lit ''id: 1'' @ [10])"
    unfolding no_marker_def document_marker_def by (auto simp: Cons_eq_append_conv)
  ultimately have "split_at_str (10 # document_marker) (drop (length document_marker) (pd_markdown example_document)) =
      Some (lit ''id: 1'', text_lines [lit ''# Hi'', lit ''```kuku-decision'', lit ''pending'', lit ''```'', lit ''Bye''])"
    using split_at_marker[of "lit ''id: 1''"] by (simp add: front_matter_def yaml_block_def document_marker_def std_simps)
  moreover have "str_starts_with (pd_markdown example_document) document_marker" by (simp add: example_document_def document_marker_def)
  moreover have "byte_len (lit ''id: 1'') = 5" by (simp add: utf8_char_def)
  ultimately show ?thesis
    by (simp add: parse_document_frontmatter_def parse_value_def example_kuku_env_def MAX_FRONTMATTER_BYTES_def document_marker_def
        example_document_def del: byte_len_simps)
qed

lemma example_parsed: "parse_decision_document example_kuku_env (pd_markdown example_document) = Inr example_document"
proof -
  have "byte_len (pd_markdown example_document) \<le> MAX_DOCUMENT_BYTES"
    by (simp add: example_document_def MAX_DOCUMENT_BYTES_def utf8_char_def)
  then show ?thesis using example_blocks example_frontmatter
    by (simp add: parse_decision_document_def parse_kuku_blocks_def) (simp add: example_document_def)
qed

text \<open>The document after the decision was accepted.\<close>

definition example_applied :: "rstr parsed_decision_document" where
  "example_applied = example_document\<lparr>pd_blocks :=
     [Decision \<lparr>pb_span = Some (span_at 19 17 8 4), pb_value = example_decision\<lparr>dn_status := lit ''committed''\<rparr>\<rparr>]\<rparr>"

lemma example_rendered:
  "render_decision_document example_kuku_env example_applied =
     Inr (text_lines [lit ''---'', lit ''id: 1'', lit ''---'', lit ''# Hi'', lit ''```kuku-decision'', lit ''committed'', lit ''```'', lit ''Bye''])"
proof -
  let ?head = "text_lines [lit ''---'', lit ''id: 1'', lit ''---'']" and ?b = "text_lines [lit ''```kuku-decision'', lit ''pending'', lit ''```'']"
  have first: "render_frontmatter_block example_kuku_env (lit ''id: 1'') = Inr ?head"
    by (simp add: render_frontmatter_block_def example_kuku_env_def front_matter_def yaml_block_def document_marker_def std_simps)
  have block: "block_replacement example_kuku_env (Decision \<lparr>pb_span = Some (span_at 19 17 8 4), pb_value = example_decision\<lparr>dn_status := lit ''committed''\<rparr>\<rparr>) =
      Inr (\<lparr>br_start = 19, br_end = 48\<rparr>, text_lines [lit ''```kuku-decision'', lit ''committed'', lit ''```''])"
    by (simp add: block_replacement_def render_kuku_block_def span_at_def example_kuku_env_def yaml_block_def document_marker_def std_simps)
  have md: "pd_markdown example_document = ?head @ text_lines [lit ''# Hi''] @ ?b @ text_lines [lit ''Bye'']"
    by (simp add: example_document_def)
  have len: "byte_len ?head = 14" "byte_len (text_lines [lit ''# Hi'']) = 5" "byte_len ?b = 29" "byte_len (text_lines [lit ''Bye'']) = 4"
    by (simp_all add: utf8_char_def)
  have slices: "byte_slice (pd_markdown example_document) 14 19 = text_lines [lit ''# Hi'']"
      "byte_slice (pd_markdown example_document) 48 52 = text_lines [lit ''Bye'']" "byte_len (pd_markdown example_document) = 52"
    using byte_slice_middle[of ?head "text_lines [lit ''# Hi'']" "?b @ text_lines [lit ''Bye'']"]
      byte_slice_middle[of "?head @ text_lines [lit ''# Hi''] @ ?b" "text_lines [lit ''Bye'']" "[]"]
    unfolding md byte_len_simps(3) len by simp_all
  have "render_with_replacements (pd_markdown example_document) [(\<lparr>br_start = 0, br_end = 14\<rparr>, ?head),
        (\<lparr>br_start = 19, br_end = 48\<rparr>, text_lines [lit ''```kuku-decision'', lit ''committed'', lit ''```''])] =
      Inr (?head @ text_lines [lit ''# Hi''] @ text_lines [lit ''```kuku-decision'', lit ''committed'', lit ''```''] @ text_lines [lit ''Bye''])"
    using slices by (simp add: render_with_replacements_def byte_slice_def[of _ 0 0] del: lit_simps)
  then show ?thesis using first block
    by (simp add: render_decision_document_def example_applied_def example_document_def decision_document_frontmatter.defs frontmatter_known.defs
        example_known_def del: lit_simps)
qed

theorem decision_text_kept_witness:
  "\<exists>payload first ts olds news tail.
    pd_markdown example_document = document_marker @ payload @ 10 # document_marker @ concat (map2 (@) ts olds) @ tail \<and>
    text_lines [lit ''---'', lit ''id: 1'', lit ''---'', lit ''# Hi'', lit ''```kuku-decision'', lit ''committed'', lit ''```'', lit ''Bye''] =
      first @ concat (map2 (@) ts news) @ tail \<and>
    fenced_pieces example_kuku_env (zip ts (zip olds (pd_blocks example_document))) tail \<and>
    render_frontmatter_block example_kuku_env (lit ''id: 1'') = Inr first \<and> res_map (canonical_markdown example_kuku_env) (pd_blocks example_applied) = Inr news"
proof -
  have same: "pd_markdown example_applied = pd_markdown example_document" "pd_frontmatter_span example_applied = pd_frontmatter_span example_document"
      "map block_span (pd_blocks example_applied) = map block_span (pd_blocks example_document)"
    and raw: "fm_raw (pd_frontmatter example_applied) = lit ''id: 1''"
    by (simp_all add: example_applied_def example_document_def decision_document_frontmatter.defs frontmatter_known.defs example_known_def del: lit_simps)
  from decision_text_kept[OF example_parsed same example_rendered] show ?thesis unfolding raw by blast
qed

text \<open>The checks accept this decision and a proposal for it.\<close>

definition example_memory_document :: "rstr parsed_decision_document" where
  "example_memory_document = example_document\<lparr>pd_blocks :=
     [MemoryProposal \<lparr>pb_span = Some (span_at 0 0 0 0), pb_value = example_proposal\<rparr>,
      Decision \<lparr>pb_span = Some (span_at 0 0 0 0), pb_value = example_decision\<rparr>]\<rparr>"

lemma example_ids:
  "validate_document_id (lit ''change_a'') (lit ''change'') field = Inr ()" "validate_document_id (lit ''mem_a'') (lit ''mem'') field = Inr ()"
  "validate_document_id (lit ''decision_a'') (lit ''decision'') field = Inr ()" "validate_document_id (lit ''prop_a'') (lit ''prop'') field = Inr ()"
  "validate_document_id (lit ''doc_a'') (lit ''doc'') field = Inr ()"
  by (simp_all add: validate_document_id_def MAX_ID_CHARS_def is_valid_knowledge_id_def valid_id_body_def id_char_def MAX_ID_BODY_LEN_def)

lemma example_limited: "validate_limited (lit ''T'') field n = Inr ()" if "n = Some MAX_TITLE_CHARS \<or> n = None"
  using that by (auto simp: validate_limited_def MAX_TITLE_CHARS_def std_simps)

lemma example_limited_body: "validate_limited (lit ''B'') field None = Inr ()" "validate_limited (lit ''Q'') field (Some MAX_TITLE_CHARS) = Inr ()"
  by (simp_all add: validate_limited_def MAX_TITLE_CHARS_def std_simps)

lemma example_proposal_valid: "validate_memory_proposal env example_proposal = Inr ()"
  using example_ids example_limited example_limited_body
  by (simp add: validate_memory_proposal_def example_proposal_def optional_check_def validate_document_source_refs_def Let_def del: lit_simps)

lemma example_decision_valid: "validate_decision env example_decision (lit ''prop_a'') = Inr ()"
proof -
  have "validate_decision_options example_decision = Inr ()"
    by (simp add: validate_decision_options_def example_decision_def validate_limited_def MAX_ID_CHARS_def MAX_TITLE_CHARS_def std_simps)
  moreover have "validate_selection example_decision (lit ''yes'') = Inr ()"
    by (simp add: validate_selection_def example_decision_def)
  moreover have "dn_id example_decision = lit ''decision_a''" "dn_proposal_id example_decision = lit ''prop_a''"
      "dn_target_change_id example_decision = lit ''change_a''" "dn_question example_decision = lit ''Q''" "dn_selection_mode example_decision = lit ''single''"
      "dn_required example_decision" "dn_status example_decision = lit ''pending''" "dn_selected_option_id example_decision = Some (lit ''yes'')"
      "dn_resolved_at example_decision = None"
    by (simp_all add: example_decision_def del: lit_simps)
  ultimately show ?thesis using example_ids example_limited_body
    by (simp add: validate_decision_def optional_check_def del: lit_simps)
qed

lemma example_integrity:
  "validate_memory_decision_document_integrity env example_memory_document (Some (\<lambda>_. False)) =
     Inr \<lparr>ig_doc_id = lit ''doc_a'', ig_proposal_id = lit ''prop_a'', ig_yes_memory_paths = [lit ''Knowledge/memory/mem_a.md''], ig_yes_wiki_paths = []\<rparr>"
proof -
  have blocks: "proposal_blocks (pd_blocks example_memory_document) = [\<lparr>pb_span = Some (span_at 0 0 0 0), pb_value = example_proposal\<rparr>]"
      "wiki_proposal_blocks (pd_blocks example_memory_document) = []"
      "decision_blocks (pd_blocks example_memory_document) = [\<lparr>pb_span = Some (span_at 0 0 0 0), pb_value = example_decision\<rparr>]"
    by (simp_all add: example_memory_document_def proposal_blocks_def wiki_proposal_blocks_def decision_blocks_def List.map_filter_def)
  have fm: "fm_id (pd_frontmatter example_memory_document) = lit ''doc_a''" "fm_proposal_id (pd_frontmatter example_memory_document) = lit ''prop_a''"
    by (simp_all add: example_memory_document_def example_document_def decision_document_frontmatter.defs frontmatter_known.defs example_known_def del: lit_simps)
  have d: "dn_id example_decision = lit ''decision_a''" "dn_target_change_id example_decision = lit ''change_a''"
      "dn_selected_option_id example_decision = Some (lit ''yes'')" "mb_id example_proposal = lit ''change_a''" "mm_id (mb_memory example_proposal) = lit ''mem_a''"
    by (simp_all add: example_decision_def example_proposal_def del: lit_simps)
  have "memory_path_for_id (lit ''mem_a'') = lit ''Knowledge/memory/mem_a.md''" by (simp add: memory_path_for_id_def)
  then show ?thesis unfolding validate_memory_decision_document_integrity_def
    by (simp add: blocks fm d memory_proposal_step_def decision_step_def example_proposal_valid example_decision_valid bt_get_def check_counts_def
        memory_output_check_def Let_def del: lit_simps)
qed

theorem decisions_match_proposals_witness:
  "\<exists>ig. validate_memory_decision_document_integrity example_note_env example_memory_document (Some (\<lambda>_. False)) = Inr ig \<and>
     mset (map dn_target_change_id [example_decision]) = mset (map mb_id [example_proposal]) \<and>
     ig_yes_memory_paths ig = [lit ''Knowledge/memory/mem_a.md''] \<and> distinct (ig_yes_memory_paths ig)"
proof -
  have "map pb_value (proposal_blocks (pd_blocks example_memory_document)) = [example_proposal]"
      "map pb_value (decision_blocks (pd_blocks example_memory_document)) = [example_decision]"
    by (simp_all add: example_memory_document_def proposal_blocks_def decision_blocks_def List.map_filter_def)
  then show ?thesis using decisions_match_proposals[OF example_integrity] example_integrity[of example_note_env] by (simp del: lit_simps)
qed

text \<open>An identifier with a body of the greatest length is longer than a document may hold, unless its prefix is short.\<close>

lemma long_proposal_id_refused:
  assumes "length (sanitize_id_body seed) = MAX_ID_BODY_LEN"
  shows "validate_document_id (make_knowledge_id PrefixProposal seed) (lit ''prop'') field = dd_err (lit ''Invalid '' @ field)"
  using assms by (simp add: validate_document_id_def make_knowledge_id_def prefix_as_str_def MAX_ID_CHARS_def MAX_ID_BODY_LEN_def)


end
