(* ===== verification/Spec2Isabelle.thy ===== *)
theory Spec2Isabelle
  imports Sync_Run Index_Document Link_Resolution Ai_Turn Knowledge_Decision
begin

text \<open>
  \<^bold>\<open>The program.\<close> kuku is a desktop application for vaults of markdown notes, with synchronization between devices, an
  index, and an assistant that proposes changes to the notes. Its Rust core is \<open>src/apps/desktop/src-tauri/src\<close> with the
  crates \<open>kuku-indexer\<close> and \<open>kuku-ai\<close> under \<open>src/crates\<close>. This development models the \<open>sync\<close> modules and the parts of
  \<open>vault\<close> that they rest on, the indexer and the resolution of links, the turn of an assistant with the guarded changes
  of notes, and the notes of the knowledge vault. It reads in the order of the imports.

  \<^bold>\<open>How the parts interact.\<close> The scanner walks the vault and returns the markdown files with their hashes; the database
  records a scan and keeps, for each vault, the local and remote head, the rows of files, the trees of commits and open
  conflicts. A push plans a commit from a scan, packs and encrypts the contents, uploads the objects through the transfer
  queue, signs and publishes the commit and records it. A pull lists the history of the server, selects the commits to
  replay, decrypts and checks each, writes its changes into the vault (merging with local edits, with conflict copies
  where a merge is not possible), tells the watcher which events to expect, and records the commit as the new head. A run
  of the service takes the lock on runs, pulls, pushes, and reports its phases and progress as a status. The indexer cuts
  a note into sections, chunks and links; a link is resolved against the paths of all notes. A turn of the assistant
  sends the history to a model, executes the tools that the model calls, asks the user about every change, and hands
  approved plans to the host, which guards the protected folders and the contents that the plan expects.

  \<^bold>\<open>Theories and sources.\<close>
  \<^item> \<open>Prelude\<close>: results as sums, \<open>res_bind\<close>, \<open>res_map\<close>, \<open>res_fold\<close>, with their simplification rules; generic facts on
    lists and sorting.
  \<^item> \<open>State_Error\<close>: actions on a state that may fail (\<open>act_bind\<close>), the locale \<open>frame\<close> for what an action leaves alone,
    and the rules \<open>act_inv\<close> and \<open>ends\<close> for invariants and for results.
  \<^item> \<open>Rust_Std\<close>, \<open>Utf8\<close>, \<open>Rust_Path\<close>, \<open>BTree_Map\<close>: what the sources use of the language and its library: strings as lists
    of code points (\<open>rstr\<close>), \<open>i64\<close> arithmetic written out, UTF-8, \<open>Path\<close> components, \<open>BTreeMap\<close> as an ordered
    association list.
  \<^item> \<open>Sync_Errors\<close> (\<open>sync/errors.rs\<close>), \<open>Sync_Merge\<close> (\<open>sync/merge.rs\<close>): error values, their category; the three way
    merge of texts and the names of conflict copies.
  \<^item> \<open>Sql_Table\<close>, \<open>Sync_Db\<close> (\<open>sync/db.rs\<close>): keyed tables as a locale, the statements of every operation of the
    database, and its reachable states.
  \<^item> \<open>Vault_Paths\<close> (\<open>vault/mod.rs\<close>), \<open>Sync_Scanner\<close> (\<open>sync/scanner.rs\<close>): resolution of paths, the check for symbolic
    links, the listing of a directory, the scan.
  \<^item> \<open>Sync_Crypto\<close> (\<open>sync/crypto.rs\<close>, key derivation of \<open>sync/keys.rs\<close>), \<open>Sync_Packer\<close> (\<open>sync/packer.rs\<close>),
    \<open>Sync_Planner\<close> (\<open>sync/planner.rs\<close>): blobs, packs, plans.
  \<^item> \<open>Mutation_Ledger\<close> (the ledger of \<open>vault/watcher.rs\<close>): expected file events.
  \<^item> \<open>Sync_History\<close>, \<open>Sync_Applier\<close>, \<open>Sync_Pull\<close> (\<open>sync/applier.rs\<close>): the checks on a commit and the history, the pull,
    its properties.
  \<^item> \<open>Sync_Transfer\<close> (\<open>sync/transfer.rs\<close>): batches of concurrent uploads and downloads with retries.
  \<^item> \<open>Sync_Push\<close>, \<open>Sync_Publish\<close>, \<open>Sync_Push_Run\<close> (\<open>sync/checkpoint.rs\<close>): the push, what it uploads, its properties.
  \<^item> \<open>Sync_State\<close> (\<open>sync/mod.rs\<close>, \<open>sync/types.rs\<close>), \<open>Sync_Config\<close> (\<open>sync/vault_config.rs\<close>), \<open>Sync_Run\<close>
    (\<open>sync/commands.rs\<close>): the status and the lock on runs as a state machine, the settings file, and a run as a whole.
  \<^item> \<open>Index_Text\<close>, \<open>Index_Links\<close>, \<open>Index_Document\<close> (\<open>kuku-indexer\<close>), \<open>Link_Resolution\<close> (\<open>search/wikilink.rs\<close>): chunks,
    queries and snippets; the links of a note; the fold over the events of the markdown parser; which note a link means.
  \<^item> \<open>Protected_Paths\<close> (\<open>knowledge/protected_paths.rs\<close>), \<open>Ai_Mutations\<close> (\<open>ai_host/desktop_host.rs\<close>,
    \<open>vault/checksum.rs\<close>, \<open>kuku-ai/mutation.rs\<close>): the guard, and the plans that the host performs.
  \<^item> \<open>Ai_History\<close>, \<open>Ai_Session\<close> (\<open>kuku-ai\<close>: \<open>types.rs\<close>, \<open>session.rs\<close>, \<open>tools\<close>): messages, the context of a message,
    the compaction of a history; sessions, approvals, tools and the loop of a turn. \<open>Ai_Turn_Rules\<close> states what an
    invariant of the steps of a turn has to satisfy (the locales \<open>turn_steps\<close>, \<open>turn_rules\<close>, \<open>turn_gate\<close>), \<open>Ai_Turn\<close>
    interprets them for each property.
  \<^item> \<open>Knowledge_Markdown\<close> (\<open>knowledge/markdown.rs\<close>): identifiers, safe paths, references to sources, and the markdown
    form of notes.
  \<^item> \<open>Knowledge_Decision\<close> (\<open>knowledge/decision_document.rs\<close>): decision documents: the scanner of fenced blocks, parsing
    and saving, and the check that decisions and proposals belong together.

  A \<open>struct\<close> is a record whose fields carry a two letter prefix, an \<open>enum\<close> a datatype with the constructors of the
  source, a \<open>Result\<close> a sum with the error on the left. Code that changes the file system, the database, the ledger, the
  session or the server is an action: a function of the whole state (\<open>pull_world\<close>, \<open>push_world\<close>, \<open>transfer_world\<close>,
  \<open>run_world\<close>, \<open>ai_world\<close>, \<open>turn_world\<close>) that returns a result and the new state, so that a failure keeps the changes
  made before it.

  \<^bold>\<open>Parameters.\<close> Code that is not part of the repository is an argument, and what is used of it a named hypothesis:
  the hash and Unicode tables (\<open>lower_ok\<close>, \<open>lower_ascii_ok\<close>, \<open>nfc_ok\<close>, \<open>nfc_names_ok\<close>), tar, zstd and JSON
  (\<open>pack_env_ok\<close>, \<open>push_env_ok\<close>, \<open>config_json_ok\<close>), YAML (\<open>yaml_reads_back\<close>), the AEAD (\<open>aead_ok\<close>: decryption inverts
  encryption for the same nonce and data), the operating system (\<open>os_confined\<close>: an operation on a path touches what is
  below it only; \<open>os_reads_back\<close>, \<open>os_read_exists\<close>, \<open>os_removes\<close>, \<open>canonical_laws\<close>), the server (\<open>pull_env\<close>,
  \<open>transfer_api\<close>, \<open>push_env\<close>), the markdown parser, the models and native tools, random numbers and clocks. Tasks that run
  concurrently take effect in an order given by \<open>ta_order\<close>, about which nothing is assumed; what other callers do between
  two steps of a run (\<open>re_others\<close>) or while a turn waits (a script of batches of commands) is arbitrary as well.
  During one pull the answers of the server are functions of the request.

  \<^bold>\<open>What is shown.\<close>
  \<^item> Convergence: a pull stores for the new head exactly the tree that the whole history describes, from whatever
    state the device starts (\<open>pull_converges\<close>), it reaches the head of the server, and a second pull changes nothing.
    What a push publishes is accepted by every device and yields the tree that the pushing device stores
    (\<open>published_commit_accepted\<close>); together the two make stored trees agree.
  \<^item> Safety of the user's files: nothing outside the vault is changed whatever is received (\<open>pull_stays_in_vault\<close>);
    local edits survive a remote delete in a listed conflict copy; conflict copies get fresh names; a push on top of
    a head that differs from the recorded one is refused. What a model proposes changes nothing in the protected folders
    (\<open>ai_changes_spare_protected\<close>, as long as the folder above them is not its
    subject), and changes are made only after the user approved it
    (\<open>turn_applies_only_approved\<close>).
  \<^item> Integrity: packs and blobs are read back as written and only under their own associated data; downloads have
    the announced hash and size; uploads are confirmed; a scan is exact; plans refer to the stored contents; notes of the
    knowledge vault are read back; saving a decision document keeps the text around its blocks, and the decisions of a
    checked document match its proposals one to one.
  \<^item> Refinement and equivalence: the merge is the three way merge of a reference definition, recording a scan
    implements an update of a map, the resolution of links equals its specification.
  \<^item> Invariants and state machines: every reachable database keeps its keys; the status of the service stays
    consistent and runs exclude each other under every interleaving; a run releases its lock however it ends; a turn
    ends or waits for an answer that it would take, and the history has an answer for every call.
  \<^item> The indexer: chunks cover a block and stay in their bounds, positions have no gaps, the links of a note are
    extracted exactly, snippets show the match.
  \<^item> Totality and bounds: recursion is structural or has a measure (the cursor of the history below \<open>i64::MAX\<close>, the
    suffixes of conflict names below \<open>i32::MAX\<close>); the attempts of a transfer are the list \<open>[0..<max_attempts]\<close>, the rounds
    of a turn are bounded by the limit of its mode; shards respect their limit; retry delays are bounded; the history sent
    to a model is bounded. No definition uses fuel that can run out.

  \<^bold>\<open>Behaviour worth knowing\<close>, each with a lemma: a deletion that another caller has scanned is never published
  (\<open>seen_deletion_not_published\<close>); a repeated completion is accepted (\<open>repeated_completion_accepted\<close>); a merge can join
  lines (\<open>merge_markdown_joins_lines\<close>); a pack may hide a file (\<open>unpack_accepts_hidden_entry\<close>); a pull can stop at an
  edited file that it deleted itself (\<open>edited_file_gone_stops_pull\<close>); empty directories are listed
  (\<open>listing_keeps_empty_folders\<close>); changing the workspace of a vault keeps the old heads
  (\<open>switched_workspace_keeps_heads\<close>); a snippet can panic when lower case changes the length of a text (\<open>snippet_panics\<close>);
  the text of an item in front of a nested list is lost (\<open>nested_item_text_lost\<close>); the folder above the protected ones can
  be deleted (\<open>parent_folder_deleted\<close>), and another folder can take its name (\<open>folder_renamed_to_parent\<close>); a push for a
  vault without a record accepts a head that was never pulled
  (\<open>unrecorded_head_accepted\<close>); folders made before a conflict stay
  (\<open>conflict_after_folders\<close>); a message to a
  busy session frees it (\<open>busy_message_frees_session\<close>); a cancelled turn leaves a call without answer
  (\<open>cancelled_turn_leaves_call\<close>); a source with a percent sign in its name is accepted and then refused
  (\<open>percent_source_refused\<close>); a proposal with a long title is created and then refused (\<open>long_proposal_id_refused\<close>).

  \<^bold>\<open>Not modelled.\<close> Opening SQLite files, pragmas and transactions that fail half way (a failing statement leaves the
  database as it was); the HTTP and RPC clients; the key chain and the wrapping of keys; sleeping; of \<open>sync/commands.rs\<close>
  the first configuration of a vault, accounts and workspaces, which are calls of the server. The SQLite index, its writer
  thread and its queries; creating proposals, applying decision documents, and the search in notes; the adapters of
  the providers of models, the map of sessions and the tools that search the vault; authentication, plug-ins, the Tauri
  shell and the file commands, the generated protocol bindings, the TypeScript front end and the Go server: these are
  input and output, calls of libraries, or generated.
\<close>

section \<open>Properties that span components\<close>

text \<open>
  C38. Scanning a vault and recording the scan always succeeds together: whatever the scanner returns
  is accepted by the database, afterwards the live rows are exactly the scanned files, and every
  recorded row has the hash of the content that was read.
\<close>
theorem scan_is_recorded:
  assumes "lower_ok lower" "fs_wf (FsDir es err)" "db_wf hash db"
    and "scan_vault hash lower root (Inr (FsDir es err)) = Inr files"
    and "inj_on (file_id_of hash) (sf_normalized_path ` set (db_files db) \<union> scf_normalized_path ` set files)"
  shows "\<exists>db' res. apply_scan hash db (map file_input files) now = Inr (db', res) \<and>
    sf_normalized_path ` {r \<in> set (db_files db'). \<not> sf_deleted r} = scf_normalized_path ` set files \<and>
    map sf_plaintext_hash (sar_upserts res) = map (\<lambda>f. Some (hash (scf_plaintext f))) files"
proof -
  note ok = scan_vault_inputs_ok [OF assms(1,2,4)]
  have paths: "si_normalized_path ` set (map file_input files) = scf_normalized_path ` set files"
    by (auto simp: file_input_def image_image)
  from apply_scan_ok [OF db_wf_files [OF assms(3)] _ ok, of now] assms(5) paths
  obtain rows where run: "apply_scan hash db (map file_input files) now = Inr (db\<lparr>db_files := rows\<rparr>,
      \<lparr>sar_upserts = map (\<lambda>f. scan_row hash (file_view (db_files db) (si_normalized_path f)) f) (map file_input files),
       sar_deletions = map (mark_deleted_row now)
         (filter (gone_row (map si_normalized_path (map file_input files))) (list_files db))\<rparr>)"
    and wf: "files_wf hash rows" and v: "file_view rows = scan_view hash (file_view (db_files db)) (map file_input files) now"
    by auto
  have "sf_plaintext_hash (scan_row hash prev (file_input f)) = Some (hash (scf_plaintext f))" if f: "f \<in> set files" for f prev
  proof -
    obtain ws data where "scan_file hash lower root (root @ map Normal ws) data = Inr f"
      using f unfolding scan_vault_Inr(3) [OF assms(4,2)] by auto
    then have "scf_plaintext_hash f = hash (scf_plaintext f)"
      by (auto simp: scan_file_def Let_def res_bind_eq_Inr)
    then show ?thesis by (simp add: scan_row_def scanned_row_def file_do_update_def file_input_def split: option.splits)
  qed
  then show ?thesis using run scan_live_paths [OF wf v] paths by auto
qed

theorem scan_is_recorded_witness:
  "\<exists>db' res. apply_scan example_hash (init_schema None) (map file_input example_scan) 9 = Inr (db', res) \<and>
    sf_normalized_path ` {r \<in> set (db_files db'). \<not> sf_deleted r} = {lit ''a.md'', lit ''b.md''}"
proof -
  have wf: "db_wf example_hash (init_schema None)" by (intro db_wf_init_schema) simp
  have inj: "inj_on (file_id_of example_hash) (sf_normalized_path ` set (db_files (init_schema None)) \<union>
      scf_normalized_path ` set example_scan)"
    by (simp add: example_scan_def file_id_for_normalized_path_def example_hash_def as_bytes_def utf8_char_def)
  show ?thesis
    using scan_is_recorded [OF lower_ok_ascii example_vault_wf wf example_vault_scan inj, of 9]
    by (auto simp: example_scan_def)
qed

end
